(* ===== verification/Interlock_Prelude.thy ===== *)
theory Interlock_Prelude
  imports
    Main
    "HOL-Library.AList"
    "HOL-Library.Char_ord"
    "HOL-Library.Countable"
    "HOL-Library.List_Lexorder"
    "HOL-Library.Product_Lexorder"
begin

text \<open>
  Shared vocabulary of the Interlock development: instants and durations, Python values of
  type \<open>Any\<close>, the exceptions the modelled code raises, Python dictionaries with their
  insertion order, and the fragment of SQL the SQLAlchemy stores use (conditional UPDATE,
  UPDATE with RETURNING, primary-key guarded INSERT, SELECT by key).

  Conventions. A \<open>datetime\<close> is an instant: the integer number of microseconds since
  1970-01-01T00:00:00Z, the resolution Python's \<open>datetime\<close> has; conversions between
  time zones do not change an instant, so \<open>_as_utc\<close> and \<open>_aware_utc\<close> are the
  identity here. A \<open>timedelta\<close> is an integer number of microseconds. Python's \<open>int\<close> is
  \<open>int\<close>. A clock reading is an argument of the operation that reads the clock, and so is a
  value drawn from \<open>secrets\<close>.
\<close>

section \<open>Named collections\<close>

named_theorems store_defs \<open>definitions of the operations of the stores\<close>
named_theorems frame_simps \<open>what an operation leaves unchanged\<close>
named_theorems inv_intros \<open>preservation of the component invariants\<close>

section \<open>Instants, durations and Python values\<close>

type_synonym datetime = int
type_synonym timedelta = int

definition seconds :: "int \<Rightarrow> timedelta" where
  "seconds s = s * 1000000"

lemma seconds_nonneg [simp]: "0 \<le> seconds s \<longleftrightarrow> 0 \<le> s"
  by (simp add: seconds_def)

lemma seconds_pos [simp]: "0 < seconds s \<longleftrightarrow> 0 < s"
  by (simp add: seconds_def)

text \<open>The values a field annotated \<open>Any\<close> or \<open>dict[str, Any]\<close> holds in the modelled code.\<close>

datatype pyval =
    PNone
  | PBool bool
  | PInt int
  | PStr string
  | PList "pyval list"
  | PDict "(string \<times> pyval) list"

type_synonym pydict = "(string \<times> pyval) list"

instance pyval :: countable
  by countable_datatype

text \<open>
  The exceptions the modelled code raises or catches by class. A message that the source formats
  from several values is represented by the identifier it reports.
\<close>

datatype py_error =
    ValueError string
  | KeyError string
  | AttributeError string
  | TypeError string
  | RuntimeError string
  | IntegrityError
  | MultipleResultsFound
  | StaleFencingTokenError string
  | QuotaExceededError string
  | ApprovalError string
  | AuditLogVerificationError string
  | ExecutionTokenError string
  | HTTPException nat string
  | DuplicateCreditOperationError string
  | InsufficientCreditsError string int int datetime
  | OtherException string

text \<open>\<open>str(n)\<close> of a natural number.\<close>

fun show_nat :: "nat \<Rightarrow> string" where
  "show_nat n =
     (if n < 10 then [char_of (48 + n)] else show_nat (n div 10) @ [char_of (48 + n mod 10)])"

declare show_nat.simps [simp del]

definition show_int :: "int \<Rightarrow> string" where
  "show_int i = (if i < 0 then ''-'' @ show_nat (nat (- i)) else show_nat (nat i))"

text \<open>
  \<open>str(exc)\<close>: the message the exception was raised with. The two database errors are raised by the
  driver, whose text no modelled code stores or compares.
\<close>

fun exc_str :: "py_error \<Rightarrow> string" where
  "exc_str (ValueError m) = m"
| "exc_str (KeyError k) = [CHR 0x27] @ k @ [CHR 0x27]"
| "exc_str (AttributeError m) = m"
| "exc_str (TypeError m) = m"
| "exc_str (RuntimeError m) = m"
| "exc_str IntegrityError = ''IntegrityError''"
| "exc_str MultipleResultsFound = ''MultipleResultsFound''"
| "exc_str (StaleFencingTokenError m) = m"
| "exc_str (QuotaExceededError m) = m"
| "exc_str (ApprovalError m) = m"
| "exc_str (AuditLogVerificationError m) = m"
| "exc_str (ExecutionTokenError m) = m"
| "exc_str (HTTPException status detail) = detail"
| "exc_str (DuplicateCreditOperationError key) = ''Credit ledger entry already recorded: '' @ key"
| "exc_str (InsufficientCreditsError tenant available required _) =
     ''Tenant '' @ tenant @ '' has '' @ show_int available @ '' recovery credit(s) available, '' @
     show_int required @ '' required.''"
| "exc_str (OtherException m) = m"

text \<open>Truthiness of an optional string: \<open>None\<close> and the empty string are false.\<close>

definition truthy :: "string option \<Rightarrow> bool" where
  "truthy x = (case x of None \<Rightarrow> False | Some s \<Rightarrow> s \<noteq> [])"

lemma truthy_simps [simp]:
  "truthy None = False"
  "truthy (Some s) = (s \<noteq> [])"
  by (simp_all add: truthy_def)

text \<open>
  \<open>str.lower()\<close> on the characters the modelled code compares (ASCII letters).
\<close>

definition lower_char :: "char \<Rightarrow> char" where
  "lower_char c =
     (let n = of_char c :: nat in if 65 \<le> n \<and> n \<le> 90 then char_of (n + 32) else c)"

definition lower :: "string \<Rightarrow> string" where
  "lower s = map lower_char s"

section \<open>Python dictionaries\<close>

text \<open>
  A dictionary whose order is observable is an association list with one entry per key:
  an assignment to a present key keeps its place, a new key goes to the end, which is what
  \<open>AList.update\<close> does. Where no loop reads the order a plain map \<open>'k \<rightharpoonup> 'v\<close> is used.
\<close>

type_synonym ('k, 'v) dict = "('k \<times> 'v) list"

definition wf_dict :: "('k, 'v) dict \<Rightarrow> bool" where
  "wf_dict d \<longleftrightarrow> distinct (map fst d)"

lemma wf_dict_Nil [simp, inv_intros]: "wf_dict []"
  by (simp add: wf_dict_def)

lemma wf_dict_update [intro, inv_intros]: "wf_dict d \<Longrightarrow> wf_dict (AList.update k v d)"
  by (simp add: wf_dict_def distinct_update)

lemma wf_dict_delete [intro, inv_intros]: "wf_dict d \<Longrightarrow> wf_dict (AList.delete k d)"
  by (simp add: wf_dict_def distinct_delete)

lemma wf_dict_filter [intro, inv_intros]: "wf_dict d \<Longrightarrow> wf_dict (filter P d)"
  by (simp add: wf_dict_def distinct_map_filter)

lemma dict_mem_iff: "wf_dict d \<Longrightarrow> (k, v) \<in> set d \<longleftrightarrow> map_of d k = Some v"
  by (simp add: wf_dict_def)

lemma dict_get_update [simp]:
  "map_of (AList.update k v d) k' = (if k' = k then Some v else map_of d k')"
  by (simp add: update_conv')

lemma dict_get_delete [simp]:
  "map_of (AList.delete k d) k' = (if k' = k then None else map_of d k')"
  by (simp add: delete_conv')

lemma dict_update_new: "k \<notin> fst ` set d \<Longrightarrow> AList.update k v d = d @ [(k, v)]"
  by (induction d) auto

lemma map_entry_keys [simp]: "map fst (AList.map_entry k f d) = map fst d"
  by (induction d) auto

text \<open>A dictionary filled from a list whose keys are distinct has the list's order.\<close>

lemma dict_fill:
  "distinct (map key xs) \<Longrightarrow>
     fold (\<lambda>x d. AList.update (key x) (val x) d) xs [] = map (\<lambda>x. (key x, val x)) xs"
proof (induction xs rule: rev_induct)
  case (snoc x xs)
  then have "key x \<notin> fst ` set (map (\<lambda>x. (key x, val x)) xs)" by auto
  with snoc show ?case by (simp add: dict_update_new)
qed simp

text \<open>
  \<open>max(xs, key=..)\<close>: the first element whose key is maximal; \<open>None\<close> for the empty list,
  which the modelled code tests before it calls \<open>max\<close>.
\<close>

fun py_max_by :: "('a \<Rightarrow> 'k::linorder) \<Rightarrow> 'a list \<Rightarrow> 'a option" where
  "py_max_by key [] = None"
| "py_max_by key (x # xs) =
     (case py_max_by key xs of
        None \<Rightarrow> Some x
      | Some y \<Rightarrow> if key y > key x then Some y else Some x)"

lemma py_max_by_None [simp]: "py_max_by key xs = None \<longleftrightarrow> xs = []"
  by (cases xs) (auto split: option.splits)

lemma py_max_by_Some:
  "py_max_by key xs = Some x \<Longrightarrow> x \<in> set xs \<and> (\<forall>y \<in> set xs. key y \<le> key x)"
proof (induction xs arbitrary: x)
  case Nil
  then show ?case by simp
next
  case (Cons a xs)
  show ?case
  proof (cases "py_max_by key xs")
    case None
    with Cons.prems show ?thesis by simp
  next
    case (Some m)
    from Cons.IH [OF this] Cons.prems Some show ?thesis
      by (auto split: if_splits)
  qed
qed

lemma py_max_by_unique:
  assumes "x \<in> set xs" and "\<And>y. y \<in> set xs \<Longrightarrow> y \<noteq> x \<Longrightarrow> key y < key x"
  shows "py_max_by key xs = Some x"
proof -
  from assms(1) obtain m where m: "py_max_by key xs = Some m"
    by (cases "py_max_by key xs") auto
  with py_max_by_Some [OF m] assms show ?thesis by (metis not_le)
qed

section \<open>Rows and tables\<close>

text \<open>
  A table is the list of its rows. \<open>sql_update w f\<close> is \<open>UPDATE .. WHERE w SET f\<close>,
  \<open>sql_returning\<close> the rows such an update returns, \<open>sql_insert key\<close> an INSERT guarded by
  the primary key \<open>key\<close> (\<open>None\<close> stands for the IntegrityError).
\<close>

definition sql_update :: "('r \<Rightarrow> bool) \<Rightarrow> ('r \<Rightarrow> 'r) \<Rightarrow> 'r list \<Rightarrow> 'r list" where
  "sql_update w f rows = map (\<lambda>r. if w r then f r else r) rows"

definition sql_select :: "('r \<Rightarrow> bool) \<Rightarrow> 'r list \<Rightarrow> 'r list" where
  "sql_select w rows = filter w rows"

definition sql_returning :: "('r \<Rightarrow> bool) \<Rightarrow> ('r \<Rightarrow> 'r) \<Rightarrow> 'r list \<Rightarrow> 'r list" where
  "sql_returning w f rows = map f (filter w rows)"

definition sql_insert :: "('r \<Rightarrow> 'k) \<Rightarrow> 'r \<Rightarrow> 'r list \<Rightarrow> 'r list option" where
  "sql_insert key r rows = (if key r \<in> key ` set rows then None else Some (rows @ [r]))"

fun sql_first :: "'a list \<Rightarrow> 'a option" where
  "sql_first [] = None"
| "sql_first (x # _) = Some x"

lemma sql_first_None: "sql_first xs = None \<longleftrightarrow> xs = []"
  by (cases xs) simp_all

fun scalar_one_or_none :: "'a list \<Rightarrow> py_error + 'a option" where
  "scalar_one_or_none [] = Inr None"
| "scalar_one_or_none [x] = Inr (Some x)"
| "scalar_one_or_none (_ # _ # _) = Inl MultipleResultsFound"

lemma scalar_one_or_none_error: "scalar_one_or_none xs = Inl e \<Longrightarrow> e = MultipleResultsFound"
  by (cases xs rule: scalar_one_or_none.cases) auto

text \<open>What a table means as a finite map from its primary key.\<close>

definition tab :: "('r \<Rightarrow> 'k) \<Rightarrow> 'r list \<Rightarrow> 'k \<rightharpoonup> 'r" where
  "tab key rows = map_of (map (\<lambda>r. (key r, r)) rows)"

definition pk :: "('r \<Rightarrow> 'k) \<Rightarrow> 'r list \<Rightarrow> bool" where
  "pk key rows \<longleftrightarrow> distinct (map key rows)"

lemma pk_Nil [simp]: "pk key []"
  by (simp add: pk_def)

lemma tab_Nil [simp]: "tab key [] = Map.empty"
  by (simp add: tab_def)

lemma tab_Cons [simp]: "tab key (r # rows) = (tab key rows)(key r \<mapsto> r)"
  by (simp add: tab_def)

lemma tab_None_iff: "tab key rows k = None \<longleftrightarrow> k \<notin> key ` set rows"
  by (induction rows) auto

lemma tab_SomeD: "tab key rows k = Some r \<Longrightarrow> r \<in> set rows \<and> key r = k"
  by (induction rows) (auto split: if_splits)

lemma tab_append: "tab key (rows @ rows') = tab key rows' ++ tab key rows"
  by (simp add: tab_def)

lemma pk_update: "(\<And>r. key (f r) = key r) \<Longrightarrow> pk key (sql_update w f rows) = pk key rows"
  by (simp add: pk_def sql_update_def o_def if_distrib [of key] cong: if_cong)

lemma pk_insert: "pk key rows \<Longrightarrow> sql_insert key r rows = Some rows' \<Longrightarrow> pk key rows'"
  by (auto simp: pk_def sql_insert_def split: if_splits)

lemma filter_pk:
  "pk key rows \<Longrightarrow>
   filter (\<lambda>r. key r = k \<and> P r) rows =
     (case tab key rows k of None \<Rightarrow> [] | Some r \<Rightarrow> if P r then [r] else [])"
proof (induction rows)
  case Nil
  then show ?case by simp
next
  case (Cons r rows)
  then have pk: "pk key rows" and new: "key r \<notin> key ` set rows"
    by (auto simp: pk_def)
  show ?case
  proof (cases "key r = k")
    case True
    then have "filter (\<lambda>r. key r = k \<and> P r) rows = []"
      using new by (force simp: filter_empty_conv image_iff)
    with True show ?thesis by simp
  next
    case False
    with Cons.IH [OF pk] show ?thesis by simp
  qed
qed

lemma sql_select_pk:
  "pk key rows \<Longrightarrow>
   sql_select (\<lambda>r. key r = k) rows = (case tab key rows k of None \<Rightarrow> [] | Some r \<Rightarrow> [r])"
  using filter_pk [of key rows k "\<lambda>_. True"]
  by (simp add: sql_select_def split: option.split)

lemma sql_returning_pk:
  "pk key rows \<Longrightarrow>
   sql_returning (\<lambda>r. key r = k \<and> P r) f rows =
     (case tab key rows k of None \<Rightarrow> [] | Some r \<Rightarrow> if P r then [f r] else [])"
  by (simp add: sql_returning_def filter_pk split: option.split)

lemma tab_update:
  assumes "\<And>r. key (f r) = key r" and "pk key rows"
  shows "tab key (sql_update (\<lambda>r. key r = k \<and> P r) f rows) =
    (case tab key rows k of None \<Rightarrow> tab key rows
     | Some r \<Rightarrow> if P r then (tab key rows)(k \<mapsto> f r) else tab key rows)"
  using assms(2)
proof (induction rows)
  case Nil
  then show ?case by (simp add: sql_update_def)
next
  case (Cons r rows)
  then have pk: "pk key rows" and new: "tab key rows (key r) = None"
    by (auto simp: pk_def tab_None_iff)
  show ?case
    using Cons.IH [OF pk] new assms(1)
    by (auto simp: sql_update_def fun_upd_twist split: option.splits)
qed

lemma tab_insert:
  "sql_insert key r rows =
     (if tab key rows (key r) = None then Some (rows @ [r]) else None)"
  by (simp add: sql_insert_def tab_None_iff)

lemma tab_snoc: "tab key rows (key r) = None \<Longrightarrow> tab key (rows @ [r]) = (tab key rows)(key r \<mapsto> r)"
  by (auto simp: tab_append map_add_def fun_eq_iff split: option.splits)

lemma pk_snoc: "pk key rows \<Longrightarrow> tab key rows (key r) = None \<Longrightarrow> pk key (rows @ [r])"
  by (simp add: pk_def tab_None_iff)

lemma sql_update_id: "filter w rows = [] \<Longrightarrow> sql_update w f rows = rows"
  unfolding sql_update_def by (rule map_idI) (auto simp: filter_empty_conv)

lemma sql_update_idle:
  "pk key rows \<Longrightarrow> tab key rows k = None \<Longrightarrow>
   sql_update (\<lambda>r. key r = k \<and> P r) f rows = rows"
  "pk key rows \<Longrightarrow> tab key rows k = Some r \<Longrightarrow> \<not> P r \<Longrightarrow>
   sql_update (\<lambda>r. key r = k \<and> P r) f rows = rows"
  by (simp_all add: sql_update_id filter_pk)

lemmas sql_table_simps = sql_select_pk sql_returning_pk tab_insert tab_snoc

end
