(* ===== verification/Fencing.thy ===== *)
theory Fencing
  imports Interlock_Prelude
begin

text \<open>
  The contract every issuer of fencing tokens in the code base keeps. Four components hand out
  or check fencing tokens: the two plan-lease stores, the durable recovery repository, and the
  durable step store. What their clients rely on is the same: the token a key is at never
  decreases, and a token that is issued is above every token the key was at before. The locale
  states that once; its consequence is that the tokens issued along any run strictly increase.
\<close>

fun run_steps :: "('e \<Rightarrow> 's \<Rightarrow> 's) \<Rightarrow> 'e list \<Rightarrow> 's \<Rightarrow> 's" where
  "run_steps step [] s = s"
| "run_steps step (e # es) s = run_steps step es (step e s)"

text \<open>The tokens a run issues for key \<open>k\<close>, in order.\<close>

fun issued_tokens ::
  "('e \<Rightarrow> 's \<Rightarrow> 's) \<Rightarrow> ('e \<Rightarrow> 's \<Rightarrow> 'k \<Rightarrow> int option) \<Rightarrow> 'k \<Rightarrow> 'e list \<Rightarrow> 's \<Rightarrow> int list" where
  "issued_tokens step issue k [] s = []"
| "issued_tokens step issue k (e # es) s =
     (case issue e s k of
        None \<Rightarrow> issued_tokens step issue k es (step e s)
      | Some n \<Rightarrow> n # issued_tokens step issue k es (step e s))"

lemma run_steps_append [simp]: "run_steps step (es @ fs) s = run_steps step fs (run_steps step es s)"
  by (induction es arbitrary: s) simp_all

locale fencing_authority =
  fixes step :: "'e \<Rightarrow> 's \<Rightarrow> 's"
    and issue :: "'e \<Rightarrow> 's \<Rightarrow> 'k \<Rightarrow> int option"
    and token :: "'s \<Rightarrow> 'k \<Rightarrow> int"
    and invar :: "'s \<Rightarrow> bool"
    and ok :: "'e \<Rightarrow> bool"
  assumes invar_kept: "invar s \<Longrightarrow> ok e \<Longrightarrow> invar (step e s)"
    and token_mono: "invar s \<Longrightarrow> ok e \<Longrightarrow> token s k \<le> token (step e s) k"
    and issue_above:
      "invar s \<Longrightarrow> ok e \<Longrightarrow> issue e s k = Some n \<Longrightarrow> token s k < n \<and> n \<le> token (step e s) k"
begin

lemma run_invar: "invar s \<Longrightarrow> \<forall>e \<in> set es. ok e \<Longrightarrow> invar (run_steps step es s)"
  by (induction es arbitrary: s) (auto simp: invar_kept)

lemma run_token_mono:
  "invar s \<Longrightarrow> \<forall>e \<in> set es. ok e \<Longrightarrow> token s k \<le> token (run_steps step es s) k"
proof (induction es arbitrary: s)
  case Nil
  then show ?case by simp
next
  case (Cons e es)
  then have "token (step e s) k \<le> token (run_steps step (e # es) s) k"
    by (simp add: invar_kept)
  with token_mono [of s e k] Cons.prems show ?case by simp
qed

lemma issued_increase:
  "invar s \<Longrightarrow> \<forall>e \<in> set es. ok e \<Longrightarrow>
   sorted_wrt (<) (token s k # issued_tokens step issue k es s)"
proof (induction es arbitrary: s)
  case Nil
  then show ?case by simp
next
  case (Cons e es)
  then have rest: "sorted_wrt (<) (token (step e s) k # issued_tokens step issue k es (step e s))"
    by (simp add: invar_kept)
  show ?case
  proof (cases "issue e s k")
    case None
    with rest token_mono [of s e k] Cons.prems show ?thesis by force
  next
    case (Some n)
    with rest issue_above [of s e k n] Cons.prems show ?thesis by force
  qed
qed

end

end
