(* ===== verification/Plan_Lease.thy ===== *)
theory Plan_Lease
  imports Fencing
begin

text \<open>
  The plan-lease stores of \<open>app/domain/services/distributed_recovery_orchestrator.py\<close>
  (\<open>PlanLease\<close>, \<open>InMemoryPlanLeaseStore\<close>) and of
  \<open>app/infrastructure/persistence/repositories/sqlalchemy_coordination_stores.py\<close>
  (\<open>SQLPlanLeaseStore\<close>). The protocol \<open>PlanLeaseStore\<close> is the locale
  \<open>plan_lease_store\<close>; both stores interpret it. Shown here: fencing tokens of one plan
  strictly increase over any interleaving, an unexpired lease cannot be taken, renewed or
  released by anybody else, and the SQL store refines the in-memory one.
\<close>

section \<open>Data\<close>

record plan_lease =
  pl_plan_id :: string
  pl_owner :: string
  pl_fencing_token :: int
  pl_acquired_at :: datetime
  pl_expires_at :: datetime

definition RELEASED_AT :: datetime where
  "RELEASED_AT = 0"

type_synonym lease_map = "string \<rightharpoonup> plan_lease"

section \<open>The in-memory store\<close>

text \<open>
  \<open>try_acquire\<close> and \<open>renew\<close> read the clock twice: \<open>chk\<close> is the reading of the expiry
  test, \<open>now\<close> the later one the new lease is built from.
\<close>

definition im_expired :: "datetime \<Rightarrow> plan_lease \<Rightarrow> bool" where
  "im_expired clock lease \<longleftrightarrow> clock \<ge> pl_expires_at lease"

definition im_try_acquire ::
  "datetime \<Rightarrow> datetime \<Rightarrow> string \<Rightarrow> string \<Rightarrow> timedelta \<Rightarrow> lease_map
     \<Rightarrow> plan_lease option \<times> lease_map" where
  "im_try_acquire chk now plan_id owner ttl leases =
     (case leases plan_id of
        Some existing \<Rightarrow>
          if \<not> im_expired chk existing then (None, leases)
          else let lease = \<lparr>pl_plan_id = plan_id, pl_owner = owner,
                            pl_fencing_token = pl_fencing_token existing + 1,
                            pl_acquired_at = now, pl_expires_at = now + ttl\<rparr>
               in (Some lease, leases(plan_id \<mapsto> lease))
      | None \<Rightarrow>
          let lease = \<lparr>pl_plan_id = plan_id, pl_owner = owner, pl_fencing_token = 1,
                       pl_acquired_at = now, pl_expires_at = now + ttl\<rparr>
          in (Some lease, leases(plan_id \<mapsto> lease)))"

definition im_renew ::
  "datetime \<Rightarrow> datetime \<Rightarrow> string \<Rightarrow> string \<Rightarrow> timedelta \<Rightarrow> lease_map
     \<Rightarrow> plan_lease option \<times> lease_map" where
  "im_renew chk now plan_id owner ttl leases =
     (case leases plan_id of
        None \<Rightarrow> (None, leases)
      | Some existing \<Rightarrow>
          if pl_owner existing \<noteq> owner \<or> im_expired chk existing then (None, leases)
          else let lease = existing\<lparr>pl_expires_at := now + ttl\<rparr>
               in (Some lease, leases(plan_id \<mapsto> lease)))"

definition im_release :: "string \<Rightarrow> string \<Rightarrow> lease_map \<Rightarrow> lease_map" where
  "im_release plan_id owner leases =
     (case leases plan_id of
        None \<Rightarrow> leases
      | Some existing \<Rightarrow>
          if pl_owner existing = owner
          then leases(plan_id \<mapsto> existing\<lparr>pl_owner := [], pl_expires_at := RELEASED_AT\<rparr>)
          else leases)"

definition im_get :: "string \<Rightarrow> lease_map \<Rightarrow> plan_lease option" where
  "im_get plan_id leases =
     (case leases plan_id of
        None \<Rightarrow> None
      | Some lease \<Rightarrow> if pl_owner lease = [] then None else Some lease)"

section \<open>The SQL store\<close>

text \<open>
  A row of \<open>plan_leases\<close> has the fields of \<open>PlanLease\<close>; \<open>plan_id\<close> is the primary key.
  Every statement is one conditional UPDATE or a guarded INSERT.
\<close>

type_synonym lease_table = "plan_lease list"

definition sql_try_acquire ::
  "datetime \<Rightarrow> string \<Rightarrow> string \<Rightarrow> timedelta \<Rightarrow> lease_table
     \<Rightarrow> plan_lease option \<times> lease_table" where
  "sql_try_acquire now plan_id owner ttl rows =
     (let expires_at = now + ttl;
          cond = (\<lambda>r. pl_plan_id r = plan_id \<and> pl_expires_at r \<le> now);
          take = (\<lambda>r. r\<lparr>pl_owner := owner, pl_fencing_token := pl_fencing_token r + 1,
                        pl_acquired_at := now, pl_expires_at := expires_at\<rparr>)
      in case sql_first (map pl_fencing_token (sql_returning cond take rows)) of
           Some token \<Rightarrow>
             (Some \<lparr>pl_plan_id = plan_id, pl_owner = owner, pl_fencing_token = token,
                    pl_acquired_at = now, pl_expires_at = expires_at\<rparr>,
              sql_update cond take rows)
         | None \<Rightarrow>
             (let fresh = \<lparr>pl_plan_id = plan_id, pl_owner = owner, pl_fencing_token = 1,
                           pl_acquired_at = now, pl_expires_at = expires_at\<rparr>
              in case sql_insert pl_plan_id fresh (sql_update cond take rows) of
                   None \<Rightarrow> (None, rows)
                 | Some rows' \<Rightarrow> (Some fresh, rows')))"

definition sql_renew ::
  "datetime \<Rightarrow> string \<Rightarrow> string \<Rightarrow> timedelta \<Rightarrow> lease_table
     \<Rightarrow> plan_lease option \<times> lease_table" where
  "sql_renew now plan_id owner ttl rows =
     (let expires_at = now + ttl;
          cond = (\<lambda>r. pl_plan_id r = plan_id \<and> (pl_owner r = owner \<and> pl_expires_at r > now));
          extend = (\<lambda>r. r\<lparr>pl_expires_at := expires_at\<rparr>)
      in (case sql_first (sql_returning cond extend rows) of
            None \<Rightarrow> None
          | Some row \<Rightarrow>
              Some \<lparr>pl_plan_id = plan_id, pl_owner = owner,
                    pl_fencing_token = pl_fencing_token row,
                    pl_acquired_at = pl_acquired_at row, pl_expires_at = expires_at\<rparr>,
          sql_update cond extend rows))"

definition sql_release :: "string \<Rightarrow> string \<Rightarrow> lease_table \<Rightarrow> lease_table" where
  "sql_release plan_id owner rows =
     sql_update (\<lambda>r. pl_plan_id r = plan_id \<and> pl_owner r = owner)
       (\<lambda>r. r\<lparr>pl_owner := [], pl_expires_at := RELEASED_AT\<rparr>) rows"

definition sql_get :: "string \<Rightarrow> lease_table \<Rightarrow> py_error + plan_lease option" where
  "sql_get plan_id rows =
     (case scalar_one_or_none (sql_select (\<lambda>r. pl_plan_id r = plan_id) rows) of
        Inl e \<Rightarrow> Inl e
      | Inr None \<Rightarrow> Inr None
      | Inr (Some model) \<Rightarrow> Inr (if pl_owner model = [] then None else Some model))"

section \<open>Interleavings\<close>

text \<open>
  The calls any number of coordinators make on one shared store, in the order the store's
  lock (or the database) serialises them.
\<close>

datatype lease_event =
    Acquire datetime datetime string string timedelta
  | Renew datetime datetime string string timedelta
  | Release string string

fun im_step :: "lease_event \<Rightarrow> lease_map \<Rightarrow> plan_lease option \<times> lease_map" where
  "im_step (Acquire chk now p w ttl) s = im_try_acquire chk now p w ttl s"
| "im_step (Renew chk now p w ttl) s = im_renew chk now p w ttl s"
| "im_step (Release p w) s = (None, im_release p w s)"

fun sql_step :: "lease_event \<Rightarrow> lease_table \<Rightarrow> plan_lease option \<times> lease_table" where
  "sql_step (Acquire chk now p w ttl) s = sql_try_acquire now p w ttl s"
| "sql_step (Renew chk now p w ttl) s = sql_renew now p w ttl s"
| "sql_step (Release p w) s = (None, sql_release p w s)"

text \<open>The SQL store reads the clock once per call: the two readings of an event agree.\<close>

fun one_reading :: "lease_event \<Rightarrow> bool" where
  "one_reading (Acquire chk now p w ttl) = (chk = now)"
| "one_reading (Renew chk now p w ttl) = (chk = now)"
| "one_reading (Release p w) = True"

fun run_leases ::
  "(lease_event \<Rightarrow> 's \<Rightarrow> plan_lease option \<times> 's) \<Rightarrow> lease_event list \<Rightarrow> 's \<Rightarrow> 's" where
  "run_leases step [] s = s"
| "run_leases step (e # es) s = run_leases step es (snd (step e s))"

text \<open>The leases an interleaving grants on plan \<open>p\<close>, in order.\<close>

fun grants ::
  "(lease_event \<Rightarrow> 's \<Rightarrow> plan_lease option \<times> 's) \<Rightarrow> string \<Rightarrow> lease_event list \<Rightarrow> 's
     \<Rightarrow> plan_lease list" where
  "grants step p [] s = []"
| "grants step p (e # es) s =
     (case (e, fst (step e s)) of
        (Acquire _ _ q _ _, Some l) \<Rightarrow>
          (if q = p then l # grants step p es (snd (step e s))
           else grants step p es (snd (step e s)))
      | _ \<Rightarrow> grants step p es (snd (step e s)))"

text \<open>
  An event disturbs the lease of owner \<open>w\<close> on plan \<open>p\<close> that expires at \<open>t\<close> when it is
  \<open>w\<close>'s own renewal or release, or an acquisition that sees the lease expired.
\<close>

fun disturbs :: "string \<Rightarrow> string \<Rightarrow> datetime \<Rightarrow> lease_event \<Rightarrow> bool" where
  "disturbs p w t (Acquire chk now q v ttl) = (q = p \<and> t \<le> chk)"
| "disturbs p w t (Renew chk now q v ttl) = (q = p \<and> v = w)"
| "disturbs p w t (Release q v) = (q = p \<and> v = w)"

section \<open>The protocol as an interface\<close>

text \<open>The fencing token a plan is at; 0 for a plan that never held a lease.\<close>

definition plan_token :: "lease_map \<Rightarrow> string \<Rightarrow> int" where
  "plan_token leases p = (case leases p of None \<Rightarrow> 0 | Some l \<Rightarrow> pl_fencing_token l)"

lemma plan_token_simps [simp]:
  "leases p = None \<Longrightarrow> plan_token leases p = 0"
  "leases p = Some l \<Longrightarrow> plan_token leases p = pl_fencing_token l"
  by (simp_all add: plan_token_def)

lemma plan_token_upd [simp]:
  "plan_token (leases(q \<mapsto> l)) p = (if p = q then pl_fencing_token l else plan_token leases p)"
  by (simp add: plan_token_def)

text \<open>The lease an acquisition on \<open>leases\<close> creates.\<close>

definition fresh_lease ::
  "lease_map \<Rightarrow> datetime \<Rightarrow> string \<Rightarrow> string \<Rightarrow> timedelta \<Rightarrow> plan_lease" where
  "fresh_lease leases now p w ttl =
     \<lparr>pl_plan_id = p, pl_owner = w, pl_fencing_token = plan_token leases p + 1,
      pl_acquired_at = now, pl_expires_at = now + ttl\<rparr>"

lemma fresh_lease_token [simp]:
  "pl_fencing_token (fresh_lease leases now p w ttl) = plan_token leases p + 1"
  by (simp add: fresh_lease_def)

text \<open>
  \<open>rows\<close> reads a store as the leases it holds, \<open>invar\<close> is the store's own invariant, and
  \<open>ok\<close> restricts the events to those the store can see.
\<close>

locale plan_lease_store =
  fixes step :: "lease_event \<Rightarrow> 's \<Rightarrow> plan_lease option \<times> 's"
    and rows :: "'s \<Rightarrow> lease_map"
    and invar :: "'s \<Rightarrow> bool"
    and ok :: "lease_event \<Rightarrow> bool"
  assumes invar_step: "invar s \<Longrightarrow> ok e \<Longrightarrow> invar (snd (step e s))"
    and acquire_held:
      "invar s \<Longrightarrow> ok (Acquire chk now p w ttl) \<Longrightarrow> rows s p = Some l \<Longrightarrow> chk < pl_expires_at l
       \<Longrightarrow> fst (step (Acquire chk now p w ttl) s) = None \<and>
           rows (snd (step (Acquire chk now p w ttl) s)) = rows s"
    and acquire_free:
      "invar s \<Longrightarrow> ok (Acquire chk now p w ttl) \<Longrightarrow>
       (\<And>l. rows s p = Some l \<Longrightarrow> pl_expires_at l \<le> chk) \<Longrightarrow>
       fst (step (Acquire chk now p w ttl) s) = Some (fresh_lease (rows s) now p w ttl) \<and>
       rows (snd (step (Acquire chk now p w ttl) s)) =
         (rows s)(p \<mapsto> fresh_lease (rows s) now p w ttl)"
    and renew_own:
      "invar s \<Longrightarrow> ok (Renew chk now p w ttl) \<Longrightarrow> rows s p = Some l \<Longrightarrow> pl_owner l = w \<Longrightarrow>
       chk < pl_expires_at l \<Longrightarrow>
       fst (step (Renew chk now p w ttl) s) = Some (l\<lparr>pl_expires_at := now + ttl\<rparr>) \<and>
       rows (snd (step (Renew chk now p w ttl) s)) =
         (rows s)(p \<mapsto> l\<lparr>pl_expires_at := now + ttl\<rparr>)"
    and renew_other:
      "invar s \<Longrightarrow> ok (Renew chk now p w ttl) \<Longrightarrow>
       (\<And>l. rows s p = Some l \<Longrightarrow> pl_owner l \<noteq> w \<or> pl_expires_at l \<le> chk) \<Longrightarrow>
       fst (step (Renew chk now p w ttl) s) = None \<and>
       rows (snd (step (Renew chk now p w ttl) s)) = rows s"
    and release_own:
      "invar s \<Longrightarrow> rows s p = Some l \<Longrightarrow> pl_owner l = w \<Longrightarrow>
       rows (snd (step (Release p w) s)) =
         (rows s)(p \<mapsto> l\<lparr>pl_owner := [], pl_expires_at := RELEASED_AT\<rparr>)"
    and release_other:
      "invar s \<Longrightarrow> (\<And>l. rows s p = Some l \<Longrightarrow> pl_owner l \<noteq> w) \<Longrightarrow>
       rows (snd (step (Release p w) s)) = rows s"
begin

lemma step_cases:
  assumes "invar s" and "ok e"
  obtains (same) "rows (snd (step e s)) = rows s"
  | (granted) chk now p w ttl where "e = Acquire chk now p w ttl"
      "fst (step e s) = Some (fresh_lease (rows s) now p w ttl)"
      "rows (snd (step e s)) = (rows s)(p \<mapsto> fresh_lease (rows s) now p w ttl)"
      "\<And>l. rows s p = Some l \<Longrightarrow> pl_expires_at l \<le> chk"
  | (kept) p l l' where "rows s p = Some l" "rows (snd (step e s)) = (rows s)(p \<mapsto> l')"
      "pl_fencing_token l' = pl_fencing_token l" "disturbs p (pl_owner l) (pl_expires_at l) e"
proof (cases e)
  case (Acquire chk now p w ttl)
  show ?thesis
  proof (cases "\<exists>l. rows s p = Some l \<and> chk < pl_expires_at l")
    case True
    then show ?thesis using acquire_held assms Acquire same by blast
  next
    case False
    then have free: "\<And>l. rows s p = Some l \<Longrightarrow> pl_expires_at l \<le> chk" by force
    then have "fst (step e s) = Some (fresh_lease (rows s) now p w ttl) \<and>
        rows (snd (step e s)) = (rows s)(p \<mapsto> fresh_lease (rows s) now p w ttl)"
      using acquire_free [of s chk now p w ttl] assms Acquire by simp
    with granted [OF Acquire] free show ?thesis by blast
  qed
next
  case (Renew chk now p w ttl)
  show ?thesis
  proof (cases "\<exists>l. rows s p = Some l \<and> pl_owner l = w \<and> chk < pl_expires_at l")
    case True
    then obtain l where l: "rows s p = Some l" "pl_owner l = w" "chk < pl_expires_at l" by blast
    from renew_own [OF assms(1) _ l] assms(2) Renew l show ?thesis
      by (intro kept [of p l "l\<lparr>pl_expires_at := now + ttl\<rparr>"]) auto
  next
    case False
    then have "\<And>l. rows s p = Some l \<Longrightarrow> pl_owner l \<noteq> w \<or> pl_expires_at l \<le> chk" by force
    with renew_other [of s chk now p w ttl] assms Renew same show ?thesis by simp
  qed
next
  case (Release p w)
  show ?thesis
  proof (cases "\<exists>l. rows s p = Some l \<and> pl_owner l = w")
    case True
    then obtain l where l: "rows s p = Some l" "pl_owner l = w" by blast
    from release_own [OF assms(1) l] Release l show ?thesis
      by (intro kept [of p l "l\<lparr>pl_owner := [], pl_expires_at := RELEASED_AT\<rparr>"]) auto
  next
    case False
    then show ?thesis using release_other [OF assms(1)] Release same by blast
  qed
qed

lemma step_token_mono:
  "invar s \<Longrightarrow> ok e \<Longrightarrow> plan_token (rows s) p \<le> plan_token (rows (snd (step e s))) p"
  by (erule (1) step_cases) auto

lemma grant_tokens:
  assumes "invar s" and "ok (Acquire chk now p w ttl)"
    and "fst (step (Acquire chk now p w ttl) s) = Some l"
  shows "pl_fencing_token l = plan_token (rows s) p + 1"
    and "plan_token (rows (snd (step (Acquire chk now p w ttl) s))) p = pl_fencing_token l"
  using acquire_free [of s chk now p w ttl] acquire_held [of s chk now p w ttl] assms
  by (force simp: not_less [symmetric])+

lemma undisturbed_step:
  assumes "invar s" and "ok e" and "rows s p = Some l"
    and "\<not> disturbs p (pl_owner l) (pl_expires_at l) e"
  shows "rows (snd (step e s)) p = Some l"
  using assms(1,2)
proof (cases rule: step_cases)
  case (granted chk now q w ttl)
  with assms show ?thesis by auto
qed (use assms in auto)

lemma undisturbed_run:
  assumes "invar s" and "\<forall>e \<in> set es. ok e" and "rows s p = Some l"
    and "\<forall>e \<in> set es. \<not> disturbs p (pl_owner l) (pl_expires_at l) e"
  shows "rows (run_leases step es s) p = Some l"
  using assms
  by (induction es arbitrary: s) (auto simp: invar_step undisturbed_step)

lemma undisturbed_no_grant:
  assumes "invar s" and "\<forall>e \<in> set es. ok e" and "rows s p = Some l"
    and "\<forall>e \<in> set es. \<not> disturbs p (pl_owner l) (pl_expires_at l) e"
  shows "grants step p es s = []"
  using assms
proof (induction es arbitrary: s)
  case Nil
  then show ?case by simp
next
  case (Cons e es)
  have "grants step p es (snd (step e s)) = []"
    using Cons by (simp add: invar_step undisturbed_step)
  moreover have "fst (step (Acquire chk now p w ttl) s) = None"
    if "e = Acquire chk now p w ttl" for chk now w ttl
    using acquire_held [of s chk now p w ttl l] Cons.prems that by auto
  ultimately show ?case by (auto split: lease_event.splits option.splits)
qed

end

text \<open>The token an event issues on a plan: an acquisition that succeeds issues one.\<close>

fun lease_issue ::
  "(lease_event \<Rightarrow> 's \<Rightarrow> plan_lease option \<times> 's) \<Rightarrow> lease_event \<Rightarrow> 's \<Rightarrow> string \<Rightarrow> int option" where
  "lease_issue step (Acquire chk now q w ttl) s p =
     (if q = p then map_option pl_fencing_token (fst (step (Acquire chk now q w ttl) s)) else None)"
| "lease_issue step (Renew chk now q w ttl) s p = None"
| "lease_issue step (Release q w) s p = None"

lemma issued_grants:
  "issued_tokens (\<lambda>e s. snd (step e s)) (lease_issue step) p es s =
     map pl_fencing_token (grants step p es s)"
  by (induction es arbitrary: s) (auto split: lease_event.split option.split)

sublocale plan_lease_store \<subseteq> fencing_authority
  "\<lambda>e s. snd (step e s)" "lease_issue step" "\<lambda>s. plan_token (rows s)" invar ok
proof unfold_locales
  fix s e k n
  assume "invar s" "ok e" "lease_issue step e s k = Some n"
  then show "plan_token (rows s) k < n \<and> n \<le> plan_token (rows (snd (step e s))) k"
    by (cases e) (auto simp: grant_tokens split: if_splits)
qed (simp_all add: invar_step step_token_mono)

section \<open>Both stores implement the protocol\<close>

lemmas im_defs [store_defs] =
  im_try_acquire_def im_renew_def im_release_def im_expired_def im_get_def

interpretation im: plan_lease_store im_step "\<lambda>s. s" "\<lambda>_. True" "\<lambda>_. True"
  by unfold_locales
    (auto simp: im_defs fresh_lease_def plan_token_def Let_def split: option.splits)

lemma lease_take:
  "pl_plan_id r = p \<Longrightarrow>
   r\<lparr>pl_owner := w, pl_fencing_token := t, pl_acquired_at := now, pl_expires_at := e\<rparr> =
   \<lparr>pl_plan_id = p, pl_owner = w, pl_fencing_token = t, pl_acquired_at = now, pl_expires_at = e\<rparr>"
  by (cases r) simp

lemma lease_extend:
  "pl_plan_id r = p \<Longrightarrow> pl_owner r = w \<Longrightarrow>
   \<lparr>pl_plan_id = p, pl_owner = w, pl_fencing_token = pl_fencing_token r,
    pl_acquired_at = pl_acquired_at r, pl_expires_at = e\<rparr> = r\<lparr>pl_expires_at := e\<rparr>"
  by (cases r) simp

lemma sql_try_acquire_refines:
  assumes pk: "pk pl_plan_id rows"
  shows "fst (sql_try_acquire now p w ttl rows) =
           fst (im_try_acquire now now p w ttl (tab pl_plan_id rows)) \<and>
         tab pl_plan_id (snd (sql_try_acquire now p w ttl rows)) =
           snd (im_try_acquire now now p w ttl (tab pl_plan_id rows)) \<and>
         pk pl_plan_id (snd (sql_try_acquire now p w ttl rows))"
proof (cases "tab pl_plan_id rows p")
  case None
  then show ?thesis
    using pk by (simp add: sql_try_acquire_def im_try_acquire_def Let_def sql_returning_pk
        sql_update_idle tab_insert tab_snoc pk_snoc)
next
  case (Some r)
  then have r: "pl_plan_id r = p" by (blast dest: tab_SomeD)
  show ?thesis
  proof (cases "pl_expires_at r \<le> now")
    case True
    with Some r pk show ?thesis
      by (simp add: sql_try_acquire_def im_try_acquire_def im_expired_def Let_def sql_returning_pk
          tab_update pk_update lease_take)
  next
    case False
    with Some pk show ?thesis
      by (simp add: sql_try_acquire_def im_try_acquire_def im_expired_def Let_def sql_returning_pk
          sql_update_idle tab_insert)
  qed
qed

lemma sql_renew_refines:
  assumes pk: "pk pl_plan_id rows"
  shows "fst (sql_renew now p w ttl rows) = fst (im_renew now now p w ttl (tab pl_plan_id rows)) \<and>
         tab pl_plan_id (snd (sql_renew now p w ttl rows)) =
           snd (im_renew now now p w ttl (tab pl_plan_id rows)) \<and>
         pk pl_plan_id (snd (sql_renew now p w ttl rows))"
proof (cases "tab pl_plan_id rows p")
  case None
  with pk show ?thesis
    by (simp add: sql_renew_def im_renew_def Let_def sql_returning_pk sql_update_idle)
next
  case (Some r)
  then have "pl_plan_id r = p" by (blast dest: tab_SomeD)
  with Some pk show ?thesis
    by (simp add: sql_renew_def im_renew_def im_expired_def Let_def sql_returning_pk
        tab_update pk_update lease_extend not_le)
qed

lemma sql_release_refines:
  assumes "pk pl_plan_id rows"
  shows "tab pl_plan_id (sql_release p w rows) = im_release p w (tab pl_plan_id rows) \<and>
         pk pl_plan_id (sql_release p w rows)"
  using assms by (simp add: sql_release_def im_release_def tab_update pk_update split: option.split)

lemma sql_step_refines:
  assumes "pk pl_plan_id rows" and "one_reading e"
  shows "fst (sql_step e rows) = fst (im_step e (tab pl_plan_id rows))"
    and "tab pl_plan_id (snd (sql_step e rows)) = snd (im_step e (tab pl_plan_id rows))"
    and "pk pl_plan_id (snd (sql_step e rows))"
  using assms sql_try_acquire_refines [OF assms(1)] sql_renew_refines [OF assms(1)]
    sql_release_refines [OF assms(1)]
  by (cases e; simp)+

interpretation sq: plan_lease_store sql_step "tab pl_plan_id" "pk pl_plan_id" one_reading
  by unfold_locales
    (simp_all del: sql_step.simps im_step.simps add: sql_step_refines im.acquire_held
      im.acquire_free im.renew_own im.renew_other im.release_own im.release_other)

section \<open>Properties\<close>

text \<open>
  C13. Whatever calls any number of coordinators make, in whatever order and with whatever
  clock readings, the fencing tokens the in-memory store grants on one plan strictly increase,
  and every one is above the token the plan was at; no token is ever granted twice, releases
  and takeovers included.
\<close>

theorem plan_fencing_tokens_increase:
  "sorted_wrt (<) (plan_token s p # map pl_fencing_token (grants im_step p es s))"
  using im.issued_increase [where s = s and es = es and k = p] by (simp add: issued_grants)

text \<open>
  While a lease is unexpired nobody else can take it: in any interleaving in which the
  owner neither renews nor releases and no acquisition reads a clock at or past the expiry,
  the lease stays as it is and no lease is granted on the plan.
\<close>

theorem plan_lease_exclusive_until_expiry:
  assumes "s p = Some l"
    and "\<forall>e \<in> set es. \<not> disturbs p (pl_owner l) (pl_expires_at l) e"
  shows "run_leases im_step es s p = Some l \<and> grants im_step p es s = []"
  using im.undisturbed_run [where s = s and es = es and p = p and l = l]
    im.undisturbed_no_grant [where s = s and es = es and p = p and l = l] assms
  by simp

theorem plan_lease_exclusive_until_expiry_witness:
  "run_leases im_step [Acquire 50 50 ''p'' ''b'' 10, Renew 60 60 ''p'' ''b'' 10, Release ''p'' ''b'']
     [''p'' \<mapsto> \<lparr>pl_plan_id = ''p'', pl_owner = ''a'', pl_fencing_token = 3,
                 pl_acquired_at = 0, pl_expires_at = 100\<rparr>] ''p'' =
     Some \<lparr>pl_plan_id = ''p'', pl_owner = ''a'', pl_fencing_token = 3,
           pl_acquired_at = 0, pl_expires_at = 100\<rparr>"
  using plan_lease_exclusive_until_expiry
    [of "[''p'' \<mapsto> \<lparr>pl_plan_id = ''p'', pl_owner = ''a'', pl_fencing_token = 3,
                 pl_acquired_at = 0, pl_expires_at = 100\<rparr>]" "''p''"
        "\<lparr>pl_plan_id = ''p'', pl_owner = ''a'', pl_fencing_token = 3,
                 pl_acquired_at = 0, pl_expires_at = 100\<rparr>"
        "[Acquire 50 50 ''p'' ''b'' 10, Renew 60 60 ''p'' ''b'' 10, Release ''p'' ''b'']"]
  by simp

lemma sql_grants_step:
  assumes "pk pl_plan_id rows" and "one_reading e"
    and "grants sql_step p es (snd (sql_step e rows)) =
         grants im_step p es (snd (im_step e (tab pl_plan_id rows)))"
  shows "grants sql_step p (e # es) rows = grants im_step p (e # es) (tab pl_plan_id rows)"
  using sql_step_refines(1) [OF assms(1,2)] assms(3) by (simp only: grants.simps)

lemma sql_run_refines:
  assumes "pk pl_plan_id rows" and "\<forall>e \<in> set es. one_reading e"
  shows "tab pl_plan_id (run_leases sql_step es rows) = run_leases im_step es (tab pl_plan_id rows)"
    and "grants sql_step p es rows = grants im_step p es (tab pl_plan_id rows)"
    and "pk pl_plan_id (run_leases sql_step es rows)"
  using assms
  by (induction es arbitrary: rows)
    (simp_all del: grants.simps(2) add: sql_step_refines sql_grants_step)

lemma sql_get_refines: "pk pl_plan_id rows \<Longrightarrow> sql_get p rows = Inr (im_get p (tab pl_plan_id rows))"
  by (simp add: sql_get_def im_get_def sql_select_pk split: option.split)

text \<open>
  C35. The SQL store has the semantics of the in-memory store, as its documentation says: over
  any interleaving in which each call reads one clock value, the rows mean the in-memory
  leases, the same leases are granted in the same order, and a later read returns the same
  lease (never the error of two rows for one plan).
\<close>

theorem sql_lease_store_refines_memory:
  assumes "pk pl_plan_id rows" and "\<forall>e \<in> set es. one_reading e"
  shows "tab pl_plan_id (run_leases sql_step es rows) = run_leases im_step es (tab pl_plan_id rows) \<and>
         grants sql_step p es rows = grants im_step p es (tab pl_plan_id rows) \<and>
         sql_get p (run_leases sql_step es rows) =
           Inr (im_get p (run_leases im_step es (tab pl_plan_id rows)))"
  using sql_run_refines [OF assms] by (simp add: sql_get_refines)

theorem sql_lease_store_refines_memory_witness:
  "sql_get ''p'' (run_leases sql_step [Acquire 5 5 ''p'' ''a'' 10, Acquire 7 7 ''p'' ''b'' 10] []) =
   Inr (im_get ''p'' (run_leases im_step [Acquire 5 5 ''p'' ''a'' 10, Acquire 7 7 ''p'' ''b'' 10]
          Map.empty))"
  using sql_lease_store_refines_memory
    [of "[]" "[Acquire 5 5 ''p'' ''a'' 10, Acquire 7 7 ''p'' ''b'' 10]" "''p''"]
  by simp

text \<open>
  A plan is never locked for good: when its lease is gone, released by its owner (at any
  clock reading from the epoch on) or expired (a crashed executor), the next acquisition
  succeeds, with the next fencing token.
\<close>

theorem plan_lease_available_again:
  assumes "0 \<le> chk" and "\<forall>l. s p = Some l \<longrightarrow> pl_owner l = w \<or> pl_expires_at l \<le> chk"
  shows "\<exists>l'. fst (im_try_acquire chk now p v ttl (im_release p w s)) = Some l' \<and>
              pl_owner l' = v \<and> pl_fencing_token l' = plan_token s p + 1 \<and>
              pl_expires_at l' = now + ttl"
  using assms by (auto simp: im_defs RELEASED_AT_def Let_def split: option.splits)

theorem plan_lease_available_again_witness:
  "\<exists>l'. fst (im_try_acquire 60 60 ''p'' ''b'' 10 (im_release ''p'' ''a''
            [''p'' \<mapsto> \<lparr>pl_plan_id = ''p'', pl_owner = ''a'', pl_fencing_token = 3,
                        pl_acquired_at = 0, pl_expires_at = 100\<rparr>])) = Some l' \<and>
        pl_owner l' = ''b'' \<and> pl_fencing_token l' = 4 \<and> pl_expires_at l' = 70"
  using plan_lease_available_again
    [of 60 "[''p'' \<mapsto> \<lparr>pl_plan_id = ''p'', pl_owner = ''a'', pl_fencing_token = 3,
                 pl_acquired_at = 0, pl_expires_at = 100\<rparr>]" "''p''" "''a''" 60 "''b''" 10]
  by simp

end
