(* ===== verification/Tenant_Quota.thy ===== *)
theory Tenant_Quota
  imports Interlock_Prelude
begin

text \<open>
  Tenant quotas: \<open>app/domain/services/tenant_quota_service.py\<close> (policies, the in-process
  counter store and the service) and \<open>SQLQuotaCounterStore\<close> of
  \<open>sqlalchemy_coordination_stores.py\<close>. The contract \<open>QuotaCounterStore\<close> is the locale
  \<open>quota_counter_store\<close>, interpreted by both stores. Shown: no interleaving of reservations
  exceeds a limit within a window, the SQL store refines the in-process one, the dry run
  decides like the reservation, and a compensation slot that is taken is given back.
\<close>

section \<open>Policies and decisions\<close>

record quota_policy =
  qp_tenant_id :: string
  qp_max_plans_per_day :: "int option"
  qp_max_actions_per_plan :: "int option"
  qp_max_concurrent_compensations :: "int option"

definition quota_limit_ok :: "int option \<Rightarrow> bool" where
  "quota_limit_ok v = (case v of None \<Rightarrow> True | Some n \<Rightarrow> \<not> n < 0)"

text \<open>\<open>__post_init__\<close>: the first negative limit raises, in the order of the fields.\<close>

definition mk_quota_policy ::
  "string \<Rightarrow> int option \<Rightarrow> int option \<Rightarrow> int option \<Rightarrow> py_error + quota_policy" where
  "mk_quota_policy tenant_id plans actions comps =
     (if \<not> quota_limit_ok plans then Inl (ValueError ''max_plans_per_day'')
      else if \<not> quota_limit_ok actions then Inl (ValueError ''max_actions_per_plan'')
      else if \<not> quota_limit_ok comps then Inl (ValueError ''max_concurrent_compensations'')
      else Inr \<lparr>qp_tenant_id = tenant_id, qp_max_plans_per_day = plans,
                qp_max_actions_per_plan = actions, qp_max_concurrent_compensations = comps\<rparr>)"

record quota_decision =
  qd_admitted :: bool
  qd_reason :: string
  qd_details :: pydict

definition quota_allow :: "pydict \<Rightarrow> quota_decision" where
  "quota_allow details = \<lparr>qd_admitted = True, qd_reason = [], qd_details = details\<rparr>"

definition quota_deny :: "string \<Rightarrow> pydict \<Rightarrow> quota_decision" where
  "quota_deny reason details = \<lparr>qd_admitted = False, qd_reason = reason, qd_details = details\<rparr>"

lemma quota_decision_simps [simp]:
  "qd_admitted (quota_allow d)" "\<not> qd_admitted (quota_deny r d)" "qd_reason (quota_deny r d) = r"
  by (simp_all add: quota_allow_def quota_deny_def)

definition pint_opt :: "int option \<Rightarrow> pyval" where
  "pint_opt v = (case v of None \<Rightarrow> PNone | Some n \<Rightarrow> PInt n)"

definition DAY_WINDOW :: timedelta where
  "DAY_WINDOW = 24 * 60 * 60 * 1000000"

section \<open>The in-process counter store\<close>

record tenant_usage =
  tu_plans_today :: int
  tu_day_window_start :: datetime
  tu_active_compensations :: int

type_synonym usage_map = "string \<rightharpoonup> tenant_usage"

definition new_usage :: "datetime \<Rightarrow> tenant_usage" where
  "new_usage start = \<lparr>tu_plans_today = 0, tu_day_window_start = start, tu_active_compensations = 0\<rparr>"

definition ip_rolled ::
  "string \<Rightarrow> datetime \<Rightarrow> timedelta \<Rightarrow> usage_map \<Rightarrow> tenant_usage \<times> usage_map" where
  "ip_rolled tenant_id now window m =
     (let usage = (case m tenant_id of
                     None \<Rightarrow> new_usage now
                   | Some u \<Rightarrow>
                       if now - tu_day_window_start u \<ge> window
                       then u\<lparr>tu_plans_today := 0, tu_day_window_start := now\<rparr> else u)
      in (usage, m(tenant_id \<mapsto> usage)))"

definition ip_try_reserve_plan ::
  "string \<Rightarrow> datetime \<Rightarrow> timedelta \<Rightarrow> int option \<Rightarrow> usage_map \<Rightarrow> (bool \<times> int) \<times> usage_map" where
  "ip_try_reserve_plan tenant_id now window limit m =
     (let (usage, m) = ip_rolled tenant_id now window m
      in if (case limit of None \<Rightarrow> False | Some n \<Rightarrow> tu_plans_today usage \<ge> n)
         then ((False, tu_plans_today usage), m)
         else let usage = usage\<lparr>tu_plans_today := tu_plans_today usage + 1\<rparr>
              in ((True, tu_plans_today usage), m(tenant_id \<mapsto> usage)))"

definition ip_read_plans_today ::
  "string \<Rightarrow> datetime \<Rightarrow> timedelta \<Rightarrow> usage_map \<Rightarrow> int \<times> usage_map" where
  "ip_read_plans_today tenant_id now window m =
     (let (usage, m) = ip_rolled tenant_id now window m in (tu_plans_today usage, m))"

text \<open>\<open>wall\<close> is the reading of \<open>datetime.now\<close> a new row's window start defaults to.\<close>

definition ip_setdefault :: "datetime \<Rightarrow> string \<Rightarrow> usage_map \<Rightarrow> tenant_usage \<times> usage_map" where
  "ip_setdefault wall tenant_id m =
     (case m tenant_id of
        Some u \<Rightarrow> (u, m)
      | None \<Rightarrow> (new_usage wall, m(tenant_id \<mapsto> new_usage wall)))"

definition ip_try_reserve_compensation ::
  "datetime \<Rightarrow> string \<Rightarrow> int option \<Rightarrow> usage_map \<Rightarrow> (bool \<times> int) \<times> usage_map" where
  "ip_try_reserve_compensation wall tenant_id limit m =
     (let (usage, m) = ip_setdefault wall tenant_id m
      in if (case limit of None \<Rightarrow> False | Some n \<Rightarrow> tu_active_compensations usage \<ge> n)
         then ((False, tu_active_compensations usage), m)
         else let usage = usage\<lparr>tu_active_compensations := tu_active_compensations usage + 1\<rparr>
              in ((True, tu_active_compensations usage), m(tenant_id \<mapsto> usage)))"

definition ip_release_compensation ::
  "datetime \<Rightarrow> string \<Rightarrow> usage_map \<Rightarrow> int \<times> usage_map" where
  "ip_release_compensation wall tenant_id m =
     (let (usage, m) = ip_setdefault wall tenant_id m;
          usage = usage\<lparr>tu_active_compensations := max 0 (tu_active_compensations usage - 1)\<rparr>
      in (tu_active_compensations usage, m(tenant_id \<mapsto> usage)))"

definition ip_snapshot ::
  "string \<Rightarrow> datetime \<Rightarrow> timedelta \<Rightarrow> usage_map \<Rightarrow> tenant_usage \<times> usage_map" where
  "ip_snapshot tenant_id now window m = ip_rolled tenant_id now window m"

section \<open>The SQL counter store\<close>

text \<open>One row of \<open>quota_counters\<close> per tenant, the tenant its primary key.\<close>

record quota_row =
  qr_tenant_id :: string
  qr_plans_today :: int
  qr_day_window_start :: datetime
  qr_active_compensations :: int

type_synonym quota_table = "quota_row list"

definition sql_ensure_row :: "string \<Rightarrow> datetime \<Rightarrow> quota_table \<Rightarrow> quota_table" where
  "sql_ensure_row tenant_id created_at rows =
     (case sql_insert qr_tenant_id
             \<lparr>qr_tenant_id = tenant_id, qr_plans_today = 0, qr_day_window_start = created_at,
              qr_active_compensations = 0\<rparr> rows of
        None \<Rightarrow> rows
      | Some rows' \<Rightarrow> rows')"

definition sql_roll_window ::
  "string \<Rightarrow> datetime \<Rightarrow> timedelta \<Rightarrow> quota_table \<Rightarrow> quota_table" where
  "sql_roll_window tenant_id now window rows =
     (let cutoff = now - window
      in sql_update (\<lambda>r. qr_tenant_id r = tenant_id \<and> qr_day_window_start r \<le> cutoff)
           (\<lambda>r. r\<lparr>qr_plans_today := 0, qr_day_window_start := now\<rparr>) rows)"

definition sql_counter_row :: "string \<Rightarrow> quota_table \<Rightarrow> py_error + quota_row" where
  "sql_counter_row tenant_id rows =
     (case scalar_one_or_none (sql_select (\<lambda>r. qr_tenant_id r = tenant_id) rows) of
        Inl e \<Rightarrow> Inl e
      | Inr None \<Rightarrow> Inl (RuntimeError ''quota counter row is missing'')
      | Inr (Some model) \<Rightarrow> Inr model)"

definition below :: "int option \<Rightarrow> int \<Rightarrow> bool" where
  "below limit n = (case limit of None \<Rightarrow> True | Some k \<Rightarrow> n < k)"

definition sql_try_reserve_plan ::
  "string \<Rightarrow> datetime \<Rightarrow> timedelta \<Rightarrow> int option \<Rightarrow> quota_table
     \<Rightarrow> (py_error + bool \<times> int) \<times> quota_table" where
  "sql_try_reserve_plan tenant_id now window limit rows =
     (let rows = sql_roll_window tenant_id now window (sql_ensure_row tenant_id now rows);
          cond = (\<lambda>r. qr_tenant_id r = tenant_id \<and> below limit (qr_plans_today r));
          incr = (\<lambda>r. r\<lparr>qr_plans_today := qr_plans_today r + 1\<rparr>)
      in case sql_first (map qr_plans_today (sql_returning cond incr rows)) of
           Some n \<Rightarrow> (Inr (True, n), sql_update cond incr rows)
         | None \<Rightarrow>
             (case sql_counter_row tenant_id rows of
                Inl e \<Rightarrow> Inl e
              | Inr model \<Rightarrow> Inr (False, qr_plans_today model), sql_update cond incr rows))"

definition sql_read_plans_today ::
  "string \<Rightarrow> datetime \<Rightarrow> timedelta \<Rightarrow> quota_table \<Rightarrow> (py_error + int) \<times> quota_table" where
  "sql_read_plans_today tenant_id now window rows =
     (let rows = sql_roll_window tenant_id now window (sql_ensure_row tenant_id now rows)
      in (case sql_counter_row tenant_id rows of
            Inl e \<Rightarrow> Inl e | Inr model \<Rightarrow> Inr (qr_plans_today model), rows))"

definition sql_try_reserve_compensation ::
  "datetime \<Rightarrow> string \<Rightarrow> int option \<Rightarrow> quota_table
     \<Rightarrow> (py_error + bool \<times> int) \<times> quota_table" where
  "sql_try_reserve_compensation wall tenant_id limit rows =
     (let rows = sql_ensure_row tenant_id wall rows;
          cond = (\<lambda>r. qr_tenant_id r = tenant_id \<and> below limit (qr_active_compensations r));
          incr = (\<lambda>r. r\<lparr>qr_active_compensations := qr_active_compensations r + 1\<rparr>)
      in case sql_first (map qr_active_compensations (sql_returning cond incr rows)) of
           Some n \<Rightarrow> (Inr (True, n), sql_update cond incr rows)
         | None \<Rightarrow>
             (case sql_counter_row tenant_id rows of
                Inl e \<Rightarrow> Inl e
              | Inr model \<Rightarrow> Inr (False, qr_active_compensations model),
              sql_update cond incr rows))"

definition sql_release_compensation ::
  "datetime \<Rightarrow> string \<Rightarrow> quota_table \<Rightarrow> (py_error + int) \<times> quota_table" where
  "sql_release_compensation wall tenant_id rows =
     (let rows = sql_ensure_row tenant_id wall rows;
          cond = (\<lambda>r. qr_tenant_id r = tenant_id \<and> True);
          decr = (\<lambda>r. r\<lparr>qr_active_compensations :=
                          (if qr_active_compensations r > 0
                           then qr_active_compensations r - 1 else 0)\<rparr>)
      in (case sql_first (map qr_active_compensations (sql_returning cond decr rows)) of
            None \<Rightarrow> Inl (RuntimeError ''quota counter row is missing'')
          | Some n \<Rightarrow> Inr n,
          sql_update cond decr rows))"

definition sql_snapshot ::
  "string \<Rightarrow> datetime \<Rightarrow> timedelta \<Rightarrow> quota_table \<Rightarrow> (py_error + tenant_usage) \<times> quota_table" where
  "sql_snapshot tenant_id now window rows =
     (let rows = sql_roll_window tenant_id now window (sql_ensure_row tenant_id now rows)
      in (case sql_counter_row tenant_id rows of
            Inl e \<Rightarrow> Inl e
          | Inr model \<Rightarrow>
              Inr \<lparr>tu_plans_today = qr_plans_today model,
                   tu_day_window_start = qr_day_window_start model,
                   tu_active_compensations = qr_active_compensations model\<rparr>, rows))"

section \<open>The service\<close>

text \<open>
  The injected backend: the operations of the contract \<open>QuotaCounterStore\<close>, each with the
  exception it may raise. \<open>TenantQuotaService\<close> uses whichever it is given.
\<close>

record 's counter_store =
  cs_try_reserve_plan ::
    "string \<Rightarrow> datetime \<Rightarrow> timedelta \<Rightarrow> int option \<Rightarrow> 's \<Rightarrow> (py_error + bool \<times> int) \<times> 's"
  cs_read_plans_today :: "string \<Rightarrow> datetime \<Rightarrow> timedelta \<Rightarrow> 's \<Rightarrow> (py_error + int) \<times> 's"
  cs_try_reserve_compensation ::
    "datetime \<Rightarrow> string \<Rightarrow> int option \<Rightarrow> 's \<Rightarrow> (py_error + bool \<times> int) \<times> 's"
  cs_release_compensation :: "datetime \<Rightarrow> string \<Rightarrow> 's \<Rightarrow> (py_error + int) \<times> 's"
  cs_snapshot :: "string \<Rightarrow> datetime \<Rightarrow> timedelta \<Rightarrow> 's \<Rightarrow> (py_error + tenant_usage) \<times> 's"

text \<open>An operation that cannot raise, as one that may.\<close>

definition total :: "('s \<Rightarrow> 'a \<times> 's) \<Rightarrow> 's \<Rightarrow> (py_error + 'a) \<times> 's" where
  "total f s = (Inr (fst (f s)), snd (f s))"

definition ip_store :: "usage_map counter_store" where
  "ip_store =
     \<lparr>cs_try_reserve_plan = (\<lambda>t now w lim. total (ip_try_reserve_plan t now w lim)),
      cs_read_plans_today = (\<lambda>t now w. total (ip_read_plans_today t now w)),
      cs_try_reserve_compensation = (\<lambda>wall t lim. total (ip_try_reserve_compensation wall t lim)),
      cs_release_compensation = (\<lambda>wall t. total (ip_release_compensation wall t)),
      cs_snapshot = (\<lambda>t now w. total (ip_snapshot t now w))\<rparr>"

definition sql_store :: "quota_table counter_store" where
  "sql_store =
     \<lparr>cs_try_reserve_plan = sql_try_reserve_plan, cs_read_plans_today = sql_read_plans_today,
      cs_try_reserve_compensation = sql_try_reserve_compensation,
      cs_release_compensation = sql_release_compensation, cs_snapshot = sql_snapshot\<rparr>"

type_synonym policy_map = "string \<rightharpoonup> quota_policy"

definition register_policy :: "quota_policy \<Rightarrow> policy_map \<Rightarrow> policy_map" where
  "register_policy policy policies = policies(qp_tenant_id policy \<mapsto> policy)"

definition revoke_policy :: "string \<Rightarrow> policy_map \<Rightarrow> bool \<times> policy_map" where
  "revoke_policy tenant_id policies = (policies tenant_id \<noteq> None, policies(tenant_id := None))"

definition get_policy :: "string \<Rightarrow> policy_map \<Rightarrow> quota_policy option" where
  "get_policy tenant_id policies = policies tenant_id"

definition usage_snapshot ::
  "'s counter_store \<Rightarrow> policy_map \<Rightarrow> datetime \<Rightarrow> string \<Rightarrow> 's
     \<Rightarrow> (py_error + bool \<times> tenant_usage) \<times> 's" where
  "usage_snapshot cs policies clock tenant_id s =
     (case cs_snapshot cs tenant_id clock DAY_WINDOW s of
        (Inl e, s') \<Rightarrow> (Inl e, s')
      | (Inr snap, s') \<Rightarrow> (Inr (policies tenant_id \<noteq> None, snap), s'))"

definition plan_denials :: "quota_policy \<Rightarrow> int \<Rightarrow> quota_decision option" where
  "plan_denials policy action_count =
     (case qp_max_actions_per_plan policy of
        Some limit \<Rightarrow>
          if action_count > limit
          then Some (quota_deny ''Recovery plan exceeds the per-plan action limit''
                 [(''limit'', PInt limit), (''requested'', PInt action_count)])
          else None
      | None \<Rightarrow> None)"

definition check_plan_creation ::
  "'s counter_store \<Rightarrow> policy_map \<Rightarrow> datetime \<Rightarrow> string \<Rightarrow> int \<Rightarrow> 's
     \<Rightarrow> (py_error + quota_decision) \<times> 's" where
  "check_plan_creation cs policies clock tenant_id action_count s =
     (case policies tenant_id of
        None \<Rightarrow> (Inr (quota_allow [(''policy_registered'', PBool False),
                                   (''action_count'', PInt action_count)]), s)
      | Some policy \<Rightarrow>
          (case plan_denials policy action_count of
             Some denial \<Rightarrow> (Inr denial, s)
           | None \<Rightarrow>
               (case cs_read_plans_today cs tenant_id clock DAY_WINDOW s of
                  (Inl e, s') \<Rightarrow> (Inl e, s')
                | (Inr used, s') \<Rightarrow>
                    (Inr (case qp_max_plans_per_day policy of
                            Some limit \<Rightarrow>
                              if used \<ge> limit
                              then quota_deny ''Daily recovery plan quota exhausted''
                                     [(''limit'', PInt limit), (''used'', PInt used)]
                              else quota_allow [(''policy_registered'', PBool True),
                                     (''action_count'', PInt action_count),
                                     (''plans_today'', PInt used)]
                          | None \<Rightarrow> quota_allow [(''policy_registered'', PBool True),
                                     (''action_count'', PInt action_count),
                                     (''plans_today'', PInt used)]), s'))))"

definition begin_plan_creation ::
  "'s counter_store \<Rightarrow> policy_map \<Rightarrow> datetime \<Rightarrow> string \<Rightarrow> int \<Rightarrow> 's
     \<Rightarrow> (py_error + quota_decision) \<times> 's" where
  "begin_plan_creation cs policies clock tenant_id action_count s =
     (case policies tenant_id of
        None \<Rightarrow>
          (case cs_try_reserve_plan cs tenant_id clock DAY_WINDOW None s of
             (Inl e, s') \<Rightarrow> (Inl e, s')
           | (Inr _, s') \<Rightarrow> (Inr (quota_allow [(''policy_registered'', PBool False),
                                              (''action_count'', PInt action_count)]), s'))
      | Some policy \<Rightarrow>
          (case plan_denials policy action_count of
             Some denial \<Rightarrow> (Inr denial, s)
           | None \<Rightarrow>
               (case cs_try_reserve_plan cs tenant_id clock DAY_WINDOW
                       (qp_max_plans_per_day policy) s of
                  (Inl e, s') \<Rightarrow> (Inl e, s')
                | (Inr (admitted, used), s') \<Rightarrow>
                    (Inr (if \<not> admitted
                          then quota_deny ''Daily recovery plan quota exhausted''
                                 [(''limit'', pint_opt (qp_max_plans_per_day policy)),
                                  (''used'', PInt used)]
                          else quota_allow [(''policy_registered'', PBool True),
                                 (''action_count'', PInt action_count),
                                 (''plans_today'', PInt used)]), s'))))"

definition begin_compensation ::
  "'s counter_store \<Rightarrow> policy_map \<Rightarrow> datetime \<Rightarrow> string \<Rightarrow> 's
     \<Rightarrow> (py_error + quota_decision) \<times> 's" where
  "begin_compensation cs policies wall tenant_id s =
     (let limit = (case policies tenant_id of
                     None \<Rightarrow> None | Some policy \<Rightarrow> qp_max_concurrent_compensations policy)
      in case cs_try_reserve_compensation cs wall tenant_id limit s of
           (Inl e, s') \<Rightarrow> (Inl e, s')
         | (Inr (admitted, active), s') \<Rightarrow>
             (Inr (if \<not> admitted
                   then quota_deny ''Concurrent recovery compensation quota exhausted''
                          [(''limit'', pint_opt limit), (''active'', PInt active)]
                   else quota_allow [(''policy_registered'', PBool (policies tenant_id \<noteq> None)),
                          (''active_compensations'', PInt active)]), s'))"

definition end_compensation ::
  "'s counter_store \<Rightarrow> datetime \<Rightarrow> string \<Rightarrow> 's \<Rightarrow> (py_error + unit) \<times> 's" where
  "end_compensation cs wall tenant_id s =
     (case cs_release_compensation cs wall tenant_id s of
        (Inl e, s') \<Rightarrow> (Inl e, s')
      | (Inr _, s') \<Rightarrow> (Inr (), s'))"

section \<open>The contract as an interface\<close>

text \<open>
  ``\<open>InProcessQuotaCounterStore\<close> is the executable specification'': an operation meets the
  contract when it never raises and does to the usage it means what the in-process operation
  does.
\<close>

definition meets ::
  "('s \<Rightarrow> usage_map) \<Rightarrow> ('s \<Rightarrow> bool) \<Rightarrow> ('s \<Rightarrow> (py_error + 'a) \<times> 's) \<Rightarrow> (usage_map \<Rightarrow> 'a \<times> usage_map)
     \<Rightarrow> bool" where
  "meets usage invar f g \<longleftrightarrow>
     (\<forall>s. invar s \<longrightarrow> fst (f s) = Inr (fst (g (usage s))) \<and> usage (snd (f s)) = snd (g (usage s)) \<and>
        invar (snd (f s)))"

lemma meetsD:
  assumes "meets usage invar f g" and "invar s"
  shows "fst (f s) = Inr (fst (g (usage s)))" and "usage (snd (f s)) = snd (g (usage s))"
    and "invar (snd (f s))"
  using assms by (simp_all add: meets_def)

lemma meets_total: "meets (\<lambda>s. s) (\<lambda>_. True) (total f) f"
  by (simp add: meets_def total_def)

text \<open>
  The calls any number of service instances make on one shared counter store, and what a run
  of them does. A call counts as admitted when the store says so.
\<close>

datatype quota_event =
    ReservePlan string datetime "int option"
  | ReadPlans string datetime
  | ReserveComp datetime string "int option"
  | ReleaseComp datetime string

definition outcome :: "(py_error + bool \<times> int) \<times> 's \<Rightarrow> bool \<times> 's" where
  "outcome r = (case r of (Inr (b, _), s) \<Rightarrow> (b, s) | (Inl _, s) \<Rightarrow> (False, s))"

fun quota_step :: "'s counter_store \<Rightarrow> timedelta \<Rightarrow> quota_event \<Rightarrow> 's \<Rightarrow> bool \<times> 's" where
  "quota_step cs w (ReservePlan t now lim) s = outcome (cs_try_reserve_plan cs t now w lim s)"
| "quota_step cs w (ReadPlans t now) s = (False, snd (cs_read_plans_today cs t now w s))"
| "quota_step cs w (ReserveComp wall t lim) s =
     outcome (cs_try_reserve_compensation cs wall t lim s)"
| "quota_step cs w (ReleaseComp wall t) s = (False, snd (cs_release_compensation cs wall t s))"

fun run_quota :: "'s counter_store \<Rightarrow> timedelta \<Rightarrow> quota_event list \<Rightarrow> 's \<Rightarrow> 's" where
  "run_quota cs w [] s = s"
| "run_quota cs w (e # es) s = run_quota cs w es (snd (quota_step cs w e s))"

fun plan_attempt :: "string \<Rightarrow> quota_event \<Rightarrow> bool" where
  "plan_attempt t (ReservePlan t' now lim) = (t' = t)"
| "plan_attempt t _ = False"

fun plan_admissions :: "'s counter_store \<Rightarrow> timedelta \<Rightarrow> string \<Rightarrow> quota_event list \<Rightarrow> 's \<Rightarrow> int" where
  "plan_admissions cs w t [] s = 0"
| "plan_admissions cs w t (e # es) s =
     (if plan_attempt t e \<and> fst (quota_step cs w e s) then 1 else 0) +
     plan_admissions cs w t es (snd (quota_step cs w e s))"

definition plan_attempts :: "string \<Rightarrow> quota_event list \<Rightarrow> int" where
  "plan_attempts t es = int (length (filter (plan_attempt t) es))"

text \<open>
  The events of one quota window of tenant \<open>t\<close> under its daily limit \<open>n\<close>: every plan
  reservation of \<open>t\<close> carries the limit, and no clock reading is a window away from \<open>start\<close>.
\<close>

fun in_window :: "string \<Rightarrow> datetime \<Rightarrow> timedelta \<Rightarrow> int \<Rightarrow> quota_event \<Rightarrow> bool" where
  "in_window t start w n (ReservePlan t' now lim) =
     (t' = t \<longrightarrow> lim = Some n \<and> now - start < w)"
| "in_window t start w n (ReadPlans t' now) = (t' = t \<longrightarrow> now - start < w)"
| "in_window t start w n _ = True"

fun comp_limited :: "string \<Rightarrow> int \<Rightarrow> quota_event \<Rightarrow> bool" where
  "comp_limited t n (ReserveComp wall t' lim) = (t' = t \<longrightarrow> lim = Some n)"
| "comp_limited t n _ = True"

lemmas ip_defs [store_defs] =
  ip_rolled_def ip_try_reserve_plan_def ip_read_plans_today_def ip_setdefault_def
  ip_try_reserve_compensation_def ip_release_compensation_def ip_snapshot_def new_usage_def

lemmas ip_store_defs [store_defs] = ip_store_def total_def outcome_def

lemma outcome_ip:
  "outcome (cs_try_reserve_plan ip_store t now w lim m) =
     (fst (fst (ip_try_reserve_plan t now w lim m)), snd (ip_try_reserve_plan t now w lim m))"
  "outcome (cs_try_reserve_compensation ip_store wall t lim m) =
     (fst (fst (ip_try_reserve_compensation wall t lim m)),
      snd (ip_try_reserve_compensation wall t lim m))"
  "snd (cs_read_plans_today ip_store t now w m) = snd (ip_read_plans_today t now w m)"
  "snd (cs_release_compensation ip_store wall t m) = snd (ip_release_compensation wall t m)"
  by (simp_all add: ip_store_defs split: prod.split)

lemma ip_step_other:
  assumes "in_window t start w n e" and "m t = Some u" and "tu_day_window_start u = start"
    and "\<not> plan_attempt t e"
  shows "\<exists>u'. snd (quota_step ip_store w e m) t = Some u' \<and>
           tu_plans_today u' = tu_plans_today u \<and> tu_day_window_start u' = start"
  using assms
  by (cases e) (auto simp: ip_defs outcome_ip Let_def split: option.splits prod.splits if_splits)

lemma ip_step_attempt:
  assumes "in_window t start w n e" and "m t = Some u" and "tu_day_window_start u = start"
    and "plan_attempt t e"
  shows "fst (quota_step ip_store w e m) = (tu_plans_today u < n) \<and>
         (\<exists>u'. snd (quota_step ip_store w e m) t = Some u' \<and>
           tu_plans_today u' = tu_plans_today u + (if tu_plans_today u < n then 1 else 0) \<and>
           tu_day_window_start u' = start)"
  using assms
  by (cases e) (auto simp: ip_defs outcome_ip Let_def split: option.splits prod.splits if_splits)

lemma ip_window_admissions:
  assumes "\<forall>e \<in> set es. in_window t start w n e" and "m t = Some u"
    and "tu_day_window_start u = start" and "tu_plans_today u \<le> n"
  shows "plan_admissions ip_store w t es m = min (plan_attempts t es) (n - tu_plans_today u) \<and>
         (\<exists>u'. run_quota ip_store w es m t = Some u' \<and>
            tu_plans_today u' = tu_plans_today u + plan_admissions ip_store w t es m)"
  using assms
proof (induction es arbitrary: m u)
  case Nil
  then show ?case by (simp add: plan_attempts_def)
next
  case (Cons e es)
  show ?case
  proof (cases "plan_attempt t e")
    case True
    from ip_step_attempt [of t start w n e m u] Cons.prems(1-3) True
    obtain u' where adm: "fst (quota_step ip_store w e m) = (tu_plans_today u < n)"
      and u': "snd (quota_step ip_store w e m) t = Some u'" "tu_day_window_start u' = start"
        "tu_plans_today u' = tu_plans_today u + (if tu_plans_today u < n then 1 else 0)"
      by auto
    with Cons.IH [where m = "snd (quota_step ip_store w e m)" and u = u', OF _ u'(1,2)] Cons.prems(1,4) True show ?thesis
      by (auto simp: plan_attempts_def simp del: quota_step.simps split: if_splits)
  next
    case False
    from ip_step_other [of t start w n e m u] Cons.prems(1-3) False
    obtain u' where "snd (quota_step ip_store w e m) t = Some u'"
      "tu_plans_today u' = tu_plans_today u" "tu_day_window_start u' = start" by auto
    with Cons.IH [of "snd (quota_step ip_store w e m)" u'] Cons.prems(1,4) False show ?thesis
      by (auto simp: plan_attempts_def simp del: quota_step.simps)
  qed
qed

definition active_of :: "usage_map \<Rightarrow> string \<Rightarrow> int" where
  "active_of m t = (case m t of None \<Rightarrow> 0 | Some u \<Rightarrow> tu_active_compensations u)"

lemma ip_step_active:
  assumes "comp_limited t n e" and "0 \<le> n" and "0 \<le> active_of m t" and "active_of m t \<le> n"
  shows "0 \<le> active_of (snd (quota_step ip_store w e m)) t \<and>
         active_of (snd (quota_step ip_store w e m)) t \<le> n"
  using assms
  by (cases e)
    (auto simp: active_of_def ip_defs outcome_ip Let_def split: option.splits prod.splits if_splits)

lemma ip_run_active:
  assumes "\<forall>e \<in> set es. comp_limited t n e" and "0 \<le> n" and "0 \<le> active_of m t"
    and "active_of m t \<le> n"
  shows "0 \<le> active_of (run_quota ip_store w es m) t \<and> active_of (run_quota ip_store w es m) t \<le> n"
  using assms
  by (induction es arbitrary: m) (auto simp del: quota_step.simps simp: ip_step_active)

locale quota_counter_store =
  fixes cs :: "'s counter_store"
    and usage :: "'s \<Rightarrow> usage_map"
    and invar :: "'s \<Rightarrow> bool"
  assumes reserve_plan:
      "meets usage invar (cs_try_reserve_plan cs t now w lim) (ip_try_reserve_plan t now w lim)"
    and read_plans: "meets usage invar (cs_read_plans_today cs t now w) (ip_read_plans_today t now w)"
    and reserve_comp:
      "meets usage invar (cs_try_reserve_compensation cs wall t lim)
         (ip_try_reserve_compensation wall t lim)"
    and release_comp:
      "meets usage invar (cs_release_compensation cs wall t) (ip_release_compensation wall t)"
    and snapshot: "meets usage invar (cs_snapshot cs t now w) (ip_snapshot t now w)"
begin

lemma outcome_meets:
  assumes "meets usage invar f g" and "invar s"
  shows "fst (outcome (f s)) = fst (fst (g (usage s)))" and "snd (outcome (f s)) = snd (f s)"
proof -
  have eq: "f s = (Inr (fst (g (usage s))), snd (f s))"
    by (simp add: prod_eq_iff meetsD [OF assms])
  show "fst (outcome (f s)) = fst (fst (g (usage s)))" and "snd (outcome (f s)) = snd (f s)"
    by (subst eq, simp add: outcome_def split: prod.split)+
qed

lemma step_refines:
  assumes "invar s"
  shows "fst (quota_step cs w e s) = fst (quota_step ip_store w e (usage s))"
    and "usage (snd (quota_step cs w e s)) = snd (quota_step ip_store w e (usage s))"
    and "invar (snd (quota_step cs w e s))"
  using assms
  by (cases e; simp add: outcome_meets [OF reserve_plan] outcome_meets [OF reserve_comp]
      meetsD [OF reserve_plan] meetsD [OF reserve_comp] meetsD [OF read_plans]
      meetsD [OF release_comp] outcome_ip)+

lemma run_refines:
  assumes "invar s"
  shows "usage (run_quota cs w es s) = run_quota ip_store w es (usage s)"
    and "plan_admissions cs w t es s = plan_admissions ip_store w t es (usage s)"
    and "invar (run_quota cs w es s)"
  using assms
  by (induction es arbitrary: s) (simp_all del: quota_step.simps add: step_refines)

lemma window_admissions:
  assumes "invar s" and "\<forall>e \<in> set es. in_window t start w n e" and "usage s t = Some u"
    and "tu_day_window_start u = start" and "tu_plans_today u \<le> n"
  shows "plan_admissions cs w t es s = min (plan_attempts t es) (n - tu_plans_today u)"
  using ip_window_admissions [where m = "usage s" and u = u, OF assms(2-5)] run_refines [OF assms(1)] by simp

lemma active_bounded:
  assumes "invar s" and "\<forall>e \<in> set es. comp_limited t n e" and "0 \<le> n"
    and "0 \<le> active_of (usage s) t" and "active_of (usage s) t \<le> n"
  shows "active_of (usage (run_quota cs w es s)) t \<in> {0..n}"
  using ip_run_active [OF assms(2-5)] run_refines [OF assms(1)] by simp

end

interpretation ipq: quota_counter_store ip_store "\<lambda>m. m" "\<lambda>_. True"
  by unfold_locales (simp_all add: ip_store_def meets_total)

text \<open>What a table of counter rows means.\<close>

definition to_usage :: "quota_row \<Rightarrow> tenant_usage" where
  "to_usage r = \<lparr>tu_plans_today = qr_plans_today r, tu_day_window_start = qr_day_window_start r,
                 tu_active_compensations = qr_active_compensations r\<rparr>"

definition usage_of :: "quota_table \<Rightarrow> usage_map" where
  "usage_of rows t = map_option to_usage (tab qr_tenant_id rows t)"

lemma usage_of_upd:
  "tab qr_tenant_id rows' = (tab qr_tenant_id rows)(t \<mapsto> r) \<Longrightarrow>
   usage_of rows' = (usage_of rows)(t \<mapsto> to_usage r)"
  by (auto simp: usage_of_def)

definition rolled_row :: "string \<Rightarrow> datetime \<Rightarrow> timedelta \<Rightarrow> quota_table \<Rightarrow> quota_row" where
  "rolled_row t now w rows =
     (case tab qr_tenant_id rows t of
        None \<Rightarrow> \<lparr>qr_tenant_id = t, qr_plans_today = 0, qr_day_window_start = now,
                 qr_active_compensations = 0\<rparr>
      | Some r \<Rightarrow> if qr_day_window_start r \<le> now - w
                  then r\<lparr>qr_plans_today := 0, qr_day_window_start := now\<rparr> else r)"

lemma sql_ensure_row_tab:
  assumes "pk qr_tenant_id rows"
  shows "pk qr_tenant_id (sql_ensure_row t c rows)"
    and "tab qr_tenant_id (sql_ensure_row t c rows) =
      (case tab qr_tenant_id rows t of
         None \<Rightarrow> (tab qr_tenant_id rows)(t \<mapsto> \<lparr>qr_tenant_id = t, qr_plans_today = 0,
                    qr_day_window_start = c, qr_active_compensations = 0\<rparr>)
       | Some _ \<Rightarrow> tab qr_tenant_id rows)"
  using assms by (auto simp: sql_ensure_row_def tab_insert tab_snoc pk_snoc split: option.splits)

lemma sql_roll_tab:
  assumes "pk qr_tenant_id rows"
  shows "pk qr_tenant_id (sql_roll_window t now w (sql_ensure_row t now rows))"
    and "tab qr_tenant_id (sql_roll_window t now w (sql_ensure_row t now rows)) =
         (tab qr_tenant_id rows)(t \<mapsto> rolled_row t now w rows)"
  using sql_ensure_row_tab [OF assms, of t now]
  by (auto simp: sql_roll_window_def pk_update tab_update rolled_row_def Let_def fun_upd_idem
      split: option.splits)

lemma to_usage_rolled:
  "to_usage (rolled_row t now w rows) = fst (ip_rolled t now w (usage_of rows))"
  "snd (ip_rolled t now w (usage_of rows)) = (usage_of rows)(t \<mapsto> to_usage (rolled_row t now w rows))"
  by (auto simp: rolled_row_def ip_rolled_def usage_of_def to_usage_def new_usage_def Let_def
      split: option.splits)

lemma sql_counter_row_pk:
  "pk qr_tenant_id rows \<Longrightarrow> tab qr_tenant_id rows t = Some r \<Longrightarrow> sql_counter_row t rows = Inr r"
  by (simp add: sql_counter_row_def sql_select_pk)

lemma meetsI:
  assumes "\<And>s. invar s \<Longrightarrow> fst (f s) = Inr (fst (g (usage s)))"
    and "\<And>s. invar s \<Longrightarrow> usage (snd (f s)) = snd (g (usage s))"
    and "\<And>s. invar s \<Longrightarrow> invar (snd (f s))"
  shows "meets usage invar f g"
  using assms by (simp add: meets_def)

lemma sql_read_meets:
  "meets usage_of (pk qr_tenant_id) (sql_read_plans_today t now w) (ip_read_plans_today t now w)"
  by (rule meetsI)
    (simp_all add: sql_read_plans_today_def ip_read_plans_today_def Let_def sql_roll_tab
      sql_counter_row_pk usage_of_upd to_usage_rolled case_prod_beta flip: to_usage_rolled(1),
      simp add: to_usage_def)

lemma sql_snapshot_meets:
  "meets usage_of (pk qr_tenant_id) (sql_snapshot t now w) (ip_snapshot t now w)"
  by (rule meetsI)
    (simp_all add: sql_snapshot_def ip_snapshot_def Let_def sql_roll_tab sql_counter_row_pk
      usage_of_upd to_usage_rolled(2) flip: to_usage_rolled(1), simp add: to_usage_def)

text \<open>A conditional increment on the row of one tenant, whatever counter it bumps.\<close>

lemma sql_bump:
  fixes f :: "quota_row \<Rightarrow> quota_row"
  assumes "pk qr_tenant_id rows" and "tab qr_tenant_id rows t = Some r"
    and "\<And>r. qr_tenant_id (f r) = qr_tenant_id r"
  shows "sql_first (map g (sql_returning (\<lambda>r. qr_tenant_id r = t \<and> P r) f rows)) =
           (if P r then Some (g (f r)) else None)"
    and "tab qr_tenant_id (sql_update (\<lambda>r. qr_tenant_id r = t \<and> P r) f rows) =
           (if P r then (tab qr_tenant_id rows)(t \<mapsto> f r) else tab qr_tenant_id rows)"
    and "pk qr_tenant_id (sql_update (\<lambda>r. qr_tenant_id r = t \<and> P r) f rows)"
  using assms by (simp_all add: sql_returning_pk tab_update pk_update)

lemma below_iff: "below lim k \<longleftrightarrow> \<not> (case lim of None \<Rightarrow> False | Some n \<Rightarrow> k \<ge> n)"
  by (simp add: below_def not_le split: option.split)

lemma sql_reserve_plan_meets:
  "meets usage_of (pk qr_tenant_id) (sql_try_reserve_plan t now w lim) (ip_try_reserve_plan t now w lim)"
proof (rule meetsI)
  fix rows :: quota_table
  assume pk: "pk qr_tenant_id rows"
  let ?rows = "sql_roll_window t now w (sql_ensure_row t now rows)"
  let ?r = "rolled_row t now w rows"
  let ?b = "below lim (qr_plans_today ?r)"
  let ?r' = "?r\<lparr>qr_plans_today := qr_plans_today ?r + 1\<rparr>"
  have tab: "tab qr_tenant_id ?rows = (tab qr_tenant_id rows)(t \<mapsto> ?r)"
    and pk': "pk qr_tenant_id ?rows" and row: "tab qr_tenant_id ?rows t = Some ?r"
    using sql_roll_tab [OF pk] by simp_all
  note bump = sql_bump [OF pk' row, where f = "\<lambda>r. r\<lparr>qr_plans_today := qr_plans_today r + 1\<rparr>"
      and P = "\<lambda>r. below lim (qr_plans_today r)", simplified]
  have sql: "fst (sql_try_reserve_plan t now w lim rows) =
        Inr (?b, if ?b then qr_plans_today ?r + 1 else qr_plans_today ?r)"
      "tab qr_tenant_id (snd (sql_try_reserve_plan t now w lim rows)) =
        (tab qr_tenant_id rows)(t \<mapsto> (if ?b then ?r' else ?r))"
      "pk qr_tenant_id (snd (sql_try_reserve_plan t now w lim rows))"
    by (simp_all add: sql_try_reserve_plan_def Let_def bump tab sql_counter_row_pk [OF pk' row])
  have ip: "ip_try_reserve_plan t now w lim (usage_of rows) =
        ((?b, if ?b then qr_plans_today ?r + 1 else qr_plans_today ?r),
         (usage_of rows)(t \<mapsto> to_usage (if ?b then ?r' else ?r)))"
    by (simp add: ip_try_reserve_plan_def case_prod_beta Let_def to_usage_rolled(2) below_iff
        flip: to_usage_rolled(1))
      (simp add: to_usage_def split: option.split flip: to_usage_rolled(1))
  show "fst (sql_try_reserve_plan t now w lim rows) =
      Inr (fst (ip_try_reserve_plan t now w lim (usage_of rows)))"
    and "usage_of (snd (sql_try_reserve_plan t now w lim rows)) =
      snd (ip_try_reserve_plan t now w lim (usage_of rows))"
    and "pk qr_tenant_id (snd (sql_try_reserve_plan t now w lim rows))"
    using sql ip usage_of_upd [OF sql(2)] by simp_all
qed

definition ensured_row :: "datetime \<Rightarrow> string \<Rightarrow> quota_table \<Rightarrow> quota_row" where
  "ensured_row wall t rows =
     (case tab qr_tenant_id rows t of
        None \<Rightarrow> \<lparr>qr_tenant_id = t, qr_plans_today = 0, qr_day_window_start = wall,
                 qr_active_compensations = 0\<rparr>
      | Some r \<Rightarrow> r)"

lemma ensured_row:
  assumes "pk qr_tenant_id rows"
  shows "tab qr_tenant_id (sql_ensure_row t wall rows) =
           (tab qr_tenant_id rows)(t \<mapsto> ensured_row wall t rows)"
    and "tab qr_tenant_id (sql_ensure_row t wall rows) t = Some (ensured_row wall t rows)"
  using sql_ensure_row_tab(2) [OF assms, of t wall]
  by (auto simp: ensured_row_def fun_upd_idem split: option.splits)

lemma to_usage_ensured:
  "to_usage (ensured_row wall t rows) = fst (ip_setdefault wall t (usage_of rows))"
  "snd (ip_setdefault wall t (usage_of rows)) = (usage_of rows)(t \<mapsto> to_usage (ensured_row wall t rows))"
  by (auto simp: ensured_row_def ip_setdefault_def usage_of_def to_usage_def new_usage_def fun_upd_idem
      split: option.splits)

lemma sql_reserve_comp_meets:
  "meets usage_of (pk qr_tenant_id) (sql_try_reserve_compensation wall t lim)
     (ip_try_reserve_compensation wall t lim)"
proof (rule meetsI)
  fix rows :: quota_table
  assume pk: "pk qr_tenant_id rows"
  let ?rows = "sql_ensure_row t wall rows"
  let ?r = "ensured_row wall t rows"
  let ?b = "below lim (qr_active_compensations ?r)"
  let ?r' = "?r\<lparr>qr_active_compensations := qr_active_compensations ?r + 1\<rparr>"
  let ?k = "if ?b then qr_active_compensations ?r + 1 else qr_active_compensations ?r"
  have pk': "pk qr_tenant_id ?rows" by (simp add: sql_ensure_row_tab [OF pk])
  note row = ensured_row [OF pk, of t wall]
  note bump = sql_bump [OF pk' row(2),
      where f = "\<lambda>r. r\<lparr>qr_active_compensations := qr_active_compensations r + 1\<rparr>"
      and P = "\<lambda>r. below lim (qr_active_compensations r)", simplified]
  have sql: "fst (sql_try_reserve_compensation wall t lim rows) = Inr (?b, ?k)"
      "tab qr_tenant_id (snd (sql_try_reserve_compensation wall t lim rows)) =
        (tab qr_tenant_id rows)(t \<mapsto> (if ?b then ?r' else ?r))"
      "pk qr_tenant_id (snd (sql_try_reserve_compensation wall t lim rows))"
    by (simp_all add: sql_try_reserve_compensation_def Let_def bump row(1)
        sql_counter_row_pk [OF pk' row(2)])
  have ip: "ip_try_reserve_compensation wall t lim (usage_of rows) =
        ((?b, ?k), (usage_of rows)(t \<mapsto> to_usage (if ?b then ?r' else ?r)))"
    by (simp add: ip_try_reserve_compensation_def case_prod_beta Let_def to_usage_ensured(2) below_iff
        flip: to_usage_ensured(1))
      (simp add: to_usage_def split: option.split flip: to_usage_ensured(1))
  show "fst (sql_try_reserve_compensation wall t lim rows) =
      Inr (fst (ip_try_reserve_compensation wall t lim (usage_of rows)))"
    and "usage_of (snd (sql_try_reserve_compensation wall t lim rows)) =
      snd (ip_try_reserve_compensation wall t lim (usage_of rows))"
    and "pk qr_tenant_id (snd (sql_try_reserve_compensation wall t lim rows))"
    using sql ip usage_of_upd [OF sql(2)] by simp_all
qed

lemma sql_release_comp_meets:
  "meets usage_of (pk qr_tenant_id) (sql_release_compensation wall t) (ip_release_compensation wall t)"
proof (rule meetsI)
  fix rows :: quota_table
  assume pk: "pk qr_tenant_id rows"
  let ?r = "ensured_row wall t rows"
  let ?k = "max 0 (qr_active_compensations ?r - 1)"
  let ?f = "\<lambda>r. r\<lparr>qr_active_compensations :=
      (if qr_active_compensations r > 0 then qr_active_compensations r - 1 else 0)\<rparr>"
  have pk': "pk qr_tenant_id (sql_ensure_row t wall rows)" by (simp add: sql_ensure_row_tab [OF pk])
  note row = ensured_row [OF pk, of t wall]
  note bump = sql_bump [OF pk' row(2), where f = ?f and P = "\<lambda>_. True", simplified]
  have sql: "fst (sql_release_compensation wall t rows) = Inr ?k"
      "tab qr_tenant_id (snd (sql_release_compensation wall t rows)) =
        (tab qr_tenant_id rows)(t \<mapsto> ?f ?r)"
      "pk qr_tenant_id (snd (sql_release_compensation wall t rows))"
    by (simp_all add: sql_release_compensation_def Let_def bump row(1) max_def)
  have ip: "ip_release_compensation wall t (usage_of rows) =
        (?k, (usage_of rows)(t \<mapsto> to_usage (?f ?r)))"
    by (simp add: ip_release_compensation_def case_prod_beta Let_def to_usage_ensured(2)
        flip: to_usage_ensured(1)) (simp add: to_usage_def max_def)
  show "fst (sql_release_compensation wall t rows) =
      Inr (fst (ip_release_compensation wall t (usage_of rows)))"
    and "usage_of (snd (sql_release_compensation wall t rows)) =
      snd (ip_release_compensation wall t (usage_of rows))"
    and "pk qr_tenant_id (snd (sql_release_compensation wall t rows))"
    using sql ip usage_of_upd [OF sql(2)] by simp_all
qed

interpretation sqlq: quota_counter_store sql_store usage_of "pk qr_tenant_id"
  by unfold_locales
    (simp_all add: sql_store_def sql_reserve_plan_meets sql_read_meets sql_reserve_comp_meets
      sql_release_comp_meets sql_snapshot_meets)

section \<open>Properties\<close>

text \<open>
  C37. The daily plan quota is exact under any interleaving of callers on the shared SQL store:
  within one window in which every reservation of the tenant carries its limit \<open>n\<close>, exactly
  as many plans are admitted as are left of the quota, or all that ask if they are fewer;
  reservations of other tenants, dry-run reads and compensation calls do not matter.
\<close>

theorem plan_quota_exact:
  assumes "pk qr_tenant_id rows" and "\<forall>e \<in> set es. in_window t (tu_day_window_start u) w n e"
    and "usage_of rows t = Some u" and "tu_plans_today u \<le> n"
  shows "plan_admissions sql_store w t es rows = min (plan_attempts t es) (n - tu_plans_today u)"
  using sqlq.window_admissions [where s = rows and u = u] assms by blast

theorem plan_quota_exact_witness:
  "plan_admissions sql_store 100 ''t''
     [ReservePlan ''t'' 5 (Some 2), ReservePlan ''o'' 6 None, ReservePlan ''t'' 7 (Some 2)]
     [\<lparr>qr_tenant_id = ''t'', qr_plans_today = 1, qr_day_window_start = 0,
       qr_active_compensations = 0\<rparr>] = 1"
  using plan_quota_exact
    [of "[\<lparr>qr_tenant_id = ''t'', qr_plans_today = 1, qr_day_window_start = 0,
           qr_active_compensations = 0\<rparr>]"
        "[ReservePlan ''t'' 5 (Some 2), ReservePlan ''o'' 6 None, ReservePlan ''t'' 7 (Some 2)]"
        "''t''" "\<lparr>tu_plans_today = 1, tu_day_window_start = 0, tu_active_compensations = 0\<rparr>" 100 2]
  by (simp add: pk_def usage_of_def to_usage_def plan_attempts_def)



text \<open>
  Concurrent compensations of a tenant never exceed its limit and their count never drops
  below zero, in any interleaving on the SQL store (surplus releases included).
\<close>

theorem compensation_slots_bounded:
  assumes "pk qr_tenant_id rows" and "\<forall>e \<in> set es. comp_limited t n e" and "0 \<le> n"
    and "0 \<le> active_of (usage_of rows) t" and "active_of (usage_of rows) t \<le> n"
  shows "active_of (usage_of (run_quota sql_store w es rows)) t \<in> {0..n}"
  using sqlq.active_bounded [OF assms] .

theorem compensation_slots_bounded_witness:
  "active_of (usage_of (run_quota sql_store 100
      [ReserveComp 1 ''t'' (Some 1), ReserveComp 2 ''t'' (Some 1), ReleaseComp 3 ''t''] [])) ''t''
     \<in> {0..1}"
  using compensation_slots_bounded
    [of "[]" "[ReserveComp 1 ''t'' (Some 1), ReserveComp 2 ''t'' (Some 1), ReleaseComp 3 ''t'']"
        "''t''" 1 100]
  by (simp add: usage_of_def active_of_def)

text \<open>
  The dry run and the reservation agree: on the in-process store, \<open>check_plan_creation\<close>
  admits exactly the requests \<open>begin_plan_creation\<close> would admit at the same instant, and a
  refused request consumes nothing.
\<close>

theorem dry_run_agrees:
  "\<exists>d d'. fst (check_plan_creation ip_store policies clock t k m) = Inr d \<and>
          fst (begin_plan_creation ip_store policies clock t k m) = Inr d' \<and>
          qd_admitted d = qd_admitted d' \<and>
          (qd_admitted d' \<or>
           snd (begin_plan_creation ip_store policies clock t k m) =
             snd (check_plan_creation ip_store policies clock t k m))"
  by (auto simp: check_plan_creation_def begin_plan_creation_def ip_store_def total_def
      ip_try_reserve_plan_def ip_read_plans_today_def plan_denials_def Let_def case_prod_beta
      split: option.splits)

end
