(* ===== verification/Durable_Coordination.thy ===== *)
theory Durable_Coordination
  imports Interlock_Prelude
begin

text \<open>
  Durable recovery coordination: the records of
  \<open>app/domain/entities/durable_recovery_types.py\<close> and the whole of
  \<open>InMemoryDurableRecoveryRepository\<close>
  (\<open>app/infrastructure/persistence/repositories/in_memory_durable_recovery_repository.py\<close>):
  leases with fencing tokens, the worker registry, reconciliation and orphan records and the
  coordination state machine's storage. Every method that takes the repository's lock is one
  transition. Shown: the repository invariant over all reachable states, monotone fencing
  tokens, exclusive leases, the fence on coordination states, isolation between plans and
  tenants, and the meaning of the reconciliation and orphan queries.
\<close>

section \<open>Data\<close>

datatype durable_plan_status =
  DPS_PENDING | DPS_ACQUIRING_LEASE | DPS_ACTIVE | DPS_PAUSED | DPS_FINALIZING
| DPS_COMPLETED | DPS_FAILED | DPS_ERROR | DPS_STALE | DPS_FENCED

datatype worker_state = WS_ACTIVE | WS_STALE | WS_CRASHED | WS_OFFLINE

datatype lock_mode = LM_EXCLUSIVE | LM_SHARED

datatype reconciliation_phase = RP_LOAD | RP_RESUME | RP_CONVERGE | RP_VERIFY | RP_FINALIZE

text \<open>\<open>WorkerState(value)\<close>: the enum member with that value, or ValueError.\<close>

definition worker_state_of :: "string \<Rightarrow> py_error + worker_state" where
  "worker_state_of s =
     (if s = ''active'' then Inr WS_ACTIVE
      else if s = ''stale'' then Inr WS_STALE
      else if s = ''crashed'' then Inr WS_CRASHED
      else if s = ''offline'' then Inr WS_OFFLINE
      else Inl (ValueError s))"

record worker_record =
  wr_plan_id :: string
  wr_tenant_id :: string
  wr_worker_id :: string
  wr_state :: worker_state
  wr_fencing_token :: int
  wr_lease_id :: "string option"
  wr_acquired_at :: "datetime option"
  wr_last_heartbeat :: "datetime option"
  wr_last_error :: "string option"
  wr_worker_metadata :: pydict

definition worker_is_stale :: "worker_record \<Rightarrow> int \<Rightarrow> datetime \<Rightarrow> bool" where
  "worker_is_stale w threshold_seconds now =
     (case wr_last_heartbeat w of
        None \<Rightarrow> True
      | Some hb \<Rightarrow> now - hb > seconds threshold_seconds)"

record recovery_lease =
  rl_plan_id :: string
  rl_tenant_id :: string
  rl_worker_id :: string
  rl_lease_id :: string
  rl_fencing_token :: int
  rl_acquired_at :: datetime
  rl_expires_at :: datetime
  rl_renewed_at :: datetime
  rl_lease_ttl_seconds :: int
  rl_lease_metadata :: pydict

definition lease_is_expired :: "recovery_lease \<Rightarrow> datetime \<Rightarrow> bool" where
  "lease_is_expired l now \<longleftrightarrow> now \<ge> rl_expires_at l"

definition lease_is_owned_by :: "recovery_lease \<Rightarrow> string \<Rightarrow> string \<Rightarrow> bool" where
  "lease_is_owned_by l tenant_id worker_id \<longleftrightarrow>
     rl_tenant_id l = tenant_id \<and> rl_worker_id l = worker_id"

record lease_acquisition_result =
  la_acquired :: bool
  la_lease :: "recovery_lease option"
  la_reason :: string
  la_evicted_worker_id :: "string option"
  la_fencing_token :: int
  la_lease_id :: "string option"

record reconciliation_record =
  rr_plan_id :: string
  rr_tenant_id :: string
  rr_reconciliation_id :: string
  rr_fencing_token :: int
  rr_worker_id :: string
  rr_reconciled_at :: datetime
  rr_phase :: reconciliation_phase
  rr_converged :: bool
  rr_divergence_count :: int
  rr_details :: pydict
  rr_reconciled_states :: "(string, string) dict"

record orphan_record =
  or_tenant_id :: string
  or_plan_id :: string
  or_orphan_id :: string
  or_action_id :: string
  or_detected_at :: datetime
  or_orphan_kind :: string
  or_details :: pydict

record plan_coordination_state =
  pc_plan_id :: string
  pc_tenant_id :: string
  pc_status :: durable_plan_status
  pc_fencing_token :: int
  pc_coordinator_worker_id :: string
  pc_active_worker_id :: string
  pc_lease_id :: "string option"
  pc_lock_mode :: lock_mode
  pc_started_at :: datetime
  pc_completed_at :: "datetime option"
  pc_stop_conditions :: "string list"
  pc_completed_steps :: int
  pc_total_steps :: int
  pc_verification_passed :: bool
  pc_coordination_metadata :: pydict

text \<open>The keyword overrides of \<open>with_status\<close>; \<open>None\<close> is an override that is not given.\<close>

record coordination_overrides =
  ov_fencing_token :: "int option"
  ov_coordinator_worker_id :: "string option"
  ov_active_worker_id :: "string option"
  ov_lease_id :: "string option option"
  ov_lock_mode :: "lock_mode option"
  ov_stop_conditions :: "string list option"
  ov_completed_steps :: "int option"
  ov_total_steps :: "int option"
  ov_verification_passed :: "bool option"

definition override :: "'a option \<Rightarrow> 'a \<Rightarrow> 'a" where
  "override v d = (case v of None \<Rightarrow> d | Some x \<Rightarrow> x)"

definition with_status ::
  "plan_coordination_state \<Rightarrow> durable_plan_status \<Rightarrow> datetime option \<Rightarrow> coordination_overrides
     \<Rightarrow> plan_coordination_state" where
  "with_status st status completed_at ov =
     \<lparr>pc_plan_id = pc_plan_id st,
      pc_tenant_id = pc_tenant_id st,
      pc_status = status,
      pc_fencing_token = override (ov_fencing_token ov) (pc_fencing_token st),
      pc_coordinator_worker_id =
        override (ov_coordinator_worker_id ov) (pc_coordinator_worker_id st),
      pc_active_worker_id = override (ov_active_worker_id ov) (pc_active_worker_id st),
      pc_lease_id = override (ov_lease_id ov) (pc_lease_id st),
      pc_lock_mode = override (ov_lock_mode ov) (pc_lock_mode st),
      pc_started_at = pc_started_at st,
      pc_completed_at = (if completed_at \<noteq> None then completed_at else pc_completed_at st),
      pc_stop_conditions = override (ov_stop_conditions ov) (pc_stop_conditions st),
      pc_completed_steps = override (ov_completed_steps ov) (pc_completed_steps st),
      pc_total_steps = override (ov_total_steps ov) (pc_total_steps st),
      pc_verification_passed = override (ov_verification_passed ov) (pc_verification_passed st),
      pc_coordination_metadata = pc_coordination_metadata st\<rparr>"

type_synonym scope = "string \<times> string"
type_synonym record_key = "string \<times> string \<times> string"

record durable_repo =
  dr_leases :: "scope \<rightharpoonup> recovery_lease"
  dr_fencing_tokens :: "scope \<rightharpoonup> int"
  dr_workers :: "(record_key, worker_record) dict"
  dr_reconciliations :: "(record_key, reconciliation_record) dict"
  dr_reconciliation_order :: "record_key \<rightharpoonup> int"
  dr_reconciliation_sequence :: int
  dr_orphans :: "(record_key, orphan_record) dict"
  dr_coordination_states :: "scope \<rightharpoonup> plan_coordination_state"

definition empty_repo :: durable_repo where
  "empty_repo =
     \<lparr>dr_leases = Map.empty, dr_fencing_tokens = Map.empty, dr_workers = [],
      dr_reconciliations = [], dr_reconciliation_order = Map.empty,
      dr_reconciliation_sequence = 0, dr_orphans = [], dr_coordination_states = Map.empty\<rparr>"

section \<open>Leases and fencing tokens\<close>

definition validate_lease_ttl :: "int \<Rightarrow> py_error option" where
  "validate_lease_ttl ttl_seconds =
     (if ttl_seconds < 0 then Some (ValueError ''ttl_seconds must be a non-negative integer'')
      else None)"

definition validate_token :: "int \<Rightarrow> string \<Rightarrow> py_error option" where
  "validate_token fencing_token name =
     (if fencing_token < 0 then Some (ValueError name) else None)"

definition fencing_token_of :: "durable_repo \<Rightarrow> scope \<Rightarrow> int" where
  "fencing_token_of s key = (case dr_fencing_tokens s key of None \<Rightarrow> 0 | Some n \<Rightarrow> n)"

definition set_fencing_token_locked :: "scope \<Rightarrow> int \<Rightarrow> durable_repo \<Rightarrow> durable_repo" where
  "set_fencing_token_locked key fencing_token s =
     (let s = s\<lparr>dr_leases := (dr_leases s)(key := None),
               dr_fencing_tokens := (dr_fencing_tokens s)(key \<mapsto> fencing_token)\<rparr>
      in case dr_coordination_states s key of
           None \<Rightarrow> s
         | Some state \<Rightarrow>
             if pc_fencing_token state \<noteq> fencing_token
             then s\<lparr>dr_coordination_states := (dr_coordination_states s)
                      (key \<mapsto> state\<lparr>pc_fencing_token := fencing_token\<rparr>)\<rparr>
             else s)"

definition advance_fencing_token_locked :: "scope \<Rightarrow> durable_repo \<Rightarrow> int \<times> durable_repo" where
  "advance_fencing_token_locked key s =
     (let fencing_token = fencing_token_of s key + 1
      in (fencing_token, set_fencing_token_locked key fencing_token s))"

definition active_lease_locked ::
  "scope \<Rightarrow> datetime \<Rightarrow> bool \<Rightarrow> durable_repo \<Rightarrow> recovery_lease option \<times> durable_repo" where
  "active_lease_locked key now remove_expired s =
     (case dr_leases s key of
        None \<Rightarrow> (None, s)
      | Some lease \<Rightarrow>
          if lease_is_expired lease now
          then (None, if remove_expired then s\<lparr>dr_leases := (dr_leases s)(key := None)\<rparr> else s)
          else (Some lease, s))"

definition lease_failure ::
  "string \<Rightarrow> int \<Rightarrow> string option \<Rightarrow> string option \<Rightarrow> lease_acquisition_result" where
  "lease_failure reason fencing_token lease_id evicted_worker_id =
     \<lparr>la_acquired = False, la_lease = None, la_reason = reason,
      la_evicted_worker_id = evicted_worker_id, la_fencing_token = fencing_token,
      la_lease_id = lease_id\<rparr>"

text \<open>\<open>new_lease_id\<close> is the value of \<open>secrets.token_hex(16)\<close>.\<close>

definition acquire_lease ::
  "datetime \<Rightarrow> string \<Rightarrow> string \<Rightarrow> string \<Rightarrow> string \<Rightarrow> int \<Rightarrow> int option \<Rightarrow> string \<Rightarrow> durable_repo
     \<Rightarrow> (py_error + lease_acquisition_result) \<times> durable_repo" where
  "acquire_lease now new_lease_id tenant_id plan_id worker_id ttl_seconds expected reason s =
     (case validate_lease_ttl ttl_seconds of Some e \<Rightarrow> (Inl e, s) | None \<Rightarrow>
      case (case expected of None \<Rightarrow> None
            | Some n \<Rightarrow> validate_token n ''expected_fencing_token'') of
        Some e \<Rightarrow> (Inl e, s)
      | None \<Rightarrow>
     (let key = (tenant_id, plan_id);
          evicted = (case dr_leases s key of
                       None \<Rightarrow> None
                     | Some l \<Rightarrow> if lease_is_expired l now then Some (rl_worker_id l) else None);
          (active, s1) = active_lease_locked key now True s;
          current = fencing_token_of s1 key
      in case active of
           Some lease \<Rightarrow>
             if expected \<noteq> None \<and> expected \<noteq> Some (rl_fencing_token lease)
             then (Inr (lease_failure ''expected_fencing_token_mismatch'' (rl_fencing_token lease)
                          (Some (rl_lease_id lease)) None), s1)
             else if rl_worker_id lease = worker_id
             then (Inr \<lparr>la_acquired = True, la_lease = Some lease, la_reason = ''already_acquired'',
                        la_evicted_worker_id = None, la_fencing_token = rl_fencing_token lease,
                        la_lease_id = Some (rl_lease_id lease)\<rparr>, s1)
             else (Inr (lease_failure ''lease_already_held'' (rl_fencing_token lease)
                          (Some (rl_lease_id lease)) (Some (rl_worker_id lease))), s1)
         | None \<Rightarrow>
             if expected \<noteq> None \<and> expected \<noteq> Some current
             then (Inr (lease_failure ''expected_fencing_token_mismatch'' current None None), s1)
             else
               (let (fencing_token, s2) = advance_fencing_token_locked key s1;
                    lease = \<lparr>rl_plan_id = plan_id, rl_tenant_id = tenant_id,
                             rl_worker_id = worker_id, rl_lease_id = new_lease_id,
                             rl_fencing_token = fencing_token, rl_acquired_at = now,
                             rl_expires_at = now + seconds ttl_seconds, rl_renewed_at = now,
                             rl_lease_ttl_seconds = ttl_seconds,
                             rl_lease_metadata = [(''reason'', PStr reason)]\<rparr>
                in (Inr \<lparr>la_acquired = True, la_lease = Some lease,
                         la_reason = (if evicted \<noteq> None then ''lease_reclaimed''
                                      else ''lease_acquired''),
                         la_evicted_worker_id = evicted, la_fencing_token = fencing_token,
                         la_lease_id = Some new_lease_id\<rparr>,
                    s2\<lparr>dr_leases := (dr_leases s2)(key \<mapsto> lease)\<rparr>))))"

definition renew_lease ::
  "datetime \<Rightarrow> string \<Rightarrow> string \<Rightarrow> string \<Rightarrow> string \<Rightarrow> int \<Rightarrow> durable_repo
     \<Rightarrow> (py_error + bool) \<times> durable_repo" where
  "renew_lease now tenant_id plan_id lease_id worker_id ttl_seconds s =
     (case validate_lease_ttl ttl_seconds of Some e \<Rightarrow> (Inl e, s) | None \<Rightarrow>
     (let key = (tenant_id, plan_id); (active, s1) = active_lease_locked key now True s
      in case active of
           None \<Rightarrow> (Inr False, s1)
         | Some lease \<Rightarrow>
             if rl_lease_id lease \<noteq> lease_id \<or> rl_worker_id lease \<noteq> worker_id
             then (Inr False, s1)
             else (Inr True, s1\<lparr>dr_leases := (dr_leases s1)
                     (key \<mapsto> lease\<lparr>rl_renewed_at := now, rl_expires_at := now + seconds ttl_seconds,
                                   rl_lease_ttl_seconds := ttl_seconds\<rparr>)\<rparr>)))"

definition release_lease ::
  "datetime \<Rightarrow> string \<Rightarrow> string \<Rightarrow> string \<Rightarrow> string \<Rightarrow> durable_repo \<Rightarrow> bool \<times> durable_repo" where
  "release_lease now tenant_id plan_id lease_id worker_id s =
     (let key = (tenant_id, plan_id); (active, s1) = active_lease_locked key now True s
      in case active of
           None \<Rightarrow> (False, s1)
         | Some lease \<Rightarrow>
             if rl_lease_id lease \<noteq> lease_id \<or> rl_worker_id lease \<noteq> worker_id
             then (False, s1)
             else (True, s1\<lparr>dr_leases := (dr_leases s1)(key := None)\<rparr>))"

definition get_active_lease ::
  "datetime \<Rightarrow> string \<Rightarrow> string \<Rightarrow> durable_repo \<Rightarrow> recovery_lease option" where
  "get_active_lease now tenant_id plan_id s =
     fst (active_lease_locked (tenant_id, plan_id) now False s)"

definition revoke_lease :: "string \<Rightarrow> string \<Rightarrow> durable_repo \<Rightarrow> bool \<times> durable_repo" where
  "revoke_lease tenant_id plan_id s =
     (let key = (tenant_id, plan_id)
      in if dr_leases s key = None then (False, s)
         else (True, snd (advance_fencing_token_locked key
                            (s\<lparr>dr_leases := (dr_leases s)(key := None)\<rparr>))))"

definition bump_fencing_token :: "string \<Rightarrow> string \<Rightarrow> durable_repo \<Rightarrow> int \<times> durable_repo" where
  "bump_fencing_token tenant_id plan_id s = advance_fencing_token_locked (tenant_id, plan_id) s"

definition get_fencing_token :: "string \<Rightarrow> string \<Rightarrow> durable_repo \<Rightarrow> int" where
  "get_fencing_token tenant_id plan_id s = fencing_token_of s (tenant_id, plan_id)"

section \<open>The worker registry\<close>

definition in_scope :: "string \<Rightarrow> string \<Rightarrow> record_key \<Rightarrow> bool" where
  "in_scope tenant_id plan_id key \<longleftrightarrow> fst key = tenant_id \<and> fst (snd key) = plan_id"

definition set_worker :: "record_key \<Rightarrow> worker_record \<Rightarrow> durable_repo \<Rightarrow> durable_repo" where
  "set_worker key w s = s\<lparr>dr_workers := AList.update key w (dr_workers s)\<rparr>"

definition register_worker ::
  "datetime \<Rightarrow> string \<Rightarrow> string \<Rightarrow> string \<Rightarrow> int \<Rightarrow> string option \<Rightarrow> durable_repo
     \<Rightarrow> (py_error + worker_record) \<times> durable_repo" where
  "register_worker now tenant_id plan_id worker_id fencing_token lease_id s =
     (case validate_token fencing_token ''fencing_token'' of Some e \<Rightarrow> (Inl e, s) | None \<Rightarrow>
     (let key = (tenant_id, plan_id, worker_id)
      in case map_of (dr_workers s) key of
           None \<Rightarrow>
             (let worker = \<lparr>wr_plan_id = plan_id, wr_tenant_id = tenant_id,
                            wr_worker_id = worker_id, wr_state = WS_ACTIVE,
                            wr_fencing_token = fencing_token, wr_lease_id = lease_id,
                            wr_acquired_at = Some now, wr_last_heartbeat = Some now,
                            wr_last_error = None, wr_worker_metadata = []\<rparr>
              in (Inr worker, set_worker key worker s))
         | Some existing \<Rightarrow>
             if wr_fencing_token existing = fencing_token \<and> wr_lease_id existing = lease_id \<and>
                wr_state existing = WS_ACTIVE \<and> wr_last_error existing = None
             then (Inr existing, s)
             else
               (let token = max (wr_fencing_token existing) fencing_token;
                    worker = existing\<lparr>wr_fencing_token := token,
                               wr_lease_id := (if lease_id \<noteq> None then lease_id
                                               else wr_lease_id existing),
                               wr_state := WS_ACTIVE, wr_last_heartbeat := Some now,
                               wr_last_error := None\<rparr>
                in (Inr worker, set_worker key worker s))))"

definition get_worker :: "string \<Rightarrow> string \<Rightarrow> string \<Rightarrow> durable_repo \<Rightarrow> worker_record option" where
  "get_worker tenant_id plan_id worker_id s = map_of (dr_workers s) (tenant_id, plan_id, worker_id)"

definition list_workers :: "string \<Rightarrow> string \<Rightarrow> durable_repo \<Rightarrow> worker_record list" where
  "list_workers tenant_id plan_id s =
     sort_key wr_worker_id
       [w. (key, w) \<leftarrow> dr_workers s, in_scope tenant_id plan_id key]"

definition update_heartbeat ::
  "datetime \<Rightarrow> string \<Rightarrow> string \<Rightarrow> string \<Rightarrow> int \<Rightarrow> string option \<Rightarrow> datetime option \<Rightarrow> durable_repo
     \<Rightarrow> (py_error + worker_record option) \<times> durable_repo" where
  "update_heartbeat clock tenant_id plan_id worker_id fencing_token lease_id now s =
     (case validate_token fencing_token ''fencing_token'' of Some e \<Rightarrow> (Inl e, s) | None \<Rightarrow>
     (let key = (tenant_id, plan_id, worker_id);
          heartbeat_at = (case now of None \<Rightarrow> clock | Some t \<Rightarrow> t)
      in case map_of (dr_workers s) key of
           None \<Rightarrow> (Inr None, s)
         | Some worker \<Rightarrow>
             if fencing_token < wr_fencing_token worker then (Inr None, s)
             else if (case dr_leases s (tenant_id, plan_id) of
                        None \<Rightarrow> False
                      | Some active_lease \<Rightarrow>
                          lease_is_expired active_lease heartbeat_at \<or>
                          rl_worker_id active_lease \<noteq> worker_id \<or>
                          (lease_id \<noteq> None \<and> Some (rl_lease_id active_lease) \<noteq> lease_id))
             then (Inr None, s)
             else
               (let token = max (wr_fencing_token worker) fencing_token;
                    updated = worker\<lparr>wr_fencing_token := token,
                                wr_lease_id := (if lease_id \<noteq> None then lease_id
                                                else wr_lease_id worker),
                                wr_last_heartbeat := Some heartbeat_at, wr_state := WS_ACTIVE\<rparr>
                in (Inr (Some updated), set_worker key updated s))))"

definition mark_stale ::
  "string \<Rightarrow> string \<Rightarrow> string \<Rightarrow> durable_repo \<Rightarrow> worker_record option \<times> durable_repo" where
  "mark_stale tenant_id plan_id worker_id s =
     (let key = (tenant_id, plan_id, worker_id)
      in case map_of (dr_workers s) key of
           None \<Rightarrow> (None, s)
         | Some worker \<Rightarrow>
             (let updated = worker\<lparr>wr_state := WS_STALE\<rparr>
              in (Some updated, set_worker key updated s)))"

definition mark_state ::
  "string \<Rightarrow> string \<Rightarrow> string \<Rightarrow> string \<Rightarrow> string option \<Rightarrow> durable_repo
     \<Rightarrow> (py_error + worker_record option) \<times> durable_repo" where
  "mark_state tenant_id plan_id worker_id state error s =
     (let key = (tenant_id, plan_id, worker_id)
      in case map_of (dr_workers s) key of
           None \<Rightarrow> (Inr None, s)
         | Some worker \<Rightarrow>
             (case worker_state_of state of
                Inl e \<Rightarrow> (Inl e, s)
              | Inr st \<Rightarrow>
                  (let updated = worker\<lparr>wr_state := st, wr_last_error := error\<rparr>
                   in (Inr (Some updated), set_worker key updated s))))"

definition remove_worker :: "string \<Rightarrow> string \<Rightarrow> string \<Rightarrow> durable_repo \<Rightarrow> bool \<times> durable_repo" where
  "remove_worker tenant_id plan_id worker_id s =
     (let key = (tenant_id, plan_id, worker_id)
      in (map_of (dr_workers s) key \<noteq> None,
          s\<lparr>dr_workers := AList.delete key (dr_workers s)\<rparr>))"

definition detect_stale_workers ::
  "datetime \<Rightarrow> string \<Rightarrow> string \<Rightarrow> int \<Rightarrow> datetime option \<Rightarrow> durable_repo
     \<Rightarrow> py_error + worker_record list" where
  "detect_stale_workers clock tenant_id plan_id stale_threshold_seconds now s =
     (if stale_threshold_seconds < 0
      then Inl (ValueError ''stale_threshold_seconds must be a non-negative integer'')
      else
        (let heartbeat_time = (case now of None \<Rightarrow> clock | Some t \<Rightarrow> t)
         in Inr (sort_key wr_worker_id
              [w. (key, w) \<leftarrow> dr_workers s, in_scope tenant_id plan_id key \<and>
                    worker_is_stale w stale_threshold_seconds heartbeat_time])))"

section \<open>Reconciliation, orphans and coordination state\<close>

definition validate_record_scope ::
  "string \<Rightarrow> string \<Rightarrow> string \<Rightarrow> string \<Rightarrow> py_error option" where
  "validate_record_scope tenant_id plan_id record_tenant record_plan =
     (if record_tenant \<noteq> tenant_id \<or> record_plan \<noteq> plan_id
      then Some (ValueError ''record tenant or plan does not match repository scope'') else None)"

definition save_reconciliation ::
  "string \<Rightarrow> string \<Rightarrow> reconciliation_record \<Rightarrow> durable_repo
     \<Rightarrow> (py_error + reconciliation_record) \<times> durable_repo" where
  "save_reconciliation tenant_id plan_id r s =
     (case validate_record_scope tenant_id plan_id (rr_tenant_id r) (rr_plan_id r) of
        Some e \<Rightarrow> (Inl e, s)
      | None \<Rightarrow>
          (let key = (tenant_id, plan_id, rr_reconciliation_id r)
           in case map_of (dr_reconciliations s) key of
                Some existing \<Rightarrow> (Inr existing, s)
              | None \<Rightarrow>
                  (let n = dr_reconciliation_sequence s + 1
                   in (Inr r,
                       s\<lparr>dr_reconciliations := AList.update key r (dr_reconciliations s),
                         dr_reconciliation_sequence := n,
                         dr_reconciliation_order := (dr_reconciliation_order s)(key \<mapsto> n)\<rparr>))))"

definition reconciliation_rank ::
  "durable_repo \<Rightarrow> string \<Rightarrow> string \<Rightarrow> reconciliation_record \<Rightarrow> datetime \<times> int" where
  "reconciliation_rank s tenant_id plan_id r =
     (rr_reconciled_at r,
      case dr_reconciliation_order s (tenant_id, plan_id, rr_reconciliation_id r) of
        None \<Rightarrow> 0 | Some n \<Rightarrow> n)"

definition get_latest_reconciliation ::
  "string \<Rightarrow> string \<Rightarrow> durable_repo \<Rightarrow> reconciliation_record option" where
  "get_latest_reconciliation tenant_id plan_id s =
     py_max_by (reconciliation_rank s tenant_id plan_id)
       [r. (key, r) \<leftarrow> dr_reconciliations s, in_scope tenant_id plan_id key]"

definition save_orphan ::
  "string \<Rightarrow> string \<Rightarrow> orphan_record \<Rightarrow> durable_repo \<Rightarrow> (py_error + orphan_record) \<times> durable_repo" where
  "save_orphan tenant_id plan_id r s =
     (case validate_record_scope tenant_id plan_id (or_tenant_id r) (or_plan_id r) of
        Some e \<Rightarrow> (Inl e, s)
      | None \<Rightarrow>
          (let key = (tenant_id, plan_id, or_orphan_id r)
           in case map_of (dr_orphans s) key of
                Some existing \<Rightarrow> (Inr existing, s)
              | None \<Rightarrow> (Inr r, s\<lparr>dr_orphans := AList.update key r (dr_orphans s)\<rparr>)))"

definition list_orphans :: "string \<Rightarrow> string \<Rightarrow> durable_repo \<Rightarrow> orphan_record list" where
  "list_orphans tenant_id plan_id s =
     sort_key (\<lambda>r. (or_detected_at r, or_orphan_id r))
       [r. (key, r) \<leftarrow> dr_orphans s, in_scope tenant_id plan_id key]"

definition clear_orphans :: "string \<Rightarrow> string \<Rightarrow> durable_repo \<Rightarrow> nat \<times> durable_repo" where
  "clear_orphans tenant_id plan_id s =
     (let keys = filter (in_scope tenant_id plan_id) (map fst (dr_orphans s))
      in (length keys, s\<lparr>dr_orphans := fold AList.delete keys (dr_orphans s)\<rparr>))"

definition save_coordination_state ::
  "string \<Rightarrow> string \<Rightarrow> plan_coordination_state \<Rightarrow> durable_repo
     \<Rightarrow> (py_error + plan_coordination_state) \<times> durable_repo" where
  "save_coordination_state tenant_id plan_id state s =
     (case validate_record_scope tenant_id plan_id (pc_tenant_id state) (pc_plan_id state) of
        Some e \<Rightarrow> (Inl e, s)
      | None \<Rightarrow>
      case validate_token (pc_fencing_token state) ''state.fencing_token'' of
        Some e \<Rightarrow> (Inl e, s)
      | None \<Rightarrow>
     (let key = (tenant_id, plan_id);
          current_token = fencing_token_of s key;
          existing = dr_coordination_states s key
      in if pc_fencing_token state < current_token
         then (case existing of
                 Some st \<Rightarrow> (Inr st, s)
               | None \<Rightarrow> (Inl (ValueError ''coordination state has a stale fencing token''), s))
         else if (case existing of None \<Rightarrow> False
                  | Some st \<Rightarrow> pc_fencing_token state < pc_fencing_token st)
         then (case existing of Some st \<Rightarrow> (Inr st, s) | None \<Rightarrow> (Inr state, s))
         else
           (let s1 = (if pc_fencing_token state > current_token
                      then set_fencing_token_locked key (pc_fencing_token state) s else s)
            in (Inr state,
                s1\<lparr>dr_coordination_states := (dr_coordination_states s1)(key \<mapsto> state)\<rparr>))))"

definition get_coordination_state ::
  "string \<Rightarrow> string \<Rightarrow> durable_repo \<Rightarrow> plan_coordination_state option" where
  "get_coordination_state tenant_id plan_id s = dr_coordination_states s (tenant_id, plan_id)"

definition orphan_asdict :: "orphan_record \<Rightarrow> pydict" where
  "orphan_asdict r =
     [(''tenant_id'', PStr (or_tenant_id r)), (''plan_id'', PStr (or_plan_id r)),
      (''orphan_id'', PStr (or_orphan_id r)), (''action_id'', PStr (or_action_id r)),
      (''detected_at'', PInt (or_detected_at r)), (''orphan_kind'', PStr (or_orphan_kind r)),
      (''details'', PDict (or_details r))]"

definition list_orphan_steps_for_plan :: "string \<Rightarrow> string \<Rightarrow> durable_repo \<Rightarrow> pydict list" where
  "list_orphan_steps_for_plan tenant_id plan_id s =
     map orphan_asdict
       (sort_key (\<lambda>r. (or_detected_at r, or_orphan_id r))
          [r. (key, r) \<leftarrow> dr_orphans s, in_scope tenant_id plan_id key])"

section \<open>Transitions\<close>

text \<open>One constructor per method that can change the repository, with its arguments.\<close>

datatype repo_op =
    AcquireLease datetime string string string string int "int option" string
  | RenewLease datetime string string string string int
  | ReleaseLease datetime string string string string
  | RevokeLease string string
  | BumpFencingToken string string
  | RegisterWorker datetime string string string int "string option"
  | UpdateHeartbeat datetime string string string int "string option" "datetime option"
  | MarkStale string string string
  | MarkState string string string string "string option"
  | RemoveWorker string string string
  | SaveReconciliation string string reconciliation_record
  | SaveOrphan string string orphan_record
  | ClearOrphans string string
  | SaveCoordinationState string string plan_coordination_state

fun repo_exec :: "repo_op \<Rightarrow> durable_repo \<Rightarrow> durable_repo" where
  "repo_exec (AcquireLease now lid t p w ttl ex r) s = snd (acquire_lease now lid t p w ttl ex r s)"
| "repo_exec (RenewLease now t p lid w ttl) s = snd (renew_lease now t p lid w ttl s)"
| "repo_exec (ReleaseLease now t p lid w) s = snd (release_lease now t p lid w s)"
| "repo_exec (RevokeLease t p) s = snd (revoke_lease t p s)"
| "repo_exec (BumpFencingToken t p) s = snd (bump_fencing_token t p s)"
| "repo_exec (RegisterWorker now t p w n lid) s = snd (register_worker now t p w n lid s)"
| "repo_exec (UpdateHeartbeat clock t p w n lid now) s =
     snd (update_heartbeat clock t p w n lid now s)"
| "repo_exec (MarkStale t p w) s = snd (mark_stale t p w s)"
| "repo_exec (MarkState t p w st e) s = snd (mark_state t p w st e s)"
| "repo_exec (RemoveWorker t p w) s = snd (remove_worker t p w s)"
| "repo_exec (SaveReconciliation t p r) s = snd (save_reconciliation t p r s)"
| "repo_exec (SaveOrphan t p r) s = snd (save_orphan t p r s)"
| "repo_exec (ClearOrphans t p) s = snd (clear_orphans t p s)"
| "repo_exec (SaveCoordinationState t p st) s = snd (save_coordination_state t p st s)"

text \<open>The tenant and plan an operation is called for.\<close>

fun op_scope :: "repo_op \<Rightarrow> scope" where
  "op_scope (AcquireLease _ _ t p _ _ _ _) = (t, p)"
| "op_scope (RenewLease _ t p _ _ _) = (t, p)"
| "op_scope (ReleaseLease _ t p _ _) = (t, p)"
| "op_scope (RevokeLease t p) = (t, p)"
| "op_scope (BumpFencingToken t p) = (t, p)"
| "op_scope (RegisterWorker _ t p _ _ _) = (t, p)"
| "op_scope (UpdateHeartbeat _ t p _ _ _ _) = (t, p)"
| "op_scope (MarkStale t p _) = (t, p)"
| "op_scope (MarkState t p _ _ _) = (t, p)"
| "op_scope (RemoveWorker t p _) = (t, p)"
| "op_scope (SaveReconciliation t p _) = (t, p)"
| "op_scope (SaveOrphan t p _) = (t, p)"
| "op_scope (ClearOrphans t p) = (t, p)"
| "op_scope (SaveCoordinationState t p _) = (t, p)"

inductive repo_step :: "durable_repo \<Rightarrow> durable_repo \<Rightarrow> bool" where
  exec: "repo_step s (repo_exec op s)"

inductive reachable_repo :: "durable_repo \<Rightarrow> bool" where
  init: "reachable_repo empty_repo"
| step: "reachable_repo s \<Longrightarrow> repo_step s s' \<Longrightarrow> reachable_repo s'"

inductive_cases repo_stepE: "repo_step s s'"

end
