(* ===== verification/Durable_Invariant.thy ===== *)
theory Durable_Invariant
  imports Durable_Coordination Fencing
begin

text \<open>
  What the in-memory durable recovery repository guarantees. The invariant ties leases,
  fencing tokens and coordination states together and says that every record is filed under
  its own key; each part of it is kept by every operation, so it holds of every reachable
  state. On top of it: fencing tokens only grow, a lease is exclusive until it expires, a stale
  coordination state is never stored, operations of one plan do not touch another plan or
  tenant, and the reconciliation and orphan queries return what was saved.
\<close>

section \<open>The invariant\<close>

text \<open>A lease is filed under its scope and carries the scope's current token.\<close>

definition lease_inv :: "durable_repo \<Rightarrow> bool" where
  "lease_inv s \<longleftrightarrow>
     (\<forall>k l. dr_leases s k = Some l \<longrightarrow>
        k = (rl_tenant_id l, rl_plan_id l) \<and> dr_fencing_tokens s k = Some (rl_fencing_token l))"

text \<open>A coordination state is filed under its scope and is at the scope's current token.\<close>

definition coord_inv :: "durable_repo \<Rightarrow> bool" where
  "coord_inv s \<longleftrightarrow>
     (\<forall>k st. dr_coordination_states s k = Some st \<longrightarrow>
        k = (pc_tenant_id st, pc_plan_id st) \<and> pc_fencing_token st = fencing_token_of s k)"

definition token_inv :: "durable_repo \<Rightarrow> bool" where
  "token_inv s \<longleftrightarrow> (\<forall>k. 0 \<le> fencing_token_of s k)"

definition filed :: "('v \<Rightarrow> record_key) \<Rightarrow> (record_key, 'v) dict \<Rightarrow> bool" where
  "filed key d \<longleftrightarrow> wf_dict d \<and> (\<forall>k v. map_of d k = Some v \<longrightarrow> k = key v)"

definition worker_key :: "worker_record \<Rightarrow> record_key" where
  "worker_key w = (wr_tenant_id w, wr_plan_id w, wr_worker_id w)"

definition reconciliation_key :: "reconciliation_record \<Rightarrow> record_key" where
  "reconciliation_key r = (rr_tenant_id r, rr_plan_id r, rr_reconciliation_id r)"

definition orphan_key :: "orphan_record \<Rightarrow> record_key" where
  "orphan_key r = (or_tenant_id r, or_plan_id r, or_orphan_id r)"

text \<open>Saved reconciliations are numbered 1, 2, \<dots> without repetition.\<close>

definition order_inv :: "durable_repo \<Rightarrow> bool" where
  "order_inv s \<longleftrightarrow>
     0 \<le> dr_reconciliation_sequence s \<and>
     (\<forall>k. dr_reconciliation_order s k = None \<longleftrightarrow> map_of (dr_reconciliations s) k = None) \<and>
     (\<forall>k n. dr_reconciliation_order s k = Some n \<longrightarrow> 0 < n \<and> n \<le> dr_reconciliation_sequence s) \<and>
     (\<forall>k k' n. dr_reconciliation_order s k = Some n \<longrightarrow>
        dr_reconciliation_order s k' = Some n \<longrightarrow> k = k')"

definition repo_inv :: "durable_repo \<Rightarrow> bool" where
  "repo_inv s \<longleftrightarrow>
     lease_inv s \<and> coord_inv s \<and> token_inv s \<and> filed worker_key (dr_workers s) \<and>
     filed reconciliation_key (dr_reconciliations s) \<and> filed orphan_key (dr_orphans s) \<and>
     order_inv s"

lemma filed_Nil [simp, inv_intros]: "filed key []"
  by (simp add: filed_def)

lemma filed_update [inv_intros]: "filed key d \<Longrightarrow> k = key v \<Longrightarrow> filed key (AList.update k v d)"
  by (simp add: filed_def wf_dict_update)

lemma filed_delete [inv_intros]: "filed key d \<Longrightarrow> filed key (AList.delete k d)"
  by (simp add: filed_def wf_dict_delete)

lemma filed_fold_delete [inv_intros]: "filed key d \<Longrightarrow> filed key (fold AList.delete ks d)"
  by (induction ks arbitrary: d) (simp_all add: filed_delete)

lemma filed_get: "filed key d \<Longrightarrow> map_of d k = Some v \<Longrightarrow> key v = k"
  by (simp add: filed_def del: split_paired_All)

section \<open>Single steps on the locked state\<close>

lemmas lock_defs = set_fencing_token_locked_def advance_fencing_token_locked_def
  active_lease_locked_def Let_def

lemma fencing_token_of_upd [simp]:
  "fencing_token_of (s\<lparr>dr_fencing_tokens := (dr_fencing_tokens s)(k \<mapsto> n)\<rparr>) k' =
     (if k' = k then n else fencing_token_of s k')"
  by (simp add: fencing_token_of_def)

lemma fencing_token_of_frame [simp]:
  "fencing_token_of (s\<lparr>dr_leases := a\<rparr>) = fencing_token_of s"
  "fencing_token_of (s\<lparr>dr_workers := b\<rparr>) = fencing_token_of s"
  "fencing_token_of (s\<lparr>dr_reconciliations := c\<rparr>) = fencing_token_of s"
  "fencing_token_of (s\<lparr>dr_reconciliation_order := d\<rparr>) = fencing_token_of s"
  "fencing_token_of (s\<lparr>dr_reconciliation_sequence := e\<rparr>) = fencing_token_of s"
  "fencing_token_of (s\<lparr>dr_orphans := f\<rparr>) = fencing_token_of s"
  "fencing_token_of (s\<lparr>dr_coordination_states := g\<rparr>) = fencing_token_of s"
  by (simp_all add: fencing_token_of_def fun_eq_iff)

lemma set_fencing_token_fields [frame_simps]:
  "dr_leases (set_fencing_token_locked k n s) = (dr_leases s)(k := None)"
  "dr_fencing_tokens (set_fencing_token_locked k n s) = (dr_fencing_tokens s)(k \<mapsto> n)"
  "dr_workers (set_fencing_token_locked k n s) = dr_workers s"
  "dr_reconciliations (set_fencing_token_locked k n s) = dr_reconciliations s"
  "dr_reconciliation_order (set_fencing_token_locked k n s) = dr_reconciliation_order s"
  "dr_reconciliation_sequence (set_fencing_token_locked k n s) = dr_reconciliation_sequence s"
  "dr_orphans (set_fencing_token_locked k n s) = dr_orphans s"
  by (simp_all add: lock_defs split: option.split)

lemma set_fencing_token_states [frame_simps]:
  "dr_coordination_states (set_fencing_token_locked k n s) =
     (dr_coordination_states s)
       (k := map_option (\<lambda>st. st\<lparr>pc_fencing_token := n\<rparr>) (dr_coordination_states s k))"
  by (auto simp: lock_defs fun_eq_iff split: option.split)

lemma set_fencing_token_of [simp]:
  "fencing_token_of (set_fencing_token_locked k n s) k' =
     (if k' = k then n else fencing_token_of s k')"
  by (simp add: fencing_token_of_def frame_simps)

lemma drop_no_lease: "dr_leases s k = None \<Longrightarrow> s\<lparr>dr_leases := (dr_leases s)(k := None)\<rparr> = s"
  by (simp add: fun_upd_idem)

lemma active_lease_cases:
  obtains (held) l where "dr_leases s k = Some l" "\<not> lease_is_expired l now"
      "active_lease_locked k now rm s = (Some l, s)"
  | (free) "\<And>l. dr_leases s k = Some l \<Longrightarrow> lease_is_expired l now"
      "active_lease_locked k now rm s =
         (None, if rm then s\<lparr>dr_leases := (dr_leases s)(k := None)\<rparr> else s)"
  by (cases "dr_leases s k")
    (auto simp: active_lease_locked_def drop_no_lease split: if_splits intro: held)

section \<open>Preservation\<close>

text \<open>
  Every operation is a composition of a few primitive updates; each keeps the invariant under
  its own condition.
\<close>

lemmas inv_defs = repo_inv_def lease_inv_def coord_inv_def token_inv_def order_inv_def

lemma inv_empty [inv_intros]: "repo_inv empty_repo"
  by (simp add: inv_defs empty_repo_def fencing_token_of_def)

lemma inv_drop_lease [inv_intros]:
  "repo_inv s \<Longrightarrow> repo_inv (s\<lparr>dr_leases := (dr_leases s)(k := None)\<rparr>)"
  by (simp add: inv_defs)

lemma inv_put_lease [inv_intros]:
  "repo_inv s \<Longrightarrow> k = (rl_tenant_id l, rl_plan_id l) \<Longrightarrow>
   dr_fencing_tokens s k = Some (rl_fencing_token l) \<Longrightarrow>
   repo_inv (s\<lparr>dr_leases := (dr_leases s)(k \<mapsto> l)\<rparr>)"
  by (simp add: inv_defs)

lemma inv_set_token [inv_intros]:
  "repo_inv s \<Longrightarrow> 0 \<le> n \<Longrightarrow> repo_inv (set_fencing_token_locked k n s)"
  by (auto simp: inv_defs frame_simps)

lemma inv_put_state [inv_intros]:
  "repo_inv s \<Longrightarrow> k = (pc_tenant_id st, pc_plan_id st) \<Longrightarrow>
   pc_fencing_token st = fencing_token_of s k \<Longrightarrow>
   repo_inv (s\<lparr>dr_coordination_states := (dr_coordination_states s)(k \<mapsto> st)\<rparr>)"
  by (simp add: inv_defs)

lemma inv_workers [inv_intros]:
  "repo_inv s \<Longrightarrow> filed worker_key ws \<Longrightarrow> repo_inv (s\<lparr>dr_workers := ws\<rparr>)"
  by (simp add: inv_defs)

lemma inv_orphans [inv_intros]:
  "repo_inv s \<Longrightarrow> filed orphan_key os \<Longrightarrow> repo_inv (s\<lparr>dr_orphans := os\<rparr>)"
  by (simp add: inv_defs)

lemma inv_set_worker [inv_intros]:
  "repo_inv s \<Longrightarrow> k = worker_key w \<Longrightarrow> repo_inv (set_worker k w s)"
  unfolding set_worker_def by (intro inv_workers filed_update) (simp_all add: repo_inv_def)

lemma inv_new_reconciliation:
  assumes "repo_inv s" and "k = reconciliation_key r" and "map_of (dr_reconciliations s) k = None"
  shows "repo_inv (s\<lparr>dr_reconciliations := AList.update k r (dr_reconciliations s),
    dr_reconciliation_sequence := dr_reconciliation_sequence s + 1,
    dr_reconciliation_order := (dr_reconciliation_order s)
      (k \<mapsto> dr_reconciliation_sequence s + 1)\<rparr>)"
proof -
  have "order_inv s" and "filed reconciliation_key (dr_reconciliations s)"
    using assms(1) by (simp_all add: repo_inv_def)
  then have "order_inv (s\<lparr>dr_reconciliations := AList.update k r (dr_reconciliations s),
      dr_reconciliation_sequence := dr_reconciliation_sequence s + 1,
      dr_reconciliation_order := (dr_reconciliation_order s)
        (k \<mapsto> dr_reconciliation_sequence s + 1)\<rparr>)"
    unfolding order_inv_def
    by (auto simp del: split_paired_All simp: assms(3)) (force simp del: split_paired_All)+
  moreover have "filed reconciliation_key (AList.update k r (dr_reconciliations s))"
    using \<open>filed reconciliation_key _\<close> assms(2) by (rule filed_update)
  ultimately show ?thesis
    using assms(1) by (simp add: repo_inv_def lease_inv_def coord_inv_def token_inv_def)
qed

text \<open>The lease an acquisition creates on a free scope.\<close>

definition new_lease ::
  "datetime \<Rightarrow> string \<Rightarrow> string \<Rightarrow> string \<Rightarrow> string \<Rightarrow> int \<Rightarrow> string \<Rightarrow> int \<Rightarrow> recovery_lease" where
  "new_lease now lid t p w ttl r n =
     \<lparr>rl_plan_id = p, rl_tenant_id = t, rl_worker_id = w, rl_lease_id = lid,
      rl_fencing_token = n, rl_acquired_at = now, rl_expires_at = now + seconds ttl,
      rl_renewed_at = now, rl_lease_ttl_seconds = ttl,
      rl_lease_metadata = [(''reason'', PStr r)]\<rparr>"

lemma new_lease_sel [simp]:
  "rl_plan_id (new_lease now lid t p w ttl r n) = p"
  "rl_tenant_id (new_lease now lid t p w ttl r n) = t"
  "rl_worker_id (new_lease now lid t p w ttl r n) = w"
  "rl_lease_id (new_lease now lid t p w ttl r n) = lid"
  "rl_fencing_token (new_lease now lid t p w ttl r n) = n"
  "rl_expires_at (new_lease now lid t p w ttl r n) = now + seconds ttl"
  by (simp_all add: new_lease_def)

text \<open>The state after an acquisition that is granted.\<close>

definition granted_state :: "scope \<Rightarrow> recovery_lease \<Rightarrow> durable_repo \<Rightarrow> durable_repo" where
  "granted_state k l s =
     (let s' = set_fencing_token_locked k (rl_fencing_token l) s
      in s'\<lparr>dr_leases := (dr_leases s')(k \<mapsto> l)\<rparr>)"

lemma set_token_drop [simp]:
  "set_fencing_token_locked k n (s\<lparr>dr_leases := (dr_leases s)(k := None)\<rparr>) =
     set_fencing_token_locked k n s"
  by (simp add: set_fencing_token_locked_def Let_def split: option.split)

text \<open>The outcomes of \<open>acquire_lease\<close>, exhaustively.\<close>

lemma acquire_lease_cases:
  obtains (invalid) e where "acquire_lease now lid t p w ttl ex r s = (Inl e, s)"
      "ttl < 0 \<or> (\<exists>n. ex = Some n \<and> n < 0)"
  | (held) l res where "dr_leases s (t, p) = Some l" "\<not> lease_is_expired l now"
      "acquire_lease now lid t p w ttl ex r s = (Inr res, s)"
      "la_acquired res \<longleftrightarrow> rl_worker_id l = w \<and> ex \<in> {None, Some (rl_fencing_token l)}"
      "la_fencing_token res = rl_fencing_token l"
      "la_lease res = (if la_acquired res then Some l else None)"
      "la_acquired res \<Longrightarrow> la_reason res = ''already_acquired''"
  | (mismatch) res where "\<And>l. dr_leases s (t, p) = Some l \<Longrightarrow> lease_is_expired l now"
      "ex \<noteq> None" "ex \<noteq> Some (fencing_token_of s (t, p))"
      "acquire_lease now lid t p w ttl ex r s =
         (Inr res, s\<lparr>dr_leases := (dr_leases s)((t, p) := None)\<rparr>)"
      "\<not> la_acquired res" "la_fencing_token res = fencing_token_of s (t, p)" "la_lease res = None"
  | (granted) res l where "\<And>l. dr_leases s (t, p) = Some l \<Longrightarrow> lease_is_expired l now"
      "ex \<in> {None, Some (fencing_token_of s (t, p))}"
      "l = new_lease now lid t p w ttl r (fencing_token_of s (t, p) + 1)"
      "acquire_lease now lid t p w ttl ex r s = (Inr res, granted_state (t, p) l s)"
      "la_acquired res" "la_lease res = Some l" "la_fencing_token res = rl_fencing_token l"
      "la_reason res \<noteq> ''already_acquired''"
proof (cases "ttl < 0 \<or> (\<exists>n. ex = Some n \<and> n < 0)")
  case True
  then have "\<exists>e. acquire_lease now lid t p w ttl ex r s = (Inl e, s)"
    by (cases "ttl < 0") (auto simp: acquire_lease_def validate_lease_ttl_def validate_token_def)
  with invalid True show ?thesis by blast
next
  case valid: False
  then have ok: "validate_lease_ttl ttl = None"
    "(case ex of None \<Rightarrow> None | Some n \<Rightarrow> validate_token n ''expected_fencing_token'') = None"
    by (auto simp: validate_lease_ttl_def validate_token_def split: option.split)
  note eq = acquire_lease_def [of now lid t p w ttl ex r s, unfolded ok option.case]
  show ?thesis
  proof (cases rule: active_lease_cases [of s "(t, p)" now True])
    case (held l)
    have "\<exists>res. acquire_lease now lid t p w ttl ex r s = (Inr res, s) \<and>
        (la_acquired res \<longleftrightarrow> rl_worker_id l = w \<and> ex \<in> {None, Some (rl_fencing_token l)}) \<and>
        la_fencing_token res = rl_fencing_token l \<and>
        la_lease res = (if la_acquired res then Some l else None) \<and>
        (la_acquired res \<longrightarrow> la_reason res = ''already_acquired'')"
      unfolding eq by (auto simp: held(3) Let_def lease_failure_def)
    with that(2) [OF held(1,2)] show ?thesis by blast
  next
    case free
    show ?thesis
    proof (cases "ex \<in> {None, Some (fencing_token_of s (t, p))}")
      case True
      let ?l = "new_lease now lid t p w ttl r (fencing_token_of s (t, p) + 1)"
      have "\<exists>res. acquire_lease now lid t p w ttl ex r s = (Inr res, granted_state (t, p) ?l s) \<and>
          la_acquired res \<and> la_lease res = Some ?l \<and> la_fencing_token res = rl_fencing_token ?l \<and>
          la_reason res \<noteq> ''already_acquired''"
        unfolding eq using True
        by (auto simp: Let_def advance_fencing_token_locked_def new_lease_def granted_state_def
          free(2))
      with granted [OF free(1) True refl] show ?thesis by blast
    next
      case False
      then have "\<exists>res. acquire_lease now lid t p w ttl ex r s =
            (Inr res, s\<lparr>dr_leases := (dr_leases s)((t, p) := None)\<rparr>) \<and>
          \<not> la_acquired res \<and> la_fencing_token res = fencing_token_of s (t, p) \<and> la_lease res = None"
        unfolding eq by (auto simp: Let_def lease_failure_def free(2))
      with mismatch [OF free(1)] False show ?thesis by blast
    qed
  qed
qed

lemma granted_fields [frame_simps]:
  "dr_leases (granted_state k l s) = (dr_leases s)(k \<mapsto> l)"
  "fencing_token_of (granted_state k l s) k' =
     (if k' = k then rl_fencing_token l else fencing_token_of s k')"
  by (simp_all add: granted_state_def Let_def frame_simps)

lemma inv_granted [inv_intros]:
  "repo_inv s \<Longrightarrow> k = (rl_tenant_id l, rl_plan_id l) \<Longrightarrow> 0 \<le> rl_fencing_token l \<Longrightarrow>
   repo_inv (granted_state k l s)"
  unfolding granted_state_def Let_def
  by (intro inv_put_lease inv_set_token) (simp_all add: frame_simps)

lemma inv_token_nonneg: "repo_inv s \<Longrightarrow> 0 \<le> fencing_token_of s k"
  by (cases k) (simp add: repo_inv_def token_inv_def)

lemma inv_lease_token:
  "repo_inv s \<Longrightarrow> dr_leases s k = Some l \<Longrightarrow>
   k = (rl_tenant_id l, rl_plan_id l) \<and> dr_fencing_tokens s k = Some (rl_fencing_token l) \<and>
   fencing_token_of s k = rl_fencing_token l"
  by (cases k) (auto simp: repo_inv_def lease_inv_def fencing_token_of_def)

lemma inv_state_token:
  "repo_inv s \<Longrightarrow> dr_coordination_states s k = Some st \<Longrightarrow>
   k = (pc_tenant_id st, pc_plan_id st) \<and> pc_fencing_token st = fencing_token_of s k"
  by (cases k) (auto simp: repo_inv_def coord_inv_def)

lemma inv_acquire_lease [inv_intros]:
  "repo_inv s \<Longrightarrow> repo_inv (snd (acquire_lease now lid t p w ttl ex r s))"
  by (cases rule: acquire_lease_cases [of now lid t p w ttl ex r s])
    (simp_all add: inv_drop_lease inv_granted inv_token_nonneg)

text \<open>Renewal and release: the state they leave.\<close>

lemma renew_lease_state:
  obtains (same) "snd (renew_lease now t p lid w ttl s) = s"
      "fst (renew_lease now t p lid w ttl s) \<noteq> Inr True"
  | (dropped) l where "dr_leases s (t, p) = Some l" "lease_is_expired l now"
      "fst (renew_lease now t p lid w ttl s) \<noteq> Inr True"
      "snd (renew_lease now t p lid w ttl s) = s\<lparr>dr_leases := (dr_leases s)((t, p) := None)\<rparr>"
  | (renewed) l where "dr_leases s (t, p) = Some l" "\<not> lease_is_expired l now"
      "rl_lease_id l = lid" "rl_worker_id l = w"
      "fst (renew_lease now t p lid w ttl s) = Inr True"
      "snd (renew_lease now t p lid w ttl s) =
         s\<lparr>dr_leases := (dr_leases s)((t, p) \<mapsto> l\<lparr>rl_renewed_at := now,
             rl_expires_at := now + seconds ttl, rl_lease_ttl_seconds := ttl\<rparr>)\<rparr>"
proof (cases "validate_lease_ttl ttl")
  case (Some e)
  with same show ?thesis by (simp add: renew_lease_def)
next
  case None
  show ?thesis
  proof (cases rule: active_lease_cases [of s "(t, p)" now True])
    case (held l)
    with same renewed None show ?thesis
      by (cases "rl_lease_id l = lid \<and> rl_worker_id l = w") (auto simp: renew_lease_def Let_def)
  next
    case free
    with same dropped None show ?thesis
      by (cases "dr_leases s (t, p)") (auto simp: renew_lease_def Let_def drop_no_lease)
  qed
qed

lemma release_lease_state:
  obtains (same) "snd (release_lease now t p lid w s) = s" "\<not> fst (release_lease now t p lid w s)"
  | (dropped) l where "dr_leases s (t, p) = Some l"
      "lease_is_expired l now \<or> rl_lease_id l = lid \<and> rl_worker_id l = w"
      "fst (release_lease now t p lid w s) \<longleftrightarrow> \<not> lease_is_expired l now"
      "snd (release_lease now t p lid w s) = s\<lparr>dr_leases := (dr_leases s)((t, p) := None)\<rparr>"
proof (cases rule: active_lease_cases [of s "(t, p)" now True])
  case (held l)
  with same dropped show ?thesis
    by (cases "rl_lease_id l = lid \<and> rl_worker_id l = w") (auto simp: release_lease_def Let_def)
next
  case free
  with same dropped show ?thesis
    by (cases "dr_leases s (t, p)") (auto simp: release_lease_def Let_def drop_no_lease)
qed

lemma inv_renew_lease [inv_intros]:
  "repo_inv s \<Longrightarrow> repo_inv (snd (renew_lease now t p lid w ttl s))"
  by (cases rule: renew_lease_state [of now t p lid w ttl s])
    (use inv_lease_token [of s "(t, p)"] in \<open>auto intro!: inv_drop_lease inv_put_lease\<close>)

lemma inv_release_lease [inv_intros]:
  "repo_inv s \<Longrightarrow> repo_inv (snd (release_lease now t p lid w s))"
  by (cases rule: release_lease_state [of now t p lid w s]) (simp_all add: inv_drop_lease)

lemma inv_advance [inv_intros]:
  "repo_inv s \<Longrightarrow> repo_inv (snd (advance_fencing_token_locked k s))"
  by (simp add: advance_fencing_token_locked_def Let_def inv_set_token inv_token_nonneg)

lemma inv_revoke_lease [inv_intros]: "repo_inv s \<Longrightarrow> repo_inv (snd (revoke_lease t p s))"
  by (simp add: revoke_lease_def Let_def inv_advance inv_drop_lease)

lemma inv_worker_key: "repo_inv s \<Longrightarrow> map_of (dr_workers s) k = Some w \<Longrightarrow> worker_key w = k"
  by (auto simp: repo_inv_def dest: filed_get)

text \<open>
  A worker operation leaves the state alone or files one record under the worker's own key,
  never with a smaller fencing token than the record it replaces.
\<close>

definition files_worker :: "record_key \<Rightarrow> durable_repo \<Rightarrow> durable_repo \<Rightarrow> bool" where
  "files_worker k s s' \<longleftrightarrow>
     s' = s \<or>
     (\<exists>w. s' = set_worker k w s \<and>
        (case map_of (dr_workers s) k of
           None \<Rightarrow> worker_key w = k
         | Some v \<Rightarrow> worker_key w = worker_key v \<and> wr_fencing_token v \<le> wr_fencing_token w))"

lemma files_worker_ops:
  "files_worker (t, p, w) s (snd (register_worker now t p w n lid s))"
  "files_worker (t, p, w) s (snd (update_heartbeat clock t p w n lid at s))"
  "files_worker (t, p, w) s (snd (mark_stale t p w s))"
  "files_worker (t, p, w) s (snd (mark_state t p w st err s))"
  unfolding files_worker_def
  by (auto simp: register_worker_def update_heartbeat_def mark_stale_def mark_state_def Let_def
      worker_key_def split: option.split sum.split)

lemma inv_files_worker: "repo_inv s \<Longrightarrow> files_worker k s s' \<Longrightarrow> repo_inv s'"
  by (auto simp: files_worker_def inv_worker_key intro!: inv_set_worker split: option.splits)

lemma inv_remove_worker [inv_intros]: "repo_inv s \<Longrightarrow> repo_inv (snd (remove_worker t p w s))"
  by (auto simp: remove_worker_def Let_def intro!: inv_workers filed_delete)
    (simp add: repo_inv_def)

lemma inv_save_reconciliation [inv_intros]:
  "repo_inv s \<Longrightarrow> repo_inv (snd (save_reconciliation t p r s))"
  by (auto simp: save_reconciliation_def validate_record_scope_def Let_def reconciliation_key_def
      intro!: inv_new_reconciliation split: option.split)

lemma inv_save_orphan [inv_intros]: "repo_inv s \<Longrightarrow> repo_inv (snd (save_orphan t p r s))"
  by (auto simp: save_orphan_def validate_record_scope_def Let_def orphan_key_def
      intro!: inv_orphans filed_update split: option.split) (simp add: repo_inv_def)

lemma inv_clear_orphans [inv_intros]: "repo_inv s \<Longrightarrow> repo_inv (snd (clear_orphans t p s))"
  by (auto simp: clear_orphans_def Let_def intro!: inv_orphans filed_fold_delete)
    (simp add: repo_inv_def)

text \<open>
  \<open>save_coordination_state\<close> on a state that satisfies the invariant: the test against the
  stored state's own token never decides, since that token is the scope's current one.
\<close>

lemma save_coordination_state_cases:
  assumes "repo_inv s"
  obtains (invalid) e where "save_coordination_state t p st s = (Inl e, s)"
      "(pc_tenant_id st, pc_plan_id st) \<noteq> (t, p) \<or> pc_fencing_token st < 0"
  | (stale) "(pc_tenant_id st, pc_plan_id st) = (t, p)" "0 \<le> pc_fencing_token st"
      "pc_fencing_token st < fencing_token_of s (t, p)"
      "save_coordination_state t p st s =
         ((case dr_coordination_states s (t, p) of
             Some old \<Rightarrow> Inr old
           | None \<Rightarrow> Inl (ValueError ''coordination state has a stale fencing token'')), s)"
  | (current) "(pc_tenant_id st, pc_plan_id st) = (t, p)"
      "pc_fencing_token st = fencing_token_of s (t, p)"
      "save_coordination_state t p st s =
         (Inr st, s\<lparr>dr_coordination_states := (dr_coordination_states s)((t, p) \<mapsto> st)\<rparr>)"
  | (newer) "(pc_tenant_id st, pc_plan_id st) = (t, p)"
      "fencing_token_of s (t, p) < pc_fencing_token st"
      "save_coordination_state t p st s =
         (Inr st, (set_fencing_token_locked (t, p) (pc_fencing_token st) s)
            \<lparr>dr_coordination_states := (dr_coordination_states s)((t, p) \<mapsto> st)\<rparr>)"
proof (cases "(pc_tenant_id st, pc_plan_id st) = (t, p) \<and> 0 \<le> pc_fencing_token st")
  case False
  then have "\<exists>e. save_coordination_state t p st s = (Inl e, s)"
    by (auto simp: save_coordination_state_def validate_record_scope_def validate_token_def)
  with invalid False show ?thesis by auto
next
  case True
  then have ok: "validate_record_scope t p (pc_tenant_id st) (pc_plan_id st) = None"
    "validate_token (pc_fencing_token st) ''state.fencing_token'' = None"
    by (auto simp: validate_record_scope_def validate_token_def)
  note eq = save_coordination_state_def [of t p st s, unfolded ok option.case Let_def]
  have old: "pc_fencing_token old = fencing_token_of s (t, p)"
    if "dr_coordination_states s (t, p) = Some old" for old
    using inv_state_token [OF assms that] by simp
  consider "pc_fencing_token st < fencing_token_of s (t, p)"
    | "pc_fencing_token st = fencing_token_of s (t, p)"
    | "fencing_token_of s (t, p) < pc_fencing_token st" by linarith
  then show ?thesis
  proof cases
    case 1
    with stale True show ?thesis by (simp add: eq split: option.splits)
  next
    case 2
    with current True old show ?thesis by (simp add: eq split: option.splits)
  next
    case 3
    with newer True old show ?thesis
      by (simp add: eq frame_simps split: option.splits)
  qed
qed

lemma inv_save_coordination_state [inv_intros]:
  assumes "repo_inv s"
  shows "repo_inv (snd (save_coordination_state t p st s))"
  using assms
proof (cases rule: save_coordination_state_cases [of s t p st])
  case newer
  let ?s = "set_fencing_token_locked (t, p) (pc_fencing_token st) s"
  have "repo_inv (?s\<lparr>dr_coordination_states := (dr_coordination_states ?s)((t, p) \<mapsto> st)\<rparr>)"
    using newer inv_token_nonneg [OF assms, of "(t, p)"] assms
    by (intro inv_put_state inv_set_token) auto
  with newer show ?thesis by (simp add: frame_simps)
qed (use assms in \<open>auto intro: inv_put_state split: option.split\<close>)

lemma inv_exec [inv_intros]: "repo_inv s \<Longrightarrow> repo_inv (repo_exec op s)"
  by (cases op)
    (auto simp: bump_fencing_token_def intro!: inv_intros intro: inv_files_worker
      [OF _ files_worker_ops(1)] inv_files_worker [OF _ files_worker_ops(2)]
      inv_files_worker [OF _ files_worker_ops(3)] inv_files_worker [OF _ files_worker_ops(4)])

lemma reachable_inv: "reachable_repo s \<Longrightarrow> repo_inv s"
  by (induction rule: reachable_repo.induct) (auto intro: inv_empty inv_exec elim!: repo_stepE)

lemma reachable_exec: "reachable_repo s \<Longrightarrow> reachable_repo (repo_exec op s)"
  by (auto intro: reachable_repo.step repo_step.exec)

lemma reachable_run: "reachable_repo s \<Longrightarrow> reachable_repo (run_steps repo_exec es s)"
  by (induction es arbitrary: s) (simp_all add: reachable_exec)

section \<open>Fencing tokens\<close>

lemma files_worker_frame:
  "files_worker k s s' \<Longrightarrow> dr_leases s' = dr_leases s \<and> dr_fencing_tokens s' = dr_fencing_tokens s \<and>
     dr_coordination_states s' = dr_coordination_states s \<and>
     dr_reconciliations s' = dr_reconciliations s \<and>
     dr_reconciliation_order s' = dr_reconciliation_order s \<and> dr_orphans s' = dr_orphans s"
  by (auto simp: files_worker_def set_worker_def)

lemmas worker_op_frame = files_worker_ops [THEN files_worker_frame]

text \<open>
  The token an operation hands out for a scope: an acquisition that grants a new lease, or an
  explicit bump.
\<close>

fun repo_issue :: "repo_op \<Rightarrow> durable_repo \<Rightarrow> scope \<Rightarrow> int option" where
  "repo_issue (AcquireLease now lid t p w ttl ex r) s k =
     (case fst (acquire_lease now lid t p w ttl ex r s) of
        Inr res \<Rightarrow> if k = (t, p) \<and> la_acquired res \<and> la_reason res \<noteq> ''already_acquired''
                   then Some (la_fencing_token res) else None
      | Inl _ \<Rightarrow> None)"
| "repo_issue (BumpFencingToken t p) s k =
     (if k = (t, p) then Some (fst (bump_fencing_token t p s)) else None)"
| "repo_issue _ s k = None"

lemma token_of_tokens: "dr_fencing_tokens s' = dr_fencing_tokens s \<Longrightarrow> fencing_token_of s' = fencing_token_of s"
  by (simp add: fencing_token_of_def fun_eq_iff)

lemmas worker_op_token =
  worker_op_frame [THEN conjunct2, THEN conjunct1, THEN token_of_tokens]

lemma acquire_token:
  "fencing_token_of (snd (acquire_lease now lid t p w ttl ex r s)) k =
     fencing_token_of s k + (if repo_issue (AcquireLease now lid t p w ttl ex r) s k = None then 0 else 1)"
  by (cases rule: acquire_lease_cases [of now lid t p w ttl ex r s]) (auto simp: frame_simps)

lemma acquire_issue:
  "repo_issue (AcquireLease now lid t p w ttl ex r) s k = Some n \<Longrightarrow> n = fencing_token_of s k + 1"
  by (cases rule: acquire_lease_cases [of now lid t p w ttl ex r s]) (auto split: if_splits)

lemma renew_token: "fencing_token_of (snd (renew_lease now t p lid w ttl s)) = fencing_token_of s"
  by (cases rule: renew_lease_state [of now t p lid w ttl s]) auto

lemma release_token: "fencing_token_of (snd (release_lease now t p lid w s)) = fencing_token_of s"
  by (cases rule: release_lease_state [of now t p lid w s]) auto

lemma save_state_token:
  assumes "repo_inv s"
  shows "fencing_token_of (snd (save_coordination_state t p st s)) k =
     (if k = (t, p) \<and> (pc_tenant_id st, pc_plan_id st) = (t, p)
      then max (fencing_token_of s k) (pc_fencing_token st) else fencing_token_of s k)"
  using assms inv_token_nonneg [OF assms, of "(t, p)"]
  by (cases rule: save_coordination_state_cases [of s t p st]) (auto split: option.split)

lemma exec_token_mono:
  assumes "repo_inv s"
  shows "fencing_token_of s k \<le> fencing_token_of (repo_exec op s) k"
proof (cases op)
  case (SaveCoordinationState t p st)
  with save_state_token [OF assms] show ?thesis by simp
qed (simp_all add: acquire_token renew_token release_token revoke_lease_def bump_fencing_token_def
    advance_fencing_token_locked_def Let_def worker_op_token remove_worker_def
    save_reconciliation_def save_orphan_def clear_orphans_def del: repo_issue.simps
    split: option.split)

interpretation repo_fence: fencing_authority repo_exec repo_issue fencing_token_of repo_inv "\<lambda>_. True"
proof unfold_locales
  fix s :: durable_repo and e k n
  assume "repo_inv s" and issue: "repo_issue e s k = Some n"
  then show "fencing_token_of s k < n \<and> n \<le> fencing_token_of (repo_exec e s) k"
    by (cases e)
      (auto simp: acquire_token bump_fencing_token_def advance_fencing_token_locked_def Let_def
        simp del: repo_issue.simps(1) dest!: acquire_issue split: if_splits)
qed (simp_all add: inv_exec exec_token_mono)

section \<open>Isolation\<close>

text \<open>The part of the repository that belongs to one tenant's plan.\<close>

definition scoped :: "string \<Rightarrow> string \<Rightarrow> (record_key, 'v) dict \<Rightarrow> (record_key, 'v) dict" where
  "scoped t p d = filter (\<lambda>e. in_scope t p (fst e)) d"

record plan_data =
  pd_lease :: "recovery_lease option"
  pd_token :: int
  pd_state :: "plan_coordination_state option"
  pd_workers :: "(record_key, worker_record) dict"
  pd_reconciliations :: "(record_key, reconciliation_record) dict"
  pd_order :: "string \<rightharpoonup> int"
  pd_orphans :: "(record_key, orphan_record) dict"

definition plan_data_of :: "string \<Rightarrow> string \<Rightarrow> durable_repo \<Rightarrow> plan_data" where
  "plan_data_of t p s =
     \<lparr>pd_lease = dr_leases s (t, p), pd_token = fencing_token_of s (t, p),
      pd_state = dr_coordination_states s (t, p), pd_workers = scoped t p (dr_workers s),
      pd_reconciliations = scoped t p (dr_reconciliations s),
      pd_order = (\<lambda>i. dr_reconciliation_order s (t, p, i)), pd_orphans = scoped t p (dr_orphans s)\<rparr>"

lemma scoped_select: "[v. (k, v) \<leftarrow> d, in_scope t p k] = map snd (scoped t p d)"
  by (induction d) (auto simp: scoped_def)

lemma scoped_select_where: "[v. (k, v) \<leftarrow> d, in_scope t p k \<and> P v] = filter P (map snd (scoped t p d))"
  by (induction d) (auto simp: scoped_def)

lemma scoped_get: "map_of (scoped t p d) (t, p, i) = map_of d (t, p, i)"
  by (induction d) (auto simp: scoped_def in_scope_def)

lemma scoped_update:
  "\<not> in_scope t p k \<Longrightarrow> scoped t p (AList.update k v d) = scoped t p d"
  by (induction d) (auto simp: scoped_def)

lemma scoped_delete: "\<not> in_scope t p k \<Longrightarrow> scoped t p (AList.delete k d) = scoped t p d"
  by (induction d) (auto simp: scoped_def AList.delete_eq)

lemma scoped_fold_delete:
  "\<forall>k \<in> set ks. \<not> in_scope t p k \<Longrightarrow> scoped t p (fold AList.delete ks d) = scoped t p d"
  by (induction ks arbitrary: d) (simp_all add: scoped_delete)

lemma in_scope_key [simp]: "in_scope t p (t', p', i) \<longleftrightarrow> (t', p') = (t, p)"
  by (auto simp: in_scope_def)

text \<open>Every query of the repository reads its plan's part only.\<close>

lemma queries_of_plan_data:
  "get_active_lease now t p s = (case pd_lease (plan_data_of t p s) of None \<Rightarrow> None
     | Some l \<Rightarrow> if lease_is_expired l now then None else Some l)"
  "get_fencing_token t p s = pd_token (plan_data_of t p s)"
  "get_coordination_state t p s = pd_state (plan_data_of t p s)"
  "get_worker t p w s = map_of (pd_workers (plan_data_of t p s)) (t, p, w)"
  "list_workers t p s = sort_key wr_worker_id (map snd (pd_workers (plan_data_of t p s)))"
  "list_orphans t p s =
     sort_key (\<lambda>r. (or_detected_at r, or_orphan_id r)) (map snd (pd_orphans (plan_data_of t p s)))"
  "get_latest_reconciliation t p s =
     py_max_by (\<lambda>r. (rr_reconciled_at r,
         case pd_order (plan_data_of t p s) (rr_reconciliation_id r) of None \<Rightarrow> 0 | Some n \<Rightarrow> n))
       (map snd (pd_reconciliations (plan_data_of t p s)))"
  by (simp_all add: plan_data_of_def get_active_lease_def active_lease_locked_def
      get_fencing_token_def get_coordination_state_def get_worker_def scoped_get list_workers_def
      list_orphans_def scoped_select get_latest_reconciliation_def reconciliation_rank_def [abs_def]
      split: option.split)

lemma stale_workers_of_plan_data:
  "detect_stale_workers clock t p thr now s =
     (if thr < 0 then Inl (ValueError ''stale_threshold_seconds must be a non-negative integer'')
      else Inr (sort_key wr_worker_id
        (filter (\<lambda>w. worker_is_stale w thr (case now of None \<Rightarrow> clock | Some n \<Rightarrow> n))
          (map snd (pd_workers (plan_data_of t p s))))))"
  by (simp add: detect_stale_workers_def Let_def plan_data_of_def scoped_select_where)

lemma plan_data_cong:
  "dr_leases s' (t, p) = dr_leases s (t, p) \<Longrightarrow>
   fencing_token_of s' (t, p) = fencing_token_of s (t, p) \<Longrightarrow>
   dr_coordination_states s' (t, p) = dr_coordination_states s (t, p) \<Longrightarrow>
   scoped t p (dr_workers s') = scoped t p (dr_workers s) \<Longrightarrow>
   scoped t p (dr_reconciliations s') = scoped t p (dr_reconciliations s) \<Longrightarrow>
   (\<And>i. dr_reconciliation_order s' (t, p, i) = dr_reconciliation_order s (t, p, i)) \<Longrightarrow>
   scoped t p (dr_orphans s') = scoped t p (dr_orphans s) \<Longrightarrow>
   plan_data_of t p s' = plan_data_of t p s"
  by (simp add: plan_data_of_def)

lemma plan_data_drop:
  "k \<noteq> (t, p) \<Longrightarrow> plan_data_of t p (s\<lparr>dr_leases := (dr_leases s)(k := x)\<rparr>) = plan_data_of t p s"
  by (rule plan_data_cong) simp_all

lemma plan_data_token:
  "k \<noteq> (t, p) \<Longrightarrow> plan_data_of t p (set_fencing_token_locked k n s) = plan_data_of t p s"
  by (rule plan_data_cong) (auto simp: frame_simps)

lemma plan_data_files_worker:
  "files_worker (t', p', w) s s' \<Longrightarrow> (t', p') \<noteq> (t, p) \<Longrightarrow> plan_data_of t p s' = plan_data_of t p s"
  by (auto simp: files_worker_def set_worker_def scoped_update intro!: plan_data_cong)

lemma plan_data_acquire:
  "(t', p') \<noteq> (t, p) \<Longrightarrow>
   plan_data_of t p (snd (acquire_lease now lid t' p' w ttl ex r s)) = plan_data_of t p s"
  by (cases rule: acquire_lease_cases [of now lid t' p' w ttl ex r s])
    (simp_all add: plan_data_drop plan_data_token granted_state_def Let_def)

lemma plan_data_save_state:
  "(t', p') \<noteq> (t, p) \<Longrightarrow>
   plan_data_of t p (snd (save_coordination_state t' p' st s)) = plan_data_of t p s"
  by (auto simp: save_coordination_state_def Let_def frame_simps intro!: plan_data_cong
      split: option.split)

lemma plan_data_exec:
  assumes "op_scope op \<noteq> (t, p)"
  shows "plan_data_of t p (repo_exec op s) = plan_data_of t p s"
proof (cases op)
  case (RenewLease now t' p' lid w ttl)
  with assms show ?thesis
    by (cases rule: renew_lease_state [of now t' p' lid w ttl s]) (simp_all add: plan_data_drop)
next
  case (ReleaseLease now t' p' lid w)
  with assms show ?thesis
    by (cases rule: release_lease_state [of now t' p' lid w s]) (simp_all add: plan_data_drop)
next
  case (SaveReconciliation t' p' r)
  with assms show ?thesis
    by (auto simp: save_reconciliation_def Let_def scoped_update intro!: plan_data_cong
        split: option.split)
next
  case (SaveOrphan t' p' r)
  with assms show ?thesis
    by (auto simp: save_orphan_def Let_def scoped_update intro!: plan_data_cong split: option.split)
next
  case (ClearOrphans t' p')
  with assms show ?thesis
    by (auto simp: clear_orphans_def Let_def in_scope_def intro!: plan_data_cong scoped_fold_delete)
next
  case (RemoveWorker t' p' w)
  with assms show ?thesis
    by (auto simp: remove_worker_def Let_def scoped_delete intro!: plan_data_cong)
qed (use assms in \<open>simp_all add: plan_data_acquire plan_data_save_state revoke_lease_def Let_def
    bump_fencing_token_def advance_fencing_token_locked_def plan_data_token
    plan_data_files_worker [OF files_worker_ops(1)] plan_data_files_worker [OF files_worker_ops(2)]
    plan_data_files_worker [OF files_worker_ops(3)] plan_data_files_worker [OF files_worker_ops(4)]\<close>)

lemma plan_data_run:
  "\<forall>op \<in> set ops. op_scope op \<noteq> (t, p) \<Longrightarrow>
   plan_data_of t p (run_steps repo_exec ops s) = plan_data_of t p s"
  by (induction ops arbitrary: s) (simp_all add: plan_data_exec)

end
