(* ===== verification/Durable_Properties.thy ===== *)
theory Durable_Properties
  imports Durable_Invariant
begin

text \<open>
  The guarantees of the durable recovery repository as its clients see them, over every
  sequence of operations any number of workers make: fencing, exclusive leases, the fence on
  coordination states, isolation, and the reconciliation, orphan and worker queries.
\<close>

section \<open>Exclusive leases\<close>

text \<open>
  The operations that can end or change the lease \<open>l\<close> of scope \<open>k\<close>: its holder's own renewal
  or release, an operation that reads a clock at or past its expiry, a revocation or an explicit
  bump, and a coordination state saved with a higher token.
\<close>

fun repo_disturbs :: "scope \<Rightarrow> recovery_lease \<Rightarrow> repo_op \<Rightarrow> bool" where
  "repo_disturbs k l (AcquireLease now lid t p w ttl ex r) \<longleftrightarrow>
     (t, p) = k \<and> lease_is_expired l now"
| "repo_disturbs k l (RenewLease now t p lid w ttl) \<longleftrightarrow>
     (t, p) = k \<and> (lease_is_expired l now \<or> lid = rl_lease_id l \<and> w = rl_worker_id l)"
| "repo_disturbs k l (ReleaseLease now t p lid w) \<longleftrightarrow>
     (t, p) = k \<and> (lease_is_expired l now \<or> lid = rl_lease_id l \<and> w = rl_worker_id l)"
| "repo_disturbs k l (RevokeLease t p) \<longleftrightarrow> (t, p) = k"
| "repo_disturbs k l (BumpFencingToken t p) \<longleftrightarrow> (t, p) = k"
| "repo_disturbs k l (SaveCoordinationState t p st) \<longleftrightarrow>
     (t, p) = k \<and> rl_fencing_token l < pc_fencing_token st"
| "repo_disturbs k l _ \<longleftrightarrow> False"

lemma lease_kept_exec:
  assumes inv: "repo_inv s" and l: "dr_leases s k = Some l" and "\<not> repo_disturbs k l op"
  shows "dr_leases (repo_exec op s) k = Some l"
proof (cases op)
  case (AcquireLease now lid t p w ttl ex r)
  with assms show ?thesis
    by (cases rule: acquire_lease_cases [of now lid t p w ttl ex r s]) (auto simp: frame_simps)
next
  case (RenewLease now t p lid w ttl)
  with assms show ?thesis
    by (cases rule: renew_lease_state [of now t p lid w ttl s]) auto
next
  case (ReleaseLease now t p lid w)
  with assms show ?thesis
    by (cases rule: release_lease_state [of now t p lid w s]) auto
next
  case (SaveCoordinationState t p st)
  from inv show ?thesis
    by (cases rule: save_coordination_state_cases [of s t p st])
      (use assms SaveCoordinationState inv_lease_token [OF inv l] in \<open>auto simp: frame_simps\<close>)
qed (use assms in \<open>auto simp: revoke_lease_def bump_fencing_token_def
    advance_fencing_token_locked_def Let_def frame_simps worker_op_frame remove_worker_def
    save_reconciliation_def save_orphan_def clear_orphans_def split: option.split\<close>)

lemma lease_kept_run:
  assumes "repo_inv s" and "dr_leases s k = Some l" and "\<forall>op \<in> set ops. \<not> repo_disturbs k l op"
  shows "dr_leases (run_steps repo_exec ops s) k = Some l"
  using assms by (induction ops arbitrary: s) (auto simp: lease_kept_exec inv_exec)

section \<open>Properties\<close>

text \<open>
  C16. Every state the repository can reach satisfies its invariant: a stored lease is filed
  under its own tenant and plan and carries the current fencing token; a stored coordination
  state is at the current fencing token; tokens are never negative; worker, reconciliation and
  orphan records are filed once, under their own keys; saved reconciliations are numbered
  without repetition.
\<close>

theorem repository_invariant: "reachable_repo s \<Longrightarrow> repo_inv s"
  by (rule reachable_inv)

theorem repository_invariant_witness:
  "repo_inv (repo_exec (SaveCoordinationState ''t'' ''p''
       \<lparr>pc_plan_id = ''p'', pc_tenant_id = ''t'', pc_status = DPS_ACTIVE, pc_fencing_token = 5,
        pc_coordinator_worker_id = ''w'', pc_active_worker_id = ''w'', pc_lease_id = Some ''l1'',
        pc_lock_mode = LM_EXCLUSIVE, pc_started_at = 0, pc_completed_at = None,
        pc_stop_conditions = [], pc_completed_steps = 0, pc_total_steps = 2,
        pc_verification_passed = False, pc_coordination_metadata = []\<rparr>)
     (repo_exec (AcquireLease 0 ''l1'' ''t'' ''p'' ''w'' 30 None ''start'') empty_repo))"
  by (intro repository_invariant reachable_exec reachable_repo.init)

text \<open>
  In every run of the repository the fencing tokens handed out for one plan, by granted
  leases and by explicit bumps, strictly increase and are above the token the plan was at
  before; no operation ever lowers a token.
\<close>

theorem durable_fencing_tokens_increase:
  assumes "reachable_repo s"
  shows "sorted_wrt (<) (fencing_token_of s k # issued_tokens repo_exec repo_issue k ops s) \<and>
    fencing_token_of s k \<le> fencing_token_of (run_steps repo_exec ops s) k"
  using repo_fence.issued_increase [of s ops k] repo_fence.run_token_mono [of s ops k]
    reachable_inv [OF assms]
  by auto

theorem durable_fencing_tokens_increase_witness:
  "sorted_wrt (<) (fencing_token_of empty_repo (''t'', ''p'') #
     issued_tokens repo_exec repo_issue (''t'', ''p'')
       [AcquireLease 0 ''l1'' ''t'' ''p'' ''a'' 30 None ''start'', RevokeLease ''t'' ''p'',
        AcquireLease 1 ''l2'' ''t'' ''p'' ''b'' 30 None ''failover''] empty_repo) \<and>
   issued_tokens repo_exec repo_issue (''t'', ''p'')
       [AcquireLease 0 ''l1'' ''t'' ''p'' ''a'' 30 None ''start'', RevokeLease ''t'' ''p'',
        AcquireLease 1 ''l2'' ''t'' ''p'' ''b'' 30 None ''failover''] empty_repo = [1, 3]"
  using durable_fencing_tokens_increase [OF reachable_repo.init, of "(''t'', ''p'')"
      "[AcquireLease 0 ''l1'' ''t'' ''p'' ''a'' 30 None ''start'', RevokeLease ''t'' ''p'',
        AcquireLease 1 ''l2'' ''t'' ''p'' ''b'' 30 None ''failover'']"]
  by (simp add: empty_repo_def acquire_lease_def validate_lease_ttl_def lock_defs
      fencing_token_of_def revoke_lease_def)

text \<open>
  A lease is exclusive until it expires. Whatever operations run that do not themselves end
  it (another worker's acquisition, renewal or release, heartbeats, saves with the current
  token), the lease is still stored unchanged afterwards, and an acquisition by another worker
  before the expiry is refused and changes nothing.
\<close>

theorem durable_lease_exclusive:
  assumes "reachable_repo s" and "dr_leases s (t, p) = Some l"
    and "\<forall>op \<in> set ops. \<not> repo_disturbs (t, p) l op"
    and "now < rl_expires_at l" and "w \<noteq> rl_worker_id l"
  shows "dr_leases (run_steps repo_exec ops s) (t, p) = Some l \<and>
    snd (acquire_lease now lid t p w ttl ex r (run_steps repo_exec ops s)) =
      run_steps repo_exec ops s \<and>
    (\<forall>res. fst (acquire_lease now lid t p w ttl ex r (run_steps repo_exec ops s)) = Inr res
       \<longrightarrow> \<not> la_acquired res)"
proof -
  let ?s = "run_steps repo_exec ops s"
  have "dr_leases ?s (t, p) = Some l"
    using assms by (intro lease_kept_run reachable_inv)
  with assms show ?thesis
    by (cases rule: acquire_lease_cases [of now lid t p w ttl ex r ?s])
      (auto simp: lease_is_expired_def)
qed

theorem durable_lease_exclusive_witness:
  "let s = repo_exec (AcquireLease 0 ''l1'' ''t'' ''p'' ''a'' 30 None ''start'') empty_repo;
       ops = [ReleaseLease 5 ''t'' ''p'' ''l1'' ''b'', RegisterWorker 6 ''t'' ''p'' ''b'' 1 None]
   in dr_leases (run_steps repo_exec ops s) (''t'', ''p'') = dr_leases s (''t'', ''p'') \<and>
      dr_leases s (''t'', ''p'') \<noteq> None \<and>
      snd (acquire_lease 10 ''l2'' ''t'' ''p'' ''b'' 30 None ''steal'' (run_steps repo_exec ops s)) =
        run_steps repo_exec ops s"
proof -
  let ?s = "repo_exec (AcquireLease 0 ''l1'' ''t'' ''p'' ''a'' 30 None ''start'') empty_repo"
  let ?l = "new_lease 0 ''l1'' ''t'' ''p'' ''a'' 30 ''start'' 1"
  have l: "dr_leases ?s (''t'', ''p'') = Some ?l"
    by (simp add: empty_repo_def acquire_lease_def validate_lease_ttl_def lock_defs
        fencing_token_of_def new_lease_def)
  have "reachable_repo ?s" by (intro reachable_exec reachable_repo.init)
  from durable_lease_exclusive [OF this l, of "[ReleaseLease 5 ''t'' ''p'' ''l1'' ''b'',
      RegisterWorker 6 ''t'' ''p'' ''b'' 1 None]" 10 "''b''" "''l2''" 30 None "''steal''"] l
  show ?thesis by (simp add: Let_def lease_is_expired_def seconds_def del: repo_exec.simps)
qed

text \<open>
  A coordinator that lost its lease is fenced out for good. Let a worker hold lease \<open>l\<close>; when
  later another lease is granted on the plan, then after any further operations a coordination
  state saved under \<open>l\<close>'s token changes nothing, and the caller gets back the newer stored
  state or a ValueError.
\<close>

theorem fenced_out_coordinator_rejected:
  assumes "reachable_repo s" and "dr_leases s (t, p) = Some l"
    and grant: "acquire_lease now lid t p w ttl ex r (run_steps repo_exec ops s) = (Inr res, s')"
    and new: "la_acquired res" "la_reason res \<noteq> ''already_acquired''"
    and old: "pc_fencing_token st = rl_fencing_token l"
  shows "snd (save_coordination_state t p st (run_steps repo_exec ops' s')) =
      run_steps repo_exec ops' s' \<and>
    fst (save_coordination_state t p st (run_steps repo_exec ops' s')) \<noteq> Inr st"
proof -
  let ?s = "run_steps repo_exec ops s" and ?u = "run_steps repo_exec ops' s'"
  let ?op = "AcquireLease now lid t p w ttl ex r"
  have inv: "repo_inv s" "repo_inv ?s" using assms(1) by (simp_all add: reachable_inv reachable_run)
  have s': "s' = repo_exec ?op ?s" using grant by simp
  then have inv': "repo_inv s'" "repo_inv ?u" using inv
    by (simp_all add: inv_exec repo_fence.run_invar del: repo_exec.simps)
  have "repo_issue ?op ?s (t, p) = Some (la_fencing_token res)" using grant new by simp
  with repo_fence.issue_above [OF inv(2)]
  have "fencing_token_of ?s (t, p) < fencing_token_of s' (t, p)"
    unfolding s' by (meson less_le_trans)
  moreover have "rl_fencing_token l \<le> fencing_token_of ?s (t, p)"
    using inv_lease_token [OF inv(1) assms(2)]
      repo_fence.run_token_mono [OF inv(1), of ops "(t, p)"] by auto
  moreover have "fencing_token_of s' (t, p) \<le> fencing_token_of ?u (t, p)"
    using inv'(1) by (intro repo_fence.run_token_mono) simp_all
  ultimately have "pc_fencing_token st < fencing_token_of ?u (t, p)" using old by simp
  with inv'(2) show ?thesis
    by (cases rule: save_coordination_state_cases [of ?u t p st])
      (auto split: option.split dest: inv_state_token [OF inv'(2)])
qed

theorem fenced_out_coordinator_rejected_witness:
  "let s = repo_exec (AcquireLease 0 ''l1'' ''t'' ''p'' ''a'' 30 None ''start'') empty_repo;
       s' = snd (acquire_lease 40000000 ''l2'' ''t'' ''p'' ''b'' 30 None ''failover'' s);
       st = \<lparr>pc_plan_id = ''p'', pc_tenant_id = ''t'', pc_status = DPS_COMPLETED,
             pc_fencing_token = 1, pc_coordinator_worker_id = ''a'', pc_active_worker_id = ''a'',
             pc_lease_id = Some ''l1'', pc_lock_mode = LM_EXCLUSIVE, pc_started_at = 0,
             pc_completed_at = None, pc_stop_conditions = [], pc_completed_steps = 2,
             pc_total_steps = 2, pc_verification_passed = True, pc_coordination_metadata = []\<rparr>
   in snd (save_coordination_state ''t'' ''p'' st s') = s' \<and>
      fst (save_coordination_state ''t'' ''p'' st s') \<noteq> Inr st"
proof -
  let ?s = "repo_exec (AcquireLease 0 ''l1'' ''t'' ''p'' ''a'' 30 None ''start'') empty_repo"
  let ?l = "new_lease 0 ''l1'' ''t'' ''p'' ''a'' 30 ''start'' 1"
  have l: "dr_leases ?s (''t'', ''p'') = Some ?l"
    by (simp add: empty_repo_def acquire_lease_def validate_lease_ttl_def lock_defs
        fencing_token_of_def new_lease_def)
  have "\<exists>res s'. acquire_lease 40000000 ''l2'' ''t'' ''p'' ''b'' 30 None ''failover'' ?s = (Inr res, s') \<and>
      la_acquired res \<and> la_reason res \<noteq> ''already_acquired''"
    by (simp add: empty_repo_def acquire_lease_def validate_lease_ttl_def lock_defs
        fencing_token_of_def lease_is_expired_def seconds_def)
  then obtain res s' where grant:
    "acquire_lease 40000000 ''l2'' ''t'' ''p'' ''b'' 30 None ''failover'' ?s = (Inr res, s')"
    "la_acquired res" "la_reason res \<noteq> ''already_acquired''" by blast
  have "reachable_repo ?s" by (intro reachable_exec reachable_repo.init)
  note fenced = fenced_out_coordinator_rejected [OF this l, of 40000000 "''l2''" "''b''" 30 None
      "''failover''" "[]" res s' _ "[]", simplified run_steps.simps, OF grant]
  show ?thesis
    unfolding Let_def grant(1) snd_conv by (rule fenced) simp
qed

text \<open>
  Saving a coordination state whose fencing token is at least the plan's current one
  succeeds: the state is returned and is what a later read gives, and its token becomes the
  plan's token. A token above the current one also drops the stored lease; the current token
  leaves the lease in place.
\<close>

theorem coordination_state_accepted:
  assumes "reachable_repo s" and "(pc_tenant_id st, pc_plan_id st) = (t, p)"
    and "fencing_token_of s (t, p) \<le> pc_fencing_token st"
  shows "fst (save_coordination_state t p st s) = Inr st \<and>
    get_coordination_state t p (snd (save_coordination_state t p st s)) = Some st \<and>
    get_fencing_token t p (snd (save_coordination_state t p st s)) = pc_fencing_token st \<and>
    dr_leases (snd (save_coordination_state t p st s)) (t, p) =
      (if fencing_token_of s (t, p) < pc_fencing_token st then None else dr_leases s (t, p))"
proof -
  have inv: "repo_inv s" by (rule reachable_inv [OF assms(1)])
  then show ?thesis
    by (cases rule: save_coordination_state_cases [of s t p st])
      (use assms inv_token_nonneg [OF inv, of "(t, p)"] in
        \<open>auto simp: get_coordination_state_def get_fencing_token_def frame_simps\<close>)
qed

theorem coordination_state_accepted_witness:
  "get_coordination_state ''t'' ''p'' (snd (save_coordination_state ''t'' ''p''
     \<lparr>pc_plan_id = ''p'', pc_tenant_id = ''t'', pc_status = DPS_ACTIVE, pc_fencing_token = 4,
      pc_coordinator_worker_id = ''a'', pc_active_worker_id = ''a'', pc_lease_id = None,
      pc_lock_mode = LM_EXCLUSIVE, pc_started_at = 0, pc_completed_at = None,
      pc_stop_conditions = [], pc_completed_steps = 0, pc_total_steps = 2,
      pc_verification_passed = False, pc_coordination_metadata = []\<rparr> empty_repo)) \<noteq> None"
  using coordination_state_accepted [OF reachable_repo.init, of
     "\<lparr>pc_plan_id = ''p'', pc_tenant_id = ''t'', pc_status = DPS_ACTIVE, pc_fencing_token = 4,
      pc_coordinator_worker_id = ''a'', pc_active_worker_id = ''a'', pc_lease_id = None,
      pc_lock_mode = LM_EXCLUSIVE, pc_started_at = 0, pc_completed_at = None,
      pc_stop_conditions = [], pc_completed_steps = 0, pc_total_steps = 2,
      pc_verification_passed = False, pc_coordination_metadata = []\<rparr>" "''t''" "''p''"]
  by (simp add: empty_repo_def fencing_token_of_def)

text \<open>
  Plans and tenants are isolated: whatever is done for other tenants or other plans, every
  query on this tenant's plan (its lease at any time, its fencing token, coordination state,
  workers and stale workers, latest reconciliation, orphans) answers the same.
\<close>

theorem plans_are_isolated:
  assumes "\<forall>op \<in> set ops. op_scope op \<noteq> (t, p)"
  shows "let s' = run_steps repo_exec ops s in
    get_active_lease now t p s' = get_active_lease now t p s \<and>
    get_fencing_token t p s' = get_fencing_token t p s \<and>
    get_coordination_state t p s' = get_coordination_state t p s \<and>
    get_worker t p w s' = get_worker t p w s \<and>
    list_workers t p s' = list_workers t p s \<and>
    detect_stale_workers clock t p thr at s' = detect_stale_workers clock t p thr at s \<and>
    get_latest_reconciliation t p s' = get_latest_reconciliation t p s \<and>
    list_orphans t p s' = list_orphans t p s"
  by (simp add: queries_of_plan_data stale_workers_of_plan_data plan_data_run [OF assms])

theorem plans_are_isolated_witness:
  "get_active_lease 5 ''t'' ''p'' (run_steps repo_exec
       [AcquireLease 1 ''l2'' ''t'' ''q'' ''b'' 30 None ''x'', RevokeLease ''u'' ''p'']
       (repo_exec (AcquireLease 0 ''l1'' ''t'' ''p'' ''a'' 30 None ''start'') empty_repo)) =
   get_active_lease 5 ''t'' ''p''
       (repo_exec (AcquireLease 0 ''l1'' ''t'' ''p'' ''a'' 30 None ''start'') empty_repo)"
  using plans_are_isolated [of "[AcquireLease 1 ''l2'' ''t'' ''q'' ''b'' 30 None ''x'',
      RevokeLease ''u'' ''p'']" "''t''" "''p''"]
  by (simp add: Let_def del: repo_exec.simps run_steps.simps)

section \<open>Reconciliation and orphan records\<close>

lemma scoped_values:
  assumes "filed key d"
  shows "set (map snd (scoped t p d)) = {v. \<exists>i. map_of d (t, p, i) = Some v}"
proof -
  have "wf_dict d" using assms by (simp add: filed_def)
  then show ?thesis by (force simp: scoped_def in_scope_def dict_mem_iff image_iff)
qed

lemma saved_reconciliation_rank_inj:
  assumes inv: "repo_inv s" and r: "map_of (dr_reconciliations s) (t, p, i) = Some r"
    and r': "map_of (dr_reconciliations s) (t, p, i') = Some r'"
    and rank: "reconciliation_rank s t p r = reconciliation_rank s t p r'"
  shows "r = r'"
proof -
  have "filed reconciliation_key (dr_reconciliations s)" and ord: "order_inv s"
    using inv by (simp_all add: repo_inv_def)
  then have ids: "rr_reconciliation_id r = i" "rr_reconciliation_id r' = i'"
    using filed_get r r' by (force simp: reconciliation_key_def)+
  moreover obtain n n' where "dr_reconciliation_order s (t, p, i) = Some n"
      "dr_reconciliation_order s (t, p, i') = Some n'"
    using ord r r' unfolding order_inv_def by (metis option.distinct(1) option.exhaust)
  ultimately have "(t, p, i) = (t, p, i')"
    using rank ord unfolding order_inv_def reconciliation_rank_def by (metis option.simps(5) prod.inject)
  with r r' show ?thesis by simp
qed

text \<open>
  \<open>get_latest_reconciliation\<close> returns exactly the newest record saved for the plan: the one
  with the latest timestamp, the one saved last among equal timestamps; it returns None only
  when none is saved.
\<close>

theorem latest_reconciliation_exact:
  assumes "reachable_repo s"
  shows "get_latest_reconciliation t p s = Some r \<longleftrightarrow>
    (\<exists>i. map_of (dr_reconciliations s) (t, p, i) = Some r) \<and>
    (\<forall>i r'. map_of (dr_reconciliations s) (t, p, i) = Some r' \<longrightarrow> r' \<noteq> r \<longrightarrow>
       reconciliation_rank s t p r' < reconciliation_rank s t p r)"
proof -
  let ?rs = "map snd (scoped t p (dr_reconciliations s))" and ?rank = "reconciliation_rank s t p"
  have inv: "repo_inv s" by (rule reachable_inv [OF assms])
  then have set_rs: "set ?rs = {r. \<exists>i. map_of (dr_reconciliations s) (t, p, i) = Some r}"
    by (intro scoped_values [of reconciliation_key]) (simp add: repo_inv_def)
  have get: "get_latest_reconciliation t p s = py_max_by ?rank ?rs"
    by (simp add: get_latest_reconciliation_def scoped_select)
  show ?thesis
  proof
    assume "get_latest_reconciliation t p s = Some r"
    then have r: "r \<in> set ?rs" and max: "\<forall>r' \<in> set ?rs. ?rank r' \<le> ?rank r"
      using py_max_by_Some [of ?rank ?rs r] unfolding get by blast+
    from r obtain j where j: "map_of (dr_reconciliations s) (t, p, j) = Some r"
      unfolding set_rs by blast
    have "?rank r' < ?rank r" if r': "map_of (dr_reconciliations s) (t, p, i) = Some r'" "r' \<noteq> r" for i r'
    proof -
      have "?rank r' \<le> ?rank r" using max r' unfolding set_rs by blast
      moreover have "?rank r' \<noteq> ?rank r" using saved_reconciliation_rank_inj [OF inv r'(1) j] r'(2) by blast
      ultimately show ?thesis by (rule le_neq_trans)
    qed
    with j show "(\<exists>i. map_of (dr_reconciliations s) (t, p, i) = Some r) \<and>
      (\<forall>i r'. map_of (dr_reconciliations s) (t, p, i) = Some r' \<longrightarrow> r' \<noteq> r \<longrightarrow> ?rank r' < ?rank r)"
      by blast
  next
    assume "(\<exists>i. map_of (dr_reconciliations s) (t, p, i) = Some r) \<and>
      (\<forall>i r'. map_of (dr_reconciliations s) (t, p, i) = Some r' \<longrightarrow> r' \<noteq> r \<longrightarrow> ?rank r' < ?rank r)"
    with set_rs show "get_latest_reconciliation t p s = Some r"
      unfolding get by (intro py_max_by_unique) auto
  qed
qed

definition sample_reconciliation :: "string \<Rightarrow> datetime \<Rightarrow> reconciliation_record" where
  "sample_reconciliation i at =
     \<lparr>rr_plan_id = ''p'', rr_tenant_id = ''t'', rr_reconciliation_id = i, rr_fencing_token = 1,
      rr_worker_id = ''w'', rr_reconciled_at = at, rr_phase = RP_VERIFY, rr_converged = True,
      rr_divergence_count = 0, rr_details = [], rr_reconciled_states = []\<rparr>"

theorem latest_reconciliation_exact_witness:
  "get_latest_reconciliation ''t'' ''p'' (run_steps repo_exec
     [SaveReconciliation ''t'' ''p'' (sample_reconciliation ''r1'' 9),
      SaveReconciliation ''t'' ''p'' (sample_reconciliation ''r2'' 9)] empty_repo) =
   Some (sample_reconciliation ''r2'' 9)"
  unfolding latest_reconciliation_exact [OF reachable_run [OF reachable_repo.init]]
  by (auto simp: sample_reconciliation_def save_reconciliation_def validate_record_scope_def Let_def
        empty_repo_def reconciliation_rank_def less_prod_def' split: if_splits)

text \<open>
  Saving is idempotent: a second record under an identifier that is already saved is
  dropped, the caller gets the first one back, and the repository does not change.
\<close>

theorem save_reconciliation_idempotent:
  assumes "(rr_tenant_id r, rr_plan_id r) = (t, p)" and "(rr_tenant_id r', rr_plan_id r') = (t, p)"
    and "rr_reconciliation_id r' = rr_reconciliation_id r"
    and "save_reconciliation t p r s = (Inr stored, s')"
  shows "save_reconciliation t p r' s' = (Inr stored, s') \<and>
    map_of (dr_reconciliations s') (t, p, rr_reconciliation_id r) = Some stored"
  using assms
  by (auto simp: save_reconciliation_def validate_record_scope_def Let_def split: option.splits)

theorem save_reconciliation_idempotent_witness:
  "let s' = snd (save_reconciliation ''t'' ''p'' (sample_reconciliation ''r1'' 9) empty_repo)
   in save_reconciliation ''t'' ''p'' (sample_reconciliation ''r1'' 12) s' =
        (Inr (sample_reconciliation ''r1'' 9), s')"
proof -
  let ?r = "sample_reconciliation ''r1''"
  have "save_reconciliation ''t'' ''p'' (?r 9) empty_repo =
      (Inr (?r 9), snd (save_reconciliation ''t'' ''p'' (?r 9) empty_repo))"
    by (simp add: save_reconciliation_def validate_record_scope_def Let_def empty_repo_def
        sample_reconciliation_def)
  from save_reconciliation_idempotent [OF _ _ _ this, of "?r 12"] show ?thesis
    by (simp add: Let_def sample_reconciliation_def)
qed

lemma get_fold_delete:
  "map_of (fold AList.delete ks d) k = (if k \<in> set ks then None else map_of d k)"
  by (induction ks arbitrary: d) auto

lemma clear_orphans_get:
  "map_of (dr_orphans (snd (clear_orphans t p s))) k =
     (if in_scope t p k then None else map_of (dr_orphans s) k)"
  by (auto simp: clear_orphans_def Let_def get_fold_delete) (metis map_of_eq_None_iff)

text \<open>
  \<open>list_orphans\<close> returns the orphans saved for the plan, each once, ordered by detection
  time and identifier; \<open>clear_orphans\<close> removes exactly those, returns their number, and leaves
  every other plan's orphans.
\<close>

theorem orphans_exact:
  assumes "reachable_repo s"
  shows "sorted (map (\<lambda>r. (or_detected_at r, or_orphan_id r)) (list_orphans t p s)) \<and>
    distinct (list_orphans t p s) \<and>
    set (list_orphans t p s) = {r. \<exists>i. map_of (dr_orphans s) (t, p, i) = Some r} \<and>
    fst (clear_orphans t p s) = length (list_orphans t p s) \<and>
    (\<forall>k. map_of (dr_orphans (snd (clear_orphans t p s))) k =
       (if in_scope t p k then None else map_of (dr_orphans s) k))"
proof -
  let ?d = "scoped t p (dr_orphans s)"
  have filed: "filed orphan_key (dr_orphans s)"
    using reachable_inv [OF assms] by (simp add: repo_inv_def)
  then have wf: "wf_dict ?d" by (simp add: scoped_def filed_def wf_dict_filter)
  have key: "fst e = orphan_key (snd e)" if "e \<in> set ?d" for e
    using filed_get [OF filed, of "fst e" "snd e"] that filed
    by (auto simp: scoped_def filed_def simp flip: dict_mem_iff)
  then have "map fst ?d = map orphan_key (map snd ?d)" by simp
  with wf have "distinct (map orphan_key (map snd ?d))" by (simp only: wf_dict_def)
  then have "distinct (map snd ?d)" by (simp only: distinct_map)
  moreover have "set (list_orphans t p s) = set (map snd ?d)"
    by (simp add: list_orphans_def scoped_select)
  ultimately show ?thesis
    using scoped_values [OF filed, of t p]
    by (simp add: list_orphans_def scoped_select clear_orphans_get)
      (simp add: clear_orphans_def Let_def scoped_def filter_map o_def)
qed

theorem orphans_exact_witness:
  "fst (clear_orphans ''t'' ''p'' (repo_exec (SaveOrphan ''t'' ''p''
     \<lparr>or_tenant_id = ''t'', or_plan_id = ''p'', or_orphan_id = ''o1'', or_action_id = ''a'',
      or_detected_at = 3, or_orphan_kind = ''step'', or_details = []\<rparr>) empty_repo)) =
   length (list_orphans ''t'' ''p'' (repo_exec (SaveOrphan ''t'' ''p''
     \<lparr>or_tenant_id = ''t'', or_plan_id = ''p'', or_orphan_id = ''o1'', or_action_id = ''a'',
      or_detected_at = 3, or_orphan_kind = ''step'', or_details = []\<rparr>) empty_repo))"
  using orphans_exact [OF reachable_exec [OF reachable_repo.init]] by blast

section \<open>The worker registry\<close>

text \<open>
  A heartbeat counts only for the worker that may send it: it is refused, and nothing
  changes, when the worker is unknown, when its token is below the worker's recorded one, and
  while another worker's lease or an expired lease is stored for the plan; otherwise the worker is
  recorded active with that heartbeat time and a token that did not decrease.
\<close>

theorem heartbeat_guarded:
  assumes "0 \<le> n"
  shows "let at = (case now of None \<Rightarrow> clock | Some x \<Rightarrow> x) in
    update_heartbeat clock t p w n lid now s =
    (case get_worker t p w s of
       None \<Rightarrow> (Inr None, s)
     | Some v \<Rightarrow>
         if n < wr_fencing_token v \<or>
            (\<exists>l. dr_leases s (t, p) = Some l \<and>
               (lease_is_expired l at \<or> rl_worker_id l \<noteq> w \<or> lid \<notin> {None, Some (rl_lease_id l)}))
         then (Inr None, s)
         else (let v' = v\<lparr>wr_fencing_token := n,
                           wr_lease_id := (if lid = None then wr_lease_id v else lid),
                           wr_last_heartbeat := Some at, wr_state := WS_ACTIVE\<rparr>
               in (Inr (Some v'), set_worker (t, p, w) v' s)))"
  using assms
  by (cases "dr_leases s (t, p)")
    (auto simp: update_heartbeat_def get_worker_def validate_token_def Let_def split: option.split)

theorem heartbeat_guarded_witness:
  "update_heartbeat 7 ''t'' ''p'' ''w'' 2 None None empty_repo = (Inr None, empty_repo)"
  using heartbeat_guarded [where n = 2 and clock = 7 and t = "''t''" and p = "''p''" and w = "''w''"
      and lid = None and now = None and s = empty_repo]
  by (simp add: empty_repo_def get_worker_def)

text \<open>
  A worker whose lease was revoked is not fenced out of the registry: revocation advances
  the plan's token but stores no lease, so the worker's next heartbeat under its old token is
  accepted and records it as active although its token is below the plan's.
\<close>

theorem revoked_worker_still_heartbeats:
  assumes "get_worker t p w s = Some v" and "dr_leases s (t, p) = Some l"
    and "wr_fencing_token v = rl_fencing_token l" and "0 \<le> rl_fencing_token l"
    and "reachable_repo s"
  shows "let s' = snd (revoke_lease t p s)
         in \<exists>v'. fst (update_heartbeat clock t p w (rl_fencing_token l) lid now s') =
                  Inr (Some v') \<and>
                wr_state v' = WS_ACTIVE \<and> wr_fencing_token v' < get_fencing_token t p s'"
  using assms inv_lease_token [OF reachable_inv [OF assms(5)] assms(2)]
  by (auto simp: revoke_lease_def advance_fencing_token_locked_def Let_def update_heartbeat_def
      validate_token_def get_worker_def frame_simps get_fencing_token_def set_worker_def)

theorem revoked_worker_still_heartbeats_witness:
  "let s = run_steps repo_exec [AcquireLease 0 ''l1'' ''t'' ''p'' ''a'' 30 None ''start'',
             RegisterWorker 1 ''t'' ''p'' ''a'' 1 (Some ''l1'')] empty_repo;
       s' = snd (revoke_lease ''t'' ''p'' s)
   in \<exists>v'. fst (update_heartbeat 5 ''t'' ''p'' ''a'' 1 (Some ''l1'') None s') = Inr (Some v') \<and>
        wr_state v' = WS_ACTIVE \<and> wr_fencing_token v' < get_fencing_token ''t'' ''p'' s'"
proof -
  let ?s = "run_steps repo_exec [AcquireLease 0 ''l1'' ''t'' ''p'' ''a'' 30 None ''start'',
             RegisterWorker 1 ''t'' ''p'' ''a'' 1 (Some ''l1'')] empty_repo"
  let ?v = "\<lparr>wr_plan_id = ''p'', wr_tenant_id = ''t'', wr_worker_id = ''a'', wr_state = WS_ACTIVE,
      wr_fencing_token = 1, wr_lease_id = Some ''l1'', wr_acquired_at = Some 1,
      wr_last_heartbeat = Some 1, wr_last_error = None, wr_worker_metadata = []\<rparr>"
  let ?l = "new_lease 0 ''l1'' ''t'' ''p'' ''a'' 30 ''start'' 1"
  have "get_worker ''t'' ''p'' ''a'' ?s = Some ?v" "dr_leases ?s (''t'', ''p'') = Some ?l"
    by (simp_all add: empty_repo_def acquire_lease_def validate_lease_ttl_def lock_defs
        fencing_token_of_def new_lease_def register_worker_def validate_token_def get_worker_def
        set_worker_def)
  from revoked_worker_still_heartbeats
    [OF this _ _ reachable_run [OF reachable_repo.init], of 5 "Some ''l1''" None]
  show ?thesis by (simp add: Let_def del: run_steps.simps)
qed

end
