(* ===== verification/Recovery_Types.thy ===== *)
theory Recovery_Types
  imports Complex_Main Interlock_Prelude
begin

text \<open>
  The data the recovery services share: the enumerations and records of
  \<open>app/domain/entities/surgical_recovery_types.py\<close>, \<open>protected_action.py\<close>,
  \<open>recovery_plan.py\<close>, and the durable step of \<open>causal_state_types.py\<close>, with the string value
  of every enumeration whose values are compared or stored. Shown: enumeration values are
  distinct and \<open>Reversibility.normalize\<close> maps legacy values to canonical ones.
\<close>

section \<open>Enumerations\<close>

datatype reversibility =
  AUTOMATICALLY_REVERSIBLE | CONDITIONALLY_REVERSIBLE | MANUALLY_RECOVERABLE | IRREVERSIBLE
| REV_UNKNOWN | REVERSIBLE | REVERSIBLE_WITH_APPROVAL

fun rev_value :: "reversibility \<Rightarrow> string" where
  "rev_value AUTOMATICALLY_REVERSIBLE = ''automatically_reversible''"
| "rev_value CONDITIONALLY_REVERSIBLE = ''conditionally_reversible''"
| "rev_value MANUALLY_RECOVERABLE = ''manually_recoverable''"
| "rev_value IRREVERSIBLE = ''irreversible''"
| "rev_value REV_UNKNOWN = ''unknown''"
| "rev_value REVERSIBLE = ''reversible''"
| "rev_value REVERSIBLE_WITH_APPROVAL = ''reversible_with_approval''"

definition all_reversibility :: "reversibility list" where
  "all_reversibility =
     [AUTOMATICALLY_REVERSIBLE, CONDITIONALLY_REVERSIBLE, MANUALLY_RECOVERABLE, IRREVERSIBLE,
      REV_UNKNOWN, REVERSIBLE, REVERSIBLE_WITH_APPROVAL]"

text \<open>\<open>Reversibility(value)\<close>: the member with that value, or ValueError.\<close>

definition reversibility_of :: "string \<Rightarrow> py_error + reversibility" where
  "reversibility_of s =
     (case filter (\<lambda>r. rev_value r = s) all_reversibility of
        [] \<Rightarrow> Inl (ValueError s)
      | r # _ \<Rightarrow> Inr r)"

text \<open>\<open>normalize\<close> on a member, and on a plain string.\<close>

definition normalize_rev :: "reversibility \<Rightarrow> reversibility" where
  "normalize_rev v =
     (if v = REVERSIBLE then AUTOMATICALLY_REVERSIBLE
      else if v = REVERSIBLE_WITH_APPROVAL then CONDITIONALLY_REVERSIBLE else v)"

definition normalize_str :: "string \<Rightarrow> py_error + reversibility" where
  "normalize_str s =
     (if s = ''reversible'' then Inr AUTOMATICALLY_REVERSIBLE
      else if s = ''reversible_with_approval'' then Inr CONDITIONALLY_REVERSIBLE
      else reversibility_of s)"

definition is_auto_reversible :: "reversibility \<Rightarrow> bool" where
  "is_auto_reversible v \<longleftrightarrow> normalize_rev v = AUTOMATICALLY_REVERSIBLE"

definition is_conditional :: "reversibility \<Rightarrow> bool" where
  "is_conditional v \<longleftrightarrow> normalize_rev v = CONDITIONALLY_REVERSIBLE"

definition is_manual :: "reversibility \<Rightarrow> bool" where
  "is_manual v \<longleftrightarrow> normalize_rev v = MANUALLY_RECOVERABLE"

definition blocks_automatic_execution :: "reversibility \<Rightarrow> bool" where
  "blocks_automatic_execution v \<longleftrightarrow>
     normalize_rev v \<in> {MANUALLY_RECOVERABLE, IRREVERSIBLE, REV_UNKNOWN}"

text \<open>\<open>blocks_automatic_execution\<close> on a string: it raises what \<open>normalize\<close> raises.\<close>

definition blocks_automatic_execution_str :: "string \<Rightarrow> py_error + bool" where
  "blocks_automatic_execution_str s =
     (case normalize_str s of
        Inl e \<Rightarrow> Inl e
      | Inr n \<Rightarrow> Inr (n \<in> {MANUALLY_RECOVERABLE, IRREVERSIBLE, REV_UNKNOWN}))"

datatype drift_status =
  NO_DRIFT | DRIFT_DETECTED | DR_CONCURRENT_MUTATION | DR_INSUFFICIENT_EVIDENCE
| DR_RESOURCE_MISSING | DR_VERSION_MISMATCH | DR_PRECONDITION_FAILED

fun drift_value :: "drift_status \<Rightarrow> string" where
  "drift_value NO_DRIFT = ''no_drift''"
| "drift_value DRIFT_DETECTED = ''drift_detected''"
| "drift_value DR_CONCURRENT_MUTATION = ''concurrent_mutation''"
| "drift_value DR_INSUFFICIENT_EVIDENCE = ''insufficient_evidence''"
| "drift_value DR_RESOURCE_MISSING = ''resource_missing''"
| "drift_value DR_VERSION_MISMATCH = ''version_mismatch''"
| "drift_value DR_PRECONDITION_FAILED = ''precondition_failed''"

datatype conflict_status =
  NO_CONFLICT | CONFLICT_DETECTED | CF_CONCURRENT_MUTATION | CF_VERSION_MISMATCH
| CF_RESOURCE_MISSING | CF_INSUFFICIENT_EVIDENCE | CF_PRECONDITION_FAILED

fun conflict_value :: "conflict_status \<Rightarrow> string" where
  "conflict_value NO_CONFLICT = ''no_conflict''"
| "conflict_value CONFLICT_DETECTED = ''conflict_detected''"
| "conflict_value CF_CONCURRENT_MUTATION = ''concurrent_mutation''"
| "conflict_value CF_VERSION_MISMATCH = ''version_mismatch''"
| "conflict_value CF_RESOURCE_MISSING = ''resource_missing''"
| "conflict_value CF_INSUFFICIENT_EVIDENCE = ''insufficient_evidence''"
| "conflict_value CF_PRECONDITION_FAILED = ''precondition_failed''"

datatype execution_state =
  ES_PENDING | ES_RUNNING | ES_SUCCEEDED | ES_FAILED | ES_PARTIAL_SUCCESS
| ES_BLOCKED_BY_CONFLICT | ES_BLOCKED_BY_DRIFT | ES_STOPPED | ES_REQUIRES_MANUAL_ACTION
| ES_UNKNOWN_EXTERNAL_OUTCOME

fun es_value :: "execution_state \<Rightarrow> string" where
  "es_value ES_PENDING = ''pending''"
| "es_value ES_RUNNING = ''running''"
| "es_value ES_SUCCEEDED = ''succeeded''"
| "es_value ES_FAILED = ''failed''"
| "es_value ES_PARTIAL_SUCCESS = ''partial_success''"
| "es_value ES_BLOCKED_BY_CONFLICT = ''blocked_by_conflict''"
| "es_value ES_BLOCKED_BY_DRIFT = ''blocked_by_drift''"
| "es_value ES_STOPPED = ''stopped''"
| "es_value ES_REQUIRES_MANUAL_ACTION = ''requires_manual_action''"
| "es_value ES_UNKNOWN_EXTERNAL_OUTCOME = ''unknown_external_outcome''"

datatype stop_condition =
  ON_FIRST_FAILURE | ON_BLOCKING_CONFLICT | ON_BLOCKING_DRIFT | CONTINUE_ON_FAILURE
| REQUIRE_ALL_APPROVED

fun stop_value :: "stop_condition \<Rightarrow> string" where
  "stop_value ON_FIRST_FAILURE = ''on_first_failure''"
| "stop_value ON_BLOCKING_CONFLICT = ''on_blocking_conflict''"
| "stop_value ON_BLOCKING_DRIFT = ''on_blocking_drift''"
| "stop_value CONTINUE_ON_FAILURE = ''continue_on_failure''"
| "stop_value REQUIRE_ALL_APPROVED = ''require_all_approved''"

datatype adapter_type =
  AT_DATABASE_SQL | AT_DATABASE_RECORD | AT_HTTP_REST | AT_EVENT_MESSAGE | AT_CONFIG_ROLLBACK
| AT_FILE_VERSION | AT_ENVIRONMENT | AT_ARCHIVE | AT_DNS_HOSTS | AT_IAM | AT_MOCK | AT_STUB
| AT_UNSUPPORTED

datatype adapter_capability =
  AC_PRODUCTION_VALIDATED | AC_REFERENCE_IMPLEMENTATION | AC_SIMULATION_CAPABLE | AC_MOCK | AC_STUB
| AC_UNSUPPORTED

datatype compensation_type =
  CT_REVERSE_OPERATION | CT_COMPENSATING_EVENT | CT_STATE_TRANSITION | CT_DELETION
| CT_DEACTIVATION | CT_CUSTOM

datatype simulation_limitation = SIMULATION_LIMITED | SIMULATION_COMPLETE | SIMULATION_NOT_AVAILABLE

datatype action_status =
  AS_PENDING | AS_EVALUATING | AS_PERMITTED | AS_DENIED | AS_REQUIRES_APPROVAL | AS_EXECUTED
| AS_FAILED | AS_CONTAINED

datatype verification_status =
  EXECUTED_AND_VERIFIED | EXECUTED_NOT_VERIFIED | EXECUTION_FAILED | VS_UNKNOWN_EXTERNAL_OUTCOME
| MANUAL_VERIFICATION_REQUIRED

datatype recovery_status =
  RS_DRAFT | RS_SIMULATED | RS_PENDING_APPROVAL | RS_APPROVED | RS_EXECUTING | RS_COMPLETED
| RS_FAILED | RS_REJECTED

datatype recovery_outcome =
  SAFE_AUTOMATIC | REQUIRES_HUMAN_APPROVAL | NOT_REVERSIBLE | RO_UNKNOWN

lemma rev_value_inj [simp]: "rev_value a = rev_value b \<longleftrightarrow> a = b"
  by (cases a; cases b) simp_all

lemma es_value_inj [simp]: "es_value a = es_value b \<longleftrightarrow> a = b"
  by (cases a; cases b) simp_all

lemma reversibility_of_value [simp]: "reversibility_of (rev_value r) = Inr r"
  by (cases r) (simp_all add: reversibility_of_def all_reversibility_def)

lemma normalize_str_value [simp]: "normalize_str (rev_value r) = Inr (normalize_rev r)"
  by (cases r) (simp_all add: normalize_str_def normalize_rev_def reversibility_of_def all_reversibility_def)

lemma normalize_idem [simp]: "normalize_rev (normalize_rev r) = normalize_rev r"
  by (simp add: normalize_rev_def)

section \<open>Records\<close>

record protected_action =
  pa_action_id :: string
  pa_tenant_id :: string
  pa_actor_user_id :: "string option"
  pa_agent_id :: string
  pa_authority_grant_id :: "string option"
  pa_tool :: string
  pa_resource :: string
  pa_action_type :: string
  pa_risk_score :: real
  pa_policy_version :: "string option"
  pa_correlation_id :: string
  pa_parent_action_id :: "string option"
  pa_workflow_id :: "string option"
  pa_reversibility :: reversibility
  pa_before_state_ref :: "string option"
  pa_before_state_snapshot :: "pydict option"
  pa_after_state_ref :: "string option"
  pa_tool_arguments :: "(string, string) dict"
  pa_status :: action_status
  pa_decision_reason :: string
  pa_evaluated_at :: "datetime option"
  pa_executed_at :: "datetime option"
  pa_created_at :: datetime

record recovery_evidence =
  re_evidence_id :: string
  re_action_id :: string
  re_tenant_id :: string
  re_agent_id :: string
  re_authority_grant_id :: "string option"
  re_parent_action_id :: "string option"
  re_root_action_id :: "string option"
  re_correlation_id :: string
  re_incident_id :: "string option"
  re_created_at :: datetime
  re_target_system :: string
  re_target_resource :: string
  re_action_type :: string
  re_before_state_reference :: "string option"
  re_after_state_reference :: "string option"
  re_request_payload_reference :: "string option"
  re_response_payload_reference :: "string option"
  re_compensation_payload :: pydict
  re_compensation_type :: compensation_type
  re_recovery_adapter_type :: adapter_type
  re_idempotency_key :: string
  re_dependency_edges :: "string list"
  re_reversibility_classification :: reversibility
  re_state_version :: "string option"
  re_state_hash :: "string option"
  re_resource_version :: "string option"
  re_verification_requirements :: "string list"
  re_recovery_metadata :: pydict
  re_evidence_hash :: string
  re_adapter_capability :: adapter_capability

record drift_result =
  dt_status :: drift_status
  dt_details :: pydict
  dt_current_version :: "string option"
  dt_evidence_version :: "string option"
  dt_current_state :: "pydict option"

record conflict_result =
  cf_status :: conflict_status
  cf_details :: pydict

record rollback_impact =
  ri_action_id :: string
  ri_reversibility :: reversibility
  ri_would_succeed :: bool
  ri_drift_status :: drift_status
  ri_conflict_status :: conflict_status
  ri_compensation_operation :: string
  ri_compensation_payload :: pydict
  ri_external_api_calls :: "pydict list"
  ri_warnings :: "string list"
  ri_simulation_limitation :: "simulation_limitation option"
  ri_expected_after_state :: "pydict option"

record compensation_action =
  ca_action_id :: string
  ca_incident_action_id :: string
  ca_compensation_type :: compensation_type
  ca_compensation_payload :: pydict
  ca_idempotency_key :: string
  ca_target_system :: string
  ca_target_resource :: string
  ca_execution_order :: int
  ca_reversibility :: reversibility
  ca_drift_status :: drift_status
  ca_conflict_status :: conflict_status
  ca_verification_requirements :: "string list"
  ca_dependency_edges :: "string list"
  ca_plan_id :: string
  ca_skip_reason :: "string option"

record compensation_result =
  cr_action_id :: string
  cr_success :: bool
  cr_execution_state :: execution_state
  cr_idempotency_key :: string
  cr_details :: pydict
  cr_external_outcome :: string
  cr_verification_passed :: bool
  cr_verification_details :: pydict
  cr_error :: "string option"

record verification_result =
  vr_action_id :: string
  vr_verified :: bool
  vr_details :: pydict
  vr_drift_status :: drift_status

record durable_execution_step =
  ds_step_id :: string
  ds_plan_id :: string
  ds_action_id :: string
  ds_execution_order :: int
  ds_tenant_id :: string
  ds_execution_state :: string
  ds_created_at :: datetime
  ds_idempotency_key :: string
  ds_target_system :: string
  ds_target_resource :: string
  ds_compensation_payload :: pydict
  ds_started_at :: "datetime option"
  ds_completed_at :: "datetime option"
  ds_error :: "string option"
  ds_verification_passed :: bool
  ds_retry_count :: int
  ds_max_retries :: int
  ds_step_metadata :: pydict
  ds_write_fence :: int

record recovery_plan =
  rp_plan_id :: string
  rp_tenant_id :: string
  rp_incident_action_id :: string
  rp_status :: recovery_status
  rp_outcome :: recovery_outcome
  rp_simulation_result :: pydict
  rp_steps :: "(string, string) dict list"
  rp_approved_by :: "string option"
  rp_executed_by :: "string option"
  rp_created_at :: datetime
  rp_updated_at :: datetime
  rp_executed_at :: "datetime option"
  rp_plan_version :: string
  rp_plan_hash :: string
  rp_topological_order :: "string list"
  rp_dependency_graph_reference :: string
  rp_execution_status :: string
  rp_approval_policy :: string
  rp_approval_threshold :: int
  rp_stop_conditions :: "string list"
  rp_compensation_summary :: pydict
  rp_incident_id :: string
  rp_root_action_id :: string
  rp_affected_action_ids :: "string list"

end
