(* ===== verification/Step_Store.thy ===== *)
theory Step_Store
  imports Recovery_Types Fencing
begin

text \<open>
  The durable step store: \<open>enforce_write_fence\<close> of
  \<open>app/domain/repositories/causal_state_repositories.py\<close> and
  \<open>SQLAlchemyDurableExecutionRepository\<close> of
  \<open>app/infrastructure/persistence/repositories/sqlalchemy_causal_state_repositories.py\<close>.
  The table \<open>durable_execution_steps\<close> has a unique \<open>step_id\<close>; a row has the fields of the
  entity, the JSON columns holding the values they encode. Shown: the conditional UPDATE accepts
  a write exactly when \<open>enforce_write_fence\<close> does, a rejected write changes nothing, the fence of
  a step never goes back, and what is saved is what is read.
\<close>

type_synonym step_table = "durable_execution_step list"

section \<open>Operations\<close>

text \<open>\<open>Some e\<close> is the exception raised.\<close>

definition enforce_write_fence :: "int \<Rightarrow> int option \<Rightarrow> string \<Rightarrow> py_error option" where
  "enforce_write_fence stored_write_fence expected_fencing_token step_id =
     (case expected_fencing_token of
        None \<Rightarrow> None
      | Some n \<Rightarrow>
          if stored_write_fence > n then Some (StaleFencingTokenError step_id) else None)"

definition find_step ::
  "string \<Rightarrow> string \<Rightarrow> step_table \<Rightarrow> py_error + durable_execution_step option" where
  "find_step tenant_id step_id rows =
     scalar_one_or_none
       (sql_select (\<lambda>r. ds_step_id r = step_id \<and> ds_tenant_id r = tenant_id) rows)"

definition get_by_step_id ::
  "string \<Rightarrow> string \<Rightarrow> step_table \<Rightarrow> py_error + durable_execution_step option" where
  "get_by_step_id tenant_id step_id rows = find_step tenant_id step_id rows"

text \<open>Rows with equal \<open>execution_order\<close> are returned in table order.\<close>

definition list_by_plan ::
  "string \<Rightarrow> string \<Rightarrow> nat \<Rightarrow> nat \<Rightarrow> step_table \<Rightarrow> durable_execution_step list \<times> nat" where
  "list_by_plan tenant_id plan_id limit offset rows =
     (let results = take limit (drop offset (sort_key ds_execution_order
            (sql_select (\<lambda>r. ds_plan_id r = plan_id \<and> ds_tenant_id r = tenant_id) rows)))
      in (results, length results))"

definition new_model :: "durable_execution_step \<Rightarrow> int \<Rightarrow> durable_execution_step" where
  "new_model step write_fence = step\<lparr>ds_write_fence := write_fence\<rparr>"

text \<open>
  The columns an update of an existing row sets: all but \<open>step_id\<close>, \<open>tenant_id\<close>, \<open>created_at\<close>
  and, on the unfenced path, \<open>write_fence\<close>.
\<close>

definition overwrite_row ::
  "durable_execution_step \<Rightarrow> int \<Rightarrow> durable_execution_step \<Rightarrow> durable_execution_step" where
  "overwrite_row step fence r =
     step\<lparr>ds_step_id := ds_step_id r, ds_tenant_id := ds_tenant_id r,
          ds_created_at := ds_created_at r, ds_write_fence := fence\<rparr>"

definition insert_step ::
  "durable_execution_step \<Rightarrow> durable_execution_step \<Rightarrow> step_table
     \<Rightarrow> (py_error + durable_execution_step) \<times> step_table" where
  "insert_step step model rows =
     (case sql_insert ds_step_id model rows of
        None \<Rightarrow> (Inl IntegrityError, rows)
      | Some rows' \<Rightarrow> (Inr step, rows'))"

definition save_step ::
  "durable_execution_step \<Rightarrow> int option \<Rightarrow> step_table
     \<Rightarrow> (py_error + durable_execution_step) \<times> step_table" where
  "save_step step expected_fencing_token rows =
     (case find_step (ds_tenant_id step) (ds_step_id step) rows of
        Inl e \<Rightarrow> (Inl e, rows)
      | Inr result \<Rightarrow>
          (case expected_fencing_token of
             None \<Rightarrow>
               (case result of
                  Some _ \<Rightarrow>
                    (Inr step,
                     sql_update (\<lambda>r. ds_step_id r = ds_step_id step \<and>
                                     ds_tenant_id r = ds_tenant_id step)
                       (\<lambda>r. overwrite_row step (ds_write_fence r) r) rows)
                | None \<Rightarrow> insert_step step (new_model step 0) rows)
           | Some n \<Rightarrow>
               (case result of
                  None \<Rightarrow> insert_step step (new_model step n) rows
                | Some _ \<Rightarrow>
                    (let cond = (\<lambda>r. ds_step_id r = ds_step_id step \<and>
                                     (ds_tenant_id r = ds_tenant_id step \<and> ds_write_fence r \<le> n));
                         rowcount = length (filter cond rows)
                     in if rowcount = 0
                        then (Inl (StaleFencingTokenError (ds_step_id step)), rows)
                        else (Inr step, sql_update cond (overwrite_row step n) rows)))))"

section \<open>What a save does\<close>

abbreviation step_rows :: "step_table \<Rightarrow> string \<rightharpoonup> durable_execution_step" where
  "step_rows \<equiv> tab ds_step_id"

lemma overwrite_row_sel [simp]:
  "ds_step_id (overwrite_row step n r) = ds_step_id r"
  "ds_tenant_id (overwrite_row step n r) = ds_tenant_id r"
  "ds_write_fence (overwrite_row step n r) = n"
  "ds_execution_state (overwrite_row step n r) = ds_execution_state step"
  "ds_verification_passed (overwrite_row step n r) = ds_verification_passed step"
  by (simp_all add: overwrite_row_def)

lemma new_model_sel [simp]:
  "ds_step_id (new_model step n) = ds_step_id step"
  "ds_tenant_id (new_model step n) = ds_tenant_id step"
  "ds_write_fence (new_model step n) = n"
  by (simp_all add: new_model_def)

lemma find_step_pk:
  "pk ds_step_id rows \<Longrightarrow>
   find_step t i rows =
     Inr (case step_rows rows i of None \<Rightarrow> None | Some r \<Rightarrow> if ds_tenant_id r = t then Some r else None)"
  by (simp add: find_step_def sql_select_def filter_pk split: option.split)

text \<open>
  The outcomes of \<open>save_step\<close> on a table whose \<open>step_id\<close>s are unique, exhaustively: a new row,
  an unfenced or fenced overwrite, a write rejected by the fence, or a clash with a row of
  another tenant.
\<close>

lemma save_step_cases:
  assumes "pk ds_step_id rows"
  obtains (inserted) n where "step_rows rows (ds_step_id st) = None"
      "n = (case ex of None \<Rightarrow> 0 | Some m \<Rightarrow> m)"
      "save_step st ex rows = (Inr st, rows @ [new_model st n])"
      "step_rows (rows @ [new_model st n]) = (step_rows rows)(ds_step_id st \<mapsto> new_model st n)"
      "pk ds_step_id (rows @ [new_model st n])"
  | (written) r n rows' where "step_rows rows (ds_step_id st) = Some r"
      "ds_tenant_id r = ds_tenant_id st"
      "n = (case ex of None \<Rightarrow> ds_write_fence r | Some m \<Rightarrow> m)" "ds_write_fence r \<le> n"
      "save_step st ex rows = (Inr st, rows')"
      "step_rows rows' = (step_rows rows)(ds_step_id st \<mapsto> overwrite_row st n r)"
      "pk ds_step_id rows'"
  | (fenced) r n where "step_rows rows (ds_step_id st) = Some r" "ds_tenant_id r = ds_tenant_id st"
      "ex = Some n" "n < ds_write_fence r"
      "save_step st ex rows = (Inl (StaleFencingTokenError (ds_step_id st)), rows)"
  | (clash) r where "step_rows rows (ds_step_id st) = Some r" "ds_tenant_id r \<noteq> ds_tenant_id st"
      "save_step st ex rows = (Inl IntegrityError, rows)"
proof (cases "step_rows rows (ds_step_id st)")
  case None
  with assms show ?thesis
    by (intro inserted [OF None refl])
      (auto simp: save_step_def find_step_pk insert_step_def tab_insert tab_snoc pk_snoc
        split: option.split)
next
  case (Some r)
  show ?thesis
  proof (cases "ds_tenant_id r = ds_tenant_id st")
    case False
    with clash [OF Some] assms Some show ?thesis
      by (auto simp: save_step_def find_step_pk insert_step_def tab_insert split: option.splits)
  next
    case own: True
    show ?thesis
    proof (cases ex)
      case None
      with written [OF Some own] assms Some own show ?thesis
        by (auto simp: save_step_def find_step_pk tab_update pk_update)
    next
      case ex: (Some n)
      show ?thesis
      proof (cases "ds_write_fence r \<le> n")
        case True
        with written [OF Some own] assms Some own ex show ?thesis
          by (auto simp: save_step_def find_step_pk tab_update pk_update Let_def filter_pk)
      next
        case False
        with fenced [OF Some own ex] assms Some own ex show ?thesis
          by (simp add: save_step_def find_step_pk Let_def filter_pk)
      qed
    qed
  qed
qed

section \<open>Sequences of writes\<close>

datatype step_event = SaveStep durable_execution_step "int option"

fun step_exec :: "step_event \<Rightarrow> step_table \<Rightarrow> step_table" where
  "step_exec (SaveStep st ex) rows = snd (save_step st ex rows)"

fun token_nonneg :: "step_event \<Rightarrow> bool" where
  "token_nonneg (SaveStep st ex) = (case ex of None \<Rightarrow> True | Some n \<Rightarrow> 0 \<le> n)"

definition fence_of :: "step_table \<Rightarrow> string \<Rightarrow> int" where
  "fence_of rows i = (case step_rows rows i of None \<Rightarrow> 0 | Some r \<Rightarrow> ds_write_fence r)"

lemma fence_of_simps [simp]:
  "step_rows rows i = None \<Longrightarrow> fence_of rows i = 0"
  "step_rows rows i = Some r \<Longrightarrow> fence_of rows i = ds_write_fence r"
  by (simp_all add: fence_of_def)

lemma fence_of_written:
  "step_rows rows' = (step_rows rows)(j \<mapsto> r) \<Longrightarrow>
   fence_of rows' i = (if i = j then ds_write_fence r else fence_of rows i)"
  by (simp add: fence_of_def)

lemma save_step_pk: "pk ds_step_id rows \<Longrightarrow> pk ds_step_id (snd (save_step st ex rows))"
  by (cases rule: save_step_cases [of rows st ex]) simp_all

lemma save_step_fence_mono:
  assumes "pk ds_step_id rows" and "\<And>n. ex = Some n \<Longrightarrow> 0 \<le> n"
  shows "fence_of rows i \<le> fence_of (snd (save_step st ex rows)) i"
  using assms(1)
proof (cases rule: save_step_cases [of rows st ex])
  case (inserted n)
  with assms(2) fence_of_written [OF inserted(4)] show ?thesis by (auto split: option.splits)
next
  case (written r n rows')
  with fence_of_written [OF written(6)] show ?thesis by simp
qed simp_all

text \<open>The store never issues tokens; it only checks the ones the lease stores issued.\<close>

interpretation step_fence:
  fencing_authority step_exec "\<lambda>_ _ _. None" fence_of "pk ds_step_id" token_nonneg
proof unfold_locales
  fix s :: step_table and e k
  assume "pk ds_step_id s" "token_nonneg e"
  then show "fence_of s k \<le> fence_of (step_exec e s) k"
    by (cases e) (auto intro: save_step_fence_mono)
next
  fix s :: step_table and e
  assume "pk ds_step_id s" "token_nonneg e"
  then show "pk ds_step_id (step_exec e s)" by (cases e) (simp add: save_step_pk)
qed simp

section \<open>Properties\<close>

text \<open>
  The conditional UPDATE of the SQL store implements the fencing rule of
  \<open>enforce_write_fence\<close>: on a step of the writer's tenant, a save is rejected with
  StaleFencingTokenError exactly when the rule raises, and then the table is unchanged; otherwise
  the save succeeds, the stored row has the step's columns, keeps its creation time, and its
  fence is the writer's token, or the old fence when no token was given.
\<close>

theorem save_implements_write_fence:
  assumes "pk ds_step_id rows" and "step_rows rows (ds_step_id st) = Some r"
    and "ds_tenant_id r = ds_tenant_id st"
  shows "case enforce_write_fence (ds_write_fence r) ex (ds_step_id st) of
      Some e \<Rightarrow> save_step st ex rows = (Inl e, rows)
    | None \<Rightarrow>
        fst (save_step st ex rows) = Inr st \<and>
        step_rows (snd (save_step st ex rows)) = (step_rows rows)(ds_step_id st \<mapsto>
          st\<lparr>ds_created_at := ds_created_at r,
             ds_write_fence := (case ex of None \<Rightarrow> ds_write_fence r | Some n \<Rightarrow> n)\<rparr>)"
proof -
  have "ds_step_id r = ds_step_id st" using tab_SomeD [OF assms(2)] by simp
  then have same: "overwrite_row st n r = st\<lparr>ds_created_at := ds_created_at r, ds_write_fence := n\<rparr>" for n
    using assms(3) by (simp add: overwrite_row_def)
  from assms(1) show ?thesis
    by (cases rule: save_step_cases [of rows st ex])
      (use assms same in \<open>auto simp: enforce_write_fence_def split: option.splits\<close>)
qed

definition sample_step :: "string \<Rightarrow> string \<Rightarrow> int \<Rightarrow> durable_execution_step" where
  "sample_step i state fence =
     \<lparr>ds_step_id = i, ds_plan_id = ''p'', ds_action_id = ''a'', ds_execution_order = 0,
      ds_tenant_id = ''t'', ds_execution_state = state, ds_created_at = 0,
      ds_idempotency_key = ''k'', ds_target_system = ''db'', ds_target_resource = ''r'',
      ds_compensation_payload = [], ds_started_at = None, ds_completed_at = None, ds_error = None,
      ds_verification_passed = False, ds_retry_count = 0, ds_max_retries = 3,
      ds_step_metadata = [], ds_write_fence = fence\<rparr>"

theorem save_implements_write_fence_witness:
  "save_step (sample_step ''s1'' ''succeeded'' 0) (Some 2) [sample_step ''s1'' ''running'' 5] =
     (Inl (StaleFencingTokenError ''s1''), [sample_step ''s1'' ''running'' 5]) \<and>
   fst (save_step (sample_step ''s1'' ''succeeded'' 0) (Some 7) [sample_step ''s1'' ''running'' 5]) =
     Inr (sample_step ''s1'' ''succeeded'' 0)"
  using save_implements_write_fence [of "[sample_step ''s1'' ''running'' 5]"
      "sample_step ''s1'' ''succeeded'' 0" "sample_step ''s1'' ''running'' 5" "Some 2"]
    save_implements_write_fence [of "[sample_step ''s1'' ''running'' 5]"
      "sample_step ''s1'' ''succeeded'' 0" "sample_step ''s1'' ''running'' 5" "Some 7"]
  by (simp add: enforce_write_fence_def sample_step_def pk_def)

text \<open>A stored step keeps its tenant.\<close>

lemma save_step_keeps_row:
  assumes "pk ds_step_id rows" and "step_rows rows i = Some r"
  shows "\<exists>r'. step_rows (snd (save_step st ex rows)) i = Some r' \<and> ds_tenant_id r' = ds_tenant_id r"
  using assms(1)
  by (cases rule: save_step_cases [of rows st ex]) (use assms(2) in auto)

lemma run_keeps_row:
  assumes "pk ds_step_id rows" and "step_rows rows i = Some r"
  shows "\<exists>r'. step_rows (run_steps step_exec es rows) i = Some r' \<and> ds_tenant_id r' = ds_tenant_id r"
  using assms
proof (induction es arbitrary: rows r)
  case Nil
  then show ?case by simp
next
  case (Cons e es)
  obtain st ex where e: "e = SaveStep st ex" by (cases e)
  from save_step_keeps_row [OF Cons.prems, of st ex] Cons.IH [OF save_step_pk [OF Cons.prems(1), of st ex]]
  show ?case by (auto simp: e)
qed

lemma saved_fence:
  assumes "pk ds_step_id rows" and "save_step st (Some m) rows = (Inr st, rows')"
  shows "fence_of rows' (ds_step_id st) = m"
    and "\<exists>r. step_rows rows' (ds_step_id st) = Some r \<and> ds_tenant_id r = ds_tenant_id st"
  using assms(1)
  by (cases rule: save_step_cases [of rows st "Some m"]; use assms(2) in \<open>auto simp: fence_of_def\<close>)+

text \<open>
  C14. A stale writer can never overwrite newer state: once a save under token \<open>m\<close> went through,
  then after any further saves (fenced ones with the nonnegative tokens the lease stores issue,
  or unfenced ones) a save of the same step under a token below \<open>m\<close> raises
  StaleFencingTokenError and the table stays as it is.
\<close>

theorem stale_writer_never_overwrites:
  assumes "pk ds_step_id rows"
    and "save_step st (Some m) rows = (Inr st, rows')"
    and "\<forall>e \<in> set es. token_nonneg e"
    and "ds_step_id st' = ds_step_id st" and "ds_tenant_id st' = ds_tenant_id st" and "n < m"
  shows "save_step st' (Some n) (run_steps step_exec es rows') =
    (Inl (StaleFencingTokenError (ds_step_id st)), run_steps step_exec es rows')"
proof -
  let ?u = "run_steps step_exec es rows'" and ?i = "ds_step_id st"
  have pk': "pk ds_step_id rows'" using save_step_pk [OF assms(1), of st "Some m"] assms(2) by simp
  then have pku: "pk ds_step_id ?u" using assms(3) by (rule step_fence.run_invar)
  from saved_fence [OF assms(1,2)] step_fence.run_token_mono [OF pk' assms(3), of ?i]
  have "m \<le> fence_of ?u ?i" by simp
  moreover obtain r where r: "step_rows ?u ?i = Some r" "ds_tenant_id r = ds_tenant_id st"
    using saved_fence(2) [OF assms(1,2)] run_keeps_row [OF pk', of ?i _ es] by force
  ultimately have "n < ds_write_fence r" using assms(6) by simp
  with pku r assms(4,5) show ?thesis
    by (cases rule: save_step_cases [of ?u st' "Some n"]) auto
qed

theorem stale_writer_never_overwrites_witness:
  "let rows = snd (save_step (sample_step ''s1'' ''succeeded'' 0) (Some 4) []);
       rows' = step_exec (SaveStep (sample_step ''s2'' ''failed'' 0) (Some 9)) rows
   in save_step (sample_step ''s1'' ''failed'' 0) (Some 3) rows' =
        (Inl (StaleFencingTokenError ''s1''), rows')"
  using stale_writer_never_overwrites [of "[]" "sample_step ''s1'' ''succeeded'' 0" 4
      "snd (save_step (sample_step ''s1'' ''succeeded'' 0) (Some 4) [])"
      "[SaveStep (sample_step ''s2'' ''failed'' 0) (Some 9)]" "sample_step ''s1'' ''failed'' 0" 3]
  by (simp add: save_step_def find_step_def sql_select_def insert_step_def sql_insert_def Let_def
      sample_step_def)

text \<open>
  A plan's steps come back in execution order: \<open>list_by_plan\<close> returns rows of that tenant
  and plan only, sorted by \<open>execution_order\<close>, without repetition, and when the plan has at most
  \<open>limit\<close> of them, all of them; the count it reports is the number of rows it returns.
\<close>

theorem list_by_plan_ordered:
  assumes "pk ds_step_id rows"
  shows "let (res, n) = list_by_plan t p limit offset rows;
             own = {r \<in> set rows. ds_plan_id r = p \<and> ds_tenant_id r = t}
         in sorted (map ds_execution_order res) \<and> distinct res \<and> set res \<subseteq> own \<and> n = length res \<and>
            (offset = 0 \<longrightarrow> card own \<le> limit \<longrightarrow> set res = own)"
proof -
  let ?own = "filter (\<lambda>r. ds_plan_id r = p \<and> ds_tenant_id r = t) rows"
  let ?sorted = "sort_key ds_execution_order ?own"
  have dist: "distinct ?own" using assms by (simp add: pk_def distinct_map)
  then have len: "card {r \<in> set rows. ds_plan_id r = p \<and> ds_tenant_id r = t} = length ?sorted"
    using distinct_card [of ?own] by simp
  have "sorted (map ds_execution_order (take limit (drop offset ?sorted)))"
    by (simp only: take_map [symmetric] drop_map [symmetric] sorted_wrt_take sorted_wrt_drop sorted_sort_key)
  moreover have "set (take limit (drop offset ?sorted)) \<subseteq> set ?own"
    using set_take_subset set_drop_subset by (metis (no_types, lifting) order_trans set_sort)
  ultimately show ?thesis
    using dist len by (auto simp: list_by_plan_def sql_select_def Let_def)
qed

theorem list_by_plan_ordered_witness:
  "sorted (map ds_execution_order (fst (list_by_plan ''t'' ''p'' 500 0
     [(sample_step ''s1'' ''pending'' 0)\<lparr>ds_execution_order := 2\<rparr>, sample_step ''s2'' ''pending'' 0])))"
  using list_by_plan_ordered [of "[(sample_step ''s1'' ''pending'' 0)\<lparr>ds_execution_order := 2\<rparr>,
      sample_step ''s2'' ''pending'' 0]" "''t''" "''p''" 500 0]
  by (simp add: Let_def split_beta pk_def sample_step_def)

end
