(* ===== verification/Effects.thy ===== *)
theory Effects
  imports Interlock_Prelude
begin

text \<open>
  Coroutines as functions on a state: a coroutine raises an exception or returns a value, and
  leaves a state either way. The combinators are Python's sequencing and \<open>try .. except\<close>; the
  lemmas turn a run of a composed coroutine into runs of its parts.
\<close>

type_synonym ('s, 'a) eff = "'s \<Rightarrow> (py_error + 'a) \<times> 's"

definition eret :: "'a \<Rightarrow> ('s, 'a) eff" where
  "eret x s = (Inr x, s)"

definition eraise :: "py_error \<Rightarrow> ('s, 'a) eff" where
  "eraise e s = (Inl e, s)"

definition ebind :: "('s, 'a) eff \<Rightarrow> ('a \<Rightarrow> ('s, 'b) eff) \<Rightarrow> ('s, 'b) eff" where
  "ebind m k s = (case m s of (Inl e, s') \<Rightarrow> (Inl e, s') | (Inr x, s') \<Rightarrow> k x s')"

text \<open>\<open>try: m except Exception as e: h e\<close>\<close>

definition ecatch :: "('s, 'a) eff \<Rightarrow> (py_error \<Rightarrow> ('s, 'a) eff) \<Rightarrow> ('s, 'a) eff" where
  "ecatch m h s = (case m s of (Inl e, s') \<Rightarrow> h e s' | (Inr x, s') \<Rightarrow> (Inr x, s'))"

lemma eret_simps [simp]: "eret x s = (Inr x, s)" "eraise e s = (Inl e, s)"
  by (simp_all add: eret_def eraise_def)

lemma ebind_Inr:
  "ebind m k s = (Inr x, s') \<longleftrightarrow> (\<exists>y s1. m s = (Inr y, s1) \<and> k y s1 = (Inr x, s'))"
  by (auto simp: ebind_def split: prod.splits sum.splits)

lemma ebind_Inl:
  "ebind m k s = (Inl e, s') \<longleftrightarrow>
     m s = (Inl e, s') \<or> (\<exists>y s1. m s = (Inr y, s1) \<and> k y s1 = (Inl e, s'))"
  by (auto simp: ebind_def split: prod.splits sum.splits)

lemma ecatch_Inr:
  "ecatch m h s = (Inr x, s') \<longleftrightarrow>
     m s = (Inr x, s') \<or> (\<exists>e s1. m s = (Inl e, s1) \<and> h e s1 = (Inr x, s'))"
  by (auto simp: ecatch_def split: prod.splits sum.splits)

lemmas eff_iff = ebind_Inr ebind_Inl ecatch_Inr

end
