(* ===== verification/Orchestrator.thy ===== *)
theory Orchestrator
  imports Plan_Lease Step_Store Effects
begin

text \<open>
  \<open>DistributedRecoveryOrchestrator\<close> of
  \<open>app/domain/services/distributed_recovery_orchestrator.py\<close>: creating, executing and resuming a
  durable recovery plan under a plan lease, with fenced step writes.

  The state of the system is the plan leases, the step table, the captured evidence, the clock
  and the outside world the adapters act on. An adapter method is a function from the whole
  system to its result (or the exception it raises) and the system after it: while the
  coroutine awaits the adapter, other instances may run, so nothing is assumed about what the
  system looks like afterwards. Between two steps the hook \<open>orc_env\<close> stands for what time and
  the other instances do. The result dictionaries are records.
\<close>

section \<open>State, effects and adapters\<close>

record 'w sys =
  sys_now :: datetime
  sys_leases :: lease_map
  sys_steps :: step_table
  sys_evidence :: "(string \<times> string) \<rightharpoonup> recovery_evidence"
  sys_world :: 'w

text \<open>
  An adapter; an absent method (\<open>hasattr\<close>, \<open>getattr(.., None)\<close>) is \<open>False\<close> or \<open>None\<close>.
\<close>

record 'w adapter =
  ad_name :: string
  ad_captures_evidence :: bool
  ad_can_recover :: "(protected_action \<Rightarrow> ('w sys, string) eff) option"
  ad_detect_drift :: "protected_action \<Rightarrow> recovery_evidence \<Rightarrow> ('w sys, drift_result) eff"
  ad_check_conflicts :: "protected_action \<Rightarrow> recovery_evidence \<Rightarrow> ('w sys, conflict_result) eff"
  ad_generate_compensation ::
    "protected_action \<Rightarrow> recovery_evidence \<Rightarrow> ('w sys, compensation_action) eff"
  ad_execute_compensation :: "compensation_action \<Rightarrow> string \<Rightarrow> ('w sys, compensation_result) eff"
  ad_verify :: "(compensation_action \<Rightarrow> ('w sys, verification_result) eff) option"

record 'w orchestrator =
  orc_instance_id :: string
  orc_adapters :: "'w adapter list"
  orc_lease_ttl :: timedelta
  orc_env :: "'w sys \<Rightarrow> 'w sys"

section \<open>Results\<close>

record step_result =
  sr_action_id :: string
  sr_execution_state :: string
  sr_success :: bool
  sr_lease_lost :: bool
  sr_persistence :: "string option"
  sr_verification_passed :: "bool option"
  sr_idempotency_key :: "string option"
  sr_error :: "string option"

datatype step_report = AlreadyCompleted string bool | StepReport step_result

record execute_report =
  er_status :: string
  er_stop_reason :: string
  er_total_steps :: nat
  er_completed :: nat
  er_failed :: nat
  er_blocked :: nat
  er_manual_required :: nat
  er_execution_results :: "(string, step_report) dict"
  er_verification_status :: verification_status

record resume_report =
  rs_status :: string
  rs_stop_reason :: string
  rs_total_steps :: nat
  rs_completed :: nat
  rs_failed :: nat
  rs_verification_results :: "(string, string) dict"
  rs_execution_results :: "(string, step_report) dict"
  rs_resumed_at :: datetime

text \<open>The answer to an API call: \<open>already_running\<close>, \<open>no_steps\<close>, or a report.\<close>

datatype 'r plan_answer = AlreadyRunning | NoSteps | Reported 'r

text \<open>With the \<open>fencing_token\<close> key, which \<open>already_running\<close> does not have.\<close>

type_synonym 'r plan_result = "'r plan_answer \<times> int option"

section \<open>Creating a durable plan\<close>

text \<open>
  \<open>order_map\<close>: the last index at which an action occurs; 0 for an action that does not occur.
\<close>

definition order_of :: "string list \<Rightarrow> string \<Rightarrow> int" where
  "order_of topological_order aid =
     (case map_of (rev (zip topological_order [0..<length topological_order])) aid of
        None \<Rightarrow> 0 | Some i \<Rightarrow> int i)"

definition new_step ::
  "datetime \<Rightarrow> string \<Rightarrow> string \<Rightarrow> string list \<Rightarrow> string \<Rightarrow> protected_action
     \<Rightarrow> recovery_evidence option \<Rightarrow> durable_execution_step" where
  "new_step now tenant_id plan_id topological_order step_id action evidence =
     \<lparr>ds_step_id = step_id, ds_plan_id = plan_id, ds_action_id = pa_action_id action,
      ds_execution_order = order_of topological_order (pa_action_id action),
      ds_tenant_id = tenant_id, ds_execution_state = es_value ES_PENDING, ds_created_at = now,
      ds_idempotency_key =
        (case evidence of Some ev \<Rightarrow> re_idempotency_key ev
         | None \<Rightarrow> ''idem-'' @ pa_action_id action),
      ds_target_system = (case evidence of Some ev \<Rightarrow> re_target_system ev | None \<Rightarrow> []),
      ds_target_resource =
        (case evidence of Some ev \<Rightarrow> re_target_resource ev | None \<Rightarrow> pa_resource action),
      ds_compensation_payload =
        (case evidence of Some ev \<Rightarrow> re_compensation_payload ev | None \<Rightarrow> []),
      ds_started_at = None, ds_completed_at = None, ds_error = None,
      ds_verification_passed = False, ds_retry_count = 0, ds_max_retries = 3,
      ds_step_metadata = [], ds_write_fence = 0\<rparr>"

text \<open>The saves, in order; \<open>ids\<close> are the values of \<open>secrets.token_hex(12)\<close>, prefixed.\<close>

fun create_steps ::
  "string \<Rightarrow> string \<Rightarrow> string list \<Rightarrow> (protected_action \<times> string) list
     \<Rightarrow> ('w sys, durable_execution_step list) eff" where
  "create_steps tenant_id plan_id topo [] s = (Inr [], s)"
| "create_steps tenant_id plan_id topo ((action, step_id) # rest) s =
     (let step = new_step (sys_now s) tenant_id plan_id topo step_id action
                   (sys_evidence s (tenant_id, pa_action_id action));
          (saved, rows) = save_step step None (sys_steps s);
          s1 = s\<lparr>sys_steps := rows\<rparr>
      in case saved of
           Inl e \<Rightarrow> (Inl e, s1)
         | Inr saved_step \<Rightarrow>
             (case create_steps tenant_id plan_id topo rest s1 of
                (Inl e, s2) \<Rightarrow> (Inl e, s2)
              | (Inr steps, s2) \<Rightarrow> (Inr (saved_step # steps), s2)))"

definition create_durable_plan ::
  "string list \<Rightarrow> string \<Rightarrow> string \<Rightarrow> protected_action list \<Rightarrow> string list
     \<Rightarrow> ('w sys, durable_execution_step list) eff" where
  "create_durable_plan ids tenant_id plan_id actions topological_order =
     create_steps tenant_id plan_id topological_order
       (zip (sort_key (\<lambda>a. order_of topological_order (pa_action_id a)) actions) ids)"

section \<open>One step\<close>

definition is_terminal :: "string \<Rightarrow> bool" where
  "is_terminal state \<longleftrightarrow>
     state \<in> {es_value ES_SUCCEEDED, es_value ES_FAILED, es_value ES_BLOCKED_BY_DRIFT,
              es_value ES_BLOCKED_BY_CONFLICT, es_value ES_REQUIRES_MANUAL_ACTION}"

definition updated_step ::
  "datetime \<Rightarrow> durable_execution_step \<Rightarrow> string \<Rightarrow> string option \<Rightarrow> bool \<Rightarrow> durable_execution_step" where
  "updated_step now step new_state err verification_passed =
     step\<lparr>ds_execution_state := new_state,
          ds_started_at := (case ds_started_at step of None \<Rightarrow> Some now | Some t \<Rightarrow> Some t),
          ds_completed_at := (if is_terminal new_state then Some now else ds_completed_at step),
          ds_error := err, ds_verification_passed := verification_passed,
          ds_retry_count := ds_retry_count step + (if new_state = es_value ES_FAILED then 1 else 0),
          ds_write_fence := 0\<rparr>"

definition update_step_state ::
  "durable_execution_step \<Rightarrow> string \<Rightarrow> string option \<Rightarrow> bool \<Rightarrow> int option \<Rightarrow> ('w sys, unit) eff" where
  "update_step_state step new_state err verification_passed fencing_token s =
     (let updated = updated_step (sys_now s) step new_state err verification_passed;
          (saved, rows) = save_step updated fencing_token (sys_steps s)
      in (case saved of Inl e \<Rightarrow> Inl e | Inr _ \<Rightarrow> Inr (), s\<lparr>sys_steps := rows\<rparr>))"

definition step_failure :: "durable_execution_step \<Rightarrow> string \<Rightarrow> string \<Rightarrow> step_result" where
  "step_failure step state err =
     \<lparr>sr_action_id = ds_action_id step, sr_execution_state = state, sr_success = False,
      sr_lease_lost = False, sr_persistence = None, sr_verification_passed = None,
      sr_idempotency_key = None, sr_error = Some err\<rparr>"

text \<open>Record a state that is not a success and answer with it.\<close>

definition close_step ::
  "durable_execution_step \<Rightarrow> execution_state \<Rightarrow> string \<Rightarrow> string \<Rightarrow> int option
     \<Rightarrow> ('w sys, step_result) eff" where
  "close_step step state stored_error reported_error fencing_token =
     ebind (update_step_state step (es_value state) (Some stored_error) False fencing_token)
       (\<lambda>_. eret (step_failure step (es_value state) reported_error))"

definition step_action ::
  "datetime \<Rightarrow> string \<Rightarrow> durable_execution_step \<Rightarrow> recovery_evidence \<Rightarrow> protected_action" where
  "step_action now tenant_id step evidence =
     \<lparr>pa_action_id = ds_action_id step, pa_tenant_id = tenant_id, pa_actor_user_id = None,
      pa_agent_id = [], pa_authority_grant_id = None, pa_tool = ds_target_system step,
      pa_resource = ds_target_resource step, pa_action_type = re_action_type evidence,
      pa_risk_score = 0, pa_policy_version = None, pa_correlation_id = [],
      pa_parent_action_id = None, pa_workflow_id = None, pa_reversibility = REV_UNKNOWN,
      pa_before_state_ref = re_before_state_reference evidence, pa_before_state_snapshot = None,
      pa_after_state_ref = None, pa_tool_arguments = [], pa_status = AS_PENDING,
      pa_decision_reason = [], pa_evaluated_at = None, pa_executed_at = None,
      pa_created_at = now\<rparr>"

text \<open>Capability gating: \<open>True\<close> when the adapter refuses the action.\<close>

definition adapter_refuses :: "'w adapter \<Rightarrow> protected_action \<Rightarrow> ('w sys, bool) eff" where
  "adapter_refuses ad action =
     (case ad_can_recover ad of
        None \<Rightarrow> eret False
      | Some can_recover \<Rightarrow>
          ebind (ecatch (ebind (can_recover action) (\<lambda>v. eret (Some v)))
                   (\<lambda>e. case e of AttributeError _ \<Rightarrow> eret None | TypeError _ \<Rightarrow> eret None
                        | _ \<Rightarrow> eraise e))
            (\<lambda>verdict. eret (verdict \<in> {Some ''unsupported'', Some ''irreversible'',
                                       Some ''requires_approval''})))"

text \<open>
  The execution phase of the adapter that claimed the step: compensation, then verification.
  Every exception of the two is caught.
\<close>

definition execution_phase ::
  "'w adapter \<Rightarrow> durable_execution_step \<Rightarrow> compensation_action
     \<Rightarrow> ('w sys, py_error + compensation_result \<times> bool) eff" where
  "execution_phase ad step compensation =
     ecatch
       (ebind (ad_execute_compensation ad compensation (ds_idempotency_key step)) (\<lambda>result.
        ebind (case ad_verify ad of
                 None \<Rightarrow> eret False
               | Some verify_fn \<Rightarrow> ebind (verify_fn compensation) (\<lambda>v. eret (vr_verified v)))
          (\<lambda>verification_passed. eret (Inr (result, verification_passed)))))
       (\<lambda>e. eret (Inl e))"

text \<open>What the adapter did is recorded either way.\<close>

definition record_outcome ::
  "'w adapter \<Rightarrow> durable_execution_step \<Rightarrow> int option \<Rightarrow> py_error + compensation_result \<times> bool
     \<Rightarrow> ('w sys, step_result) eff" where
  "record_outcome ad step fencing_token outcome =
     (case outcome of
        Inl e \<Rightarrow>
          close_step step ES_FAILED (exc_str e)
            (''Adapter execution/verification failed in '' @ ad_name ad @ '': '' @ exc_str e)
            fencing_token
      | Inr (result, verification_passed) \<Rightarrow>
          ebind (update_step_state step (es_value (cr_execution_state result))
                   (cr_error result) verification_passed fencing_token)
            (\<lambda>_. eret \<lparr>sr_action_id = ds_action_id step,
                       sr_execution_state = es_value (cr_execution_state result),
                       sr_success = cr_success result, sr_lease_lost = False,
                       sr_persistence = None,
                       sr_verification_passed = Some verification_passed,
                       sr_idempotency_key = Some (ds_idempotency_key step),
                       sr_error = None\<rparr>))"

definition claimed_step ::
  "'w adapter \<Rightarrow> durable_execution_step \<Rightarrow> int option \<Rightarrow> compensation_action
     \<Rightarrow> ('w sys, step_result) eff" where
  "claimed_step ad step fencing_token compensation =
     ebind (execution_phase ad step compensation) (record_outcome ad step fencing_token)"

text \<open>One turn of the adapter loop: \<open>None\<close> goes on to the next adapter.\<close>

definition adapter_body ::
  "'w adapter \<Rightarrow> durable_execution_step \<Rightarrow> protected_action \<Rightarrow> recovery_evidence \<Rightarrow> int option
     \<Rightarrow> ('w sys, step_result option) eff" where
  "adapter_body ad step action evidence fencing_token =
     (if \<not> ad_captures_evidence ad then eret None else
      ebind (adapter_refuses ad action) (\<lambda>refused. if refused then eret None else
      ebind (ad_detect_drift ad action evidence) (\<lambda>drift.
        if dt_status drift \<notin> {NO_DRIFT, DR_INSUFFICIENT_EVIDENCE}
        then ebind (close_step step ES_BLOCKED_BY_DRIFT
                      (''Drift: '' @ drift_value (dt_status drift))
                      (''Drift detected: '' @ drift_value (dt_status drift)) fencing_token)
               (\<lambda>r. eret (Some r))
        else
      ebind (ad_check_conflicts ad action evidence) (\<lambda>conflict.
        if cf_status conflict \<notin> {NO_CONFLICT, CF_INSUFFICIENT_EVIDENCE}
        then ebind (close_step step ES_BLOCKED_BY_CONFLICT
                      (''Conflict: '' @ conflict_value (cf_status conflict))
                      (''Conflict detected: '' @ conflict_value (cf_status conflict)) fencing_token)
               (\<lambda>r. eret (Some r))
        else
      ebind (ad_generate_compensation ad action evidence) (\<lambda>compensation.
      ebind (claimed_step ad step fencing_token compensation) (\<lambda>r. eret (Some r)))))))"

definition adapter_attempt ::
  "'w adapter \<Rightarrow> durable_execution_step \<Rightarrow> protected_action \<Rightarrow> recovery_evidence \<Rightarrow> int option
     \<Rightarrow> ('w sys, step_result option) eff" where
  "adapter_attempt ad step action evidence fencing_token =
     ecatch (adapter_body ad step action evidence fencing_token)
       (\<lambda>e. case e of
              StaleFencingTokenError _ \<Rightarrow> eraise e
            | AttributeError _ \<Rightarrow> eret None
            | TypeError _ \<Rightarrow> eret None
            | _ \<Rightarrow> ebind (close_step step ES_FAILED (exc_str e) (exc_str e) fencing_token)
                     (\<lambda>r. eret (Some r)))"

fun adapter_loop ::
  "'w adapter list \<Rightarrow> durable_execution_step \<Rightarrow> protected_action \<Rightarrow> recovery_evidence
     \<Rightarrow> int option \<Rightarrow> ('w sys, step_result) eff" where
  "adapter_loop [] step action evidence fencing_token =
     close_step step ES_REQUIRES_MANUAL_ACTION ''No adapter could execute this step''
       ''No adapter available'' fencing_token"
| "adapter_loop (ad # ads) step action evidence fencing_token =
     ebind (adapter_attempt ad step action evidence fencing_token)
       (\<lambda>r. case r of
              Some result \<Rightarrow> eret result
            | None \<Rightarrow> adapter_loop ads step action evidence fencing_token)"

definition run_single_step ::
  "'w orchestrator \<Rightarrow> string \<Rightarrow> durable_execution_step \<Rightarrow> int option \<Rightarrow> ('w sys, step_result) eff" where
  "run_single_step orc tenant_id step fencing_token s =
     (case sys_evidence s (tenant_id, ds_action_id step) of
        None \<Rightarrow>
          close_step step ES_REQUIRES_MANUAL_ACTION ''No evidence available for step''
            ''No evidence available'' fencing_token s
      | Some evidence \<Rightarrow>
          adapter_loop (orc_adapters orc) step (step_action (sys_now s) tenant_id step evidence)
            evidence fencing_token s)"

definition stale_write_result :: "durable_execution_step \<Rightarrow> string \<Rightarrow> step_result" where
  "stale_write_result step m =
     \<lparr>sr_action_id = ds_action_id step, sr_execution_state = ds_execution_state step,
      sr_success = False, sr_lease_lost = True, sr_persistence = Some ''rejected_stale_write'',
      sr_verification_passed = None, sr_idempotency_key = None,
      sr_error = Some (''Durable step write rejected by fencing token: '' @ m)\<rparr>"

definition execute_single_step ::
  "'w orchestrator \<Rightarrow> string \<Rightarrow> durable_execution_step \<Rightarrow> int option \<Rightarrow> ('w sys, step_result) eff" where
  "execute_single_step orc tenant_id step fencing_token =
     ecatch (run_single_step orc tenant_id step fencing_token)
       (\<lambda>e. case e of
              StaleFencingTokenError m \<Rightarrow> eret (stale_write_result step m)
            | _ \<Rightarrow> eraise e)"

section \<open>Executing a plan\<close>

record loop_state =
  lp_lease :: "plan_lease option"
  lp_results :: "(string, step_report) dict"
  lp_completed :: nat
  lp_failed :: nat
  lp_blocked :: nat
  lp_manual :: nat
  lp_unverified :: nat

definition lease_lost_report :: "string \<Rightarrow> nat \<Rightarrow> loop_state \<Rightarrow> execute_report" where
  "lease_lost_report reason n_steps st =
     \<lparr>er_status = ''lease_lost'', er_stop_reason = reason, er_total_steps = n_steps,
      er_completed = lp_completed st, er_failed = lp_failed st, er_blocked = lp_blocked st,
      er_manual_required = lp_manual st, er_execution_results = lp_results st,
      er_verification_status =
        (if lp_completed st > 0 then EXECUTED_NOT_VERIFIED else EXECUTION_FAILED)\<rparr>"

definition final_report :: "nat \<Rightarrow> bool \<Rightarrow> string \<Rightarrow> loop_state \<Rightarrow> execute_report" where
  "final_report n_steps stopped stop_reason st =
     (let all_succeeded = lp_completed st = n_steps \<and> lp_failed st = 0;
          verified_every_step = all_succeeded \<and> lp_unverified st = 0
      in \<lparr>er_status = (if all_succeeded then ''completed''
                       else if stopped then ''stopped'' else ''partial''),
          er_stop_reason = stop_reason, er_total_steps = n_steps, er_completed = lp_completed st,
          er_failed = lp_failed st, er_blocked = lp_blocked st,
          er_manual_required = lp_manual st, er_execution_results = lp_results st,
          er_verification_status =
            (if verified_every_step then EXECUTED_AND_VERIFIED
             else if lp_completed st > 0 then EXECUTED_NOT_VERIFIED else EXECUTION_FAILED)\<rparr>)"

definition RENEWAL_FAILED :: string where
  "RENEWAL_FAILED = ''Execution lease expired and could not be renewed; another orchestrator instance may have taken over''"

definition WRITE_REJECTED :: string where
  "WRITE_REJECTED = ''Durable step write rejected by a newer fencing token: another orchestrator instance advanced the write fence; this instance stopped without claiming the step as persisted''"

text \<open>The counters after a step's result, and the reason to stop, if any.\<close>

definition count_result ::
  "string list \<Rightarrow> durable_execution_step \<Rightarrow> step_result \<Rightarrow> loop_state \<Rightarrow> loop_state \<times> string option" where
  "count_result stop_conditions step result st =
     (let st = st\<lparr>lp_results := AList.update (ds_action_id step) (StepReport result) (lp_results st)\<rparr>;
          state = sr_execution_state result
      in if state = es_value ES_SUCCEEDED
         then (st\<lparr>lp_completed := lp_completed st + 1,
                  lp_unverified := lp_unverified st +
                    (if sr_verification_passed result = Some True then 0 else 1)\<rparr>, None)
         else if state = es_value ES_FAILED
         then (st\<lparr>lp_failed := lp_failed st + 1\<rparr>,
               if stop_value ON_FIRST_FAILURE \<in> set stop_conditions
               then Some (''Stopped on first failure: '' @ ds_action_id step) else None)
         else if state = es_value ES_BLOCKED_BY_DRIFT
         then (st\<lparr>lp_blocked := lp_blocked st + 1\<rparr>,
               if stop_value ON_BLOCKING_DRIFT \<in> set stop_conditions
               then Some (''Stopped on blocking drift: '' @ ds_action_id step) else None)
         else if state = es_value ES_BLOCKED_BY_CONFLICT
         then (st\<lparr>lp_blocked := lp_blocked st + 1\<rparr>,
               if stop_value ON_BLOCKING_CONFLICT \<in> set stop_conditions
               then Some (''Stopped on blocking conflict: '' @ ds_action_id step) else None)
         else if state = es_value ES_REQUIRES_MANUAL_ACTION
         then (st\<lparr>lp_manual := lp_manual st + 1\<rparr>, None)
         else (st, None))"

text \<open>
  The renewal at a step boundary; \<open>Inl\<close> is a lease that cannot be renewed. Without a lease
  nothing is renewed.
\<close>

definition renew_boundary ::
  "'w orchestrator \<Rightarrow> string \<Rightarrow> plan_lease option \<Rightarrow> 'w sys
     \<Rightarrow> (unit + plan_lease option) \<times> 'w sys" where
  "renew_boundary orc plan_id lease s =
     (case lease of
        None \<Rightarrow> (Inr None, s)
      | Some _ \<Rightarrow>
          (let (renewed, leases) = im_renew (sys_now s) (sys_now s) plan_id (orc_instance_id orc)
                                     (orc_lease_ttl orc) (sys_leases s);
               s' = s\<lparr>sys_leases := leases\<rparr>
           in case renewed of None \<Rightarrow> (Inl (), s') | Some l \<Rightarrow> (Inr (Some l), s')))"

fun execute_loop ::
  "'w orchestrator \<Rightarrow> string \<Rightarrow> string \<Rightarrow> string list \<Rightarrow> nat \<Rightarrow> durable_execution_step list
     \<Rightarrow> loop_state \<Rightarrow> ('w sys, execute_report) eff" where
  "execute_loop orc tenant_id plan_id stops n_steps [] st s =
     (Inr (final_report n_steps False [] st), s)"
| "execute_loop orc tenant_id plan_id stops n_steps (step # rest) st s =
     (case renew_boundary orc plan_id (lp_lease st) (orc_env orc s) of
        (Inl _, s1) \<Rightarrow> (Inr (lease_lost_report RENEWAL_FAILED n_steps st), s1)
      | (Inr lease, s1) \<Rightarrow>
          (let st = st\<lparr>lp_lease := lease\<rparr>
           in if ds_execution_state step = es_value ES_SUCCEEDED
              then execute_loop orc tenant_id plan_id stops n_steps rest
                (st\<lparr>lp_completed := lp_completed st + 1,
                    lp_unverified := lp_unverified st + (if ds_verification_passed step then 0 else 1),
                    lp_results := AList.update (ds_action_id step)
                      (AlreadyCompleted (ds_execution_state step) (ds_verification_passed step))
                      (lp_results st)\<rparr>) s1
              else
                (case execute_single_step orc tenant_id step (map_option pl_fencing_token lease) s1 of
                   (Inl e, s2) \<Rightarrow> (Inl e, s2)
                 | (Inr result, s2) \<Rightarrow>
                     if sr_lease_lost result
                     then (Inr (lease_lost_report WRITE_REJECTED n_steps
                             (st\<lparr>lp_results := AList.update (ds_action_id step) (StepReport result)
                                                 (lp_results st)\<rparr>)), s2)
                     else
                       (case count_result stops step result st of
                          (st', Some reason) \<Rightarrow> (Inr (final_report n_steps True reason st'), s2)
                        | (st', None) \<Rightarrow>
                            execute_loop orc tenant_id plan_id stops n_steps rest st' s2))))"

definition do_execute_durable_plan ::
  "'w orchestrator \<Rightarrow> string \<Rightarrow> string \<Rightarrow> string list \<Rightarrow> plan_lease option
     \<Rightarrow> ('w sys, execute_report plan_answer) eff" where
  "do_execute_durable_plan orc tenant_id plan_id stop_conditions lease s =
     (let stops = (if stop_conditions = [] then [stop_value ON_FIRST_FAILURE] else stop_conditions);
          (steps, n_steps) = list_by_plan tenant_id plan_id 500 0 (sys_steps s)
      in if n_steps = 0 then (Inr NoSteps, s)
         else
           (case execute_loop orc tenant_id plan_id stops (length steps) steps
                   \<lparr>lp_lease = lease, lp_results = [], lp_completed = 0, lp_failed = 0,
                    lp_blocked = 0, lp_manual = 0, lp_unverified = 0\<rparr> s of
              (Inl e, s') \<Rightarrow> (Inl e, s')
            | (Inr report, s') \<Rightarrow> (Inr (Reported report), s')))"

text \<open>
  Run \<open>body\<close> under the plan lease and release it in every case (\<open>try .. finally\<close>); the same
  frame serves execute and resume.
\<close>

definition under_plan_lease ::
  "'w orchestrator \<Rightarrow> string \<Rightarrow> (plan_lease \<Rightarrow> ('w sys, 'r plan_answer) eff) \<Rightarrow> ('w sys, 'r plan_result) eff" where
  "under_plan_lease orc plan_id body s =
     (let (acquired, leases) = im_try_acquire (sys_now s) (sys_now s) plan_id (orc_instance_id orc)
                                 (orc_lease_ttl orc) (sys_leases s);
          s0 = s\<lparr>sys_leases := leases\<rparr>
      in case acquired of
           None \<Rightarrow> (Inr (AlreadyRunning, None), s0)
         | Some lease \<Rightarrow>
             (let (r, s1) = body lease s0;
                  s2 = s1\<lparr>sys_leases := im_release plan_id (orc_instance_id orc) (sys_leases s1)\<rparr>
              in (case r of Inl e \<Rightarrow> Inl e | Inr a \<Rightarrow> Inr (a, Some (pl_fencing_token lease)), s2)))"

definition execute_durable_plan ::
  "'w orchestrator \<Rightarrow> string \<Rightarrow> string \<Rightarrow> string list \<Rightarrow> ('w sys, execute_report plan_result) eff" where
  "execute_durable_plan orc tenant_id plan_id stop_conditions =
     under_plan_lease orc plan_id
       (\<lambda>lease. do_execute_durable_plan orc tenant_id plan_id stop_conditions (Some lease))"

section \<open>Resuming a plan\<close>

definition verification_action ::
  "durable_execution_step \<Rightarrow> recovery_evidence \<Rightarrow> compensation_action" where
  "verification_action step evidence =
     \<lparr>ca_action_id = ds_action_id step, ca_incident_action_id = ds_action_id step,
      ca_compensation_type = re_compensation_type evidence,
      ca_compensation_payload = re_compensation_payload evidence,
      ca_idempotency_key = ds_idempotency_key step, ca_target_system = ds_target_system step,
      ca_target_resource = ds_target_resource step,
      ca_execution_order = ds_execution_order step,
      ca_reversibility = re_reversibility_classification evidence, ca_drift_status = NO_DRIFT,
      ca_conflict_status = NO_CONFLICT,
      ca_verification_requirements = re_verification_requirements evidence,
      ca_dependency_edges = re_dependency_edges evidence, ca_plan_id = [],
      ca_skip_reason = None\<rparr>"

fun any_verifies :: "'w adapter list \<Rightarrow> compensation_action \<Rightarrow> 'w sys \<Rightarrow> bool \<times> 'w sys" where
  "any_verifies [] compensation s = (False, s)"
| "any_verifies (ad # ads) compensation s =
     (case ad_verify ad of
        None \<Rightarrow> any_verifies ads compensation s
      | Some verify_fn \<Rightarrow>
          (case verify_fn compensation s of
             (Inl e, s') \<Rightarrow> any_verifies ads compensation s'
           | (Inr v, s') \<Rightarrow> if vr_verified v then (True, s') else any_verifies ads compensation s'))"

definition verify_external_outcome ::
  "'w orchestrator \<Rightarrow> string \<Rightarrow> durable_execution_step \<Rightarrow> 'w sys \<Rightarrow> bool \<times> 'w sys" where
  "verify_external_outcome orc tenant_id step s =
     (case sys_evidence s (tenant_id, ds_action_id step) of
        None \<Rightarrow> (False, s)
      | Some evidence \<Rightarrow> any_verifies (orc_adapters orc) (verification_action step evidence) s)"

fun verify_unknown ::
  "'w orchestrator \<Rightarrow> string \<Rightarrow> durable_execution_step list \<Rightarrow> (string, string) dict \<Rightarrow> 'w sys
     \<Rightarrow> (string, string) dict \<times> 'w sys" where
  "verify_unknown orc tenant_id [] results s = (results, s)"
| "verify_unknown orc tenant_id (step # rest) results s =
     (let (verified, s') = verify_external_outcome orc tenant_id step s
      in verify_unknown orc tenant_id rest
           (AList.update (ds_action_id step)
              (if verified then ''verified'' else ''requires_manual_verification'') results) s')"

record resume_state =
  rz_results :: "(string, step_report) dict"
  rz_completed :: nat
  rz_failed :: nat

definition resume_report_of ::
  "string \<Rightarrow> string \<Rightarrow> nat \<Rightarrow> (string, string) dict \<Rightarrow> resume_state \<Rightarrow> datetime \<Rightarrow> resume_report" where
  "resume_report_of status reason n_steps verification st now =
     \<lparr>rs_status = status, rs_stop_reason = reason, rs_total_steps = n_steps,
      rs_completed = rz_completed st, rs_failed = rz_failed st,
      rs_verification_results = verification, rs_execution_results = rz_results st,
      rs_resumed_at = now\<rparr>"

definition resume_final ::
  "nat \<Rightarrow> (string, string) dict \<Rightarrow> bool \<Rightarrow> string \<Rightarrow> resume_state \<Rightarrow> 'w sys \<Rightarrow> resume_report" where
  "resume_final n_steps verification stopped reason st s =
     resume_report_of
       (if rz_completed st = n_steps \<and> rz_failed st = 0 then ''completed''
        else if stopped then ''stopped'' else ''partial'') reason n_steps verification st (sys_now s)"

text \<open>
  The loop of \<open>_do_resume_plan\<close>. The source leaves the loop as soon as \<open>stopped\<close> is set, so the
  test at the top of the body never fires and is not repeated here.
\<close>

fun resume_loop ::
  "'w orchestrator \<Rightarrow> string \<Rightarrow> string \<Rightarrow> string list \<Rightarrow> nat \<Rightarrow> (string, string) dict
     \<Rightarrow> durable_execution_step list \<Rightarrow> resume_state \<Rightarrow> ('w sys, resume_report) eff" where
  "resume_loop orc tenant_id plan_id stops n_steps verification [] st s =
     (Inr (resume_final n_steps verification False [] st s), s)"
| "resume_loop orc tenant_id plan_id stops n_steps verification (step # rest) st s0 =
     (let s = orc_env orc s0
      in if ds_execution_state step = es_value ES_SUCCEEDED
         then resume_loop orc tenant_id plan_id stops n_steps verification rest st s
         else if ds_execution_state step = es_value ES_UNKNOWN_EXTERNAL_OUTCOME \<and>
                 map_of verification (ds_action_id step) = Some ''verified''
         then resume_loop orc tenant_id plan_id stops n_steps verification rest
                (st\<lparr>rz_completed := rz_completed st + 1\<rparr>) s
         else
           (let (renewed, leases) = im_renew (sys_now s) (sys_now s) plan_id (orc_instance_id orc)
                                      (orc_lease_ttl orc) (sys_leases s);
                s1 = s\<lparr>sys_leases := leases\<rparr>
            in case renewed of
                 None \<Rightarrow>
                   (Inr (resume_report_of ''lease_lost'' RENEWAL_FAILED n_steps verification st
                           (sys_now s1)), s1)
               | Some lease \<Rightarrow>
                   (case execute_single_step orc tenant_id step (Some (pl_fencing_token lease)) s1 of
                      (Inl e, s2) \<Rightarrow> (Inl e, s2)
                    | (Inr result, s2) \<Rightarrow>
                        (let st1 = st\<lparr>rz_results := AList.update (ds_action_id step)
                                                      (StepReport result) (rz_results st)\<rparr>
                         in if sr_lease_lost result
                            then (Inr (resume_report_of ''lease_lost'' WRITE_REJECTED n_steps
                                         verification st1 (sys_now s2)), s2)
                            else if sr_execution_state result = es_value ES_SUCCEEDED
                            then resume_loop orc tenant_id plan_id stops n_steps verification rest
                                   (st1\<lparr>rz_completed := rz_completed st1 + 1\<rparr>) s2
                            else if sr_execution_state result = es_value ES_FAILED
                            then
                              (let st2 = st1\<lparr>rz_failed := rz_failed st1 + 1\<rparr>
                               in if stop_value ON_FIRST_FAILURE \<in> set stops
                                  then (Inr (resume_final n_steps verification True
                                    (''Stopped on first failure after resume: '' @ ds_action_id step)
                                    st2 s2), s2)
                                  else resume_loop orc tenant_id plan_id stops n_steps verification
                                         rest st2 s2)
                            else resume_loop orc tenant_id plan_id stops n_steps verification rest
                                   st1 s2))))"

definition do_resume_plan ::
  "'w orchestrator \<Rightarrow> string \<Rightarrow> string \<Rightarrow> string list \<Rightarrow> ('w sys, resume_report plan_answer) eff" where
  "do_resume_plan orc tenant_id plan_id stop_conditions s =
     (let (steps, n_steps) = list_by_plan tenant_id plan_id 500 0 (sys_steps s)
      in if n_steps = 0 then (Inr NoSteps, s)
         else
           (let already_done = filter (\<lambda>st. ds_execution_state st = es_value ES_SUCCEEDED) steps;
                needs_verification =
                  filter (\<lambda>st. ds_execution_state st = es_value ES_UNKNOWN_EXTERNAL_OUTCOME) steps;
                (verification, s1) = verify_unknown orc tenant_id needs_verification [] s
            in case resume_loop orc tenant_id plan_id stop_conditions (length steps) verification
                      steps \<lparr>rz_results = [], rz_completed = length already_done, rz_failed = 0\<rparr> s1 of
                 (Inl e, s2) \<Rightarrow> (Inl e, s2)
               | (Inr report, s2) \<Rightarrow> (Inr (Reported report), s2)))"

definition resume_plan ::
  "'w orchestrator \<Rightarrow> string \<Rightarrow> string \<Rightarrow> string list \<Rightarrow> ('w sys, resume_report plan_result) eff" where
  "resume_plan orc tenant_id plan_id stop_conditions =
     under_plan_lease orc plan_id (\<lambda>_. do_resume_plan orc tenant_id plan_id stop_conditions)"

end
