(* ===== verification/Orchestrator_Properties.thy ===== *)
theory Orchestrator_Properties
  imports Orchestrator
begin

text \<open>
  What the orchestrator guarantees for every behaviour of the adapters and of the other
  instances: a verified outcome is backed by verified compensations, every reported step state is
  in the store under the holder's fencing token, the plan lease is exclusive and always
  released, one adapter at most compensates a step, and plans are created and listed in
  topological order.
\<close>

section \<open>Verified outcomes\<close>

text \<open>
  A step is verified by this run when an adapter executed its compensation successfully, the
  same adapter's verification of that compensation passed, and the outcome was then written
  under fencing token \<open>n\<close>.
\<close>

definition verified_by_run ::
  "'w orchestrator \<Rightarrow> durable_execution_step \<Rightarrow> int option \<Rightarrow> 'w sys \<Rightarrow> bool" where
  "verified_by_run orc step n s' \<longleftrightarrow>
     (\<exists>ad compensation result verify_fn v sa sb sc.
        ad \<in> set (orc_adapters orc) \<and>
        ad_execute_compensation ad compensation (ds_idempotency_key step) sa = (Inr result, sb) \<and>
        cr_execution_state result = ES_SUCCEEDED \<and>
        ad_verify ad = Some verify_fn \<and> verify_fn compensation sb = (Inr v, sc) \<and> vr_verified v \<and>
        update_step_state step (es_value ES_SUCCEEDED) (cr_error result) True n sc = (Inr (), s'))"

definition verified_result :: "step_result \<Rightarrow> bool" where
  "verified_result r \<longleftrightarrow>
     sr_execution_state r = es_value ES_SUCCEEDED \<and> sr_verification_passed r = Some True"

lemma close_step_not_verified:
  "close_step step state a b n s = (Inr r, s') \<Longrightarrow> \<not> verified_result r"
  by (auto simp: close_step_def eff_iff step_failure_def verified_result_def)

lemma claimed_step_verified:
  assumes "claimed_step ad step n cmp s = (Inr r, s')" and "verified_result r"
    and "ad \<in> set (orc_adapters orc)"
  shows "verified_by_run orc step n s'"
proof -
  from assms(1) obtain outcome sc where
    phase: "execution_phase ad step cmp s = (Inr outcome, sc)" and
    rest: "record_outcome ad step n outcome sc = (Inr r, s')"
    by (auto simp: claimed_step_def ebind_Inr)
  from rest assms(2) obtain res where outcome: "outcome = Inr (res, True)"
    and st: "cr_execution_state res = ES_SUCCEEDED"
    and upd: "update_step_state step (es_value ES_SUCCEEDED) (cr_error res) True n sc = (Inr (), s')"
    by (auto simp: record_outcome_def ebind_Inr verified_result_def split: sum.splits prod.splits
        dest!: close_step_not_verified simp del: es_value.simps)
  from phase obtain f v sb where
    "ad_execute_compensation ad cmp (ds_idempotency_key step) s = (Inr res, sb)"
    "ad_verify ad = Some f" "f cmp sb = (Inr v, sc)" "vr_verified v"
    unfolding outcome execution_phase_def by (auto simp: eff_iff split: option.splits)
  with st upd assms(3) show ?thesis unfolding verified_by_run_def by blast
qed

lemma adapter_attempt_verified:
  assumes "adapter_attempt ad step action ev n s = (Inr (Some r), s')" and "verified_result r"
    and "ad \<in> set (orc_adapters orc)"
  shows "verified_by_run orc step n s'"
proof -
  have "(\<exists>cmp s1. claimed_step ad step n cmp s1 = (Inr r, s')) \<or>
      (\<exists>state a b s1. close_step step state a b n s1 = (Inr r, s'))"
    using assms(1) unfolding adapter_attempt_def adapter_body_def
    by (auto simp: eff_iff split: if_splits py_error.splits)
  then show ?thesis
    using close_step_not_verified claimed_step_verified assms(2,3) by blast
qed

lemma adapter_loop_verified:
  assumes "adapter_loop ads step action ev n s = (Inr r, s')" and "verified_result r"
    and "set ads \<subseteq> set (orc_adapters orc)"
  shows "verified_by_run orc step n s'"
  using assms
proof (induction ads arbitrary: s)
  case Nil
  then show ?case by (auto dest: close_step_not_verified)
next
  case (Cons ad ads)
  from Cons.prems(1) obtain x s1 where
    att: "adapter_attempt ad step action ev n s = (Inr x, s1)" and
    rest: "(case x of Some r \<Rightarrow> eret r | None \<Rightarrow> adapter_loop ads step action ev n) s1 = (Inr r, s')"
    by (auto simp: ebind_Inr)
  show ?case
  proof (cases x)
    case None
    with rest Cons show ?thesis by simp
  next
    case (Some r')
    with rest att have "adapter_attempt ad step action ev n s = (Inr (Some r), s')" by simp
    from adapter_attempt_verified [OF this Cons.prems(2)] Cons.prems(3) show ?thesis by simp
  qed
qed

lemma execute_single_step_Inr:
  "execute_single_step orc t step n s = (Inr r, s') \<longleftrightarrow>
     run_single_step orc t step n s = (Inr r, s') \<or>
     (\<exists>m. run_single_step orc t step n s = (Inl (StaleFencingTokenError m), s') \<and>
          r = stale_write_result step m)"
proof -
  have "(case e of StaleFencingTokenError m \<Rightarrow> eret (stale_write_result step m) | _ \<Rightarrow> eraise e) s1 =
      (Inr r, s') \<longleftrightarrow>
      (\<exists>m. e = StaleFencingTokenError m \<and> r = stale_write_result step m \<and> s1 = s')" for e s1
    by (cases e) auto
  then show ?thesis by (auto simp: execute_single_step_def ecatch_Inr)
qed

lemma execute_single_step_verified:
  assumes "execute_single_step orc t step n s = (Inr r, s')" and "verified_result r"
  shows "verified_by_run orc step n s'"
proof -
  have "run_single_step orc t step n s = (Inr r, s')"
    using assms by (auto simp: execute_single_step_Inr verified_result_def stale_write_result_def)
  then show ?thesis
    using assms(2) by (auto simp: run_single_step_def dest: close_step_not_verified
        adapter_loop_verified [OF _ assms(2) subset_refl] split: option.splits)
qed

section \<open>The execution loop\<close>

text \<open>
  What the claim \<open>EXECUTED_AND_VERIFIED\<close> says of one step: it was stored as succeeded and
  verified, or this run executed, verified and recorded it under a fencing token.
\<close>

definition step_verified :: "'w orchestrator \<Rightarrow> durable_execution_step \<Rightarrow> bool" where
  "step_verified orc step \<longleftrightarrow>
     ds_execution_state step = es_value ES_SUCCEEDED \<and> ds_verification_passed step \<or>
     (\<exists>n s'. verified_by_run orc step (Some n) s')"

lemma renew_boundary_lease:
  "renew_boundary orc p (Some l) s = (Inr lease, s') \<Longrightarrow> \<exists>l'. lease = Some l'"
  by (auto simp: renew_boundary_def Let_def split: prod.splits option.splits)

lemma count_result_cases:
  assumes "count_result stops step r st = (st', reason)"
  shows "lp_lease st' = lp_lease st" and "lp_failed st \<le> lp_failed st'"
    and "lp_unverified st \<le> lp_unverified st'"
    and "lp_completed st' = lp_completed st + (if sr_execution_state r = es_value ES_SUCCEEDED then 1 else 0)"
    and "lp_completed st < lp_completed st' \<Longrightarrow> lp_unverified st' = lp_unverified st \<Longrightarrow> verified_result r"
    and "reason \<noteq> None \<Longrightarrow> lp_completed st' = lp_completed st"
  using assms by (auto simp: count_result_def Let_def verified_result_def split: if_splits)

lemma execute_loop_verified:
  assumes "execute_loop orc t p stops n steps st s = (Inr rep, s')"
    and "er_verification_status rep = EXECUTED_AND_VERIFIED"
    and "lp_completed st + length steps \<le> n" and "lp_lease st \<noteq> None"
  shows "lp_unverified st = 0 \<and> lp_completed st + length steps = n \<and>
    (\<forall>step \<in> set steps. step_verified orc step)"
  using assms
proof (induction steps arbitrary: st s)
  case Nil
  then show ?case by (auto simp: final_report_def Let_def split: if_splits)
next
  case (Cons step rest)
  show ?case
  proof (cases "renew_boundary orc p (lp_lease st) (orc_env orc s)")
    case (Pair x s1)
    show ?thesis
    proof (cases x)
      case (Inl u)
      with Cons.prems Pair show ?thesis by (auto simp: lease_lost_report_def split: if_splits)
    next
      case (Inr lease)
      then obtain l where l: "lease = Some l"
        using renew_boundary_lease Pair Cons.prems(4) by fastforce
      note IH = Cons.IH [OF _ Cons.prems(2)]
      show ?thesis
      proof (cases "ds_execution_state step = es_value ES_SUCCEEDED")
        case True
        with Cons.prems Pair Inr l IH show ?thesis
          by (fastforce simp: Let_def step_verified_def simp del: es_value.simps split: if_splits)
      next
        case False
        then obtain r s2 where ex: "execute_single_step orc t step (Some (pl_fencing_token l)) s1 = (Inr r, s2)"
          and lost: "\<not> sr_lease_lost r"
          using Cons.prems(1,2) Pair Inr l
          by (auto simp: Let_def lease_lost_report_def split: prod.splits sum.splits if_splits)
        obtain st' reason where c: "count_result stops step r (st\<lparr>lp_lease := Some l\<rparr>) = (st', reason)"
          by fastforce
        note c' = count_result_cases [OF c, simplified]
        show ?thesis
        proof (cases reason)
          case (Some why)
          with Cons.prems(1) False Pair Inr l ex lost c
          have "rep = final_report n True why st'" by (simp add: Let_def)
          with Cons.prems(2,3) c'(6) Some show ?thesis
            by (auto simp: final_report_def Let_def split: if_splits)
        next
          case None
          with Cons.prems(1) False Pair Inr l ex lost c
          have "execute_loop orc t p stops n rest st' s2 = (Inr rep, s')" by (simp add: Let_def)
          from IH [OF this] Cons.prems(3) c'(1,4)
          have rest: "lp_unverified st' = 0" "lp_completed st' + length rest = n"
            "\<forall>step \<in> set rest. step_verified orc step" by (auto split: if_splits)
          then have "verified_result r" using c'(3-5) Cons.prems(3) by (auto split: if_splits)
          with ex have "step_verified orc step"
            unfolding step_verified_def using execute_single_step_verified by blast
          with rest c'(3,4) Cons.prems(3) show ?thesis by (auto split: if_splits)
        qed
      qed
    qed
  qed
qed

section \<open>Reported states are durable\<close>

text \<open>
  The unique constraint on \<open>step_id\<close> is the database's: whatever runs while an adapter is
  awaited or between two steps leaves it in force.
\<close>

abbreviation unique_steps :: "'w sys \<Rightarrow> bool" where
  "unique_steps s \<equiv> pk ds_step_id (sys_steps s)"

definition keeps_unique :: "('w sys, 'a) eff \<Rightarrow> bool" where
  "keeps_unique m \<longleftrightarrow> (\<forall>s. unique_steps s \<longrightarrow> unique_steps (snd (m s)))"

definition adapter_keeps_unique :: "'w adapter \<Rightarrow> bool" where
  "adapter_keeps_unique ad \<longleftrightarrow>
     (\<forall>f. ad_can_recover ad = Some f \<longrightarrow> (\<forall>a. keeps_unique (f a))) \<and>
     (\<forall>a ev. keeps_unique (ad_detect_drift ad a ev)) \<and>
     (\<forall>a ev. keeps_unique (ad_check_conflicts ad a ev)) \<and>
     (\<forall>a ev. keeps_unique (ad_generate_compensation ad a ev)) \<and>
     (\<forall>c k. keeps_unique (ad_execute_compensation ad c k)) \<and>
     (\<forall>f. ad_verify ad = Some f \<longrightarrow> (\<forall>c. keeps_unique (f c)))"

lemma keeps_uniqueD: "keeps_unique m \<Longrightarrow> unique_steps s \<Longrightarrow> m s = (r, s') \<Longrightarrow> unique_steps s'"
  unfolding keeps_unique_def by (metis snd_conv)

lemma keeps_unique_ret [simp]: "keeps_unique (eret x)" "keeps_unique (eraise e)"
  by (simp_all add: keeps_unique_def)

lemma keeps_unique_bind: "keeps_unique m \<Longrightarrow> (\<And>x. keeps_unique (k x)) \<Longrightarrow> keeps_unique (ebind m k)"
  unfolding keeps_unique_def ebind_def by (auto split: prod.splits sum.splits)

lemma keeps_unique_catch: "keeps_unique m \<Longrightarrow> (\<And>e. keeps_unique (h e)) \<Longrightarrow> keeps_unique (ecatch m h)"
  unfolding keeps_unique_def ecatch_def by (auto split: prod.splits sum.splits)

lemma keeps_unique_update: "keeps_unique (update_step_state st ns e v n)"
  by (auto simp: keeps_unique_def update_step_state_def Let_def split_beta save_step_pk)

lemma keeps_unique_close: "keeps_unique (close_step st ns a b n)"
  unfolding close_step_def by (intro keeps_unique_bind keeps_unique_update keeps_unique_ret)

lemmas keeps_unique_intros =
  keeps_unique_bind keeps_unique_catch keeps_unique_update keeps_unique_close keeps_unique_ret

lemma keeps_unique_refuses: "adapter_keeps_unique ad \<Longrightarrow> keeps_unique (adapter_refuses ad a)"
  unfolding adapter_refuses_def adapter_keeps_unique_def
  by (auto split: option.split py_error.split intro!: keeps_unique_intros)

lemma keeps_unique_phase: "adapter_keeps_unique ad \<Longrightarrow> keeps_unique (execution_phase ad st c)"
  unfolding execution_phase_def adapter_keeps_unique_def
  by (auto split: option.split intro!: keeps_unique_intros)

text \<open>The stored row agrees with the reported result.\<close>

definition recorded ::
  "durable_execution_step \<Rightarrow> int option \<Rightarrow> step_result \<Rightarrow> 'w sys \<Rightarrow> bool" where
  "recorded step n r s' \<longleftrightarrow>
     \<not> sr_lease_lost r \<and>
     (\<exists>row. step_rows (sys_steps s') (ds_step_id step) = Some row \<and>
        ds_execution_state row = sr_execution_state r \<and>
        ds_verification_passed row = (sr_verification_passed r = Some True) \<and>
        (\<forall>m. n = Some m \<longrightarrow> ds_write_fence row = m))"

lemma updated_step_sel [simp]:
  "ds_step_id (updated_step now st ns e v) = ds_step_id st"
  "ds_tenant_id (updated_step now st ns e v) = ds_tenant_id st"
  "ds_execution_state (updated_step now st ns e v) = ns"
  "ds_verification_passed (updated_step now st ns e v) = v"
  by (simp_all add: updated_step_def)

lemma update_step_state_stored:
  assumes "update_step_state step ns e v n s = (Inr (), s')" and "unique_steps s"
  shows "\<exists>row. step_rows (sys_steps s') (ds_step_id step) = Some row \<and>
    ds_execution_state row = ns \<and> ds_verification_passed row = v \<and>
    (\<forall>m. n = Some m \<longrightarrow> ds_write_fence row = m)"
proof -
  let ?upd = "updated_step (sys_now s) step ns e v"
  have save: "\<exists>x. save_step ?upd n (sys_steps s) = (Inr x, sys_steps s')"
    using assms(1) by (auto simp: update_step_state_def Let_def split_beta prod_eq_iff split: sum.splits)
  from assms(2) show ?thesis
    by (cases rule: save_step_cases [of "sys_steps s" ?upd n])
      (use save in \<open>auto simp: new_model_def split: option.splits\<close>)
qed

lemma close_step_recorded:
  assumes "close_step st state a b n s = (Inr r, s')" and "unique_steps s"
  shows "recorded st n r s'"
  using assms update_step_state_stored [of st "es_value state" "Some a" False n s s']
  by (auto simp: close_step_def eff_iff recorded_def step_failure_def)

lemma claimed_step_recorded:
  assumes "claimed_step ad st n c s = (Inr r, s')" and "unique_steps s" and "adapter_keeps_unique ad"
  shows "recorded st n r s'"
proof -
  from assms(1) obtain outcome s1 where phase: "execution_phase ad st c s = (Inr outcome, s1)"
    and rest: "record_outcome ad st n outcome s1 = (Inr r, s')"
    by (auto simp: claimed_step_def ebind_Inr)
  have "unique_steps s1" using keeps_uniqueD [OF keeps_unique_phase [OF assms(3)] assms(2) phase] .
  with rest show ?thesis
    by (auto simp: record_outcome_def eff_iff recorded_def split: sum.splits prod.splits
        dest: close_step_recorded [unfolded recorded_def] update_step_state_stored)
qed

text \<open>
  A coroutine that answers with a step result only after recording it; the rules follow the
  structure of the adapter loop.
\<close>

definition records ::
  "durable_execution_step \<Rightarrow> int option \<Rightarrow> ('w sys, step_result option) eff \<Rightarrow> bool" where
  "records st n m \<longleftrightarrow>
     (\<forall>s r s'. unique_steps s \<longrightarrow> m s = (Inr (Some r), s') \<longrightarrow> recorded st n r s')"

lemma records_none: "records st n (eret None)" "records st n (eraise e)"
  by (simp_all add: records_def)

lemma records_bind:
  "keeps_unique m \<Longrightarrow> (\<And>x. records st n (k x)) \<Longrightarrow> records st n (ebind m k)"
  unfolding records_def ebind_Inr by (blast dest: keeps_uniqueD)

lemma records_catch:
  "keeps_unique m \<Longrightarrow> records st n m \<Longrightarrow> (\<And>e. records st n (h e)) \<Longrightarrow> records st n (ecatch m h)"
  unfolding records_def ecatch_Inr by (blast dest: keeps_uniqueD)

lemma records_close: "records st n (ebind (close_step st state a b n) (\<lambda>r. eret (Some r)))"
  by (auto simp: records_def ebind_Inr dest: close_step_recorded)

lemma records_claimed:
  "adapter_keeps_unique ad \<Longrightarrow>
   records st n (ebind (claimed_step ad st n c) (\<lambda>r. eret (Some r)))"
  by (auto simp: records_def ebind_Inr dest: claimed_step_recorded)

lemma keeps_unique_claimed:
  "adapter_keeps_unique ad \<Longrightarrow> keeps_unique (claimed_step ad st n c)"
  unfolding claimed_step_def record_outcome_def
  by (intro keeps_unique_bind keeps_unique_phase)
    (auto split: sum.split prod.split intro!: keeps_unique_intros)

lemma keeps_unique_body:
  assumes "adapter_keeps_unique ad"
  shows "keeps_unique (adapter_body ad st action ev n)"
  using assms unfolding adapter_body_def adapter_keeps_unique_def
  by (auto intro!: keeps_unique_intros keeps_unique_refuses [OF assms]
      keeps_unique_claimed [OF assms])

lemma records_body:
  assumes "adapter_keeps_unique ad"
  shows "records st n (adapter_body ad st action ev n)"
  using assms unfolding adapter_body_def adapter_keeps_unique_def
  by (auto intro!: records_close records_none records_claimed [OF assms] records_bind
      keeps_unique_refuses [OF assms])

lemma records_attempt:
  assumes "adapter_keeps_unique ad"
  shows "records st n (adapter_attempt ad st action ev n)"
  unfolding adapter_attempt_def
  by (intro records_catch records_body keeps_unique_body assms)
    (auto split: py_error.split intro: records_none records_close)

lemma keeps_unique_attempt:
  assumes "adapter_keeps_unique ad"
  shows "keeps_unique (adapter_attempt ad st action ev n)"
  unfolding adapter_attempt_def
  by (intro keeps_unique_catch keeps_unique_body assms)
    (auto split: py_error.split intro!: keeps_unique_intros)

lemma adapter_loop_recorded:
  assumes "adapter_loop ads st action ev n s = (Inr r, s')" and "unique_steps s"
    and "\<forall>ad \<in> set ads. adapter_keeps_unique ad"
  shows "recorded st n r s'"
  using assms
proof (induction ads arbitrary: s)
  case Nil
  then show ?case by (simp add: close_step_recorded)
next
  case (Cons ad ads)
  from Cons.prems(1) obtain x s1 where att: "adapter_attempt ad st action ev n s = (Inr x, s1)"
    and rest: "(case x of Some r \<Rightarrow> eret r | None \<Rightarrow> adapter_loop ads st action ev n) s1 = (Inr r, s')"
    by (auto simp: ebind_Inr)
  have "unique_steps s1"
    using keeps_uniqueD [OF keeps_unique_attempt Cons.prems(2) att] Cons.prems(3) by simp
  moreover have "recorded st n r' s1" if "x = Some r'" for r'
    using records_attempt [of ad st n action ev] att Cons.prems that by (auto simp: records_def)
  ultimately show ?case
    using rest Cons.IH [of s1] Cons.prems(3) by (cases x) auto
qed

section \<open>Plan leases\<close>

lemma under_plan_lease_cases:
  obtains (busy) l where "sys_leases s p = Some l" "sys_now s < pl_expires_at l"
      "under_plan_lease orc p body s = (Inr (AlreadyRunning, None), s)"
  | (ran) lease r s1 where "lease = fresh_lease (sys_leases s) (sys_now s) p (orc_instance_id orc) (orc_lease_ttl orc)"
      "\<And>l. sys_leases s p = Some l \<Longrightarrow> pl_expires_at l \<le> sys_now s"
      "body lease (s\<lparr>sys_leases := (sys_leases s)(p \<mapsto> lease)\<rparr>) = (r, s1)"
      "under_plan_lease orc p body s =
         (case r of Inl e \<Rightarrow> Inl e | Inr a \<Rightarrow> Inr (a, Some (pl_fencing_token lease)),
          s1\<lparr>sys_leases := im_release p (orc_instance_id orc) (sys_leases s1)\<rparr>)"
proof (cases "\<exists>l. sys_leases s p = Some l \<and> sys_now s < pl_expires_at l")
  case True
  then obtain l where l: "sys_leases s p = Some l" "sys_now s < pl_expires_at l" by blast
  with im.acquire_held [where s = "sys_leases s" and chk = "sys_now s" and now = "sys_now s"
      and p = p and w = "orc_instance_id orc" and ttl = "orc_lease_ttl orc" and l = l]
  show ?thesis by (intro busy [OF l]) (auto simp: under_plan_lease_def Let_def split: prod.split)
next
  case False
  then have free: "\<And>l. sys_leases s p = Some l \<Longrightarrow> pl_expires_at l \<le> sys_now s" by force
  let ?lease = "fresh_lease (sys_leases s) (sys_now s) p (orc_instance_id orc) (orc_lease_ttl orc)"
  obtain r s1 where body: "body ?lease (s\<lparr>sys_leases := (sys_leases s)(p \<mapsto> ?lease)\<rparr>) = (r, s1)"
    by fastforce
  from im.acquire_free [where s = "sys_leases s" and chk = "sys_now s" and now = "sys_now s"
      and p = p and w = "orc_instance_id orc" and ttl = "orc_lease_ttl orc"] free
  have "im_try_acquire (sys_now s) (sys_now s) p (orc_instance_id orc) (orc_lease_ttl orc) (sys_leases s) =
      (Some ?lease, (sys_leases s)(p \<mapsto> ?lease))" by (simp add: prod_eq_iff)
  with ran [OF refl free body] body show ?thesis by (simp add: under_plan_lease_def)
qed

lemma im_release_not_owner: "w \<noteq> [] \<Longrightarrow> im_release p w leases p = Some l \<Longrightarrow> pl_owner l \<noteq> w"
  by (auto simp: im_release_def split: option.splits if_splits)

section \<open>Properties\<close>

text \<open>
  A concrete system for the examples: the world counts the compensations that were applied; the
  adapter applies one and verifies it according to its two flags.
\<close>

definition sample_adapter :: "bool \<Rightarrow> bool \<Rightarrow> nat adapter" where
  "sample_adapter works verifies =
     \<lparr>ad_name = ''SampleAdapter'', ad_captures_evidence = True, ad_can_recover = None,
      ad_detect_drift = (\<lambda>_ _. eret \<lparr>dt_status = NO_DRIFT, dt_details = [],
         dt_current_version = None, dt_evidence_version = None, dt_current_state = None\<rparr>),
      ad_check_conflicts = (\<lambda>_ _. eret \<lparr>cf_status = NO_CONFLICT, cf_details = []\<rparr>),
      ad_generate_compensation = (\<lambda>action ev. eret
         \<lparr>ca_action_id = pa_action_id action, ca_incident_action_id = pa_action_id action,
          ca_compensation_type = re_compensation_type ev,
          ca_compensation_payload = re_compensation_payload ev,
          ca_idempotency_key = re_idempotency_key ev, ca_target_system = re_target_system ev,
          ca_target_resource = re_target_resource ev, ca_execution_order = 0,
          ca_reversibility = re_reversibility_classification ev, ca_drift_status = NO_DRIFT,
          ca_conflict_status = NO_CONFLICT, ca_verification_requirements = [],
          ca_dependency_edges = [], ca_plan_id = [], ca_skip_reason = None\<rparr>),
      ad_execute_compensation = (\<lambda>c key s.
         if works
         then (Inr \<lparr>cr_action_id = ca_action_id c, cr_success = True,
                    cr_execution_state = ES_SUCCEEDED, cr_idempotency_key = key, cr_details = [],
                    cr_external_outcome = [], cr_verification_passed = False,
                    cr_verification_details = [], cr_error = None\<rparr>,
               s\<lparr>sys_world := sys_world s + 1\<rparr>)
         else (Inl (AttributeError ''no connection''), s\<lparr>sys_world := sys_world s + 1\<rparr>)),
      ad_verify = Some (\<lambda>c. eret \<lparr>vr_action_id = ca_action_id c, vr_verified = verifies,
         vr_details = [], vr_drift_status = NO_DRIFT\<rparr>)\<rparr>"

definition sample_evidence :: recovery_evidence where
  "sample_evidence =
     \<lparr>re_evidence_id = ''e'', re_action_id = ''a'', re_tenant_id = ''t'', re_agent_id = ''ag'',
      re_authority_grant_id = None, re_parent_action_id = None, re_root_action_id = None,
      re_correlation_id = [], re_incident_id = None, re_created_at = 0, re_target_system = ''db'',
      re_target_resource = ''r'', re_action_type = ''update'', re_before_state_reference = None,
      re_after_state_reference = None, re_request_payload_reference = None,
      re_response_payload_reference = None, re_compensation_payload = [],
      re_compensation_type = CT_CUSTOM, re_recovery_adapter_type = AT_MOCK,
      re_idempotency_key = ''k'', re_dependency_edges = [],
      re_reversibility_classification = AUTOMATICALLY_REVERSIBLE, re_state_version = None,
      re_state_hash = None, re_resource_version = None, re_verification_requirements = [],
      re_recovery_metadata = [], re_evidence_hash = [], re_adapter_capability = AC_MOCK\<rparr>"

definition sample_sys :: "durable_execution_step list \<Rightarrow> nat sys" where
  "sample_sys rows =
     \<lparr>sys_now = 1000, sys_leases = Map.empty, sys_steps = rows,
      sys_evidence = [(''t'', ''a'') \<mapsto> sample_evidence], sys_world = 0\<rparr>"

definition sample_orc :: "nat adapter list \<Rightarrow> nat orchestrator" where
  "sample_orc ads =
     \<lparr>orc_instance_id = ''orch-1'', orc_adapters = ads, orc_lease_ttl = 300, orc_env = (\<lambda>s. s)\<rparr>"

lemmas run_simps =
  execute_durable_plan_def under_plan_lease_def im_try_acquire_def im_renew_def im_release_def
  im_expired_def do_execute_durable_plan_def list_by_plan_def sql_select_def Let_def
  renew_boundary_def execute_single_step_def run_single_step_def ecatch_def ebind_def
  adapter_attempt_def adapter_body_def adapter_refuses_def claimed_step_def execution_phase_def
  record_outcome_def update_step_state_def updated_step_def close_step_def step_failure_def
  save_step_def find_step_def sql_update_def overwrite_row_def count_result_def final_report_def
  sample_adapter_def sample_sys_def sample_orc_def sample_step_def



text \<open>
  What the orchestrator reports of a step is what the store holds: unless the write was
  rejected (the result then says \<open>lease_lost\<close>, is not a success, and keeps the step's old state),
  the row of the step has the reported execution state and verification flag, under the
  writer's fencing token.
\<close>

theorem reported_state_is_durable:
  assumes "execute_single_step orc t step (Some n) s = (Inr r, s')" and "unique_steps s"
    and "\<forall>ad \<in> set (orc_adapters orc). adapter_keeps_unique ad"
  shows "if sr_lease_lost r
    then \<not> sr_success r \<and> sr_execution_state r = ds_execution_state step \<and> sr_verification_passed r = None
    else \<exists>row. step_rows (sys_steps s') (ds_step_id step) = Some row \<and>
      ds_execution_state row = sr_execution_state r \<and>
      ds_verification_passed row = (sr_verification_passed r = Some True) \<and> ds_write_fence row = n"
proof (cases "run_single_step orc t step (Some n) s = (Inr r, s')")
  case True
  then have "recorded step (Some n) r s'"
    using assms(2,3) by (auto simp: run_single_step_def split: option.splits
        intro: close_step_recorded adapter_loop_recorded)
  then show ?thesis by (auto simp: recorded_def)
next
  case False
  with assms(1) show ?thesis by (auto simp: execute_single_step_Inr stale_write_result_def)
qed

theorem reported_state_is_durable_witness:
  "let (r, s') = execute_single_step (sample_orc [sample_adapter True True]) ''t''
         (sample_step ''s1'' ''pending'' 0) (Some 3) (sample_sys [sample_step ''s1'' ''pending'' 0])
   in \<exists>row. step_rows (sys_steps s') ''s1'' = Some row \<and>
        ds_execution_state row = ''succeeded'' \<and> ds_write_fence row = 3"
proof -
  let ?ad = "sample_adapter True True"
  have keeps: "adapter_keeps_unique ?ad"
    by (simp add: adapter_keeps_unique_def sample_adapter_def keeps_unique_def)
  have "unique_steps (sample_sys [sample_step ''s1'' ''pending'' 0])"
    by (simp add: sample_sys_def pk_def)
  moreover obtain r s' where run: "execute_single_step (sample_orc [?ad]) ''t''
      (sample_step ''s1'' ''pending'' 0) (Some 3) (sample_sys [sample_step ''s1'' ''pending'' 0]) = (Inr r, s')"
    and r: "\<not> sr_lease_lost r" "sr_execution_state r = ''succeeded''"
    by (simp add: run_simps)
  ultimately show ?thesis
    using reported_state_is_durable [OF run] keeps
    by (auto simp: run r sample_orc_def sample_step_def)
qed

text \<open>
  C15. One executor at a time: while any instance's lease on the plan is unexpired, executing and
  resuming the plan both answer \<open>already_running\<close> and change nothing.
\<close>

theorem single_executor:
  assumes "sys_leases s p = Some l" and "sys_now s < pl_expires_at l"
  shows "execute_durable_plan orc t p stops s = (Inr (AlreadyRunning, None), s) \<and>
    resume_plan orc t p stops s = (Inr (AlreadyRunning, None), s)"
  unfolding execute_durable_plan_def resume_plan_def
  by (intro conjI; cases rule: under_plan_lease_cases [of s p orc]; use assms in force)

theorem single_executor_witness:
  "execute_durable_plan (sample_orc []) ''t'' ''p'' []
     ((sample_sys [])\<lparr>sys_leases := [''p'' \<mapsto> \<lparr>pl_plan_id = ''p'', pl_owner = ''orch-2'',
        pl_fencing_token = 1, pl_acquired_at = 0, pl_expires_at = 5000\<rparr>]\<rparr>) =
   (Inr (AlreadyRunning, None),
     (sample_sys [])\<lparr>sys_leases := [''p'' \<mapsto> \<lparr>pl_plan_id = ''p'', pl_owner = ''orch-2'',
        pl_fencing_token = 1, pl_acquired_at = 0, pl_expires_at = 5000\<rparr>]\<rparr>)"
  using single_executor [of "(sample_sys [])\<lparr>sys_leases := [''p'' \<mapsto> \<lparr>pl_plan_id = ''p'', pl_owner = ''orch-2'',
        pl_fencing_token = 1, pl_acquired_at = 0, pl_expires_at = 5000\<rparr>]\<rparr>" "''p''"]
  by (simp add: sample_sys_def)

lemma lease_released:
  assumes "orc_instance_id orc \<noteq> []"
    and "\<forall>l. sys_leases s p = Some l \<longrightarrow> pl_expires_at l \<le> sys_now s"
    and "sys_leases (snd (under_plan_lease orc p body s)) p = Some l"
  shows "pl_owner l \<noteq> orc_instance_id orc"
  using assms im_release_not_owner [OF assms(1)]
  by (cases rule: under_plan_lease_cases [of s p orc body]) (force, auto)

text \<open>
  C38. The plan lease is released however the run ends, an escaping exception included: after
  execute or resume ran, whatever lease is stored for the plan is not owned by this instance.
\<close>

theorem plan_lease_always_released:
  assumes "orc_instance_id orc \<noteq> []"
    and "\<forall>l. sys_leases s p = Some l \<longrightarrow> pl_expires_at l \<le> sys_now s"
  shows "(\<forall>l. sys_leases (snd (execute_durable_plan orc t p stops s)) p = Some l \<longrightarrow>
      pl_owner l \<noteq> orc_instance_id orc) \<and>
    (\<forall>l. sys_leases (snd (resume_plan orc t p stops s)) p = Some l \<longrightarrow>
      pl_owner l \<noteq> orc_instance_id orc)"
  unfolding execute_durable_plan_def resume_plan_def
  by (intro conjI allI impI; erule lease_released [OF assms])

theorem plan_lease_always_released_witness:
  "map_option pl_owner (sys_leases (snd (execute_durable_plan (sample_orc [sample_adapter False True])
      ''t'' ''p'' [] (sample_sys [sample_step ''s1'' ''pending'' 0]))) ''p'') \<noteq> Some ''orch-1''"
proof -
  let ?orc = "sample_orc [sample_adapter False True]" and ?s = "sample_sys [sample_step ''s1'' ''pending'' 0]"
  have id: "orc_instance_id ?orc = ''orch-1''" by (simp add: sample_orc_def)
  then have ne: "orc_instance_id ?orc \<noteq> []" by simp
  have free: "\<forall>l. sys_leases ?s ''p'' = Some l \<longrightarrow> pl_expires_at l \<le> sys_now ?s"
    by (simp add: sample_sys_def)
  show ?thesis
    using plan_lease_always_released [OF ne free, of "''t''" "[]"] unfolding id by auto
qed

section \<open>At most one adapter compensates a step\<close>

lemma find_step_error: "find_step t i rows = Inl e \<Longrightarrow> e = MultipleResultsFound"
  unfolding find_step_def by (rule scalar_one_or_none_error)

lemma save_step_error:
  "fst (save_step st ex rows) = Inl e \<Longrightarrow>
   e \<in> {MultipleResultsFound, IntegrityError} \<or> (\<exists>m. e = StaleFencingTokenError m)"
  by (auto simp: save_step_def insert_step_def Let_def dest: find_step_error
      split: sum.splits option.splits if_splits)

lemma update_step_state_error:
  "update_step_state st ns x v n s = (Inl e, s') \<Longrightarrow>
   e \<in> {MultipleResultsFound, IntegrityError} \<or> (\<exists>m. e = StaleFencingTokenError m)"
  by (auto simp: update_step_state_def Let_def split_beta prod_eq_iff split: sum.splits
      dest: save_step_error)

lemma close_step_error:
  "close_step st state a b n s = (Inl e, s') \<Longrightarrow>
   e \<in> {MultipleResultsFound, IntegrityError} \<or> (\<exists>m. e = StaleFencingTokenError m)"
  by (auto simp: close_step_def eff_iff dest: update_step_state_error)

lemma execution_phase_total: "\<exists>x s'. execution_phase ad st c s = (Inr x, s')"
  by (auto simp: execution_phase_def ecatch_def split: prod.splits sum.splits)

lemma claimed_step_error:
  assumes "claimed_step ad st n c s = (Inl e, s')"
  shows "e \<in> {MultipleResultsFound, IntegrityError} \<or> (\<exists>m. e = StaleFencingTokenError m)"
proof -
  obtain x s1 where "execution_phase ad st c s = (Inr x, s1)" using execution_phase_total by blast
  with assms have "record_outcome ad st n x s1 = (Inl e, s')" by (simp add: claimed_step_def ebind_def)
  then show ?thesis
    by (auto simp: record_outcome_def eff_iff dest: close_step_error update_step_state_error
        split: sum.splits prod.splits)
qed

text \<open>The adapter gets past its gate: it does not refuse, and sees neither drift nor conflict.\<close>

definition claims_step ::
  "'w adapter \<Rightarrow> protected_action \<Rightarrow> recovery_evidence \<Rightarrow> 'w sys \<Rightarrow> compensation_action \<Rightarrow> 'w sys \<Rightarrow> bool" where
  "claims_step ad action ev s c s' \<longleftrightarrow>
     ad_captures_evidence ad \<and>
     (\<exists>s1 d s2 f s3.
        adapter_refuses ad action s = (Inr False, s1) \<and>
        ad_detect_drift ad action ev s1 = (Inr d, s2) \<and>
        dt_status d \<in> {NO_DRIFT, DR_INSUFFICIENT_EVIDENCE} \<and>
        ad_check_conflicts ad action ev s2 = (Inr f, s3) \<and>
        cf_status f \<in> {NO_CONFLICT, CF_INSUFFICIENT_EVIDENCE} \<and>
        ad_generate_compensation ad action ev s3 = (Inr c, s'))"

lemma claims_step_body:
  "claims_step ad action ev s c s' \<Longrightarrow>
   adapter_body ad st action ev n s = ebind (claimed_step ad st n c) (\<lambda>r. eret (Some r)) s'"
  by (auto simp: claims_step_def adapter_body_def ebind_def)

lemma claimed_attempt_answers:
  assumes "claims_step ad action ev s c s1"
  shows "fst (adapter_attempt ad st action ev n s) \<noteq> Inr None"
proof (cases "claimed_step ad st n c s1")
  case (Pair x s2)
  show ?thesis
  proof (cases x)
    case (Inr r)
    with Pair show ?thesis
      by (simp add: adapter_attempt_def ecatch_def claims_step_body [OF assms] ebind_def)
  next
    case (Inl e)
    with Pair claimed_step_error [of ad st n c s1 e s2] show ?thesis
      by (auto simp: adapter_attempt_def ecatch_def claims_step_body [OF assms] ebind_def
          split: prod.splits sum.splits)
  qed
qed

text \<open>
  A step is compensated by at most one adapter: once an adapter has claimed the step (it did
  not refuse, saw no drift and no conflict, and produced a compensation), the adapters registered
  after it are never consulted, whether the execution succeeds, fails or raises, any exception
  class included; so a failing execution cannot fall through to a second compensation.
\<close>

theorem claimed_step_not_retried_elsewhere:
  assumes "claims_step ad action ev s c s1"
  shows "adapter_loop (ad # ads) st action ev n s = adapter_loop [ad] st action ev n s"
  using claimed_attempt_answers [OF assms, of st n]
  by (auto simp: ebind_def split: prod.splits sum.splits option.splits)

theorem claimed_step_not_retried_elsewhere_witness:
  "adapter_loop [sample_adapter False True, sample_adapter True True] (sample_step ''s1'' ''pending'' 0)
      (step_action 0 ''t'' (sample_step ''s1'' ''pending'' 0) sample_evidence) sample_evidence (Some 1)
      (sample_sys [sample_step ''s1'' ''pending'' 0]) =
   adapter_loop [sample_adapter False True] (sample_step ''s1'' ''pending'' 0)
      (step_action 0 ''t'' (sample_step ''s1'' ''pending'' 0) sample_evidence) sample_evidence (Some 1)
      (sample_sys [sample_step ''s1'' ''pending'' 0])"
proof -
  have "\<exists>c s1. claims_step (sample_adapter False True)
      (step_action 0 ''t'' (sample_step ''s1'' ''pending'' 0) sample_evidence) sample_evidence
      (sample_sys [sample_step ''s1'' ''pending'' 0]) c s1"
    by (auto simp: claims_step_def sample_adapter_def adapter_refuses_def)
  then show ?thesis using claimed_step_not_retried_elsewhere by blast
qed

section \<open>The listing limit\<close>

lemma renew_own_lease:
  assumes "sys_leases s p = Some l" and "pl_owner l = orc_instance_id orc"
    and "sys_now s < pl_expires_at l"
  shows "renew_boundary orc p (Some l0) s =
    (Inr (Some (l\<lparr>pl_expires_at := sys_now s + orc_lease_ttl orc\<rparr>)),
     s\<lparr>sys_leases := (sys_leases s)(p \<mapsto> l\<lparr>pl_expires_at := sys_now s + orc_lease_ttl orc\<rparr>)\<rparr>)"
  using im.renew_own [where s = "sys_leases s" and chk = "sys_now s" and now = "sys_now s"
      and p = p and w = "orc_instance_id orc" and ttl = "orc_lease_ttl orc" and l = l] assms
  by (auto simp: renew_boundary_def Let_def split_beta)

text \<open>A run over steps that are all stored as succeeded and verified.\<close>

lemma execute_loop_all_done:
  assumes "\<forall>step \<in> set steps. ds_execution_state step = es_value ES_SUCCEEDED \<and> ds_verification_passed step"
    and "orc_env orc = (\<lambda>s. s)" and "0 < orc_lease_ttl orc" and "lp_lease st \<noteq> None"
    and "\<exists>l. sys_leases s p = Some l \<and> pl_owner l = orc_instance_id orc \<and> sys_now s < pl_expires_at l"
  shows "\<exists>st' s'. execute_loop orc t p stops n steps st s = (Inr (final_report n False [] st'), s') \<and>
    lp_completed st' = lp_completed st + length steps \<and> lp_failed st' = lp_failed st \<and>
    lp_unverified st' = lp_unverified st \<and> sys_steps s' = sys_steps s"
  using assms
proof (induction steps arbitrary: st s)
  case Nil
  then show ?case by auto
next
  case (Cons step rest)
  from Cons.prems(5) obtain l where l: "sys_leases s p = Some l" "pl_owner l = orc_instance_id orc"
    "sys_now s < pl_expires_at l" by blast
  from Cons.prems(4) obtain l0 where l0: "lp_lease st = Some l0" by blast
  let ?l = "l\<lparr>pl_expires_at := sys_now s + orc_lease_ttl orc\<rparr>"
  let ?st = "st\<lparr>lp_lease := Some ?l, lp_completed := lp_completed st + 1,
    lp_results := AList.update (ds_action_id step) (AlreadyCompleted (ds_execution_state step) True) (lp_results st)\<rparr>"
  have "execute_loop orc t p stops n (step # rest) st s =
      execute_loop orc t p stops n rest ?st (s\<lparr>sys_leases := (sys_leases s)(p \<mapsto> ?l)\<rparr>)"
    using Cons.prems(1,2) l0 by (simp add: renew_own_lease [OF l] Let_def)
  with Cons.IH [of ?st "s\<lparr>sys_leases := (sys_leases s)(p \<mapsto> ?l)\<rparr>"] Cons.prems l
  show ?case by auto
qed

definition done_step :: "nat \<Rightarrow> durable_execution_step" where
  "done_step i = (sample_step (replicate i CHR ''x'') ''succeeded'' 0)
     \<lparr>ds_execution_order := int i, ds_verification_passed := True\<rparr>"

definition long_plan :: "durable_execution_step list" where
  "long_plan = map done_step [0..<500] @
     [(sample_step (replicate 500 CHR ''x'') ''pending'' 0)\<lparr>ds_execution_order := 500\<rparr>]"

lemma sorted_upto: "sorted (map int [0..<n])"
  by (induction n) (auto simp: sorted_append)

lemma long_plan_listing: "list_by_plan ''t'' ''p'' 500 0 long_plan = (map done_step [0..<500], 500)"
proof -
  have "sql_select (\<lambda>r. ds_plan_id r = ''p'' \<and> ds_tenant_id r = ''t'') long_plan = long_plan"
    by (simp add: sql_select_def long_plan_def done_step_def sample_step_def filter_id_conv)
  moreover have "sort_key ds_execution_order long_plan = long_plan"
    using sorted_upto [of 500]
    by (intro sort_key_id_if_sorted) (auto simp: long_plan_def done_step_def o_def sorted_append)
  ultimately show ?thesis by (simp add: list_by_plan_def Let_def) (simp add: long_plan_def)
qed

lemma long_plan_unique: "pk ds_step_id long_plan"
  by (auto simp: pk_def long_plan_def done_step_def sample_step_def distinct_map inj_on_def o_def)

text \<open>
  The verified claim covers the first 500 steps only: the run lists at most 500 steps and
  compares its counters with that list, so a plan with a 501st step that was never executed is
  reported completed and \<open>EXECUTED_AND_VERIFIED\<close> while the step is still pending in the store.
\<close>

theorem verified_claim_stops_at_listing_limit:
  "\<exists>(orc :: nat orchestrator) s rep tok s'.
     pk ds_step_id (sys_steps s) \<and>
     execute_durable_plan orc ''t'' ''p'' [] s = (Inr (Reported rep, tok), s') \<and>
     er_status rep = ''completed'' \<and> er_verification_status rep = EXECUTED_AND_VERIFIED \<and>
     (\<exists>step \<in> set (sys_steps s'). ds_tenant_id step = ''t'' \<and> ds_plan_id step = ''p'' \<and>
        ds_execution_state step = es_value ES_PENDING)"
proof -
  let ?orc = "sample_orc []" and ?s = "sample_sys long_plan"
  let ?l = "fresh_lease Map.empty 1000 ''p'' ''orch-1'' 300"
  let ?started = "?s\<lparr>sys_leases := [''p'' \<mapsto> ?l]\<rparr>"
  let ?st = "\<lparr>lp_lease = Some ?l, lp_results = [], lp_completed = 0, lp_failed = 0, lp_blocked = 0,
    lp_manual = 0, lp_unverified = 0\<rparr>"
  have "\<exists>st' s'. execute_loop ?orc ''t'' ''p'' [stop_value ON_FIRST_FAILURE] 500
      (map done_step [0..<500]) ?st ?started = (Inr (final_report 500 False [] st'), s') \<and>
      lp_completed st' = lp_completed ?st + length (map done_step [0..<500]) \<and>
      lp_failed st' = lp_failed ?st \<and> lp_unverified st' = lp_unverified ?st \<and>
      sys_steps s' = sys_steps ?started"
    by (rule execute_loop_all_done)
      (auto simp: done_step_def sample_step_def sample_orc_def sample_sys_def fresh_lease_def)
  then obtain st' s' where run: "execute_loop ?orc ''t'' ''p'' [stop_value ON_FIRST_FAILURE] 500
      (map done_step [0..<500]) ?st ?started = (Inr (final_report 500 False [] st'), s')"
    and st': "lp_completed st' = 500" "lp_failed st' = 0" "lp_unverified st' = 0"
      "sys_steps s' = long_plan" by (auto simp: sample_sys_def)
  have "do_execute_durable_plan ?orc ''t'' ''p'' [] (Some ?l) ?started =
      (Inr (Reported (final_report 500 False [] st')), s')"
    using run by (simp add: do_execute_durable_plan_def sample_sys_def long_plan_listing)
  note body = this
  have "execute_durable_plan ?orc ''t'' ''p'' [] ?s =
      (Inr (Reported (final_report 500 False [] st'), Some 1),
       s'\<lparr>sys_leases := im_release ''p'' ''orch-1'' (sys_leases s')\<rparr>)"
  proof (cases rule: under_plan_lease_cases [of ?s "''p''" ?orc
      "\<lambda>lease. do_execute_durable_plan ?orc ''t'' ''p'' [] (Some lease)"])
    case (busy l)
    then show ?thesis by (simp add: sample_sys_def)
  next
    case (ran lease r s1)
    have "lease = ?l" and s0: "sys_leases ?s = Map.empty" and orc: "orc_instance_id ?orc = ''orch-1''"
      using ran(1) by (simp_all add: sample_sys_def sample_orc_def)
    with ran(3) body have "r = Inr (Reported (final_report 500 False [] st'))" "s1 = s'"
      by simp_all
    with ran(4) orc \<open>lease = ?l\<close> show ?thesis by (simp add: execute_durable_plan_def)
  qed
  moreover have "er_status (final_report 500 False [] st') = ''completed''"
    "er_verification_status (final_report 500 False [] st') = EXECUTED_AND_VERIFIED"
    using st' by (simp_all add: final_report_def Let_def)
  moreover have "\<exists>step \<in> set long_plan. ds_tenant_id step = ''t'' \<and> ds_plan_id step = ''p'' \<and>
      ds_execution_state step = es_value ES_PENDING"
    by (simp add: long_plan_def sample_step_def)
  moreover have "sys_steps (s'\<lparr>sys_leases := im_release ''p'' ''orch-1'' (sys_leases s')\<rparr>) = long_plan"
    "pk ds_step_id (sys_steps ?s)"
    using st' long_plan_unique by (simp_all add: sample_sys_def)
  ultimately show ?thesis by metis
qed

section \<open>Resuming\<close>

text \<open>
  What a completed resume says of a listed step: it was already stored as succeeded, or its
  outcome was unknown and an adapter confirmed a step of the same action, or this run executed
  it to SUCCEEDED.
\<close>

definition resumed :: "'w orchestrator \<Rightarrow> string \<Rightarrow> durable_execution_step \<Rightarrow> bool" where
  "resumed orc t step \<longleftrightarrow>
     ds_execution_state step = es_value ES_SUCCEEDED \<or>
     ds_execution_state step = es_value ES_UNKNOWN_EXTERNAL_OUTCOME \<and>
       (\<exists>step' s s'. ds_action_id step' = ds_action_id step \<and>
          verify_external_outcome orc t step' s = (True, s')) \<or>
     (\<exists>n r s s'. execute_single_step orc t step (Some n) s = (Inr r, s') \<and>
        sr_execution_state r = es_value ES_SUCCEEDED \<and> \<not> sr_lease_lost r)"

lemma verify_unknown_sound:
  assumes "verify_unknown orc t steps acc s = (res, s')" and "map_of res a = Some ''verified''"
    and "map_of acc a \<noteq> Some ''verified''"
  shows "\<exists>step s1 s2. ds_action_id step = a \<and> verify_external_outcome orc t step s1 = (True, s2)"
  using assms
proof (induction steps arbitrary: acc s)
  case Nil
  then show ?case by simp
next
  case (Cons step steps)
  obtain v s1 where v: "verify_external_outcome orc t step s = (v, s1)" by fastforce
  show ?case
  proof (cases "ds_action_id step = a \<and> v")
    case True
    with v show ?thesis by auto
  next
    case False
    with Cons v show ?thesis by (simp split: if_splits)
  qed
qed

lemma resume_final_completed:
  "rs_status (resume_final n ver stopped reason st s) = ''completed'' \<longleftrightarrow>
   rz_completed st = n \<and> rz_failed st = 0"
  by (simp add: resume_final_def resume_report_of_def)

definition unfinished :: "durable_execution_step list \<Rightarrow> nat" where
  "unfinished steps = length (filter (\<lambda>st. ds_execution_state st \<noteq> es_value ES_SUCCEEDED) steps)"

lemma unfinished_simps [simp]:
  "unfinished [] = 0"
  "unfinished (step # steps) =
     (if ds_execution_state step = es_value ES_SUCCEEDED then 0 else 1) + unfinished steps"
  by (simp_all add: unfinished_def)

lemma resume_loop_sound:
  assumes "resume_loop orc t p stops n ver steps st s = (Inr rep, s')"
    and "rs_status rep = ''completed''" and "rz_completed st + unfinished steps \<le> n"
    and "\<And>a. map_of ver a = Some ''verified'' \<Longrightarrow>
      \<exists>step s1 s2. ds_action_id step = a \<and> verify_external_outcome orc t step s1 = (True, s2)"
  shows "rz_completed st + unfinished steps = n \<and> (\<forall>step \<in> set steps. resumed orc t step)"
  using assms(1-3)
proof (induction steps arbitrary: st s)
  case Nil
  then show ?case by (auto simp: resume_final_completed)
next
  case (Cons step rest)
  note IH = Cons.IH [OF _ Cons.prems(2)]
  consider (finished) "ds_execution_state step = es_value ES_SUCCEEDED"
    | (confirmed) "ds_execution_state step = es_value ES_UNKNOWN_EXTERNAL_OUTCOME"
        "map_of ver (ds_action_id step) = Some ''verified''"
    | (run) "ds_execution_state step \<noteq> es_value ES_SUCCEEDED"
        "\<not> (ds_execution_state step = es_value ES_UNKNOWN_EXTERNAL_OUTCOME \<and>
            map_of ver (ds_action_id step) = Some ''verified'')" by blast
  then show ?case
  proof cases
    case finished
    with Cons.prems IH [of st "orc_env orc s"] show ?thesis by (simp add: resumed_def)
  next
    case confirmed
    then have "resumed orc t step" using assms(4) unfolding resumed_def by blast
    with confirmed Cons.prems IH [of "st\<lparr>rz_completed := rz_completed st + 1\<rparr>" "orc_env orc s"]
    show ?thesis by (simp add: Let_def)
  next
    case run
    note es_value.simps [simp del]
    let ?s = "orc_env orc s"
    obtain renewed leases where renew: "im_renew (sys_now ?s) (sys_now ?s) p (orc_instance_id orc)
        (orc_lease_ttl orc) (sys_leases ?s) = (renewed, leases)" by fastforce
    note unfold = resume_loop.simps(2) [of orc t p stops n ver step rest st s] run renew
    from Cons.prems(1,2) obtain l where l: "renewed = Some l"
      by (cases renewed) (auto simp: unfold Let_def resume_report_of_def)
    let ?ex = "execute_single_step orc t step (Some (pl_fencing_token l)) (?s\<lparr>sys_leases := leases\<rparr>)"
    from Cons.prems(1) obtain r s2 where ex: "?ex = (Inr r, s2)"
      by (cases ?ex; cases "fst ?ex") (auto simp: unfold l Let_def)
    let ?st = "st\<lparr>rz_results := AList.update (ds_action_id step) (StepReport r) (rz_results st)\<rparr>"
    have lost: "\<not> sr_lease_lost r"
      using Cons.prems(1,2) by (auto simp: unfold l ex Let_def resume_report_of_def)
    show ?thesis
    proof (cases "sr_execution_state r = es_value ES_SUCCEEDED")
      case True
      with Cons.prems(1) lost have
        "resume_loop orc t p stops n ver rest (?st\<lparr>rz_completed := rz_completed st + 1\<rparr>) s2 = (Inr rep, s')"
        by (simp add: unfold l ex Let_def)
      from IH [OF this] Cons.prems(3) run(1) True ex lost show ?thesis
        unfolding resumed_def by (simp add: Let_def) blast
    next
      case False
      let ?next = "\<lambda>st'. (\<exists>why. rep = resume_final n ver True why st' s2) \<or>
          resume_loop orc t p stops n ver rest st' s2 = (Inr rep, s')"
      from False Cons.prems(1) lost have "?next ?st \<or> ?next (?st\<lparr>rz_failed := rz_failed st + 1\<rparr>)"
        by (auto simp: unfold l ex Let_def split: if_splits)
      then show ?thesis
        using Cons.prems(2,3) run(1) IH [of ?st s2] IH [of "?st\<lparr>rz_failed := rz_failed st + 1\<rparr>" s2]
        by (auto simp: resume_final_completed)
    qed
  qed
qed

text \<open>
  A resume that reports \<open>completed\<close> accounts for every step it listed: each was already
  stored as succeeded, or its unknown outcome was confirmed by an adapter, or this run executed it
  to SUCCEEDED.
\<close>

theorem resume_completed_sound:
  assumes "resume_plan orc t p stops s = (Inr (Reported rep, tok), s')"
    and "rs_status rep = ''completed''"
  shows "\<forall>step \<in> set (fst (list_by_plan t p 500 0 (sys_steps s))). resumed orc t step"
proof (cases rule: under_plan_lease_cases [of s p orc "\<lambda>_. do_resume_plan orc t p stops"])
  case (busy l)
  with assms show ?thesis by (simp add: resume_plan_def)
next
  case (ran lease r s1)
  obtain steps n where ls: "list_by_plan t p 500 0 (sys_steps s) = (steps, n)" by fastforce
  let ?need = "filter (\<lambda>st. ds_execution_state st = es_value ES_UNKNOWN_EXTERNAL_OUTCOME) steps"
  let ?done = "filter (\<lambda>st. ds_execution_state st = es_value ES_SUCCEEDED) steps"
  let ?start = "s\<lparr>sys_leases := (sys_leases s)(p \<mapsto> lease)\<rparr>"
  obtain ver s2 where ver: "verify_unknown orc t ?need [] ?start = (ver, s2)" by fastforce
  from ran(4) assms(1) have "r = Inr (Reported rep)" by (auto simp: resume_plan_def split: sum.splits)
  with ran(3) ls ver have "resume_loop orc t p stops (length steps) ver steps
      \<lparr>rz_results = [], rz_completed = length ?done, rz_failed = 0\<rparr> s2 = (Inr rep, s1)"
    by (auto simp: do_resume_plan_def Let_def simp del: es_value.simps
        split: if_splits prod.splits sum.splits)
  moreover have "length ?done + unfinished steps = length steps"
    unfolding unfinished_def by (rule sum_length_filter_compl)
  ultimately show ?thesis
    using resume_loop_sound [of orc t p stops "length steps" ver steps _ s2 rep s1] assms(2) ls
      verify_unknown_sound [OF ver] by simp
qed

theorem resume_completed_sound_witness:
  "resumed (sample_orc [sample_adapter True True]) ''t'' (sample_step ''s1'' ''unknown_external_outcome'' 0)"
proof -
  have listed: "fst (list_by_plan ''t'' ''p'' 500 0
       (sys_steps (sample_sys [sample_step ''s1'' ''unknown_external_outcome'' 0]))) =
      [sample_step ''s1'' ''unknown_external_outcome'' 0]"
    by (simp add: list_by_plan_def sql_select_def sample_sys_def sample_step_def)
  have "\<exists>rep tok s'. resume_plan (sample_orc [sample_adapter True True]) ''t'' ''p'' []
      (sample_sys [sample_step ''s1'' ''unknown_external_outcome'' 0]) = (Inr (Reported rep, tok), s') \<and>
      rs_status rep = ''completed''"
    by (simp add: run_simps resume_plan_def do_resume_plan_def verify_external_outcome_def
        resume_final_def resume_report_of_def)
  then obtain rep tok s' where run: "resume_plan (sample_orc [sample_adapter True True]) ''t'' ''p'' []
      (sample_sys [sample_step ''s1'' ''unknown_external_outcome'' 0]) = (Inr (Reported rep, tok), s')"
      "rs_status rep = ''completed''" by blast
  from resume_completed_sound [OF run] show ?thesis unfolding listed by simp
qed

text \<open>
  Resuming repeats a compensation whose outcome is unknown and was not confirmed: the step is
  reported as \<open>requires_manual_verification\<close>, yet the same run executes it again, applies the
  compensation a second time, and can report the plan completed.
\<close>

theorem resume_repeats_unconfirmed_step:
  "\<exists>rep tok s'. resume_plan (sample_orc [sample_adapter True False]) ''t'' ''p'' []
       ((sample_sys [sample_step ''s1'' (es_value ES_UNKNOWN_EXTERNAL_OUTCOME) 0])\<lparr>sys_world := 1\<rparr>) =
       (Inr (Reported rep, tok), s') \<and>
     map_of (rs_verification_results rep) ''a'' = Some ''requires_manual_verification'' \<and>
     rs_status rep = ''completed'' \<and> sys_world s' = 2"
  by (simp add: run_simps resume_plan_def do_resume_plan_def verify_external_outcome_def
      resume_final_def resume_report_of_def)

section \<open>Creating plans\<close>

lemma map_zip_fst: "length xs = length ys \<Longrightarrow> map (\<lambda>x. f (fst x)) (zip xs ys) = map f xs"
  by (induction xs ys rule: list_induct2) simp_all

lemma create_steps_rows:
  assumes "unique_steps s" and "distinct (map snd aids)"
    and "\<forall>i \<in> set (map snd aids). i \<notin> ds_step_id ` set (sys_steps s)"
  shows "\<exists>news. create_steps t p topo aids s = (Inr news, s\<lparr>sys_steps := sys_steps s @ news\<rparr>) \<and>
    news = map (\<lambda>(a, i). new_step (sys_now s) t p topo i a (sys_evidence s (t, pa_action_id a))) aids"
  using assms
proof (induction aids arbitrary: s)
  case Nil
  then show ?case by simp
next
  case (Cons ai aids)
  obtain a i where ai: "ai = (a, i)" by fastforce
  let ?st = "new_step (sys_now s) t p topo i a (sys_evidence s (t, pa_action_id a))"
  have st: "ds_step_id ?st = i" "new_model ?st 0 = ?st" by (simp_all add: new_step_def new_model_def)
  have "step_rows (sys_steps s) (ds_step_id ?st) = None"
    using Cons.prems(3) st(1) by (simp add: tab_None_iff ai)
  with Cons.prems(1) have "save_step ?st None (sys_steps s) = (Inr ?st, sys_steps s @ [?st]) \<and>
      pk ds_step_id (sys_steps s @ [?st])"
    by (cases rule: save_step_cases [of "sys_steps s" ?st None]) (auto simp: st(2))
  moreover have "\<forall>j \<in> set (map snd aids). j \<notin> ds_step_id ` set (sys_steps (s\<lparr>sys_steps := sys_steps s @ [?st]\<rparr>))"
    using Cons.prems(2,3) st(1) by (auto simp: ai)
  ultimately show ?case
    using Cons.IH [of "s\<lparr>sys_steps := sys_steps s @ [?st]\<rparr>"] Cons.prems(2) by (auto simp: ai Let_def)
qed

text \<open>
  Creating a durable plan and listing it gives back exactly the steps that were created, in
  topological order: with unused step identifiers, one per action, and at most 500 actions, one
  pending, unverified, unfenced step per action is stored, and the listing is the created list.
\<close>

theorem created_plan_is_listed:
  assumes "unique_steps s" and "distinct ids" and "length ids = length actions"
    and "set ids \<inter> ds_step_id ` set (sys_steps s) = {}"
    and "\<forall>r \<in> set (sys_steps s). \<not> (ds_plan_id r = p \<and> ds_tenant_id r = t)"
    and "length actions \<le> 500"
  shows "\<exists>news. create_durable_plan ids t p actions topo s = (Inr news, s\<lparr>sys_steps := sys_steps s @ news\<rparr>) \<and>
    list_by_plan t p 500 0 (sys_steps s @ news) = (news, length actions) \<and>
    map ds_action_id news = map pa_action_id (sort_key (\<lambda>a. order_of topo (pa_action_id a)) actions) \<and>
    (\<forall>st \<in> set news. ds_execution_state st = es_value ES_PENDING \<and> \<not> ds_verification_passed st \<and>
       ds_write_fence st = 0)"
proof -
  let ?as = "sort_key (\<lambda>a. order_of topo (pa_action_id a)) actions"
  let ?new = "\<lambda>(a, i). new_step (sys_now s) t p topo i a (sys_evidence s (t, pa_action_id a))"
  let ?news = "map ?new (zip ?as ids)"
  have len: "length ?as = length ids" using assms(3) by simp
  then have ids: "map snd (zip ?as ids) = ids" by simp
  have create: "create_durable_plan ids t p actions topo s = (Inr ?news, s\<lparr>sys_steps := sys_steps s @ ?news\<rparr>)"
    using create_steps_rows [OF assms(1), of "zip ?as ids" t p topo, unfolded ids] assms(2,4)
    by (auto simp: create_durable_plan_def)
  have orders: "map ds_execution_order ?news = map (\<lambda>a. order_of topo (pa_action_id a)) ?as"
    and acts: "map ds_action_id ?news = map pa_action_id ?as"
    using map_zip_fst [OF len, of "\<lambda>a. order_of topo (pa_action_id a)"]
      map_zip_fst [OF len, of pa_action_id]
    by (simp_all add: new_step_def split_beta o_def)
  then have "sorted (map ds_execution_order ?news)" by (simp only: sorted_sort_key)
  then have "sort_key ds_execution_order ?news = ?news" by (rule sort_key_id_if_sorted)
  moreover have "sql_select (\<lambda>r. ds_plan_id r = p \<and> ds_tenant_id r = t) (sys_steps s @ ?news) = ?news"
    using assms(5) by (auto simp: sql_select_def filter_empty_conv filter_id_conv new_step_def)
  ultimately have "list_by_plan t p 500 0 (sys_steps s @ ?news) = (?news, length actions)"
    using assms(3,6) by (simp add: list_by_plan_def Let_def)
  moreover have "\<forall>st \<in> set ?news. ds_execution_state st = es_value ES_PENDING \<and>
      \<not> ds_verification_passed st \<and> ds_write_fence st = 0"
    by (auto simp: new_step_def)
  ultimately show ?thesis using create acts by blast
qed

theorem created_plan_is_listed_witness:
  "\<exists>news. create_durable_plan [''i1''] ''t'' ''p''
      [step_action 0 ''t'' (sample_step ''x'' ''pending'' 0) sample_evidence] [''a''] (sample_sys []) =
      (Inr news, (sample_sys [])\<lparr>sys_steps := sys_steps (sample_sys []) @ news\<rparr>) \<and> length news = 1"
proof -
  let ?a = "step_action 0 ''t'' (sample_step ''x'' ''pending'' 0) sample_evidence"
  have pre: "unique_steps (sample_sys [])" "set [''i1''] \<inter> ds_step_id ` set (sys_steps (sample_sys [])) = {}"
    "\<forall>r \<in> set (sys_steps (sample_sys [])). \<not> (ds_plan_id r = ''p'' \<and> ds_tenant_id r = ''t'')"
    by (simp_all add: sample_sys_def)
  have ids: "distinct [''i1'']" "length [''i1''] = length [?a]" "length [?a] \<le> 500" by simp_all
  obtain news where news: "create_durable_plan [''i1''] ''t'' ''p'' [?a] [''a''] (sample_sys []) =
      (Inr news, (sample_sys [])\<lparr>sys_steps := sys_steps (sample_sys []) @ news\<rparr>)"
    and acts: "map ds_action_id news = map pa_action_id (sort_key (\<lambda>a. order_of [''a''] (pa_action_id a)) [?a])"
    using created_plan_is_listed [OF pre(1) ids(1,2) pre(2,3) ids(3), of "[''a'']"] by blast
  have "length news = 1" using arg_cong [OF acts, of length] by simp
  with news show ?thesis by blast
qed

end
