(* ===== verification/Plan_Order.thy ===== *)
theory Plan_Order
  imports Recovery_Types
begin

text \<open>
  Which actions a recovery plan covers and in which order they are compensated:
  \<open>list_descendants\<close> of
  \<open>app/infrastructure/persistence/repositories/sqlalchemy_protected_action_repository.py\<close> and the
  static methods of \<open>RecoveryPlanningService\<close>
  (\<open>app/domain/services/recovery_planning_service.py\<close>) that order and classify the actions.
  Shown: the descendants are exactly the actions reachable over parent links, the topological
  order lists every action once and, when the parent links have no cycle, children before their
  parents, and the classification is fail-closed.
\<close>

section \<open>Descendants\<close>

text \<open>
  The rows of \<open>protected_actions\<close>; the children of an action are its tenant's rows with that
  \<open>parent_action_id\<close>.
\<close>

type_synonym action_table = "protected_action list"

definition children_of :: "action_table \<Rightarrow> string \<Rightarrow> string \<Rightarrow> protected_action list" where
  "children_of rows tenant_id parent_id =
     filter (\<lambda>a. pa_tenant_id a = tenant_id \<and> pa_parent_action_id a = Some parent_id) rows"

text \<open>
  The recursion \<open>_collect\<close> with its call stack explicit: the stack holds the children still to
  be looked at, innermost call first. A visited child is skipped; a new one is recorded and its
  own children go on top of the stack. Everything on the stack comes from the table; the test for
  it decides nothing in a run of \<open>list_descendants\<close> and makes the recursion total.
\<close>

function collect ::
  "action_table \<Rightarrow> string \<Rightarrow> protected_action list \<Rightarrow> protected_action list \<Rightarrow> protected_action list" where
  "collect rows tenant_id [] result = result"
| "collect rows tenant_id (child # stack) result =
     (if pa_action_id child \<in> pa_action_id ` set result \<or> child \<notin> set rows
      then collect rows tenant_id stack result
      else collect rows tenant_id (children_of rows tenant_id (pa_action_id child) @ stack)
             (result @ [child]))"
  by pat_completeness auto

text \<open>Every visit uses up one action identifier of the table.\<close>

termination
proof (relation "measures
    [\<lambda>(rows, t, stack, result). card (pa_action_id ` set rows - pa_action_id ` set result),
     \<lambda>(rows, t, stack, result). length stack]", goal_cases)
  case 1
  then show ?case by simp
next
  case (2 rows t child stack result)
  then show ?case by simp
next
  case (3 rows t child stack result)
  then have "card (pa_action_id ` set rows - pa_action_id ` set (result @ [child])) <
      card (pa_action_id ` set rows - pa_action_id ` set result)"
    by (intro psubset_card_mono) auto
  then show ?case by simp
qed

definition list_descendants ::
  "string \<Rightarrow> string \<Rightarrow> nat \<Rightarrow> nat \<Rightarrow> action_table \<Rightarrow> protected_action list \<times> nat" where
  "list_descendants tenant_id root_action_id limit offset rows =
     (let result = collect rows tenant_id (children_of rows tenant_id root_action_id) []
      in (take limit (drop offset result), length result))"

section \<open>Topological order\<close>

text \<open>\<open>id_to_parent\<close>: a later action with the same identifier overwrites an earlier one.\<close>

definition id_to_parent :: "protected_action list \<Rightarrow> (string, string option) dict" where
  "id_to_parent affected =
     fold (\<lambda>a d. AList.update (pa_action_id a) (pa_parent_action_id a) d) affected []"

definition child_counts :: "protected_action list \<Rightarrow> string \<Rightarrow> int" where
  "child_counts affected x =
     int (length (filter (\<lambda>a. truthy (pa_parent_action_id a) \<and> pa_parent_action_id a = Some x)
       affected))"

text \<open>\<open>parent is not None and parent in id_to_parent\<close>\<close>

definition known_parent :: "(string, string option) dict \<Rightarrow> string \<Rightarrow> string option" where
  "known_parent parents current =
     (case map_of parents current of
        Some (Some parent) \<Rightarrow> if map_of parents parent \<noteq> None then Some parent else None
      | _ \<Rightarrow> None)"

text \<open>Only a known action is followed by its parent, and it is visited once.\<close>

definition topo_measure :: "(string, string option) dict \<Rightarrow> string list \<Rightarrow> string list \<Rightarrow> nat" where
  "topo_measure parents queue order = 2 * card (fst ` set parents - set order) + length queue"

lemma topo_measure_visit:
  assumes "known_parent parents current \<noteq> None" and "current \<notin> set order"
  shows "card (fst ` set parents - set (order @ [current])) < card (fst ` set parents - set order)"
proof (rule psubset_card_mono)
  have "map_of parents current \<noteq> None"
    using assms(1) by (auto simp: known_parent_def split: option.splits)
  then have "current \<in> fst ` set parents" by (simp add: map_of_eq_None_iff)
  then show "fst ` set parents - set (order @ [current]) \<subset> fst ` set parents - set order"
    using assms(2) by auto
qed simp

lemma topo_measure_le:
  "card (fst ` set parents - set (order @ [current])) \<le> card (fst ` set parents - set order)"
  by (rule card_mono) auto

text \<open>The \<open>while queue\<close> loop; \<open>order\<close> also serves as the \<open>visited\<close> set.\<close>

function topo_loop ::
  "(string, string option) dict \<Rightarrow> (string \<Rightarrow> int) \<Rightarrow> string list \<Rightarrow> string list \<Rightarrow> string list" where
  "topo_loop parents counts [] order = order"
| "topo_loop parents counts (current # queue) order =
     (if current \<in> set order then topo_loop parents counts queue order
      else
        (case known_parent parents current of
           None \<Rightarrow> topo_loop parents counts queue (order @ [current])
         | Some parent \<Rightarrow>
             topo_loop parents (counts(parent := counts parent - 1))
               (if counts parent - 1 = 0 then queue @ [parent] else queue)
               (order @ [current])))"
  by pat_completeness auto

termination
proof (relation "measure (\<lambda>(parents, counts, queue, order). topo_measure parents queue order)", goal_cases)
  case (3 parents counts current queue order)
  then show ?case using topo_measure_le [of parents order current] by (simp add: topo_measure_def)
next
  case (4 parents counts current queue order x)
  then show ?case
    using topo_measure_visit [of parents current order] by (simp add: topo_measure_def)
qed (simp_all add: topo_measure_def)

definition compute_topological_order :: "protected_action list \<Rightarrow> string list" where
  "compute_topological_order affected =
     (let parents = id_to_parent affected;
          counts = child_counts affected;
          queue = [pa_action_id a. a \<leftarrow> affected, counts (pa_action_id a) = 0];
          order = topo_loop parents counts queue []
      in order @ [pa_action_id a. a \<leftarrow> affected, pa_action_id a \<notin> set order])"

text \<open>
  \<open>order_map.get(aid, len(order_map))\<close>: the last index of the action; the number of distinct
  identifiers for one that does not occur.
\<close>

definition topo_index :: "string list \<Rightarrow> string \<Rightarrow> nat" where
  "topo_index topo_order aid =
     (case map_of (rev (zip topo_order [0..<length topo_order])) aid of
        None \<Rightarrow> card (set topo_order) | Some i \<Rightarrow> i)"

definition order_actions_by_topological ::
  "protected_action list \<Rightarrow> string list \<Rightarrow> protected_action list" where
  "order_actions_by_topological affected topo_order =
     sort_key (\<lambda>a. topo_index topo_order (pa_action_id a)) affected"

section \<open>Classification\<close>

definition determine_stop_conditions :: "protected_action list \<Rightarrow> string list" where
  "determine_stop_conditions affected =
     [stop_value ON_FIRST_FAILURE] @
     (if \<exists>a \<in> set affected. normalize_rev (pa_reversibility a) = IRREVERSIBLE
      then [stop_value ON_BLOCKING_CONFLICT] else [])"

definition classify_reversibility :: "protected_action \<Rightarrow> protected_action list \<Rightarrow> reversibility" where
  "classify_reversibility action descendants =
     (let rs = map (\<lambda>a. normalize_rev (pa_reversibility a)) (action # descendants)
      in if IRREVERSIBLE \<in> set rs then IRREVERSIBLE
         else if CONDITIONALLY_REVERSIBLE \<in> set rs then CONDITIONALLY_REVERSIBLE
         else if (\<forall>r \<in> set rs. r = AUTOMATICALLY_REVERSIBLE) then AUTOMATICALLY_REVERSIBLE
         else if MANUALLY_RECOVERABLE \<in> set rs then MANUALLY_RECOVERABLE
         else REV_UNKNOWN)"

definition step_requires_approval :: "(string, string) dict \<Rightarrow> bool" where
  "step_requires_approval step \<longleftrightarrow>
     (case map_of step ''requires_approval'' of None \<Rightarrow> False | Some v \<Rightarrow> lower v = ''true'')"

definition determine_outcome ::
  "reversibility \<Rightarrow> (string, string) dict list \<Rightarrow> recovery_outcome" where
  "determine_outcome reversibility steps =
     (let n = normalize_rev reversibility
      in if n = IRREVERSIBLE then NOT_REVERSIBLE
         else if n = REV_UNKNOWN then RO_UNKNOWN
         else if n = MANUALLY_RECOVERABLE then REQUIRES_HUMAN_APPROVAL
         else if (\<exists>step \<in> set steps. step_requires_approval step) then REQUIRES_HUMAN_APPROVAL
         else if is_conditional n then REQUIRES_HUMAN_APPROVAL
         else SAFE_AUTOMATIC)"

text \<open>\<open>StopCondition(sc)\<close> under \<open>contextlib.suppress(ValueError)\<close>: unknown strings are dropped.\<close>

definition all_stop_conditions :: "stop_condition list" where
  "all_stop_conditions =
     [ON_FIRST_FAILURE, ON_BLOCKING_CONFLICT, ON_BLOCKING_DRIFT, CONTINUE_ON_FAILURE,
      REQUIRE_ALL_APPROVED]"

definition normalize_stop_conditions :: "string list \<Rightarrow> stop_condition list" where
  "normalize_stop_conditions scs =
     [c. sc \<leftarrow> scs, c \<leftarrow> all_stop_conditions, stop_value c = sc]"

section \<open>Descendants are reachable actions\<close>

inductive descendant :: "action_table \<Rightarrow> string \<Rightarrow> string \<Rightarrow> string \<Rightarrow> bool"
  for rows t start where
  child: "c \<in> set (children_of rows t start) \<Longrightarrow> descendant rows t start (pa_action_id c)"
| step: "descendant rows t start x \<Longrightarrow> c \<in> set (children_of rows t x) \<Longrightarrow>
    descendant rows t start (pa_action_id c)"

abbreviation action_ids :: "protected_action list \<Rightarrow> string set" where
  "action_ids xs \<equiv> pa_action_id ` set xs"

lemma children_rows: "c \<in> set (children_of rows t x) \<Longrightarrow> c \<in> set rows \<and> pa_tenant_id c = t"
  by (simp add: children_of_def)

lemma collect_sound:
  assumes "\<forall>c \<in> set stack \<union> set result. c \<in> set rows \<and> pa_tenant_id c = t \<and>
      descendant rows t start (pa_action_id c)"
  shows "\<forall>c \<in> set (collect rows t stack result). c \<in> set rows \<and> pa_tenant_id c = t \<and>
      descendant rows t start (pa_action_id c)"
  using assms
proof (induction rows t stack result rule: collect.induct)
  case (1 rows t result)
  then show ?case by simp
next
  case (2 rows t child stack result)
  show ?case
  proof (cases "pa_action_id child \<in> action_ids result \<or> child \<notin> set rows")
    case True
    with 2(1) [OF True] 2(3) show ?thesis by simp
  next
    case False
    have "descendant rows t start (pa_action_id child)" using 2(3) by simp
    then have kids: "\<forall>c \<in> set (children_of rows t (pa_action_id child)). c \<in> set rows \<and>
        pa_tenant_id c = t \<and> descendant rows t start (pa_action_id c)"
      using descendant.step children_rows by blast
    have "\<forall>c \<in> set (children_of rows t (pa_action_id child) @ stack) \<union> set (result @ [child]).
        c \<in> set rows \<and> pa_tenant_id c = t \<and> descendant rows t start (pa_action_id c)"
    proof
      fix c assume "c \<in> set (children_of rows t (pa_action_id child) @ stack) \<union> set (result @ [child])"
      then have "c \<in> set (children_of rows t (pa_action_id child)) \<or> c \<in> set (child # stack) \<union> set result"
        by auto
      then show "c \<in> set rows \<and> pa_tenant_id c = t \<and> descendant rows t start (pa_action_id c)"
        using kids 2(3) by blast
    qed
    from 2(2) [OF False this] False show ?thesis by simp
  qed
qed

lemma collect_distinct:
  "distinct (map pa_action_id result) \<Longrightarrow> distinct (map pa_action_id (collect rows t stack result))"
  by (induction rows t stack result rule: collect.induct) auto

lemma collect_closed:
  assumes "set stack \<subseteq> set rows"
    and "\<forall>x \<in> insert start (action_ids result).
      action_ids (children_of rows t x) \<subseteq> action_ids result \<union> action_ids stack"
  shows "\<forall>x \<in> insert start (action_ids (collect rows t stack result)).
      action_ids (children_of rows t x) \<subseteq> action_ids (collect rows t stack result)"
  using assms
proof (induction rows t stack result rule: collect.induct)
  case (1 rows t result)
  then show ?case by simp
next
  case (2 rows t child stack result)
  show ?case
  proof (cases "pa_action_id child \<in> action_ids result \<or> child \<notin> set rows")
    case True
    then have "action_ids result \<union> action_ids (child # stack) = action_ids result \<union> action_ids stack"
      using 2(3) by auto
    with 2(1) [OF True] 2(3,4) True show ?thesis by simp
  next
    case False
    moreover have "set (children_of rows t (pa_action_id child) @ stack) \<subseteq> set rows"
      using 2(3) children_rows by auto
    moreover have "\<forall>x \<in> insert start (action_ids (result @ [child])).
        action_ids (children_of rows t x) \<subseteq>
          action_ids (result @ [child]) \<union> action_ids (children_of rows t (pa_action_id child) @ stack)"
    proof
      fix x assume "x \<in> insert start (action_ids (result @ [child]))"
      then consider "x \<in> insert start (action_ids result)" | "x = pa_action_id child" by auto
      then show "action_ids (children_of rows t x) \<subseteq>
          action_ids (result @ [child]) \<union> action_ids (children_of rows t (pa_action_id child) @ stack)"
      proof cases
        case 1
        with 2(4) have "action_ids (children_of rows t x) \<subseteq> action_ids result \<union> action_ids (child # stack)"
          by blast
        then show ?thesis by auto
      qed auto
    qed
    ultimately show ?thesis using 2(2) by simp
  qed
qed

lemma collect_complete:
  assumes "descendant rows t start x"
  shows "x \<in> action_ids (collect rows t (children_of rows t start) [])"
proof -
  let ?R = "collect rows t (children_of rows t start) []"
  have closed: "\<forall>x \<in> insert start (action_ids ?R). action_ids (children_of rows t x) \<subseteq> action_ids ?R"
    by (rule collect_closed) (auto dest: children_rows)
  from assms show ?thesis
  proof induction
    case (child c)
    with closed show ?case by blast
  next
    case (step x c)
    with closed show ?case by blast
  qed
qed

section \<open>The topological order\<close>

definition kids :: "(string, string option) dict \<Rightarrow> string \<Rightarrow> string set" where
  "kids parents x = {c. map_of parents c = Some (Some x)}"

lemma finite_kids [simp]: "finite (kids parents x)"
proof -
  have "kids parents x \<subseteq> fst ` set parents" by (force simp: kids_def dest: map_of_SomeD)
  then show ?thesis by (rule finite_subset) simp
qed

text \<open>
  The loop invariant: the queue and the order list known actions once; the count of an action is
  the number of its children not yet ordered; an action is ordered or queued exactly when all its
  children are ordered; and every ordered action comes after its children.
\<close>

definition topo_inv ::
  "(string, string option) dict \<Rightarrow> (string \<Rightarrow> int) \<Rightarrow> string list \<Rightarrow> string list \<Rightarrow> bool" where
  "topo_inv parents counts queue order \<longleftrightarrow>
     distinct (order @ queue) \<and> set (order @ queue) \<subseteq> dom (map_of parents) \<and>
     (\<forall>x \<in> dom (map_of parents). counts x = int (card (kids parents x - set order))) \<and>
     (\<forall>x \<in> dom (map_of parents). kids parents x \<subseteq> set order \<longleftrightarrow> x \<in> set (order @ queue)) \<and>
     (\<forall>xs x ys. order = xs @ x # ys \<longrightarrow> kids parents x \<subseteq> set xs)"

lemma snoc_split:
  "order @ [c] = xs @ x # ys \<longleftrightarrow> (ys = [] \<and> xs = order \<and> x = c) \<or> (\<exists>zs. ys = zs @ [c] \<and> order = xs @ x # zs)"
  by (cases ys rule: rev_cases) auto

lemma topo_invD:
  assumes "topo_inv parents counts (c # queue) order"
  shows "distinct (order @ c # queue)" and "set (order @ c # queue) \<subseteq> dom (map_of parents)"
    and "x \<in> dom (map_of parents) \<Longrightarrow> counts x = int (card (kids parents x - set order))"
    and "x \<in> dom (map_of parents) \<Longrightarrow>
      kids parents x \<subseteq> set order \<longleftrightarrow> x \<in> set (order @ c # queue)"
    and "order = xs @ x # ys \<Longrightarrow> kids parents x \<subseteq> set xs"
  using assms unfolding topo_inv_def by blast+

lemma topo_inv_head:
  assumes "topo_inv parents counts (c # queue) order"
  shows "c \<in> dom (map_of parents)" "c \<notin> set order" "kids parents c \<subseteq> set order"
proof -
  from topo_invD(1,2) [OF assms] show "c \<in> dom (map_of parents)" "c \<notin> set order" by simp_all
  then show "kids parents c \<subseteq> set order" using topo_invD(4) [OF assms, of c] by simp
qed

lemma topo_inv_ordered:
  assumes "topo_inv parents counts (c # queue) order"
  shows "\<forall>xs x ys. order @ [c] = xs @ x # ys \<longrightarrow> kids parents x \<subseteq> set xs"
proof (intro allI impI)
  fix xs x ys
  assume "order @ [c] = xs @ x # ys"
  then consider "xs = order" "x = c" | zs where "order = xs @ x # zs" by (auto simp: snoc_split)
  then show "kids parents x \<subseteq> set xs"
    using topo_inv_head(3) [OF assms] topo_invD(5) [OF assms] by cases blast+
qed

lemma topo_inv_leaf:
  assumes inv: "topo_inv parents counts (c # queue) order" and "known_parent parents c = None"
  shows "topo_inv parents counts queue (order @ [c])"
proof -
  have none: "c \<notin> kids parents x" if "x \<in> dom (map_of parents)" for x
    using assms(2) that by (auto simp: kids_def known_parent_def)
  show ?thesis
    unfolding topo_inv_def
  proof (intro conjI ballI)
    fix x assume x: "x \<in> dom (map_of parents)"
    have "kids parents x - set (order @ [c]) = kids parents x - set order" using none [OF x] by auto
    then show "counts x = int (card (kids parents x - set (order @ [c])))"
      using topo_invD(3) [OF inv x] by simp
    have "kids parents x \<subseteq> set (order @ [c]) \<longleftrightarrow> kids parents x \<subseteq> set order" using none [OF x] by auto
    then show "kids parents x \<subseteq> set (order @ [c]) \<longleftrightarrow> x \<in> set ((order @ [c]) @ queue)"
      using topo_invD(4) [OF inv x] by simp
  qed (use topo_invD(1,2) [OF inv] topo_inv_ordered [OF inv] in simp_all)
qed

lemma topo_inv_parent:
  assumes inv: "topo_inv parents counts (c # queue) order" and "known_parent parents c = Some p"
  shows "topo_inv parents (counts(p := counts p - 1))
    (if counts p - 1 = 0 then queue @ [p] else queue) (order @ [c])"
    (is "topo_inv _ ?counts ?queue _")
proof -
  have p: "map_of parents c = Some (Some p)" "p \<in> dom (map_of parents)"
    using assms(2) by (auto simp: known_parent_def split: option.splits if_splits)
  then have cp: "c \<in> kids parents p" and others: "\<And>x. x \<noteq> p \<Longrightarrow> c \<notin> kids parents x"
    by (auto simp: kids_def)
  note c = topo_inv_head [OF inv]
  have new: "p \<notin> set (order @ c # queue)" using topo_invD(4) [OF inv p(2)] cp c(2) by blast
  have "kids parents p - set (order @ [c]) = kids parents p - set order - {c}" by auto
  then have "card (kids parents p - set order) = Suc (card (kids parents p - set (order @ [c])))"
    using card_Suc_Diff1 [of "kids parents p - set order" c] cp c(2) by simp
  then have cnt: "counts p - 1 = int (card (kids parents p - set (order @ [c])))"
    using topo_invD(3) [OF inv p(2)] by simp
  then have zero: "counts p - 1 = 0 \<longleftrightarrow> kids parents p \<subseteq> set (order @ [c])"
    by (simp only: of_nat_eq_0_iff card_eq_0_iff) auto
  show ?thesis
    unfolding topo_inv_def
  proof (intro conjI ballI)
    fix x assume x: "x \<in> dom (map_of parents)"
    show "?counts x = int (card (kids parents x - set (order @ [c])))"
    proof (cases "x = p")
      case False
      then have "kids parents x - set (order @ [c]) = kids parents x - set order"
        using others by auto
      with False show ?thesis using topo_invD(3) [OF inv x] by simp
    qed (simp add: cnt)
    show "kids parents x \<subseteq> set (order @ [c]) \<longleftrightarrow> x \<in> set ((order @ [c]) @ ?queue)"
    proof (cases "x = p")
      case True
      with zero new show ?thesis by simp
    next
      case False
      then have "kids parents x \<subseteq> set (order @ [c]) \<longleftrightarrow> kids parents x \<subseteq> set order"
        using others by auto
      with topo_invD(4) [OF inv x] False show ?thesis by simp
    qed
  qed (use topo_invD(1,2) [OF inv] topo_inv_ordered [OF inv] new p(2) in auto)
qed

lemma topo_loop_inv:
  assumes "topo_inv parents counts queue order"
  shows "\<exists>counts'. topo_inv parents counts' [] (topo_loop parents counts queue order)"
  using assms
proof (induction parents counts queue order rule: topo_loop.induct)
  case (1 parents counts order)
  then show ?case by auto
next
  case (2 parents counts c queue order)
  note c = topo_inv_head(2) [OF 2(4)]
  show ?case
  proof (cases "known_parent parents c")
    case None
    with 2(2) [OF c None] topo_inv_leaf [OF 2(4)] c show ?thesis by simp
  next
    case (Some p)
    from c Some have "topo_loop parents counts (c # queue) order =
        topo_loop parents (counts(p := counts p - 1))
          (if counts p - 1 = 0 then queue @ [p] else queue) (order @ [c])"
      by (simp only: topo_loop.simps if_False option.case)
    with 2(3) [OF c Some topo_inv_parent [OF 2(4) Some]] show ?thesis by (simp only:)
  qed
qed

lemma comprehension_filter: "[f a. a \<leftarrow> xs, P a] = map f (filter P xs)"
  by (induction xs) auto

text \<open>With distinct identifiers the dictionary is the parent of each action.\<close>

lemma id_to_parent_get:
  assumes "distinct (map pa_action_id affected)"
  shows "map_of (id_to_parent affected) =
    map_of (map (\<lambda>a. (pa_action_id a, pa_parent_action_id a)) affected)"
proof -
  have "map_of (fold (\<lambda>a d. AList.update (pa_action_id a) (pa_parent_action_id a) d) xs d) =
      map_of d ++ map_of (map (\<lambda>a. (pa_action_id a, pa_parent_action_id a)) xs)"
    if "distinct (map pa_action_id xs)" for xs d
    using that
  proof (induction xs arbitrary: d)
    case Nil
    then show ?case by simp
  next
    case (Cons a xs)
    then have "map_of (map (\<lambda>a. (pa_action_id a, pa_parent_action_id a)) xs) (pa_action_id a) = None"
      by (simp add: map_of_eq_None_iff image_image)
    with Cons show ?case by (auto simp: fun_eq_iff map_add_def update_conv' split: option.split)
  qed
  from this [OF assms, of "[]"] show ?thesis by (simp add: id_to_parent_def)
qed

lemma parent_of_action:
  assumes "distinct (map pa_action_id affected)"
  shows "map_of (id_to_parent affected) x = Some p \<longleftrightarrow>
    (\<exists>a \<in> set affected. pa_action_id a = x \<and> pa_parent_action_id a = p)"
  unfolding id_to_parent_get [OF assms]
  using assms by (subst map_of_eq_Some_iff) (auto simp: o_def)

lemma known_actions:
  assumes "distinct (map pa_action_id affected)"
  shows "dom (map_of (id_to_parent affected)) = action_ids affected"
  by (auto simp: dom_def parent_of_action [OF assms])

lemma kids_of_action:
  assumes "distinct (map pa_action_id affected)"
  shows "kids (id_to_parent affected) x = pa_action_id ` {a \<in> set affected. pa_parent_action_id a = Some x}"
  by (auto simp: kids_def parent_of_action [OF assms])

lemma child_counts_kids:
  assumes "distinct (map pa_action_id affected)" and "x \<noteq> []"
  shows "child_counts affected x = int (card (kids (id_to_parent affected) x))"
proof -
  have "filter (\<lambda>a. truthy (pa_parent_action_id a) \<and> pa_parent_action_id a = Some x) affected =
      filter (\<lambda>a. pa_parent_action_id a = Some x) affected"
    using assms(2) by (intro filter_cong) auto
  moreover have "distinct (map pa_action_id (filter (\<lambda>a. pa_parent_action_id a = Some x) affected))"
    using assms(1) by (simp add: distinct_map_filter)
  then have "length (filter (\<lambda>a. pa_parent_action_id a = Some x) affected) =
      card (action_ids (filter (\<lambda>a. pa_parent_action_id a = Some x) affected))"
    using distinct_card by fastforce
  ultimately show ?thesis
    by (simp add: child_counts_def kids_of_action [OF assms(1)])
qed

lemma topo_inv_init:
  assumes "distinct (map pa_action_id affected)" and "[] \<notin> action_ids affected"
  shows "topo_inv (id_to_parent affected) (child_counts affected)
    [pa_action_id a. a \<leftarrow> affected, child_counts affected (pa_action_id a) = 0] []"
proof -
  let ?P = "id_to_parent affected" and ?C = "child_counts affected"
  let ?q = "[pa_action_id a. a \<leftarrow> affected, ?C (pa_action_id a) = 0]"
  have q: "?q = map pa_action_id (filter (\<lambda>a. ?C (pa_action_id a) = 0) affected)"
    by (rule comprehension_filter)
  have C: "?C x = int (card (kids ?P x))" if "x \<in> action_ids affected" for x
    using child_counts_kids [OF assms(1)] assms(2) that by metis
  have "distinct ?q" using assms(1) unfolding q by (simp add: distinct_map_filter)
  moreover have "kids ?P x \<subseteq> {} \<longleftrightarrow> x \<in> set ?q" if "x \<in> action_ids affected" for x
    using C [OF that] that unfolding q by auto
  ultimately show ?thesis
    unfolding topo_inv_def known_actions [OF assms(1)] using C unfolding q by auto
qed

text \<open>The parent links inside the affected actions.\<close>

definition parent_links :: "protected_action list \<Rightarrow> (string \<times> string) set" where
  "parent_links affected =
     {(pa_action_id c, pa_action_id a) | c a. c \<in> set affected \<and> a \<in> set affected \<and>
        pa_parent_action_id c = Some (pa_action_id a)}"

lemma finite_parent_links: "finite (parent_links affected)"
proof -
  have "parent_links affected \<subseteq> action_ids affected \<times> action_ids affected"
    by (auto simp: parent_links_def)
  then show ?thesis by (rule finite_subset) simp
qed

lemma topo_order_parts:
  assumes "distinct (map pa_action_id affected)" and "[] \<notin> action_ids affected"
  obtains order where
    "compute_topological_order affected =
       order @ map pa_action_id (filter (\<lambda>a. pa_action_id a \<notin> set order) affected)"
    "distinct order" "set order \<subseteq> action_ids affected"
    "\<forall>x \<in> action_ids affected. kids (id_to_parent affected) x \<subseteq> set order \<longleftrightarrow> x \<in> set order"
    "\<forall>xs x ys. order = xs @ x # ys \<longrightarrow> kids (id_to_parent affected) x \<subseteq> set xs"
proof -
  let ?order = "topo_loop (id_to_parent affected) (child_counts affected)
    [pa_action_id a. a \<leftarrow> affected, child_counts affected (pa_action_id a) = 0] []"
  have rest: "[pa_action_id a. a \<leftarrow> affected, pa_action_id a \<notin> set ?order] =
      map pa_action_id (filter (\<lambda>a. pa_action_id a \<notin> set ?order) affected)"
    by (rule comprehension_filter)
  from topo_loop_inv [OF topo_inv_init [OF assms]] obtain counts where
    "topo_inv (id_to_parent affected) counts [] ?order" by blast
  with that [of ?order] rest known_actions [OF assms(1)] show ?thesis
    unfolding topo_inv_def compute_topological_order_def by (simp add: Let_def)
qed

lemma topo_order_acyclic:
  assumes dist: "distinct (map pa_action_id affected)" and "[] \<notin> action_ids affected"
    and "acyclic (parent_links affected)"
    and split: "compute_topological_order affected = xs @ x # ys"
    and c: "c \<in> set affected" "pa_parent_action_id c = Some x"
  shows "pa_action_id c \<in> set xs"
proof -
  obtain order where eq: "compute_topological_order affected =
      order @ map pa_action_id (filter (\<lambda>a. pa_action_id a \<notin> set order) affected)"
    and "distinct order" "set order \<subseteq> action_ids affected"
    and iff: "\<forall>x \<in> action_ids affected. kids (id_to_parent affected) x \<subseteq> set order \<longleftrightarrow> x \<in> set order"
    and ord: "\<forall>xs x ys. order = xs @ x # ys \<longrightarrow> kids (id_to_parent affected) x \<subseteq> set xs"
    by (rule topo_order_parts [OF assms(1,2)])
  have wf: "wf (parent_links affected)"
    using finite_acyclic_wf [OF finite_parent_links assms(3)] .
  have all: "x \<in> set order" if "x \<in> action_ids affected" for x
    using that
  proof (induction x rule: wf_induct_rule [OF wf])
    case (1 x)
    have "kids (id_to_parent affected) x \<subseteq> set order"
    proof
      fix y assume "y \<in> kids (id_to_parent affected) x"
      then have "(y, x) \<in> parent_links affected" "y \<in> action_ids affected"
        using 1(2) unfolding kids_of_action [OF dist] parent_links_def by auto
      then show "y \<in> set order" by (rule 1(1))
    qed
    with iff 1(2) show ?case by blast
  qed
  then have "compute_topological_order affected = order" by (simp add: eq filter_empty_conv)
  with ord split have "kids (id_to_parent affected) x \<subseteq> set xs" by blast
  with c kids_of_action [OF dist, of x] show ?thesis by auto
qed

lemma topo_order_permutes:
  assumes "distinct (map pa_action_id affected)" and "[] \<notin> action_ids affected"
  shows "distinct (compute_topological_order affected)"
    and "set (compute_topological_order affected) = action_ids affected"
proof -
  obtain order where "compute_topological_order affected =
      order @ map pa_action_id (filter (\<lambda>a. pa_action_id a \<notin> set order) affected)"
    and "distinct order" "set order \<subseteq> action_ids affected"
    by (rule topo_order_parts [OF assms])
  moreover have "distinct (map pa_action_id (filter (\<lambda>a. pa_action_id a \<notin> set order) affected))"
    using assms(1) by (simp add: distinct_map_filter)
  ultimately show "distinct (compute_topological_order affected)"
    "set (compute_topological_order affected) = action_ids affected" by auto
qed

section \<open>Properties\<close>

text \<open>
  The topological order of a plan is a reordering of its actions: every affected action is
  listed exactly once and nothing else is listed, whether or not the parent links form a cycle.
\<close>

theorem topological_order_permutes:
  assumes "distinct (map pa_action_id affected)" and "[] \<notin> pa_action_id ` set affected"
  shows "distinct (compute_topological_order affected) \<and>
    set (compute_topological_order affected) = pa_action_id ` set affected"
  using topo_order_permutes [OF assms] by simp

definition sample_action :: "string \<Rightarrow> string option \<Rightarrow> reversibility \<Rightarrow> protected_action" where
  "sample_action i parent r =
     \<lparr>pa_action_id = i, pa_tenant_id = ''t'', pa_actor_user_id = None, pa_agent_id = ''g'',
      pa_authority_grant_id = None, pa_tool = ''db'', pa_resource = ''r'',
      pa_action_type = ''query'', pa_risk_score = 0, pa_policy_version = None,
      pa_correlation_id = [], pa_parent_action_id = parent, pa_workflow_id = None,
      pa_reversibility = r, pa_before_state_ref = None, pa_before_state_snapshot = None,
      pa_after_state_ref = None, pa_tool_arguments = [], pa_status = AS_EXECUTED,
      pa_decision_reason = [], pa_evaluated_at = None, pa_executed_at = None,
      pa_created_at = 0\<rparr>"

lemma sample_action_sel [simp]:
  "pa_action_id (sample_action i parent r) = i"
  "pa_tenant_id (sample_action i parent r) = ''t''"
  "pa_parent_action_id (sample_action i parent r) = parent"
  "pa_reversibility (sample_action i parent r) = r"
  by (simp_all add: sample_action_def)

theorem topological_order_permutes_witness:
  "set (compute_topological_order [sample_action ''a'' (Some ''b'') REVERSIBLE,
     sample_action ''b'' (Some ''a'') REVERSIBLE]) = {''a'', ''b''}"
  using topological_order_permutes [of "[sample_action ''a'' (Some ''b'') REVERSIBLE,
     sample_action ''b'' (Some ''a'') REVERSIBLE]"] by simp

lemma topo_index_nth: "distinct topo \<Longrightarrow> i < length topo \<Longrightarrow> topo_index topo (topo ! i) = i"
proof -
  assume topo: "distinct topo" "i < length topo"
  let ?z = "zip topo [0..<length topo]"
  have "distinct (map fst (rev ?z))" using topo(1) by (simp flip: rev_map)
  moreover have "(topo ! i, i) \<in> set (rev ?z)" using topo(2) by (force simp: set_zip)
  ultimately show ?thesis by (simp add: topo_index_def)
qed

lemma map_topo_index: "distinct topo \<Longrightarrow> map (topo_index topo) topo = [0..<length topo]"
  by (rule nth_equalityI) (simp_all add: topo_index_nth)

lemma order_actions_ids:
  assumes "distinct (map pa_action_id affected)" and "distinct topo"
    and "set topo = pa_action_id ` set affected"
  shows "map pa_action_id (order_actions_by_topological affected topo) = topo"
proof -
  let ?L = "map pa_action_id (order_actions_by_topological affected topo)"
  have set_L: "set ?L = set topo" using assms(3) by (simp add: order_actions_by_topological_def)
  have inj: "inj_on (topo_index topo) (set topo)"
    using map_topo_index [OF assms(2)] by (metis distinct_map distinct_upt)
  have "distinct ?L" using assms(1) by (simp add: order_actions_by_topological_def distinct_map)
  then have "distinct (map (topo_index topo) ?L)"
    using inj set_L by (simp only: distinct_map [of _ ?L]) 
  moreover have "sorted (map (topo_index topo) ?L)"
    by (simp add: order_actions_by_topological_def o_def)
  moreover have "sorted (map (topo_index topo) topo)" "distinct (map (topo_index topo) topo)"
    using map_topo_index [OF assms(2)] by simp_all
  moreover have "set (map (topo_index topo) ?L) = set (map (topo_index topo) topo)"
    using set_L by (simp only: set_map)
  ultimately have "map (topo_index topo) ?L = map (topo_index topo) topo"
    by (intro sorted_distinct_set_unique)
  with inj set_L show ?thesis by (intro map_inj_on [of "topo_index topo"]) auto
qed

text \<open>
  Children are compensated before their parents: when the parent links of the affected
  actions have no cycle, every action comes after all its children in the topological order, and
  sorting the actions by that order puts them in it.
\<close>

theorem children_before_parents:
  assumes "distinct (map pa_action_id affected)" and "[] \<notin> pa_action_id ` set affected"
    and "acyclic (parent_links affected)"
    and "c \<in> set affected" and "pa_parent_action_id c = Some (pa_action_id a)"
    and "map pa_action_id (order_actions_by_topological affected (compute_topological_order affected)) =
      xs @ pa_action_id a # ys"
  shows "pa_action_id c \<in> set xs"
proof -
  from order_actions_ids [OF assms(1) topo_order_permutes [OF assms(1,2)]] assms(6)
  have "compute_topological_order affected = xs @ pa_action_id a # ys" by simp
  from topo_order_acyclic [OF assms(1-3) this assms(4,5)] show ?thesis .
qed

theorem children_before_parents_witness:
  "let affected = [sample_action ''a'' None REVERSIBLE, sample_action ''b'' (Some ''a'') REVERSIBLE]
   in map pa_action_id (order_actions_by_topological affected (compute_topological_order affected)) =
        [''b''] @ ''a'' # [] \<and> ''b'' \<in> set [''b'']"
proof -
  let ?affected = "[sample_action ''a'' None REVERSIBLE, sample_action ''b'' (Some ''a'') REVERSIBLE]"
  have order: "map pa_action_id (order_actions_by_topological ?affected
      (compute_topological_order ?affected)) = [''b''] @ ''a'' # []"
    by (simp add: order_actions_by_topological_def compute_topological_order_def id_to_parent_def
        child_counts_def Let_def known_parent_def topo_index_def)
  have links: "parent_links ?affected = {(''b'', ''a'')}"
    by (force simp: parent_links_def)
  have "acyclic (parent_links ?affected)"
    unfolding links by (rule acyclicI) (auto simp: trancl_insert rtrancl_empty)
  then show ?thesis
    using children_before_parents [of ?affected "sample_action ''b'' (Some ''a'') REVERSIBLE"
        "sample_action ''a'' None REVERSIBLE" "[''b'']" "[]"] order
    by (simp add: Let_def)
qed

text \<open>
  \<open>list_descendants\<close> finds exactly the actions below the incident: its result lists, without
  repetition and in full when the limit allows, rows of the tenant whose identifiers are those
  reachable from the root over one or more parent links; cycles do not make it loop.
\<close>

theorem list_descendants_exact:
  assumes "length (collect rows t (children_of rows t start) []) \<le> limit"
  shows "let (res, n) = list_descendants t start limit 0 rows
    in distinct (map pa_action_id res) \<and> set res \<subseteq> {a \<in> set rows. pa_tenant_id a = t} \<and>
       n = length res \<and> pa_action_id ` set res = {i. descendant rows t start i}"
proof -
  let ?R = "collect rows t (children_of rows t start) []"
  have sound: "\<forall>c \<in> set ?R. c \<in> set rows \<and> pa_tenant_id c = t \<and> descendant rows t start (pa_action_id c)"
    by (rule collect_sound) (auto dest: children_rows descendant.child)
  then have "action_ids ?R = {i. descendant rows t start i}"
    using collect_complete by blast
  with sound collect_distinct [of "[]" rows t "children_of rows t start"] assms show ?thesis
    by (auto simp: list_descendants_def Let_def)
qed

theorem list_descendants_exact_witness:
  "descendant [sample_action ''b'' (Some ''a'') REVERSIBLE, sample_action ''c'' (Some ''b'') REVERSIBLE,
     sample_action ''a'' (Some ''c'') REVERSIBLE] ''t'' ''a'' ''a''"
proof -
  let ?rows = "[sample_action ''b'' (Some ''a'') REVERSIBLE, sample_action ''c'' (Some ''b'') REVERSIBLE,
     sample_action ''a'' (Some ''c'') REVERSIBLE]"
  have res: "collect ?rows ''t'' (children_of ?rows ''t'' ''a'') [] = ?rows"
    by (simp add: children_of_def)
  show ?thesis
    using list_descendants_exact [of ?rows "''t''" "''a''" 1000] res
    by (simp add: list_descendants_def) auto
qed

text \<open>
  Classification is fail-closed: a plan is classified automatically reversible only when
  every action is; an irreversible action always makes the plan irreversible and unrecoverable;
  and the outcome is SAFE\_AUTOMATIC exactly when every action is automatically reversible and no
  step asks for approval.
\<close>

theorem safe_automatic_iff_all_automatic:
  "(determine_outcome (classify_reversibility action descendants) steps = SAFE_AUTOMATIC \<longleftrightarrow>
      (\<forall>a \<in> set (action # descendants). is_auto_reversible (pa_reversibility a)) \<and>
      (\<forall>step \<in> set steps. \<not> step_requires_approval step)) \<and>
   (determine_outcome (classify_reversibility action descendants) steps = NOT_REVERSIBLE \<longleftrightarrow>
      (\<exists>a \<in> set (action # descendants). normalize_rev (pa_reversibility a) = IRREVERSIBLE))"
proof -
  define rs where "rs = (\<lambda>a. normalize_rev (pa_reversibility a)) ` set (action # descendants)"
  have all: "(\<forall>a \<in> set (action # descendants). is_auto_reversible (pa_reversibility a)) \<longleftrightarrow>
      (\<forall>r \<in> rs. r = AUTOMATICALLY_REVERSIBLE)"
    and ex: "(\<exists>a \<in> set (action # descendants). normalize_rev (pa_reversibility a) = IRREVERSIBLE) \<longleftrightarrow> IRREVERSIBLE \<in> rs"
    by (auto simp: rs_def is_auto_reversible_def image_iff) (metis)+
  have cls: "classify_reversibility action descendants =
      (if IRREVERSIBLE \<in> rs then IRREVERSIBLE
       else if CONDITIONALLY_REVERSIBLE \<in> rs then CONDITIONALLY_REVERSIBLE
       else if (\<forall>r \<in> rs. r = AUTOMATICALLY_REVERSIBLE) then AUTOMATICALLY_REVERSIBLE
       else if MANUALLY_RECOVERABLE \<in> rs then MANUALLY_RECOVERABLE else REV_UNKNOWN)"
    by (simp add: classify_reversibility_def rs_def Let_def)
  show ?thesis
    unfolding all ex cls
    by (auto simp: determine_outcome_def normalize_rev_def is_conditional_def Let_def)
qed

theorem safe_automatic_iff_all_automatic_witness:
  "determine_outcome (classify_reversibility (sample_action ''a'' None REVERSIBLE)
     [sample_action ''b'' (Some ''a'') REVERSIBLE]) [] = SAFE_AUTOMATIC \<and>
   determine_outcome (classify_reversibility (sample_action ''a'' None REVERSIBLE)
     [sample_action ''b'' (Some ''a'') IRREVERSIBLE]) [] = NOT_REVERSIBLE"
  using safe_automatic_iff_all_automatic [of "sample_action ''a'' None REVERSIBLE"
      "[sample_action ''b'' (Some ''a'') REVERSIBLE]" "[]"]
    safe_automatic_iff_all_automatic [of "sample_action ''a'' None REVERSIBLE"
      "[sample_action ''b'' (Some ''a'') IRREVERSIBLE]" "[]"]
  by (simp add: is_auto_reversible_def normalize_rev_def)

end
