(* ===== verification/Recovery_Planning.thy ===== *)
theory Recovery_Planning
  imports Plan_Order Tenant_Quota Effects
begin

text \<open>
  \<open>RecoveryPlanningService\<close> of \<open>app/domain/services/recovery_planning_service.py\<close>: creating,
  simulating and executing a recovery plan with the registered adapters, together with the plan
  repository of \<open>sqlalchemy_containment_repository.py\<close> it saves to.

  The state is the action table, the stored plans, the captured evidence, the quota counters and
  the outside world. As in the orchestrator an adapter method is a function on the whole state
  that returns or raises. Metrics counters are left out. The counter store is a parameter, so the
  model covers both implementations of the quota protocol.
\<close>

section \<open>State, adapters and the service\<close>

record ('w, 'q) psys =
  ps_now :: datetime
  ps_actions :: action_table
  ps_plans :: "(string \<times> string) \<rightharpoonup> recovery_plan"
  ps_evidence :: "(string \<times> string) \<rightharpoonup> recovery_evidence"
  ps_usage :: 'q
  ps_world :: 'w

record 's recovery_adapter =
  ra_adapter_name :: string
  ra_capability :: string
  ra_captures_evidence :: bool
  ra_can_recover :: "protected_action \<Rightarrow> ('s, string) eff"
  ra_preview_recovery :: "protected_action \<Rightarrow> ('s, pydict) eff"
  ra_supports :: "protected_action \<Rightarrow> ('s, bool) eff"
  ra_capture_recovery_evidence :: "protected_action \<Rightarrow> ('s, recovery_evidence) eff"
  ra_classify_reversibility ::
    "protected_action \<Rightarrow> recovery_evidence \<Rightarrow> ('s, reversibility) eff"
  ra_simulate :: "protected_action \<Rightarrow> recovery_evidence \<Rightarrow> ('s, rollback_impact) eff"
  ra_detect_drift :: "protected_action \<Rightarrow> recovery_evidence \<Rightarrow> ('s, drift_result) eff"
  ra_check_conflicts :: "protected_action \<Rightarrow> recovery_evidence \<Rightarrow> ('s, conflict_result) eff"
  ra_check_preconditions :: "protected_action \<Rightarrow> ('s, bool) eff"
  ra_generate_compensation ::
    "protected_action \<Rightarrow> recovery_evidence \<Rightarrow> ('s, compensation_action) eff"
  ra_execute_compensation :: "compensation_action \<Rightarrow> string \<Rightarrow> ('s, compensation_result) eff"
  ra_verify :: "compensation_action \<Rightarrow> ('s, verification_result) eff"

type_synonym ('w, 'q) padapter = "('w, 'q) psys recovery_adapter"

record ('w, 'q) planning_service =
  sv_adapters :: "('w, 'q) padapter list"
  sv_has_evidence_repo :: bool
  sv_quota :: "('q counter_store \<times> policy_map) option"

section \<open>The plan repository\<close>

definition get_by_plan_id :: "string \<Rightarrow> string \<Rightarrow> ('w, 'q) psys \<Rightarrow> recovery_plan option" where
  "get_by_plan_id tenant_id plan_id s = ps_plans s (tenant_id, plan_id)"

text \<open>An update keeps the identifying columns, the incident and the creation time.\<close>

definition save_plan :: "recovery_plan \<Rightarrow> ('w, 'q) psys \<Rightarrow> recovery_plan \<times> ('w, 'q) psys" where
  "save_plan plan s =
     (let key = (rp_tenant_id plan, rp_plan_id plan);
          stored = (case ps_plans s key of
                      None \<Rightarrow> plan
                    | Some model \<Rightarrow>
                        plan\<lparr>rp_incident_action_id := rp_incident_action_id model,
                             rp_created_at := rp_created_at model, rp_updated_at := ps_now s\<rparr>)
      in (stored, s\<lparr>ps_plans := (ps_plans s)(key \<mapsto> stored)\<rparr>))"

text \<open>
  \<open>update_status(tenant_id, plan_id, EXECUTING, **fields)\<close> with the fields \<open>execute_plan\<close> passes,
  read from \<open>plan\<close>.
\<close>

definition update_status_executing ::
  "string \<Rightarrow> string \<Rightarrow> recovery_plan \<Rightarrow> ('w, 'q) psys \<Rightarrow> recovery_plan option \<times> ('w, 'q) psys" where
  "update_status_executing tenant_id plan_id plan s =
     (case ps_plans s (tenant_id, plan_id) of
        None \<Rightarrow> (None, s)
      | Some model \<Rightarrow>
          (let stored = plan\<lparr>rp_plan_id := rp_plan_id model, rp_tenant_id := rp_tenant_id model,
                 rp_incident_action_id := rp_incident_action_id model, rp_status := RS_EXECUTING,
                 rp_created_at := rp_created_at model, rp_updated_at := ps_now s,
                 rp_executed_at := rp_executed_at model, rp_execution_status := ''executing''\<rparr>
           in (Some stored, s\<lparr>ps_plans := (ps_plans s)((tenant_id, plan_id) \<mapsto> stored)\<rparr>)))"

definition get_by_action_id :: "string \<Rightarrow> string \<Rightarrow> ('w, 'q) psys \<Rightarrow> protected_action option" where
  "get_by_action_id tenant_id action_id s =
     sql_first (sql_select (\<lambda>a. pa_tenant_id a = tenant_id \<and> pa_action_id a = action_id)
       (ps_actions s))"

text \<open>The incident action and its descendants, at most 1000 of them.\<close>

definition affected_actions ::
  "string \<Rightarrow> string \<Rightarrow> ('w, 'q) psys \<Rightarrow> py_error + protected_action list" where
  "affected_actions tenant_id incident_action_id s =
     (case get_by_action_id tenant_id incident_action_id s of
        None \<Rightarrow> Inl (ValueError ''Incident action not found'')
      | Some action \<Rightarrow>
          Inr (action # fst (list_descendants tenant_id incident_action_id 1000 0 (ps_actions s))))"

section \<open>Creating a plan\<close>

text \<open>
  \<open>plan_id\<close> is the identifier drawn from \<open>secrets\<close>; \<open>hash\<close> stands for
  \<open>sha256(f"{incident}:{json.dumps(order)}").hexdigest()\<close>.
\<close>

definition new_plan ::
  "(string \<Rightarrow> string list \<Rightarrow> string) \<Rightarrow> datetime \<Rightarrow> string \<Rightarrow> string \<Rightarrow> string
     \<Rightarrow> (string, string) dict list \<Rightarrow> protected_action list \<Rightarrow> recovery_plan" where
  "new_plan hash now plan_id tenant_id incident_action_id recovery_steps affected =
     (let topological_order = compute_topological_order affected
      in \<lparr>rp_plan_id = plan_id, rp_tenant_id = tenant_id,
          rp_incident_action_id = incident_action_id, rp_status = RS_DRAFT,
          rp_outcome = determine_outcome (classify_reversibility (hd affected) (tl affected))
                         recovery_steps,
          rp_simulation_result = [], rp_steps = recovery_steps, rp_approved_by = None,
          rp_executed_by = None, rp_created_at = now, rp_updated_at = now, rp_executed_at = None,
          rp_plan_version = ''1.0'', rp_plan_hash = hash incident_action_id topological_order,
          rp_topological_order = topological_order,
          rp_dependency_graph_reference = ''graph:'' @ incident_action_id,
          rp_execution_status = ''pending'', rp_approval_policy = ''single_approval'',
          rp_approval_threshold = 1, rp_stop_conditions = determine_stop_conditions affected,
          rp_compensation_summary = [], rp_incident_id = incident_action_id,
          rp_root_action_id = incident_action_id,
          rp_affected_action_ids = map pa_action_id affected\<rparr>)"

text \<open>A quota decision: raise what the store raises, or QuotaExceededError when not admitted.\<close>

definition admit ::
  "string \<Rightarrow> ('q \<Rightarrow> (py_error + quota_decision) \<times> 'q) \<Rightarrow> (('w, 'q) psys, unit) eff" where
  "admit message decide s =
     (case decide (ps_usage s) of
        (Inl e, q) \<Rightarrow> (Inl e, s\<lparr>ps_usage := q\<rparr>)
      | (Inr d, q) \<Rightarrow>
          (if qd_admitted d then Inr () else Inl (QuotaExceededError (message @ qd_reason d)),
           s\<lparr>ps_usage := q\<rparr>))"

definition create_plan ::
  "('w, 'q) planning_service \<Rightarrow> (string \<Rightarrow> string list \<Rightarrow> string) \<Rightarrow> string \<Rightarrow> string \<Rightarrow> string
     \<Rightarrow> (string, string) dict list \<Rightarrow> (('w, 'q) psys, recovery_plan) eff" where
  "create_plan sv hash plan_id tenant_id incident_action_id recovery_steps s =
     (case affected_actions tenant_id incident_action_id s of
        Inl e \<Rightarrow> (Inl e, s)
      | Inr affected \<Rightarrow>
          (case (case sv_quota sv of
                   None \<Rightarrow> (Inr (), s)
                 | Some (cs, policies) \<Rightarrow>
                     admit ''Recovery plan creation denied: ''
                       (begin_plan_creation cs policies (ps_now s) tenant_id (int (length affected))) s) of
             (Inl e, s1) \<Rightarrow> (Inl e, s1)
           | (Inr _, s1) \<Rightarrow>
               (let (plan, s2) = save_plan (new_plan hash (ps_now s1) plan_id tenant_id
                                   incident_action_id recovery_steps affected) s1
                in (Inr plan, s2))))"

section \<open>Simulating a plan\<close>

text \<open>What \<open>_simulate_with_protocol_adapters\<close> returns for an action.\<close>

datatype sim_result =
    SimImpact string reversibility rollback_impact drift_status conflict_status bool
  | SimError string string

text \<open>\<open>result.get("reversibility", "unknown")\<close>, normalised.\<close>

fun sim_reversibility :: "sim_result \<Rightarrow> reversibility" where
  "sim_reversibility (SimImpact _ r _ _ _ _) = normalize_rev r"
| "sim_reversibility (SimError _ _) = REV_UNKNOWN"

fun sim_dict :: "sim_result \<Rightarrow> pydict" where
  "sim_dict (SimImpact name r impact drift conflict precond) =
     [(''adapter'', PStr name), (''reversibility'', PStr (rev_value r)),
      (''would_succeed'', PBool (ri_would_succeed impact)),
      (''drift_status'', PStr (drift_value drift)),
      (''conflict_status'', PStr (conflict_value conflict)),
      (''preconditions_satisfied'', PBool precond),
      (''warnings'', PList (map PStr (ri_warnings impact))),
      (''simulation_limitation'',
        case ri_simulation_limitation impact of
          None \<Rightarrow> PNone
        | Some SIMULATION_LIMITED \<Rightarrow> PStr ''simulation_limited''
        | Some SIMULATION_COMPLETE \<Rightarrow> PStr ''simulation_complete''
        | Some SIMULATION_NOT_AVAILABLE \<Rightarrow> PStr ''simulation_not_available''),
      (''compensation_operation'', PStr (ri_compensation_operation impact)),
      (''expected_after_state'',
        case ri_expected_after_state impact of None \<Rightarrow> PNone | Some d \<Rightarrow> PDict d)]"
| "sim_dict (SimError name err) =
     [(''adapter'', PStr name), (''error'', PStr err), (''would_succeed'', PBool False)]"

fun sim_summary :: "sim_result \<Rightarrow> pydict" where
  "sim_summary (SimImpact name r impact drift conflict precond) =
     [(''reversibility'', PStr (rev_value r)), (''would_succeed'', PBool (ri_would_succeed impact)),
      (''drift_status'', PStr (drift_value drift))]"
| "sim_summary (SimError name err) =
     [(''reversibility'', PStr ''unknown''), (''would_succeed'', PBool False),
      (''drift_status'', PStr ''unknown'')]"

text \<open>The stored evidence of an action, or newly captured and stored evidence.\<close>

definition evidence_for ::
  "('w, 'q) planning_service \<Rightarrow> ('w, 'q) padapter \<Rightarrow> protected_action
     \<Rightarrow> (('w, 'q) psys, recovery_evidence) eff" where
  "evidence_for sv ad action s =
     (case (if sv_has_evidence_repo sv
            then ps_evidence s (pa_tenant_id action, pa_action_id action) else None) of
        Some evidence \<Rightarrow> (Inr evidence, s)
      | None \<Rightarrow>
          (case ra_capture_recovery_evidence ad action s of
             (Inl e, s1) \<Rightarrow> (Inl e, s1)
           | (Inr evidence, s1) \<Rightarrow>
               (Inr evidence,
                if sv_has_evidence_repo sv
                then s1\<lparr>ps_evidence := (ps_evidence s1)
                       ((re_tenant_id evidence, re_action_id evidence) \<mapsto> evidence)\<rparr>
                else s1)))"

definition simulate_adapter ::
  "('w, 'q) planning_service \<Rightarrow> ('w, 'q) padapter \<Rightarrow> protected_action
     \<Rightarrow> (('w, 'q) psys, sim_result) eff" where
  "simulate_adapter sv ad action =
     ebind (evidence_for sv ad action) (\<lambda>evidence.
     ebind (ra_classify_reversibility ad action evidence) (\<lambda>reversibility.
     ebind (ra_simulate ad action evidence) (\<lambda>impact.
     ebind (ra_detect_drift ad action evidence) (\<lambda>drift.
     ebind (ra_check_conflicts ad action evidence) (\<lambda>conflict.
     ebind (ra_check_preconditions ad action) (\<lambda>precond.
       eret (SimImpact (ra_adapter_name ad) reversibility impact (dt_status drift)
               (cf_status conflict) precond)))))))"

fun simulate_with_protocol_adapters ::
  "('w, 'q) planning_service \<Rightarrow> ('w, 'q) padapter list \<Rightarrow> protected_action \<Rightarrow> ('w, 'q) psys
     \<Rightarrow> sim_result option \<times> ('w, 'q) psys" where
  "simulate_with_protocol_adapters sv [] action s = (None, s)"
| "simulate_with_protocol_adapters sv (ad # ads) action s =
     (if \<not> ra_captures_evidence ad then simulate_with_protocol_adapters sv ads action s
      else
        (case simulate_adapter sv ad action s of
           (Inr r, s1) \<Rightarrow> (Some r, s1)
         | (Inl (AttributeError _), s1) \<Rightarrow> simulate_with_protocol_adapters sv ads action s1
         | (Inl (TypeError _), s1) \<Rightarrow> simulate_with_protocol_adapters sv ads action s1
         | (Inl e, s1) \<Rightarrow> (Some (SimError (ra_adapter_name ad) (exc_str e)), s1)))"

fun simulate_all ::
  "('w, 'q) planning_service \<Rightarrow> protected_action list \<Rightarrow> (string, sim_result) dict \<Rightarrow> ('w, 'q) psys
     \<Rightarrow> (string, sim_result) dict \<times> ('w, 'q) psys" where
  "simulate_all sv [] results s = (results, s)"
| "simulate_all sv (a # as) results s =
     (case simulate_with_protocol_adapters sv (sv_adapters sv) a s of
        (None, s1) \<Rightarrow> simulate_all sv as results s1
      | (Some r, s1) \<Rightarrow> simulate_all sv as (AList.update (pa_action_id a) r results) s1)"

fun preview_with_adapters ::
  "('w, 'q) padapter list \<Rightarrow> protected_action \<Rightarrow> (('w, 'q) psys, pydict option) eff" where
  "preview_with_adapters [] action = eret None"
| "preview_with_adapters (ad # ads) action =
     ebind (ra_can_recover ad action) (\<lambda>capability.
       if capability \<in> {''reversible'', ''reversible_with_approval''}
       then ebind (ra_preview_recovery ad action) (\<lambda>d. eret (Some d))
       else preview_with_adapters ads action)"

text \<open>An empty preview is falsy and is not recorded.\<close>

fun preview_all ::
  "('w, 'q) planning_service \<Rightarrow> protected_action list \<Rightarrow> (string, pydict) dict
     \<Rightarrow> (('w, 'q) psys, (string, pydict) dict) eff" where
  "preview_all sv [] results = eret results"
| "preview_all sv (a # as) results =
     ebind (preview_with_adapters (sv_adapters sv) a) (\<lambda>r.
       preview_all sv as
         (case r of None \<Rightarrow> results
          | Some d \<Rightarrow> if d = [] then results else AList.update (pa_action_id a) d results))"

definition determine_outcome_from_simulation ::
  "(string, sim_result) dict \<Rightarrow> string list \<Rightarrow> string list \<Rightarrow> recovery_outcome \<Rightarrow> recovery_outcome" where
  "determine_outcome_from_simulation simulation_results irreversible needs_approval fallback =
     (let rs = map (sim_reversibility \<circ> snd) simulation_results
      in if irreversible \<noteq> [] then NOT_REVERSIBLE
         else if needs_approval \<noteq> [] then REQUIRES_HUMAN_APPROVAL
         else if simulation_results \<noteq> []
         then (if REV_UNKNOWN \<in> set rs then RO_UNKNOWN
               else if IRREVERSIBLE \<in> set rs then NOT_REVERSIBLE
               else if MANUALLY_RECOVERABLE \<in> set rs then REQUIRES_HUMAN_APPROVAL
               else SAFE_AUTOMATIC)
         else fallback)"

definition irreversible_ids :: "protected_action list \<Rightarrow> string list" where
  "irreversible_ids affected =
     [pa_action_id a. a \<leftarrow> affected, normalize_rev (pa_reversibility a) = IRREVERSIBLE]"

definition needs_approval_ids :: "protected_action list \<Rightarrow> string list" where
  "needs_approval_ids affected =
     [pa_action_id a. a \<leftarrow> affected, blocks_automatic_execution (pa_reversibility a)]"

definition simulation_dict ::
  "string \<Rightarrow> protected_action list \<Rightarrow> recovery_plan \<Rightarrow> (string, sim_result) dict
     \<Rightarrow> (string, pydict) dict \<Rightarrow> pydict" where
  "simulation_dict plan_id affected plan simulation_results adapter_results =
     (let irreversible = irreversible_ids affected;
          needs_approval = needs_approval_ids affected;
          n = PInt (int (length affected))
      in [(''plan_id'', PStr plan_id), (''affected_actions_count'', n),
          (''irreversible_actions'', PList (map PStr irreversible)),
          (''approval_required_actions'', PList (map PStr needs_approval)),
          (''recovery_order'', PList (map (PStr \<circ> pa_action_id) affected)),
          (''topological_order'', PList (map PStr (rp_topological_order plan))),
          (''estimated_blast_radius'', n), (''connector_availability'', PStr ''unknown''),
          (''warnings'', PList
            ((if irreversible \<noteq> []
              then [PStr (show_nat (length irreversible) @
                      '' irreversible actions cannot be automatically reversed'')] else []) @
             (if needs_approval \<noteq> []
              then [PStr (show_nat (length needs_approval) @
                      '' actions require human approval before recovery'')] else []))),
          (''adapter_results'', PDict (map (\<lambda>(k, d). (k, PDict d)) adapter_results)),
          (''surgical_simulation_results'',
            PDict (map (\<lambda>(k, r). (k, PDict (sim_dict r))) simulation_results))])"

definition simulate_plan ::
  "('w, 'q) planning_service \<Rightarrow> string \<Rightarrow> string \<Rightarrow> (('w, 'q) psys, pydict) eff" where
  "simulate_plan sv tenant_id plan_id s =
     (case get_by_plan_id tenant_id plan_id s of
        None \<Rightarrow> (Inl (ValueError ''Recovery plan not found''), s)
      | Some plan \<Rightarrow>
          (case affected_actions tenant_id (rp_incident_action_id plan) s of
             Inl e \<Rightarrow> (Inl e, s)
           | Inr affected \<Rightarrow>
               (let (simulation_results, s1) = simulate_all sv affected [] s
                in case preview_all sv affected [] s1 of
                     (Inl e, s2) \<Rightarrow> (Inl e, s2)
                   | (Inr adapter_results, s2) \<Rightarrow>
                       (let simulation = simulation_dict plan_id affected plan simulation_results
                                           adapter_results;
                            outcome = determine_outcome_from_simulation simulation_results
                                        (irreversible_ids affected) (needs_approval_ids affected)
                                        (rp_outcome plan);
                            plan' = plan\<lparr>rp_status := RS_SIMULATED, rp_outcome := outcome,
                              rp_simulation_result := simulation, rp_updated_at := ps_now s2,
                              rp_plan_version := ''1.0'', rp_execution_status := ''simulated'',
                              rp_compensation_summary :=
                                map (\<lambda>(k, r). (k, PDict (sim_summary r))) simulation_results\<rparr>
                        in (Inr simulation, snd (save_plan plan' s2))))))"

section \<open>Executing a plan\<close>

fun comp_type_value :: "compensation_type \<Rightarrow> string" where
  "comp_type_value CT_REVERSE_OPERATION = ''reverse_operation''"
| "comp_type_value CT_COMPENSATING_EVENT = ''compensating_event''"
| "comp_type_value CT_STATE_TRANSITION = ''state_transition''"
| "comp_type_value CT_DELETION = ''deletion''"
| "comp_type_value CT_DEACTIVATION = ''deactivation''"
| "comp_type_value CT_CUSTOM = ''custom''"

definition is_filesystem_action :: "protected_action \<Rightarrow> bool" where
  "is_filesystem_action action \<longleftrightarrow>
     lower (pa_tool action) \<in> {''filesystem'', ''file'', ''fs'', ''storage''} \<or>
     lower (pa_action_type action) \<in>
       {''create'', ''write'', ''modify'', ''update'', ''delete'', ''rename'', ''move''}"

text \<open>
  What \<open>_execute_with_protocol_adapters\<close> returns: a refusal (adapter, execution state, error,
  adapter selection), whose dictionary has no verification entry, or the outcome of a
  compensation that was executed and verified.
\<close>

datatype exec_result =
    ExecRefused string execution_state string string
  | ExecRan string string compensation_action compensation_result verification_result string

fun xr_state :: "exec_result \<Rightarrow> execution_state" where
  "xr_state (ExecRefused _ st _ _) = st"
| "xr_state (ExecRan _ _ _ result _ _) = cr_execution_state result"

fun exec_dict :: "exec_result \<Rightarrow> pydict" where
  "exec_dict (ExecRefused name st err selection) =
     [(''adapter'', PStr name), (''execution_state'', PStr (es_value st)),
      (''success'', PBool False), (''error'', PStr err), (''adapter_selection'', PStr selection)]"
| "exec_dict (ExecRan name selection compn result verification capability) =
     [(''adapter'', PStr name), (''adapter_selection'', PStr selection),
      (''execution_state'', PStr (es_value (cr_execution_state result))),
      (''success'', PBool (cr_success result \<and> cr_execution_state result = ES_SUCCEEDED \<and>
                           vr_verified verification)),
      (''external_outcome'', PStr (cr_external_outcome result)),
      (''verification_passed'', PBool (vr_verified verification)),
      (''verification_details'', PDict (vr_details verification)),
      (''compensation_type'', PStr (comp_type_value (ca_compensation_type compn))),
      (''idempotency_key'', PStr (cr_idempotency_key result)),
      (''adapter_capability'', PStr capability)]"

text \<open>
  Adapter selection: a refusal, or an adapter with the recorded reason. For a filesystem action
  the first adapter called \<open>filesystem_recovery\<close> decides; for any other action the first adapter
  whose \<open>supports\<close> answers true, where a probe that raises is skipped.
\<close>

fun select_filesystem_adapter ::
  "('w, 'q) padapter list \<Rightarrow> exec_result + ('w, 'q) padapter \<times> string" where
  "select_filesystem_adapter [] =
     Inl (ExecRefused ''none'' ES_FAILED ''No FilesystemRecoveryAdapter available'' ''fail_closed'')"
| "select_filesystem_adapter (ad # ads) =
     (if ra_adapter_name ad = ''filesystem_recovery''
      then (if ra_capability ad \<noteq> ''production_validated''
            then Inl (ExecRefused (ra_adapter_name ad) ES_FAILED
                   ''FilesystemRecoveryAdapter is not production-validated'' ''rejected'')
            else Inr (ad, ''filesystem_recovery_selected_for_live_execution''))
      else select_filesystem_adapter ads)"

fun select_supporting_adapter ::
  "('w, 'q) padapter list \<Rightarrow> protected_action \<Rightarrow> ('w, 'q) psys
     \<Rightarrow> (exec_result + ('w, 'q) padapter \<times> string) \<times> ('w, 'q) psys" where
  "select_supporting_adapter [] action s =
     (Inl (ExecRefused ''none'' ES_FAILED ''No adapter supports this action'' ''fail_closed''), s)"
| "select_supporting_adapter (ad # ads) action s =
     (case ra_supports ad action s of
        (Inr True, s1) \<Rightarrow> (Inr (ad, ra_adapter_name ad @ ''_selected''), s1)
      | (_, s1) \<Rightarrow> select_supporting_adapter ads action s1)"

definition select_adapter ::
  "('w, 'q) planning_service \<Rightarrow> protected_action \<Rightarrow> ('w, 'q) psys
     \<Rightarrow> (exec_result + ('w, 'q) padapter \<times> string) \<times> ('w, 'q) psys" where
  "select_adapter sv action s =
     (if is_filesystem_action action then (select_filesystem_adapter (sv_adapters sv), s)
      else select_supporting_adapter (sv_adapters sv) action s)"

text \<open>The body of the \<open>try\<close> block: the guards in their order, then execute and verify.\<close>

definition guarded_compensation ::
  "('w, 'q) planning_service \<Rightarrow> ('w, 'q) padapter \<Rightarrow> string \<Rightarrow> protected_action
     \<Rightarrow> (('w, 'q) psys, exec_result) eff" where
  "guarded_compensation sv ad reason action =
     (let refuse = (\<lambda>st err. eret (ExecRefused (ra_adapter_name ad) st err reason))
      in if \<not> ra_captures_evidence ad
         then refuse ES_FAILED ''Adapter does not implement capture_recovery_evidence''
         else
           ebind (evidence_for sv ad action) (\<lambda>evidence.
           ebind (ra_classify_reversibility ad action evidence) (\<lambda>reversibility.
             if reversibility = IRREVERSIBLE
             then refuse ES_BLOCKED_BY_CONFLICT ''Action is irreversible''
             else
           ebind (ra_check_preconditions ad action) (\<lambda>satisfied.
             if \<not> satisfied then refuse ES_BLOCKED_BY_CONFLICT ''Preconditions not satisfied''
             else
           ebind (ra_detect_drift ad action evidence) (\<lambda>drift.
             if dt_status drift \<noteq> NO_DRIFT
             then refuse ES_BLOCKED_BY_DRIFT (''Drift detected: '' @ drift_value (dt_status drift))
             else
           ebind (ra_check_conflicts ad action evidence) (\<lambda>conflict.
             if cf_status conflict \<noteq> NO_CONFLICT
             then refuse ES_BLOCKED_BY_CONFLICT
                    (''Conflict detected: '' @ conflict_value (cf_status conflict))
             else
           ebind (ra_generate_compensation ad action evidence) (\<lambda>compn.
           ebind (ra_execute_compensation ad compn (re_idempotency_key evidence)) (\<lambda>result.
           ebind (ra_verify ad compn) (\<lambda>verification.
             eret (ExecRan (ra_adapter_name ad) reason compn result verification
                     (ra_capability ad)))))))))))"

definition execute_with_protocol_adapters ::
  "('w, 'q) planning_service \<Rightarrow> protected_action \<Rightarrow> ('w, 'q) psys \<Rightarrow> exec_result \<times> ('w, 'q) psys" where
  "execute_with_protocol_adapters sv action s =
     (case select_adapter sv action s of
        (Inl refused, s1) \<Rightarrow> (refused, s1)
      | (Inr (ad, reason), s1) \<Rightarrow>
          (case guarded_compensation sv ad reason action s1 of
             (Inr r, s2) \<Rightarrow> (r, s2)
           | (Inl (AttributeError _), s2) \<Rightarrow>
               (ExecRefused (ra_adapter_name ad) ES_FAILED ''Adapter protocol error'' reason, s2)
           | (Inl (TypeError _), s2) \<Rightarrow>
               (ExecRefused (ra_adapter_name ad) ES_FAILED ''Adapter protocol error'' reason, s2)
           | (Inl e, s2) \<Rightarrow> (ExecRefused (ra_adapter_name ad) ES_FAILED (exc_str e) reason, s2)))"

text \<open>Whether the loop breaks after an action ended in state \<open>st\<close>.\<close>

definition stops_execution :: "stop_condition list \<Rightarrow> execution_state \<Rightarrow> bool" where
  "stops_execution scs st \<longleftrightarrow>
     st \<in> {ES_FAILED, ES_BLOCKED_BY_CONFLICT, ES_BLOCKED_BY_DRIFT} \<and>
     (ON_FIRST_FAILURE \<in> set scs \<or>
      ON_BLOCKING_CONFLICT \<in> set scs \<and> st = ES_BLOCKED_BY_CONFLICT \<or>
      ON_BLOCKING_DRIFT \<in> set scs \<and> st = ES_BLOCKED_BY_DRIFT)"

fun execute_actions ::
  "('w, 'q) planning_service \<Rightarrow> stop_condition list \<Rightarrow> protected_action list
     \<Rightarrow> (string, exec_result) dict \<Rightarrow> ('w, 'q) psys \<Rightarrow> (string, exec_result) dict \<times> ('w, 'q) psys" where
  "execute_actions sv scs [] results s = (results, s)"
| "execute_actions sv scs (a # as) results s =
     (let (r, s1) = execute_with_protocol_adapters sv a s;
          results1 = AList.update (pa_action_id a) r results
      in if stops_execution scs (xr_state r) then (results1, s1)
         else execute_actions sv scs as results1 s1)"

text \<open>
  The test of one result in \<open>all_succeeded\<close>: a refusal has no \<open>verification_passed\<close>, an executed
  compensation has it, a selection reason, and the name of its adapter.
\<close>

fun result_passed :: "exec_result \<Rightarrow> bool" where
  "result_passed (ExecRefused name st err selection) = False"
| "result_passed (ExecRan name selection compn result verification capability) \<longleftrightarrow>
     cr_execution_state result \<in> {ES_SUCCEEDED, ES_UNKNOWN_EXTERNAL_OUTCOME} \<and>
     vr_verified verification \<and> selection \<noteq> [] \<and> name \<noteq> ''none''"

definition all_succeeded :: "(string, exec_result) dict \<Rightarrow> bool" where
  "all_succeeded results \<longleftrightarrow> results \<noteq> [] \<and> (\<forall>r \<in> set (map snd results). result_passed r)"

definition RS_value :: "recovery_status \<Rightarrow> string" where
  "RS_value st =
     (case st of RS_DRAFT \<Rightarrow> ''draft'' | RS_SIMULATED \<Rightarrow> ''simulated''
      | RS_PENDING_APPROVAL \<Rightarrow> ''pending_approval'' | RS_APPROVED \<Rightarrow> ''approved''
      | RS_EXECUTING \<Rightarrow> ''executing'' | RS_COMPLETED \<Rightarrow> ''completed'' | RS_FAILED \<Rightarrow> ''failed''
      | RS_REJECTED \<Rightarrow> ''rejected'')"

text \<open>The recorded list of irreversible actions; the code stores a list or nothing there.\<close>

definition recorded_irreversible :: "recovery_plan \<Rightarrow> pyval list" where
  "recorded_irreversible plan =
     (case map_of (rp_simulation_result plan) ''irreversible_actions'' of
        Some (PList xs) \<Rightarrow> xs | _ \<Rightarrow> [])"

text \<open>The guards of \<open>execute_plan\<close>: an error, or the approver recorded for the execution.\<close>

definition execution_guard :: "recovery_plan option \<Rightarrow> string \<Rightarrow> py_error + recovery_plan \<times> string" where
  "execution_guard found executed_by =
     (case found of
        None \<Rightarrow> Inl (ValueError ''Recovery plan not found'')
      | Some plan \<Rightarrow>
          if rp_outcome plan = NOT_REVERSIBLE
          then Inl (ValueError ''Cannot execute plan with irreversible actions'')
          else if rp_outcome plan = RO_UNKNOWN
          then Inl (ValueError ''Cannot execute plan with UNKNOWN reversibility'')
          else if recorded_irreversible plan \<noteq> []
          then Inl (ValueError ''Cannot execute plan with irreversible actions'')
          else if rp_status plan = RS_SIMULATED
          then (if executed_by = []
                then Inl (ValueError ''Recovery plan must be explicitly approved before execution'')
                else Inr (plan, executed_by))
          else if rp_status plan = RS_APPROVED
          then Inr (plan, if truthy (rp_approved_by plan) then the (rp_approved_by plan)
                          else executed_by)
          else Inl (ValueError (''Plan status does not allow execution: '' @
                 RS_value (rp_status plan))))"

text \<open>The compensation slot is taken before the loop and given back after it.\<close>

definition run_compensations ::
  "('w, 'q) planning_service \<Rightarrow> string \<Rightarrow> stop_condition list \<Rightarrow> protected_action list
     \<Rightarrow> (('w, 'q) psys, (string, exec_result) dict) eff" where
  "run_compensations sv tenant_id scs ordered s =
     (case sv_quota sv of
        None \<Rightarrow> (let (results, s1) = execute_actions sv scs ordered [] s in (Inr results, s1))
      | Some (cs, policies) \<Rightarrow>
          (case admit ''Recovery execution denied: ''
                  (begin_compensation cs policies (ps_now s) tenant_id) s of
             (Inl e, s1) \<Rightarrow> (Inl e, s1)
           | (Inr _, s1) \<Rightarrow>
               (let (results, s2) = execute_actions sv scs ordered [] s1
                in case end_compensation cs (ps_now s2) tenant_id (ps_usage s2) of
                     (Inl e, q) \<Rightarrow> (Inl e, s2\<lparr>ps_usage := q\<rparr>)
                   | (Inr _, q) \<Rightarrow> (Inr results, s2\<lparr>ps_usage := q\<rparr>))))"

definition finish_plan ::
  "string \<Rightarrow> recovery_plan \<Rightarrow> string \<Rightarrow> string \<Rightarrow> (string, exec_result) dict
     \<Rightarrow> (('w, 'q) psys, recovery_plan) eff" where
  "finish_plan tenant_id plan approved_by executed_by results s =
     (let outcome = (if all_succeeded results then SAFE_AUTOMATIC else RO_UNKNOWN);
          running = plan\<lparr>rp_outcome := outcome, rp_approved_by := Some approved_by,
            rp_executed_by := Some executed_by, rp_plan_version := ''1.0''\<rparr>
      in case update_status_executing tenant_id (rp_plan_id plan) running s of
           (None, s1) \<Rightarrow> (Inl (ValueError ''Failed to update plan status to EXECUTING''), s1)
         | (Some stored, s1) \<Rightarrow>
             (let finished = stored\<lparr>rp_status := RS_COMPLETED, rp_outcome := outcome,
                    rp_simulation_result :=
                      AList.update ''execution_results''
                        (PDict (map (\<lambda>(k, r). (k, PDict (exec_dict r))) results))
                        (rp_simulation_result stored),
                    rp_approved_by := Some approved_by, rp_executed_by := Some executed_by,
                    rp_updated_at := ps_now s1, rp_executed_at := Some (ps_now s1),
                    rp_plan_version := ''1.0'', rp_execution_status := ''completed''\<rparr>;
                  (saved, s2) = save_plan finished s1
              in (Inr saved, s2)))"

definition execute_plan ::
  "('w, 'q) planning_service \<Rightarrow> string \<Rightarrow> string \<Rightarrow> string \<Rightarrow> (('w, 'q) psys, recovery_plan) eff" where
  "execute_plan sv tenant_id plan_id executed_by s =
     (case execution_guard (get_by_plan_id tenant_id plan_id s) executed_by of
        Inl e \<Rightarrow> (Inl e, s)
      | Inr (plan, approved_by) \<Rightarrow>
          (case affected_actions tenant_id (rp_incident_action_id plan) s of
             Inl e \<Rightarrow> (Inl e, s)
           | Inr affected \<Rightarrow>
               ebind (run_compensations sv tenant_id
                        (normalize_stop_conditions (rp_stop_conditions plan))
                        (order_actions_by_topological affected (rp_topological_order plan)))
                 (finish_plan tenant_id plan approved_by executed_by) s))"

end
