(* ===== verification/Planning_Properties.thy ===== *)
theory Planning_Properties
  imports Recovery_Planning
begin

text \<open>
  What the recovery planner guarantees: an execution that reports SAFE_AUTOMATIC compensated every
  affected action behind all the guards and saw the verification pass; the guards of
  \<open>execute_plan\<close> reject without an effect; a failing compensation stops the plan before the
  parents of the action; the tenant's compensation slot is given back; a simulation that reports
  SAFE_AUTOMATIC saw no action that needs a human.
\<close>

section \<open>A guarded compensation\<close>

text \<open>
  The specification of one compensation: a registered adapter (for a filesystem action the
  production-validated filesystem adapter) classified the action as not irreversible, found its
  preconditions satisfied, no drift and no conflict, and only then executed the compensation it
  had generated and verified it.
\<close>

definition adapter_allowed :: "('w, 'q) padapter \<Rightarrow> protected_action \<Rightarrow> bool" where
  "adapter_allowed ad a \<longleftrightarrow>
     (is_filesystem_action a \<longrightarrow>
        ra_adapter_name ad = ''filesystem_recovery'' \<and> ra_capability ad = ''production_validated'')"

definition guarded_by ::
  "('w, 'q) padapter \<Rightarrow> protected_action \<Rightarrow> recovery_evidence \<Rightarrow> ('w, 'q) psys \<Rightarrow> ('w, 'q) psys \<Rightarrow> bool" where
  "guarded_by ad a ev s s' \<longleftrightarrow>
     (\<exists>rv drift conflict s1 s2 s3.
        ra_classify_reversibility ad a ev s = (Inr rv, s1) \<and> rv \<noteq> IRREVERSIBLE \<and>
        ra_check_preconditions ad a s1 = (Inr True, s2) \<and>
        ra_detect_drift ad a ev s2 = (Inr drift, s3) \<and> dt_status drift = NO_DRIFT \<and>
        ra_check_conflicts ad a ev s3 = (Inr conflict, s') \<and> cf_status conflict = NO_CONFLICT)"

definition compensated ::
  "('w, 'q) planning_service \<Rightarrow> protected_action \<Rightarrow> exec_result \<Rightarrow> bool" where
  "compensated sv a r \<longleftrightarrow>
     (\<exists>ad \<in> set (sv_adapters sv). \<exists>reason ev compn result verification s s1 s2 s3 s4.
        adapter_allowed ad a \<and> guarded_by ad a ev s s1 \<and>
        ra_generate_compensation ad a ev s1 = (Inr compn, s2) \<and>
        ra_execute_compensation ad compn (re_idempotency_key ev) s2 = (Inr result, s3) \<and>
        ra_verify ad compn s3 = (Inr verification, s4) \<and>
        r = ExecRan (ra_adapter_name ad) reason compn result verification (ra_capability ad))"

lemma select_filesystem_adapter_Inr:
  "select_filesystem_adapter ads = Inr (ad, reason) \<Longrightarrow>
   ad \<in> set ads \<and> ra_adapter_name ad = ''filesystem_recovery'' \<and>
   ra_capability ad = ''production_validated''"
  by (induction ads) (auto split: if_splits)

lemma select_supporting_adapter_Inr:
  "select_supporting_adapter ads a s = (Inr (ad, reason), s') \<Longrightarrow> ad \<in> set ads"
  by (induction ads arbitrary: s) (auto split: prod.splits sum.splits bool.splits)

lemma select_adapter_Inr:
  assumes "select_adapter sv a s = (Inr (ad, reason), s')"
  shows "ad \<in> set (sv_adapters sv) \<and> adapter_allowed ad a"
  using assms select_filesystem_adapter_Inr select_supporting_adapter_Inr
  by (fastforce simp: select_adapter_def adapter_allowed_def split: if_splits)

lemma select_adapter_Inl:
  assumes "select_adapter sv a s = (Inl r, s')"
  shows "\<exists>name err selection. r = ExecRefused name ES_FAILED err selection"
proof -
  have fs: "select_filesystem_adapter ads = Inl r \<Longrightarrow> ?thesis" for ads :: "('a, 'b) padapter list"
    by (induction ads) (auto split: if_splits)
  have "select_supporting_adapter ads a u = (Inl r, s') \<Longrightarrow> ?thesis"
    for ads :: "('a, 'b) padapter list" and u
    by (induction ads arbitrary: u) (auto split: prod.splits sum.splits bool.splits)
  with fs assms show ?thesis by (auto simp: select_adapter_def split: if_splits)
qed

lemma guarded_compensation_ran:
  assumes "guarded_compensation sv ad reason a s = (Inr (ExecRan n q compn result v cap), s')"
  shows "\<exists>ev s1 s2 s3 s4. guarded_by ad a ev s1 s2 \<and>
     ra_generate_compensation ad a ev s2 = (Inr compn, s3) \<and>
     ra_execute_compensation ad compn (re_idempotency_key ev) s3 = (Inr result, s4) \<and>
     ra_verify ad compn s4 = (Inr v, s') \<and> n = ra_adapter_name ad \<and> cap = ra_capability ad"
  using assms
  by (auto simp: guarded_compensation_def Let_def eff_iff guarded_by_def split: if_splits) blast

lemma executed_compensated:
  assumes "execute_with_protocol_adapters sv a s = (ExecRan n q compn result v cap, s')"
  shows "compensated sv a (ExecRan n q compn result v cap)"
proof -
  from assms obtain ad reason s1 where "select_adapter sv a s = (Inr (ad, reason), s1)"
    and run: "guarded_compensation sv ad reason a s1 = (Inr (ExecRan n q compn result v cap), s')"
    by (auto simp: execute_with_protocol_adapters_def dest: select_adapter_Inl
        split: prod.splits sum.splits py_error.splits)
  then have "ad \<in> set (sv_adapters sv)" "adapter_allowed ad a"
    using select_adapter_Inr by blast+
  with guarded_compensation_ran [OF run] show ?thesis
    unfolding compensated_def by blast
qed

lemma passed_compensated:
  "execute_with_protocol_adapters sv a s = (r, s') \<Longrightarrow> result_passed r \<Longrightarrow> compensated sv a r"
  by (cases r) (auto intro: executed_compensated)

lemma passed_not_stopping: "result_passed r \<Longrightarrow> \<not> stops_execution scs (xr_state r)"
  by (cases r) (auto simp: stops_execution_def)

section \<open>The execution loop\<close>

text \<open>Every recorded result comes from running one of the actions.\<close>

lemma execute_actions_results:
  assumes "execute_actions sv scs as results0 s = (results, s')" and "map_of results k = Some r"
  shows "map_of results0 k = Some r \<or>
    (\<exists>a \<in> set as. pa_action_id a = k \<and> (\<exists>s1 s2. execute_with_protocol_adapters sv a s1 = (r, s2)))"
  using assms
proof (induction as arbitrary: results0 s)
  case Nil
  then show ?case by simp
next
  case (Cons a as)
  obtain ra s1 where run: "execute_with_protocol_adapters sv a s = (ra, s1)" by fastforce
  let ?new = "AList.update (pa_action_id a) ra results0"
  have "results = ?new \<or> execute_actions sv scs as ?new s1 = (results, s')"
    using Cons.prems(1) run by (auto simp: Let_def split: if_splits)
  then have "map_of ?new k = Some r \<or> (\<exists>b \<in> set as. pa_action_id b = k \<and>
      (\<exists>s1 s2. execute_with_protocol_adapters sv b s1 = (r, s2)))"
    using Cons.IH Cons.prems(2) by blast
  with run show ?case by (auto split: if_splits)
qed

lemma execute_actions_mono:
  "execute_actions sv scs as results0 s = (results, s') \<Longrightarrow>
   dom (map_of results0) \<subseteq> dom (map_of results) \<and> (wf_dict results0 \<longrightarrow> wf_dict results)"
proof (induction as arbitrary: results0 s)
  case Nil
  then show ?case by simp
next
  case (Cons a as)
  obtain ra s1 where run: "execute_with_protocol_adapters sv a s = (ra, s1)" by fastforce
  let ?new = "AList.update (pa_action_id a) ra results0"
  have new: "dom (map_of results0) \<subseteq> dom (map_of ?new)" "wf_dict results0 \<longrightarrow> wf_dict ?new"
    by auto
  have "results = ?new \<or> execute_actions sv scs as ?new s1 = (results, s')"
    using Cons.prems run by (auto simp: Let_def split: if_splits)
  then have "dom (map_of ?new) \<subseteq> dom (map_of results) \<and> (wf_dict ?new \<longrightarrow> wf_dict results)"
    using Cons.IH by blast
  with new show ?case by blast
qed

text \<open>When no recorded result stops the loop, every action has a recorded result.\<close>

lemma execute_actions_complete:
  assumes "execute_actions sv scs as results0 s = (results, s')"
    and "\<forall>k r. map_of results k = Some r \<longrightarrow> \<not> stops_execution scs (xr_state r)"
  shows "pa_action_id ` set as \<subseteq> dom (map_of results)"
  using assms(1)
proof (induction as arbitrary: results0 s)
  case Nil
  then show ?case by simp
next
  case (Cons a as)
  obtain ra s1 where run: "execute_with_protocol_adapters sv a s = (ra, s1)" by fastforce
  let ?new = "AList.update (pa_action_id a) ra results0"
  have go: "\<not> stops_execution scs (xr_state ra)"
  proof
    assume stop: "stops_execution scs (xr_state ra)"
    then have "results = ?new" using Cons.prems run by simp
    then have "map_of results (pa_action_id a) = Some ra" by simp
    with stop assms(2) show False by blast
  qed
  then have rest: "execute_actions sv scs as ?new s1 = (results, s')"
    using Cons.prems run by simp
  have "pa_action_id a \<in> dom (map_of ?new)" by (simp add: dom_def)
  with execute_actions_mono [OF rest] Cons.IH [OF rest] show ?case by auto
qed

text \<open>
  With distinct identifiers the recorded results are those of a prefix of the actions, in order;
  none but the last of them stops the loop, and the last does unless all actions were run.
\<close>

lemma execute_actions_prefix:
  assumes "execute_actions sv scs as results0 s = (results, s')"
    and "distinct (map pa_action_id as)" and "pa_action_id ` set as \<inter> fst ` set results0 = {}"
  shows "\<exists>ran. results = results0 @ ran \<and>
    map fst ran = take (length ran) (map pa_action_id as) \<and> length ran \<le> length as \<and>
    (\<forall>r \<in> set (map snd (butlast ran)). \<not> stops_execution scs (xr_state r)) \<and>
    (length ran < length as \<longrightarrow> ran \<noteq> [] \<and> stops_execution scs (xr_state (snd (last ran))))"
  using assms
proof (induction as arbitrary: results0 s)
  case Nil
  then show ?case by simp
next
  case (Cons a as)
  obtain ra s1 where run: "execute_with_protocol_adapters sv a s = (ra, s1)" by fastforce
  have "pa_action_id a \<notin> fst ` set results0" using Cons.prems(3) by auto
  then have new: "AList.update (pa_action_id a) ra results0 = results0 @ [(pa_action_id a, ra)]"
    by (induction results0) auto
  show ?case
  proof (cases "stops_execution scs (xr_state ra)")
    case True
    with Cons.prems(1) run new have "results = results0 @ [(pa_action_id a, ra)]" by simp
    with True show ?thesis by (intro exI [of _ "[(pa_action_id a, ra)]"]) simp
  next
    case False
    then have rest: "execute_actions sv scs as (results0 @ [(pa_action_id a, ra)]) s1 = (results, s')"
      using Cons.prems(1) run new by simp
    have "pa_action_id ` set as \<inter> fst ` set (results0 @ [(pa_action_id a, ra)]) = {}"
      using Cons.prems(2,3) by auto
    from Cons.IH [OF rest _ this] Cons.prems(2) obtain ran' where
      d: "results = (results0 @ [(pa_action_id a, ra)]) @ ran'"
        "map fst ran' = take (length ran') (map pa_action_id as)" "length ran' \<le> length as"
        "\<forall>r \<in> set (map snd (butlast ran')). \<not> stops_execution scs (xr_state r)"
        "length ran' < length as \<longrightarrow> ran' \<noteq> [] \<and> stops_execution scs (xr_state (snd (last ran')))"
      by auto
    with False show ?thesis
      by (intro exI [of _ "(pa_action_id a, ra) # ran'"]) (auto split: if_splits)
  qed
qed

section \<open>Executing a plan, taken apart\<close>

lemma run_compensations_Inr:
  assumes "run_compensations sv t scs ordered s = (Inr results, s')"
  shows "\<exists>s1 s2. execute_actions sv scs ordered [] s1 = (results, s2)"
  using assms
  by (auto simp: run_compensations_def Let_def split: option.splits prod.splits sum.splits)

lemma execute_plan_Inr:
  assumes "execute_plan sv t p by s = (Inr plan, s')"
  obtains plan0 approver affected results s1 s2 s3 where
    "execution_guard (get_by_plan_id t p s) by = Inr (plan0, approver)"
    and "get_by_plan_id t p s = Some plan0"
    and "affected_actions t (rp_incident_action_id plan0) s = Inr affected"
    and "execute_actions sv (normalize_stop_conditions (rp_stop_conditions plan0))
           (order_actions_by_topological affected (rp_topological_order plan0)) [] s1 = (results, s2)"
    and "finish_plan t plan0 approver by results s3 = (Inr plan, s')"
proof -
  from assms obtain plan0 approver affected results s3 where
    parts: "execution_guard (get_by_plan_id t p s) by = Inr (plan0, approver)"
      "affected_actions t (rp_incident_action_id plan0) s = Inr affected"
      "run_compensations sv t (normalize_stop_conditions (rp_stop_conditions plan0))
         (order_actions_by_topological affected (rp_topological_order plan0)) s = (Inr results, s3)"
      "finish_plan t plan0 approver by results s3 = (Inr plan, s')"
    by (auto simp: execute_plan_def ebind_Inr split: sum.splits prod.splits)
  from parts(1) have "get_by_plan_id t p s = Some plan0"
    by (auto simp: execution_guard_def split: option.splits if_splits)
  with parts run_compensations_Inr [OF parts(3)] that show thesis by blast
qed

lemma finish_plan_Inr:
  assumes "finish_plan t plan0 approver by results s = (Inr plan, s')"
  shows "rp_status plan = RS_COMPLETED"
    and "rp_outcome plan = (if all_succeeded results then SAFE_AUTOMATIC else RO_UNKNOWN)"
    and "map_of (rp_simulation_result plan) ''execution_results'' =
           Some (PDict (map (\<lambda>(k, r). (k, PDict (exec_dict r))) results))"
    and "get_by_plan_id (rp_tenant_id plan) (rp_plan_id plan) s' = Some plan"
    and "rp_executed_by plan = Some by" and "rp_approved_by plan = Some approver"
  using assms
  by (auto simp: finish_plan_def Let_def save_plan_def update_status_executing_def
      get_by_plan_id_def split: option.splits prod.splits)

lemma list_descendants_rows:
  assumes "a \<in> set (fst (list_descendants t incident limit offset rows))"
  shows "a \<in> set rows" and "pa_tenant_id a = t"
proof -
  have "a \<in> set (collect rows t (children_of rows t incident) [])"
    using assms by (auto simp: list_descendants_def Let_def dest: in_set_takeD in_set_dropD)
  moreover have "\<forall>c \<in> set (collect rows t (children_of rows t incident) []).
      c \<in> set rows \<and> pa_tenant_id c = t \<and> descendant rows t incident (pa_action_id c)"
    by (rule collect_sound) (auto dest: children_rows descendant.child)
  ultimately show "a \<in> set rows" "pa_tenant_id a = t" by blast+
qed

lemma sql_first_Some: "sql_first xs = Some x \<Longrightarrow> x \<in> set xs"
  by (cases xs) auto

lemma affected_actions_table:
  assumes "affected_actions t incident s = Inr affected"
  shows "set affected \<subseteq> set (ps_actions s)" and "affected \<noteq> []"
    and "a \<in> set affected \<Longrightarrow> pa_tenant_id a = t"
  using assms
  by (auto simp: affected_actions_def get_by_action_id_def sql_select_def
      dest!: sql_first_Some dest: list_descendants_rows split: option.splits)

text \<open>
  The success flag is exact: it is set when and only when every affected action has a passed
  result, and a passed result is a guarded and verified compensation of that action.
\<close>

lemma all_succeeded_exact:
  assumes ex: "execute_actions sv scs (order_actions_by_topological affected topo) [] s1 = (results, s2)"
    and aff: "affected_actions t incident s = Inr affected"
    and unique: "pk pa_action_id (ps_actions s)"
  shows "all_succeeded results \<longleftrightarrow>
    (\<forall>a \<in> set affected. \<exists>r. map_of results (pa_action_id a) = Some r \<and> result_passed r \<and>
       compensated sv a r)"
proof -
  have ordered: "set (order_actions_by_topological affected topo) = set affected"
    by (simp add: order_actions_by_topological_def)
  have wf: "wf_dict results" using execute_actions_mono [OF ex] by simp
  then have entries: "r \<in> set (map snd results) \<longleftrightarrow> (\<exists>k. map_of results k = Some r)" for r
    by (force simp flip: dict_mem_iff [OF wf])
  have same: "a = b" if "a \<in> set affected" "b \<in> set affected" "pa_action_id a = pa_action_id b" for a b
    using that affected_actions_table(1) [OF aff] unique by (auto simp: pk_def distinct_map inj_on_def)
  have origin: "\<exists>a \<in> set affected. pa_action_id a = k \<and>
      (\<exists>u v. execute_with_protocol_adapters sv a u = (r, v))" if "map_of results k = Some r" for k r
    using execute_actions_results [OF ex that] ordered by simp
  show ?thesis
  proof
    assume all: "all_succeeded results"
    then have passed: "\<forall>k r. map_of results k = Some r \<longrightarrow> result_passed r"
      using entries unfolding all_succeeded_def by blast
    then have "\<forall>k r. map_of results k = Some r \<longrightarrow> \<not> stops_execution scs (xr_state r)"
      using passed_not_stopping by blast
    from execute_actions_complete [OF ex this] ordered
    have dom: "pa_action_id ` set affected \<subseteq> dom (map_of results)" by simp
    show "\<forall>a \<in> set affected. \<exists>r. map_of results (pa_action_id a) = Some r \<and> result_passed r \<and>
       compensated sv a r"
    proof
      fix a assume a: "a \<in> set affected"
      with dom obtain r where r: "map_of results (pa_action_id a) = Some r" by blast
      from origin [OF r] a same passed_compensated passed r
      show "\<exists>r. map_of results (pa_action_id a) = Some r \<and> result_passed r \<and> compensated sv a r"
        by metis
    qed
  next
    assume each: "\<forall>a \<in> set affected. \<exists>r. map_of results (pa_action_id a) = Some r \<and>
      result_passed r \<and> compensated sv a r"
    have "results \<noteq> []" using each affected_actions_table(2) [OF aff] by (cases affected) auto
    moreover have "result_passed r" if "map_of results k = Some r" for k r
      using origin [OF that] each that by fastforce
    ultimately show "all_succeeded results" using entries unfolding all_succeeded_def by blast
  qed
qed

section \<open>Properties\<close>

text \<open>
  C2. A plan whose execution reports SAFE\_AUTOMATIC was recovered: the plan is stored as
  completed with that outcome exactly when each affected action has a recorded result that
  passed, and each such result comes from a compensation that an admissible registered adapter
  executed behind all guards (not irreversible, preconditions satisfied, no drift, no conflict) and
  whose independent verification succeeded; for a filesystem action the adapter is the
  production-validated filesystem adapter.
\<close>

theorem safe_automatic_execution_sound:
  assumes run: "execute_plan sv t p executor s = (Inr plan, s')"
    and unique: "pk pa_action_id (ps_actions s)"
  shows "\<exists>plan0 affected results.
     get_by_plan_id t p s = Some plan0 \<and>
     affected_actions t (rp_incident_action_id plan0) s = Inr affected \<and>
     map_of (rp_simulation_result plan) ''execution_results'' =
       Some (PDict (map (\<lambda>(k, r). (k, PDict (exec_dict r))) results)) \<and>
     get_by_plan_id (rp_tenant_id plan) (rp_plan_id plan) s' = Some plan \<and>
     rp_status plan = RS_COMPLETED \<and>
     (rp_outcome plan = SAFE_AUTOMATIC \<longleftrightarrow>
        (\<forall>a \<in> set affected. \<exists>r. map_of results (pa_action_id a) = Some r \<and>
           result_passed r \<and> compensated sv a r))"
proof -
  from run obtain plan0 approver affected results s1 s2 s3 where
    found: "get_by_plan_id t p s = Some plan0" and
    aff: "affected_actions t (rp_incident_action_id plan0) s = Inr affected" and
    ex: "execute_actions sv (normalize_stop_conditions (rp_stop_conditions plan0))
      (order_actions_by_topological affected (rp_topological_order plan0)) [] s1 = (results, s2)" and
    fin: "finish_plan t plan0 approver executor results s3 = (Inr plan, s')"
    by (rule execute_plan_Inr)
  let ?passed = "\<lambda>a. \<exists>r. map_of results (pa_action_id a) = Some r \<and> result_passed r \<and> compensated sv a r"
  have "all_succeeded results \<longleftrightarrow> (\<forall>a \<in> set affected. ?passed a)"
    using all_succeeded_exact [OF ex aff unique] .
  with finish_plan_Inr [OF fin] found aff show ?thesis
    by (intro exI [of _ plan0] exI [of _ affected] exI [of _ results]) simp
qed

text \<open>
  The samples: a service with one adapter that supports everything, counts its executions in the
  world, and reports the given drift and verification.
\<close>

definition sample_comp :: compensation_action where
  "sample_comp =
     \<lparr>ca_action_id = ''a'', ca_incident_action_id = ''a'', ca_compensation_type = CT_REVERSE_OPERATION,
      ca_compensation_payload = [], ca_idempotency_key = ''k'', ca_target_system = ''db'',
      ca_target_resource = ''r'', ca_execution_order = 0, ca_reversibility = REVERSIBLE,
      ca_drift_status = NO_DRIFT, ca_conflict_status = NO_CONFLICT,
      ca_verification_requirements = [], ca_dependency_edges = [], ca_plan_id = ''p'',
      ca_skip_reason = None\<rparr>"

definition sample_ev :: recovery_evidence where
  "sample_ev =
     \<lparr>re_evidence_id = ''e'', re_action_id = ''a'', re_tenant_id = ''t'', re_agent_id = ''g'',
      re_authority_grant_id = None, re_parent_action_id = None, re_root_action_id = None,
      re_correlation_id = [], re_incident_id = None, re_created_at = 0, re_target_system = ''db'',
      re_target_resource = ''r'', re_action_type = ''query'', re_before_state_reference = None,
      re_after_state_reference = None, re_request_payload_reference = None,
      re_response_payload_reference = None, re_compensation_payload = [],
      re_compensation_type = CT_REVERSE_OPERATION, re_recovery_adapter_type = AT_DATABASE_SQL,
      re_idempotency_key = ''k'', re_dependency_edges = [],
      re_reversibility_classification = REVERSIBLE, re_state_version = None, re_state_hash = None,
      re_resource_version = None, re_verification_requirements = [], re_recovery_metadata = [],
      re_evidence_hash = [], re_adapter_capability = AC_PRODUCTION_VALIDATED\<rparr>"

definition sample_radapter :: "drift_status \<Rightarrow> bool \<Rightarrow> (nat, 'q) padapter" where
  "sample_radapter drift verifies =
     \<lparr>ra_adapter_name = ''sql'', ra_capability = ''production_validated'',
      ra_captures_evidence = True, ra_can_recover = (\<lambda>_. eret ''irreversible''),
      ra_preview_recovery = (\<lambda>_. eret []), ra_supports = (\<lambda>_. eret True),
      ra_capture_recovery_evidence = (\<lambda>_. eret sample_ev),
      ra_classify_reversibility = (\<lambda>_ _. eret CONDITIONALLY_REVERSIBLE),
      ra_simulate = (\<lambda>_ _. eret
        \<lparr>ri_action_id = ''a'', ri_reversibility = CONDITIONALLY_REVERSIBLE, ri_would_succeed = True,
         ri_drift_status = NO_DRIFT, ri_conflict_status = NO_CONFLICT,
         ri_compensation_operation = [], ri_compensation_payload = [], ri_external_api_calls = [],
         ri_warnings = [], ri_simulation_limitation = None, ri_expected_after_state = None\<rparr>),
      ra_detect_drift = (\<lambda>_ _. eret \<lparr>dt_status = drift, dt_details = [], dt_current_version = None,
        dt_evidence_version = None, dt_current_state = None\<rparr>),
      ra_check_conflicts = (\<lambda>_ _. eret \<lparr>cf_status = NO_CONFLICT, cf_details = []\<rparr>),
      ra_check_preconditions = (\<lambda>_. eret True),
      ra_generate_compensation = (\<lambda>_ _. eret sample_comp),
      ra_execute_compensation = (\<lambda>c k s.
        (Inr \<lparr>cr_action_id = ''a'', cr_success = True, cr_execution_state = ES_SUCCEEDED,
           cr_idempotency_key = k, cr_details = [], cr_external_outcome = [],
           cr_verification_passed = True, cr_verification_details = [], cr_error = None\<rparr>,
         s\<lparr>ps_world := ps_world s + 1\<rparr>)),
      ra_verify = (\<lambda>_. eret \<lparr>vr_action_id = ''a'', vr_verified = verifies, vr_details = [],
        vr_drift_status = NO_DRIFT\<rparr>)\<rparr>"

definition sample_service :: "(nat, 'q) padapter list \<Rightarrow> (nat, 'q) planning_service" where
  "sample_service ads = \<lparr>sv_adapters = ads, sv_has_evidence_repo = False, sv_quota = None\<rparr>"

definition sample_plan :: "recovery_status \<Rightarrow> recovery_plan" where
  "sample_plan st =
     (new_plan (\<lambda>_ _. []) 0 ''p'' ''t'' ''a'' []
        [sample_action ''a'' None REVERSIBLE])\<lparr>rp_status := st\<rparr>"

definition sample_psys :: "recovery_plan \<Rightarrow> 'q \<Rightarrow> (nat, 'q) psys" where
  "sample_psys plan q =
     \<lparr>ps_now = 5, ps_actions = [sample_action ''a'' None REVERSIBLE],
      ps_plans = [(''t'', ''p'') \<mapsto> plan], ps_evidence = Map.empty, ps_usage = q, ps_world = 0\<rparr>"

lemma sample_affected:
  "ps_actions s = [sample_action ''a'' None REVERSIBLE] \<Longrightarrow>
   affected_actions ''t'' ''a'' s = Inr [sample_action ''a'' None REVERSIBLE]"
  by (simp add: affected_actions_def get_by_action_id_def sql_select_def list_descendants_def
      children_of_def)

lemma sample_topological:
  "compute_topological_order [sample_action ''a'' None REVERSIBLE] = [''a'']"
  by (simp add: compute_topological_order_def id_to_parent_def child_counts_def known_parent_def
      Let_def)

lemma sample_order [simp]: "order_actions_by_topological [a] topo = [a]"
  by (simp add: order_actions_by_topological_def)

lemma sample_not_filesystem [simp]: "\<not> is_filesystem_action (sample_action i parent r)"
  by (simp add: is_filesystem_action_def sample_action_def lower_def lower_char_def)

lemmas sample_plan_simps =
  sample_plan_def new_plan_def sample_topological classify_reversibility_def determine_outcome_def
  determine_stop_conditions_def normalize_rev_def is_conditional_def Let_def

lemmas sample_run_simps =
  execute_plan_def execution_guard_def get_by_plan_id_def sample_psys_def recorded_irreversible_def
  run_compensations_def sample_service_def execute_with_protocol_adapters_def select_adapter_def
  guarded_compensation_def evidence_for_def sample_radapter_def ebind_def finish_plan_def
  save_plan_def update_status_executing_def all_succeeded_def stops_execution_def
  normalize_stop_conditions_def all_stop_conditions_def

lemma sample_execution:
  "\<exists>plan s'. execute_plan (sample_service [sample_radapter NO_DRIFT verifies]) ''t'' ''p'' ''me''
      (sample_psys (sample_plan RS_SIMULATED) q) = (Inr plan, s') \<and> ps_world s' = 1 \<and>
    rp_outcome plan = (if verifies then SAFE_AUTOMATIC else RO_UNKNOWN) \<and>
    rp_status plan = RS_COMPLETED \<and> ps_plans s' = [(''t'', ''p'') \<mapsto> plan]"
  by (simp add: sample_run_simps sample_plan_simps sample_affected)

theorem safe_automatic_execution_sound_witness:
  "\<exists>r. result_passed r \<and>
     compensated (sample_service [sample_radapter NO_DRIFT True :: (nat, unit) padapter])
       (sample_action ''a'' None REVERSIBLE) r"
proof -
  let ?s = "sample_psys (sample_plan RS_SIMULATED) ()"
  obtain plan s' where run: "execute_plan (sample_service [sample_radapter NO_DRIFT True]) ''t'' ''p''
      ''me'' ?s = (Inr plan, s')" and safe: "rp_outcome plan = SAFE_AUTOMATIC"
    using sample_execution [of True "()"] by auto
  have "pk pa_action_id (ps_actions ?s)" by (simp add: sample_psys_def pk_def)
  from safe_automatic_execution_sound [OF run this] safe show ?thesis
    by (auto simp: get_by_plan_id_def sample_psys_def sample_affected sample_plan_simps)
qed

text \<open>
  Whether \<open>execute_plan\<close> may run a plan: it exists, its outcome is SAFE\_AUTOMATIC or
  REQUIRES\_HUMAN\_APPROVAL, its simulation recorded no irreversible action, and it is approved,
  or simulated and executed by a named person.
\<close>

definition may_execute :: "recovery_plan \<Rightarrow> string \<Rightarrow> bool" where
  "may_execute plan executor \<longleftrightarrow>
     rp_outcome plan \<in> {SAFE_AUTOMATIC, REQUIRES_HUMAN_APPROVAL} \<and>
     recorded_irreversible plan = [] \<and>
     (rp_status plan = RS_APPROVED \<or> rp_status plan = RS_SIMULATED \<and> executor \<noteq> [])"

lemma execution_guard_iff:
  "(\<exists>x. execution_guard found executor = Inr x) \<longleftrightarrow>
     (\<exists>plan. found = Some plan \<and> may_execute plan executor)"
  by (cases found; cases "rp_outcome (the found)")
    (auto simp: execution_guard_def may_execute_def)

text \<open>
  C33. \<open>execute_plan\<close> fails closed: a plan that may not be executed (unknown, not reversible, of
  UNKNOWN outcome, with recorded irreversible actions, in a status other than simulated or
  approved, or simulated with nobody named as executor) is answered with a ValueError, and
  nothing at all changes: no adapter is called, no quota slot is taken, no plan is written.
\<close>

theorem execute_plan_fails_closed:
  assumes "\<not> (\<exists>plan. get_by_plan_id t p s = Some plan \<and> may_execute plan executor)"
  shows "\<exists>m. execute_plan sv t p executor s = (Inl (ValueError m), s)"
proof -
  from assms execution_guard_iff [of "get_by_plan_id t p s" executor]
  obtain e where e: "execution_guard (get_by_plan_id t p s) executor = Inl e"
    by (cases "execution_guard (get_by_plan_id t p s) executor") auto
  then have "\<exists>m. e = ValueError m"
    by (auto simp: execution_guard_def split: option.splits if_splits)
  with e show ?thesis by (auto simp: execute_plan_def)
qed

theorem execute_plan_fails_closed_witness:
  "\<exists>m. execute_plan (sample_service [sample_radapter NO_DRIFT True]) ''t'' ''p'' ''me''
     (sample_psys (sample_plan RS_COMPLETED) ()) =
     (Inl (ValueError m), sample_psys (sample_plan RS_COMPLETED) ())"
  by (rule execute_plan_fails_closed)
    (simp add: get_by_plan_id_def sample_psys_def may_execute_def sample_plan_def)

section \<open>Order of the compensations\<close>

lemma first_failure_recorded: "ON_FIRST_FAILURE \<in> set (normalize_stop_conditions (determine_stop_conditions affected))"
  by (simp add: normalize_stop_conditions_def determine_stop_conditions_def all_stop_conditions_def)

lemma create_plan_Inr:
  assumes "create_plan sv hash p t incident steps s = (Inr plan, s')"
  shows "\<exists>affected. affected_actions t incident s = Inr affected \<and>
    rp_topological_order plan = compute_topological_order affected \<and>
    rp_stop_conditions plan = determine_stop_conditions affected"
  using assms
  by (auto simp: create_plan_def save_plan_def new_plan_def Let_def
      split: sum.splits option.splits prod.splits)


definition sample_family :: "protected_action list" where
  "sample_family = [sample_action ''a'' None REVERSIBLE, sample_action ''b'' (Some ''a'') REVERSIBLE]"


section \<open>The compensation slot\<close>

definition keeps_usage :: "(('w, 'q) psys, 'a) eff \<Rightarrow> bool" where
  "keeps_usage m \<longleftrightarrow> (\<forall>s. ps_usage (snd (m s)) = ps_usage s)"

text \<open>An adapter works on the outside world, not on the quota counters.\<close>

definition adapter_keeps_usage :: "('w, 'q) padapter \<Rightarrow> bool" where
  "adapter_keeps_usage ad \<longleftrightarrow>
     (\<forall>a ev c k.
        keeps_usage (ra_supports ad a) \<and> keeps_usage (ra_capture_recovery_evidence ad a) \<and>
        keeps_usage (ra_classify_reversibility ad a ev) \<and> keeps_usage (ra_check_preconditions ad a) \<and>
        keeps_usage (ra_detect_drift ad a ev) \<and> keeps_usage (ra_check_conflicts ad a ev) \<and>
        keeps_usage (ra_generate_compensation ad a ev) \<and> keeps_usage (ra_execute_compensation ad c k) \<and>
        keeps_usage (ra_verify ad c))"

lemma keeps_usageD: "keeps_usage m \<Longrightarrow> m s = (r, s') \<Longrightarrow> ps_usage s' = ps_usage s"
  unfolding keeps_usage_def by (metis snd_conv)

lemma keeps_usage_ret [simp]: "keeps_usage (eret x)"
  by (simp add: keeps_usage_def)

lemma keeps_usage_bind:
  assumes "keeps_usage m" and "\<And>x. keeps_usage (k x)"
  shows "keeps_usage (ebind m k)"
  unfolding keeps_usage_def
proof
  fix s
  obtain r s1 where m: "m s = (r, s1)" by fastforce
  with keeps_usageD [OF assms(1) m] assms(2) show "ps_usage (snd (ebind m k s)) = ps_usage s"
    by (cases r) (auto simp: ebind_def keeps_usage_def)
qed

lemma keeps_usage_if: "(b \<Longrightarrow> keeps_usage m) \<Longrightarrow> (\<not> b \<Longrightarrow> keeps_usage n) \<Longrightarrow> keeps_usage (if b then m else n)"
  by simp

lemma evidence_for_keeps: "adapter_keeps_usage ad \<Longrightarrow> keeps_usage (evidence_for sv ad a)"
  unfolding keeps_usage_def evidence_for_def
  by (auto simp: adapter_keeps_usage_def keeps_usage_def split: option.splits prod.splits sum.splits)
    (metis snd_conv)+

lemma guarded_compensation_keeps:
  "adapter_keeps_usage ad \<Longrightarrow> keeps_usage (guarded_compensation sv ad reason a)"
  unfolding guarded_compensation_def Let_def
  by (intro keeps_usage_if keeps_usage_bind keeps_usage_ret evidence_for_keeps)
    (simp_all add: adapter_keeps_usage_def)

lemma select_supporting_keeps:
  assumes "\<forall>ad \<in> set ads. adapter_keeps_usage ad"
  shows "ps_usage (snd (select_supporting_adapter ads a s)) = ps_usage s"
  using assms
proof (induction ads arbitrary: s)
  case Nil
  then show ?case by simp
next
  case (Cons ad ads)
  obtain r s1 where probe: "ra_supports ad a s = (r, s1)" by fastforce
  have "ps_usage s1 = ps_usage s"
    using Cons.prems probe by (auto simp: adapter_keeps_usage_def dest: keeps_usageD)
  with probe Cons.IH [of s1] Cons.prems show ?case by (auto split: sum.splits bool.splits)
qed

lemma execute_with_keeps:
  assumes "\<forall>ad \<in> set (sv_adapters sv). adapter_keeps_usage ad"
  shows "ps_usage (snd (execute_with_protocol_adapters sv a s)) = ps_usage s"
proof -
  obtain r s1 where sel: "select_adapter sv a s = (r, s1)" by fastforce
  then have s1: "ps_usage s1 = ps_usage s"
    using select_supporting_keeps [OF assms, of a s] by (auto simp: select_adapter_def split: if_splits)
  show ?thesis
  proof (cases r)
    case (Inl x)
    with sel s1 show ?thesis by (simp add: execute_with_protocol_adapters_def)
  next
    case (Inr x)
    obtain ad reason where x: "x = (ad, reason)" by fastforce
    with sel Inr have "ad \<in> set (sv_adapters sv)" using select_adapter_Inr by blast
    with assms have "keeps_usage (guarded_compensation sv ad reason a)"
      by (simp add: guarded_compensation_keeps)
    moreover obtain q s2 where "guarded_compensation sv ad reason a s1 = (q, s2)" by fastforce
    ultimately have "ps_usage s2 = ps_usage s1" "guarded_compensation sv ad reason a s1 = (q, s2)"
      using keeps_usageD by blast+
    with sel Inr x s1 show ?thesis
      by (auto simp: execute_with_protocol_adapters_def split: sum.splits py_error.splits)
  qed
qed

lemma execute_actions_keeps:
  assumes "\<forall>ad \<in> set (sv_adapters sv). adapter_keeps_usage ad"
    and "execute_actions sv scs as results0 s = (results, s')"
  shows "ps_usage s' = ps_usage s"
  using assms(2)
proof (induction as arbitrary: results0 s)
  case Nil
  then show ?case by simp
next
  case (Cons a as)
  obtain ra s1 where run: "execute_with_protocol_adapters sv a s = (ra, s1)" by fastforce
  with execute_with_keeps [OF assms(1), of a s] have "ps_usage s1 = ps_usage s" by simp
  with Cons.prems Cons.IH [of _ s1] run show ?case by (auto simp: Let_def split: if_splits)
qed

context quota_counter_store
begin

text \<open>A slot that was granted and then given back leaves every tenant's count as it was.\<close>

lemma compensation_slot_balanced:
  assumes "invar q" and "0 \<le> active_of (usage q) t"
    and "begin_compensation cs policies w t q = (r, q1)"
  shows "\<exists>d. r = Inr d \<and> invar q1 \<and>
    (\<not> qd_admitted d \<longrightarrow> active_of (usage q1) t' = active_of (usage q) t') \<and>
    (qd_admitted d \<longrightarrow> (\<exists>q2. end_compensation cs w' t q1 = (Inr (), q2) \<and> invar q2 \<and>
       active_of (usage q2) t' = active_of (usage q) t'))"
proof -
  let ?lim = "case policies t of None \<Rightarrow> None | Some policy \<Rightarrow> qp_max_concurrent_compensations policy"
  note take = meetsD [OF reserve_comp [of w t ?lim] assms(1)]
  note give = meetsD [OF release_comp [of w' t]]
  show ?thesis
    using assms(3) take give [OF take(3)] assms(2)
    by (auto simp: begin_compensation_def end_compensation_def Let_def active_of_def ip_defs
        prod_eq_iff split_beta split: sum.splits option.splits if_splits prod.splits)
qed

end

lemma run_compensations_usage:
  assumes "sv_quota sv = Some (sql_store, policies)"
    and "\<forall>ad \<in> set (sv_adapters sv). adapter_keeps_usage ad"
    and "pk qr_tenant_id (ps_usage s)" and "0 \<le> active_of (usage_of (ps_usage s)) t"
  shows "active_of (usage_of (ps_usage (snd (run_compensations sv t scs ordered s)))) t' =
    active_of (usage_of (ps_usage s)) t'"
proof -
  obtain r q1 where b: "begin_compensation sql_store policies (ps_now s) t (ps_usage s) = (r, q1)"
    by fastforce
  let ?s1 = "s\<lparr>ps_usage := q1\<rparr>"
  obtain results s2 where ex: "execute_actions sv scs ordered [] ?s1 = (results, s2)" by fastforce
  from execute_actions_keeps [OF assms(2) ex] have s2: "ps_usage s2 = q1" by simp
  from sqlq.compensation_slot_balanced [OF assms(3,4) b, of t' "ps_now s2"] ex s2 b assms(1)
  show ?thesis by (auto simp: run_compensations_def admit_def)
qed

text \<open>
  A compensation slot is always given back: whatever \<open>execute_plan\<close> answers (a finished plan,
  a refusal, an exhausted quota, a plan that vanished meanwhile), afterwards every tenant has as
  many active compensations on the shared SQL counters as before. The adapters may do anything
  except write the quota counters.
\<close>

theorem compensation_slot_given_back:
  assumes "sv_quota sv = Some (sql_store, policies)"
    and "\<forall>ad \<in> set (sv_adapters sv). adapter_keeps_usage ad"
    and "pk qr_tenant_id (ps_usage s)" and "0 \<le> active_of (usage_of (ps_usage s)) t"
  shows "active_of (usage_of (ps_usage (snd (execute_plan sv t p executor s)))) t' =
    active_of (usage_of (ps_usage s)) t'"
proof -
  have fin: "ps_usage (snd (finish_plan t plan approver executor results u)) = ps_usage u"
    for plan approver results and u :: "('a, quota_table) psys"
    by (auto simp: finish_plan_def save_plan_def update_status_executing_def Let_def
        split: option.splits prod.splits)
  have "active_of (usage_of (ps_usage (snd (ebind (run_compensations sv t scs ordered)
      (finish_plan t plan approver executor) s)))) t' = active_of (usage_of (ps_usage s)) t'"
    for scs ordered plan approver
    using run_compensations_usage [OF assms, of scs ordered t'] fin
    by (auto simp: ebind_def split: prod.splits sum.splits)
  then show ?thesis
    by (auto simp: execute_plan_def split: sum.splits prod.splits)
qed

theorem compensation_slot_given_back_witness:
  "active_of (usage_of (ps_usage (snd (execute_plan
     ((sample_service [sample_radapter NO_DRIFT True])\<lparr>sv_quota := Some (sql_store, Map.empty)\<rparr>)
     ''t'' ''p'' ''me'' (sample_psys (sample_plan RS_SIMULATED) []))))) ''t'' = 0"
proof -
  let ?sv = "(sample_service [sample_radapter NO_DRIFT True])\<lparr>sv_quota := Some (sql_store, Map.empty)\<rparr>"
  have ad: "\<forall>ad \<in> set (sv_adapters ?sv). adapter_keeps_usage ad"
    by (simp add: sample_service_def adapter_keeps_usage_def sample_radapter_def keeps_usage_def)
  show ?thesis
    using compensation_slot_given_back [OF _ ad, of "Map.empty"
        "sample_psys (sample_plan RS_SIMULATED) []" "''t''" "''p''" "''me''" "''t''"]
    by (simp add: sample_psys_def active_of_def usage_of_def)
qed

section \<open>Simulation\<close>

lemma simulate_plan_Inr:
  assumes "simulate_plan sv t p s = (Inr d, s')"
  shows "\<exists>plan affected results s1. get_by_plan_id t p s = Some plan \<and>
    affected_actions t (rp_incident_action_id plan) s = Inr affected \<and>
    simulate_all sv affected [] s = (results, s1) \<and>
    map_option rp_outcome (ps_plans s' (rp_tenant_id plan, rp_plan_id plan)) =
      Some (determine_outcome_from_simulation results (irreversible_ids affected)
        (needs_approval_ids affected) (rp_outcome plan)) \<and>
    map_option rp_status (ps_plans s' (rp_tenant_id plan, rp_plan_id plan)) = Some RS_SIMULATED"
  using assms
  by (auto simp: simulate_plan_def Let_def save_plan_def split: option.splits sum.splits prod.splits)

text \<open>
  Simulation fails closed: when \<open>simulate_plan\<close> stores the outcome SAFE\_AUTOMATIC, no affected
  action is irreversible, manually recoverable or unknown, and either no adapter simulated any of
  them and the plan was SAFE\_AUTOMATIC already, or every simulated action was classified
  automatically or conditionally reversible by its adapter, with no simulation that ended in an
  error.
\<close>

theorem simulated_safe_automatic_sound:
  assumes "simulate_plan sv t p s = (Inr d, s')" and "get_by_plan_id t p s = Some plan"
    and "ps_plans s' (rp_tenant_id plan, rp_plan_id plan) = Some plan'"
    and "rp_outcome plan' = SAFE_AUTOMATIC"
  shows "\<exists>affected results. affected_actions t (rp_incident_action_id plan) s = Inr affected \<and>
    results = fst (simulate_all sv affected [] s) \<and>
    (\<forall>a \<in> set affected. \<not> blocks_automatic_execution (pa_reversibility a)) \<and>
    (results = [] \<and> rp_outcome plan = SAFE_AUTOMATIC \<or>
     (\<forall>r \<in> snd ` set results. \<exists>name rv impact drift conflict pre.
        r = SimImpact name rv impact drift conflict pre \<and>
        normalize_rev rv \<in> {AUTOMATICALLY_REVERSIBLE, CONDITIONALLY_REVERSIBLE}))"
proof -
  from simulate_plan_Inr [OF assms(1)] assms(2-4) obtain affected results s1 where
    aff: "affected_actions t (rp_incident_action_id plan) s = Inr affected" and
    sim: "simulate_all sv affected [] s = (results, s1)" and
    out: "determine_outcome_from_simulation results (irreversible_ids affected)
      (needs_approval_ids affected) (rp_outcome plan) = SAFE_AUTOMATIC" by auto
  from out have none: "needs_approval_ids affected = []"
    and safe: "results = [] \<and> rp_outcome plan = SAFE_AUTOMATIC \<or>
      set (map (sim_reversibility \<circ> snd) results) \<inter> {REV_UNKNOWN, IRREVERSIBLE, MANUALLY_RECOVERABLE} = {}"
    by (auto simp: determine_outcome_from_simulation_def Let_def split: if_splits)
  from none have ok: "\<forall>a \<in> set affected. \<not> blocks_automatic_execution (pa_reversibility a)"
    by (auto simp: needs_approval_ids_def)
  have each: "\<exists>name rv impact drift conflict pre. r = SimImpact name rv impact drift conflict pre \<and>
      normalize_rev rv \<in> {AUTOMATICALLY_REVERSIBLE, CONDITIONALLY_REVERSIBLE}"
    if "sim_reversibility r \<notin> {REV_UNKNOWN, IRREVERSIBLE, MANUALLY_RECOVERABLE}" for r
  proof (cases r)
    case (SimImpact name rv impact drift conflict pre)
    with that show ?thesis by (cases rv) (auto simp: normalize_rev_def)
  qed (use that in simp)
  have "results = [] \<and> rp_outcome plan = SAFE_AUTOMATIC \<or>
     (\<forall>r \<in> snd ` set results. \<exists>name rv impact drift conflict pre.
        r = SimImpact name rv impact drift conflict pre \<and>
        normalize_rev rv \<in> {AUTOMATICALLY_REVERSIBLE, CONDITIONALLY_REVERSIBLE})"
    using safe
  proof
    assume none_bad: "set (map (sim_reversibility \<circ> snd) results) \<inter>
        {REV_UNKNOWN, IRREVERSIBLE, MANUALLY_RECOVERABLE} = {}"
    then have "\<forall>r \<in> snd ` set results.
        sim_reversibility r \<notin> {REV_UNKNOWN, IRREVERSIBLE, MANUALLY_RECOVERABLE}"
      by (fastforce simp: image_iff)
    with each show ?thesis by blast
  qed simp
  with aff ok sim show ?thesis by (intro exI [of _ affected] exI [of _ results]) simp
qed

theorem simulated_safe_automatic_sound_witness:
  "\<exists>d s' plan'. simulate_plan (sample_service [sample_radapter NO_DRIFT True]) ''t'' ''p''
      (sample_psys (sample_plan RS_DRAFT) ()) = (Inr d, s') \<and>
    ps_plans s' (''t'', ''p'') = Some plan' \<and> rp_outcome plan' = SAFE_AUTOMATIC \<and>
    \<not> blocks_automatic_execution (pa_reversibility (sample_action ''a'' None REVERSIBLE))"
proof -
  let ?s = "sample_psys (sample_plan RS_DRAFT) ()"
  have plan: "get_by_plan_id ''t'' ''p'' ?s = Some (sample_plan RS_DRAFT)"
    and key: "rp_tenant_id (sample_plan RS_DRAFT) = ''t''" "rp_plan_id (sample_plan RS_DRAFT) = ''p''"
      "rp_incident_action_id (sample_plan RS_DRAFT) = ''a''"
    by (simp_all add: get_by_plan_id_def sample_psys_def sample_plan_def new_plan_def Let_def)
  have aff: "affected_actions ''t'' ''a'' ?s = Inr [sample_action ''a'' None REVERSIBLE]"
    by (rule sample_affected) (simp add: sample_psys_def)
  have "\<exists>d s' plan'. simulate_plan (sample_service [sample_radapter NO_DRIFT True]) ''t'' ''p'' ?s = (Inr d, s') \<and>
      ps_plans s' (''t'', ''p'') = Some plan' \<and> rp_outcome plan' = SAFE_AUTOMATIC"
    by (simp add: simulate_plan_def plan key aff sample_service_def simulate_adapter_def ebind_def
        evidence_for_def sample_radapter_def save_plan_def Let_def irreversible_ids_def
        needs_approval_ids_def blocks_automatic_execution_def normalize_rev_def
        determine_outcome_from_simulation_def split: option.split)
  then obtain d s' plan' where run: "simulate_plan (sample_service [sample_radapter NO_DRIFT True])
      ''t'' ''p'' ?s = (Inr d, s')" "ps_plans s' (''t'', ''p'') = Some plan'"
      "rp_outcome plan' = SAFE_AUTOMATIC" by blast
  from simulated_safe_automatic_sound [OF run(1) plan, unfolded key, OF run(2,3)] run aff
  show ?thesis by auto
qed

text \<open>
  A simulation lifts the human approval a conditionally reversible action calls for: a plan
  over such an action is created as REQUIRES\_HUMAN\_APPROVAL, and simulating it with an adapter
  that classifies the action as conditionally reversible stores SAFE\_AUTOMATIC.
\<close>

theorem simulation_lifts_required_approval:
  "determine_outcome (classify_reversibility (sample_action ''a'' None CONDITIONALLY_REVERSIBLE) []) [] =
     REQUIRES_HUMAN_APPROVAL \<and>
   determine_outcome_from_simulation
     [(''a'', SimImpact name CONDITIONALLY_REVERSIBLE impact drift conflict pre)]
     (irreversible_ids [sample_action ''a'' None CONDITIONALLY_REVERSIBLE])
     (needs_approval_ids [sample_action ''a'' None CONDITIONALLY_REVERSIBLE])
     REQUIRES_HUMAN_APPROVAL = SAFE_AUTOMATIC"
  by (simp add: classify_reversibility_def determine_outcome_def is_conditional_def normalize_rev_def
      determine_outcome_from_simulation_def irreversible_ids_def needs_approval_ids_def
      blocks_automatic_execution_def Let_def)

text \<open>
  A completed plan can be executed again: \<open>execute_plan\<close> refuses the completed plan, but
  \<open>simulate_plan\<close> accepts it, sets it back to simulated, and the next \<open>execute_plan\<close> runs its
  compensations a second time.
\<close>

theorem completed_plan_runs_again:
  "\<exists>plan1 s1 d s2 plan2 s3 m.
     execute_plan (sample_service [sample_radapter NO_DRIFT True]) ''t'' ''p'' ''me''
       (sample_psys (sample_plan RS_SIMULATED) ()) = (Inr plan1, s1) \<and>
     rp_status plan1 = RS_COMPLETED \<and> ps_world s1 = 1 \<and>
     execute_plan (sample_service [sample_radapter NO_DRIFT True]) ''t'' ''p'' ''me'' s1 =
       (Inl (ValueError m), s1) \<and>
     simulate_plan (sample_service [sample_radapter NO_DRIFT True]) ''t'' ''p'' s1 = (Inr d, s2) \<and>
     execute_plan (sample_service [sample_radapter NO_DRIFT True]) ''t'' ''p'' ''me'' s2 =
       (Inr plan2, s3) \<and> ps_world s3 = 2"
  by (simp add: sample_run_simps sample_plan_simps sample_affected simulate_plan_def
      simulate_adapter_def irreversible_ids_def needs_approval_ids_def
      blocks_automatic_execution_def determine_outcome_from_simulation_def simulation_dict_def
      RS_value_def)

end
