(* ===== verification/Merkle_Log.thy ===== *)
theory Merkle_Log
  imports Interlock_Prelude
begin

text \<open>
  The forensic audit log: the entities of \<open>app/domain/entities/forensic_types.py\<close>, the service
  \<open>MerkleAuditLogService\<close> of \<open>app/domain/services/merkle_audit_log_service.py\<close> and the repository
  \<open>in_memory_forensic_audit_repository.py\<close> it writes to.

  Bytes are characters, and a text is its own UTF-8 encoding (the log holds ASCII). The digest
  \<open>hashlib.sha256(data).digest()\<close> is the parameter \<open>sha\<close>; \<open>hexdigest\<close> and \<open>bytes.fromhex\<close> are
  written out. \<open>dumps\<close> stands for \<open>json.dumps(payload, sort_keys=True, ..)\<close>; a timestamp enters
  the payload as its instant.
\<close>

section \<open>Hexadecimal digits\<close>

definition hex_char :: "nat \<Rightarrow> char" where
  "hex_char n = (if n < 10 then char_of (48 + n) else char_of (87 + n))"

fun to_hex :: "string \<Rightarrow> string" where
  "to_hex [] = []"
| "to_hex (b # bs) = hex_char (of_char b div 16) # hex_char (of_char b mod 16) # to_hex bs"

definition hex_digit :: "char \<Rightarrow> nat option" where
  "hex_digit c =
     (let n = of_char c :: nat
      in if 48 \<le> n \<and> n \<le> 57 then Some (n - 48)
         else if 97 \<le> n \<and> n \<le> 102 then Some (n - 87)
         else if 65 \<le> n \<and> n \<le> 70 then Some (n - 55) else None)"

definition is_space :: "char \<Rightarrow> bool" where
  "is_space c \<longleftrightarrow> (of_char c :: nat) \<in> {9, 10, 11, 12, 13, 32}"

text \<open>\<open>bytes.fromhex\<close>: pairs of digits, white space between bytes skipped, ValueError otherwise.\<close>

fun fromhex :: "string \<Rightarrow> py_error + string" where
  "fromhex [] = Inr []"
| "fromhex [c] =
     (if is_space c then Inr [] else Inl (ValueError ''non-hexadecimal number found''))"
| "fromhex (c # d # cs) =
     (if is_space c then fromhex (d # cs)
      else (case (hex_digit c, hex_digit d) of
              (Some h, Some l) \<Rightarrow>
                (case fromhex cs of Inl e \<Rightarrow> Inl e | Inr bs \<Rightarrow> Inr (char_of (16 * h + l) # bs))
            | _ \<Rightarrow> Inl (ValueError ''non-hexadecimal number found'')))"

definition hexdigest :: "(string \<Rightarrow> string) \<Rightarrow> string \<Rightarrow> string" where
  "hexdigest sha data = to_hex (sha data)"

section \<open>Entries and proofs\<close>

datatype audit_event_type =
  ACTION_EXECUTED | EVIDENCE_CAPTURED | RECOVERY_PLANNED | RECOVERY_EXECUTED | RECOVERY_VERIFIED
| CONTAINMENT_INITIATED | CONTAINMENT_COMPLETED | INCIDENT_DETECTED | INCIDENT_RESOLVED
| POLICY_CHANGE | ANOMALY_DETECTED | STATE_CHECKPOINT | EVIDENCE_CHAIN_LINK

fun event_value :: "audit_event_type \<Rightarrow> string" where
  "event_value ACTION_EXECUTED = ''action_executed''"
| "event_value EVIDENCE_CAPTURED = ''evidence_captured''"
| "event_value RECOVERY_PLANNED = ''recovery_planned''"
| "event_value RECOVERY_EXECUTED = ''recovery_executed''"
| "event_value RECOVERY_VERIFIED = ''recovery_verified''"
| "event_value CONTAINMENT_INITIATED = ''containment_initiated''"
| "event_value CONTAINMENT_COMPLETED = ''containment_completed''"
| "event_value INCIDENT_DETECTED = ''incident_detected''"
| "event_value INCIDENT_RESOLVED = ''incident_resolved''"
| "event_value POLICY_CHANGE = ''policy_change''"
| "event_value ANOMALY_DETECTED = ''anomaly_detected''"
| "event_value STATE_CHECKPOINT = ''state_checkpoint''"
| "event_value EVIDENCE_CHAIN_LINK = ''evidence_chain_link''"

datatype audit_event_severity = SEV_INFO | SEV_WARNING | SEV_ERROR | SEV_CRITICAL

fun severity_value :: "audit_event_severity \<Rightarrow> string" where
  "severity_value SEV_INFO = ''info''"
| "severity_value SEV_WARNING = ''warning''"
| "severity_value SEV_ERROR = ''error''"
| "severity_value SEV_CRITICAL = ''critical''"

record audit_log_entry =
  ae_entry_id :: string
  ae_tenant_id :: string
  ae_event_type :: audit_event_type
  ae_severity :: audit_event_severity
  ae_description :: string
  ae_timestamp :: datetime
  ae_actor :: string
  ae_actor_identity_hash :: string
  ae_resource_id :: string
  ae_parent_entry_id :: "string option"
  ae_chain_link_id :: "string option"
  ae_event_data :: pydict
  ae_source_system :: string
  ae_schema_version :: string

definition str_opt :: "string option \<Rightarrow> pyval" where
  "str_opt x = (case x of None \<Rightarrow> PNone | Some s \<Rightarrow> PStr s)"

definition entry_payload :: "audit_log_entry \<Rightarrow> pydict" where
  "entry_payload e =
     [(''entry_id'', PStr (ae_entry_id e)), (''tenant_id'', PStr (ae_tenant_id e)),
      (''event_type'', PStr (event_value (ae_event_type e))),
      (''severity'', PStr (severity_value (ae_severity e))),
      (''description'', PStr (ae_description e)), (''timestamp'', PInt (ae_timestamp e)),
      (''actor'', PStr (ae_actor e)), (''actor_identity_hash'', PStr (ae_actor_identity_hash e)),
      (''resource_id'', PStr (ae_resource_id e)),
      (''parent_entry_id'', str_opt (ae_parent_entry_id e)),
      (''chain_link_id'', str_opt (ae_chain_link_id e)),
      (''event_data'', PDict (ae_event_data e)), (''source_system'', PStr (ae_source_system e)),
      (''schema_version'', PStr (ae_schema_version e))]"

definition canonical_bytes :: "(pydict \<Rightarrow> string) \<Rightarrow> audit_log_entry \<Rightarrow> string" where
  "canonical_bytes dumps e = ''INTERLOCK-AUDIT-V1'' @ [char_of (0::nat)] @ dumps (entry_payload e)"

definition LEAF_PREFIX :: string where
  "LEAF_PREFIX = ''leaf'' @ [char_of (0::nat)]"

definition NODE_PREFIX :: string where
  "NODE_PREFIX = ''node'' @ [char_of (0::nat)]"

definition leaf_input :: "(pydict \<Rightarrow> string) \<Rightarrow> audit_log_entry \<Rightarrow> string" where
  "leaf_input dumps e = LEAF_PREFIX @ canonical_bytes dumps e"

definition leaf_hash :: "(string \<Rightarrow> string) \<Rightarrow> (pydict \<Rightarrow> string) \<Rightarrow> audit_log_entry \<Rightarrow> string" where
  "leaf_hash sha dumps e = hexdigest sha (leaf_input dumps e)"

definition hash_node :: "(string \<Rightarrow> string) \<Rightarrow> string \<Rightarrow> string \<Rightarrow> py_error + string" where
  "hash_node sha left right =
     (case fromhex left of
        Inl e \<Rightarrow> Inl e
      | Inr l \<Rightarrow> (case fromhex right of
                    Inl e \<Rightarrow> Inl e
                  | Inr r \<Rightarrow> Inr (hexdigest sha (NODE_PREFIX @ l @ r))))"

record merkle_proof =
  mp_entry_id :: string
  mp_tenant_id :: string
  mp_leaf_hash :: string
  mp_root_hash :: string
  mp_tree_size :: nat
  mp_node_index :: nat
  mp_path :: "string list"
  mp_path_directions :: "bool list"

fun fold_path :: "(string \<Rightarrow> string) \<Rightarrow> string \<Rightarrow> (string \<times> bool) list \<Rightarrow> py_error + string" where
  "fold_path sha current [] = Inr current"
| "fold_path sha current ((sibling, is_left) # rest) =
     (case (if is_left then hash_node sha current sibling else hash_node sha sibling current) of
        Inl e \<Rightarrow> Inl e
      | Inr next \<Rightarrow> fold_path sha next rest)"

definition verify_proof :: "(string \<Rightarrow> string) \<Rightarrow> merkle_proof \<Rightarrow> py_error + bool" where
  "verify_proof sha proof =
     (if length (mp_path proof) \<noteq> length (mp_path_directions proof) then Inr False
      else (case fold_path sha (mp_leaf_hash proof) (zip (mp_path proof) (mp_path_directions proof)) of
              Inl e \<Rightarrow> Inl e
            | Inr current \<Rightarrow> Inr (current = mp_root_hash proof)))"

record integrity_proof =
  ip_chain_id :: string
  ip_tenant_id :: string
  ip_root_entry_id :: string
  ip_leaf_entry_id :: string
  ip_root_hash :: string
  ip_chain_length :: nat
  ip_entry_ids :: "string list"
  ip_entry_hashes :: "string list"
  ip_merkle_root :: string
  ip_computed_at :: datetime
  ip_is_valid :: bool
  ip_issues :: "string list"

record evidence_chain_link =
  el_link_id :: string
  el_tenant_id :: string
  el_parent_evidence_id :: string
  el_child_evidence_id :: string
  el_parent_hash :: string
  el_child_hash :: string
  el_link_hash :: string
  el_created_at :: datetime
  el_linking_actor :: string
  el_chain_metadata :: pydict

text \<open>The property \<open>chain_entry_hash\<close>; \<open>isoformat\<close> is \<open>datetime.isoformat\<close>.\<close>

definition chain_entry_hash ::
  "(string \<Rightarrow> string) \<Rightarrow> (datetime \<Rightarrow> string) \<Rightarrow> evidence_chain_link \<Rightarrow> string" where
  "chain_entry_hash sha isoformat l =
     hexdigest sha (el_link_id l @ el_tenant_id l @ el_parent_evidence_id l @
       el_child_evidence_id l @ el_parent_hash l @ el_child_hash l @ isoformat (el_created_at l) @
       el_linking_actor l)"

record merkle_tree_snapshot =
  ms_snapshot_id :: string
  ms_tenant_id :: string
  ms_root_hash :: string
  ms_tree_size :: nat
  ms_leaves :: "string list"
  ms_captured_at :: datetime
  ms_root_timestamp :: datetime

section \<open>The repository\<close>

record forensic_repo =
  fr_entries :: "string \<Rightarrow> audit_log_entry list"
  fr_index :: "string \<rightharpoonup> audit_log_entry"
  fr_merkle_roots :: "string \<rightharpoonup> string \<times> nat"
  fr_snapshots :: "string \<Rightarrow> merkle_tree_snapshot list"
  fr_chain_links :: "evidence_chain_link list"

text \<open>A tenant that is not a key of \<open>_entries\<close> or \<open>_snapshots\<close> has the empty list.\<close>

definition empty_forensic_repo :: forensic_repo where
  "empty_forensic_repo =
     \<lparr>fr_entries = (\<lambda>_. []), fr_index = Map.empty, fr_merkle_roots = Map.empty,
      fr_snapshots = (\<lambda>_. []), fr_chain_links = []\<rparr>"

definition repo_append_entry :: "string \<Rightarrow> audit_log_entry \<Rightarrow> forensic_repo \<Rightarrow> forensic_repo" where
  "repo_append_entry tenant_id e r =
     r\<lparr>fr_entries := (fr_entries r)(tenant_id := fr_entries r tenant_id @ [e]),
       fr_index := (fr_index r)(ae_entry_id e \<mapsto> e)\<rparr>"

definition get_entry :: "string \<Rightarrow> string \<Rightarrow> forensic_repo \<Rightarrow> audit_log_entry option" where
  "get_entry tenant_id entry_id r =
     (case fr_index r entry_id of
        None \<Rightarrow> None
      | Some e \<Rightarrow> if ae_tenant_id e = tenant_id then Some e else None)"

definition list_entries ::
  "string \<Rightarrow> nat \<Rightarrow> nat \<Rightarrow> forensic_repo \<Rightarrow> audit_log_entry list \<times> nat" where
  "list_entries tenant_id limit offset r =
     (take limit (drop offset (fr_entries r tenant_id)), length (fr_entries r tenant_id))"

definition list_by_event_type ::
  "string \<Rightarrow> string \<Rightarrow> nat \<Rightarrow> nat \<Rightarrow> forensic_repo \<Rightarrow> audit_log_entry list \<times> nat" where
  "list_by_event_type tenant_id event_type limit offset r =
     (let es = filter (\<lambda>e. event_value (ae_event_type e) = event_type) (fr_entries r tenant_id)
      in (take limit (drop offset es), length es))"

definition get_latest_entry :: "string \<Rightarrow> forensic_repo \<Rightarrow> audit_log_entry option" where
  "get_latest_entry tenant_id r =
     (let es = fr_entries r tenant_id in if es = [] then None else Some (last es))"

definition save_merkle_root ::
  "string \<Rightarrow> string \<Rightarrow> nat \<Rightarrow> merkle_tree_snapshot option \<Rightarrow> forensic_repo \<Rightarrow> forensic_repo" where
  "save_merkle_root tenant_id root_hash tree_size snapshot r =
     (let r1 = r\<lparr>fr_merkle_roots := (fr_merkle_roots r)(tenant_id \<mapsto> (root_hash, tree_size))\<rparr>
      in case snapshot of
           None \<Rightarrow> r1
         | Some s \<Rightarrow> r1\<lparr>fr_snapshots := (fr_snapshots r1)(tenant_id := fr_snapshots r1 tenant_id @ [s])\<rparr>)"

definition get_latest_merkle_root :: "string \<Rightarrow> forensic_repo \<Rightarrow> (string \<times> nat) option" where
  "get_latest_merkle_root tenant_id r = fr_merkle_roots r tenant_id"

definition save_chain_link ::
  "evidence_chain_link \<Rightarrow> forensic_repo \<Rightarrow> evidence_chain_link \<times> forensic_repo" where
  "save_chain_link link r = (link, r\<lparr>fr_chain_links := fr_chain_links r @ [link]\<rparr>)"

definition list_chain_links ::
  "string \<Rightarrow> string \<Rightarrow> nat \<Rightarrow> nat \<Rightarrow> forensic_repo \<Rightarrow> evidence_chain_link list \<times> nat" where
  "list_chain_links tenant_id evidence_id limit offset r =
     (let ms = filter (\<lambda>l. el_tenant_id l = tenant_id \<and>
                 (el_parent_evidence_id l = evidence_id \<or> el_child_evidence_id l = evidence_id))
                 (fr_chain_links r)
      in (take limit (drop offset ms), length ms))"

definition count_entries :: "string \<Rightarrow> forensic_repo \<Rightarrow> nat" where
  "count_entries tenant_id r = length (fr_entries r tenant_id)"

section \<open>The service\<close>

text \<open>One pass of the \<open>for i in range(0, len, 2)\<close> loop; a missing right sibling is the left one.\<close>

fun next_level :: "(string \<Rightarrow> string) \<Rightarrow> string list \<Rightarrow> py_error + string list" where
  "next_level sha [] = Inr []"
| "next_level sha [x] =
     (case hash_node sha x x of Inl e \<Rightarrow> Inl e | Inr h \<Rightarrow> Inr [h])"
| "next_level sha (x # y # xs) =
     (case hash_node sha x y of
        Inl e \<Rightarrow> Inl e
      | Inr h \<Rightarrow> (case next_level sha xs of Inl e \<Rightarrow> Inl e | Inr hs \<Rightarrow> Inr (h # hs)))"

lemma next_level_length: "next_level sha xs = Inr ys \<Longrightarrow> length ys = (length xs + 1) div 2"
  by (induction sha xs arbitrary: ys rule: next_level.induct) (auto split: sum.splits)

function root_loop :: "(string \<Rightarrow> string) \<Rightarrow> string list \<Rightarrow> py_error + string" where
  "root_loop sha level =
     (if length level \<le> 1 then Inr (hd level)
      else (case next_level sha level of Inl e \<Rightarrow> Inl e | Inr up \<Rightarrow> root_loop sha up))"
  by pat_completeness auto
termination
  by (relation "measure (\<lambda>(sha, level). length level)") (auto dest: next_level_length)

declare root_loop.simps [simp del]

definition compute_merkle_root :: "(string \<Rightarrow> string) \<Rightarrow> string list \<Rightarrow> py_error + string" where
  "compute_merkle_root sha leaf_hashes =
     (if leaf_hashes = [] then Inr (hexdigest sha ''INTERLOCK-EMPTY-MERKLE-ROOT'')
      else root_loop sha leaf_hashes)"

text \<open>The \<open>while\<close> loop of \<open>generate_inclusion_proof\<close>: sibling and direction at each level.\<close>

definition sibling_at :: "nat \<Rightarrow> string list \<Rightarrow> string" where
  "sibling_at i level =
     (if even i then (if i + 1 < length level then level ! (i + 1) else level ! i)
      else level ! (i - 1))"

function path_loop :: "(string \<Rightarrow> string) \<Rightarrow> nat \<Rightarrow> string list \<Rightarrow> py_error + (string \<times> bool) list" where
  "path_loop sha i level =
     (if length level \<le> 1 then Inr []
      else (case next_level sha level of
              Inl e \<Rightarrow> Inl e
            | Inr up \<Rightarrow> (case path_loop sha (i div 2) up of
                           Inl e \<Rightarrow> Inl e
                         | Inr rest \<Rightarrow> Inr ((sibling_at i level, even i) # rest))))"
  by pat_completeness auto
termination
  by (relation "measure (\<lambda>(sha, i, level). length level)") (auto dest: next_level_length)

declare path_loop.simps [simp del]

fun index_of :: "'a \<Rightarrow> 'a list \<Rightarrow> nat option" where
  "index_of x [] = None"
| "index_of x (y # ys) = (if y = x then Some 0 else map_option Suc (index_of x ys))"

definition generate_inclusion_proof ::
  "(string \<Rightarrow> string) \<Rightarrow> string \<Rightarrow> string \<Rightarrow> string list \<Rightarrow> py_error + merkle_proof option" where
  "generate_inclusion_proof sha tenant_id entry_id leaf_hashes =
     (case index_of entry_id leaf_hashes of
        None \<Rightarrow> Inr None
      | Some node_index \<Rightarrow>
          (case compute_merkle_root sha leaf_hashes of
             Inl e \<Rightarrow> Inl e
           | Inr root_hash \<Rightarrow>
               (case path_loop sha node_index leaf_hashes of
                  Inl e \<Rightarrow> Inl e
                | Inr steps \<Rightarrow>
                    Inr (Some \<lparr>mp_entry_id = entry_id, mp_tenant_id = tenant_id,
                      mp_leaf_hash = leaf_hashes ! node_index, mp_root_hash = root_hash,
                      mp_tree_size = length leaf_hashes, mp_node_index = node_index,
                      mp_path = map fst steps, mp_path_directions = map snd steps\<rparr>))))"

text \<open>
  The state of the service: its leaf hashes and roots per tenant, in memory, and the repository
  it shares with other instances.
\<close>

record audit_service =
  as_leaf_hashes :: "string \<Rightarrow> string list"
  as_roots :: "string \<rightharpoonup> string \<times> nat"

definition new_audit_service :: audit_service where
  "new_audit_service = \<lparr>as_leaf_hashes = (\<lambda>_. []), as_roots = Map.empty\<rparr>"

definition append_entry ::
  "(string \<Rightarrow> string) \<Rightarrow> (pydict \<Rightarrow> string) \<Rightarrow> datetime \<Rightarrow> string \<Rightarrow> audit_log_entry
     \<Rightarrow> audit_service \<times> forensic_repo \<Rightarrow> (py_error + audit_log_entry) \<times> audit_service \<times> forensic_repo" where
  "append_entry sha dumps now tenant_id e st =
     (case st of (sv, repo) \<Rightarrow>
        if get_entry tenant_id (ae_entry_id e) repo \<noteq> None
        then (Inl (AuditLogVerificationError (''Entry already exists; log is append-only: '' @ ae_entry_id e)), sv, repo)
        else
          (let repo1 = repo_append_entry tenant_id e repo;
               leaves = as_leaf_hashes sv tenant_id @ [leaf_hash sha dumps e];
               sv1 = sv\<lparr>as_leaf_hashes := (as_leaf_hashes sv)(tenant_id := leaves)\<rparr>
           in case compute_merkle_root sha leaves of
                Inl err \<Rightarrow> (Inl err, sv1, repo1)
              | Inr merkle_root \<Rightarrow>
                  (Inr e,
                   sv1\<lparr>as_roots := (as_roots sv1)(tenant_id \<mapsto> (merkle_root, length leaves))\<rparr>,
                   save_merkle_root tenant_id merkle_root (length leaves)
                     (Some \<lparr>ms_snapshot_id = ''snap-'' @ tenant_id @ ''-'' @ take 16 merkle_root @ ''-'' @
                              show_nat (nat now), ms_tenant_id = tenant_id,
                            ms_root_hash = merkle_root, ms_tree_size = length leaves,
                            ms_leaves = leaves, ms_captured_at = now, ms_root_timestamp = now\<rparr>)
                     repo1)))"

definition get_audit_trail ::
  "(string \<Rightarrow> string) \<Rightarrow> (pydict \<Rightarrow> string) \<Rightarrow> string \<Rightarrow> string list \<Rightarrow> forensic_repo \<Rightarrow> pydict list" where
  "get_audit_trail sha dumps tenant_id entry_ids repo =
     concat (map (\<lambda>eid.
        case get_entry tenant_id eid repo of
          None \<Rightarrow> []
        | Some e \<Rightarrow> [[(''entry_id'', PStr eid), (''leaf_hash'', PStr (leaf_hash sha dumps e)),
                      (''event_type'', PStr (event_value (ae_event_type e))),
                      (''timestamp'', PInt (ae_timestamp e)),
                      (''description'', PStr (ae_description e))]]) entry_ids)"

definition get_root :: "string \<Rightarrow> audit_service \<Rightarrow> forensic_repo \<Rightarrow> (string \<times> nat) option" where
  "get_root tenant_id sv repo =
     (case as_roots sv tenant_id of
        Some r \<Rightarrow> Some r
      | None \<Rightarrow> get_latest_merkle_root tenant_id repo)"

fun join :: "string \<Rightarrow> string list \<Rightarrow> string" where
  "join sep [] = []"
| "join sep [x] = x"
| "join sep (x # y # ys) = x @ sep @ join sep (y # ys)"

definition build_integrity_proof ::
  "(string \<Rightarrow> string) \<Rightarrow> datetime \<Rightarrow> string \<Rightarrow> string list \<Rightarrow> string list \<Rightarrow> py_error + integrity_proof" where
  "build_integrity_proof sha now tenant_id entry_ids leaf_hashes =
     (let missing = filter (\<lambda>eid. eid \<notin> set leaf_hashes) entry_ids;
          issues = map (\<lambda>eid. ''Entry '' @ eid @ '' not found in Merkle tree'') missing @
                   (if entry_ids = [] then [''Empty chain''] else [])
      in case compute_merkle_root sha leaf_hashes of
           Inl e \<Rightarrow> Inl e
         | Inr root_hash \<Rightarrow>
             Inr \<lparr>ip_chain_id = ''chain-'' @ tenant_id @ ''-'' @ take 16 (hexdigest sha (join '','' entry_ids)),
                  ip_tenant_id = tenant_id,
                  ip_root_entry_id = (if entry_ids = [] then [] else hd entry_ids),
                  ip_leaf_entry_id = (if entry_ids = [] then [] else last entry_ids),
                  ip_root_hash = root_hash, ip_chain_length = length entry_ids,
                  ip_entry_ids = entry_ids,
                  ip_entry_hashes = filter (\<lambda>eid. eid \<in> set leaf_hashes) entry_ids,
                  ip_merkle_root = root_hash, ip_computed_at = now,
                  ip_is_valid = (issues = []), ip_issues = issues\<rparr>)"

definition create_chain_link ::
  "(string \<Rightarrow> string) \<Rightarrow> datetime \<Rightarrow> string \<Rightarrow> string \<Rightarrow> string \<Rightarrow> string \<Rightarrow> string \<Rightarrow> string
     \<Rightarrow> evidence_chain_link" where
  "create_chain_link sha now tenant_id parent_id child_id parent_hash child_hash actor =
     (let link_id = ''link-'' @ tenant_id @ ''-'' @ take 16 (hexdigest sha (parent_id @ child_id));
          payload = link_id @ tenant_id @ parent_id @ child_id @ parent_hash @ child_hash
      in \<lparr>el_link_id = link_id, el_tenant_id = tenant_id, el_parent_evidence_id = parent_id,
          el_child_evidence_id = child_id, el_parent_hash = parent_hash,
          el_child_hash = child_hash, el_link_hash = hexdigest sha payload,
          el_created_at = now, el_linking_actor = actor,
          el_chain_metadata = []\<rparr>)"

end
