(* ===== verification/Merkle_Properties.thy ===== *)
theory Merkle_Properties
  imports Merkle_Log
begin

text \<open>
  The audit log is tamper-evident: every recorded entry has an inclusion proof that verifies
  against the published root, and a proof that verifies for an entry that was not recorded
  exhibits two different inputs of the hash function, among those the log and the proof hash, with
  the same digest. The log only grows, and its leaf hashes, roots and sizes describe the stored
  entries. The last section shows where the code promises more than it does.
\<close>

section \<open>Hexadecimal round trip\<close>

lemma hex_char_digit:
  assumes "n < 16"
  shows "hex_digit (hex_char n) = Some n" and "\<not> is_space (hex_char n)"
  using assms by (auto simp: hex_char_def hex_digit_def is_space_def Let_def)

lemma fromhex_to_hex [simp]: "fromhex (to_hex bs) = Inr bs"
proof (induction bs)
  case Nil
  then show ?case by simp
next
  case (Cons b bs)
  have "x < 256 \<Longrightarrow> x div 16 < 16" for x :: nat by arith
  then have "(of_char b :: nat) div 16 < 16" "(of_char b :: nat) mod 16 < 16" by simp_all
  from hex_char_digit [OF this(1)] hex_char_digit [OF this(2)] Cons.IH show ?case
    by simp
qed

lemma to_hex_inj [simp]: "to_hex a = to_hex b \<longleftrightarrow> a = b"
  by (metis fromhex_to_hex sum.inject(2))

section \<open>Digests\<close>

definition is_digest :: "string \<Rightarrow> bool" where
  "is_digest s \<longleftrightarrow> (\<exists>b. length b = 32 \<and> s = to_hex b)"

text \<open>What the documentation of SHA-256 promises of \<open>digest()\<close>: 32 bytes.\<close>

definition sha256_like :: "(string \<Rightarrow> string) \<Rightarrow> bool" where
  "sha256_like sha \<longleftrightarrow> (\<forall>x. length (sha x) = 32)"

definition unhex :: "string \<Rightarrow> string" where
  "unhex s = (case fromhex s of Inl _ \<Rightarrow> [] | Inr b \<Rightarrow> b)"

definition node_input :: "string \<Rightarrow> string \<Rightarrow> string" where
  "node_input l r = NODE_PREFIX @ unhex l @ unhex r"

definition node :: "(string \<Rightarrow> string) \<Rightarrow> string \<Rightarrow> string \<Rightarrow> string" where
  "node sha l r = hexdigest sha (node_input l r)"

lemma unhex_to_hex [simp]: "unhex (to_hex b) = b"
  by (simp add: unhex_def)

lemma hexdigest_digest: "sha256_like sha \<Longrightarrow> is_digest (hexdigest sha x)"
  by (auto simp: is_digest_def hexdigest_def sha256_like_def)

lemma node_digest: "sha256_like sha \<Longrightarrow> is_digest (node sha l r)"
  by (simp add: node_def hexdigest_digest)

lemma leaf_hash_digest: "sha256_like sha \<Longrightarrow> is_digest (leaf_hash sha dumps e)"
  by (simp add: leaf_hash_def hexdigest_digest)

lemma hash_node_digest: "is_digest l \<Longrightarrow> is_digest r \<Longrightarrow> hash_node sha l r = Inr (node sha l r)"
  by (auto simp: is_digest_def hash_node_def node_def node_input_def)

lemma hash_node_Inr: "hash_node sha l r = Inr h \<Longrightarrow> h = node sha l r"
  by (auto simp: hash_node_def node_def node_input_def unhex_def split: sum.splits)

lemma node_input_inj:
  assumes "is_digest a" "is_digest b" "is_digest c" and "node_input a b = node_input c d \<or> node_input a b = node_input d c"
  shows "c \<in> {a, b}"
proof -
  obtain x y z where xyz: "a = to_hex x" "b = to_hex y" "c = to_hex z"
    "length x = 32" "length y = 32" "length z = 32"
    using assms(1-3) by (auto simp: is_digest_def)
  from assms(4) have "x @ y = z @ unhex d \<or> x @ y = unhex d @ z"
    using xyz by (simp add: node_input_def)
  then have "x = z \<or> y = z"
  proof
    assume "x @ y = unhex d @ z"
    then have "length (unhex d) = 32" using xyz by (metis add_right_cancel length_append)
    with \<open>x @ y = unhex d @ z\<close> xyz show ?thesis by (simp add: append_eq_append_conv)
  qed (use xyz in \<open>simp add: append_eq_append_conv\<close>)
  with xyz show ?thesis by auto
qed

lemma leaf_node_inputs_differ: "leaf_input dumps e \<noteq> node_input l r"
  by (simp add: leaf_input_def node_input_def LEAF_PREFIX_def NODE_PREFIX_def)

section \<open>Levels of the tree\<close>

fun up :: "(string \<Rightarrow> string) \<Rightarrow> string list \<Rightarrow> string list" where
  "up sha [] = []"
| "up sha [x] = [node sha x x]"
| "up sha (x # y # xs) = node sha x y # up sha xs"

lemma up_length [simp]: "length (up sha xs) = (length xs + 1) div 2"
  by (induction sha xs rule: up.induct) auto

lemma next_level_up: "\<forall>x \<in> set xs. is_digest x \<Longrightarrow> next_level sha xs = Inr (up sha xs)"
  by (induction sha xs rule: up.induct) (auto simp: hash_node_digest)

lemma up_digests: "sha256_like sha \<Longrightarrow> \<forall>x \<in> set (up sha xs). is_digest x"
  by (induction sha xs rule: up.induct) (auto simp: node_digest)

lemma up_nth:
  "i < length xs \<Longrightarrow>
   up sha xs ! (i div 2) =
     (if even i then node sha (xs ! i) (sibling_at i xs) else node sha (sibling_at i xs) (xs ! i))"
proof (induction sha xs arbitrary: i rule: up.induct)
  case (3 sha x y xs)
  consider "i = 0" | "i = 1" | j where "i = j + 2" by (metis One_nat_def Suc_1 add_2_eq_Suc' not0_implies_Suc)
  then show ?case
  proof cases
    case (3 j)
    with "3.IH" [of j] "3.prems" show ?thesis
      by (cases j) (auto simp: sibling_at_def nth_Cons' not_less_eq Suc_diff_le split: if_splits)
  qed (auto simp: sibling_at_def)
qed (auto simp: sibling_at_def)

section \<open>Completeness\<close>

lemma path_loop_verifies:
  assumes "sha256_like sha"
  shows "\<forall>x \<in> set xs. is_digest x \<Longrightarrow> i < length xs \<Longrightarrow>
    \<exists>steps r. path_loop sha i xs = Inr steps \<and> root_loop sha xs = Inr r \<and>
      fold_path sha (xs ! i) steps = Inr r"
proof (induction "length xs" arbitrary: xs i rule: less_induct)
  case less
  show ?case
  proof (cases "length xs \<le> 1")
    case True
    with less.prems(2) have "xs = [xs ! 0]" "i = 0" by (cases xs; auto)+
    with True show ?thesis by (metis fold_path.simps(1) list.sel(1) path_loop.simps root_loop.simps)
  next
    case False
    let ?up = "up sha xs"
    have nl: "next_level sha xs = Inr ?up" using less.prems(1) by (rule next_level_up)
    have "length ?up < length xs" "i div 2 < length ?up" using False less.prems(2) by auto
    from less.hyps [OF this(1) up_digests [OF assms] this(2)] obtain steps r where
      ih: "path_loop sha (i div 2) ?up = Inr steps" "root_loop sha ?up = Inr r"
        "fold_path sha (?up ! (i div 2)) steps = Inr r" by blast
    have dig: "is_digest (xs ! i)" "is_digest (sibling_at i xs)"
      using less.prems by (auto simp: sibling_at_def)
    have "fold_path sha (xs ! i) ((sibling_at i xs, even i) # steps) = Inr r"
      using ih(3) dig up_nth [OF less.prems(2), of sha]
      by (cases "even i") (simp_all add: hash_node_digest)
    with False nl ih show ?thesis
      by (simp add: path_loop.simps [of sha i xs] root_loop.simps [of sha xs])
  qed
qed

lemma index_of_mem: "x \<in> set xs \<Longrightarrow> \<exists>i < length xs. index_of x xs = Some i \<and> xs ! i = x"
proof (induction xs)
  case (Cons y ys)
  then show ?case
  proof (cases "y = x")
    case False
    with Cons obtain i where "i < length ys" "index_of x ys = Some i" "ys ! i = x" by auto
    with False show ?thesis by (intro exI [of _ "Suc i"]) simp
  qed auto
qed simp

lemma index_of_None: "index_of x xs = None \<longleftrightarrow> x \<notin> set xs"
  by (induction xs) auto

lemma inclusion_proof_exists:
  assumes "sha256_like sha" and "\<forall>x \<in> set leaves. is_digest x" and "l \<in> set leaves"
  shows "\<exists>proof. generate_inclusion_proof sha t l leaves = Inr (Some proof) \<and>
    verify_proof sha proof = Inr True \<and> mp_leaf_hash proof = l \<and>
    compute_merkle_root sha leaves = Inr (mp_root_hash proof) \<and> mp_tree_size proof = length leaves"
proof -
  obtain i where i: "i < length leaves" "index_of l leaves = Some i" "leaves ! i = l"
    using index_of_mem [OF assms(3)] by blast
  from path_loop_verifies [OF assms(1,2) i(1)] obtain steps r where
    "path_loop sha i leaves = Inr steps" "root_loop sha leaves = Inr r"
    "fold_path sha l steps = Inr r" using i(3) by auto
  with i assms(3) show ?thesis
    by (auto simp: generate_inclusion_proof_def compute_merkle_root_def verify_proof_def
        zip_map_fst_snd)
qed

section \<open>Soundness\<close>

text \<open>The inputs that are hashed when the root is computed and when a path is verified.\<close>

fun level_inputs :: "string list \<Rightarrow> string list" where
  "level_inputs [] = []"
| "level_inputs [x] = [node_input x x]"
| "level_inputs (x # y # xs) = node_input x y # level_inputs xs"

function tree_inputs :: "(string \<Rightarrow> string) \<Rightarrow> string list \<Rightarrow> string list" where
  "tree_inputs sha xs =
     (if length xs \<le> 1 then [] else level_inputs xs @ tree_inputs sha (up sha xs))"
  by pat_completeness auto
termination by (relation "measure (\<lambda>(sha, xs). length xs)") auto

declare tree_inputs.simps [simp del]

definition step_input :: "string \<Rightarrow> string \<times> bool \<Rightarrow> string" where
  "step_input current st =
     (if snd st then node_input current (fst st) else node_input (fst st) current)"

fun path_inputs :: "(string \<Rightarrow> string) \<Rightarrow> string \<Rightarrow> (string \<times> bool) list \<Rightarrow> string list" where
  "path_inputs sha current [] = []"
| "path_inputs sha current (st # rest) =
     step_input current st # path_inputs sha (hexdigest sha (step_input current st)) rest"

fun height :: "nat \<Rightarrow> nat" where
  "height n = (if n \<le> 1 then 0 else Suc (height ((n + 1) div 2)))"

declare height.simps [simp del]

lemma up_origin: "v \<in> set (up sha xs) \<Longrightarrow>
  \<exists>a \<in> set xs. \<exists>b \<in> set xs. v = node sha a b \<and> node_input a b \<in> set (level_inputs xs)"
  by (induction sha xs rule: up.induct) auto

lemma fold_path_Cons:
  "fold_path sha c (st # rest) = Inr v \<Longrightarrow>
   fold_path sha (hexdigest sha (step_input c st)) rest = Inr v"
  by (cases st) (auto simp: step_input_def node_def dest: hash_node_Inr split: sum.splits if_splits)

lemma fold_path_append:
  "fold_path sha c (p @ q) = Inr v \<Longrightarrow>
   \<exists>w. fold_path sha c p = Inr w \<and> fold_path sha w q = Inr v"
  by (induction p arbitrary: c) (auto split: sum.splits if_splits)

lemma path_inputs_append:
  "fold_path sha c p = Inr w \<Longrightarrow> path_inputs sha c (p @ q) = path_inputs sha c p @ path_inputs sha w q"
  by (induction p arbitrary: c) (auto dest: fold_path_Cons)

lemma fold_path_last:
  assumes "p \<noteq> []" and "fold_path sha c p = Inr v"
  shows "\<exists>a b. v = node sha a b \<and> node_input a b \<in> set (path_inputs sha c p)"
proof -
  obtain q st where p: "p = q @ [st]" using assms(1) by (metis rev_exhaust)
  obtain w where w: "fold_path sha c q = Inr w" "fold_path sha w [st] = Inr v"
    using fold_path_append assms(2) p by blast
  have "v = hexdigest sha (step_input w st)" using fold_path_Cons [OF w(2)] by simp
  with w p show ?thesis
    by (cases st) (auto simp: path_inputs_append step_input_def node_def)
qed

lemma fold_path_digest:
  "sha256_like sha \<Longrightarrow> is_digest c \<Longrightarrow> fold_path sha c p = Inr v \<Longrightarrow> is_digest v"
  using fold_path_last [of p sha c v] by (cases "p = []") (auto simp: node_digest)

text \<open>A hash on one level whose input was seen comes from that level's children.\<close>

lemma descend:
  assumes "inj_on sha I" and "set (level_inputs xs) \<subseteq> I" and "step_input c st \<in> I"
    and "\<forall>x \<in> set xs. is_digest x" and "is_digest c"
    and "hexdigest sha (step_input c st) \<in> set (up sha xs)"
  shows "c \<in> set xs"
proof -
  from up_origin [OF assms(6)] obtain a b where ab: "a \<in> set xs" "b \<in> set xs"
    "hexdigest sha (step_input c st) = node sha a b" "node_input a b \<in> set (level_inputs xs)" by blast
  then have "sha (step_input c st) = sha (node_input a b)" by (simp add: node_def hexdigest_def)
  with assms(1-3) ab(4) have "step_input c st = node_input a b" by (auto dest: inj_onD)
  then have "node_input a b = node_input c (fst st) \<or> node_input a b = node_input (fst st) c"
    by (auto simp: step_input_def split: if_splits)
  with node_input_inj [of a b c] ab assms(4,5) show ?thesis by auto
qed

lemma root_loop_up:
  assumes "\<forall>x \<in> set xs. is_digest x" and "\<not> length xs \<le> 1"
  shows "root_loop sha xs = root_loop sha (up sha xs)"
  using assms by (simp add: root_loop.simps [of sha xs] next_level_up)

text \<open>
  A path that folds to the root passes through every level it is long enough to reach; a
  shorter one starts at an inner node.
\<close>

lemma fold_reaches_level:
  assumes sha: "sha256_like sha" and inj: "inj_on sha I" and path: "set (path_inputs sha c path) \<subseteq> I"
    and c: "is_digest c" and fold: "fold_path sha c path = Inr r"
  shows "\<forall>x \<in> set xs. is_digest x \<Longrightarrow> xs \<noteq> [] \<Longrightarrow> set (tree_inputs sha xs) \<subseteq> I \<Longrightarrow>
    root_loop sha xs = Inr r \<Longrightarrow>
    (height (length xs) \<le> length path \<longrightarrow>
       (\<exists>v. fold_path sha c (take (length path - height (length xs)) path) = Inr v \<and> v \<in> set xs)) \<and>
    (length path < height (length xs) \<longrightarrow> (\<exists>a b. node_input a b \<in> I \<and> c = node sha a b))"
proof (induction "length xs" arbitrary: xs rule: less_induct)
  case less
  show ?case
  proof (cases "length xs \<le> 1")
    case True
    then have "height (length xs) = 0" "r = hd xs"
      using less.prems(4) by (simp_all add: height.simps root_loop.simps)
    with fold less.prems(2) show ?thesis by simp
  next
    case False
    let ?up = "up sha xs" and ?n = "length path"
    have h: "height (length xs) = Suc (height (length ?up))"
      using False by (subst height.simps) simp
    have inputs: "set (level_inputs xs) \<subseteq> I" "set (tree_inputs sha ?up) \<subseteq> I"
      using less.prems(3) False by (simp_all add: tree_inputs.simps [of sha xs])
    have "length ?up < length xs" "?up \<noteq> []" "root_loop sha ?up = Inr r"
      using False less.prems(1,4) root_loop_up [of xs sha] by (auto simp flip: length_greater_0_conv)
    from less.hyps [OF this(1) up_digests [OF sha] this(2) inputs(2) this(3)]
    have ih: "height (length ?up) \<le> ?n \<longrightarrow>
        (\<exists>v. fold_path sha c (take (?n - height (length ?up)) path) = Inr v \<and> v \<in> set ?up)"
      "?n < height (length ?up) \<longrightarrow> (\<exists>a b. node_input a b \<in> I \<and> c = node sha a b)" by blast+
    show ?thesis
    proof (intro conjI impI)
      assume le: "height (length xs) \<le> ?n"
      let ?k = "?n - height (length xs)"
      have k_less: "?k < ?n" and "?n - height (length ?up) = Suc ?k" using le h by linarith+
      then have k: "take (?n - height (length ?up)) path = take ?k path @ [path ! ?k]"
        by (simp only: take_Suc_conv_app_nth)
      have "height (length ?up) \<le> ?n" using le h by linarith
      with ih(1) obtain v where v: "fold_path sha c (take ?k path @ [path ! ?k]) = Inr v" "v \<in> set ?up"
        unfolding k by blast
      from fold_path_append [OF v(1)] obtain w where w: "fold_path sha c (take ?k path) = Inr w"
        "fold_path sha w [path ! ?k] = Inr v" by blast
      have hash: "hexdigest sha (step_input w (path ! ?k)) \<in> set ?up"
        using fold_path_Cons [OF w(2)] v(2) by simp
      have "path = take ?k path @ path ! ?k # drop (Suc ?k) path"
        using k_less by (rule id_take_nth_drop)
      then have "step_input w (path ! ?k) \<in> I"
        using path path_inputs_append [OF w(1), of "path ! ?k # drop (Suc ?k) path"] by auto
      from descend [OF inj inputs(1) this less.prems(1) fold_path_digest [OF sha c w(1)] hash] w(1)
      show "\<exists>v. fold_path sha c (take ?k path) = Inr v \<and> v \<in> set xs" by blast
    next
      assume lt: "?n < height (length xs)"
      show "\<exists>a b. node_input a b \<in> I \<and> c = node sha a b"
      proof (cases "?n < height (length ?up)")
        case True
        with ih(2) show ?thesis by blast
      next
        case False
        then have "height (length ?up) \<le> ?n" and "?n - height (length ?up) = 0" using lt h by linarith+
        with ih(1) have "c \<in> set ?up" by (metis fold_path.simps(1) sum.inject(2) take0)
        from up_origin [OF this] inputs(1) show ?thesis by blast
      qed
    qed
  qed
qed

definition hashed_inputs ::
  "(string \<Rightarrow> string) \<Rightarrow> (pydict \<Rightarrow> string) \<Rightarrow> audit_log_entry list \<Rightarrow> audit_log_entry \<Rightarrow> merkle_proof
     \<Rightarrow> string list" where
  "hashed_inputs sha dumps entries e proof =
     map (leaf_input dumps) (e # entries) @ tree_inputs sha (map (leaf_hash sha dumps) entries) @
     path_inputs sha (mp_leaf_hash proof) (zip (mp_path proof) (mp_path_directions proof))"

lemma path_inputs_take:
  assumes "fold_path sha c (take n path) = Inr v"
  shows "set (path_inputs sha c (take n path)) \<subseteq> set (path_inputs sha c path)"
proof -
  have "path_inputs sha c path = path_inputs sha c (take n path) @ path_inputs sha v (drop n path)"
    using path_inputs_append [OF assms] by (metis append_take_drop_id)
  then show ?thesis by simp
qed

section \<open>Properties\<close>

text \<open>
  C21. An inclusion proof is sound: if a proof for an entry verifies against the Merkle root of a
  log, and no two different inputs among those hashed for the log and the proof have the same
  SHA-256 digest, then an entry with the same canonical bytes is in the log. Inner nodes cannot
  pass for entries, although \<open>verify\<close> checks neither the tree size nor the length of the path.
\<close>

theorem inclusion_proof_sound:
  assumes sha: "sha256_like sha" and "entries \<noteq> []"
    and root: "compute_merkle_root sha (map (leaf_hash sha dumps) entries) = Inr (mp_root_hash proof)"
    and leaf: "mp_leaf_hash proof = leaf_hash sha dumps e"
    and ok: "verify_proof sha proof = Inr True"
    and inj: "inj_on sha (set (hashed_inputs sha dumps entries e proof))"
  shows "\<exists>e' \<in> set entries. canonical_bytes dumps e' = canonical_bytes dumps e"
proof -
  let ?xs = "map (leaf_hash sha dumps) entries" and ?I = "set (hashed_inputs sha dumps entries e proof)"
  let ?path = "zip (mp_path proof) (mp_path_directions proof)" and ?c = "leaf_hash sha dumps e"
  have fold: "fold_path sha ?c ?path = Inr (mp_root_hash proof)"
    using ok leaf by (auto simp: verify_proof_def split: if_splits sum.splits)
  have root': "root_loop sha ?xs = Inr (mp_root_hash proof)"
    using root assms(2) by (simp add: compute_merkle_root_def)
  have subs: "set (path_inputs sha ?c ?path) \<subseteq> ?I" "set (tree_inputs sha ?xs) \<subseteq> ?I"
    using leaf by (auto simp: hashed_inputs_def)
  have leafs: "leaf_input dumps e' \<in> ?I" if "e' \<in> set (e # entries)" for e'
    using that by (auto simp: hashed_inputs_def)
  have no_node: "leaf_hash sha dumps e' \<noteq> node sha a b"
    if "e' \<in> set (e # entries)" "node_input a b \<in> ?I" for e' a b
    using inj_onD [OF inj _ leafs [OF that(1)] that(2)] leaf_node_inputs_differ
    by (auto simp: leaf_hash_def node_def hexdigest_def)
  have dig: "\<forall>x \<in> set ?xs. is_digest x" "is_digest ?c" by (simp_all add: leaf_hash_digest sha)
  have "?xs \<noteq> []" using assms(2) by simp
  note reach = fold_reaches_level [OF sha inj subs(1) dig(2) fold dig(1) this subs(2) root']
  have "\<not> length ?path < height (length ?xs)"
  proof
    assume "length ?path < height (length ?xs)"
    with reach obtain a b where "node_input a b \<in> ?I" "?c = node sha a b" by blast
    with no_node [of e a b] show False by simp
  qed
  with reach obtain v where v: "fold_path sha ?c (take (length ?path - height (length ?xs)) ?path) = Inr v"
    "v \<in> set ?xs" by (meson not_le)
  have nil: "take (length ?path - height (length ?xs)) ?path = []"
  proof (rule ccontr)
    let ?p = "take (length ?path - height (length ?xs)) ?path"
    assume "?p \<noteq> []"
    from fold_path_last [OF this v(1)] obtain a b where ab: "v = node sha a b"
      "node_input a b \<in> set (path_inputs sha ?c ?p)" by blast
    with path_inputs_take [OF v(1)] subs(1) have "node_input a b \<in> ?I" by blast
    moreover obtain x where "x \<in> set entries" "v = leaf_hash sha dumps x" using v(2) by auto
    ultimately show False using no_node [of x a b] ab(1) by simp
  qed
  have "v = ?c" using v(1) unfolding nil by simp
  with v(2) obtain e' where e': "e' \<in> set entries" "leaf_hash sha dumps e = leaf_hash sha dumps e'" by auto
  then have "leaf_input dumps e = leaf_input dumps e'"
    using inj_onD [OF inj _ leafs leafs] by (auto simp: leaf_hash_def hexdigest_def)
  with e' show ?thesis by (auto simp: leaf_input_def)
qed

text \<open>The samples: a digest of 32 equal bytes that depends on the length of its input.\<close>

definition sample_sha :: "string \<Rightarrow> string" where
  "sample_sha x = replicate 32 (char_of (length x))"

definition sample_dumps :: "pydict \<Rightarrow> string" where
  "sample_dumps d = (case map_of d ''entry_id'' of Some (PStr s) \<Rightarrow> s | _ \<Rightarrow> [])"

definition sample_entry :: "string \<Rightarrow> string \<Rightarrow> audit_log_entry" where
  "sample_entry t i =
     \<lparr>ae_entry_id = i, ae_tenant_id = t, ae_event_type = ACTION_EXECUTED, ae_severity = SEV_INFO,
      ae_description = [], ae_timestamp = 0, ae_actor = ''system'', ae_actor_identity_hash = [],
      ae_resource_id = [], ae_parent_entry_id = None, ae_chain_link_id = None, ae_event_data = [],
      ae_source_system = ''interlock'', ae_schema_version = ''1.0''\<rparr>"

lemma sample_sha_like: "sha256_like sample_sha"
  by (simp add: sha256_like_def sample_sha_def)

lemma sample_leaf_input:
  "leaf_input sample_dumps (sample_entry t i) = LEAF_PREFIX @ ''INTERLOCK-AUDIT-V1'' @ [char_of (0::nat)] @ i"
  by (simp add: leaf_input_def canonical_bytes_def entry_payload_def sample_dumps_def sample_entry_def)

lemma sample_leaf_hash:
  "leaf_hash sample_sha sample_dumps (sample_entry t i) = to_hex (replicate 32 (char_of (24 + length i)))"
  by (simp add: leaf_hash_def hexdigest_def sample_leaf_input sample_sha_def LEAF_PREFIX_def)

theorem inclusion_proof_sound_witness:
  "\<exists>e' \<in> set [sample_entry ''t'' ''a'', sample_entry ''t'' ''bb''].
     canonical_bytes sample_dumps e' = canonical_bytes sample_dumps (sample_entry ''t'' ''bb'')"
proof -
  let ?es = "[sample_entry ''t'' ''a'', sample_entry ''t'' ''bb'']"
  let ?la = "to_hex (replicate 32 (char_of (25::nat)))" and ?lb = "to_hex (replicate 32 (char_of (26::nat)))"
  let ?root = "to_hex (replicate 32 (char_of (69::nat)))"
  let ?proof = "\<lparr>mp_entry_id = ?lb, mp_tenant_id = ''t'', mp_leaf_hash = ?lb, mp_root_hash = ?root,
    mp_tree_size = 2, mp_node_index = 1, mp_path = [?la], mp_path_directions = [False]\<rparr>"
  have leaves: "map (leaf_hash sample_sha sample_dumps) ?es = [?la, ?lb]"
    by (simp add: sample_leaf_hash)
  have dig: "is_digest ?la" "is_digest ?lb" by (force simp: is_digest_def)+
  have node: "node sample_sha ?la ?lb = ?root"
    by (simp add: node_def node_input_def hexdigest_def sample_sha_def NODE_PREFIX_def)
  have root: "compute_merkle_root sample_sha [?la, ?lb] = Inr ?root"
    by (simp add: compute_merkle_root_def root_loop.simps hash_node_digest [OF dig] node)
  have ok: "verify_proof sample_sha ?proof = Inr True"
    by (simp add: verify_proof_def hash_node_digest [OF dig] node)
  have "inj_on sample_sha (set (hashed_inputs sample_sha sample_dumps ?es (sample_entry ''t'' ''bb'') ?proof))"
    unfolding hashed_inputs_def leaves
    by (simp add: tree_inputs.simps step_input_def sample_leaf_input node_input_def inj_on_def
        sample_sha_def LEAF_PREFIX_def NODE_PREFIX_def)
  from inclusion_proof_sound [OF sample_sha_like _ _ _ ok this] root leaves show ?thesis
    by (simp add: sample_leaf_hash)
qed

section \<open>The log as a whole\<close>

type_synonym append_event = "datetime \<times> string \<times> audit_log_entry"

text \<open>The appends of one service instance, in order; a refused append changes nothing.\<close>

definition run_appends ::
  "(string \<Rightarrow> string) \<Rightarrow> (pydict \<Rightarrow> string) \<Rightarrow> append_event list \<Rightarrow> audit_service \<times> forensic_repo
     \<Rightarrow> audit_service \<times> forensic_repo" where
  "run_appends sha dumps evs st =
     fold (\<lambda>(now, t, e) st. snd (append_entry sha dumps now t e st)) evs st"

definition log_inv ::
  "(string \<Rightarrow> string) \<Rightarrow> (pydict \<Rightarrow> string) \<Rightarrow> audit_service \<times> forensic_repo \<Rightarrow> bool" where
  "log_inv sha dumps st \<longleftrightarrow>
     (\<forall>t. as_leaf_hashes (fst st) t = map (leaf_hash sha dumps) (fr_entries (snd st) t) \<and>
        (fr_entries (snd st) t \<noteq> [] \<longrightarrow>
           (\<exists>r. compute_merkle_root sha (as_leaf_hashes (fst st) t) = Inr r \<and>
              as_roots (fst st) t = Some (r, length (fr_entries (snd st) t)) \<and>
              fr_merkle_roots (snd st) t = Some (r, length (fr_entries (snd st) t)))))"

lemma root_total:
  assumes "sha256_like sha" and "\<forall>x \<in> set xs. is_digest x"
  shows "\<exists>r. compute_merkle_root sha xs = Inr r"
proof (cases xs)
  case Nil
  then show ?thesis by (simp add: compute_merkle_root_def)
next
  case (Cons y ys)
  then have "0 < length xs" by simp
  from path_loop_verifies [OF assms this] Cons show ?thesis by (auto simp: compute_merkle_root_def)
qed

lemma append_entry_inv:
  assumes "sha256_like sha" and "log_inv sha dumps (sv, repo)"
  shows "log_inv sha dumps (snd (append_entry sha dumps now t e (sv, repo)))"
proof -
  have leaves: "as_leaf_hashes sv t = map (leaf_hash sha dumps) (fr_entries repo t)"
    using assms(2) by (simp add: log_inv_def)
  have "\<forall>x \<in> set (as_leaf_hashes sv t @ [leaf_hash sha dumps e]). is_digest x"
    unfolding leaves by (auto simp: leaf_hash_digest [OF assms(1)])
  from root_total [OF assms(1) this] obtain r where
    "compute_merkle_root sha (as_leaf_hashes sv t @ [leaf_hash sha dumps e]) = Inr r" by blast
  with assms(2) show ?thesis
    by (auto simp: append_entry_def log_inv_def Let_def repo_append_entry_def save_merkle_root_def)
qed

lemma append_entry_extends:
  "\<exists>new. fr_entries (snd (snd (append_entry sha dumps now t e (sv, repo)))) u = fr_entries repo u @ new"
  by (auto simp: append_entry_def Let_def repo_append_entry_def save_merkle_root_def split: sum.splits)

lemma run_appends_inv:
  assumes "sha256_like sha" and "log_inv sha dumps st"
  shows "log_inv sha dumps (run_appends sha dumps evs st)"
  using assms(2)
proof (induction evs arbitrary: st)
  case Nil
  then show ?case by (simp add: run_appends_def)
next
  case (Cons ev evs)
  obtain now t e where ev: "ev = (now, t, e)" by (cases ev)
  obtain sv repo where st: "st = (sv, repo)" by fastforce
  from Cons.IH [OF append_entry_inv [OF assms(1)]] Cons.prems show ?case
    by (simp add: run_appends_def ev st)
qed

lemma run_appends_extends:
  "\<exists>new. fr_entries (snd (run_appends sha dumps evs st)) u = fr_entries (snd st) u @ new"
proof (induction evs arbitrary: st)
  case Nil
  then show ?case by (simp add: run_appends_def)
next
  case (Cons ev evs)
  obtain now t e where ev: "ev = (now, t, e)" by (cases ev)
  obtain sv repo where st: "st = (sv, repo)" by fastforce
  obtain new where "fr_entries (snd (snd (append_entry sha dumps now t e (sv, repo)))) u = fr_entries repo u @ new"
    using append_entry_extends by blast
  with Cons.IH [of "snd (append_entry sha dumps now t e (sv, repo))"] show ?case
    by (auto simp: run_appends_def ev st)
qed

text \<open>
  C22. Once recorded, always provable: an entry that one service instance has recorded at some
  point stays in the log, and whatever is appended later for any tenant, the service generates an
  inclusion proof for its leaf hash that verifies against the root it publishes, with the
  number of stored entries as the tree size.
\<close>

theorem recorded_entries_stay_provable:
  assumes "sha256_like sha"
    and "st1 = run_appends sha dumps evs (new_audit_service, empty_forensic_repo)"
    and "(sv, repo) = run_appends sha dumps evs' st1"
    and "e \<in> set (fr_entries (snd st1) t)"
  shows "e \<in> set (fr_entries repo t) \<and>
    (\<exists>proof. generate_inclusion_proof sha t (leaf_hash sha dumps e) (as_leaf_hashes sv t) =
         Inr (Some proof) \<and> verify_proof sha proof = Inr True \<and>
       mp_leaf_hash proof = leaf_hash sha dumps e \<and>
       get_root t sv repo = Some (mp_root_hash proof, count_entries t repo))"
proof -
  have "log_inv sha dumps (new_audit_service, empty_forensic_repo)"
    by (simp add: log_inv_def new_audit_service_def empty_forensic_repo_def)
  then have inv: "log_inv sha dumps (sv, repo)"
    unfolding assms(2,3) by (intro run_appends_inv [OF assms(1)])
  have mem: "e \<in> set (fr_entries repo t)"
    using run_appends_extends [of sha dumps evs' st1 t] assms(3,4) by (metis Un_iff set_append snd_conv)
  then have ne: "fr_entries repo t \<noteq> []" by auto
  from inv have leaves: "as_leaf_hashes sv t = map (leaf_hash sha dumps) (fr_entries repo t)"
    by (simp add: log_inv_def)
  have dig: "\<forall>x \<in> set (as_leaf_hashes sv t). is_digest x"
    unfolding leaves by (auto simp: leaf_hash_digest [OF assms(1)])
  have "leaf_hash sha dumps e \<in> set (as_leaf_hashes sv t)" unfolding leaves using mem by simp
  from inclusion_proof_exists [OF assms(1) dig this, of t] inv ne mem show ?thesis
    by (fastforce simp: log_inv_def get_root_def count_entries_def)
qed

theorem recorded_entries_stay_provable_witness:
  "sample_entry ''t'' ''a'' \<in> set (fr_entries (snd (run_appends sample_sha sample_dumps
     [(2, ''t'', sample_entry ''t'' ''bb'')]
     (run_appends sample_sha sample_dumps [(1, ''t'', sample_entry ''t'' ''a'')]
       (new_audit_service, empty_forensic_repo)))) ''t'')"
proof -
  let ?st = "run_appends sample_sha sample_dumps [(1, ''t'', sample_entry ''t'' ''a'')]
       (new_audit_service, empty_forensic_repo)"
  have "sample_entry ''t'' ''a'' \<in> set (fr_entries (snd ?st) ''t'')"
    by (simp add: run_appends_def append_entry_def new_audit_service_def empty_forensic_repo_def
        get_entry_def repo_append_entry_def save_merkle_root_def compute_merkle_root_def
        root_loop.simps Let_def)
  from recorded_entries_stay_provable [OF sample_sha_like refl prod.collapse this] show ?thesis by blast
qed

text \<open>
  A refused append has no effect and an accepted one is found again: when the identifier is
  already recorded for the tenant the append raises and changes nothing, otherwise it succeeds,
  the entry is the last of the tenant's log, no other tenant's log changes, and a lookup by its
  identifier returns it when it was filed under its own tenant.
\<close>

theorem append_entry_behaviour:
  assumes "sha256_like sha" and "log_inv sha dumps (sv, repo)"
  shows "if get_entry t (ae_entry_id e) repo \<noteq> None
    then \<exists>m. append_entry sha dumps now t e (sv, repo) = (Inl (AuditLogVerificationError m), sv, repo)
    else \<exists>sv' repo'. append_entry sha dumps now t e (sv, repo) = (Inr e, sv', repo') \<and>
      fr_entries repo' t = fr_entries repo t @ [e] \<and>
      fr_entries repo' t' = (if t' = t then fr_entries repo t @ [e] else fr_entries repo t') \<and>
      get_entry (ae_tenant_id e) (ae_entry_id e) repo' = Some e"
proof (cases "get_entry t (ae_entry_id e) repo")
  case (Some x)
  then show ?thesis by (simp add: append_entry_def)
next
  case None
  have "as_leaf_hashes sv t = map (leaf_hash sha dumps) (fr_entries repo t)"
    using assms(2) by (simp add: log_inv_def)
  then have "\<forall>x \<in> set (as_leaf_hashes sv t @ [leaf_hash sha dumps e]). is_digest x"
    by (auto simp: leaf_hash_digest [OF assms(1)])
  from root_total [OF assms(1) this] None show ?thesis
    by (auto simp: append_entry_def Let_def repo_append_entry_def save_merkle_root_def get_entry_def)
qed

theorem append_entry_behaviour_witness:
  "\<exists>sv' repo'. append_entry sample_sha sample_dumps 1 ''t'' (sample_entry ''t'' ''a'')
       (new_audit_service, empty_forensic_repo) = (Inr (sample_entry ''t'' ''a''), sv', repo') \<and>
     fr_entries repo' ''t'' = [sample_entry ''t'' ''a''] \<and>
     get_entry ''t'' ''a'' repo' = Some (sample_entry ''t'' ''a'')"
proof -
  have "log_inv sample_sha sample_dumps (new_audit_service, empty_forensic_repo)"
    by (simp add: log_inv_def new_audit_service_def empty_forensic_repo_def)
  from append_entry_behaviour [OF sample_sha_like this, of "''t''" "sample_entry ''t'' ''a''" 1 "''t''"]
  show ?thesis
    by (auto simp: get_entry_def empty_forensic_repo_def sample_entry_def)
qed

section \<open>Where the log promises more than it does\<close>

lemma up_duplicated_last:
  "odd (length xs) \<Longrightarrow> up sha (xs @ [last xs]) = up sha xs"
  by (induction sha xs rule: up.induct) auto

text \<open>
  The root does not commit to the number of entries: repeating the last leaf of a tree with
  an odd number of leaves, at least three, leaves the root unchanged, so the same root stands for two
  different logs.
\<close>

theorem root_ignores_repeated_last_leaf:
  assumes "sha256_like sha" and "\<forall>x \<in> set leaves. is_digest x" and "odd (length leaves)"
    and "length leaves \<ge> 3"
  shows "compute_merkle_root sha (leaves @ [last leaves]) = compute_merkle_root sha leaves"
proof -
  have ne: "leaves \<noteq> []" using assms(4) by auto
  have "\<forall>x \<in> set (leaves @ [last leaves]). is_digest x" using assms(2) ne by auto
  from root_loop_up [OF this, of sha] root_loop_up [OF assms(2), of sha] assms(3,4) ne show ?thesis
    by (simp add: compute_merkle_root_def up_duplicated_last)
qed

theorem root_ignores_repeated_last_leaf_witness:
  "let l = (\<lambda>i. leaf_hash sample_sha sample_dumps (sample_entry ''t'' i))
   in compute_merkle_root sample_sha [l ''a'', l ''bb'', l ''ccc'', l ''ccc''] =
      compute_merkle_root sample_sha [l ''a'', l ''bb'', l ''ccc'']"
  using root_ignores_repeated_last_leaf [OF sample_sha_like, of
      "map (\<lambda>i. leaf_hash sample_sha sample_dumps (sample_entry ''t'' i)) [''a'', ''bb'', ''ccc'']"]
  by (simp add: leaf_hash_digest [OF sample_sha_like] Let_def)

text \<open>
  The tree is rebuilt from nothing after a restart: a service instance that has not appended
  for a tenant yet publishes, with its first append, the root of a one-leaf tree of size 1 over
  a repository that already holds the earlier entries, and overwrites the stored root with it.
\<close>

theorem restart_forgets_earlier_leaves:
  assumes "get_entry t (ae_entry_id e) repo = None"
  shows "\<exists>sv' repo'. append_entry sha dumps now t e (new_audit_service, repo) = (Inr e, sv', repo') \<and>
    get_latest_merkle_root t repo' = Some (leaf_hash sha dumps e, 1) \<and>
    get_root t sv' repo' = Some (leaf_hash sha dumps e, 1) \<and>
    count_entries t repo' = count_entries t repo + 1"
  using assms
  by (simp add: append_entry_def new_audit_service_def compute_merkle_root_def root_loop.simps
      Let_def repo_append_entry_def save_merkle_root_def get_latest_merkle_root_def get_root_def
      count_entries_def)

theorem restart_forgets_earlier_leaves_witness:
  "\<exists>sv' repo'. append_entry sample_sha sample_dumps 2 ''t'' (sample_entry ''t'' ''bb'')
      (new_audit_service, repo_append_entry ''t'' (sample_entry ''t'' ''a'') empty_forensic_repo) =
      (Inr (sample_entry ''t'' ''bb''), sv', repo') \<and>
    get_root ''t'' sv' repo' = Some (leaf_hash sample_sha sample_dumps (sample_entry ''t'' ''bb''), 1) \<and>
    count_entries ''t'' repo' = 2"
  using restart_forgets_earlier_leaves [of "''t''" "sample_entry ''t'' ''bb''"
      "repo_append_entry ''t'' (sample_entry ''t'' ''a'') empty_forensic_repo" sample_sha sample_dumps 2]
  by (auto simp: get_entry_def repo_append_entry_def empty_forensic_repo_def sample_entry_def
      count_entries_def)

text \<open>
  The integrity proof of a chain checks membership only: it is valid exactly when the chain is
  not empty and every listed identifier occurs among the leaves, in whatever order and with
  whatever parent links.
\<close>

theorem integrity_proof_valid_iff:
  assumes "build_integrity_proof sha now t ids leaves = Inr proof"
  shows "ip_is_valid proof \<longleftrightarrow> ids \<noteq> [] \<and> set ids \<subseteq> set leaves"
  using assms
  by (auto simp: build_integrity_proof_def Let_def filter_empty_conv split: sum.splits)

theorem integrity_proof_valid_iff_witness:
  "\<exists>proof. build_integrity_proof sample_sha 0 ''t''
     [leaf_hash sample_sha sample_dumps (sample_entry ''t'' ''a'')]
     [leaf_hash sample_sha sample_dumps (sample_entry ''t'' ''a'')] = Inr proof \<and> ip_is_valid proof"
proof -
  let ?l = "leaf_hash sample_sha sample_dumps (sample_entry ''t'' ''a'')"
  obtain proof' where b: "build_integrity_proof sample_sha 0 ''t'' [?l] [?l] = Inr proof'"
    by (cases "build_integrity_proof sample_sha 0 ''t'' [?l] [?l]")
      (simp_all add: build_integrity_proof_def compute_merkle_root_def root_loop.simps Let_def)
  with integrity_proof_valid_iff [OF b] show ?thesis by auto
qed

text \<open>
  A chain link does not determine the evidence it links: moving a character from the end of the
  parent identifier to the front of the child identifier gives the same link identifier and the
  same link hash.
\<close>

theorem chain_link_ambiguous:
  "el_link_id (create_chain_link sha now t (p @ [x]) c ph ch actor) =
     el_link_id (create_chain_link sha now t p (x # c) ph ch actor) \<and>
   el_link_hash (create_chain_link sha now t (p @ [x]) c ph ch actor) =
     el_link_hash (create_chain_link sha now t p (x # c) ph ch actor)"
  by (simp add: create_chain_link_def Let_def)

end
