(* ===== verification/Approval_Queue.thy ===== *)
theory Approval_Queue
  imports Recovery_Types
begin

text \<open>
  The human-in-the-loop approval queue \<open>HITLQueue\<close> of \<open>app/domain/services/hitl_queue.py\<close> over the
  table of \<open>approval_request_model.py\<close>. Each method runs in one database session, which commits
  when the block ends and rolls back when an exception leaves it, so a method is one transition on
  the table. The Redis mirror of the pending requests is written and never read; it is left out.

  Shown: the queue's invariant, that an approved request really received the approvals it needs,
  none of them from its requester, the outcome of every decision, and what listing returns. The
  last two properties show that one person can supply both approvals of a dual approval and that a
  late decision turns an approved request into an expired one.
\<close>

section \<open>Rows and results\<close>

type_synonym uuid = string

record approval_request =
  ar_request_id :: string
  ar_intent_text :: string
  ar_risk_score :: real
  ar_status :: string
  ar_created_at :: datetime
  ar_expires_at :: datetime
  ar_decided_at :: "datetime option"
  ar_decided_by :: "uuid option"
  ar_tenant_id :: "string option"
  ar_user_id :: "uuid option"
  ar_approval_count :: int
  ar_required_approvers :: int

type_synonym approval_table = "approval_request list"

text \<open>The settings of a queue instance.\<close>

record hitl_queue =
  hq_ttl :: timedelta
  hq_required_approvers :: int

text \<open>
  \<open>_to_dict\<close> returns the columns of the row; the model returns the row itself.
\<close>

definition find_request :: "string \<Rightarrow> approval_table \<Rightarrow> approval_request option" where
  "find_request request_id rows = sql_first (sql_select (\<lambda>r. ar_request_id r = request_id) rows)"

definition put_request :: "approval_request \<Rightarrow> approval_table \<Rightarrow> approval_table" where
  "put_request row rows = sql_update (\<lambda>r. ar_request_id r = ar_request_id row) (\<lambda>_. row) rows"

section \<open>Operations\<close>

text \<open>
  \<open>fresh\<close> is the value of \<open>uuid4()\<close>. An absent or zero number of approvers falls back to the queue's.
\<close>

definition enqueue_request ::
  "hitl_queue \<Rightarrow> datetime \<Rightarrow> string \<Rightarrow> string option \<Rightarrow> string \<Rightarrow> real \<Rightarrow> string option \<Rightarrow> uuid option
     \<Rightarrow> int option \<Rightarrow> approval_table \<Rightarrow> (py_error + string) \<times> approval_table" where
  "enqueue_request q now fresh request_id intent_text risk_score tenant_id user_id required rows =
     (let request_key = (if truthy request_id then the request_id else fresh);
          approvers = (case required of
                         Some n \<Rightarrow> if n \<noteq> 0 then n else hq_required_approvers q
                       | None \<Rightarrow> hq_required_approvers q)
      in case sql_insert ar_request_id
                \<lparr>ar_request_id = request_key, ar_intent_text = intent_text,
                 ar_risk_score = risk_score, ar_status = ''pending'', ar_created_at = now,
                 ar_expires_at = now + hq_ttl q, ar_decided_at = None, ar_decided_by = None,
                 ar_tenant_id = tenant_id, ar_user_id = user_id, ar_approval_count = 0,
                 ar_required_approvers = approvers\<rparr> rows of
           None \<Rightarrow> (Inl (ApprovalError (''already exists: '' @ request_key)), rows)
         | Some rows' \<Rightarrow> (Inr request_key, rows'))"

definition expired_row :: "datetime \<Rightarrow> approval_request \<Rightarrow> approval_request" where
  "expired_row now r = r\<lparr>ar_status := ''expired'', ar_decided_at := Some now\<rparr>"

text \<open>\<open>_decide\<close>; an expired request is marked and committed, then the error is raised.\<close>

definition decide ::
  "datetime \<Rightarrow> string \<Rightarrow> bool \<Rightarrow> uuid option \<Rightarrow> string option \<Rightarrow> approval_table
     \<Rightarrow> (py_error + approval_request) \<times> approval_table" where
  "decide now request_id approve decided_by tenant_id rows =
     (case find_request request_id rows of
        None \<Rightarrow> (Inl (ApprovalError ''not found''), rows)
      | Some model \<Rightarrow>
          if ar_expires_at model \<le> now
          then (Inl (ApprovalError ''has expired''), put_request (expired_row now model) rows)
          else if ar_status model \<noteq> ''pending''
          then (Inl (ApprovalError ''has already been resolved''), rows)
          else if tenant_id \<noteq> None \<and> ar_tenant_id model \<noteq> tenant_id
          then (Inl (ApprovalError ''does not belong to tenant''), rows)
          else if approve \<and> ar_user_id model = decided_by
          then (Inl (ApprovalError ''Self-approval is not permitted''), rows)
          else
            (let model' =
               (if approve
                then
                  (let counted = model\<lparr>ar_approval_count := ar_approval_count model + 1\<rparr>
                   in if ar_approval_count counted \<ge> ar_required_approvers counted
                      then counted\<lparr>ar_status := ''approved'', ar_decided_at := Some now,
                                   ar_decided_by := decided_by\<rparr>
                      else counted)
                else model\<lparr>ar_status := ''rejected'', ar_decided_at := Some now,
                           ar_decided_by := decided_by\<rparr>)
             in (Inr model', put_request model' rows)))"

definition approve_request ::
  "datetime \<Rightarrow> string \<Rightarrow> uuid option \<Rightarrow> string option \<Rightarrow> approval_table
     \<Rightarrow> (py_error + approval_request) \<times> approval_table" where
  "approve_request now request_id decided_by tenant_id rows =
     decide now request_id True decided_by tenant_id rows"

definition reject_request ::
  "datetime \<Rightarrow> string \<Rightarrow> uuid option \<Rightarrow> string option \<Rightarrow> approval_table
     \<Rightarrow> (py_error + approval_request) \<times> approval_table" where
  "reject_request now request_id decided_by tenant_id rows =
     decide now request_id False decided_by tenant_id rows"

text \<open>\<open>revoke_request\<close> takes a \<open>tenant_id\<close> and does not use it.\<close>

definition revoke_request ::
  "datetime \<Rightarrow> string \<Rightarrow> string option \<Rightarrow> approval_table
     \<Rightarrow> (py_error + approval_request) \<times> approval_table" where
  "revoke_request now request_id tenant_id rows =
     (case find_request request_id rows of
        None \<Rightarrow> (Inl (ApprovalError ''not found''), rows)
      | Some model \<Rightarrow>
          if ar_expires_at model \<le> now then (Inl (ApprovalError ''has expired''), rows)
          else if ar_status model \<in> {''approved'', ''pending''}
          then (let model' = model\<lparr>ar_status := ''revoked'', ar_decided_at := Some now\<rparr>
                in (Inr model', put_request model' rows))
          else (Inl (ApprovalError (''cannot be revoked from status '' @ ar_status model)), rows))"

definition list_pending_requests ::
  "datetime \<Rightarrow> string option \<Rightarrow> approval_table \<Rightarrow> approval_request list \<times> approval_table" where
  "list_pending_requests now tenant_id rows =
     (let wanted = (\<lambda>r. ar_status r = ''pending'' \<and>
                        (case tenant_id of None \<Rightarrow> True | Some t \<Rightarrow> ar_tenant_id r = Some t));
          pending = sort_key ar_created_at (sql_select wanted rows)
      in (filter (\<lambda>r. \<not> ar_expires_at r \<le> now) pending,
          sql_update (\<lambda>r. wanted r \<and> ar_expires_at r \<le> now) (expired_row now) rows))"

definition reset_queue :: "approval_table \<Rightarrow> approval_table" where
  "reset_queue rows = []"

section \<open>Runs of the queue\<close>

text \<open>
  The calls any number of users and instances make, one after the other, together with the list
  of the approvals that were accepted (request and approver); a reset empties both.
\<close>

datatype hitl_call =
    Enqueue hitl_queue datetime string "string option" string real "string option" "uuid option" "int option"
  | Approve datetime string "uuid option" "string option"
  | Reject datetime string "uuid option" "string option"
  | Revoke datetime string "string option"
  | ListPending datetime "string option"
  | Reset

type_synonym hitl_state = "approval_table \<times> (string \<times> uuid option) list"

fun hitl_exec :: "hitl_call \<Rightarrow> hitl_state \<Rightarrow> hitl_state" where
  "hitl_exec (Enqueue q now fresh rid txt risk tenant user n) (rows, hist) =
     (snd (enqueue_request q now fresh rid txt risk tenant user n rows), hist)"
| "hitl_exec (Approve now rid by tenant) (rows, hist) =
     (case approve_request now rid by tenant rows of
        (Inl e, rows') \<Rightarrow> (rows', hist)
      | (Inr _, rows') \<Rightarrow> (rows', hist @ [(rid, by)]))"
| "hitl_exec (Reject now rid by tenant) (rows, hist) = (snd (reject_request now rid by tenant rows), hist)"
| "hitl_exec (Revoke now rid tenant) (rows, hist) = (snd (revoke_request now rid tenant rows), hist)"
| "hitl_exec (ListPending now tenant) (rows, hist) = (snd (list_pending_requests now tenant rows), hist)"
| "hitl_exec Reset (rows, hist) = (reset_queue rows, [])"

inductive hitl_reachable :: "hitl_state \<Rightarrow> bool" where
  start: "hitl_reachable ([], [])"
| step: "hitl_reachable st \<Longrightarrow> hitl_reachable (hitl_exec call st)"

section \<open>The invariant\<close>

definition approvals_of :: "string \<Rightarrow> (string \<times> uuid option) list \<Rightarrow> uuid option list" where
  "approvals_of rid hist = map snd (filter (\<lambda>x. fst x = rid) hist)"

definition row_ok :: "(string \<times> uuid option) list \<Rightarrow> approval_request \<Rightarrow> bool" where
  "row_ok hist r \<longleftrightarrow>
     ar_status r \<in> {''pending'', ''approved'', ''rejected'', ''revoked'', ''expired''} \<and>
     ar_approval_count r = int (length (approvals_of (ar_request_id r) hist)) \<and>
     ar_user_id r \<notin> set (approvals_of (ar_request_id r) hist) \<and>
     (ar_status r = ''approved'' \<longrightarrow> ar_required_approvers r \<le> ar_approval_count r \<and>
        0 < ar_approval_count r \<and> ar_decided_by r \<in> set (approvals_of (ar_request_id r) hist)) \<and>
     (ar_status r = ''pending'' \<longrightarrow> ar_approval_count r < max 1 (ar_required_approvers r) \<and>
        ar_decided_at r = None \<and> ar_decided_by r = None) \<and>
     (ar_status r \<noteq> ''pending'' \<longrightarrow> ar_decided_at r \<noteq> None)"

definition queue_inv :: "hitl_state \<Rightarrow> bool" where
  "queue_inv st \<longleftrightarrow>
     pk ar_request_id (fst st) \<and> (\<forall>r \<in> set (fst st). row_ok (snd st) r) \<and>
     fst ` set (snd st) \<subseteq> ar_request_id ` set (fst st)"

lemma find_request_Some:
  "find_request rid rows = Some r \<Longrightarrow> r \<in> set rows \<and> ar_request_id r = rid"
  by (cases "sql_select (\<lambda>r. ar_request_id r = rid) rows")
    (auto simp: find_request_def sql_select_def filter_eq_Cons_iff)

lemma find_request_pk:
  "pk ar_request_id rows \<Longrightarrow> r \<in> set rows \<Longrightarrow> find_request (ar_request_id r) rows = Some r"
  by (induction rows) (auto simp: find_request_def sql_select_def pk_def image_iff)

lemma put_request_ids [simp]:
  "map ar_request_id (put_request r rows) = map ar_request_id rows"
  by (simp add: put_request_def sql_update_def)

lemma put_request_set:
  "x \<in> set (put_request r rows) \<Longrightarrow> x = r \<or> x \<in> set rows \<and> ar_request_id x \<noteq> ar_request_id r"
  by (auto simp: put_request_def sql_update_def)

text \<open>Replacing one row by a good row with the same identifier keeps the invariant.\<close>

lemma queue_inv_put:
  assumes "queue_inv (rows, hist)" and "row_ok hist r"
  shows "queue_inv (put_request r rows, hist)"
proof -
  have "ar_request_id ` set (put_request r rows) = ar_request_id ` set rows"
    by (metis list.set_map put_request_ids)
  with assms show ?thesis
    by (auto simp: queue_inv_def pk_def dest: put_request_set)
qed

lemma row_ok_expired: "row_ok hist r \<Longrightarrow> row_ok hist (expired_row now r)"
  by (simp add: row_ok_def expired_row_def)

lemma approvals_snoc:
  "approvals_of rid (hist @ [(rid', by)]) = approvals_of rid hist @ (if rid' = rid then [by] else [])"
  by (simp add: approvals_of_def)

lemma find_in_inv:
  assumes "queue_inv (rows, hist)" and "find_request rid rows = Some r"
  shows "row_ok hist r" and "ar_request_id r = rid" and "r \<in> set rows"
  using assms find_request_Some [OF assms(2)] by (auto simp: queue_inv_def)

lemma row_ok_other:
  assumes "ar_request_id r \<noteq> rid" and "row_ok hist r"
  shows "row_ok (hist @ [(rid, by)]) r"
proof -
  have same: "approvals_of (ar_request_id r) (hist @ [(rid, by)]) = approvals_of (ar_request_id r) hist"
    using assms(1) by (simp add: approvals_snoc)
  show ?thesis using assms(2) unfolding row_ok_def same .
qed

lemma queue_inv_approved:
  assumes inv: "queue_inv (rows, hist)" and "find_request rid rows = Some m"
    and "ar_request_id r = rid" and "row_ok (hist @ [(rid, by)]) r"
  shows "queue_inv (put_request r rows, hist @ [(rid, by)])"
proof -
  have ids: "ar_request_id ` set (put_request r rows) = ar_request_id ` set rows"
    by (metis list.set_map put_request_ids)
  have "row_ok (hist @ [(rid, by)]) x" if "x \<in> set (put_request r rows)" for x
    using put_request_set [OF that] assms(3,4) inv row_ok_other [of x rid]
    by (auto simp: queue_inv_def)
  moreover have "rid \<in> ar_request_id ` set rows"
    using find_request_Some [OF assms(2)] by blast
  ultimately show ?thesis using inv ids by (auto simp: queue_inv_def pk_def)
qed

lemma row_ok_counted:
  assumes "row_ok hist m" and "ar_status m = ''pending''" and "ar_user_id m \<noteq> by"
  defines "k \<equiv> ar_approval_count m + 1"
  shows "\<not> k \<ge> ar_required_approvers m \<Longrightarrow>
      row_ok (hist @ [(ar_request_id m, by)]) (m\<lparr>ar_approval_count := k\<rparr>)"
    and "k \<ge> ar_required_approvers m \<Longrightarrow>
      row_ok (hist @ [(ar_request_id m, by)]) (m\<lparr>ar_approval_count := k, ar_status := ''approved'',
        ar_decided_at := Some now, ar_decided_by := by\<rparr>)"
  using assms(1-3) unfolding row_ok_def k_def approvals_snoc by simp_all

lemma decide_inv:
  assumes inv: "queue_inv (rows, hist)"
  shows "queue_inv (hitl_exec (Approve now rid by tenant) (rows, hist))"
    and "queue_inv (hitl_exec (Reject now rid by tenant) (rows, hist))"
proof -
  show "queue_inv (hitl_exec (Approve now rid by tenant) (rows, hist))"
  proof (cases "find_request rid rows")
    case None
    with inv show ?thesis by (simp add: approve_request_def decide_def)
  next
    case (Some m)
    note m = find_in_inv [OF inv Some]
    have ex: "queue_inv (put_request (expired_row now m) rows, hist)"
      using queue_inv_put [OF inv row_ok_expired [OF m(1)]] .
    consider "ar_expires_at m \<le> now" | "\<not> ar_expires_at m \<le> now" "ar_status m \<noteq> ''pending''
        \<or> tenant \<noteq> None \<and> ar_tenant_id m \<noteq> tenant \<or> ar_user_id m = by"
      | "\<not> ar_expires_at m \<le> now" "ar_status m = ''pending''" "\<not> (tenant \<noteq> None \<and> ar_tenant_id m \<noteq> tenant)"
        "ar_user_id m \<noteq> by" by blast
    then show ?thesis
    proof cases
      case 1
      with Some ex show ?thesis by (simp add: approve_request_def decide_def)
    next
      case 2
      with Some inv show ?thesis by (auto simp: approve_request_def decide_def)
    next
      case 3
      define r where "r = (let counted = m\<lparr>ar_approval_count := ar_approval_count m + 1\<rparr>
        in if ar_approval_count counted \<ge> ar_required_approvers counted
           then counted\<lparr>ar_status := ''approved'', ar_decided_at := Some now, ar_decided_by := by\<rparr>
           else counted)"
      have "ar_request_id r = rid" by (simp add: r_def m(2) Let_def)
      moreover have "row_ok (hist @ [(rid, by)]) r"
        using row_ok_counted [OF m(1) 3(2,4)] unfolding r_def Let_def m(2) by simp
      ultimately have "queue_inv (put_request r rows, hist @ [(rid, by)])"
        by (rule queue_inv_approved [OF inv Some])
      moreover have "approve_request now rid by tenant rows = (Inr r, put_request r rows)"
        using Some 3 by (simp add: approve_request_def decide_def r_def Let_def)
      ultimately show ?thesis by simp
    qed
  qed
  show "queue_inv (hitl_exec (Reject now rid by tenant) (rows, hist))"
  proof (cases "find_request rid rows")
    case None
    with inv show ?thesis by (simp add: reject_request_def decide_def)
  next
    case (Some m)
    note m = find_in_inv [OF inv Some]
    have "row_ok hist (m\<lparr>ar_status := ''rejected'', ar_decided_at := Some now, ar_decided_by := by\<rparr>)"
      using m(1) by (simp add: row_ok_def)
    from queue_inv_put [OF inv this] queue_inv_put [OF inv row_ok_expired [OF m(1)]] inv Some
    show ?thesis by (simp add: reject_request_def decide_def Let_def)
  qed
qed

lemma revoke_inv:
  assumes inv: "queue_inv (rows, hist)"
  shows "queue_inv (hitl_exec (Revoke now rid tenant) (rows, hist))"
proof (cases "find_request rid rows")
  case None
  with inv show ?thesis by (simp add: revoke_request_def)
next
  case (Some m)
  note m = find_in_inv [OF inv Some]
  have "row_ok hist (m\<lparr>ar_status := ''revoked'', ar_decided_at := Some now\<rparr>)"
    using m(1) by (simp add: row_ok_def)
  from queue_inv_put [OF inv this] inv Some show ?thesis by (simp add: revoke_request_def Let_def)
qed

lemma queue_inv_insert:
  assumes inv: "queue_inv (rows, hist)" and ins: "sql_insert ar_request_id r rows = Some rows'"
    and fresh: "ar_status r = ''pending''" "ar_approval_count r = 0" "ar_decided_at r = None"
      "ar_decided_by r = None"
  shows "queue_inv (rows', hist)"
proof -
  have new: "ar_request_id r \<notin> ar_request_id ` set rows" "rows' = rows @ [r]"
    using ins by (auto simp: sql_insert_def split: if_splits)
  then have "approvals_of (ar_request_id r) hist = []"
    using inv by (auto simp: queue_inv_def approvals_of_def filter_empty_conv)
  with fresh have "row_ok hist r" by (simp add: row_ok_def)
  with inv new show ?thesis unfolding queue_inv_def by (auto simp: pk_def)
qed

lemma enqueue_inv:
  assumes "queue_inv (rows, hist)"
  shows "queue_inv (hitl_exec (Enqueue q now fresh rid txt risk tenant user n) (rows, hist))"
  using assms queue_inv_insert [OF assms]
  by (simp add: enqueue_request_def Let_def split: option.split)

lemma list_pending_inv:
  assumes "queue_inv (rows, hist)"
  shows "queue_inv (hitl_exec (ListPending now tenant) (rows, hist))"
proof -
  let ?f = "\<lambda>r. if (ar_status r = ''pending'' \<and> (case tenant of None \<Rightarrow> True | Some t \<Rightarrow> ar_tenant_id r = Some t)) \<and>
      ar_expires_at r \<le> now then expired_row now r else r"
  have eq: "hitl_exec (ListPending now tenant) (rows, hist) = (map ?f rows, hist)"
    by (simp add: list_pending_requests_def Let_def sql_update_def)
  have id: "ar_request_id (?f r) = ar_request_id r" for r by (simp add: expired_row_def)
  have "map ar_request_id (map ?f rows) = map ar_request_id rows"
    by (simp add: expired_row_def)
  then have "ar_request_id ` set (map ?f rows) = ar_request_id ` set rows" "pk ar_request_id (map ?f rows)"
    using assms by (metis list.set_map) (use assms in \<open>simp add: queue_inv_def pk_def expired_row_def o_def if_distrib cong: if_cong\<close>)
  moreover have "\<forall>x \<in> set (map ?f rows). row_ok hist x"
    using assms row_ok_expired by (auto simp: queue_inv_def)
  ultimately show ?thesis unfolding eq using assms by (auto simp: queue_inv_def)
qed

lemma queue_reachable_inv: "hitl_reachable st \<Longrightarrow> queue_inv st"
proof (induction rule: hitl_reachable.induct)
  case start
  then show ?case by (simp add: queue_inv_def)
next
  case (step st call)
  obtain rows hist where st: "st = (rows, hist)" by fastforce
  with step.IH show ?case
  proof (cases call)
    case Reset
    with st show ?thesis by (simp add: reset_queue_def queue_inv_def)
  qed (simp_all only: enqueue_inv decide_inv revoke_inv list_pending_inv)
qed

section \<open>Properties\<close>

text \<open>
  C23. An approved request was approved: in every state the queue can reach, a request in status
  approved received as many accepted approvals as it requires, and at least one; none of them came
  from its requester, and the recorded decider is one of the approvers.
\<close>

theorem approved_request_was_approved:
  assumes "hitl_reachable (rows, hist)" and "r \<in> set rows" and "ar_status r = ''approved''"
  shows "ar_required_approvers r \<le> int (length (approvals_of (ar_request_id r) hist)) \<and>
    approvals_of (ar_request_id r) hist \<noteq> [] \<and>
    ar_user_id r \<notin> set (approvals_of (ar_request_id r) hist) \<and>
    ar_decided_by r \<in> set (approvals_of (ar_request_id r) hist)"
proof -
  from queue_reachable_inv [OF assms(1)] assms(2) have "row_ok hist r" by (simp add: queue_inv_def)
  with assms(3) show ?thesis by (auto simp: row_ok_def)
qed

definition sample_queue :: "int \<Rightarrow> hitl_queue" where
  "sample_queue n = \<lparr>hq_ttl = 300, hq_required_approvers = n\<rparr>"

definition sample_enqueue :: "int \<Rightarrow> hitl_call" where
  "sample_enqueue n = Enqueue (sample_queue n) 0 ''u1'' (Some ''r1'') ''drop table'' 0 None (Some ''ann'') None"

lemmas sample_hitl_simps =
  sample_enqueue_def sample_queue_def enqueue_request_def approve_request_def decide_def
  find_request_def sql_select_def sql_insert_def put_request_def sql_update_def Let_def
  approvals_of_def expired_row_def

lemma hitl_run_reachable: "hitl_reachable (fold hitl_exec calls ([], []))"
proof (induction calls rule: rev_induct)
  case Nil
  then show ?case by (simp add: hitl_reachable.start)
next
  case (snoc c cs)
  then show ?case by (simp add: hitl_reachable.step)
qed

theorem approved_request_was_approved_witness:
  "\<exists>rows hist r. (rows, hist) = fold hitl_exec [sample_enqueue 1, Approve 1 ''r1'' (Some ''bob'') None] ([], []) \<and>
     r \<in> set rows \<and> ar_status r = ''approved'' \<and> Some ''ann'' \<notin> set (approvals_of ''r1'' hist)"
proof -
  let ?calls = "[sample_enqueue 1, Approve 1 ''r1'' (Some ''bob'') None]"
  have "\<exists>rows hist r. fold hitl_exec ?calls ([], []) = (rows, hist) \<and> r \<in> set rows \<and>
      ar_status r = ''approved'' \<and> ar_request_id r = ''r1'' \<and> ar_user_id r = Some ''ann''"
    by (simp add: sample_hitl_simps)
  then obtain rows hist r where st: "fold hitl_exec ?calls ([], []) = (rows, hist)" and r: "r \<in> set rows"
      "ar_status r = ''approved''" "ar_request_id r = ''r1''" "ar_user_id r = Some ''ann''" by blast
  from hitl_run_reachable [of ?calls] have "hitl_reachable (rows, hist)" unfolding st .
  from approved_request_was_approved [OF this r(1,2)] r st show ?thesis by auto
qed

text \<open>When a decision is accepted: the request is pending and unexpired, of the tenant, and not self-approved.\<close>

definition acceptable :: "datetime \<Rightarrow> bool \<Rightarrow> uuid option \<Rightarrow> string option \<Rightarrow> approval_request \<Rightarrow> bool" where
  "acceptable now approve decider tenant m \<longleftrightarrow>
     now < ar_expires_at m \<and> ar_status m = ''pending'' \<and>
     (tenant = None \<or> ar_tenant_id m = tenant) \<and> (approve \<longrightarrow> ar_user_id m \<noteq> decider)"

lemma find_put:
  assumes "pk ar_request_id rows" and "find_request (ar_request_id r) rows = Some m"
  shows "find_request rid (put_request r rows) = (if rid = ar_request_id r then Some r else find_request rid rows)"
  using assms
proof (induction rows)
  case (Cons x xs)
  show ?case
  proof (cases "ar_request_id x = ar_request_id r")
    case True
    with Cons.prems(1) have "\<forall>y \<in> set xs. ar_request_id y \<noteq> ar_request_id r"
      by (auto simp: pk_def image_iff)
    then have "put_request r xs = xs" by (simp add: put_request_def sql_update_def map_idI)
    with True show ?thesis
      by (auto simp: find_request_def put_request_def sql_update_def sql_select_def)
  next
    case False
    with Cons.prems have "find_request (ar_request_id r) xs = Some m" "pk ar_request_id xs"
      by (auto simp: find_request_def sql_select_def pk_def)
    with Cons.IH False show ?thesis
      by (auto simp: find_request_def put_request_def sql_update_def sql_select_def)
  qed
qed (simp add: find_request_def sql_select_def)

text \<open>
  What a decision does. On a stored request it is answered with the decided row exactly when
  the request is acceptable (pending, unexpired, of the given tenant, not approved by its own
  requester); otherwise it raises an ApprovalError, and nothing changes except that a request
  whose time has passed is marked expired. An accepted rejection closes the request; an accepted
  approval adds one to its count and closes it exactly when the count reaches the required
  number. No other request is touched.
\<close>

theorem decision_behaviour:
  assumes "pk ar_request_id rows" and "find_request rid rows = Some m"
  shows "let (res, rows') = decide now rid approve decider tenant rows in
    (if acceptable now approve decider tenant m
     then \<exists>m'. res = Inr m' \<and> find_request rid rows' = Some m' \<and>
       ar_approval_count m' = ar_approval_count m + (if approve then 1 else 0) \<and>
       ar_status m' = (if \<not> approve then ''rejected''
                       else if ar_required_approvers m \<le> ar_approval_count m + 1 then ''approved'' else ''pending'') \<and>
       ar_decided_by m' = (if ar_status m' = ''pending'' then ar_decided_by m else decider)
     else (\<exists>msg. res = Inl (ApprovalError msg)) \<and>
       find_request rid rows' = Some (if ar_expires_at m \<le> now then expired_row now m else m)) \<and>
    (rid' \<noteq> rid \<longrightarrow> find_request rid' rows' = find_request rid' rows)"
proof -
  have id: "ar_request_id m = rid" using find_request_Some [OF assms(2)] by simp
  have put: "find_request i (put_request r rows) = (if i = rid then Some r else find_request i rows)"
    if "ar_request_id r = rid" for r i
    using find_put [OF assms(1), of r m i] assms(2) that by simp
  show ?thesis
    using assms(2)
    by (auto simp: decide_def Let_def acceptable_def put id expired_row_def not_less)
qed

theorem decision_behaviour_witness:
  "let (res, rows') = decide 1 ''r1'' True (Some ''bob'') None
       (fst (hitl_exec (sample_enqueue 1) ([], [])))
   in \<exists>m'. res = Inr m' \<and> ar_status m' = ''approved''"
proof -
  let ?rows = "fst (hitl_exec (sample_enqueue 1) ([], []))"
  have "\<exists>m. ?rows = [m] \<and> ar_request_id m = ''r1'' \<and> acceptable 1 True (Some ''bob'') None m \<and>
      ar_required_approvers m = 1 \<and> ar_approval_count m = 0"
    by (simp add: sample_hitl_simps acceptable_def)
  then obtain m where m: "?rows = [m]" "ar_request_id m = ''r1''" "acceptable 1 True (Some ''bob'') None m"
      "ar_required_approvers m = 1" "ar_approval_count m = 0" by blast
  have "find_request ''r1'' [m] = Some m" by (simp add: find_request_def sql_select_def m(2))
  from decision_behaviour [of "[m]", OF _ this, of 1 True "Some ''bob''" None "''x''"] m show ?thesis
    by (auto simp: pk_def)
qed

text \<open>
  Listing returns exactly the pending requests that have not expired (of the tenant, if one is
  given), oldest first; those that have expired are marked expired, and no other row changes.
\<close>

theorem list_pending_exact:
  assumes "list_pending_requests now tenant rows = (listed, rows')"
  shows "set listed = {r \<in> set rows. ar_status r = ''pending'' \<and> now < ar_expires_at r \<and>
      (tenant = None \<or> ar_tenant_id r = tenant)} \<and>
    sorted (map ar_created_at listed) \<and>
    rows' = map (\<lambda>r. if ar_status r = ''pending'' \<and> (tenant = None \<or> ar_tenant_id r = tenant) \<and>
      ar_expires_at r \<le> now then expired_row now r else r) rows"
proof -
  have t: "(case tenant of None \<Rightarrow> True | Some x \<Rightarrow> ar_tenant_id r = Some x) \<longleftrightarrow>
      tenant = None \<or> ar_tenant_id r = tenant" for r by (cases tenant) auto
  have srt: "sorted (map ar_created_at (filter P (sort_key ar_created_at xs)))" for P xs
    by (simp add: sorted_filter)
  show ?thesis
    using assms unfolding list_pending_requests_def Let_def t prod.inject
    by (auto simp: sql_select_def sql_update_def srt not_le)
qed

theorem list_pending_exact_witness:
  "fst (list_pending_requests 1 None (fst (hitl_exec (sample_enqueue 1) ([], [])))) \<noteq> [] \<and>
   fst (list_pending_requests 301 None (fst (hitl_exec (sample_enqueue 1) ([], [])))) = []"
proof -
  let ?rows = "fst (hitl_exec (sample_enqueue 1) ([], []))"
  obtain l1 r1 where 1: "list_pending_requests 1 None ?rows = (l1, r1)" by fastforce
  obtain l2 r2 where 2: "list_pending_requests 301 None ?rows = (l2, r2)" by fastforce
  have "\<exists>m. ?rows = [m] \<and> ar_status m = ''pending'' \<and> ar_expires_at m = 300"
    by (simp add: sample_hitl_simps)
  then obtain m where m: "?rows = [m]" "ar_status m = ''pending''" "ar_expires_at m = 300" by blast
  have "m \<in> set l1" using list_pending_exact [OF 1] m by simp
  moreover have "set l2 = {}" using list_pending_exact [OF 2] m by auto
  ultimately show ?thesis using 1 2 by auto
qed

text \<open>
  One person can give both approvals of a dual approval: approvals are counted, the approvers
  are not compared, so a request that requires two approvers is approved by two calls of the
  same approver.
\<close>

theorem one_person_approves_twice:
  "\<exists>r. fold hitl_exec [sample_enqueue 2, Approve 1 ''r1'' (Some ''bob'') None, Approve 2 ''r1'' (Some ''bob'') None]
       ([], []) = ([r], [(''r1'', Some ''bob''), (''r1'', Some ''bob'')]) \<and>
     ar_status r = ''approved'' \<and> ar_required_approvers r = 2"
  by (simp add: sample_hitl_simps)

text \<open>
  A late decision rewrites a settled request: deciding a request after its expiry time marks it
  expired whatever its status, so an approved request becomes expired when anybody tries to decide
  it again later.
\<close>

theorem late_decision_expires_approved:
  "\<exists>r r'. fst (fold hitl_exec [sample_enqueue 1, Approve 1 ''r1'' (Some ''bob'') None] ([], [])) = [r] \<and>
     ar_status r = ''approved'' \<and>
     fst (fold hitl_exec [sample_enqueue 1, Approve 1 ''r1'' (Some ''bob'') None,
            Reject 400 ''r1'' (Some ''eve'') (Some ''other'')] ([], [])) = [r'] \<and>
     ar_status r' = ''expired''"
  by (simp add: sample_hitl_simps reject_request_def)

end
