(* ===== verification/Circuit_Breaker.thy ===== *)
theory Circuit_Breaker
  imports Interlock_Prelude
begin

text \<open>
  \<open>CircuitBreakerService\<close> of \<open>app/domain/services/circuit_breaker_service.py\<close>: one circuit per
  resource, kept in five dictionaries. A reading of \<open>time.time()\<close> is an instant in microseconds.

  Shown: the service is a family of independent automata, one per resource; a circuit opens
  exactly at the configured number of consecutive failures, fails fast until its timeout and then
  admits a test call; its counters stay below their thresholds. The last two properties show that a
  half-open circuit admits every call and that successes counted before a failed test are kept.
\<close>

section \<open>The service\<close>

datatype circuit_state = CS_CLOSED | CS_OPEN | CS_HALF_OPEN

record breaker_config =
  bc_failure_threshold :: int
  bc_recovery_timeout :: timedelta
  bc_success_threshold :: int

record breaker =
  br_states :: "string \<rightharpoonup> circuit_state"
  br_failure_counts :: "string \<rightharpoonup> int"
  br_success_counts :: "string \<rightharpoonup> int"
  br_last_failure_time :: "string \<rightharpoonup> datetime"
  br_opened_at :: "string \<rightharpoonup> datetime"

definition new_breaker :: breaker where
  "new_breaker =
     \<lparr>br_states = Map.empty, br_failure_counts = Map.empty, br_success_counts = Map.empty,
      br_last_failure_time = Map.empty, br_opened_at = Map.empty\<rparr>"

text \<open>\<open>d.get(key, default)\<close>\<close>

definition get_or :: "'v \<Rightarrow> ('k \<rightharpoonup> 'v) \<Rightarrow> 'k \<Rightarrow> 'v" where
  "get_or d m k = (case m k of None \<Rightarrow> d | Some v \<Rightarrow> v)"

record decision =
  de_allowed :: bool
  de_state :: circuit_state
  de_retry_after :: "timedelta option"

definition current_state :: "string \<Rightarrow> breaker \<Rightarrow> circuit_state" where
  "current_state resource b = get_or CS_CLOSED (br_states b) resource"

definition transition :: "string \<Rightarrow> circuit_state \<Rightarrow> breaker \<Rightarrow> breaker" where
  "transition resource new_state b = b\<lparr>br_states := (br_states b)(resource \<mapsto> new_state)\<rparr>"

definition should_half_open :: "breaker_config \<Rightarrow> datetime \<Rightarrow> string \<Rightarrow> breaker \<Rightarrow> bool" where
  "should_half_open cfg now resource b \<longleftrightarrow>
     now - get_or 0 (br_opened_at b) resource \<ge> bc_recovery_timeout cfg"

definition retry_after :: "breaker_config \<Rightarrow> datetime \<Rightarrow> string \<Rightarrow> breaker \<Rightarrow> timedelta" where
  "retry_after cfg now resource b =
     max (bc_recovery_timeout cfg - (now - get_or 0 (br_opened_at b) resource)) 0"

definition reset_counts :: "string \<Rightarrow> breaker \<Rightarrow> breaker" where
  "reset_counts resource b =
     b\<lparr>br_failure_counts := (br_failure_counts b)(resource := None),
       br_success_counts := (br_success_counts b)(resource := None),
       br_last_failure_time := (br_last_failure_time b)(resource := None)\<rparr>"

definition allow_request ::
  "breaker_config \<Rightarrow> datetime \<Rightarrow> string \<Rightarrow> breaker \<Rightarrow> decision \<times> breaker" where
  "allow_request cfg now resource b =
     (case current_state resource b of
        CS_OPEN \<Rightarrow>
          if should_half_open cfg now resource b
          then (\<lparr>de_allowed = True, de_state = CS_HALF_OPEN, de_retry_after = None\<rparr>,
                transition resource CS_HALF_OPEN b)
          else (\<lparr>de_allowed = False, de_state = CS_OPEN,
                 de_retry_after = Some (retry_after cfg now resource b)\<rparr>, b)
      | CS_HALF_OPEN \<Rightarrow> (\<lparr>de_allowed = True, de_state = CS_HALF_OPEN, de_retry_after = None\<rparr>, b)
      | CS_CLOSED \<Rightarrow> (\<lparr>de_allowed = True, de_state = CS_CLOSED, de_retry_after = None\<rparr>, b))"

definition record_success :: "breaker_config \<Rightarrow> string \<Rightarrow> breaker \<Rightarrow> breaker" where
  "record_success cfg resource b =
     (if current_state resource b = CS_HALF_OPEN
      then
        (let k = get_or 0 (br_success_counts b) resource + 1;
             b1 = b\<lparr>br_success_counts := (br_success_counts b)(resource \<mapsto> k)\<rparr>
         in if k \<ge> bc_success_threshold cfg
            then reset_counts resource (transition resource CS_CLOSED b1) else b1)
      else reset_counts resource b)"

definition record_failure :: "breaker_config \<Rightarrow> datetime \<Rightarrow> string \<Rightarrow> breaker \<Rightarrow> breaker" where
  "record_failure cfg now resource b =
     (if current_state resource b = CS_HALF_OPEN
      then
        (let b1 = transition resource CS_OPEN b
         in b1\<lparr>br_opened_at := (br_opened_at b1)(resource \<mapsto> now)\<rparr>)
      else
        (let k = get_or 0 (br_failure_counts b) resource + 1;
             b1 = b\<lparr>br_failure_counts := (br_failure_counts b)(resource \<mapsto> k)\<rparr>
         in if k \<ge> bc_failure_threshold cfg
            then (let b2 = transition resource CS_OPEN b1
                  in b2\<lparr>br_opened_at := (br_opened_at b2)(resource \<mapsto> now)\<rparr>)
            else b1))"

text \<open>What \<open>get_state\<close> reports: the circuit of one resource.\<close>

record circuit =
  ci_state :: circuit_state
  ci_failures :: int
  ci_successes :: int
  ci_last_failure_at :: "datetime option"
  ci_opened_at :: "datetime option"

definition get_state :: "string \<Rightarrow> breaker \<Rightarrow> circuit" where
  "get_state resource b =
     \<lparr>ci_state = current_state resource b, ci_failures = get_or 0 (br_failure_counts b) resource,
      ci_successes = get_or 0 (br_success_counts b) resource,
      ci_last_failure_at = br_last_failure_time b resource,
      ci_opened_at = br_opened_at b resource\<rparr>"

definition reset :: "string \<Rightarrow> breaker \<Rightarrow> breaker" where
  "reset resource b =
     \<lparr>br_states = (br_states b)(resource := None),
      br_failure_counts = (br_failure_counts b)(resource := None),
      br_success_counts = (br_success_counts b)(resource := None),
      br_last_failure_time = (br_last_failure_time b)(resource := None),
      br_opened_at = (br_opened_at b)(resource := None)\<rparr>"

section \<open>The automaton of one circuit\<close>

text \<open>
  The specification: the same operations on a single circuit, seen through what \<open>get_state\<close>
  reports of it.
\<close>

datatype breaker_call = Allow datetime | Success | Failure datetime | ResetCircuit

definition fresh_circuit :: circuit where
  "fresh_circuit = \<lparr>ci_state = CS_CLOSED, ci_failures = 0, ci_successes = 0,
                   ci_last_failure_at = None, ci_opened_at = None\<rparr>"

definition waiting :: "breaker_config \<Rightarrow> datetime \<Rightarrow> circuit \<Rightarrow> bool" where
  "waiting cfg now c \<longleftrightarrow>
     now - (case ci_opened_at c of None \<Rightarrow> 0 | Some t \<Rightarrow> t) < bc_recovery_timeout cfg"

fun circuit_step :: "breaker_config \<Rightarrow> breaker_call \<Rightarrow> circuit \<Rightarrow> circuit" where
  "circuit_step cfg (Allow now) c =
     (if ci_state c = CS_OPEN \<and> \<not> waiting cfg now c then c\<lparr>ci_state := CS_HALF_OPEN\<rparr> else c)"
| "circuit_step cfg Success c =
     (let settled = c\<lparr>ci_failures := 0, ci_successes := 0, ci_last_failure_at := None\<rparr>
      in if ci_state c \<noteq> CS_HALF_OPEN then settled
         else if ci_successes c + 1 \<ge> bc_success_threshold cfg then settled\<lparr>ci_state := CS_CLOSED\<rparr>
         else c\<lparr>ci_successes := ci_successes c + 1\<rparr>)"
| "circuit_step cfg (Failure now) c =
     (if ci_state c = CS_HALF_OPEN then c\<lparr>ci_state := CS_OPEN, ci_opened_at := Some now\<rparr>
      else if ci_failures c + 1 \<ge> bc_failure_threshold cfg
      then c\<lparr>ci_failures := ci_failures c + 1, ci_state := CS_OPEN, ci_opened_at := Some now\<rparr>
      else c\<lparr>ci_failures := ci_failures c + 1\<rparr>)"
| "circuit_step cfg ResetCircuit c = fresh_circuit"

definition admits :: "breaker_config \<Rightarrow> datetime \<Rightarrow> circuit \<Rightarrow> bool" where
  "admits cfg now c \<longleftrightarrow> ci_state c \<noteq> CS_OPEN \<or> \<not> waiting cfg now c"

fun breaker_step :: "breaker_config \<Rightarrow> string \<times> breaker_call \<Rightarrow> breaker \<Rightarrow> breaker" where
  "breaker_step cfg (r, Allow now) b = snd (allow_request cfg now r b)"
| "breaker_step cfg (r, Success) b = record_success cfg r b"
| "breaker_step cfg (r, Failure now) b = record_failure cfg now r b"
| "breaker_step cfg (r, ResetCircuit) b = reset r b"

lemmas breaker_defs =
  allow_request_def record_success_def record_failure_def reset_def get_state_def current_state_def
  get_or_def transition_def reset_counts_def should_half_open_def retry_after_def Let_def

lemma step_own: "get_state r (breaker_step cfg (r, call) b) = circuit_step cfg call (get_state r b)"
  by (cases call)
    (auto simp: breaker_defs fresh_circuit_def waiting_def not_less
      split: circuit_state.splits option.splits)

lemma step_other:
  "r' \<noteq> r \<Longrightarrow> get_state r (breaker_step cfg (r', call) b) = get_state r b"
  by (cases call) (auto simp: breaker_defs split: circuit_state.splits option.splits)

lemma allow_decision:
  "de_allowed (fst (allow_request cfg now r b)) = admits cfg now (get_state r b)"
  by (auto simp: breaker_defs admits_def waiting_def not_less split: circuit_state.splits option.splits)

section \<open>Invariant\<close>

definition circuit_inv :: "breaker_config \<Rightarrow> circuit \<Rightarrow> bool" where
  "circuit_inv cfg c \<longleftrightarrow>
     0 \<le> ci_failures c \<and> 0 \<le> ci_successes c \<and>
     (ci_state c = CS_CLOSED \<longrightarrow> ci_failures c < max 1 (bc_failure_threshold cfg) \<and> ci_successes c = 0) \<and>
     (ci_state c \<noteq> CS_CLOSED \<longrightarrow> ci_opened_at c \<noteq> None) \<and>
     ci_successes c < max 1 (bc_success_threshold cfg)"

lemma circuit_step_inv: "circuit_inv cfg c \<Longrightarrow> circuit_inv cfg (circuit_step cfg call c)"
  by (cases call) (auto simp: circuit_inv_def fresh_circuit_def Let_def)

lemma fresh_inv: "circuit_inv cfg fresh_circuit"
  by (simp add: circuit_inv_def fresh_circuit_def less_max_iff_disj)

lemma get_state_new [simp]: "get_state r new_breaker = fresh_circuit"
  by (simp add: breaker_defs new_breaker_def fresh_circuit_def)

lemma run_own:
  "get_state r (fold (breaker_step cfg) calls b) =
     fold (circuit_step cfg) (map snd (filter (\<lambda>x. fst x = r) calls)) (get_state r b)"
proof (induction calls arbitrary: b)
  case (Cons x calls)
  obtain r' call where x: "x = (r', call)" by fastforce
  show ?case
    using Cons.IH [of "breaker_step cfg x b"] step_own [of r cfg call b] step_other [of r' r cfg call b]
    by (auto simp: x)
qed simp

lemma run_inv: "circuit_inv cfg c \<Longrightarrow> circuit_inv cfg (fold (circuit_step cfg) calls c)"
  by (induction calls arbitrary: c) (simp_all add: circuit_step_inv)

section \<open>Properties\<close>

text \<open>
  The service is a family of independent circuits: after any sequence of calls on any resources,
  what is reported of a resource, and whether a request to it is admitted, is what its own automaton
  gives on the calls that named it, in their order.
\<close>

theorem circuits_are_independent:
  "get_state r (fold (breaker_step cfg) calls new_breaker) =
     fold (circuit_step cfg) (map snd (filter (\<lambda>x. fst x = r) calls)) fresh_circuit \<and>
   de_allowed (fst (allow_request cfg now r (fold (breaker_step cfg) calls new_breaker))) =
     admits cfg now (fold (circuit_step cfg) (map snd (filter (\<lambda>x. fst x = r) calls)) fresh_circuit)"
  by (simp add: run_own allow_decision)

text \<open>
  The counters of a circuit stay below their thresholds: in every state the service reaches, the
  counts are not negative, a closed circuit has fewer failures than the failure threshold and no
  counted success, the success count is below the success threshold, and a circuit that is not
  closed has a recorded opening time.
\<close>

theorem breaker_invariant:
  "circuit_inv cfg (get_state r (fold (breaker_step cfg) calls new_breaker))"
  by (simp add: run_own run_inv fresh_inv)

lemma failures_run:
  assumes "ci_state c = CS_CLOSED" and "ci_failures c + int (length ts) < bc_failure_threshold cfg"
  shows "fold (circuit_step cfg) (map Failure ts) c = c\<lparr>ci_failures := ci_failures c + int (length ts)\<rparr>"
  using assms by (induction ts arbitrary: c) auto

text \<open>
  A circuit opens at exactly the configured number of consecutive failures: after a success, any
  smaller number of failures leaves it closed, and the failure that reaches the threshold opens it at
  its own time; from then on every request is refused, with a positive time to wait, until the
  recovery timeout has passed, and admitted as a test call from then on.
\<close>

theorem opens_at_threshold:
  assumes "ci_state (get_state r b) = CS_CLOSED" and "1 \<le> bc_failure_threshold cfg"
    and "int (length ts) + 1 = bc_failure_threshold cfg"
  shows "let b1 = record_success cfg r b;
             b2 = fold (\<lambda>t. record_failure cfg t r) ts b1;
             b3 = record_failure cfg t0 r b2;
             (d, b4) = allow_request cfg now r b3
         in ci_state (get_state r b2) = CS_CLOSED \<and> ci_state (get_state r b3) = CS_OPEN \<and>
            de_allowed d = (now \<ge> t0 + bc_recovery_timeout cfg) \<and>
            (if now < t0 + bc_recovery_timeout cfg
             then de_retry_after d = Some (t0 + bc_recovery_timeout cfg - now) \<and> b4 = b3
             else ci_state (get_state r b4) = CS_HALF_OPEN)"
proof -
  let ?b1 = "record_success cfg r b"
  let ?b2 = "fold (\<lambda>t. record_failure cfg t r) ts ?b1"
  let ?b3 = "record_failure cfg t0 r ?b2"
  have b1: "get_state r ?b1 = circuit_step cfg Success (get_state r b)"
    using step_own [of r cfg Success b] by simp
  have "get_state r (fold (\<lambda>t. record_failure cfg t r) us x) = fold (circuit_step cfg) (map Failure us) (get_state r x)"
    for us x using step_own [of r cfg "Failure _"]
    by (induction us arbitrary: x) simp_all
  then have b2: "get_state r ?b2 = (get_state r ?b1)\<lparr>ci_failures := int (length ts)\<rparr>"
    using failures_run [of "get_state r ?b1" ts cfg] assms(1,3) by (simp add: b1)
  have "get_state r ?b3 = circuit_step cfg (Failure t0) (get_state r ?b2)"
    using step_own [of r cfg "Failure t0" ?b2] by simp
  then have b3: "ci_state (get_state r ?b3) = CS_OPEN" "ci_opened_at (get_state r ?b3) = Some t0"
    using assms by (simp_all add: b2 b1)
  then have raw: "current_state r ?b3 = CS_OPEN" "br_opened_at ?b3 r = Some t0"
    by (simp_all add: get_state_def)
  have b2_closed: "ci_state (get_state r ?b2) = CS_CLOSED" using assms(1) by (simp add: b2 b1)
  show ?thesis
    using b2_closed b3 raw
    by (auto simp: Let_def allow_request_def should_half_open_def retry_after_def get_or_def
        get_state_def transition_def current_state_def max_def)
qed

theorem opens_at_threshold_witness:
  "let cfg = \<lparr>bc_failure_threshold = 2, bc_recovery_timeout = 30, bc_success_threshold = 2\<rparr>;
       b3 = record_failure cfg 7 ''db'' (record_failure cfg 5 ''db'' (record_success cfg ''db'' new_breaker))
   in ci_state (get_state ''db'' b3) = CS_OPEN \<and> \<not> de_allowed (fst (allow_request cfg 36 ''db'' b3))"
  using opens_at_threshold [of "''db''" new_breaker
      "\<lparr>bc_failure_threshold = 2, bc_recovery_timeout = 30, bc_success_threshold = 2\<rparr>" "[5]" 7 36]
  by (simp add: fresh_circuit_def Let_def split: prod.splits)

text \<open>How many of the requests made one after the other, with no report in between, are admitted.\<close>

fun admitted :: "breaker_config \<Rightarrow> string \<Rightarrow> datetime list \<Rightarrow> breaker \<Rightarrow> nat" where
  "admitted cfg r [] b = 0"
| "admitted cfg r (now # nows) b =
     (let (d, b') = allow_request cfg now r b
      in (if de_allowed d then 1 else 0) + admitted cfg r nows b')"

text \<open>
  A half-open circuit admits every request: once an open circuit has let its first test call
  through, all further requests are admitted too until one of the calls reports back, where the
  documentation speaks of one test call.
\<close>

theorem half_open_admits_every_request:
  assumes "ci_state (get_state r b) = CS_OPEN" and "de_allowed (fst (allow_request cfg t0 r b))"
  shows "admitted cfg r (t0 # nows) b = length (t0 # nows)"
proof -
  have stay: "admitted cfg r us x = length us" if "current_state r x = CS_HALF_OPEN" for us x
    using that by (induction us) (simp_all add: allow_request_def)
  show ?thesis
    using assms stay by (auto simp: allow_request_def get_state_def transition_def current_state_def get_or_def)
qed

theorem half_open_admits_every_request_witness:
  "let cfg = \<lparr>bc_failure_threshold = 1, bc_recovery_timeout = 30, bc_success_threshold = 2\<rparr>
   in admitted cfg ''db'' [40, 40, 41] (record_failure cfg 5 ''db'' new_breaker) = 3"
  using half_open_admits_every_request [of "''db''" "record_failure \<lparr>bc_failure_threshold = 1,
      bc_recovery_timeout = 30, bc_success_threshold = 2\<rparr> 5 ''db'' new_breaker"
      "\<lparr>bc_failure_threshold = 1, bc_recovery_timeout = 30, bc_success_threshold = 2\<rparr>" 40 "[40, 41]"]
  by (simp add: breaker_defs new_breaker_def)

text \<open>
  Successes counted before a failed test are kept: with a success threshold of two, a circuit that
  had one successful test call, then a failed one, closes after a single success in its next
  half-open period.
\<close>

theorem stale_success_closes_circuit:
  "let cfg = \<lparr>bc_failure_threshold = 1, bc_recovery_timeout = 30, bc_success_threshold = 2\<rparr>;
       reopened = [Failure 5, Allow 40, Success, Failure 50, Allow 90]
   in ci_state (fold (circuit_step cfg) reopened fresh_circuit) = CS_HALF_OPEN \<and>
      ci_state (fold (circuit_step cfg) (reopened @ [Success]) fresh_circuit) = CS_CLOSED \<and>
      ci_state (get_state ''db'' (fold (breaker_step cfg)
        (map (Pair ''db'') (reopened @ [Success])) new_breaker)) = CS_CLOSED"
  by (simp add: fresh_circuit_def waiting_def breaker_defs new_breaker_def)

end
