(* ===== verification/Glob_Match.thy ===== *)
theory Glob_Match
  imports Interlock_Prelude
begin

text \<open>
  The part of Python's string library that the access checks rely on: \<open>fnmatch.fnmatch\<close> as
  CPython's \<open>fnmatch.translate\<close> defines it (POSIX, where \<open>normcase\<close> is the identity), \<open>str.strip\<close>
  as a test for blank texts, and \<open>in\<close> between two strings.

  A pattern is translated item by item. A bracket expression runs to the next closing bracket, is
  cut into chunks at its range hyphens, loses its empty ranges, and is negated when what is left
  starts with an exclamation mark; an unclosed bracket is literal.
\<close>

section \<open>Blank texts and substrings\<close>

definition py_space :: "char \<Rightarrow> bool" where
  "py_space c \<longleftrightarrow> (of_char c :: nat) \<in> {9, 10, 11, 12, 13, 28, 29, 30, 31, 32, 133, 160}"

text \<open>\<open>not s.strip()\<close>\<close>

definition blank :: "string \<Rightarrow> bool" where
  "blank s \<longleftrightarrow> list_all py_space s"

text \<open>\<open>s in t\<close>\<close>

fun occurs_in :: "string \<Rightarrow> string \<Rightarrow> bool" where
  "occurs_in s [] \<longleftrightarrow> s = []"
| "occurs_in s (c # t) \<longleftrightarrow> take (length s) (c # t) = s \<or> occurs_in s t"

lemma occurs_in_iff: "occurs_in s t \<longleftrightarrow> (\<exists>a b. t = a @ s @ b)"
proof (induction t)
  case Nil
  then show ?case by simp
next
  case (Cons c t)
  have "take (length s) (c # t) = s \<longleftrightarrow> (\<exists>b. c # t = s @ b)"
    by (metis append_eq_conv_conj)
  moreover have "(\<exists>a b. c # t = a @ s @ b) \<longleftrightarrow> (\<exists>b. c # t = s @ b) \<or> (\<exists>a b. t = a @ s @ b)"
    by (metis Cons_eq_append_conv append_Cons append_Nil)
  ultimately show ?case using Cons.IH by simp
qed

section \<open>Translation of a pattern\<close>

datatype glob_item =
    GStar
  | GAny
  | GLit char
  | GClass bool "string list"
  | GNever

definition hyphen_from :: "nat \<Rightarrow> string \<Rightarrow> nat option" where
  "hyphen_from k s =
     (let t = takeWhile (\<lambda>c. c \<noteq> CHR ''-'') (drop k s)
      in if k + length t < length s then Some (k + length t) else None)"

text \<open>The loop over \<open>pat.find('-', k, j)\<close>; after a hyphen the search skips two characters.\<close>

function split_chunks :: "nat \<Rightarrow> string \<Rightarrow> string list" where
  "split_chunks k s =
     (case hyphen_from k s of
        None \<Rightarrow> [s]
      | Some p \<Rightarrow> take p s # split_chunks 2 (drop (p + 1) s))"
  by pat_completeness auto
termination
  by (relation "measure (\<lambda>(k, s). length s)")
     (auto simp: hyphen_from_def Let_def split: if_splits)

definition close_chunks :: "string list \<Rightarrow> string list" where
  "close_chunks cs =
     (if last cs = [] then butlast (butlast cs) @ [last (butlast cs) @ ''-''] else cs)"

fun merge_chunks :: "string list \<Rightarrow> string list" where
  "merge_chunks [] = []"
| "merge_chunks (c # cs) =
     (case merge_chunks cs of
        [] \<Rightarrow> [c]
      | d # ds \<Rightarrow> if last c > hd d then (butlast c @ tl d) # ds else c # d # ds)"

definition class_chunks :: "string \<Rightarrow> string list" where
  "class_chunks stuff =
     (if CHR ''-'' \<notin> set stuff then [stuff]
      else merge_chunks (close_chunks
             (split_chunks (if hd stuff = CHR ''!'' then 2 else 1) stuff)))"

definition class_item :: "string \<Rightarrow> glob_item" where
  "class_item stuff =
     (let cs = class_chunks stuff
      in if cs = [[]] then GNever
         else if cs = [''!''] then GAny
         else if hd (hd cs) = CHR ''!'' then GClass True (tl (hd cs) # tl cs)
         else GClass False cs)"

text \<open>The text up to the closing bracket, and what follows it; \<open>None\<close> when there is no bracket.\<close>

definition scan_class :: "string \<Rightarrow> (string \<times> string) option" where
  "scan_class cs =
     (let a = (if take 1 cs = ''!'' then 1 else 0);
          b = (if take 1 (drop a cs) = '']'' then a + 1 else a);
          body = takeWhile (\<lambda>c. c \<noteq> CHR '']'') (drop b cs)
      in if b + length body < length cs
         then Some (take (b + length body) cs, drop (b + length body + 1) cs) else None)"

function glob_parse :: "string \<Rightarrow> glob_item list" where
  "glob_parse [] = []"
| "glob_parse (c # cs) =
     (if c = CHR ''*'' then GStar # glob_parse cs
      else if c = CHR ''?'' then GAny # glob_parse cs
      else if c = CHR ''['' then
        (case scan_class cs of
           None \<Rightarrow> GLit c # glob_parse cs
         | Some (stuff, rest) \<Rightarrow> class_item stuff # glob_parse rest)
      else GLit c # glob_parse cs)"
  by pat_completeness auto
termination
  by (relation "measure length") (auto simp: scan_class_def Let_def split: if_splits)

section \<open>Matching\<close>

text \<open>A bracket expression as the regular expression reads it: characters and closed ranges.\<close>

fun class_matches :: "char \<Rightarrow> string list \<Rightarrow> bool" where
  "class_matches x [] \<longleftrightarrow> False"
| "class_matches x [c] \<longleftrightarrow> x \<in> set c"
| "class_matches x (c # d # ds) \<longleftrightarrow>
     x \<in> set c \<or> (if c = [] then x = CHR ''-'' else last c \<le> x \<and> x \<le> hd d) \<or>
     class_matches x (d # ds)"

fun item_matches :: "glob_item \<Rightarrow> char \<Rightarrow> bool" where
  "item_matches GStar x \<longleftrightarrow> False"
| "item_matches GAny x \<longleftrightarrow> True"
| "item_matches (GLit c) x \<longleftrightarrow> x = c"
| "item_matches (GClass negated cs) x \<longleftrightarrow> class_matches x cs \<noteq> negated"
| "item_matches GNever x \<longleftrightarrow> False"

fun glob_match :: "glob_item list \<Rightarrow> string \<Rightarrow> bool" where
  "glob_match [] s \<longleftrightarrow> s = []"
| "glob_match (GStar # ps) [] \<longleftrightarrow> glob_match ps []"
| "glob_match (GStar # ps) (x # s) \<longleftrightarrow> glob_match ps (x # s) \<or> glob_match (GStar # ps) s"
| "glob_match (p # ps) [] \<longleftrightarrow> False"
| "glob_match (p # ps) (x # s) \<longleftrightarrow> item_matches p x \<and> glob_match ps s"

definition fnmatch :: "string \<Rightarrow> string \<Rightarrow> bool" where
  "fnmatch name pat = glob_match (glob_parse pat) name"

text \<open>\<open>any(ch in allowed for ch in "*?[")\<close>\<close>

definition is_resource_pattern :: "string \<Rightarrow> bool" where
  "is_resource_pattern allowed \<longleftrightarrow> list_ex (\<lambda>c. c \<in> set ''*?['') allowed"

section \<open>What a pattern means\<close>

lemma glob_parse_literal:
  "\<not> is_resource_pattern p \<Longrightarrow> glob_parse (p @ q) = map GLit p @ glob_parse q"
  by (induction p) (auto simp: is_resource_pattern_def)

lemma glob_match_literal: "glob_match (map GLit p @ ps) s \<longleftrightarrow> (\<exists>t. s = p @ t \<and> glob_match ps t)"
proof (induction p arbitrary: s)
  case Nil
  then show ?case by simp
next
  case (Cons c p)
  then show ?case by (cases s) auto
qed

lemma glob_match_star: "glob_match (GStar # ps) s \<longleftrightarrow> (\<exists>a b. s = a @ b \<and> glob_match ps b)"
proof (induction s)
  case Nil
  then show ?case by simp
next
  case (Cons x s)
  have "(\<exists>a b. x # s = a @ b \<and> glob_match ps b) \<longleftrightarrow>
        glob_match ps (x # s) \<or> (\<exists>a b. s = a @ b \<and> glob_match ps b)"
    by (metis Cons_eq_append_conv append_Cons append_Nil)
  with Cons.IH show ?case by simp
qed

lemma fnmatch_literal: "\<not> is_resource_pattern p \<Longrightarrow> fnmatch s p \<longleftrightarrow> s = p"
  using glob_parse_literal [of p "[]"] glob_match_literal [of p "[]" s]
  by (auto simp: fnmatch_def)

text \<open>A star also runs over path separators: a trailing star accepts every continuation.\<close>

lemma fnmatch_prefix:
  "\<not> is_resource_pattern p \<Longrightarrow> fnmatch s (p @ ''*'') \<longleftrightarrow> (\<exists>t. s = p @ t)"
  using glob_parse_literal [of p "''*''"] glob_match_literal [of p "[GStar]" s]
  by (auto simp: fnmatch_def glob_match_star)

end
