(* ===== verification/Risk_Engine.thy ===== *)
theory Risk_Engine
  imports Glob_Match
begin

text \<open>
  The authorization context (\<open>app/domain/value_objects/authorization_context.py\<close>) and the risk
  engine (\<open>app/domain/services/risk_engine.py\<close>).

  A \<open>datetime\<close> object is \<open>Aware t\<close> (an instant) or \<open>Naive t\<close> (a reading without a time zone);
  comparing the two kinds raises TypeError. \<open>datetime.fromisoformat\<close> is the parameter \<open>fromiso\<close>, with
  \<open>None\<close> for its ValueError. The readings of the clock within one call are one instant \<open>now\<close>. The
  dictionaries the callers pass (grants, recent actions, agent history) are records of their keys,
  \<open>None\<close> for an absent key; of the context the fields that the modelled services read are kept. The
  explanation texts of the signals are left out.

  Scores are binary64 numbers: a score is the number of units of \<open>2^-55\<close>, a literal is rounded to
  53 significant bits, and so is every addition of \<open>sum\<close>. \<open>round(x, 3)\<close> is the nearest number of
  thousandths.
\<close>

section \<open>The context of a decision\<close>

datatype stamp = Naive int | Aware datetime

datatype expiry = NoExpiry | ExpiryText string | ExpiryTime stamp

record grant =
  gr_grant_id :: "string option"
  gr_tenant_id :: "string option"
  gr_scope :: "string option"
  gr_resource :: "string option"
  gr_status :: "string option"
  gr_delegation_depth :: "int option"
  gr_expires_at :: expiry

record recent_action =
  ra_tool :: "string option"
  ra_status :: "string option"

record history_item =
  hi_tool :: "string option"
  hi_resource :: "string option"
  hi_action_type :: "string option"

datatype agent_environment = PRODUCTION | STAGING | DEVELOPMENT | TEST | ENV_UNKNOWN

datatype authorization_decision = ALLOW | DENY | REQUIRE_HITL

record authorization_context =
  cx_user_id :: "string option"
  cx_agent_id :: string
  cx_proposed_tool :: string
  cx_tenant_id :: "string option"
  cx_action :: string
  cx_resource :: string
  cx_service_id :: "string option"
  cx_user_role :: "string option"
  cx_authorized_at :: "stamp option"
  cx_task_id :: "string option"
  cx_parameter_hash :: "string option"
  cx_parameter_constraints :: pydict
  cx_environment :: agent_environment
  cx_agent_history :: "history_item list"
  cx_dependency_state :: "(string \<times> string) list"
  cx_incident_state :: pydict
  cx_recovery_state :: pydict
  cx_authority_grants :: "grant list"
  cx_recent_actions :: "recent_action list"
  cx_require_task_scoping :: bool
  cx_agent_history_required :: bool

section \<open>Binary64 scores\<close>

function bitlen :: "int \<Rightarrow> nat" where
  "bitlen n = (if n \<le> 0 then 0 else Suc (bitlen (n div 2)))"
  by pat_completeness auto
termination
  by (relation "measure nat") auto

declare bitlen.simps [simp del]

text \<open>The nearest quotient, ties to even.\<close>

definition round_div :: "int \<Rightarrow> int \<Rightarrow> int" where
  "round_div n d =
     (let q = n div d; r = n mod d in if 2 * r < d \<or> (2 * r = d \<and> even q) then q else q + 1)"

definition round53 :: "int \<Rightarrow> int \<Rightarrow> int" where
  "round53 n d = (let k = bitlen (n div d) - 53 in round_div n (d * 2 ^ k) * 2 ^ k)"

definition double :: "int \<Rightarrow> int \<Rightarrow> int" where
  "double p q = round53 (p * 2 ^ 55) q"

definition double_add :: "int \<Rightarrow> int \<Rightarrow> int" where
  "double_add a b = round53 (a + b) 1"

definition double_sum :: "int list \<Rightarrow> int" where
  "double_sum xs = foldl double_add 0 xs"

definition round3 :: "int \<Rightarrow> int" where
  "round3 x = round_div (x * 1000) (2 ^ 55)"

section \<open>The signals\<close>

record risk_signal =
  rk_name :: string
  rk_score :: int

abbreviation signal :: "string \<Rightarrow> int \<Rightarrow> risk_signal" where
  "signal n p \<equiv> \<lparr>rk_name = n, rk_score = double p 100\<rparr>"

definition check_unusual_escalation ::
  "authorization_context \<Rightarrow> grant list \<Rightarrow> risk_signal list" where
  "check_unusual_escalation c grants =
     map (\<lambda>_. signal ''unusual_privilege_escalation'' 40)
       (filter (\<lambda>g. gr_scope g = Some ''admin'' \<and>
                    cx_action c \<in> {''delete'', ''drop'', ''truncate''}) grants)"

fun max_depth :: "grant list \<Rightarrow> int" where
  "max_depth [] = 0"
| "max_depth [g] = (case gr_delegation_depth g of None \<Rightarrow> 0 | Some d \<Rightarrow> d)"
| "max_depth (g # h # gs) =
     max (case gr_delegation_depth g of None \<Rightarrow> 0 | Some d \<Rightarrow> d) (max_depth (h # gs))"

definition check_excessive_depth :: "grant list \<Rightarrow> risk_signal list" where
  "check_excessive_depth grants =
     (if max_depth grants > 5 then [signal ''excessive_delegation_depth'' 30] else [])"

text \<open>\<open>expires < now\<close> with \<open>now\<close> in UTC.\<close>

fun stamp_before :: "stamp \<Rightarrow> datetime \<Rightarrow> py_error + bool" where
  "stamp_before (Naive t) now =
     Inl (TypeError ''can't compare offset-naive and offset-aware datetimes'')"
| "stamp_before (Aware t) now = Inr (t < now)"

text \<open>
  The expiry a grant is compared by: \<open>None\<close> when the loop skips the grant (no expiry, an empty
  text, a text that is not a timestamp).
\<close>

definition grant_expiry :: "(string \<Rightarrow> stamp option) \<Rightarrow> grant \<Rightarrow> stamp option" where
  "grant_expiry fromiso g =
     (case gr_expires_at g of
        NoExpiry \<Rightarrow> None
      | ExpiryText t \<Rightarrow> if t = [] then None else fromiso t
      | ExpiryTime s \<Rightarrow> Some s)"

fun check_expired_authority ::
  "(string \<Rightarrow> stamp option) \<Rightarrow> datetime \<Rightarrow> grant list \<Rightarrow> py_error + risk_signal list" where
  "check_expired_authority fromiso now [] = Inr []"
| "check_expired_authority fromiso now (g # gs) =
     (case grant_expiry fromiso g of
        None \<Rightarrow> check_expired_authority fromiso now gs
      | Some s \<Rightarrow>
          (case stamp_before s now of
             Inl e \<Rightarrow> Inl e
           | Inr expired \<Rightarrow>
               (case check_expired_authority fromiso now gs of
                  Inl e \<Rightarrow> Inl e
                | Inr signals \<Rightarrow>
                    Inr (if expired then signal ''expired_authority_usage'' 50 # signals
                         else signals))))"

definition check_repeated_failures :: "recent_action list \<Rightarrow> risk_signal list" where
  "check_repeated_failures actions =
     (if length (filter (\<lambda>a. ra_status a \<in> {Some ''denied'', Some ''failed''}) actions) \<ge> 5
      then [signal ''repeated_authorization_failures'' 35] else [])"

definition check_abnormal_rate :: "recent_action list \<Rightarrow> risk_signal list" where
  "check_abnormal_rate actions =
     (if length actions \<ge> 50 then [signal ''abnormal_action_rate'' 25] else [])"

definition tool_or_empty :: "string option \<Rightarrow> string" where
  "tool_or_empty t = (case t of None \<Rightarrow> [] | Some s \<Rightarrow> s)"

definition check_unusual_tool_combination ::
  "authorization_context \<Rightarrow> recent_action list \<Rightarrow> risk_signal list" where
  "check_unusual_tool_combination c actions =
     (let tool_combos = map (\<lambda>a. tool_or_empty (ra_tool a)) actions
      in if cx_proposed_tool c \<notin> set tool_combos \<and> tool_combos \<noteq> []
         then [signal ''unusual_tool_resource_combination'' 20] else [])"

definition check_retry_after_failure ::
  "authorization_context \<Rightarrow> recent_action list \<Rightarrow> risk_signal list" where
  "check_retry_after_failure c actions =
     (if cx_proposed_tool c = [] then []
      else if list_ex (\<lambda>a. ra_tool a = Some (cx_proposed_tool c) \<and>
                ra_status a \<in> {Some ''failed'', Some ''denied''}) actions
      then [signal ''retry_after_failure'' 30] else [])"

definition sensitive :: "string list" where
  "sensitive = [''drop_table'', ''truncate'', ''delete_from'', ''update_set'', ''transfer_funds'']"

definition check_sensitive_sequences :: "recent_action list \<Rightarrow> risk_signal list" where
  "check_sensitive_sequences actions =
     (let recent_tools = map (\<lambda>a. lower (tool_or_empty (ra_tool a)))
                           (drop (length actions - 10) actions)
      in if list_ex (\<lambda>t. list_ex (\<lambda>s. occurs_in s t) sensitive) recent_tools
         then [signal ''sensitive_action_sequence'' 30] else [])"

definition check_cross_boundary :: "authorization_context \<Rightarrow> risk_signal list" where
  "check_cross_boundary c =
     (if truthy (cx_service_id c) \<and> cx_action c = ''execute''
      then [signal ''cross_boundary_attempt'' 15] else [])"

definition check_suspicious_child_creation :: "history_item list \<Rightarrow> risk_signal list" where
  "check_suspicious_child_creation history =
     (if length (filter (\<lambda>h. hi_action_type h = Some ''create_agent'') history) \<ge> 3
      then [signal ''suspicious_child_agent_creation'' 40] else [])"

section \<open>The evaluation\<close>

definition risk_signals ::
  "(string \<Rightarrow> stamp option) \<Rightarrow> datetime \<Rightarrow> authorization_context \<Rightarrow> history_item list \<Rightarrow> grant list
     \<Rightarrow> recent_action list \<Rightarrow> py_error + risk_signal list" where
  "risk_signals fromiso now c history grants actions =
     (case check_expired_authority fromiso now grants of
        Inl e \<Rightarrow> Inl e
      | Inr expired \<Rightarrow>
          Inr (check_unusual_escalation c grants @ check_excessive_depth grants @ expired @
               check_repeated_failures actions @ check_abnormal_rate actions @
               check_unusual_tool_combination c actions @ check_retry_after_failure c actions @
               check_sensitive_sequences actions @ check_cross_boundary c @
               check_suspicious_child_creation history))"

record risk_result =
  rr_score :: int
  rr_decision :: authorization_decision
  rr_signals :: "(string \<times> int) list"
  rr_timestamp :: datetime

definition total_score :: "risk_signal list \<Rightarrow> int" where
  "total_score signals = max 0 (min (2 ^ 55) (double_sum (map rk_score signals)))"

definition risk_decision :: "int \<Rightarrow> authorization_decision" where
  "risk_decision t =
     (if t \<ge> double 8 10 then DENY else if t \<ge> double 5 10 then REQUIRE_HITL else ALLOW)"

definition evaluate_risk ::
  "(string \<Rightarrow> stamp option) \<Rightarrow> datetime \<Rightarrow> authorization_context \<Rightarrow> history_item list \<Rightarrow> grant list
     \<Rightarrow> recent_action list \<Rightarrow> py_error + risk_result" where
  "evaluate_risk fromiso now c history grants actions =
     (case risk_signals fromiso now c history grants actions of
        Inl e \<Rightarrow> Inl e
      | Inr signals \<Rightarrow>
          Inr \<lparr>rr_score = round3 (total_score signals),
               rr_decision = risk_decision (total_score signals),
               rr_signals = map (\<lambda>s. (rk_name s, round3 (rk_score s))) signals,
               rr_timestamp = now\<rparr>)"

section \<open>Scores and decisions\<close>

lemmas double_defs = double_def round53_def bitlen.simps round_div_def double_sum_def double_add_def

lemma round_div_mono:
  assumes "0 < d" and "a \<le> b"
  shows "round_div a d \<le> round_div b d"
proof -
  have q: "a div d \<le> b div d"
    using assms by (simp add: zdiv_mono1)
  show ?thesis
  proof (cases "a div d = b div d")
    case True
    then have "a mod d \<le> b mod d"
      using assms by (metis add_le_cancel_left mult_div_mod_eq)
    with True show ?thesis by (auto simp: round_div_def Let_def)
  next
    case False
    with q show ?thesis by (auto simp: round_div_def Let_def)
  qed
qed

lemma round3_mono: "a \<le> b \<Longrightarrow> round3 a \<le> round3 b"
  by (simp add: round3_def round_div_mono)

lemma round3_constants:
  "round3 0 = 0" "round3 (2 ^ 55) = 1000" "round3 (double 8 10) = 800" "round3 (double 5 10) = 500"
  by (simp_all add: round3_def double_defs)

lemma total_score_bounds: "0 \<le> total_score ss \<and> total_score ss \<le> 2 ^ 55"
  by (simp add: total_score_def)

lemma risk_decision_score:
  "risk_decision t = DENY \<Longrightarrow> 800 \<le> round3 t"
  "risk_decision t = REQUIRE_HITL \<Longrightarrow> 500 \<le> round3 t \<and> round3 t \<le> 800"
  "risk_decision t = ALLOW \<Longrightarrow> round3 t \<le> 500"
  using round3_mono [of "double 8 10" t] round3_mono [of t "double 8 10"]
        round3_mono [of "double 5 10" t] round3_mono [of t "double 5 10"]
  by (auto simp: risk_decision_def round3_constants split: if_splits)

text \<open>
  The reported risk score lies between 0 and 1 (here in thousandths), and the decision agrees
  with it up to the thresholds themselves: a denial has a score of at least 0.8, a request for
  approval one between 0.5 and 0.8, a permission one of at most 0.5.
\<close>

theorem risk_score_bounds:
  assumes "evaluate_risk fromiso now c history grants actions = Inr res"
  shows "0 \<le> rr_score res \<and> rr_score res \<le> 1000 \<and>
    (case rr_decision res of
       DENY \<Rightarrow> 800 \<le> rr_score res
     | REQUIRE_HITL \<Rightarrow> 500 \<le> rr_score res \<and> rr_score res \<le> 800
     | ALLOW \<Rightarrow> rr_score res \<le> 500)"
proof -
  from assms obtain ss where res: "rr_score res = round3 (total_score ss)"
      "rr_decision res = risk_decision (total_score ss)"
    by (auto simp: evaluate_risk_def split: sum.splits)
  have "round3 0 \<le> rr_score res" "rr_score res \<le> round3 (2 ^ 55)"
    using total_score_bounds [of ss] by (simp_all only: res round3_mono)
  then have "0 \<le> rr_score res" "rr_score res \<le> 1000"
    by (simp_all only: round3_constants)
  then show ?thesis
    using risk_decision_score [of "total_score ss"]
    by (simp add: res round3_constants split: authorization_decision.split)
qed

definition sample_context :: authorization_context where
  "sample_context =
     \<lparr>cx_user_id = Some ''u-1'', cx_agent_id = ''agent-7'', cx_proposed_tool = ''search'',
      cx_tenant_id = Some ''acme'', cx_action = ''execute'', cx_resource = ''orders/17'',
      cx_service_id = None, cx_user_role = Some ''operator'', cx_authorized_at = None,
      cx_task_id = None, cx_parameter_hash = None, cx_parameter_constraints = [],
      cx_environment = STAGING, cx_agent_history = [], cx_dependency_state = [],
      cx_incident_state = [], cx_recovery_state = [], cx_authority_grants = [],
      cx_recent_actions = [], cx_require_task_scoping = False,
      cx_agent_history_required = False\<rparr>"

definition sample_grant :: grant where
  "sample_grant =
     \<lparr>gr_grant_id = Some ''g-1'', gr_tenant_id = Some ''acme'', gr_scope = Some ''read'',
      gr_resource = Some ''orders/17'', gr_status = Some ''active'', gr_delegation_depth = Some 1,
      gr_expires_at = ExpiryTime (Aware 900)\<rparr>"

definition failed_tool :: "string \<Rightarrow> recent_action" where
  "failed_tool t = \<lparr>ra_tool = Some t, ra_status = Some ''failed''\<rparr>"

lemmas risk_signal_defs =
  check_unusual_escalation_def check_excessive_depth_def grant_expiry_def
  check_repeated_failures_def check_abnormal_rate_def tool_or_empty_def
  check_unusual_tool_combination_def check_retry_after_failure_def sensitive_def
  check_sensitive_sequences_def check_cross_boundary_def check_suspicious_child_creation_def
  risk_signals_def

lemmas risk_run_simps =
  evaluate_risk_def risk_signal_defs total_score_def risk_decision_def round3_def double_defs
  sample_context_def sample_grant_def failed_tool_def lower_def lower_char_def

theorem risk_score_bounds_witness:
  "\<exists>res. evaluate_risk (\<lambda>_. None) 1000 sample_context [] [sample_grant] [] = Inr res \<and>
     rr_decision res = REQUIRE_HITL \<and> 500 \<le> rr_score res \<and> rr_score res \<le> 800"
proof -
  obtain res where res: "evaluate_risk (\<lambda>_. None) 1000 sample_context [] [sample_grant] [] = Inr res"
      "rr_decision res = REQUIRE_HITL"
    by (simp add: risk_run_simps)
  with risk_score_bounds [OF res(1)] show ?thesis by auto
qed

text \<open>
  The engine rounds the score it reports but decides on the unrounded sum: five failures, one of
  them of a sensitive tool, followed by a call from a service, are reported with the score 0.8 and decided
  as \<open>require_hitl\<close>, because the binary sum of 0.35, 0.3 and 0.15 lies below the literal 0.8.
\<close>

theorem reported_score_and_decision_disagree:
  "map_sum id (\<lambda>res. (rr_score res, rr_decision res))
     (evaluate_risk (\<lambda>_. None) 1000
        (sample_context\<lparr>cx_service_id := Some ''svc'', cx_proposed_tool := ''transfer_funds''\<rparr>) []
        [] (map failed_tool [''a'', ''b'', ''c'', ''d'', ''Transfer_Funds''] @
            [\<lparr>ra_tool = Some ''transfer_funds'', ra_status = Some ''ok''\<rparr>])) =
   Inr (800, REQUIRE_HITL)"
  by (simp add: risk_run_simps)

lemma expired_authority_naive:
  assumes "g \<in> set grants" and "grant_expiry fromiso g = Some (Naive t)"
  shows "\<exists>m. check_expired_authority fromiso now grants = Inl (TypeError m)"
  using assms
proof (induction grants)
  case Nil
  then show ?case by simp
next
  case (Cons h gs)
  show ?case
  proof (cases "g = h")
    case True
    with Cons.prems show ?thesis by simp
  next
    case False
    with Cons obtain m where m: "check_expired_authority fromiso now gs = Inl (TypeError m)"
      by auto
    show ?thesis
    proof (cases "grant_expiry fromiso h")
      case None
      with m show ?thesis by simp
    next
      case (Some s)
      with m show ?thesis by (cases s) auto
    qed
  qed
qed

end
