(* ===== verification/Authorization.thy ===== *)
theory Authorization
  imports Risk_Engine
begin

text \<open>
  \<open>AuthorizationService\<close> of \<open>app/domain/services/authorization_service.py\<close>: the nineteen checks in
  their order and the decision of the first that does not allow.

  A setting is the value \<open>getattr(settings, name, default)\<close> returns. \<open>authorization_risk_threshold\<close>
  is given in thousandths, the resolution the score is rounded to. \<open>timedelta.total_seconds()\<close> is
  compared in microseconds.

  Shown: what an ALLOW guarantees; that a literal allow-list admits its members and nothing else;
  that a grant whose expiry has no time zone makes the service raise; and that an earlier request
  for approval hides a later denial.
\<close>

section \<open>Settings\<close>

record az_settings =
  st_require_tenant :: bool
  st_default_deny :: bool
  st_role_actions :: "string \<rightharpoonup> string list"
  st_allowed_services :: "string list option"
  st_allowed_actions :: "string list option"
  st_allowed_resources :: "string list option"
  st_allowed_tasks :: "string list option"
  st_destructive_actions :: "string list"
  st_incident_response_actions :: "string list"
  st_recovery_actions :: "string list"
  st_risk_threshold :: int
  st_expiry_seconds :: int
  st_denied_tools :: "string list"
  st_hitl_tools :: "string list"

section \<open>Python truth and membership\<close>

fun py_bool :: "pyval \<Rightarrow> bool" where
  "py_bool PNone = False"
| "py_bool (PBool b) = b"
| "py_bool (PInt n) = (n \<noteq> 0)"
| "py_bool (PStr s) = (s \<noteq> [])"
| "py_bool (PList xs) = (xs \<noteq> [])"
| "py_bool (PDict d) = (d \<noteq> [])"

text \<open>\<open>s in v\<close> for a string \<open>s\<close>\<close>

fun py_in :: "string \<Rightarrow> pyval \<Rightarrow> py_error + bool" where
  "py_in s (PList xs) = Inr (PStr s \<in> set xs)"
| "py_in s (PStr t) = Inr (occurs_in s t)"
| "py_in s (PDict d) = Inr (s \<in> fst ` set d)"
| "py_in s v = Inl (TypeError ''argument is not iterable'')"

text \<open>\<open>d.get(key)\<close>\<close>

definition py_get :: "string \<Rightarrow> pydict \<Rightarrow> pyval" where
  "py_get key d = (case map_of d key of None \<Rightarrow> PNone | Some v \<Rightarrow> v)"

section \<open>The checks\<close>

definition is_valid_tenant :: "string \<Rightarrow> bool" where
  "is_valid_tenant tenant_id \<longleftrightarrow> tenant_id \<noteq> [] \<and> \<not> blank tenant_id \<and> length tenant_id \<le> 64"

definition check_tenant :: "az_settings \<Rightarrow> authorization_context \<Rightarrow> authorization_decision" where
  "check_tenant s c =
     (if \<not> st_require_tenant s then ALLOW
      else if \<not> truthy (cx_tenant_id c) then DENY
      else if \<not> is_valid_tenant (the (cx_tenant_id c)) then DENY
      else ALLOW)"

definition check_agent :: "authorization_context \<Rightarrow> authorization_decision" where
  "check_agent c = (if cx_agent_id c = [] \<or> blank (cx_agent_id c) then DENY else ALLOW)"

definition check_user :: "authorization_context \<Rightarrow> authorization_decision" where
  "check_user c = (if cx_user_id c = None then DENY else ALLOW)"

definition check_role_permissions :: "az_settings \<Rightarrow> authorization_context \<Rightarrow> authorization_decision" where
  "check_role_permissions s c =
     (if \<not> st_default_deny s then ALLOW
      else if \<not> truthy (cx_user_role c) then DENY
      else (case st_role_actions s (the (cx_user_role c)) of
              None \<Rightarrow> DENY
            | Some allowed_actions \<Rightarrow> if cx_action c \<notin> set allowed_actions then DENY else ALLOW))"

definition check_service :: "az_settings \<Rightarrow> authorization_context \<Rightarrow> authorization_decision" where
  "check_service s c =
     (case st_allowed_services s of
        None \<Rightarrow> ALLOW
      | Some allowed \<Rightarrow>
          if \<not> truthy (cx_service_id c) then DENY
          else if the (cx_service_id c) \<notin> set allowed then DENY
          else ALLOW)"

definition check_action :: "az_settings \<Rightarrow> authorization_context \<Rightarrow> authorization_decision" where
  "check_action s c =
     (case st_allowed_actions s of
        None \<Rightarrow> ALLOW
      | Some allowed \<Rightarrow>
          if cx_action c = [] then DENY else if cx_action c \<notin> set allowed then DENY else ALLOW)"

definition check_resource :: "az_settings \<Rightarrow> authorization_context \<Rightarrow> authorization_decision" where
  "check_resource s c =
     (case st_allowed_resources s of
        None \<Rightarrow> ALLOW
      | Some allowed \<Rightarrow>
          if cx_resource c = [] then DENY
          else if list_ex is_resource_pattern allowed then ALLOW
          else if cx_resource c \<notin> set allowed then DENY
          else ALLOW)"

definition check_task :: "az_settings \<Rightarrow> authorization_context \<Rightarrow> authorization_decision" where
  "check_task s c =
     (if \<not> cx_require_task_scoping c then ALLOW
      else if \<not> truthy (cx_task_id c) then DENY
      else (case st_allowed_tasks s of
              None \<Rightarrow> ALLOW
            | Some allowed \<Rightarrow> if the (cx_task_id c) \<notin> set allowed then DENY else ALLOW))"

definition check_resource_hierarchy ::
  "az_settings \<Rightarrow> authorization_context \<Rightarrow> authorization_decision" where
  "check_resource_hierarchy s c =
     (case st_allowed_resources s of
        None \<Rightarrow> ALLOW
      | Some allowed \<Rightarrow>
          if cx_resource c = [] then ALLOW
          else if list_ex (fnmatch (cx_resource c)) allowed then ALLOW
          else DENY)"

text \<open>One constraint: \<open>if allowed and parameter_hash not in allowed: return DENY\<close>.\<close>

definition constraint_ok :: "string \<Rightarrow> pyval \<Rightarrow> py_error + bool" where
  "constraint_ok h allowed = (if py_bool allowed then py_in h allowed else Inr True)"

definition check_parameters :: "authorization_context \<Rightarrow> py_error + authorization_decision" where
  "check_parameters c =
     (let constraints = cx_parameter_constraints c
      in if constraints = [] then Inr ALLOW
         else if \<not> truthy (cx_parameter_hash c) then Inr DENY
         else
           (let h = the (cx_parameter_hash c)
            in case constraint_ok h (py_get ''allowed_types'' constraints) of
                 Inl e \<Rightarrow> Inl e
               | Inr False \<Rightarrow> Inr DENY
               | Inr True \<Rightarrow>
                   (case constraint_ok h (py_get ''allowed_values'' constraints) of
                      Inl e \<Rightarrow> Inl e
                    | Inr ok \<Rightarrow> Inr (if ok then ALLOW else DENY))))"

definition check_environment :: "az_settings \<Rightarrow> authorization_context \<Rightarrow> authorization_decision" where
  "check_environment s c =
     (if cx_action c \<notin> set (st_destructive_actions s) then ALLOW
      else if cx_environment c \<noteq> PRODUCTION then REQUIRE_HITL
      else ALLOW)"

definition check_incident_state :: "az_settings \<Rightarrow> authorization_context \<Rightarrow> authorization_decision" where
  "check_incident_state s c =
     (let incident_state = cx_incident_state c; active = py_get ''active'' incident_state
      in if incident_state = [] then ALLOW
         else if active = PNone then DENY
         else if \<not> py_bool active then ALLOW
         else if cx_action c \<in> set (st_incident_response_actions s) then ALLOW
         else DENY)"

definition check_recovery_state :: "az_settings \<Rightarrow> authorization_context \<Rightarrow> authorization_decision" where
  "check_recovery_state s c =
     (let recovery_state = cx_recovery_state c; status = py_get (cx_resource c) recovery_state
      in if recovery_state = [] then ALLOW
         else if status = PNone then DENY
         else if status \<in> {PStr ''recovering'', PStr ''in_progress''}
         then (if cx_action c \<in> set (st_recovery_actions s) then ALLOW else DENY)
         else DENY)"

fun dependency_loop :: "(string \<times> string) list \<Rightarrow> authorization_decision" where
  "dependency_loop [] = ALLOW"
| "dependency_loop ((name, status) # deps) =
     (if status \<in> {''degraded'', ''down''} then REQUIRE_HITL
      else if status = ''unknown'' then DENY
      else dependency_loop deps)"

definition check_dependency_state :: "authorization_context \<Rightarrow> authorization_decision" where
  "check_dependency_state c = dependency_loop (cx_dependency_state c)"

definition context_risk ::
  "(string \<Rightarrow> stamp option) \<Rightarrow> datetime \<Rightarrow> authorization_context \<Rightarrow> py_error + risk_result" where
  "context_risk fromiso now c =
     evaluate_risk fromiso now c (cx_agent_history c) (cx_authority_grants c) (cx_recent_actions c)"

definition check_risk_score ::
  "az_settings \<Rightarrow> (string \<Rightarrow> stamp option) \<Rightarrow> datetime \<Rightarrow> authorization_context
     \<Rightarrow> py_error + authorization_decision" where
  "check_risk_score s fromiso now c =
     (case context_risk fromiso now c of
        Inl e \<Rightarrow> Inl e
      | Inr res \<Rightarrow>
          Inr (if rr_score res \<ge> st_risk_threshold s
               then (if rr_score res \<ge> 800 then DENY else REQUIRE_HITL)
               else ALLOW))"

definition check_previous_behavior :: "authorization_context \<Rightarrow> authorization_decision" where
  "check_previous_behavior c =
     (let history = cx_agent_history c;
          combinations = map (\<lambda>h. (tool_or_empty (hi_tool h), tool_or_empty (hi_resource h)))
                           (filter (\<lambda>h. tool_or_empty (hi_tool h) \<noteq> []) history)
      in if history = [] then (if cx_agent_history_required c then DENY else ALLOW)
         else if combinations = [] then DENY
         else if list_ex (\<lambda>(tool, resource). tool = cx_proposed_tool c \<and>
                   (cx_resource c = [] \<or> resource = [] \<or> resource = cx_resource c)) combinations
         then ALLOW else REQUIRE_HITL)"

text \<open>\<open>dt.replace(tzinfo=UTC)\<close> for a reading without a time zone\<close>

fun as_utc :: "stamp \<Rightarrow> datetime" where
  "as_utc (Naive t) = t"
| "as_utc (Aware t) = t"

text \<open>The expiry as the loop reads it: \<open>None\<close> when it is absent or not a timestamp.\<close>

definition expiry_stamp :: "(string \<Rightarrow> stamp option) \<Rightarrow> grant \<Rightarrow> stamp option" where
  "expiry_stamp fromiso g =
     (case gr_expires_at g of
        NoExpiry \<Rightarrow> None | ExpiryText t \<Rightarrow> fromiso t | ExpiryTime st \<Rightarrow> Some st)"

fun authority_ttl_loop ::
  "(string \<Rightarrow> stamp option) \<Rightarrow> datetime \<Rightarrow> string option \<Rightarrow> grant list \<Rightarrow> authorization_decision" where
  "authority_ttl_loop fromiso now tenant_id [] = ALLOW"
| "authority_ttl_loop fromiso now tenant_id (g # gs) =
     (if truthy (gr_tenant_id g) \<and> truthy tenant_id \<and> gr_tenant_id g \<noteq> tenant_id then DENY
      else
        (case expiry_stamp fromiso g of
           None \<Rightarrow> DENY
         | Some st \<Rightarrow>
             if as_utc st < now then DENY else authority_ttl_loop fromiso now tenant_id gs))"

definition check_authority_ttl ::
  "(string \<Rightarrow> stamp option) \<Rightarrow> datetime \<Rightarrow> authorization_context \<Rightarrow> authorization_decision" where
  "check_authority_ttl fromiso now c =
     authority_ttl_loop fromiso now (cx_tenant_id c) (cx_authority_grants c)"

definition check_expiration ::
  "az_settings \<Rightarrow> datetime \<Rightarrow> authorization_context \<Rightarrow> authorization_decision" where
  "check_expiration s now c =
     (case cx_authorized_at c of
        None \<Rightarrow> ALLOW
      | Some st \<Rightarrow> if now - as_utc st > seconds (st_expiry_seconds s) then DENY else ALLOW)"

definition check_tool :: "az_settings \<Rightarrow> authorization_context \<Rightarrow> authorization_decision" where
  "check_tool s c =
     (if cx_proposed_tool c \<in> set (st_denied_tools s) then DENY
      else if cx_proposed_tool c \<in> set (st_hitl_tools s) then REQUIRE_HITL
      else ALLOW)"

section \<open>Reasons\<close>

definition tenant_reason :: "authorization_context \<Rightarrow> string" where
  "tenant_reason c =
     (if \<not> truthy (cx_tenant_id c) then ''Missing tenant identity'' else ''Invalid tenant identity'')"

text \<open>\<open>str\<close> of a score in thousandths\<close>

fun strip_zeros :: "string \<Rightarrow> string" where
  "strip_zeros [] = []"
| "strip_zeros (c # cs) =
     (let r = strip_zeros cs in if r = [] \<and> c = CHR ''0'' then [] else c # r)"

definition show_score :: "int \<Rightarrow> string" where
  "show_score k =
     (let digits = strip_zeros (tl (show_nat (1000 + nat k mod 1000)))
      in show_nat (nat k div 1000) @ ''.'' @ (if digits = [] then ''0'' else digits))"

fun join_names :: "string list \<Rightarrow> string" where
  "join_names [] = []"
| "join_names [n] = n"
| "join_names (n # m # ns) = n @ '', '' @ join_names (m # ns)"

definition risk_score_reason ::
  "(string \<Rightarrow> stamp option) \<Rightarrow> datetime \<Rightarrow> authorization_context \<Rightarrow> py_error + string" where
  "risk_score_reason fromiso now c =
     (case context_risk fromiso now c of
        Inl e \<Rightarrow> Inl e
      | Inr res \<Rightarrow>
          Inr (''Risk score '' @ show_score (rr_score res) @ '' exceeds threshold. Signals: '' @
               join_names (map fst (take 3 (rr_signals res)))))"

definition tool_reason :: "az_settings \<Rightarrow> authorization_context \<Rightarrow> string" where
  "tool_reason s c =
     (if cx_proposed_tool c \<in> set (st_denied_tools s)
      then ''Tool '' @ [CHR 0x27] @ cx_proposed_tool c @ [CHR 0x27] @ '' is denied by authorization policy''
      else ''Tool '' @ [CHR 0x27] @ cx_proposed_tool c @ [CHR 0x27] @ '' requires human approval'')"

section \<open>The decision\<close>

text \<open>A chain of checks, each with the reason reported when it does not allow.\<close>

type_synonym check = "(py_error + authorization_decision) \<times> (py_error + string)"

fun first_refusal :: "check list \<Rightarrow> py_error + authorization_decision \<times> string" where
  "first_refusal [] = Inr (ALLOW, ''Authorized'')"
| "first_refusal ((d, reason) # checks) =
     (case d of
        Inl e \<Rightarrow> Inl e
      | Inr v \<Rightarrow>
          if v = ALLOW then first_refusal checks
          else (case reason of Inl e \<Rightarrow> Inl e | Inr r \<Rightarrow> Inr (v, r)))"

definition authorization_checks ::
  "az_settings \<Rightarrow> (string \<Rightarrow> stamp option) \<Rightarrow> datetime \<Rightarrow> authorization_context \<Rightarrow> check list" where
  "authorization_checks s fromiso now c =
     [(Inr (check_tenant s c), Inr (tenant_reason c)),
      (Inr (check_agent c), Inr ''Missing agent identity''),
      (Inr (check_user c), Inr ''Missing user identity''),
      (Inr (check_role_permissions s c), Inr ''Insufficient role permissions''),
      (Inr (check_service s c), Inr ''Missing or unauthorized service identity''),
      (Inr (check_action s c), Inr ''Missing or unauthorized action''),
      (Inr (check_resource s c), Inr ''Missing or unauthorized resource''),
      (Inr (check_task s c), Inr ''Missing or unauthorized task''),
      (Inr (check_resource_hierarchy s c),
         Inr ''Resource does not match allowed hierarchy pattern''),
      (check_parameters c, Inr ''Missing or invalid parameters''),
      (Inr (check_environment s c), Inr ''Action not permitted in current environment''),
      (Inr (check_incident_state s c), Inr ''Action restricted during active incident''),
      (Inr (check_recovery_state s c), Inr ''Action not permitted during resource recovery''),
      (Inr (check_dependency_state c), Inr ''Action restricted due to dependency health''),
      (check_risk_score s fromiso now c, risk_score_reason fromiso now c),
      (Inr (check_previous_behavior c), Inr ''Agent behavior deviates from historical patterns''),
      (Inr (check_authority_ttl fromiso now c),
         Inr ''Authority grant has expired, is unknown, or does not belong to this tenant''),
      (Inr (check_expiration s now c), Inr ''Authorization has expired''),
      (Inr (check_tool s c), Inr (tool_reason s c))]"

definition authorize ::
  "az_settings \<Rightarrow> (string \<Rightarrow> stamp option) \<Rightarrow> datetime \<Rightarrow> authorization_context
     \<Rightarrow> py_error + authorization_decision \<times> string" where
  "authorize s fromiso now c = first_refusal (authorization_checks s fromiso now c)"

text \<open>
  \<open>compute_parameter_hash\<close>; \<open>dumps\<close> is \<open>json.dumps(.., sort_keys=True, separators=..)\<close> and
  \<open>sha_hex\<close> the hexadecimal SHA-256 digest.
\<close>

definition compute_parameter_hash ::
  "(string \<Rightarrow> string) \<Rightarrow> (pydict \<Rightarrow> string) \<Rightarrow> pydict \<Rightarrow> string" where
  "compute_parameter_hash sha_hex dumps parameters = sha_hex (dumps parameters)"

section \<open>What an ALLOW guarantees\<close>

lemma first_refusal_allow_iff:
  "(\<exists>r. first_refusal checks = Inr (ALLOW, r)) \<longleftrightarrow> list_all (\<lambda>(d, _). d = Inr ALLOW) checks"
  by (induction checks rule: first_refusal.induct) (auto split: sum.splits)

lemma authorize_allow_checks:
  "authorize s fromiso now c = Inr (ALLOW, r) \<Longrightarrow>
   list_all (\<lambda>(d, _). d = Inr ALLOW) (authorization_checks s fromiso now c)"
  using first_refusal_allow_iff by (auto simp: authorize_def)

named_theorems allow_dests \<open>what a check that allows has established\<close>

lemma check_tenant_allow [allow_dests]:
  "check_tenant s c = ALLOW \<Longrightarrow> st_require_tenant s \<Longrightarrow>
   \<exists>t. cx_tenant_id c = Some t \<and> is_valid_tenant t"
  by (cases "cx_tenant_id c") (auto simp: check_tenant_def split: if_splits)

lemma check_role_permissions_allow [allow_dests]:
  "check_role_permissions s c = ALLOW \<Longrightarrow> st_default_deny s \<Longrightarrow>
   \<exists>role acts. cx_user_role c = Some role \<and> st_role_actions s role = Some acts \<and>
     cx_action c \<in> set acts"
  by (cases "cx_user_role c") (auto simp: check_role_permissions_def split: if_splits option.splits)

lemma check_service_allow [allow_dests]:
  "check_service s c = ALLOW \<Longrightarrow> st_allowed_services s = Some allowed \<Longrightarrow>
   \<exists>v \<in> set allowed. cx_service_id c = Some v"
  by (cases "cx_service_id c") (auto simp: check_service_def split: if_splits)

lemma check_action_allow [allow_dests]:
  "check_action s c = ALLOW \<Longrightarrow> st_allowed_actions s = Some allowed \<Longrightarrow> cx_action c \<in> set allowed"
  by (auto simp: check_action_def split: if_splits)

lemma check_resource_allow [allow_dests]:
  "check_resource s c = ALLOW \<Longrightarrow> check_resource_hierarchy s c = ALLOW \<Longrightarrow>
   st_allowed_resources s = Some allowed \<Longrightarrow>
   cx_resource c \<noteq> [] \<and> (\<exists>p \<in> set allowed. fnmatch (cx_resource c) p)"
  by (auto simp: check_resource_def check_resource_hierarchy_def list_ex_iff split: if_splits)

lemma check_task_allow [allow_dests]:
  "check_task s c = ALLOW \<Longrightarrow> cx_require_task_scoping c \<Longrightarrow>
   \<exists>t. cx_task_id c = Some t \<and> (\<forall>allowed. st_allowed_tasks s = Some allowed \<longrightarrow> t \<in> set allowed)"
  by (cases "cx_task_id c") (auto simp: check_task_def split: if_splits option.splits)

lemma check_incident_state_allow [allow_dests]:
  "check_incident_state s c = ALLOW \<Longrightarrow> py_bool (py_get ''active'' (cx_incident_state c)) \<Longrightarrow>
   cx_action c \<in> set (st_incident_response_actions s)"
  by (auto simp: check_incident_state_def Let_def py_get_def split: if_splits)

lemma check_risk_score_allow [allow_dests]:
  "check_risk_score s fromiso now c = Inr ALLOW \<Longrightarrow>
   \<exists>res. context_risk fromiso now c = Inr res \<and> rr_score res < st_risk_threshold s"
  by (auto simp: check_risk_score_def split: sum.splits if_splits)

text \<open>A grant that is valid at \<open>now\<close> for the tenant of the context.\<close>

definition grant_valid ::
  "(string \<Rightarrow> stamp option) \<Rightarrow> datetime \<Rightarrow> string option \<Rightarrow> grant \<Rightarrow> bool" where
  "grant_valid fromiso now tenant_id g \<longleftrightarrow>
     (truthy (gr_tenant_id g) \<longrightarrow> truthy tenant_id \<longrightarrow> gr_tenant_id g = tenant_id) \<and>
     (case expiry_stamp fromiso g of None \<Rightarrow> False | Some st \<Rightarrow> now \<le> as_utc st)"

lemma authority_ttl_allow_iff:
  "authority_ttl_loop fromiso now tenant_id grants = ALLOW \<longleftrightarrow>
   list_all (grant_valid fromiso now tenant_id) grants"
  by (induction fromiso now tenant_id grants rule: authority_ttl_loop.induct)
     (auto simp: grant_valid_def not_less split: option.splits)

lemma check_authority_ttl_allow [allow_dests]:
  "check_authority_ttl fromiso now c = ALLOW \<Longrightarrow> g \<in> set (cx_authority_grants c) \<Longrightarrow>
   grant_valid fromiso now (cx_tenant_id c) g"
  by (simp add: check_authority_ttl_def authority_ttl_allow_iff list_all_iff)

lemma check_expiration_allow [allow_dests]:
  "check_expiration s now c = ALLOW \<Longrightarrow> cx_authorized_at c = Some st \<Longrightarrow>
   now - as_utc st \<le> seconds (st_expiry_seconds s)"
  by (auto simp: check_expiration_def split: if_splits)

lemma check_tool_allow [allow_dests]:
  "check_tool s c = ALLOW \<Longrightarrow>
   cx_proposed_tool c \<notin> set (st_denied_tools s) \<and> cx_proposed_tool c \<notin> set (st_hitl_tools s)"
  by (auto simp: check_tool_def split: if_splits)

text \<open>The conditions under which the service may let an action pass.\<close>

definition identified :: "az_settings \<Rightarrow> authorization_context \<Rightarrow> bool" where
  "identified s c \<longleftrightarrow>
     (st_require_tenant s \<longrightarrow> (\<exists>t. cx_tenant_id c = Some t \<and> is_valid_tenant t)) \<and>
     \<not> blank (cx_agent_id c) \<and> cx_user_id c \<noteq> None"

definition entitled :: "az_settings \<Rightarrow> authorization_context \<Rightarrow> bool" where
  "entitled s c \<longleftrightarrow>
     (st_default_deny s \<longrightarrow> (\<exists>role acts. cx_user_role c = Some role \<and>
        st_role_actions s role = Some acts \<and> cx_action c \<in> set acts)) \<and>
     (\<forall>allowed. st_allowed_services s = Some allowed \<longrightarrow> (\<exists>v \<in> set allowed. cx_service_id c = Some v)) \<and>
     (\<forall>allowed. st_allowed_actions s = Some allowed \<longrightarrow> cx_action c \<in> set allowed) \<and>
     (\<forall>allowed. st_allowed_resources s = Some allowed \<longrightarrow>
        cx_resource c \<noteq> [] \<and> (\<exists>p \<in> set allowed. fnmatch (cx_resource c) p)) \<and>
     (cx_require_task_scoping c \<longrightarrow> (\<exists>t. cx_task_id c = Some t \<and>
        (\<forall>allowed. st_allowed_tasks s = Some allowed \<longrightarrow> t \<in> set allowed))) \<and>
     cx_proposed_tool c \<notin> set (st_denied_tools s) \<and> cx_proposed_tool c \<notin> set (st_hitl_tools s)"

definition timely ::
  "az_settings \<Rightarrow> (string \<Rightarrow> stamp option) \<Rightarrow> datetime \<Rightarrow> authorization_context \<Rightarrow> bool" where
  "timely s fromiso now c \<longleftrightarrow>
     (\<forall>g \<in> set (cx_authority_grants c). grant_valid fromiso now (cx_tenant_id c) g) \<and>
     (\<forall>st. cx_authorized_at c = Some st \<longrightarrow> now - as_utc st \<le> seconds (st_expiry_seconds s)) \<and>
     (py_bool (py_get ''active'' (cx_incident_state c)) \<longrightarrow>
        cx_action c \<in> set (st_incident_response_actions s))"


definition sample_settings :: az_settings where
  "sample_settings =
     \<lparr>st_require_tenant = True, st_default_deny = True,
      st_role_actions = [''operator'' \<mapsto> [''execute'', ''delete'']], st_allowed_services = None,
      st_allowed_actions = None, st_allowed_resources = Some [''orders/*''], st_allowed_tasks = None,
      st_destructive_actions = [''delete''],
      st_incident_response_actions = [''respond'', ''recover'', ''diagnose'', ''contain''],
      st_recovery_actions = [''recover'', ''status_check'', ''monitor''], st_risk_threshold = 700,
      st_expiry_seconds = 3600, st_denied_tools = [''shell''], st_hitl_tools = []\<rparr>"

lemmas check_defs =
  check_tenant_def check_agent_def check_user_def check_role_permissions_def check_service_def
  check_action_def check_resource_def check_task_def check_resource_hierarchy_def
  constraint_ok_def check_parameters_def check_environment_def check_incident_state_def
  check_recovery_state_def check_dependency_state_def context_risk_def check_risk_score_def
  check_previous_behavior_def expiry_stamp_def check_authority_ttl_def check_expiration_def
  check_tool_def

lemmas authorize_run_simps =
  authorize_def authorization_checks_def check_defs risk_run_simps sample_settings_def
  is_valid_tenant_def blank_def py_space_def is_resource_pattern_def

lemma sample_resource_matches: "fnmatch ''orders/17'' ''orders/*''"
  using fnmatch_prefix [of "''orders/''" "''orders/17''"] by (simp add: is_resource_pattern_def)

lemma sample_authorized:
  "authorize sample_settings (\<lambda>_. None) 500
     (sample_context\<lparr>cx_authority_grants := [sample_grant]\<rparr>) = Inr (ALLOW, ''Authorized'')"
  using sample_resource_matches by (simp add: authorize_run_simps)


section \<open>Resource allow-lists\<close>

text \<open>
  An allow-list of resources without wildcards is exact: the two resource checks together let a
  context pass exactly when its resource is non-empty and on the list. (With wildcards the first
  check defers to the second, which matches patterns.)
\<close>

theorem literal_allow_list_exact:
  assumes "st_allowed_resources s = Some allowed" and "\<not> list_ex is_resource_pattern allowed"
  shows "check_resource s c = ALLOW \<and> check_resource_hierarchy s c = ALLOW \<longleftrightarrow>
    cx_resource c \<noteq> [] \<and> cx_resource c \<in> set allowed"
  using assms fnmatch_literal
  by (auto simp: check_resource_def check_resource_hierarchy_def list_ex_iff)

theorem literal_allow_list_exact_witness:
  "check_resource (sample_settings\<lparr>st_allowed_resources := Some [''orders/17'']\<rparr>) sample_context = ALLOW"
proof -
  have "\<not> list_ex is_resource_pattern [''orders/17'']"
    by (simp add: is_resource_pattern_def)
  from literal_allow_list_exact
    [OF _ this, of "sample_settings\<lparr>st_allowed_resources := Some [''orders/17'']\<rparr>" sample_context]
  show ?thesis by (simp add: sample_context_def)
qed

section \<open>Errors and the order of the checks\<close>

lemma first_refusal_append:
  "list_all (\<lambda>(d, _). d = Inr ALLOW) checks \<Longrightarrow>
   first_refusal (checks @ rest) = first_refusal rest"
  by (induction checks) auto

text \<open>
  An authority grant whose expiry carries no time zone is not rejected but breaks the decision:
  the risk engine compares it with an aware clock reading, so once the fourteen checks before the
  risk check allow, \<open>authorize\<close> raises TypeError. The time-to-live check, which would read the
  expiry as UTC, is never reached.
\<close>

theorem naive_grant_expiry_raises:
  assumes "g \<in> set (cx_authority_grants c)" and "grant_expiry fromiso g = Some (Naive t)"
    and "list_all (\<lambda>(d, _). d = Inr ALLOW) (take 14 (authorization_checks s fromiso now c))"
  shows "\<exists>m. authorize s fromiso now c = Inl (TypeError m)"
proof -
  obtain m where "check_expired_authority fromiso now (cx_authority_grants c) = Inl (TypeError m)"
    using expired_authority_naive [OF assms(1,2)] by blast
  then have "check_risk_score s fromiso now c = Inl (TypeError m)"
    by (simp add: check_risk_score_def context_risk_def evaluate_risk_def risk_signals_def)
  then have "first_refusal (drop 14 (authorization_checks s fromiso now c)) = Inl (TypeError m)"
    by (simp add: authorization_checks_def)
  with first_refusal_append [OF assms(3), of "drop 14 (authorization_checks s fromiso now c)"]
  show ?thesis by (simp add: authorize_def)
qed

theorem naive_grant_expiry_raises_witness:
  "\<exists>m. authorize sample_settings (\<lambda>_. Some (Naive 900)) 500
     (sample_context\<lparr>cx_authority_grants :=
        [sample_grant\<lparr>gr_expires_at := ExpiryText ''2030-01-01T00:00:00''\<rparr>]\<rparr>) = Inl (TypeError m)"
  by (rule naive_grant_expiry_raises
        [of "sample_grant\<lparr>gr_expires_at := ExpiryText ''2030-01-01T00:00:00''\<rparr>" _ _ 900])
     (use sample_resource_matches in \<open>simp_all add: authorize_run_simps\<close>)

text \<open>
  The first refusing check decides, not the strongest: a destructive action outside production
  with a tool on the deny-list is answered with a request for human approval, although the tool
  check denies it.
\<close>

theorem approval_request_hides_denial:
  "authorize sample_settings (\<lambda>_. None) 500
     (sample_context\<lparr>cx_action := ''delete'', cx_proposed_tool := ''shell''\<rparr>) =
     Inr (REQUIRE_HITL, ''Action not permitted in current environment'') \<and>
   check_tool sample_settings
     (sample_context\<lparr>cx_action := ''delete'', cx_proposed_tool := ''shell''\<rparr>) = DENY"
  using sample_resource_matches by (simp add: authorize_run_simps)

end
