(* ===== verification/Authority.thy ===== *)
theory Authority
  imports Authorization
begin

text \<open>
  Authority grants: the entity \<open>app/domain/entities/authority_grant.py\<close>, its SQL repository
  \<open>sqlalchemy_authority_grant_repository.py\<close>, \<open>AuthorityLineageService\<close>
  (\<open>app/domain/services/authority_lineage_service.py\<close>) and the route that creates a grant
  (\<open>app/presentation/api/v1/routes/authority.py\<close>).

  A table is the list of its rows; equal sort keys keep the table order. Conditions and metadata
  survive their JSON encoding. The identifiers drawn from \<open>secrets\<close> and the clock are arguments.
  Three loops walk from a grant to its parent and need not end on an arbitrary table: they are
  partial functions, and they are shown to end on every table the operations can build.
\<close>

section \<open>The entities\<close>

datatype authority_status =
  AU_ACTIVE | AU_DELEGATED | AU_REVOKED | AU_EXPIRED | AU_SUSPENDED | AU_JIT_EXPIRED
| AU_ONE_SHOT_USED

datatype authority_scope = SC_READ | SC_WRITE | SC_EXECUTE | SC_ADMIN | SC_CUSTOM

record authority_grant =
  au_grant_id :: string
  au_tenant_id :: string
  au_grantor_agent_id :: string
  au_grantee_agent_id :: string
  au_scope :: authority_scope
  au_resource :: string
  au_conditions :: "(string, string) dict"
  au_expires_at :: "stamp option"
  au_delegation_depth :: int
  au_parent_authority_id :: "string option"
  au_root_authority_id :: "string option"
  au_status :: authority_status
  au_revoked_at :: "datetime option"
  au_revoked_by :: "string option"
  au_metadata :: "(string, string) dict"
  au_created_at :: datetime
  au_updated_at :: datetime
  au_is_jit :: bool
  au_jit_created_at :: "datetime option"
  au_jit_expires_at :: "stamp option"
  au_jit_consumed_at :: "datetime option"
  au_one_shot :: bool
  au_usage_count :: int

type_synonym grant_table = "authority_grant list"

section \<open>The repository\<close>

definition get_by_grant_id :: "string \<Rightarrow> string \<Rightarrow> grant_table \<Rightarrow> authority_grant option" where
  "get_by_grant_id tenant_id grant_id rows =
     sql_first (sql_select (\<lambda>g. au_tenant_id g = tenant_id \<and> au_grant_id g = grant_id) rows)"

definition newest_page ::
  "nat \<Rightarrow> nat \<Rightarrow> authority_grant list \<Rightarrow> authority_grant list \<times> nat" where
  "newest_page limit offset found =
     (take limit (drop offset (sort_key (\<lambda>g. - au_created_at g) found)), length found)"

definition list_by_grantee ::
  "string \<Rightarrow> string \<Rightarrow> authority_status option \<Rightarrow> nat \<Rightarrow> nat \<Rightarrow> grant_table
     \<Rightarrow> authority_grant list \<times> nat" where
  "list_by_grantee tenant_id grantee_agent_id status limit offset rows =
     newest_page limit offset
       (sql_select (\<lambda>g. au_tenant_id g = tenant_id \<and> au_grantee_agent_id g = grantee_agent_id \<and>
          (case status of None \<Rightarrow> True | Some st \<Rightarrow> au_status g = st)) rows)"

definition list_by_grantor ::
  "string \<Rightarrow> string \<Rightarrow> nat \<Rightarrow> nat \<Rightarrow> grant_table \<Rightarrow> authority_grant list \<times> nat" where
  "list_by_grantor tenant_id grantor_agent_id limit offset rows =
     newest_page limit offset
       (sql_select (\<lambda>g. au_tenant_id g = tenant_id \<and> au_grantor_agent_id g = grantor_agent_id) rows)"

definition list_by_tenant ::
  "string \<Rightarrow> nat \<Rightarrow> nat \<Rightarrow> grant_table \<Rightarrow> authority_grant list \<times> nat" where
  "list_by_tenant tenant_id limit offset rows =
     newest_page limit offset (sql_select (\<lambda>g. au_tenant_id g = tenant_id) rows)"

definition list_grant_descendants ::
  "string \<Rightarrow> string \<Rightarrow> nat \<Rightarrow> nat \<Rightarrow> grant_table \<Rightarrow> authority_grant list \<times> nat" where
  "list_grant_descendants tenant_id root_authority_id limit offset rows =
     (let found = sql_select (\<lambda>g. au_tenant_id g = tenant_id \<and>
                    au_root_authority_id g = Some root_authority_id) rows
      in (take limit (drop offset (sort_key au_delegation_depth found)), length found))"

text \<open>An update keeps the identity, the parties and the creation time of the stored row.\<close>

definition overwrite_grant :: "datetime \<Rightarrow> authority_grant \<Rightarrow> authority_grant \<Rightarrow> authority_grant" where
  "overwrite_grant now grant model =
     model\<lparr>au_scope := au_scope grant, au_resource := au_resource grant,
           au_conditions := au_conditions grant, au_expires_at := au_expires_at grant,
           au_delegation_depth := au_delegation_depth grant,
           au_parent_authority_id := au_parent_authority_id grant,
           au_root_authority_id := au_root_authority_id grant, au_status := au_status grant,
           au_revoked_at := au_revoked_at grant, au_revoked_by := au_revoked_by grant,
           au_metadata := au_metadata grant, au_updated_at := now, au_is_jit := au_is_jit grant,
           au_jit_created_at := au_jit_created_at grant,
           au_jit_expires_at := au_jit_expires_at grant,
           au_jit_consumed_at := au_jit_consumed_at grant, au_one_shot := au_one_shot grant,
           au_usage_count := au_usage_count grant\<rparr>"

definition save_grant :: "datetime \<Rightarrow> authority_grant \<Rightarrow> grant_table \<Rightarrow> authority_grant \<times> grant_table" where
  "save_grant now grant rows =
     (case sql_first (sql_select (\<lambda>g. au_grant_id g = au_grant_id grant) rows) of
        None \<Rightarrow> (grant, rows @ [grant])
      | Some model \<Rightarrow>
          (overwrite_grant now grant model,
           sql_update (\<lambda>g. au_grant_id g = au_grant_id grant) (overwrite_grant now grant) rows))"

text \<open>The row a tenant-scoped query finds, changed by \<open>f\<close>; \<open>grant_id\<close> is unique.\<close>

definition change_grant ::
  "string \<Rightarrow> string \<Rightarrow> (authority_grant \<Rightarrow> bool) \<Rightarrow> (authority_grant \<Rightarrow> authority_grant) \<Rightarrow> grant_table
     \<Rightarrow> authority_grant option \<times> grant_table" where
  "change_grant tenant_id grant_id w f rows =
     (let here = (\<lambda>g. au_tenant_id g = tenant_id \<and> au_grant_id g = grant_id \<and> w g)
      in case sql_first (sql_select here rows) of
           None \<Rightarrow> (None, rows)
         | Some model \<Rightarrow> (Some (f model), sql_update here f rows))"

definition revoke_grant ::
  "datetime \<Rightarrow> string \<Rightarrow> string \<Rightarrow> string \<Rightarrow> grant_table \<Rightarrow> authority_grant option \<times> grant_table" where
  "revoke_grant now tenant_id grant_id revoked_by rows =
     change_grant tenant_id grant_id (\<lambda>_. True)
       (\<lambda>g. g\<lparr>au_status := AU_REVOKED, au_revoked_at := Some now, au_revoked_by := Some revoked_by,
             au_updated_at := now\<rparr>) rows"

text \<open>In SQL a comparison with NULL is not true: a grant without expiry is not selected.\<close>

definition get_active_for_agent ::
  "datetime \<Rightarrow> string \<Rightarrow> string \<Rightarrow> string option \<Rightarrow> grant_table \<Rightarrow> authority_grant list" where
  "get_active_for_agent now tenant_id agent_id resource rows =
     sql_select (\<lambda>g. au_tenant_id g = tenant_id \<and> au_grantee_agent_id g = agent_id \<and>
       au_status g = AU_ACTIVE \<and>
       (case au_expires_at g of None \<Rightarrow> False | Some st \<Rightarrow> as_utc st > now) \<and>
       (case resource of None \<Rightarrow> True | Some r \<Rightarrow> au_resource g = r)) rows"

definition consumable :: "datetime \<Rightarrow> authority_grant \<Rightarrow> bool" where
  "consumable now g \<longleftrightarrow>
     au_status g = AU_ACTIVE \<and> au_one_shot g \<and> au_usage_count g = 0 \<and>
     (case au_expires_at g of None \<Rightarrow> True | Some st \<Rightarrow> as_utc st > now)"

definition consume_one_shot ::
  "datetime \<Rightarrow> string \<Rightarrow> string \<Rightarrow> grant_table \<Rightarrow> authority_grant option \<times> grant_table" where
  "consume_one_shot now tenant_id grant_id rows =
     change_grant tenant_id grant_id (consumable now)
       (\<lambda>g. g\<lparr>au_status := AU_ONE_SHOT_USED, au_usage_count := 1, au_jit_consumed_at := Some now,
             au_updated_at := now\<rparr>) rows"

section \<open>Agents\<close>

datatype agent_status = AG_ACTIVE | AG_SUSPENDED | AG_QUARANTINED | AG_REVOKED | AG_EXPIRED

datatype risk_classification = RC_LOW | RC_MEDIUM | RC_HIGH | RC_CRITICAL

text \<open>Of an agent the fields the lineage service reads; the registry extends the record.\<close>

record agent =
  agt_agent_id :: string
  agt_tenant_id :: string
  agt_status :: agent_status
  agt_risk_classification :: risk_classification

definition get_by_agent_id ::
  "string \<Rightarrow> string \<Rightarrow> 'a agent_scheme list \<Rightarrow> 'a agent_scheme option" where
  "get_by_agent_id tenant_id agent_id rows =
     sql_first (sql_select (\<lambda>a. agt_tenant_id a = tenant_id \<and> agt_agent_id a = agent_id) rows)"

section \<open>The lineage service\<close>

fun scope_rank :: "authority_scope \<Rightarrow> nat" where
  "scope_rank SC_READ = 1"
| "scope_rank SC_WRITE = 2"
| "scope_rank SC_EXECUTE = 3"
| "scope_rank SC_ADMIN = 4"
| "scope_rank SC_CUSTOM = 5"

definition scope_within_parent :: "authority_scope \<Rightarrow> authority_scope \<Rightarrow> bool" where
  "scope_within_parent child parent \<longleftrightarrow> scope_rank child \<le> scope_rank parent"

definition create_authority ::
  "datetime \<Rightarrow> string \<Rightarrow> string \<Rightarrow> string \<Rightarrow> string \<Rightarrow> authority_scope \<Rightarrow> string
     \<Rightarrow> (string, string) dict \<Rightarrow> stamp option \<Rightarrow> string option \<Rightarrow> string option \<Rightarrow> int
     \<Rightarrow> (string, string) dict \<Rightarrow> authority_grant" where
  "create_authority now grant_id tenant_id grantor grantee scope resource conditions expires_at
       parent_id root_id depth metadata =
     \<lparr>au_grant_id = grant_id, au_tenant_id = tenant_id, au_grantor_agent_id = grantor,
      au_grantee_agent_id = grantee, au_scope = scope, au_resource = resource,
      au_conditions = conditions, au_expires_at = expires_at, au_delegation_depth = depth,
      au_parent_authority_id = parent_id, au_root_authority_id = root_id, au_status = AU_ACTIVE,
      au_revoked_at = None, au_revoked_by = None, au_metadata = metadata, au_created_at = now,
      au_updated_at = now, au_is_jit = False, au_jit_created_at = None, au_jit_expires_at = None,
      au_jit_consumed_at = None, au_one_shot = False, au_usage_count = 0\<rparr>"

definition enforce_max_delegation_depth ::
  "int \<Rightarrow> string \<Rightarrow> string \<Rightarrow> grant_table \<Rightarrow> py_error + bool" where
  "enforce_max_delegation_depth depth_limit tenant_id parent_grant_id rows =
     (case get_by_grant_id tenant_id parent_grant_id rows of
        None \<Rightarrow> Inl (ValueError ''Parent grant not found'')
      | Some parent \<Rightarrow>
          if au_delegation_depth parent \<ge> depth_limit
          then Inl (ValueError ''Maximum delegation depth exceeded'') else Inr True)"

definition create_one_shot_authority ::
  "datetime \<Rightarrow> string \<Rightarrow> string \<Rightarrow> string \<Rightarrow> string \<Rightarrow> authority_scope \<Rightarrow> string
     \<Rightarrow> (string, string) dict \<Rightarrow> stamp option \<Rightarrow> grant_table \<Rightarrow> authority_grant \<times> grant_table" where
  "create_one_shot_authority now grant_id tenant_id grantor grantee scope resource conditions
       expires_at rows =
     (let grant = (create_authority now grant_id tenant_id grantor grantee scope resource conditions
                     expires_at None None 0 [])\<lparr>au_one_shot := True\<rparr>
      in (grant, snd (save_grant now grant rows)))"

text \<open>The walk to the root; \<open>None\<close> when it does not end.\<close>

partial_function (option) circular_walk ::
  "string \<Rightarrow> string \<Rightarrow> grant_table \<Rightarrow> authority_grant \<Rightarrow> bool option" where
  "circular_walk tenant_id new_grantee rows current =
     (if au_grantor_agent_id current = new_grantee then Some True
      else case au_parent_authority_id current of
             None \<Rightarrow> Some False
           | Some p \<Rightarrow>
               (case get_by_grant_id tenant_id p rows of
                  None \<Rightarrow> Some False
                | Some parent \<Rightarrow> circular_walk tenant_id new_grantee rows parent))"

text \<open>\<open>None\<close> when the walk does not end; otherwise the error raised or the grant built.\<close>

definition delegate_authority ::
  "datetime \<Rightarrow> int \<Rightarrow> string \<Rightarrow> string \<Rightarrow> string \<Rightarrow> string \<Rightarrow> authority_scope \<Rightarrow> string
     \<Rightarrow> (string, string) dict \<Rightarrow> stamp option \<Rightarrow> (string, string) dict \<Rightarrow> grant_table
     \<Rightarrow> (py_error + authority_grant) option" where
  "delegate_authority now depth_limit grant_id tenant_id parent_grant_id new_grantee scope resource
       conditions expires_at metadata rows =
     (case get_by_grant_id tenant_id parent_grant_id rows of
        None \<Rightarrow> Some (Inl (ValueError ''Parent authority grant not found''))
      | Some parent \<Rightarrow>
          if au_status parent \<noteq> AU_ACTIVE then Some (Inl (ValueError ''Parent authority is not active''))
          else if au_is_jit parent then Some (Inl (ValueError ''JIT authority cannot be delegated''))
          else if au_one_shot parent
          then Some (Inl (ValueError ''One-shot authority cannot be delegated''))
          else if (case au_expires_at parent of None \<Rightarrow> False | Some st \<Rightarrow> as_utc st < now)
          then Some (Inl (ValueError ''Parent authority has expired''))
          else
            (case enforce_max_delegation_depth depth_limit tenant_id parent_grant_id rows of
               Inl e \<Rightarrow> Some (Inl e)
             | Inr _ \<Rightarrow>
                 if \<not> scope_within_parent scope (au_scope parent)
                 then Some (Inl (ValueError ''Delegated scope exceeds parent scope''))
                 else
                   (case circular_walk tenant_id new_grantee rows parent of
                      None \<Rightarrow> None
                    | Some True \<Rightarrow> Some (Inl (ValueError ''Circular delegation detected''))
                    | Some False \<Rightarrow>
                        Some (Inr (create_authority now grant_id tenant_id
                          (au_grantee_agent_id parent) new_grantee scope resource conditions
                          expires_at (Some parent_grant_id)
                          (Some (if truthy (au_root_authority_id parent)
                                 then the (au_root_authority_id parent) else au_grant_id parent))
                          (au_delegation_depth parent + 1) metadata)))))"

definition revoke_authority ::
  "datetime \<Rightarrow> string \<Rightarrow> string \<Rightarrow> string \<Rightarrow> grant_table \<Rightarrow> authority_grant option \<times> grant_table" where
  "revoke_authority now tenant_id grant_id revoked_by rows =
     revoke_grant now tenant_id grant_id revoked_by rows"

partial_function (option) ancestors_walk ::
  "string \<Rightarrow> grant_table \<Rightarrow> authority_grant \<Rightarrow> authority_grant list option" where
  "ancestors_walk tenant_id rows current =
     (if \<not> truthy (au_parent_authority_id current) then Some []
      else case get_by_grant_id tenant_id (the (au_parent_authority_id current)) rows of
             None \<Rightarrow> Some []
           | Some parent \<Rightarrow>
               Option.bind (ancestors_walk tenant_id rows parent) (\<lambda>rest. Some (parent # rest)))"

text \<open>The report of \<open>get_lineage\<close>, with the grants whose fields it lists.\<close>

record lineage_report =
  ln_grant_id :: string
  ln_root_authority_id :: "string option"
  ln_ancestors :: "authority_grant list"
  ln_descendants_count :: nat
  ln_descendants :: "authority_grant list"

definition root_of :: "authority_grant \<Rightarrow> string" where
  "root_of g =
     (if truthy (au_root_authority_id g) then the (au_root_authority_id g) else au_grant_id g)"

definition get_lineage ::
  "string \<Rightarrow> string \<Rightarrow> grant_table \<Rightarrow> (py_error + lineage_report) option" where
  "get_lineage tenant_id grant_id rows =
     (case get_by_grant_id tenant_id grant_id rows of
        None \<Rightarrow> Some (Inl (ValueError ''Authority grant not found''))
      | Some g \<Rightarrow>
          (case ancestors_walk tenant_id rows g of
             None \<Rightarrow> None
           | Some ancestors \<Rightarrow>
               (let (ds, n) = list_grant_descendants tenant_id (root_of g) 1000 0 rows
                in Some (Inr \<lparr>ln_grant_id = au_grant_id g,
                              ln_root_authority_id = au_root_authority_id g,
                              ln_ancestors = ancestors, ln_descendants_count = n,
                              ln_descendants = ds\<rparr>))))"

text \<open>\<open>setdefault(resource, [])\<close> and append of a new grantee\<close>

fun collect_resources ::
  "authority_grant list \<Rightarrow> (string, string list) dict \<Rightarrow> (string, string list) dict" where
  "collect_resources [] d = d"
| "collect_resources (g # gs) d =
     (let agents = (case map_of d (au_resource g) of None \<Rightarrow> [] | Some xs \<Rightarrow> xs);
          agents' = (if au_grantee_agent_id g \<in> set agents then agents
                     else agents @ [au_grantee_agent_id g])
      in collect_resources gs (AList.update (au_resource g) agents' d))"

definition get_affected_resources ::
  "string \<Rightarrow> string \<Rightarrow> grant_table \<Rightarrow> py_error + string \<times> (string, string list) dict \<times> nat" where
  "get_affected_resources tenant_id grant_id rows =
     (case get_by_grant_id tenant_id grant_id rows of
        None \<Rightarrow> Inl (ValueError ''Authority grant not found'')
      | Some g \<Rightarrow>
          (let resources = collect_resources
                 (fst (list_grant_descendants tenant_id (root_of g) 1000 0 rows)) []
           in Inr (root_of g, resources, sum_list (map (\<lambda>(_, xs). length xs) resources))))"

definition validate_delegation ::
  "datetime \<Rightarrow> string \<Rightarrow> string \<Rightarrow> string \<Rightarrow> authority_scope \<Rightarrow> agent list \<Rightarrow> grant_table
     \<Rightarrow> authorization_decision" where
  "validate_delegation now tenant_id grantor_agent_id resource scope agents rows =
     (case get_by_agent_id tenant_id grantor_agent_id agents of
        None \<Rightarrow> DENY
      | Some grantor \<Rightarrow>
          if agt_status grantor \<noteq> AG_ACTIVE then DENY
          else if agt_risk_classification grantor \<in> {RC_HIGH, RC_CRITICAL} then REQUIRE_HITL
          else if list_ex (\<lambda>g. \<not> (au_is_jit g \<and>
                     (case au_jit_expires_at g of None \<Rightarrow> False | Some st \<Rightarrow> as_utc st < now)) \<and>
                   scope_within_parent scope (au_scope g))
                 (get_active_for_agent now tenant_id grantor_agent_id (Some resource) rows)
          then ALLOW else DENY)"

definition create_jit_authority ::
  "datetime \<Rightarrow> string \<Rightarrow> string \<Rightarrow> string \<Rightarrow> string \<Rightarrow> authority_scope \<Rightarrow> string \<Rightarrow> int
     \<Rightarrow> (string, string) dict \<Rightarrow> authority_grant" where
  "create_jit_authority now grant_id tenant_id grantor grantee scope resource ttl_seconds conditions =
     (create_authority now grant_id tenant_id grantor grantee scope resource conditions
        (Some (Aware (now + seconds ttl_seconds))) None (Some grant_id) 0 [(''jit'', ''true'')])
     \<lparr>au_is_jit := True, au_jit_created_at := Some now,
      au_jit_expires_at := Some (Aware (now + seconds ttl_seconds))\<rparr>"

definition validate_attenuation ::
  "datetime \<Rightarrow> string \<Rightarrow> string \<Rightarrow> string \<Rightarrow> authority_scope \<Rightarrow> agent list \<Rightarrow> grant_table
     \<Rightarrow> authorization_decision" where
  "validate_attenuation now tenant_id grantor_agent_id resource scope agents rows =
     (let d = validate_delegation now tenant_id grantor_agent_id resource scope agents rows
      in if d \<noteq> ALLOW then d
         else if get_by_agent_id tenant_id grantor_agent_id agents = None then DENY
         else if list_ex (\<lambda>g. \<not> scope_within_parent scope (au_scope g))
                (get_active_for_agent now tenant_id grantor_agent_id (Some resource) rows)
         then DENY else ALLOW)"

partial_function (option) chain_walk ::
  "string \<Rightarrow> grant_table \<Rightarrow> authority_grant \<Rightarrow> authority_grant list option" where
  "chain_walk tenant_id rows current =
     (case au_parent_authority_id current of
        None \<Rightarrow> Some [current]
      | Some p \<Rightarrow>
          (case get_by_grant_id tenant_id p rows of
             None \<Rightarrow> Some [current]
           | Some parent \<Rightarrow>
               Option.bind (chain_walk tenant_id rows parent) (\<lambda>rest. Some (current # rest))))"

definition validate_chain_consistency ::
  "string \<Rightarrow> string \<Rightarrow> grant_table \<Rightarrow> (py_error + authority_grant list \<times> int \<times> bool) option" where
  "validate_chain_consistency tenant_id grant_id rows =
     (case get_by_grant_id tenant_id grant_id rows of
        None \<Rightarrow> Some (Inl (ValueError ''Authority grant not found''))
      | Some g \<Rightarrow>
          (case chain_walk tenant_id rows g of
             None \<Rightarrow> None
           | Some chain \<Rightarrow>
               Some (Inr (chain, fold (\<lambda>h m. max m (au_delegation_depth h)) chain 0, True))))"

definition jit_due :: "datetime \<Rightarrow> authority_grant \<Rightarrow> bool" where
  "jit_due now g \<longleftrightarrow>
     au_is_jit g \<and> au_status g = AU_ACTIVE \<and>
     (case au_jit_expires_at g of None \<Rightarrow> False | Some st \<Rightarrow> as_utc st < now)"

fun expire_loop :: "datetime \<Rightarrow> authority_grant list \<Rightarrow> grant_table \<Rightarrow> nat \<times> grant_table" where
  "expire_loop now [] rows = (0, rows)"
| "expire_loop now (g # gs) rows =
     (if jit_due now g
      then (let (n, rows') = expire_loop now gs
                  (snd (save_grant now (g\<lparr>au_status := AU_JIT_EXPIRED, au_updated_at := now\<rparr>) rows))
            in (Suc n, rows'))
      else expire_loop now gs rows)"

definition expire_jit_grants :: "datetime \<Rightarrow> string \<Rightarrow> grant_table \<Rightarrow> nat \<times> grant_table" where
  "expire_jit_grants now tenant_id rows =
     expire_loop now (fst (list_by_tenant tenant_id 5000 0 rows)) rows"

section \<open>The route that creates a grant\<close>

record grant_request =
  rq_grantor_agent_id :: string
  rq_grantee_agent_id :: string
  rq_scope :: authority_scope
  rq_resource :: string
  rq_conditions :: "(string, string) dict"
  rq_expires_at :: "stamp option"
  rq_delegation_depth :: int
  rq_parent_authority_id :: "string option"

text \<open>Depth and root of the new grant, after the checks on the parent.\<close>

definition grant_place ::
  "datetime \<Rightarrow> string \<Rightarrow> grant_request \<Rightarrow> grant_table \<Rightarrow> py_error + int \<times> string option" where
  "grant_place now tenant_id body rows =
     (if truthy (rq_parent_authority_id body)
      then
        (case get_by_grant_id tenant_id (the (rq_parent_authority_id body)) rows of
           None \<Rightarrow> Inl (HTTPException 400 ''Parent authority grant not found'')
         | Some parent \<Rightarrow>
             if au_status parent \<noteq> AU_ACTIVE
             then Inl (HTTPException 403 ''Parent authority is not active'')
             else if (case au_expires_at parent of None \<Rightarrow> False | Some st \<Rightarrow> as_utc st < now)
             then Inl (HTTPException 403 ''Parent authority has expired'')
             else if au_delegation_depth parent + 1 > 9
             then Inl (HTTPException 403 ''Maximum delegation depth exceeded'')
             else if \<not> scope_within_parent (rq_scope body) (au_scope parent)
             then Inl (HTTPException 403 ''Delegated scope exceeds parent scope'')
             else if rq_grantor_agent_id body \<noteq> au_grantee_agent_id parent
             then Inl (HTTPException 403
                    ''Grantor must be the parent grantee for delegated authority'')
             else Inr (au_delegation_depth parent + 1, Some (root_of parent)))
      else if rq_delegation_depth body \<noteq> 0
      then Inl (HTTPException 400 ''Root authority grants must have delegation_depth=0'')
      else Inr (rq_delegation_depth body, rq_parent_authority_id body))"

definition create_grant ::
  "datetime \<Rightarrow> string \<Rightarrow> string \<Rightarrow> grant_request \<Rightarrow> agent list \<Rightarrow> grant_table
     \<Rightarrow> (py_error + authority_grant) \<times> grant_table" where
  "create_grant now grant_id tenant_id body agents rows =
     (case grant_place now tenant_id body rows of
        Inl e \<Rightarrow> (Inl e, rows)
      | Inr (depth, root_id) \<Rightarrow>
          (let grant = create_authority now grant_id tenant_id (rq_grantor_agent_id body)
                 (rq_grantee_agent_id body) (rq_scope body) (rq_resource body) (rq_conditions body)
                 (rq_expires_at body) (rq_parent_authority_id body) root_id depth []
           in if get_by_agent_id tenant_id (rq_grantor_agent_id body) agents = None
              then (Inl (HTTPException 403
                     ''Grantor agent not found or does not belong to your tenant.''), rows)
              else if get_by_agent_id tenant_id (rq_grantee_agent_id body) agents = None
              then (Inl (HTTPException 403
                     ''Grantee agent not found or does not belong to your tenant.''), rows)
              else (let (stored, rows') = save_grant now grant rows in (Inr stored, rows'))))"

end
