(* ===== verification/Authority_Properties.thy ===== *)
theory Authority_Properties
  imports Authority
begin

text \<open>
  Runs of the authority operations and their properties. The invariant \<open>lineage_ok\<close> says where a
  grant stands: a delegated grant has its parent in the same tenant, one level above, with at least
  its scope. It only reads the fields that \<open>core\<close> keeps, so every operation that leaves them alone
  preserves it.
\<close>

section \<open>Runs\<close>

definition fresh_id :: "string \<Rightarrow> grant_table \<Rightarrow> bool" where
  "fresh_id grant_id rows \<longleftrightarrow> grant_id \<noteq> [] \<and> grant_id \<notin> au_grant_id ` set rows"

inductive authority_step :: "agent list \<Rightarrow> grant_table \<Rightarrow> grant_table \<Rightarrow> bool"
  for agents :: "agent list" where
  create: "fresh_id gid rows \<Longrightarrow>
     authority_step agents rows (snd (create_grant now gid t body agents rows))"
| delegate: "fresh_id gid rows \<Longrightarrow>
     delegate_authority now 9 gid t p ge sc r cs ex md rows = Some (Inr g) \<Longrightarrow>
     authority_step agents rows (snd (save_grant now g rows))"
| one_shot: "fresh_id gid rows \<Longrightarrow>
     authority_step agents rows (snd (create_one_shot_authority now gid t gr ge sc r cs ex rows))"
| jit: "fresh_id gid rows \<Longrightarrow>
     authority_step agents rows
       (snd (save_grant now (create_jit_authority now gid t gr ge sc r ttl cs) rows))"
| revoke: "authority_step agents rows (snd (revoke_authority now t gid by_whom rows))"
| consume: "authority_step agents rows (snd (consume_one_shot now t gid rows))"
| expire: "authority_step agents rows (snd (expire_jit_grants now t rows))"

inductive reachable_grants :: "agent list \<Rightarrow> grant_table \<Rightarrow> bool" for agents :: "agent list" where
  none: "reachable_grants agents []"
| step: "reachable_grants agents rows \<Longrightarrow> authority_step agents rows rows' \<Longrightarrow>
     reachable_grants agents rows'"

section \<open>The place of a grant\<close>

definition placed :: "grant_table \<Rightarrow> authority_grant \<Rightarrow> bool" where
  "placed rows g \<longleftrightarrow>
     au_grant_id g \<noteq> [] \<and> 0 \<le> au_delegation_depth g \<and> au_delegation_depth g \<le> 9 \<and>
     (if truthy (au_parent_authority_id g)
      then \<exists>q \<in> set rows.
        au_parent_authority_id g = Some (au_grant_id q) \<and> au_tenant_id q = au_tenant_id g \<and>
        au_delegation_depth g = au_delegation_depth q + 1 \<and>
        scope_rank (au_scope g) \<le> scope_rank (au_scope q) \<and>
        au_grantor_agent_id g = au_grantee_agent_id q \<and>
        au_root_authority_id g = Some (root_of q)
      else au_delegation_depth g = 0)"

definition lineage_ok :: "grant_table \<Rightarrow> bool" where
  "lineage_ok rows \<longleftrightarrow> pk au_grant_id rows \<and> list_all (placed rows) rows"

definition core :: "authority_grant \<Rightarrow> authority_grant" where
  "core g =
     g\<lparr>au_resource := [], au_conditions := [], au_expires_at := None, au_status := AU_ACTIVE,
       au_revoked_at := None, au_revoked_by := None, au_metadata := [], au_created_at := 0,
       au_updated_at := 0, au_is_jit := False, au_jit_created_at := None,
       au_jit_expires_at := None, au_jit_consumed_at := None, au_one_shot := False,
       au_usage_count := 0\<rparr>"

lemma core_sel [simp]:
  "au_grant_id (core g) = au_grant_id g" "au_tenant_id (core g) = au_tenant_id g"
  "au_grantor_agent_id (core g) = au_grantor_agent_id g"
  "au_grantee_agent_id (core g) = au_grantee_agent_id g" "au_scope (core g) = au_scope g"
  "au_delegation_depth (core g) = au_delegation_depth g"
  "au_parent_authority_id (core g) = au_parent_authority_id g"
  "au_root_authority_id (core g) = au_root_authority_id g"
  by (simp_all add: core_def)

lemma root_of_core [simp]: "root_of (core g) = root_of g"
  by (simp add: root_of_def)

lemma placed_core: "placed (map core rows) (core g) = placed rows g"
  by (simp add: placed_def)

lemma lineage_ok_core: "lineage_ok (map core rows) = lineage_ok rows"
  by (simp add: lineage_ok_def pk_def list_all_iff placed_core o_def)

lemma lineage_ok_frame:
  "map core rows' = map core rows \<Longrightarrow> lineage_ok rows \<Longrightarrow> lineage_ok rows'"
  by (metis lineage_ok_core)

lemma placed_mono: "placed rows g \<Longrightarrow> set rows \<subseteq> set rows' \<Longrightarrow> placed rows' g"
  by (auto simp: placed_def split: if_splits)

lemma lineage_ok_add:
  assumes "lineage_ok rows" and "au_grant_id g \<notin> au_grant_id ` set rows" and "placed rows g"
  shows "lineage_ok (rows @ [g])"
  using assms by (auto simp: lineage_ok_def pk_def list_all_iff intro: placed_mono)

section \<open>Operations and the invariant\<close>

lemma sql_first_select: "sql_first (sql_select w rows) = Some r \<Longrightarrow> r \<in> set rows \<and> w r"
  by (cases "sql_select w rows") (auto simp: sql_select_def filter_eq_Cons_iff)

lemma get_by_grant_id_Some:
  "get_by_grant_id t gid rows = Some g \<Longrightarrow> g \<in> set rows \<and> au_tenant_id g = t \<and> au_grant_id g = gid"
  unfolding get_by_grant_id_def by (drule sql_first_select) simp

declare sql_first_None [simp]

lemma save_grant_fresh:
  "au_grant_id g \<notin> au_grant_id ` set rows \<Longrightarrow> save_grant now g rows = (g, rows @ [g])"
  by (auto simp: save_grant_def split: option.split dest!: sql_first_select)
     (metis image_eqI)+

lemma change_grant_core:
  "(\<And>g. core (f g) = core g) \<Longrightarrow> map core (snd (change_grant t gid w f rows)) = map core rows"
  by (simp add: change_grant_def sql_update_def Let_def split: option.split)

lemma expire_save_core:
  assumes "pk au_grant_id rows" and "g \<in> set rows"
  shows "map core (snd (save_grant now (g\<lparr>au_status := st, au_updated_at := u\<rparr>) rows)) = map core rows"
proof -
  have same: "r = g" if "r \<in> set rows" "au_grant_id r = au_grant_id g" for r
    using assms that by (auto simp: pk_def dest: inj_onD [OF distinct_map [THEN iffD1, THEN conjunct2]])
  have "core (overwrite_grant now (g\<lparr>au_status := st, au_updated_at := u\<rparr>) g) = core g"
    by (simp add: overwrite_grant_def core_def)
  with same assms(2) show ?thesis
    by (auto simp: save_grant_def sql_update_def sql_select_def filter_empty_conv
        split: option.split)
qed

lemma expire_save_others:
  "h \<in> set rows \<Longrightarrow> au_grant_id h \<noteq> au_grant_id g \<Longrightarrow> h \<in> set (snd (save_grant now g rows))"
  by (force simp: save_grant_def sql_update_def split: option.split)

lemma core_pk: "map core rows' = map core rows \<Longrightarrow> pk au_grant_id rows' = pk au_grant_id rows"
proof -
  assume "map core rows' = map core rows"
  then have "map au_grant_id (map core rows') = map au_grant_id (map core rows)" by simp
  then show ?thesis by (simp add: pk_def o_def)
qed

lemma expire_loop_core:
  "pk au_grant_id rows \<Longrightarrow> set gs \<subseteq> set rows \<Longrightarrow> distinct (map au_grant_id gs) \<Longrightarrow>
   map core (snd (expire_loop now gs rows)) = map core rows"
proof (induction gs arbitrary: rows)
  case Nil
  then show ?case by simp
next
  case (Cons g gs)
  let ?rows = "snd (save_grant now (g\<lparr>au_status := AU_JIT_EXPIRED, au_updated_at := now\<rparr>) rows)"
  show ?case
  proof (cases "jit_due now g")
    case True
    have frame: "map core ?rows = map core rows"
      using Cons.prems by (intro expire_save_core) auto
    have "h \<in> set ?rows" if "h \<in> set gs" for h
    proof -
      from that Cons.prems(3) have "au_grant_id h \<noteq> au_grant_id g" by (auto simp: rev_image_eqI)
      with that Cons.prems(2) show ?thesis by (intro expire_save_others) auto
    qed
    then have "set gs \<subseteq> set ?rows" by blast
    with Cons.IH [of ?rows] Cons.prems core_pk [OF frame]
    have "map core (snd (expire_loop now gs ?rows)) = map core ?rows" by simp
    with True frame show ?thesis by (simp add: Let_def split_beta)
  next
    case False
    with Cons show ?thesis by simp
  qed
qed

lemma distinct_map_sort_key: "distinct (map f (sort_key k xs)) = distinct (map f xs)"
  by (simp add: distinct_map)

lemma expire_jit_grants_core:
  assumes "pk au_grant_id rows"
  shows "map core (snd (expire_jit_grants now t rows)) = map core rows"
  unfolding expire_jit_grants_def
proof (rule expire_loop_core [OF assms])
  show "set (fst (list_by_tenant t 5000 0 rows)) \<subseteq> set rows"
    by (auto simp: list_by_tenant_def newest_page_def sql_select_def dest!: in_set_takeD)
  have "distinct (map au_grant_id (sort_key (\<lambda>g. - au_created_at g)
      (sql_select (\<lambda>g. au_tenant_id g = t) rows)))"
    using assms by (simp add: distinct_map_sort_key pk_def sql_select_def distinct_map_filter)
  then show "distinct (map au_grant_id (fst (list_by_tenant t 5000 0 rows)))"
    by (simp add: list_by_tenant_def newest_page_def flip: take_map)
qed

lemma placed_root:
  "au_grant_id g \<noteq> [] \<Longrightarrow> au_delegation_depth g = 0 \<Longrightarrow> \<not> truthy (au_parent_authority_id g) \<Longrightarrow>
   placed rows g"
  by (simp add: placed_def)

lemma placed_child:
  assumes "lineage_ok rows" and "get_by_grant_id (au_tenant_id g) p rows = Some q"
    and "au_grant_id g \<noteq> []" and "au_parent_authority_id g = Some p"
    and "au_delegation_depth g = au_delegation_depth q + 1" and "au_delegation_depth q < 9"
    and "scope_within_parent (au_scope g) (au_scope q)"
    and "au_grantor_agent_id g = au_grantee_agent_id q" and "au_root_authority_id g = Some (root_of q)"
  shows "placed rows g"
proof -
  from get_by_grant_id_Some [OF assms(2)]
  have q: "q \<in> set rows" "au_tenant_id q = au_tenant_id g" "au_grant_id q = p" by auto
  with assms(1) have "placed rows q" by (simp add: lineage_ok_def list_all_iff)
  then have "au_grant_id q \<noteq> []" "0 \<le> au_delegation_depth q" by (simp_all add: placed_def)
  with q assms show ?thesis by (auto simp: placed_def scope_within_parent_def)
qed

lemma create_grant_cases:
  assumes "fresh_id gid rows"
  obtains (refused) e where "create_grant now gid t body agents rows = (Inl e, rows)"
  | (granted) g depth root_id where "create_grant now gid t body agents rows = (Inr g, rows @ [g])"
      and "grant_place now t body rows = Inr (depth, root_id)"
      and "g = create_authority now gid t (rq_grantor_agent_id body) (rq_grantee_agent_id body)
        (rq_scope body) (rq_resource body) (rq_conditions body) (rq_expires_at body)
        (rq_parent_authority_id body) root_id depth []"
proof (cases "grant_place now t body rows")
  case (Inl e)
  then show ?thesis by (intro refused) (simp add: create_grant_def)
next
  case (Inr place)
  obtain depth root_id where place: "place = (depth, root_id)" by fastforce
  let ?g = "create_authority now gid t (rq_grantor_agent_id body) (rq_grantee_agent_id body)
        (rq_scope body) (rq_resource body) (rq_conditions body) (rq_expires_at body)
        (rq_parent_authority_id body) root_id depth []"
  have saved: "save_grant now ?g rows = (?g, rows @ [?g])"
    using assms by (intro save_grant_fresh) (auto simp: fresh_id_def create_authority_def)
  show ?thesis
  proof (cases "get_by_agent_id t (rq_grantor_agent_id body) agents = None \<or>
      get_by_agent_id t (rq_grantee_agent_id body) agents = None")
    case True
    with Inr place have "\<exists>e. create_grant now gid t body agents rows = (Inl e, rows)"
      by (auto simp: create_grant_def)
    then show ?thesis using refused by blast
  next
    case False
    with Inr place saved show ?thesis
      by (intro granted [of ?g depth root_id]) (auto simp: create_grant_def)
  qed
qed

lemma grant_place_placed:
  assumes "lineage_ok rows" and "grant_place now t body rows = Inr (depth, root_id)" and "gid \<noteq> []"
  shows "placed rows (create_authority now gid t (rq_grantor_agent_id body)
    (rq_grantee_agent_id body) (rq_scope body) (rq_resource body) (rq_conditions body)
    (rq_expires_at body) (rq_parent_authority_id body) root_id depth [])"
proof (cases "truthy (rq_parent_authority_id body)")
  case False
  with assms show ?thesis
    by (intro placed_root) (auto simp: create_authority_def grant_place_def split: if_splits)
next
  case True
  then obtain p where p: "rq_parent_authority_id body = Some p"
    by (cases "rq_parent_authority_id body") auto
  with True assms(2) obtain q where q: "get_by_grant_id t p rows = Some q"
    by (auto simp: grant_place_def split: option.splits)
  show ?thesis
    using assms True p q
    by (intro placed_child [of rows _ p q])
       (auto simp: create_authority_def grant_place_def not_less split: if_splits)
qed

lemma delegate_placed:
  assumes "lineage_ok rows" and "gid \<noteq> []"
    and "delegate_authority now 9 gid t p ge sc r cs ex md rows = Some (Inr g)"
  shows "au_grant_id g = gid \<and> placed rows g"
proof -
  from assms(3) obtain q where q: "get_by_grant_id t p rows = Some q"
    by (auto simp: delegate_authority_def split: option.splits)
  with assms(3) have depth: "au_delegation_depth q < 9" and scope: "scope_within_parent sc (au_scope q)"
    and g: "g = create_authority now gid t (au_grantee_agent_id q) ge sc r cs ex (Some p)
      (Some (root_of q)) (au_delegation_depth q + 1) md"
    by (auto simp: delegate_authority_def enforce_max_delegation_depth_def root_of_def
        split: if_splits option.splits bool.splits)
  from g assms(1,2) q depth scope show ?thesis
    by (auto simp: create_authority_def intro!: placed_child [of rows _ p q])
qed

lemma saved_fresh_ok:
  assumes "lineage_ok rows" and "fresh_id gid rows" and "au_grant_id g = gid" and "placed rows g"
  shows "lineage_ok (snd (save_grant now g rows))"
  using assms by (simp add: fresh_id_def save_grant_fresh lineage_ok_add)

lemma create_grant_ok:
  assumes "lineage_ok rows" and "fresh_id gid rows"
  shows "lineage_ok (snd (create_grant now gid t body agents rows))"
  using assms(2)
proof (cases rule: create_grant_cases [of gid rows now t body agents])
  case (refused e)
  with assms(1) show ?thesis by simp
next
  case (granted g depth root_id)
  have "placed rows g"
    using grant_place_placed [OF assms(1) granted(2)] granted(3) assms(2) by (simp add: fresh_id_def)
  moreover have "au_grant_id g = gid"
    by (simp add: granted(3) create_authority_def)
  ultimately show ?thesis
    using granted(1) assms by (simp add: lineage_ok_add fresh_id_def)
qed

lemma delegate_ok:
  assumes "lineage_ok rows" and "fresh_id gid rows"
    and "delegate_authority now 9 gid t p ge sc r cs ex md rows = Some (Inr g)"
  shows "lineage_ok (snd (save_grant now g rows))"
  using assms delegate_placed [OF assms(1) _ assms(3)] saved_fresh_ok [OF assms(1,2)]
  by (simp add: fresh_id_def)

lemma one_shot_ok:
  "lineage_ok rows \<Longrightarrow> fresh_id gid rows \<Longrightarrow>
   lineage_ok (snd (create_one_shot_authority now gid t gr ge sc r cs ex rows))"
  unfolding create_one_shot_authority_def Let_def snd_conv
  by (rule saved_fresh_ok) (simp_all add: placed_root fresh_id_def create_authority_def)

lemma jit_ok:
  "lineage_ok rows \<Longrightarrow> fresh_id gid rows \<Longrightarrow>
   lineage_ok (snd (save_grant now (create_jit_authority now gid t gr ge sc r ttl cs) rows))"
  by (rule saved_fresh_ok)
     (simp_all add: placed_root fresh_id_def create_authority_def create_jit_authority_def)

lemma revoke_core: "map core (snd (revoke_authority now t gid by_whom rows)) = map core rows"
  unfolding revoke_authority_def revoke_grant_def
  by (rule change_grant_core) (simp add: core_def)

lemma consume_core: "map core (snd (consume_one_shot now t gid rows)) = map core rows"
  unfolding consume_one_shot_def by (rule change_grant_core) (simp add: core_def)

lemma authority_step_ok: "authority_step agents rows rows' \<Longrightarrow> lineage_ok rows \<Longrightarrow> lineage_ok rows'"
proof (induction rule: authority_step.induct)
  case (expire rows now t)
  then show ?case
    using lineage_ok_frame expire_jit_grants_core unfolding lineage_ok_def by blast
qed (simp_all only: create_grant_ok delegate_ok one_shot_ok jit_ok
      lineage_ok_frame [OF revoke_core] lineage_ok_frame [OF consume_core])

lemma reachable_lineage_ok: "reachable_grants agents rows \<Longrightarrow> lineage_ok rows"
  by (induction rule: reachable_grants.induct) (simp add: lineage_ok_def, rule authority_step_ok)

section \<open>Walking up the lineage\<close>

lemma pk_same: "pk key rows \<Longrightarrow> a \<in> set rows \<Longrightarrow> b \<in> set rows \<Longrightarrow> key a = key b \<Longrightarrow> a = b"
  by (auto simp: pk_def distinct_map dest: inj_onD)

lemma get_by_grant_id_pk:
  assumes "pk au_grant_id rows" and "q \<in> set rows"
  shows "get_by_grant_id (au_tenant_id q) (au_grant_id q) rows = Some q"
proof (cases "get_by_grant_id (au_tenant_id q) (au_grant_id q) rows")
  case None
  with assms(2) show ?thesis
    by (auto simp: get_by_grant_id_def sql_select_def filter_empty_conv)
next
  case (Some r)
  with get_by_grant_id_Some [OF Some] pk_same [OF assms(1)] assms(2) show ?thesis by metis
qed

lemma parent_row:
  assumes "lineage_ok rows" and "g \<in> set rows" and "truthy (au_parent_authority_id g)"
  obtains q where "q \<in> set rows"
    and "get_by_grant_id (au_tenant_id g) (the (au_parent_authority_id g)) rows = Some q"
    and "au_tenant_id q = au_tenant_id g" and "au_delegation_depth g = au_delegation_depth q + 1"
    and "scope_rank (au_scope g) \<le> scope_rank (au_scope q)" and "0 \<le> au_delegation_depth q"
    and "root_of g = root_of q"
proof -
  from assms have "placed rows g" by (simp add: lineage_ok_def list_all_iff)
  with assms(3) obtain q where q: "q \<in> set rows" "au_parent_authority_id g = Some (au_grant_id q)"
      "au_tenant_id q = au_tenant_id g" "au_delegation_depth g = au_delegation_depth q + 1"
      "scope_rank (au_scope g) \<le> scope_rank (au_scope q)" "au_root_authority_id g = Some (root_of q)"
    by (auto simp: placed_def)
  from assms(1) q(1) have "placed rows q" by (simp add: lineage_ok_def list_all_iff)
  then have "0 \<le> au_delegation_depth q" "root_of q \<noteq> []"
    by (auto simp: placed_def root_of_def truthy_def split: option.splits)
  with q that [of q] get_by_grant_id_pk [of rows q] assms(1) show ?thesis
    by (auto simp: lineage_ok_def root_of_def)
qed

lemma no_parent_depth:
  "lineage_ok rows \<Longrightarrow> g \<in> set rows \<Longrightarrow> \<not> truthy (au_parent_authority_id g) \<Longrightarrow>
   au_delegation_depth g = 0"
  by (auto simp: lineage_ok_def list_all_iff placed_def)

lemma ancestors_walk_exact:
  assumes "lineage_ok rows" and "g \<in> set rows"
  shows "\<exists>as. ancestors_walk (au_tenant_id g) rows g = Some as \<and>
    length as = nat (au_delegation_depth g) \<and> root_of (last (g # as)) = root_of g \<and>
    (\<forall>a \<in> set as. a \<in> set rows \<and> au_tenant_id a = au_tenant_id g \<and>
       scope_rank (au_scope g) \<le> scope_rank (au_scope a))"
  using assms(2)
proof (induction "nat (au_delegation_depth g)" arbitrary: g rule: less_induct)
  case less
  show ?case
  proof (cases "truthy (au_parent_authority_id g)")
    case False
    then show ?thesis
      using no_parent_depth [OF assms(1) less.prems] by (simp add: ancestors_walk.simps)
  next
    case True
    with assms(1) less.prems obtain q where q: "q \<in> set rows"
        "get_by_grant_id (au_tenant_id g) (the (au_parent_authority_id g)) rows = Some q"
        "au_tenant_id q = au_tenant_id g" "au_delegation_depth g = au_delegation_depth q + 1"
        "scope_rank (au_scope g) \<le> scope_rank (au_scope q)" "0 \<le> au_delegation_depth q"
        "root_of g = root_of q"
      by (rule parent_row)
    then have "nat (au_delegation_depth q) < nat (au_delegation_depth g)" by simp
    from less.hyps [OF this q(1)] obtain as where walk: "ancestors_walk (au_tenant_id q) rows q = Some as"
        "length as = nat (au_delegation_depth q)" "root_of (last (q # as)) = root_of q"
        "\<forall>a \<in> set as. a \<in> set rows \<and> au_tenant_id a = au_tenant_id q \<and>
           scope_rank (au_scope q) \<le> scope_rank (au_scope a)"
      by blast
    have "ancestors_walk (au_tenant_id g) rows g = Some (q # as)"
      using True q walk(1) by (simp add: ancestors_walk.simps [of _ _ g])
    moreover have "length (q # as) = nat (au_delegation_depth g)"
      using q walk(2) by (simp add: Suc_nat_eq_nat_zadd1 add.commute)
    ultimately show ?thesis
      using q walk(3,4) by (intro exI [of _ "q # as"]) (auto intro: order_trans)
  qed
qed

text \<open>
  C17. Delegation only attenuates. In every table that the authority operations can build, walking
  from a grant to its root ends after exactly its delegation depth, which is at most nine; every
  ancestor belongs to the same tenant and has at least the scope of the grant; and the recorded root
  is that of the last ancestor.
\<close>

theorem delegation_attenuates:
  assumes "reachable_grants agents rows" and "g \<in> set rows"
  shows "au_delegation_depth g \<le> 9 \<and>
    (\<exists>as. ancestors_walk (au_tenant_id g) rows g = Some as \<and>
      length as = nat (au_delegation_depth g) \<and> root_of (last (g # as)) = root_of g \<and>
      (\<forall>a \<in> set as. a \<in> set rows \<and> au_tenant_id a = au_tenant_id g \<and>
         scope_rank (au_scope g) \<le> scope_rank (au_scope a)))"
proof -
  have "lineage_ok rows" using reachable_lineage_ok [OF assms(1)] .
  moreover from this have "placed rows g"
    using assms(2) by (simp add: lineage_ok_def list_all_iff)
  ultimately show ?thesis
    using ancestors_walk_exact assms(2) by (simp add: placed_def)
qed

lemma empty_id_absent: "lineage_ok rows \<Longrightarrow> get_by_grant_id t [] rows = None"
  using get_by_grant_id_Some [of t "[]" rows]
  by (cases "get_by_grant_id t [] rows") (auto simp: lineage_ok_def list_all_iff placed_def)

lemma walk_induct [consumes 2, case_names root child]:
  assumes "lineage_ok rows" and "g \<in> set rows"
    and "\<And>g. g \<in> set rows \<Longrightarrow>
      (au_parent_authority_id g = None \<or>
       get_by_grant_id (au_tenant_id g) (the (au_parent_authority_id g)) rows = None) \<Longrightarrow> P g"
    and "\<And>g q. g \<in> set rows \<Longrightarrow> au_parent_authority_id g \<noteq> None \<Longrightarrow>
      get_by_grant_id (au_tenant_id g) (the (au_parent_authority_id g)) rows = Some q \<Longrightarrow>
      au_tenant_id q = au_tenant_id g \<Longrightarrow> P q \<Longrightarrow> P g"
  shows "P g"
  using assms(2)
proof (induction "nat (au_delegation_depth g)" arbitrary: g rule: less_induct)
  case less
  show ?case
  proof (cases "truthy (au_parent_authority_id g)")
    case False
    then have "au_parent_authority_id g = None \<or> au_parent_authority_id g = Some []"
      by (cases "au_parent_authority_id g") auto
    then show ?thesis
      using assms(3) [OF less.prems] empty_id_absent [OF assms(1)] by auto
  next
    case True
    with assms(1) less.prems obtain q where q: "q \<in> set rows"
        "get_by_grant_id (au_tenant_id g) (the (au_parent_authority_id g)) rows = Some q"
        "au_tenant_id q = au_tenant_id g" "au_delegation_depth g = au_delegation_depth q + 1"
        "0 \<le> au_delegation_depth q"
      by (rule parent_row) blast
    with less.hyps [of q] have "P q" by simp
    moreover from True have "au_parent_authority_id g \<noteq> None"
      by (cases "au_parent_authority_id g") auto
    ultimately show ?thesis
      using assms(4) less.prems q(2,3) by blast
  qed
qed

lemma circular_walk_ends:
  "lineage_ok rows \<Longrightarrow> g \<in> set rows \<Longrightarrow> \<exists>b. circular_walk (au_tenant_id g) ge rows g = Some b"
proof (induction rule: walk_induct)
  case (root g)
  then show ?case by (subst circular_walk.simps) (auto split: option.split)
next
  case (child g q)
  then show ?case by (subst circular_walk.simps) auto
qed

lemma chain_walk_ends:
  "lineage_ok rows \<Longrightarrow> g \<in> set rows \<Longrightarrow> \<exists>c. chain_walk (au_tenant_id g) rows g = Some c"
proof (induction rule: walk_induct)
  case (root g)
  then show ?case by (subst chain_walk.simps) (auto split: option.split)
next
  case (child g q)
  then show ?case by (subst chain_walk.simps) auto
qed

text \<open>
  C40. The three operations that walk parent links always answer, with a result or an error, on
  every table the authority operations can build: delegation with its circularity check, the
  lineage report, and the chain report.
\<close>

theorem lineage_walks_end:
  assumes "reachable_grants agents rows"
  shows "(\<exists>r. delegate_authority now lim gid t p ge sc res cs ex md rows = Some r) \<and>
    (\<exists>r. get_lineage t gid rows = Some r) \<and> (\<exists>r. validate_chain_consistency t gid rows = Some r)"
proof -
  note ok = reachable_lineage_ok [OF assms]
  have circular: "\<exists>b. circular_walk t ge rows q = Some b" if "get_by_grant_id t p rows = Some q" for q
    using circular_walk_ends [OF ok] get_by_grant_id_Some [OF that] by blast
  have "\<exists>r. delegate_authority now lim gid t p ge sc res cs ex md rows = Some r"
  proof (cases "get_by_grant_id t p rows")
    case None
    then show ?thesis by (simp add: delegate_authority_def)
  next
    case (Some q)
    with circular obtain b where "circular_walk t ge rows q = Some b" by blast
    with Some show ?thesis
      by (cases b) (simp_all add: delegate_authority_def split: sum.split)
  qed
  moreover have "\<exists>r. get_lineage t gid rows = Some r"
  proof (cases "get_by_grant_id t gid rows")
    case (Some g)
    then obtain as where "ancestors_walk t rows g = Some as"
      using ancestors_walk_exact [OF ok] get_by_grant_id_Some [OF Some] by blast
    with Some show ?thesis by (simp add: get_lineage_def split_beta)
  qed (simp add: get_lineage_def)
  moreover have "\<exists>r. validate_chain_consistency t gid rows = Some r"
  proof (cases "get_by_grant_id t gid rows")
    case (Some g)
    then obtain c where "chain_walk t rows g = Some c"
      using chain_walk_ends [OF ok] get_by_grant_id_Some [OF Some] by blast
    with Some show ?thesis by (simp add: validate_chain_consistency_def)
  qed (simp add: validate_chain_consistency_def)
  ultimately show ?thesis by blast
qed

section \<open>One-shot authority\<close>

text \<open>The grant exists and is no longer active.\<close>

definition spent :: "string \<Rightarrow> grant_table \<Rightarrow> bool" where
  "spent gid rows \<longleftrightarrow> (\<exists>r \<in> set rows. au_grant_id r = gid \<and> au_status r \<noteq> AU_ACTIVE)"

lemma spent_update:
  assumes "\<And>g. au_grant_id (f g) = au_grant_id g" and "\<And>g. au_status (f g) \<noteq> AU_ACTIVE"
    and "spent gid rows"
  shows "spent gid (sql_update w f rows)"
proof -
  from assms(3) obtain r where r: "r \<in> set rows" "au_grant_id r = gid" "au_status r \<noteq> AU_ACTIVE"
    by (auto simp: spent_def)
  then have "(if w r then f r else r) \<in> set (sql_update w f rows)"
    by (auto simp: sql_update_def)
  with r assms(1,2) show ?thesis unfolding spent_def by (metis (full_types))
qed

lemma spent_change:
  "(\<And>g. au_grant_id (f g) = au_grant_id g) \<Longrightarrow> (\<And>g. au_status (f g) \<noteq> AU_ACTIVE) \<Longrightarrow>
   spent gid rows \<Longrightarrow> spent gid (snd (change_grant t i w f rows))"
  by (simp add: change_grant_def Let_def spent_update split: option.split)

lemma spent_append: "spent gid rows \<Longrightarrow> spent gid (rows @ added)"
  by (auto simp: spent_def)

lemma spent_save:
  assumes "spent gid rows" and "au_status g \<noteq> AU_ACTIVE \<or> au_grant_id g \<notin> au_grant_id ` set rows"
  shows "spent gid (snd (save_grant now g rows))"
proof (cases "au_grant_id g \<in> au_grant_id ` set rows")
  case False
  then show ?thesis using assms(1) by (simp add: save_grant_fresh spent_append)
next
  case True
  with assms show ?thesis
    by (auto simp: save_grant_def spent_append overwrite_grant_def
        intro!: spent_update split: option.split)
qed

lemma spent_expire_loop: "spent gid rows \<Longrightarrow> spent gid (snd (expire_loop now gs rows))"
  by (induction now gs rows rule: expire_loop.induct) (auto simp: split_beta spent_save)

lemma create_grant_rows:
  "fresh_id gid rows \<Longrightarrow> \<exists>added. snd (create_grant now gid t body agents rows) = rows @ added"
  by (erule create_grant_cases [of gid rows now t body agents]) auto

lemma delegate_id:
  "delegate_authority now lim gid t p ge sc r cs ex md rows = Some (Inr g) \<Longrightarrow> au_grant_id g = gid"
  by (auto simp: delegate_authority_def create_authority_def
      split: option.splits if_splits sum.splits bool.splits)

lemma authority_step_spent: "authority_step agents rows rows' \<Longrightarrow> spent gid rows \<Longrightarrow> spent gid rows'"
proof (induction rule: authority_step.induct)
  case (create i rows now t body)
  then show ?case using create_grant_rows spent_append by metis
next
  case (delegate i rows now t p ge sc r cs ex md g)
  then show ?case using delegate_id [OF delegate(2)] by (simp add: fresh_id_def spent_save)
next
  case (one_shot i rows now t gr ge sc r cs ex)
  then show ?case
    by (simp add: create_one_shot_authority_def Let_def fresh_id_def spent_save
        create_authority_def)
next
  case (jit i rows now t gr ge sc r ttl cs)
  then show ?case
    by (simp add: create_jit_authority_def fresh_id_def spent_save create_authority_def)
next
  case (revoke rows now t i by_whom)
  then show ?case by (simp add: revoke_authority_def revoke_grant_def spent_change)
next
  case (consume rows now t i)
  then show ?case by (simp add: consume_one_shot_def spent_change)
next
  case (expire rows now t)
  then show ?case by (simp add: expire_jit_grants_def spent_expire_loop)
qed

lemma spent_not_consumable:
  assumes "pk au_grant_id rows" and "spent gid rows"
  shows "fst (consume_one_shot now t gid rows) = None"
proof -
  from assms(2) obtain r where r: "r \<in> set rows" "au_grant_id r = gid" "au_status r \<noteq> AU_ACTIVE"
    by (auto simp: spent_def)
  have "\<not> (au_grant_id g = gid \<and> consumable now g)" if "g \<in> set rows" for g
    using pk_same [OF assms(1) that r(1)] r by (auto simp: consumable_def)
  then have "sql_select (\<lambda>g. au_tenant_id g = t \<and> au_grant_id g = gid \<and> consumable now g) rows = []"
    by (auto simp: sql_select_def filter_empty_conv)
  then show ?thesis by (simp add: consume_one_shot_def change_grant_def)
qed

lemma consume_spends:
  assumes "consume_one_shot now t gid rows = (Some g, rows')"
  shows "spent gid rows'"
proof -
  from assms obtain m where m: "m \<in> set rows" "au_tenant_id m = t" "au_grant_id m = gid" "consumable now m"
    and rows': "rows' = snd (consume_one_shot now t gid rows)"
    by (auto simp: consume_one_shot_def change_grant_def Let_def dest!: sql_first_select
        split: option.splits)
  let ?f = "\<lambda>g. g\<lparr>au_status := AU_ONE_SHOT_USED, au_usage_count := 1, au_jit_consumed_at := Some now,
             au_updated_at := now\<rparr>"
  have "?f m \<in> set rows'"
    using m assms
    by (auto simp: consume_one_shot_def change_grant_def Let_def sql_update_def image_iff
        split: option.splits intro!: bexI [of _ m])
  with m show ?thesis unfolding spent_def by (intro bexI [of _ "?f m"]) auto
qed

text \<open>
  C18. A one-shot grant is consumed at most once: after a successful consumption, whatever sequence
  of authority operations follows, every later attempt to consume the grant, by any tenant and at
  any time, finds nothing.
\<close>

theorem one_shot_consumed_once:
  assumes "reachable_grants agents rows" and "consume_one_shot now t gid rows = (Some g, rows1)"
    and "(authority_step agents)\<^sup>*\<^sup>* rows1 rows2"
  shows "fst (consume_one_shot now' t' gid rows2) = None"
proof -
  have "authority_step agents rows rows1"
    using authority_step.consume [of agents rows now t gid] assms(2) by simp
  then have "reachable_grants agents rows1"
    using assms(1) reachable_grants.step by blast
  with assms(3) have "reachable_grants agents rows2 \<and> spent gid rows2"
  proof (induction rule: rtranclp_induct)
    case base
    with consume_spends [OF assms(2)] show ?case by blast
  next
    case (step y z)
    then show ?case using reachable_grants.step authority_step_spent by blast
  qed
  then show ?thesis
    using spent_not_consumable reachable_lineage_ok unfolding lineage_ok_def by blast
qed

section \<open>Revocation and the route\<close>

text \<open>
  Revocation does not cascade: revoking a grant leaves every other grant as it was, so the
  authority delegated from it stays active and is still found for its holder.
\<close>

theorem revocation_does_not_cascade:
  assumes "h \<in> set (get_active_for_agent now' t' agent_id resource rows)"
    and "au_grant_id h \<noteq> gid"
  shows "h \<in> set (get_active_for_agent now' t' agent_id resource
    (snd (revoke_authority now t gid by_whom rows)))"
proof -
  from assms have "h \<in> set (snd (revoke_authority now t gid by_whom rows))"
    by (force simp: get_active_for_agent_def sql_select_def revoke_authority_def revoke_grant_def
        change_grant_def Let_def sql_update_def split: option.split)
  with assms(1) show ?thesis
    by (simp add: get_active_for_agent_def sql_select_def)
qed

definition sample_agents :: "agent list" where
  "sample_agents =
     map (\<lambda>i. \<lparr>agt_agent_id = i, agt_tenant_id = ''acme'', agt_status = AG_ACTIVE,
            agt_risk_classification = RC_LOW\<rparr>) [''a'', ''b'', ''c'']"

definition sample_request :: "string option \<Rightarrow> string \<Rightarrow> string \<Rightarrow> grant_request" where
  "sample_request parent grantor grantee =
     \<lparr>rq_grantor_agent_id = grantor, rq_grantee_agent_id = grantee, rq_scope = SC_WRITE,
      rq_resource = ''orders'', rq_conditions = [], rq_expires_at = Some (Aware 1000),
      rq_delegation_depth = 0, rq_parent_authority_id = parent\<rparr>"

definition sample_root :: authority_grant where
  "sample_root = create_authority 10 ''g1'' ''acme'' ''a'' ''b'' SC_WRITE ''orders'' []
     (Some (Aware 1000)) None None 0 []"

definition sample_child :: authority_grant where
  "sample_child = create_authority 20 ''g2'' ''acme'' ''b'' ''c'' SC_WRITE ''orders'' []
     (Some (Aware 1000)) (Some ''g1'') (Some ''g1'') 1 []"

lemmas authority_run_simps =
  create_grant_def grant_place_def save_grant_def get_by_agent_id_def get_by_grant_id_def
  sql_select_def scope_within_parent_def root_of_def sample_agents_def sample_request_def
  sample_root_def sample_child_def create_authority_def Let_def

lemma sample_reachable: "reachable_grants sample_agents [sample_root, sample_child]"
proof -
  have root: "snd (create_grant 10 ''g1'' ''acme'' (sample_request None ''a'' ''b'') sample_agents []) =
      [sample_root]"
    by (simp add: authority_run_simps)
  have child: "snd (create_grant 20 ''g2'' ''acme'' (sample_request (Some ''g1'') ''b'' ''c'')
      sample_agents [sample_root]) = [sample_root, sample_child]"
    by (simp add: authority_run_simps)
  have "authority_step sample_agents [] [sample_root]"
    by (subst root [symmetric]) (rule authority_step.create, simp add: fresh_id_def)
  moreover have "authority_step sample_agents [sample_root] [sample_root, sample_child]"
    by (subst child [symmetric])
       (rule authority_step.create, simp add: fresh_id_def sample_root_def create_authority_def)
  ultimately show ?thesis
    using reachable_grants.none reachable_grants.step by blast
qed

theorem delegation_attenuates_witness:
  "\<exists>as. ancestors_walk ''acme'' [sample_root, sample_child] sample_child = Some as \<and> length as = 1"
  using delegation_attenuates [OF sample_reachable, of sample_child]
  by (auto simp: sample_child_def create_authority_def)

theorem lineage_walks_end_witness:
  "\<exists>r. get_lineage ''acme'' ''g2'' [sample_root, sample_child] = Some r"
  using lineage_walks_end [OF sample_reachable] by blast

theorem revocation_does_not_cascade_witness:
  "sample_child \<in> set (get_active_for_agent 50 ''acme'' ''c'' None
     (snd (revoke_authority 40 ''acme'' ''g1'' ''admin'' [sample_root, sample_child])))"
  by (rule revocation_does_not_cascade)
     (simp_all add: get_active_for_agent_def authority_run_simps)

definition sample_one_shot :: authority_grant where
  "sample_one_shot = sample_root\<lparr>au_one_shot := True\<rparr>"

theorem one_shot_consumed_once_witness:
  "fst (consume_one_shot 60 ''acme'' ''g1''
     (snd (consume_one_shot 50 ''acme'' ''g1'' [sample_one_shot]))) = None"
proof -
  have built: "snd (create_one_shot_authority 10 ''g1'' ''acme'' ''a'' ''b'' SC_WRITE ''orders'' []
      (Some (Aware 1000)) []) = [sample_one_shot]"
    by (simp add: create_one_shot_authority_def sample_one_shot_def authority_run_simps)
  have "authority_step sample_agents [] [sample_one_shot]"
    by (subst built [symmetric]) (rule authority_step.one_shot, simp add: fresh_id_def)
  then have reach: "reachable_grants sample_agents [sample_one_shot]"
    using reachable_grants.none reachable_grants.step by blast
  obtain g rows1 where "consume_one_shot 50 ''acme'' ''g1'' [sample_one_shot] = (Some g, rows1)"
    by (simp add: consume_one_shot_def change_grant_def consumable_def sample_one_shot_def
        authority_run_simps)
  with one_shot_consumed_once [OF reach this rtranclp.rtrancl_refl] show ?thesis by simp
qed

text \<open>
  The route that creates grants does not repeat the service's checks on the parent: a
  just-in-time grant, which \<open>delegate_authority\<close> refuses to delegate, is delegated by
  \<open>create_grant\<close>.
\<close>

theorem route_delegates_jit_authority:
  "delegate_authority 20 9 ''g2'' ''acme'' ''g1'' ''c'' SC_WRITE ''orders'' [] None []
     [create_jit_authority 10 ''g1'' ''acme'' ''a'' ''b'' SC_WRITE ''orders'' 300 []] =
     Some (Inl (ValueError ''JIT authority cannot be delegated'')) \<and>
   length (snd (create_grant 20 ''g2'' ''acme'' (sample_request (Some ''g1'') ''b'' ''c'')
     sample_agents [create_jit_authority 10 ''g1'' ''acme'' ''a'' ''b'' SC_WRITE ''orders'' 300 []])) = 2"
  by (simp add: delegate_authority_def create_jit_authority_def seconds_def authority_run_simps)

end
