(* ===== verification/Policy_Engine.thy ===== *)
theory Policy_Engine
  imports Complex_Main Risk_Engine
begin

text \<open>
  The versioned policy store (\<open>app/domain/services/policy_store.py\<close>), the rules
  (\<open>app/domain/value_objects/policy_rule.py\<close>) and the central policy engine
  (\<open>app/domain/services/central_policy_engine.py\<close>).

  The policy document is a record of its keys, \<open>None\<close> for an absent key. Where the parser coerces a
  value (\<open>str\<close>, \<open>float\<close>) the record holds the coerced one; \<open>int(raw["priority"])\<close>, which can raise, is
  a result. Confidence and risk are the real numbers their floats denote, which are only compared.

  Shown: the store only ever holds rules with a known effect, so an evaluation always returns a
  decision; the first rule of highest priority decides; a simulation reports what an evaluation
  returns; and rolling back restores the earlier decisions.
\<close>

section \<open>Rules\<close>

datatype str_or_list = OneStr string | StrList "string list"

record policy_match =
  pm_tool :: "str_or_list option"
  pm_action :: "str_or_list option"
  pm_resource :: "str_or_list option"
  pm_agent_id :: "str_or_list option"
  pm_user_id :: "str_or_list option"
  pm_tenant_id :: "str_or_list option"
  pm_service_id :: "str_or_list option"

definition empty_match :: policy_match where
  "empty_match =
     \<lparr>pm_tool = None, pm_action = None, pm_resource = None, pm_agent_id = None, pm_user_id = None,
      pm_tenant_id = None, pm_service_id = None\<rparr>"

record policy_conditions =
  pc_min_confidence :: "real option"
  pc_max_risk_score :: "real option"

record policy_rule =
  pr_id :: string
  pr_version :: string
  pr_effect :: string
  pr_description :: string
  pr_match :: policy_match
  pr_conditions :: "policy_conditions option"
  pr_priority :: int

record policy_set =
  pset_version :: string
  pset_default_effect :: string
  pset_rules :: "policy_rule list"
  pset_loaded_at :: datetime

section \<open>Documents and their parser\<close>

record raw_rule =
  raw_id :: "string option"
  raw_version :: "string option"
  raw_effect :: "string option"
  raw_description :: "string option"
  raw_priority :: "(py_error + int) option"
  raw_match :: "policy_match option"
  raw_conditions :: "policy_conditions option"

text \<open>The value of \<open>rules\<close>: absent, a list (with \<open>None\<close> for an entry that is no mapping), or else.\<close>

datatype raw_rules = RulesMissing | RulesList "raw_rule option list" | RulesOther

record policy_document =
  pd_policy_version :: "string option"
  pd_default_effect :: "string option"
  pd_rules :: raw_rules

definition get_str :: "string \<Rightarrow> string option \<Rightarrow> string" where
  "get_str d x = (case x of None \<Rightarrow> d | Some v \<Rightarrow> v)"

definition known_effect :: "string \<Rightarrow> bool" where
  "known_effect e \<longleftrightarrow> e \<in> {''allow'', ''deny'', ''require_hitl''}"

definition parse_rule :: "raw_rule \<Rightarrow> py_error + policy_rule" where
  "parse_rule raw =
     (let rule_id = get_str [] (raw_id raw); effect = lower (get_str ''allow'' (raw_effect raw))
      in if rule_id = [] then Inl (ValueError ''Rule missing id'')
         else if \<not> known_effect effect then Inl (ValueError (''Invalid effect for rule '' @ rule_id))
         else (case (case raw_priority raw of None \<Rightarrow> Inr 0 | Some p \<Rightarrow> p) of
                 Inl e \<Rightarrow> Inl e
               | Inr priority \<Rightarrow>
                   Inr \<lparr>pr_id = rule_id, pr_version = get_str ''1'' (raw_version raw),
                        pr_effect = effect, pr_description = get_str [] (raw_description raw),
                        pr_match = (case raw_match raw of None \<Rightarrow> empty_match | Some m \<Rightarrow> m),
                        pr_conditions = raw_conditions raw, pr_priority = priority\<rparr>))"

fun parse_rules :: "raw_rule option list \<Rightarrow> py_error + policy_rule list" where
  "parse_rules [] = Inr []"
| "parse_rules (None # raws) = Inl (ValueError ''Invalid rule'')"
| "parse_rules (Some raw # raws) =
     (case parse_rule raw of
        Inl e \<Rightarrow> Inl e
      | Inr r \<Rightarrow> (case parse_rules raws of Inl e \<Rightarrow> Inl e | Inr rs \<Rightarrow> Inr (r # rs)))"

section \<open>The store\<close>

record policy_store =
  sto_versions :: "string \<rightharpoonup> policy_set"
  sto_active_version :: "string option"

definition new_store :: policy_store where
  "new_store = \<lparr>sto_versions = Map.empty, sto_active_version = None\<rparr>"

definition load :: "datetime \<Rightarrow> string \<Rightarrow> policy_document \<Rightarrow> policy_store \<Rightarrow> py_error + policy_store" where
  "load now version data st =
     (if pd_policy_version data = None then Inl (ValueError ''Missing policy_version'')
      else
        (let default_effect = lower (get_str ''allow'' (pd_default_effect data))
         in if \<not> known_effect default_effect then Inl (ValueError ''Invalid default_effect'')
            else (case pd_rules data of
                    RulesOther \<Rightarrow> Inl (ValueError ''rules must be a list'')
                  | _ \<Rightarrow>
                      (case parse_rules (case pd_rules data of RulesList raws \<Rightarrow> raws | _ \<Rightarrow> []) of
                         Inl e \<Rightarrow> Inl e
                       | Inr rules \<Rightarrow>
                           Inr (st\<lparr>sto_versions := (sto_versions st)(version \<mapsto>
                                     \<lparr>pset_version = version, pset_default_effect = default_effect,
                                      pset_rules = rules, pset_loaded_at = now\<rparr>),
                                   sto_active_version := Some version\<rparr>)))))"

definition activate :: "string \<Rightarrow> policy_store \<Rightarrow> py_error + policy_store" where
  "activate version st =
     (if sto_versions st version = None then Inl (ValueError (''Unknown policy version: '' @ version))
      else Inr (st\<lparr>sto_active_version := Some version\<rparr>))"

definition rollback :: "string \<Rightarrow> policy_store \<Rightarrow> py_error + policy_store" where
  "rollback version st = activate version st"

definition get_active :: "policy_store \<Rightarrow> policy_set option" where
  "get_active st =
     (case sto_active_version st of None \<Rightarrow> None | Some v \<Rightarrow> sto_versions st v)"

definition get_version :: "string \<Rightarrow> policy_store \<Rightarrow> policy_set option" where
  "get_version version st = sto_versions st version"

section \<open>The engine\<close>

text \<open>The store's version is \<open>str(data.get("policy_version", "1"))\<close>.\<close>

definition load_policy :: "datetime \<Rightarrow> policy_document \<Rightarrow> policy_store \<Rightarrow> py_error + policy_store" where
  "load_policy now data st = load now (get_str ''1'' (pd_policy_version data)) data st"

definition value_matches :: "str_or_list option \<Rightarrow> string option \<Rightarrow> bool" where
  "value_matches expected actual =
     (case (expected, actual) of
        (Some (OneStr e), Some a) \<Rightarrow> e = a
      | (Some (StrList es), Some a) \<Rightarrow> a \<in> set es
      | _ \<Rightarrow> False)"

text \<open>One criterion: an absent one does not restrict.\<close>

definition criterion :: "str_or_list option \<Rightarrow> string option \<Rightarrow> bool" where
  "criterion expected actual \<longleftrightarrow> expected = None \<or> value_matches expected actual"

definition matches :: "policy_match \<Rightarrow> authorization_context \<Rightarrow> bool" where
  "matches m c \<longleftrightarrow>
     criterion (pm_tool m) (Some (cx_proposed_tool c)) \<and>
     criterion (pm_action m) (Some (cx_action c)) \<and>
     criterion (pm_resource m) (Some (cx_resource c)) \<and>
     criterion (pm_agent_id m) (Some (cx_agent_id c)) \<and>
     criterion (pm_user_id m) (Some (get_str ''None'' (cx_user_id c))) \<and>
     criterion (pm_tenant_id m) (cx_tenant_id c) \<and>
     criterion (pm_service_id m) (cx_service_id c)"

definition conditions_met :: "policy_conditions option \<Rightarrow> real \<Rightarrow> real \<Rightarrow> bool" where
  "conditions_met conditions confidence risk_score =
     (case conditions of
        None \<Rightarrow> True
      | Some k \<Rightarrow>
          (case pc_min_confidence k of None \<Rightarrow> True | Some m \<Rightarrow> \<not> confidence < m) \<and>
          (case pc_max_risk_score k of None \<Rightarrow> True | Some m \<Rightarrow> \<not> risk_score > m))"

fun decision_of :: "string \<Rightarrow> py_error + authorization_decision" where
  "decision_of e =
     (if e = ''allow'' then Inr ALLOW
      else if e = ''deny'' then Inr DENY
      else if e = ''require_hitl'' then Inr REQUIRE_HITL
      else Inl (ValueError ''not a valid AuthorizationDecision''))"

fun decision_value :: "authorization_decision \<Rightarrow> string" where
  "decision_value ALLOW = ''allow''"
| "decision_value DENY = ''deny''"
| "decision_value REQUIRE_HITL = ''require_hitl''"

record policy_evaluation_result =
  pe_effect :: authorization_decision
  pe_rule_id :: "string option"
  pe_rule_version :: "string option"
  pe_reason :: string

definition matching_rules :: "policy_set \<Rightarrow> authorization_context \<Rightarrow> policy_rule list" where
  "matching_rules policy c = filter (\<lambda>r. matches (pr_match r) c) (pset_rules policy)"

definition applicable_rules ::
  "policy_set \<Rightarrow> authorization_context \<Rightarrow> real \<Rightarrow> real \<Rightarrow> policy_rule list" where
  "applicable_rules policy c confidence risk_score =
     filter (\<lambda>r. conditions_met (pr_conditions r) confidence risk_score) (matching_rules policy c)"

text \<open>\<open>sort(key=.., reverse=True)\<close> is stable: equal priorities keep the order of the document.\<close>

definition winner :: "policy_rule list \<Rightarrow> policy_rule" where
  "winner rules = hd (sort_key (\<lambda>r. - pr_priority r) rules)"

definition rule_reason :: "policy_rule \<Rightarrow> string" where
  "rule_reason r =
     (if pr_description r \<noteq> [] then pr_description r else ''Matched rule '' @ pr_id r)"

definition evaluate_policy ::
  "policy_store \<Rightarrow> authorization_context \<Rightarrow> real \<Rightarrow> real \<Rightarrow> py_error + policy_evaluation_result" where
  "evaluate_policy st c confidence risk_score =
     (case get_active st of
        None \<Rightarrow> Inr \<lparr>pe_effect = ALLOW, pe_rule_id = None, pe_rule_version = None,
                     pe_reason = ''No active policy; default allow''\<rparr>
      | Some policy \<Rightarrow>
          (let rules = applicable_rules policy c confidence risk_score
           in if rules = []
              then (case decision_of (pset_default_effect policy) of
                      Inl e \<Rightarrow> Inl e
                    | Inr d \<Rightarrow>
                        Inr \<lparr>pe_effect = d, pe_rule_id = None,
                             pe_rule_version = Some (pset_version policy),
                             pe_reason = ''Default policy ('' @ pset_version policy @ '')''\<rparr>)
              else
                (let w = winner rules
                 in case decision_of (pr_effect w) of
                      Inl e \<Rightarrow> Inl e
                    | Inr d \<Rightarrow>
                        Inr \<lparr>pe_effect = d, pe_rule_id = Some (pr_id w),
                             pe_rule_version = Some (pr_version w), pe_reason = rule_reason w\<rparr>)))"

record rule_details =
  rd_id :: string
  rd_version :: string
  rd_effect :: string
  rd_priority :: int
  rd_description :: string

record policy_simulation =
  si_effect :: string
  si_rule_id :: "string option"
  si_rule_version :: "string option"
  si_reason :: string
  si_matched_rules :: "rule_details list"
  si_policy_version :: "string option"

definition details_of :: "policy_rule \<Rightarrow> rule_details" where
  "details_of r =
     \<lparr>rd_id = pr_id r, rd_version = pr_version r, rd_effect = pr_effect r,
      rd_priority = pr_priority r, rd_description = pr_description r\<rparr>"

definition simulate_policy ::
  "policy_store \<Rightarrow> authorization_context \<Rightarrow> real \<Rightarrow> real \<Rightarrow> py_error + policy_simulation" where
  "simulate_policy st c confidence risk_score =
     (case get_active st of
        None \<Rightarrow> Inr \<lparr>si_effect = decision_value ALLOW, si_rule_id = None, si_rule_version = None,
                     si_reason = ''No active policy; default allow'', si_matched_rules = [],
                     si_policy_version = None\<rparr>
      | Some policy \<Rightarrow>
          (let rules = applicable_rules policy c confidence risk_score;
               matched = map details_of (matching_rules policy c)
           in if rules = []
              then (case decision_of (pset_default_effect policy) of
                      Inl e \<Rightarrow> Inl e
                    | Inr d \<Rightarrow>
                        Inr \<lparr>si_effect = decision_value d, si_rule_id = None,
                             si_rule_version = Some (pset_version policy),
                             si_reason = ''Default policy ('' @ pset_version policy @ '')'',
                             si_matched_rules = matched,
                             si_policy_version = Some (pset_version policy)\<rparr>)
              else
                (let w = winner rules
                 in case decision_of (pr_effect w) of
                      Inl e \<Rightarrow> Inl e
                    | Inr d \<Rightarrow>
                        Inr \<lparr>si_effect = decision_value d, si_rule_id = Some (pr_id w),
                             si_rule_version = Some (pr_version w), si_reason = rule_reason w,
                             si_matched_rules = matched,
                             si_policy_version = Some (pset_version policy)\<rparr>)))"

definition active_version :: "policy_store \<Rightarrow> string option" where
  "active_version st = sto_active_version st"

section \<open>Runs of the store\<close>

datatype store_call = Load datetime string policy_document | Activate string | Rollback string

fun store_result :: "store_call \<Rightarrow> policy_store \<Rightarrow> py_error + policy_store" where
  "store_result (Load now version data) st = load now version data st"
| "store_result (Activate version) st = activate version st"
| "store_result (Rollback version) st = rollback version st"

definition store_step :: "store_call \<Rightarrow> policy_store \<Rightarrow> policy_store" where
  "store_step call st = (case store_result call st of Inl e \<Rightarrow> st | Inr st' \<Rightarrow> st')"

inductive reachable_store :: "policy_store \<Rightarrow> bool" where
  start: "reachable_store new_store"
| step: "reachable_store st \<Longrightarrow> reachable_store (store_step call st)"

definition sound_set :: "policy_set \<Rightarrow> bool" where
  "sound_set p \<longleftrightarrow>
     known_effect (pset_default_effect p) \<and> list_all (\<lambda>r. known_effect (pr_effect r)) (pset_rules p)"

definition store_inv :: "policy_store \<Rightarrow> bool" where
  "store_inv st \<longleftrightarrow>
     (\<forall>v p. sto_versions st v = Some p \<longrightarrow> pset_version p = v \<and> sound_set p) \<and>
     (\<forall>v. sto_active_version st = Some v \<longrightarrow> sto_versions st v \<noteq> None)"

lemma parse_rule_sound: "parse_rule raw = Inr r \<Longrightarrow> known_effect (pr_effect r)"
  by (auto simp: parse_rule_def Let_def split: if_splits sum.splits)

lemma parse_rules_sound:
  "parse_rules raws = Inr rules \<Longrightarrow> list_all (\<lambda>r. known_effect (pr_effect r)) rules"
  by (induction raws arbitrary: rules rule: parse_rules.induct)
     (auto split: sum.splits dest: parse_rule_sound)

lemma load_Inr:
  assumes "load now version data st = Inr st'"
  obtains p where "st' = st\<lparr>sto_versions := (sto_versions st)(version \<mapsto> p),
      sto_active_version := Some version\<rparr>" and "pset_version p = version" and "sound_set p"
  using assms parse_rules_sound
  by (force simp: load_def sound_set_def Let_def split: if_splits raw_rules.splits sum.splits)

lemma activate_Inr:
  "activate version st = Inr st' \<longleftrightarrow>
   sto_versions st version \<noteq> None \<and> st' = st\<lparr>sto_active_version := Some version\<rparr>"
  by (auto simp: activate_def)

lemma store_result_inv:
  assumes "store_inv st" and "store_result call st = Inr st'"
  shows "store_inv st'"
proof (cases call)
  case (Load now version data)
  with assms(2) have "load now version data st = Inr st'" by simp
  then show ?thesis
    by (rule load_Inr) (use assms(1) in \<open>auto simp: store_inv_def split: if_splits\<close>)
qed (use assms in \<open>auto simp: store_inv_def rollback_def activate_Inr\<close>)

lemma reachable_store_inv: "reachable_store st \<Longrightarrow> store_inv st"
proof (induction rule: reachable_store.induct)
  case start
  then show ?case by (simp add: store_inv_def new_store_def)
next
  case (step st call)
  then show ?case
    by (auto simp: store_step_def split: sum.split dest: store_result_inv)
qed

lemma decision_of_known: "known_effect e \<Longrightarrow> \<exists>d. decision_of e = Inr d"
  by (auto simp: known_effect_def)

lemma get_active_sound: "store_inv st \<Longrightarrow> get_active st = Some p \<Longrightarrow> sound_set p"
  by (auto simp: get_active_def store_inv_def split: option.splits)

section \<open>The deciding rule\<close>

lemma hd_insort_key:
  "hd (insort_key f x ys) = (if ys = [] \<or> f x \<le> f (hd ys) then x else hd ys)"
  by (cases ys) auto

lemma winner_first_maximal:
  "rules \<noteq> [] \<Longrightarrow>
   \<exists>before after. rules = before @ winner rules # after \<and>
     (\<forall>x \<in> set before. pr_priority x < pr_priority (winner rules)) \<and>
     (\<forall>x \<in> set after. pr_priority x \<le> pr_priority (winner rules))"
proof (induction rules)
  case Nil
  then show ?case by simp
next
  case (Cons r rules)
  show ?case
  proof (cases "rules = []")
    case True
    then have "r # rules = [] @ winner (r # rules) # []"
      by (simp add: winner_def)
    then show ?thesis by (metis empty_iff empty_set)
  next
    case False
    with Cons.IH obtain before after where split: "rules = before @ winner rules # after"
      and lt: "\<forall>x \<in> set before. pr_priority x < pr_priority (winner rules)"
      and le: "\<forall>x \<in> set after. pr_priority x \<le> pr_priority (winner rules)"
      by blast
    have w: "winner (r # rules) =
        (if pr_priority (winner rules) \<le> pr_priority r then r else winner rules)"
      using False by (simp add: winner_def hd_insort_key)
         (metis length_0_conv length_sort)
    have bound: "\<forall>x \<in> set rules. pr_priority x \<le> pr_priority (winner rules)"
      by (subst split) (use lt le in auto)
    show ?thesis
    proof (cases "pr_priority (winner rules) \<le> pr_priority r")
      case True
      with w bound have "r # rules = [] @ winner (r # rules) # rules \<and>
          (\<forall>x \<in> set rules. pr_priority x \<le> pr_priority (winner (r # rules)))"
        by (auto intro: order_trans)
      then show ?thesis by (metis empty_iff empty_set)
    next
      case False
      with w split lt le have "r # rules = (r # before) @ winner (r # rules) # after \<and>
          (\<forall>x \<in> set (r # before). pr_priority x < pr_priority (winner (r # rules))) \<and>
          (\<forall>x \<in> set after. pr_priority x \<le> pr_priority (winner (r # rules)))"
        by auto
      then show ?thesis by blast
    qed
  qed
qed

lemma winner_in: "rules \<noteq> [] \<Longrightarrow> winner rules \<in> set rules"
  using winner_first_maximal [of rules] by (metis in_set_conv_decomp)

text \<open>
  After any sequence of loads, activations and rollbacks, refused ones included, the policy
  engine answers every context with a decision: the effects it turns into decisions were validated
  when the policy was loaded.
\<close>

theorem policy_evaluation_total:
  assumes "reachable_store st"
  shows "\<exists>res. evaluate_policy st c confidence risk_score = Inr res"
proof (cases "get_active st")
  case None
  then show ?thesis by (simp add: evaluate_policy_def)
next
  case (Some p)
  let ?rules = "applicable_rules p c confidence risk_score"
  have sound: "sound_set p"
    using get_active_sound [OF reachable_store_inv [OF assms] Some] .
  have "known_effect (pr_effect (winner ?rules))" if "?rules \<noteq> []"
  proof -
    have "winner ?rules \<in> set (pset_rules p)"
      using winner_in [OF that] by (auto simp: applicable_rules_def matching_rules_def)
    with sound show ?thesis by (auto simp: sound_set_def list_all_iff)
  qed
  then show ?thesis
    using Some sound decision_of_known
    by (fastforce simp: evaluate_policy_def Let_def sound_set_def simp del: decision_of.simps
        split: sum.split)
qed

text \<open>
  C39. The rule that decides is the first, in the order of the document, among the applicable rules
  of highest priority; without an applicable rule the default effect of the policy decides.
\<close>

theorem highest_priority_rule_decides:
  assumes "get_active st = Some policy"
    and "evaluate_policy st c confidence risk_score = Inr res"
  shows "applicable_rules policy c confidence risk_score = [] \<and> pe_rule_id res = None \<and>
      decision_of (pset_default_effect policy) = Inr (pe_effect res) \<or>
    (\<exists>before r after. applicable_rules policy c confidence risk_score = before @ r # after \<and>
      (\<forall>x \<in> set before. pr_priority x < pr_priority r) \<and>
      (\<forall>x \<in> set after. pr_priority x \<le> pr_priority r) \<and>
      pe_rule_id res = Some (pr_id r) \<and> decision_of (pr_effect r) = Inr (pe_effect res))"
proof (cases "applicable_rules policy c confidence risk_score = []")
  case True
  with assms show ?thesis
    by (auto simp: evaluate_policy_def simp del: decision_of.simps split: sum.splits)
next
  case False
  let ?w = "winner (applicable_rules policy c confidence risk_score)"
  from False assms have "pe_rule_id res = Some (pr_id ?w)" "decision_of (pr_effect ?w) = Inr (pe_effect res)"
    by (auto simp: evaluate_policy_def Let_def simp del: decision_of.simps split: sum.splits)
  with winner_first_maximal [OF False] show ?thesis by blast
qed

text \<open>
  A simulation reports exactly what an evaluation of the same context returns: effect, rule,
  version and reason, or the same error.
\<close>

theorem simulation_agrees_with_evaluation:
  "map_sum id (\<lambda>s. (si_effect s, si_rule_id s, si_rule_version s, si_reason s))
     (simulate_policy st c confidence risk_score) =
   map_sum id (\<lambda>e. (decision_value (pe_effect e), pe_rule_id e, pe_rule_version e, pe_reason e))
     (evaluate_policy st c confidence risk_score)"
  by (simp add: simulate_policy_def evaluate_policy_def Let_def del: decision_of.simps
      split: option.split sum.split)

section \<open>Rollback\<close>

fun loads_version :: "string \<Rightarrow> store_call \<Rightarrow> bool" where
  "loads_version v (Load now version data) \<longleftrightarrow> version = v"
| "loads_version v _ \<longleftrightarrow> False"

lemma store_step_keeps_version:
  assumes "\<not> loads_version v call"
  shows "sto_versions (store_step call st) v = sto_versions st v"
proof (cases "store_result call st")
  case (Inl e)
  then show ?thesis by (simp add: store_step_def)
next
  case (Inr st')
  have "sto_versions st' v = sto_versions st v"
  proof (cases call)
    case (Load now version data)
    with Inr have "load now version data st = Inr st'" by simp
    with assms Load show ?thesis by (elim load_Inr) auto
  qed (use Inr in \<open>auto simp: rollback_def activate_Inr\<close>)
  with Inr show ?thesis by (simp add: store_step_def)
qed

lemma run_keeps_version:
  "\<not> list_ex (loads_version v) calls \<Longrightarrow> sto_versions (fold store_step calls st) v = sto_versions st v"
  by (induction calls arbitrary: st) (auto simp: store_step_keeps_version)

lemma evaluate_policy_active:
  "get_active st = get_active st' \<Longrightarrow> evaluate_policy st = evaluate_policy st'"
  by (simp add: evaluate_policy_def fun_eq_iff)

text \<open>
  A rollback is exact: when a version was loaded, and later calls load, activate or roll back
  other versions only, rolling back to it succeeds and restores every decision it gave.
\<close>

theorem rollback_restores_decisions:
  assumes "load now v data st = Inr st1" and "\<not> list_ex (loads_version v) calls"
  shows "\<exists>st2. rollback v (fold store_step calls st1) = Inr st2 \<and>
    evaluate_policy st2 = evaluate_policy st1"
proof -
  from assms(1) obtain p where st1: "sto_versions st1 v = Some p" "sto_active_version st1 = Some v"
    by (elim load_Inr) auto
  let ?st = "fold store_step calls st1"
  have v: "sto_versions ?st v = Some p"
    using run_keeps_version [OF assms(2)] st1 by simp
  then have "rollback v ?st = Inr (?st\<lparr>sto_active_version := Some v\<rparr>)"
    by (simp add: rollback_def activate_Inr)
  moreover have "get_active (?st\<lparr>sto_active_version := Some v\<rparr>) = get_active st1"
    using v st1 by (simp add: get_active_def)
  ultimately show ?thesis using evaluate_policy_active by blast
qed

section \<open>A policy document\<close>

definition sample_rule :: "string \<Rightarrow> string \<Rightarrow> string \<Rightarrow> int \<Rightarrow> raw_rule" where
  "sample_rule name effect tool priority =
     \<lparr>raw_id = Some name, raw_version = None, raw_effect = Some effect, raw_description = None,
      raw_priority = Some (Inr priority), raw_match = Some (empty_match\<lparr>pm_tool := Some (OneStr tool)\<rparr>),
      raw_conditions = None\<rparr>"

definition sample_document :: "string \<Rightarrow> policy_document" where
  "sample_document version =
     \<lparr>pd_policy_version = Some version, pd_default_effect = Some ''deny'',
      pd_rules = RulesList [Some (sample_rule ''r1'' ''allow'' ''search'' 1),
                            Some (sample_rule ''r2'' ''deny'' ''search'' 5),
                            Some (sample_rule ''r3'' ''require_hitl'' ''search'' 5)]\<rparr>"

lemmas policy_run_simps =
  load_def get_str_def known_effect_def parse_rule_def sample_rule_def sample_document_def
  lower_def lower_char_def empty_match_def new_store_def get_active_def evaluate_policy_def
  applicable_rules_def matching_rules_def matches_def criterion_def value_matches_def
  conditions_met_def winner_def sample_context_def Let_def

definition sample_store :: policy_store where
  "sample_store = store_step (Load 5 ''7'' (sample_document ''7'')) new_store"

lemma sample_store_load: "load 5 ''7'' (sample_document ''7'') new_store = Inr sample_store"
  by (simp add: sample_store_def store_step_def policy_run_simps)

theorem policy_evaluation_total_witness:
  "\<exists>res. evaluate_policy sample_store sample_context 1 0 = Inr res"
  unfolding sample_store_def
  by (rule policy_evaluation_total) (intro reachable_store.intros)

theorem highest_priority_rule_decides_witness:
  "\<exists>policy res. get_active sample_store = Some policy \<and>
     evaluate_policy sample_store sample_context 1 0 = Inr res \<and> pe_rule_id res = Some ''r2'' \<and>
     length (applicable_rules policy sample_context 1 0) = 3"
proof -
  obtain policy where policy: "get_active sample_store = Some policy"
    by (simp add: sample_store_def store_step_def policy_run_simps)
  obtain res where res: "evaluate_policy sample_store sample_context 1 0 = Inr res"
      "pe_rule_id res = Some ''r2''"
    by (simp add: sample_store_def store_step_def policy_run_simps)
  have "length (applicable_rules policy sample_context 1 0) = 3"
    using policy by (auto simp: sample_store_def store_step_def policy_run_simps)
  with policy res highest_priority_rule_decides [OF policy res(1)] show ?thesis by blast
qed

theorem rollback_restores_decisions_witness:
  "\<exists>st2. rollback ''7'' (fold store_step [Load 9 ''8'' (sample_document ''8'')] sample_store) = Inr st2 \<and>
     evaluate_policy st2 = evaluate_policy sample_store"
  using rollback_restores_decisions [OF sample_store_load, of "[Load 9 ''8'' (sample_document ''8'')]"]
  by simp

end
