(* ===== verification/Action_Control.thy ===== *)
theory Action_Control
  imports Recovery_Types Authority_Properties Policy_Engine
begin

text \<open>
  The decision on a protected action: \<open>ActionControlService\<close>
  (\<open>app/domain/services/action_control_service.py\<close>), the SQL repository of protected actions
  (\<open>sqlalchemy_protected_action_repository.py\<close>) and the route \<open>POST /actions/{id}/evaluate\<close>
  (\<open>app/presentation/api/v1/routes/actions.py\<close>), which composes the authorization service, the
  authority grants, the policy engine and the risk engine.

  The route runs in one database transaction that any exception rolls back. \<open>isoformat\<close> and
  \<open>fromiso\<close> are \<open>datetime.isoformat\<close> and \<open>datetime.fromisoformat\<close>. The explanations that the
  service appends to a risk reason are left out.
\<close>

section \<open>The repository of protected actions\<close>

definition find_action :: "string \<Rightarrow> string \<Rightarrow> protected_action list \<Rightarrow> protected_action option" where
  "find_action tenant_id action_id rows =
     sql_first (sql_select (\<lambda>a. pa_tenant_id a = tenant_id \<and> pa_action_id a = action_id) rows)"

definition newest_actions ::
  "nat \<Rightarrow> nat \<Rightarrow> protected_action list \<Rightarrow> protected_action list \<times> nat" where
  "newest_actions limit offset found =
     (take limit (drop offset (sort_key (\<lambda>a. - pa_created_at a) found)), length found)"

definition list_actions_by_agent ::
  "string \<Rightarrow> string \<Rightarrow> nat \<Rightarrow> nat \<Rightarrow> protected_action list \<Rightarrow> protected_action list \<times> nat" where
  "list_actions_by_agent tenant_id agent_id limit offset rows =
     newest_actions limit offset
       (sql_select (\<lambda>a. pa_tenant_id a = tenant_id \<and> pa_agent_id a = agent_id) rows)"

definition list_actions_by_tenant ::
  "string \<Rightarrow> nat \<Rightarrow> nat \<Rightarrow> protected_action list \<Rightarrow> protected_action list \<times> nat" where
  "list_actions_by_tenant tenant_id limit offset rows =
     newest_actions limit offset (sql_select (\<lambda>a. pa_tenant_id a = tenant_id) rows)"

definition list_actions_by_correlation ::
  "string \<Rightarrow> string \<Rightarrow> nat \<Rightarrow> nat \<Rightarrow> protected_action list \<Rightarrow> protected_action list \<times> nat" where
  "list_actions_by_correlation tenant_id correlation_id limit offset rows =
     newest_actions limit offset
       (sql_select (\<lambda>a. pa_tenant_id a = tenant_id \<and> pa_correlation_id a = correlation_id) rows)"

definition overwrite_action :: "protected_action \<Rightarrow> protected_action \<Rightarrow> protected_action" where
  "overwrite_action action model =
     model\<lparr>pa_status := pa_status action, pa_decision_reason := pa_decision_reason action,
           pa_evaluated_at := pa_evaluated_at action, pa_executed_at := pa_executed_at action,
           pa_after_state_ref := pa_after_state_ref action,
           pa_before_state_snapshot := pa_before_state_snapshot action,
           pa_risk_score := pa_risk_score action\<rparr>"

definition save_action ::
  "protected_action \<Rightarrow> protected_action list \<Rightarrow> protected_action \<times> protected_action list" where
  "save_action action rows =
     (case sql_first (sql_select (\<lambda>a. pa_action_id a = pa_action_id action) rows) of
        None \<Rightarrow> (action, rows @ [action])
      | Some model \<Rightarrow>
          (overwrite_action action model,
           sql_update (\<lambda>a. pa_action_id a = pa_action_id action) (overwrite_action action) rows))"

definition with_action_status ::
  "datetime \<Rightarrow> action_status \<Rightarrow> string \<Rightarrow> protected_action \<Rightarrow> protected_action" where
  "with_action_status now status reason a =
     a\<lparr>pa_status := status,
       pa_decision_reason := (if reason \<noteq> [] then reason else pa_decision_reason a),
       pa_evaluated_at := (if status = AS_EVALUATING then Some now else pa_evaluated_at a),
       pa_executed_at := (if status = AS_EXECUTED then Some now else pa_executed_at a)\<rparr>"

definition update_action_status ::
  "datetime \<Rightarrow> string \<Rightarrow> string \<Rightarrow> action_status \<Rightarrow> string \<Rightarrow> protected_action list
     \<Rightarrow> protected_action option \<times> protected_action list" where
  "update_action_status now tenant_id action_id status reason rows =
     (case find_action tenant_id action_id rows of
        None \<Rightarrow> (None, rows)
      | Some model \<Rightarrow>
          (Some (with_action_status now status reason model),
           sql_update (\<lambda>a. pa_tenant_id a = tenant_id \<and> pa_action_id a = action_id)
             (with_action_status now status reason) rows))"

text \<open>\<open>after_state_snapshot\<close> is a column that the entity does not carry.\<close>

definition with_execution_result ::
  "datetime \<Rightarrow> string option \<Rightarrow> action_status option \<Rightarrow> string option \<Rightarrow> protected_action
     \<Rightarrow> protected_action" where
  "with_execution_result now after_state_ref status decision_reason a =
     a\<lparr>pa_after_state_ref := (if after_state_ref \<noteq> None then after_state_ref
                             else pa_after_state_ref a),
       pa_status := (case status of None \<Rightarrow> pa_status a | Some st \<Rightarrow> st),
       pa_executed_at := (if status = Some AS_EXECUTED then Some now else pa_executed_at a),
       pa_decision_reason := (case decision_reason of None \<Rightarrow> pa_decision_reason a | Some r \<Rightarrow> r)\<rparr>"

definition update_execution_result ::
  "datetime \<Rightarrow> string \<Rightarrow> string \<Rightarrow> string option \<Rightarrow> action_status option \<Rightarrow> string option
     \<Rightarrow> protected_action list \<Rightarrow> protected_action option \<times> protected_action list" where
  "update_execution_result now tenant_id action_id after_state_ref status decision_reason rows =
     (case find_action tenant_id action_id rows of
        None \<Rightarrow> (None, rows)
      | Some model \<Rightarrow>
          (Some (with_execution_result now after_state_ref status decision_reason model),
           sql_update (\<lambda>a. pa_tenant_id a = tenant_id \<and> pa_action_id a = action_id)
             (with_execution_result now after_state_ref status decision_reason) rows))"

section \<open>The control service\<close>

fun authority_loop ::
  "(string \<Rightarrow> stamp option) \<Rightarrow> datetime \<Rightarrow> grant list \<Rightarrow> py_error + authorization_decision" where
  "authority_loop fromiso now [] = Inr DENY"
| "authority_loop fromiso now (g # gs) =
     (case gr_expires_at g of
        NoExpiry \<Rightarrow> Inr ALLOW
      | ExpiryText t \<Rightarrow>
          if t = [] then Inr ALLOW
          else (case fromiso t of
                  None \<Rightarrow> authority_loop fromiso now gs
                | Some st \<Rightarrow>
                    (case stamp_before st now of
                       Inl e \<Rightarrow> Inl e
                     | Inr expired \<Rightarrow>
                         if expired then authority_loop fromiso now gs else Inr ALLOW))
      | ExpiryTime st \<Rightarrow>
          (case stamp_before st now of
             Inl e \<Rightarrow> Inl e
           | Inr expired \<Rightarrow> if expired then authority_loop fromiso now gs else Inr ALLOW))"

definition check_authority ::
  "(string \<Rightarrow> stamp option) \<Rightarrow> datetime \<Rightarrow> grant list \<Rightarrow> py_error + authorization_decision" where
  "check_authority fromiso now grants =
     (if grants = [] then Inr DENY else authority_loop fromiso now grants)"

definition control_check_tenant :: "az_settings \<Rightarrow> authorization_context \<Rightarrow> authorization_decision" where
  "control_check_tenant s c =
     (if \<not> st_require_tenant s then ALLOW
      else if \<not> truthy (cx_tenant_id c) then DENY else ALLOW)"

definition control_check_agent :: "authorization_context \<Rightarrow> authorization_decision" where
  "control_check_agent c = (if cx_agent_id c = [] then DENY else ALLOW)"

record action_verdict =
  av_decision :: authorization_decision
  av_reason :: string
  av_policy_version :: "string option"
  av_risk_score :: "int option"
  av_risk_signals :: "(string \<times> int) list"

definition verdict :: "authorization_decision \<Rightarrow> string \<Rightarrow> action_verdict" where
  "verdict d reason =
     \<lparr>av_decision = d, av_reason = reason, av_policy_version = None, av_risk_score = None,
      av_risk_signals = []\<rparr>"

definition risk_verdict :: "risk_result \<Rightarrow> action_verdict" where
  "risk_verdict res =
     (verdict (rr_decision res)
        (case rr_decision res of
           DENY \<Rightarrow> ''Risk evaluation denied''
         | REQUIRE_HITL \<Rightarrow> ''Risk evaluation requires approval''
         | ALLOW \<Rightarrow> ''Authorized''))
     \<lparr>av_risk_score := Some (rr_score res), av_risk_signals := rr_signals res\<rparr>"

text \<open>
  \<open>s\<close> are the process settings, which the service's own tenant check reads; \<open>s'\<close> those of the
  authorization service it was built with.
\<close>

definition evaluate_protected_action ::
  "az_settings \<Rightarrow> az_settings \<Rightarrow> policy_store \<Rightarrow> (string \<Rightarrow> stamp option) \<Rightarrow> datetime
     \<Rightarrow> authorization_context \<Rightarrow> grant list \<Rightarrow> recent_action list \<Rightarrow> history_item list
     \<Rightarrow> py_error + action_verdict" where
  "evaluate_protected_action s s' store fromiso now c grants actions history =
     (if control_check_tenant s c \<noteq> ALLOW
      then Inr (verdict (control_check_tenant s c) (tenant_reason c))
      else if control_check_agent c \<noteq> ALLOW
      then Inr (verdict (control_check_agent c) ''Missing agent identity'')
      else
        (case authorize s' fromiso now c of
           Inl e \<Rightarrow> Inl e
         | Inr (d, reason) \<Rightarrow>
             if d \<noteq> ALLOW then Inr (verdict d reason)
             else
               (case check_authority fromiso now grants of
                  Inl e \<Rightarrow> Inl e
                | Inr d \<Rightarrow>
                    if d \<noteq> ALLOW then Inr (verdict d ''Insufficient authority'')
                    else
                      (case evaluate_policy store c 1 0 of
                         Inl e \<Rightarrow> Inl e
                       | Inr p \<Rightarrow>
                           if pe_effect p \<noteq> ALLOW
                           then Inr ((verdict (pe_effect p) (pe_reason p))
                                     \<lparr>av_policy_version := pe_rule_version p\<rparr>)
                           else (case evaluate_risk fromiso now c history grants actions of
                                   Inl e \<Rightarrow> Inl e
                                 | Inr res \<Rightarrow> Inr (risk_verdict res))))))"

section \<open>The route\<close>

record current_user =
  us_id :: string
  us_tenant_id :: "string option"
  us_role :: "string option"

definition get_user_tenant_id :: "az_settings \<Rightarrow> current_user \<Rightarrow> py_error + string" where
  "get_user_tenant_id s u =
     (if \<not> truthy (us_tenant_id u)
      then (if \<not> st_require_tenant s then Inr []
            else Inl (HTTPException 403 ''Tenant assignment required for this operation.''))
      else Inr (the (us_tenant_id u)))"

definition route_context :: "current_user \<Rightarrow> protected_action \<Rightarrow> authorization_context" where
  "route_context u a =
     \<lparr>cx_user_id = Some (us_id u), cx_agent_id = pa_agent_id a, cx_proposed_tool = pa_tool a,
      cx_tenant_id = Some (pa_tenant_id a), cx_action = pa_action_type a,
      cx_resource = pa_resource a, cx_service_id = None, cx_user_role = us_role u,
      cx_authorized_at = None, cx_task_id = None, cx_parameter_hash = None,
      cx_parameter_constraints = [], cx_environment = ENV_UNKNOWN, cx_agent_history = [],
      cx_dependency_state = [], cx_incident_state = [], cx_recovery_state = [],
      cx_authority_grants = [], cx_recent_actions = [], cx_require_task_scoping = False,
      cx_agent_history_required = False\<rparr>"

fun scope_value :: "authority_scope \<Rightarrow> string" where
  "scope_value SC_READ = ''read''"
| "scope_value SC_WRITE = ''write''"
| "scope_value SC_EXECUTE = ''execute''"
| "scope_value SC_ADMIN = ''admin''"
| "scope_value SC_CUSTOM = ''custom''"

fun authority_status_value :: "authority_status \<Rightarrow> string" where
  "authority_status_value AU_ACTIVE = ''active''"
| "authority_status_value AU_DELEGATED = ''delegated''"
| "authority_status_value AU_REVOKED = ''revoked''"
| "authority_status_value AU_EXPIRED = ''expired''"
| "authority_status_value AU_SUSPENDED = ''suspended''"
| "authority_status_value AU_JIT_EXPIRED = ''jit_expired''"
| "authority_status_value AU_ONE_SHOT_USED = ''one_shot_used''"

definition grant_dict :: "(stamp \<Rightarrow> string) \<Rightarrow> authority_grant \<Rightarrow> grant" where
  "grant_dict isoformat g =
     \<lparr>gr_grant_id = Some (au_grant_id g), gr_tenant_id = None,
      gr_scope = Some (scope_value (au_scope g)), gr_resource = Some (au_resource g),
      gr_status = Some (authority_status_value (au_status g)), gr_delegation_depth = None,
      gr_expires_at = (case au_expires_at g of
                         None \<Rightarrow> NoExpiry | Some st \<Rightarrow> ExpiryText (isoformat st))\<rparr>"

text \<open>The grant the action names, whatever its status; otherwise the agent's active grants.\<close>

definition route_grants :: "grant_table \<Rightarrow> protected_action \<Rightarrow> authority_grant list" where
  "route_grants grants a =
     (if truthy (pa_authority_grant_id a)
      then (case get_by_grant_id (pa_tenant_id a) (the (pa_authority_grant_id a)) grants of
              None \<Rightarrow> [] | Some g \<Rightarrow> [g])
      else filter (\<lambda>g. au_status g = AU_ACTIVE)
             (fst (list_by_grantee (pa_tenant_id a) (pa_agent_id a) None 100 0 grants)))"

definition final_status :: "authorization_decision \<Rightarrow> action_status" where
  "final_status d =
     (if d = REQUIRE_HITL then AS_REQUIRES_APPROVAL
      else if d = ALLOW then AS_PERMITTED else AS_DENIED)"

text \<open>The body of the route; the error of the middle component is rolled back by \<open>evaluate_action\<close>.\<close>

definition evaluate_body ::
  "az_settings \<Rightarrow> policy_store \<Rightarrow> (stamp \<Rightarrow> string) \<Rightarrow> (string \<Rightarrow> stamp option) \<Rightarrow> datetime
     \<Rightarrow> grant_table \<Rightarrow> current_user \<Rightarrow> string \<Rightarrow> protected_action list
     \<Rightarrow> py_error + (protected_action \<times> action_verdict) \<times> protected_action list" where
  "evaluate_body s store isoformat fromiso now grants u action_id rows =
     (case get_user_tenant_id s u of
        Inl e \<Rightarrow> Inl e
      | Inr tenant_id \<Rightarrow>
          (case find_action tenant_id action_id rows of
             None \<Rightarrow> Inl (HTTPException 404 ''Action not found'')
           | Some action \<Rightarrow>
               if pa_status action \<noteq> AS_PENDING then Inl (HTTPException 400 ''Action already decided'')
               else
                 (case update_action_status now tenant_id action_id AS_EVALUATING [] rows of
                    (None, _) \<Rightarrow> Inl (HTTPException 404 ''Action not found'')
                  | (Some a, rows1) \<Rightarrow>
                      (case evaluate_protected_action s s store fromiso now (route_context u a)
                              (map (grant_dict isoformat) (route_grants grants a)) [] [] of
                         Inl e \<Rightarrow> Inl e
                       | Inr res \<Rightarrow>
                           (case update_action_status now tenant_id action_id
                                   (final_status (av_decision res)) (av_reason res) rows1 of
                              (None, _) \<Rightarrow> Inl (HTTPException 404 ''Action not found'')
                            | (Some a', rows2) \<Rightarrow> Inr ((a', res), rows2))))))"

definition evaluate_action ::
  "az_settings \<Rightarrow> policy_store \<Rightarrow> (stamp \<Rightarrow> string) \<Rightarrow> (string \<Rightarrow> stamp option) \<Rightarrow> datetime
     \<Rightarrow> grant_table \<Rightarrow> current_user \<Rightarrow> string \<Rightarrow> protected_action list
     \<Rightarrow> (py_error + protected_action \<times> action_verdict) \<times> protected_action list" where
  "evaluate_action s store isoformat fromiso now grants u action_id rows =
     (case evaluate_body s store isoformat fromiso now grants u action_id rows of
        Inl e \<Rightarrow> (Inl e, rows)
      | Inr (answer, rows') \<Rightarrow> (Inr answer, rows'))"

section \<open>What a permission rests on\<close>

text \<open>A grant that \<open>_check_authority\<close> accepts: it has no expiry, or one that has not passed.\<close>

definition unexpired :: "(string \<Rightarrow> stamp option) \<Rightarrow> datetime \<Rightarrow> grant \<Rightarrow> bool" where
  "unexpired fromiso now g \<longleftrightarrow>
     (case grant_expiry fromiso g of
        None \<Rightarrow> gr_expires_at g = NoExpiry \<or> gr_expires_at g = ExpiryText []
      | Some (Naive t) \<Rightarrow> False
      | Some (Aware t) \<Rightarrow> now \<le> t)"

lemma authority_loop_step:
  "authority_loop fromiso now (g # gs) = Inr ALLOW \<Longrightarrow>
   unexpired fromiso now g \<or> authority_loop fromiso now gs = Inr ALLOW"
  by (cases "gr_expires_at g")
     (auto simp: unexpired_def grant_expiry_def not_less
        split: if_splits option.splits sum.splits stamp.splits elim!: stamp_before.elims)

lemma authority_loop_allow:
  "authority_loop fromiso now grants = Inr ALLOW \<Longrightarrow> list_ex (unexpired fromiso now) grants"
proof (induction grants)
  case Nil
  then show ?case by simp
next
  case (Cons g gs)
  with authority_loop_step [OF Cons.prems] show ?case by auto
qed

lemma check_authority_allow:
  "check_authority fromiso now grants = Inr ALLOW \<Longrightarrow> list_ex (unexpired fromiso now) grants"
  by (auto simp: check_authority_def authority_loop_allow split: if_splits)

lemma verdict_sel [simp]: "av_decision (verdict d r) = d"
  by (simp add: verdict_def)

lemma risk_verdict_sel [simp]: "av_decision (risk_verdict res) = rr_decision res"
  by (simp add: risk_verdict_def verdict_def)

text \<open>
  The control service permits an action only if every stage agrees: the authorization service
  allows the context, at least one of the authority grants has not expired, the active policy
  allows it, and the risk engine, on the same grants, sees a score of at most 0.5.
\<close>

theorem permission_needs_every_stage:
  assumes "evaluate_protected_action s s' store fromiso now c grants actions history = Inr res"
    and "av_decision res = ALLOW"
  shows "(\<exists>r. authorize s' fromiso now c = Inr (ALLOW, r)) \<and>
    list_ex (unexpired fromiso now) grants \<and>
    (\<exists>p. evaluate_policy store c 1 0 = Inr p \<and> pe_effect p = ALLOW) \<and>
    (\<exists>k. evaluate_risk fromiso now c history grants actions = Inr k \<and> rr_decision k = ALLOW \<and>
       rr_score k \<le> 500)"
proof -
  from assms obtain r where authz: "authorize s' fromiso now c = Inr (ALLOW, r)"
    by (auto simp: evaluate_protected_action_def split: if_splits sum.splits)
  with assms have auth: "check_authority fromiso now grants = Inr ALLOW"
    by (auto simp: evaluate_protected_action_def split: if_splits sum.splits)
  with authz assms obtain p where p: "evaluate_policy store c 1 0 = Inr p" "pe_effect p = ALLOW"
    by (auto simp: evaluate_protected_action_def split: if_splits sum.splits)
  with authz auth assms obtain k where k: "evaluate_risk fromiso now c history grants actions = Inr k"
      "rr_decision k = ALLOW"
    by (auto simp: evaluate_protected_action_def split: if_splits sum.splits)
  have "rr_score k \<le> 500"
    using k by (auto simp: evaluate_risk_def split: sum.splits dest: risk_decision_score(3))
  with authz check_authority_allow [OF auth] p k show ?thesis by blast
qed

lemma find_action_Some:
  "find_action t i rows = Some a \<Longrightarrow> a \<in> set rows \<and> pa_tenant_id a = t \<and> pa_action_id a = i"
  unfolding find_action_def by (drule sql_first_select) simp

lemma with_action_status_id [simp]:
  "pa_tenant_id (with_action_status now st r a) = pa_tenant_id a"
  "pa_action_id (with_action_status now st r a) = pa_action_id a"
  "pa_status (with_action_status now st r a) = st"
  by (simp_all add: with_action_status_def)

lemma sql_first_update:
  "(\<And>a. w (f a) = w a) \<Longrightarrow> sql_first (sql_select w (sql_update w f rows)) =
     map_option f (sql_first (sql_select w rows))"
  by (induction rows) (auto simp: sql_select_def sql_update_def)

lemma find_action_updated:
  "find_action t i (snd (update_action_status now t i st r rows)) =
     map_option (with_action_status now st r) (find_action t i rows)"
  by (simp add: update_action_status_def find_action_def sql_first_update split: option.split)

lemma sql_update_twice:
  "(\<And>a. w (f a) = w a) \<Longrightarrow> sql_update w g (sql_update w f rows) = sql_update w (g \<circ> f) rows"
  by (simp add: sql_update_def)

text \<open>The two updates of a successful evaluation.\<close>

definition decided ::
  "datetime \<Rightarrow> action_verdict \<Rightarrow> protected_action \<Rightarrow> protected_action" where
  "decided now res =
     with_action_status now (final_status (av_decision res)) (av_reason res) \<circ>
     with_action_status now AS_EVALUATING []"

lemma evaluate_body_Inr:
  assumes "evaluate_body s store isoformat fromiso now grants u action_id rows = Inr ((a, res), rows')"
  obtains t model where "get_user_tenant_id s u = Inr t" and "find_action t action_id rows = Some model"
    and "pa_status model = AS_PENDING" and "a = decided now res model"
    and "evaluate_protected_action s s store fromiso now (route_context u model)
      (map (grant_dict isoformat) (route_grants grants model)) [] [] = Inr res"
    and "rows' = sql_update (\<lambda>a. pa_tenant_id a = t \<and> pa_action_id a = action_id) (decided now res) rows"
proof -
  from assms obtain t where t: "get_user_tenant_id s u = Inr t"
    by (auto simp: evaluate_body_def split: sum.splits)
  with assms obtain model where model: "find_action t action_id rows = Some model"
    by (auto simp: evaluate_body_def split: option.splits)
  with t assms have pending: "pa_status model = AS_PENDING"
    by (auto simp: evaluate_body_def split: if_splits)
  let ?m = "with_action_status now AS_EVALUATING [] model"
  let ?w = "\<lambda>a. pa_tenant_id a = t \<and> pa_action_id a = action_id"
  obtain rows1 where first: "update_action_status now t action_id AS_EVALUATING [] rows = (Some ?m, rows1)"
      and rows1: "rows1 = sql_update ?w (with_action_status now AS_EVALUATING []) rows"
    using model by (simp add: update_action_status_def)
  have same: "route_context u ?m = route_context u model" "route_grants grants ?m = route_grants grants model"
    by (simp_all add: route_context_def route_grants_def with_action_status_def)
  have second: "find_action t action_id rows1 = Some ?m"
    using model find_action_updated [of t action_id now AS_EVALUATING "[]" rows] first by simp
  have again: "update_action_status now t action_id st r rows1 =
      (Some (with_action_status now st r ?m), sql_update ?w (with_action_status now st r) rows1)" for st r
    using second by (simp add: update_action_status_def)
  let ?ev = "evaluate_protected_action s s store fromiso now (route_context u model)
      (map (grant_dict isoformat) (route_grants grants model)) [] []"
  have run: "evaluate_body s store isoformat fromiso now grants u action_id rows =
      (case ?ev of
         Inl e \<Rightarrow> Inl e
       | Inr r \<Rightarrow>
           Inr ((with_action_status now (final_status (av_decision r)) (av_reason r) ?m, r),
             sql_update ?w (with_action_status now (final_status (av_decision r)) (av_reason r)) rows1))"
    by (simp only: evaluate_body_def t model sum.case option.case first prod.case same again pending
        simp_thms if_False)
  show ?thesis
  proof (cases ?ev)
    case (Inl e)
    with assms run show ?thesis by simp
  next
    case (Inr r)
    with assms run have "r = res" "a = decided now res model"
        "rows' = sql_update ?w (decided now res) rows"
      by (auto simp: decided_def rows1 sql_update_twice)
    with that [OF t model pending] Inr show ?thesis by blast
  qed
qed


text \<open>
  An evaluation either refuses, and then changes nothing at all (a failure in the middle is
  rolled back), or it moves one pending action to permitted, denied or requires-approval; a second
  evaluation of the same action is then refused.
\<close>

theorem evaluation_decides_once:
  assumes "evaluate_action s store isoformat fromiso now grants u action_id rows = (answer, rows')"
  shows "case answer of
      Inl e \<Rightarrow> rows' = rows
    | Inr (a, res) \<Rightarrow>
        pa_status a \<in> {AS_PERMITTED, AS_DENIED, AS_REQUIRES_APPROVAL} \<and>
        evaluate_action s store' isoformat' fromiso' now' grants' u action_id rows' =
          (Inl (HTTPException 400 ''Action already decided''), rows')"
proof (cases answer)
  case (Inl e)
  with assms show ?thesis
    by (auto simp: evaluate_action_def split: sum.splits)
next
  case (Inr ans)
  obtain a res where ans: "ans = (a, res)" by fastforce
  from assms Inr ans have "evaluate_body s store isoformat fromiso now grants u action_id rows =
      Inr ((a, res), rows')"
    by (auto simp: evaluate_action_def split: sum.splits)
  then obtain t model where t: "get_user_tenant_id s u = Inr t"
    and model: "find_action t action_id rows = Some model" and a: "a = decided now res model"
    and rows': "rows' = sql_update (\<lambda>a. pa_tenant_id a = t \<and> pa_action_id a = action_id)
      (decided now res) rows"
    by (rule evaluate_body_Inr)
  have final: "pa_status a \<in> {AS_PERMITTED, AS_DENIED, AS_REQUIRES_APPROVAL}"
    by (simp add: a decided_def final_status_def)
  have "find_action t action_id rows' = Some a"
    using model by (simp add: rows' a find_action_def sql_first_update decided_def)
  with t final have "evaluate_body s store' isoformat' fromiso' now' grants' u action_id rows' =
      Inl (HTTPException 400 ''Action already decided'')"
    by (auto simp: evaluate_body_def)
  with Inr ans final show ?thesis by (simp add: evaluate_action_def)
qed

section \<open>A run of the route\<close>

definition pending_action :: protected_action where
  "pending_action =
     \<lparr>pa_action_id = ''act-1'', pa_tenant_id = ''acme'', pa_actor_user_id = Some ''u-1'',
      pa_agent_id = ''agent-7'', pa_authority_grant_id = Some ''g1'', pa_tool = ''search'',
      pa_resource = ''orders/17'', pa_action_type = ''execute'', pa_risk_score = 0,
      pa_policy_version = None, pa_correlation_id = ''c-1'', pa_parent_action_id = None,
      pa_workflow_id = None, pa_reversibility = REVERSIBLE, pa_before_state_ref = None,
      pa_before_state_snapshot = None, pa_after_state_ref = None, pa_tool_arguments = [],
      pa_status = AS_PENDING, pa_decision_reason = [], pa_evaluated_at = None,
      pa_executed_at = None, pa_created_at = 0\<rparr>"

definition sample_user :: current_user where
  "sample_user = \<lparr>us_id = ''u-1'', us_tenant_id = Some ''acme'', us_role = Some ''operator''\<rparr>"

definition revoked_grant :: authority_grant where
  "revoked_grant = sample_root\<lparr>au_status := AU_REVOKED, au_revoked_at := Some 15\<rparr>"

lemmas route_simps =
  evaluate_action_def evaluate_body_def get_user_tenant_id_def find_action_def sql_select_def
  update_action_status_def sql_update_def with_action_status_def evaluate_protected_action_def
  control_check_tenant_def control_check_agent_def check_authority_def route_context_def
  route_grants_def grant_dict_def final_status_def verdict_def risk_verdict_def pending_action_def
  sample_user_def revoked_grant_def sample_root_def create_authority_def get_by_grant_id_def
  evaluate_policy_def get_active_def new_store_def authorize_run_simps tenant_reason_def

lemma sample_verdict:
  "evaluate_protected_action sample_settings sample_settings new_store (\<lambda>_. Some (Aware 1000)) 50
     (route_context sample_user pending_action) [grant_dict (\<lambda>_. ''t'') revoked_grant] [] [] =
   Inr (risk_verdict \<lparr>rr_score = 0, rr_decision = ALLOW, rr_signals = [], rr_timestamp = 50\<rparr>)"
  using sample_resource_matches by (simp add: route_simps)

theorem permission_needs_every_stage_witness:
  "\<exists>r. authorize sample_settings (\<lambda>_. Some (Aware 1000)) 50 (route_context sample_user pending_action) =
     Inr (ALLOW, r)"
  using permission_needs_every_stage [OF sample_verdict] by simp

lemma sample_evaluation:
  "evaluate_action sample_settings new_store (\<lambda>_. ''t'') (\<lambda>_. Some (Aware 1000)) 50 [revoked_grant]
     sample_user ''act-1'' [pending_action] =
   (Inr (pending_action\<lparr>pa_status := AS_PERMITTED, pa_decision_reason := ''Authorized'',
                        pa_evaluated_at := Some 50\<rparr>,
         risk_verdict \<lparr>rr_score = 0, rr_decision = ALLOW, rr_signals = [], rr_timestamp = 50\<rparr>),
    [pending_action\<lparr>pa_status := AS_PERMITTED, pa_decision_reason := ''Authorized'',
                    pa_evaluated_at := Some 50\<rparr>])"
  using sample_resource_matches by (simp add: route_simps)


theorem evaluation_decides_once_witness:
  "evaluate_action sample_settings new_store (\<lambda>_. ''t'') (\<lambda>_. None) 70 [] sample_user ''act-1''
     [pending_action\<lparr>pa_status := AS_PERMITTED, pa_decision_reason := ''Authorized'',
                     pa_evaluated_at := Some 50\<rparr>] =
   (Inl (HTTPException 400 ''Action already decided''),
    [pending_action\<lparr>pa_status := AS_PERMITTED, pa_decision_reason := ''Authorized'',
                    pa_evaluated_at := Some 50\<rparr>])"
  using evaluation_decides_once [OF sample_evaluation] by simp

text \<open>
  The authority check of the route looks at expiry only: an action that names a revoked grant,
  held by another agent and for another resource, is permitted on the strength of it.
\<close>

theorem revoked_grant_permits_action:
  "au_status revoked_grant = AU_REVOKED \<and>
   au_grantee_agent_id revoked_grant \<noteq> pa_agent_id pending_action \<and>
   au_resource revoked_grant \<noteq> pa_resource pending_action \<and>
   map pa_status (snd (evaluate_action sample_settings new_store (\<lambda>_. ''t'')
     (\<lambda>_. Some (Aware 1000)) 50 [revoked_grant] sample_user ''act-1'' [pending_action])) =
     [AS_PERMITTED]"
  unfolding sample_evaluation
  by (simp add: revoked_grant_def sample_root_def create_authority_def pending_action_def)

end
