(* ===== verification/Emergency_Control.thy ===== *)
theory Emergency_Control
  imports Authorization
begin

text \<open>
  \<open>EmergencyControlService\<close> (\<open>app/domain/services/emergency_control_service.py\<close>), its SQL repository
  (\<open>sqlalchemy_emergency_state_repository.py\<close>) and the guard at the execution boundaries
  (\<open>app/presentation/api/dependencies/emergency_guard.py\<close>).

  The state is the service object together with the table of its repository, \<open>None\<close> for a service
  built without one. The allow record survives its JSON encoding; the columns the service never sets
  are left out. Calls are atomic, so the flag \<open>_lock\<close> is only seen by a call that starts while it is
  set; it is part of the state all the same. A call reads the clock once, and the dash of the deny
  message is written in ASCII.

  Shown: an emergency deny blocks until it is deactivated, an emergency allow admits only what it
  lists, and a restarted service decides as the old one did. The last property shows how a restart
  followed by an emergency allow loses a deny.
\<close>

section \<open>State\<close>

record allow_record =
  al_tenant_id :: string
  al_activated_by :: string
  al_allowed_actions :: "string list"
  al_allowed_tools :: "string list"
  al_allowed_agents :: "string list"
  al_expires_at :: datetime
  al_approval_ids :: "string list"
  al_reason :: string
  al_activated_at :: datetime

datatype emergency_entry =
    DenyActivated string string string "string list" datetime
  | DenyDeactivated string string string bool datetime
  | AllowActivated allow_record
  | AllowDeactivated string string datetime datetime

record emergency_row =
  ew_emergency_deny_active :: bool
  ew_emergency_allow_active :: bool
  ew_allow_details :: "allow_record option"

record emergency_service =
  em_deny_active :: "string \<rightharpoonup> bool"
  em_allow_active :: "string \<rightharpoonup> allow_record"
  em_log :: "emergency_entry list"
  em_lock :: bool

type_synonym emergency_state = "emergency_service \<times> (string \<rightharpoonup> emergency_row) option"

definition new_emergency_service :: emergency_service where
  "new_emergency_service =
     \<lparr>em_deny_active = Map.empty, em_allow_active = Map.empty, em_log = [], em_lock = False\<rparr>"

section \<open>Loading and persisting\<close>

definition ensure_loaded :: "string \<Rightarrow> emergency_state \<Rightarrow> emergency_state" where
  "ensure_loaded t st =
     (let (sv, repo) = st
      in if em_deny_active sv t \<noteq> None \<or> em_allow_active sv t \<noteq> None then st
         else (case repo of
                 None \<Rightarrow> st
               | Some rows \<Rightarrow>
                   (case rows t of
                      None \<Rightarrow> st
                    | Some row \<Rightarrow>
                        (sv\<lparr>em_deny_active := (em_deny_active sv)(t \<mapsto> ew_emergency_deny_active row),
                            em_allow_active :=
                              (if ew_emergency_allow_active row \<and> ew_allow_details row \<noteq> None
                               then (em_allow_active sv)(t := ew_allow_details row)
                               else em_allow_active sv)\<rparr>, repo))))"

definition deny_flag :: "string \<Rightarrow> emergency_service \<Rightarrow> bool" where
  "deny_flag t sv = (case em_deny_active sv t of None \<Rightarrow> False | Some b \<Rightarrow> b)"

definition persist :: "string \<Rightarrow> emergency_state \<Rightarrow> emergency_state" where
  "persist t st =
     (let (sv, repo) = st
      in case repo of
           None \<Rightarrow> st
         | Some rows \<Rightarrow>
             (sv, Some (rows(t \<mapsto>
                \<lparr>ew_emergency_deny_active = deny_flag t sv,
                 ew_emergency_allow_active = (em_allow_active sv t \<noteq> None),
                 ew_allow_details = em_allow_active sv t\<rparr>))))"

definition log_entry :: "emergency_entry \<Rightarrow> emergency_state \<Rightarrow> emergency_state" where
  "log_entry e st = (let (sv, repo) = st in (sv\<lparr>em_log := em_log sv @ [e]\<rparr>, repo))"

section \<open>The operations\<close>

text \<open>The answers \<open>{"success": ..}\<close>: \<open>None\<close> for success, else the error text.\<close>

definition is_emergency_deny_active :: "string \<Rightarrow> emergency_state \<Rightarrow> bool \<times> emergency_state" where
  "is_emergency_deny_active t st = (let st1 = ensure_loaded t st in (deny_flag t (fst st1), st1))"

definition set_deny :: "string \<Rightarrow> bool \<Rightarrow> emergency_state \<Rightarrow> emergency_state" where
  "set_deny t b st =
     (let (sv, repo) = st in (sv\<lparr>em_deny_active := (em_deny_active sv)(t \<mapsto> b)\<rparr>, repo))"

definition activate_emergency_deny ::
  "datetime \<Rightarrow> string \<Rightarrow> string \<Rightarrow> string \<Rightarrow> string list \<Rightarrow> emergency_state
     \<Rightarrow> string option \<times> emergency_state" where
  "activate_emergency_deny now t activated_by reason approval_ids st =
     (if em_lock (fst st)
      then (Some ''Emergency control is locked; another operation in progress'', st)
      else (None, persist t (log_entry (DenyActivated t activated_by reason approval_ids now)
              (set_deny t True (ensure_loaded t st)))))"

definition deactivate_emergency_deny ::
  "datetime \<Rightarrow> string \<Rightarrow> string \<Rightarrow> string \<Rightarrow> emergency_state \<Rightarrow> string option \<times> emergency_state" where
  "deactivate_emergency_deny now t deactivated_by reason st =
     (if em_lock (fst st) then (Some ''Emergency control is locked'', st)
      else
        (let st1 = ensure_loaded t st; was_active = deny_flag t (fst st1)
         in (None, persist t (log_entry (DenyDeactivated t deactivated_by reason was_active now)
              (set_deny t False st1)))))"

definition activate_emergency_allow ::
  "datetime \<Rightarrow> string \<Rightarrow> string \<Rightarrow> string list \<Rightarrow> string list \<Rightarrow> string list \<Rightarrow> stamp option
     \<Rightarrow> string list \<Rightarrow> string \<Rightarrow> emergency_state \<Rightarrow> (py_error + string option) \<times> emergency_state" where
  "activate_emergency_allow now t activated_by actions tools agents expires_at approval_ids reason st =
     (if actions = []
      then (Inr (Some ''Emergency allow requires explicit allowed_actions list''), st)
      else
        (case expires_at of
           None \<Rightarrow> (Inr (Some ''Emergency allow requires expires_at (time-limited)''), st)
         | Some (Naive _) \<Rightarrow>
             (Inl (TypeError ''can't compare offset-naive and offset-aware datetimes''), st)
         | Some (Aware expires) \<Rightarrow>
             if expires \<le> now
             then (Inr (Some ''Emergency allow expires_at must be in the future''), st)
             else
               (let record = \<lparr>al_tenant_id = t, al_activated_by = activated_by,
                              al_allowed_actions = actions, al_allowed_tools = tools,
                              al_allowed_agents = agents, al_expires_at = expires,
                              al_approval_ids = approval_ids, al_reason = reason,
                              al_activated_at = now\<rparr>;
                    (sv, repo) = st
                in (Inr None,
                    persist t (log_entry (AllowActivated record)
                      (sv\<lparr>em_allow_active := (em_allow_active sv)(t \<mapsto> record)\<rparr>, repo))))))"

definition deactivate_emergency_allow ::
  "datetime \<Rightarrow> string \<Rightarrow> string \<Rightarrow> emergency_state \<Rightarrow> string option \<times> emergency_state" where
  "deactivate_emergency_allow now t deactivated_by st =
     (let (sv, repo) = st
      in case em_allow_active sv t of
           None \<Rightarrow> (Some ''No emergency allow active'', st)
         | Some record \<Rightarrow>
             (None, persist t
                (log_entry (AllowDeactivated t deactivated_by (al_activated_at record) now)
                  (sv\<lparr>em_allow_active := (em_allow_active sv)(t := None)\<rparr>, repo))))"

definition allow_verdict ::
  "string \<Rightarrow> string \<Rightarrow> string \<Rightarrow> allow_record \<Rightarrow> authorization_decision \<times> string" where
  "allow_verdict agent_id action tool record =
     (if al_allowed_agents record \<noteq> [] \<and> agent_id \<notin> set (al_allowed_agents record)
      then (DENY, ''Agent not in emergency allow list'')
      else if action \<notin> set (al_allowed_actions record)
      then (DENY, ''Action '' @ [CHR 0x27] @ action @ [CHR 0x27] @ '' not in emergency allow list'')
      else if al_allowed_tools record \<noteq> [] \<and> tool \<noteq> [] \<and> tool \<notin> set (al_allowed_tools record)
      then (DENY, ''Tool '' @ [CHR 0x27] @ tool @ [CHR 0x27] @ '' not in emergency allow list'')
      else (ALLOW, ''Emergency allow authorizes this action''))"

definition evaluate_authorization ::
  "datetime \<Rightarrow> string \<Rightarrow> string \<Rightarrow> string \<Rightarrow> string \<Rightarrow> emergency_state
     \<Rightarrow> (authorization_decision \<times> string) \<times> emergency_state" where
  "evaluate_authorization now t agent_id action tool st =
     (case is_emergency_deny_active t st of
        (True, st1) \<Rightarrow> ((DENY, ''EMERGENCY DENY is active for this tenant -- all execution blocked''), st1)
      | (False, st1) \<Rightarrow>
          (let st2 = ensure_loaded t st1
           in case em_allow_active (fst st2) t of
                None \<Rightarrow> ((ALLOW, ''No emergency controls active''), st2)
              | Some record \<Rightarrow>
                  if now > al_expires_at record
                  then ((DENY, ''Emergency allow has expired''),
                        snd (deactivate_emergency_allow now t ''system'' st2))
                  else (allow_verdict agent_id action tool record, st2)))"

definition get_emergency_status ::
  "string \<Rightarrow> emergency_state \<Rightarrow> (bool \<times> bool \<times> allow_record option) \<times> emergency_state" where
  "get_emergency_status t st =
     (let (deny, st1) = is_emergency_deny_active t (ensure_loaded t st);
          record = em_allow_active (fst st1) t
      in ((deny, record \<noteq> None, record), st1))"

text \<open>The slice \<open>[-limit:]\<close>: the last entries for a positive limit, all for 0.\<close>

definition get_emergency_log :: "int \<Rightarrow> emergency_service \<Rightarrow> emergency_entry list" where
  "get_emergency_log limit sv =
     (if limit \<le> 0 then drop (nat (- limit)) (em_log sv)
      else drop (length (em_log sv) - nat limit) (em_log sv))"

text \<open>The guard of the execution routes: an empty tenant passes through.\<close>

definition assert_execution_permitted ::
  "string \<Rightarrow> emergency_state \<Rightarrow> (py_error + unit) \<times> emergency_state" where
  "assert_execution_permitted t st =
     (if t = [] then (Inr (), st)
      else (case is_emergency_deny_active t st of
              (True, st1) \<Rightarrow>
                (Inl (HTTPException 403 ''EMERGENCY DENY is active for this tenant -- all execution blocked.''), st1)
            | (False, st1) \<Rightarrow> (Inr (), st1)))"

section \<open>Runs\<close>

datatype emergency_call =
    ActivateDeny datetime string string string "string list"
  | DeactivateDeny datetime string string string
  | ActivateAllow datetime string string "string list" "string list" "string list" "stamp option"
      "string list" string
  | DeactivateAllow datetime string string
  | Evaluate datetime string string string string
  | Guard string

fun emergency_step :: "emergency_call \<Rightarrow> emergency_state \<Rightarrow> emergency_state" where
  "emergency_step (ActivateDeny now t a r ids) st = snd (activate_emergency_deny now t a r ids st)"
| "emergency_step (DeactivateDeny now t d r) st = snd (deactivate_emergency_deny now t d r st)"
| "emergency_step (ActivateAllow now t a acts tools agents ex ids r) st =
     snd (activate_emergency_allow now t a acts tools agents ex ids r st)"
| "emergency_step (DeactivateAllow now t d) st = snd (deactivate_emergency_allow now t d st)"
| "emergency_step (Evaluate now t agent action tool) st =
     snd (evaluate_authorization now t agent action tool st)"
| "emergency_step (Guard t) st = snd (assert_execution_permitted t st)"

fun lifts_deny :: "string \<Rightarrow> emergency_call \<Rightarrow> bool" where
  "lifts_deny t (DeactivateDeny now u d r) \<longleftrightarrow> u = t"
| "lifts_deny t _ \<longleftrightarrow> False"

abbreviation denied :: "string \<Rightarrow> emergency_state \<Rightarrow> bool" where
  "denied t st \<equiv> em_deny_active (fst st) t = Some True"

lemmas emergency_op_defs =
  activate_emergency_deny_def deactivate_emergency_deny_def activate_emergency_allow_def
  deactivate_emergency_allow_def evaluate_authorization_def assert_execution_permitted_def
  is_emergency_deny_active_def

lemma deny_frame [simp]:
  "em_deny_active (fst (persist u st)) = em_deny_active (fst st)"
  "em_deny_active (fst (log_entry e st)) = em_deny_active (fst st)"
  by (simp_all add: persist_def log_entry_def split_beta Let_def split: option.split)

lemma denied_ensure_loaded: "denied t st \<Longrightarrow> denied t (ensure_loaded u st)"
  by (auto simp: ensure_loaded_def split_beta Let_def split: option.split)

lemma denied_set_deny: "denied t st \<Longrightarrow> b \<or> u \<noteq> t \<Longrightarrow> denied t (set_deny u b st)"
  by (auto simp: set_deny_def split_beta Let_def)

lemma denied_deactivate_allow: "denied t st \<Longrightarrow> denied t (snd (deactivate_emergency_allow now u d st))"
  by (simp add: deactivate_emergency_allow_def split_beta Let_def split: option.split)

lemma denied_step:
  assumes "denied t st" and "\<not> lifts_deny t call"
  shows "denied t (emergency_step call st)"
proof (cases call)
  case (ActivateDeny now u a r ids)
  then show ?thesis
    using assms by (auto simp: activate_emergency_deny_def denied_set_deny denied_ensure_loaded)
next
  case (DeactivateDeny now u d r)
  then show ?thesis
    using assms
    by (auto simp: deactivate_emergency_deny_def Let_def denied_set_deny denied_ensure_loaded)
next
  case (ActivateAllow now u a acts tools agents ex ids r)
  then show ?thesis
    using assms
    by (simp add: activate_emergency_allow_def split_beta Let_def split: option.split stamp.split)
next
  case (DeactivateAllow now u d)
  then show ?thesis using assms by (simp add: denied_deactivate_allow)
next
  case (Evaluate now u agent action tool)
  then show ?thesis
    using assms
    by (simp add: evaluate_authorization_def is_emergency_deny_active_def Let_def
        denied_ensure_loaded denied_deactivate_allow split: bool.split option.split)
next
  case (Guard u)
  then show ?thesis
    using assms
    by (simp add: assert_execution_permitted_def is_emergency_deny_active_def Let_def
        denied_ensure_loaded split: bool.split)
qed

lemma denied_run:
  "denied t st \<Longrightarrow> \<not> list_ex (lifts_deny t) calls \<Longrightarrow> denied t (fold emergency_step calls st)"
  by (induction calls arbitrary: st) (auto simp: denied_step)

lemma activate_denies:
  "activate_emergency_deny now t a r ids st = (None, st1) \<Longrightarrow> denied t st1"
  by (auto simp: activate_emergency_deny_def set_deny_def split_beta Let_def split: if_splits)

lemma denied_flag: "denied t st \<Longrightarrow> fst (is_emergency_deny_active t st)"
  using denied_ensure_loaded [of st t t] by (simp add: is_emergency_deny_active_def deny_flag_def)

text \<open>
  C24. An emergency deny holds: once it has been activated for a tenant, and as long as no call
  deactivates it for that tenant, whatever else the service is asked to do, every evaluation for
  the tenant is denied and the execution guard raises.
\<close>

theorem emergency_deny_holds:
  assumes "activate_emergency_deny now t activated_by reason ids st = (None, st1)"
    and "\<not> list_ex (lifts_deny t) calls" and "t \<noteq> []"
  shows "fst (fst (evaluate_authorization now' t agent action tool (fold emergency_step calls st1))) =
      DENY \<and>
    (\<exists>e. fst (assert_execution_permitted t (fold emergency_step calls st1)) = Inl e)"
proof -
  have "denied t (fold emergency_step calls st1)"
    using denied_run [OF activate_denies [OF assms(1)] assms(2)] .
  from denied_flag [OF this] show ?thesis
    using assms(3)
    by (simp add: evaluate_authorization_def assert_execution_permitted_def split_beta
        split: bool.split prod.split)
qed

theorem emergency_deny_holds_witness:
  "fst (fst (evaluate_authorization 5 ''t'' ''a'' ''read'' ''cat''
     (fold emergency_step
       [ActivateAllow 1 ''t'' ''op'' [''read''] [] [] (Some (Aware 9)) [] ''triage'', Guard ''u'',
        DeactivateDeny 2 ''u'' ''op'' ''over'']
       (snd (activate_emergency_deny 0 ''t'' ''op'' ''breach'' [] (new_emergency_service, None)))))) =
     DENY"
proof -
  let ?st = "(new_emergency_service, None) :: emergency_state"
  have "activate_emergency_deny 0 ''t'' ''op'' ''breach'' [] ?st =
      (None, snd (activate_emergency_deny 0 ''t'' ''op'' ''breach'' [] ?st))"
    by (simp add: activate_emergency_deny_def new_emergency_service_def)
  from emergency_deny_holds [OF this, of
      "[ActivateAllow 1 ''t'' ''op'' [''read''] [] [] (Some (Aware 9)) [] ''triage'', Guard ''u'',
        DeactivateDeny 2 ''u'' ''op'' ''over'']" 5 "''a''" "''read''" "''cat''"]
  show ?thesis by simp
qed

text \<open>
  An emergency allow admits only what it lists: when an allow record is in force and an
  evaluation answers ALLOW, the record has not expired, it lists the action, and it lists the agent
  and the tool where it restricts them.
\<close>

theorem emergency_allow_sound:
  assumes "evaluate_authorization now t agent action tool st = ((ALLOW, reason), st')"
    and "em_allow_active (fst (ensure_loaded t st)) t = Some rec"
  shows "now \<le> al_expires_at rec \<and> action \<in> set (al_allowed_actions rec) \<and>
    (al_allowed_agents rec = [] \<or> agent \<in> set (al_allowed_agents rec)) \<and>
    (al_allowed_tools rec = [] \<or> tool = [] \<or> tool \<in> set (al_allowed_tools rec))"
proof -
  have loaded: "ensure_loaded t (ensure_loaded t st) = ensure_loaded t st"
    using assms(2) by (simp add: ensure_loaded_def [of t "ensure_loaded t st"] split_beta Let_def)
  from assms show ?thesis
    by (auto simp: evaluate_authorization_def is_emergency_deny_active_def Let_def loaded
        allow_verdict_def split: bool.splits if_splits)
qed

theorem emergency_allow_sound_witness:
  "let st = snd (activate_emergency_allow 1 ''t'' ''op'' [''read''] [''cat''] [] (Some (Aware 9)) []
                   ''triage'' (new_emergency_service, None))
   in fst (fst (evaluate_authorization 5 ''t'' ''a'' ''read'' ''cat'' st)) = ALLOW \<and>
      (\<exists>rec. em_allow_active (fst st) ''t'' = Some rec \<and> ''read'' \<in> set (al_allowed_actions rec) \<and>
         5 \<le> al_expires_at rec)"
proof -
  define st where "st = snd (activate_emergency_allow 1 ''t'' ''op'' [''read''] [''cat''] []
    (Some (Aware 9)) [] ''triage'' (new_emergency_service, None))"
  obtain rec where rec: "em_allow_active (fst st) ''t'' = Some rec" and
    ld: "ensure_loaded ''t'' st = st" and
    ev: "evaluate_authorization 5 ''t'' ''a'' ''read'' ''cat'' st =
      ((ALLOW, ''Emergency allow authorizes this action''), st)"
    by (simp add: st_def activate_emergency_allow_def new_emergency_service_def persist_def
        log_entry_def ensure_loaded_def evaluate_authorization_def is_emergency_deny_active_def
        deny_flag_def allow_verdict_def Let_def)
  show ?thesis
    using emergency_allow_sound [OF ev, unfolded ld, OF rec] rec ev
    by (simp add: st_def [symmetric] Let_def)
qed

section \<open>Restarts\<close>

text \<open>The cached tenants agree with their rows, and a row says allow exactly when it has a record.\<close>

definition row_of :: "string \<Rightarrow> emergency_service \<Rightarrow> emergency_row" where
  "row_of t sv =
     \<lparr>ew_emergency_deny_active = deny_flag t sv,
      ew_emergency_allow_active = (em_allow_active sv t \<noteq> None),
      ew_allow_details = em_allow_active sv t\<rparr>"

definition coherent_at :: "string \<Rightarrow> emergency_service \<Rightarrow> (string \<rightharpoonup> emergency_row) \<Rightarrow> bool" where
  "coherent_at t sv rows \<longleftrightarrow>
     (if em_deny_active sv t \<noteq> None \<or> em_allow_active sv t \<noteq> None
      then rows t = Some (row_of t sv)
      else \<forall>row. rows t = Some row \<longrightarrow> ew_emergency_allow_active row = (ew_allow_details row \<noteq> None))"

definition coherent :: "emergency_state \<Rightarrow> bool" where
  "coherent st \<longleftrightarrow> (\<exists>rows. snd st = Some rows \<and> (\<forall>t. coherent_at t (fst st) rows))"

lemma coherent_obtain:
  assumes "coherent st"
  obtains sv rows where "st = (sv, Some rows)" and "\<And>t. coherent_at t sv rows"
  using assms unfolding coherent_def by (metis prod.collapse)

lemma coherent_atD:
  "coherent_at t sv rows \<Longrightarrow> rows t = Some row \<Longrightarrow>
     ew_emergency_allow_active row = (ew_allow_details row \<noteq> None)"
  by (auto simp: coherent_at_def row_of_def split: if_splits)

lemma coherent_at_cong:
  "em_deny_active sv' t = em_deny_active sv t \<Longrightarrow> em_allow_active sv' t = em_allow_active sv t \<Longrightarrow>
     rows' t = rows t \<Longrightarrow> coherent_at t sv rows \<Longrightarrow> coherent_at t sv' rows'"
  by (simp add: coherent_at_def row_of_def deny_flag_def)

lemma persist_some: "persist t (sv, Some rows) = (sv, Some (rows(t \<mapsto> row_of t sv)))"
  by (simp add: persist_def row_of_def)

lemma coherent_at_persist: "coherent_at t sv (rows(t \<mapsto> row_of t sv))"
  by (simp add: coherent_at_def row_of_def)

text \<open>A change of one tenant's cache followed by a write of its row keeps the service coherent.\<close>

lemma coherent_persist:
  assumes "\<And>u. coherent_at u sv rows"
    and "\<And>u. u \<noteq> t \<Longrightarrow> em_deny_active sv' u = em_deny_active sv u"
    and "\<And>u. u \<noteq> t \<Longrightarrow> em_allow_active sv' u = em_allow_active sv u"
  shows "coherent (persist t (sv', Some rows))"
proof -
  have "coherent_at u sv' (rows(t \<mapsto> row_of t sv'))" for u
    using coherent_at_persist [of t sv' rows]
      coherent_at_cong [OF assms(2,3) _ assms(1), of u "rows(t \<mapsto> row_of t sv')"]
    by (cases "u = t") simp_all
  then show ?thesis
    by (simp add: persist_some coherent_def)
qed

lemma coherent_ensure_loaded:
  assumes "coherent st"
  shows "coherent (ensure_loaded t st)"
proof -
  obtain sv rows where st: "st = (sv, Some rows)" and at: "\<And>u. coherent_at u sv rows"
    using coherent_obtain [OF assms] by metis
  show ?thesis
  proof (cases "em_deny_active sv t \<noteq> None \<or> em_allow_active sv t \<noteq> None \<or> rows t = None")
    case True
    then show ?thesis using assms by (auto simp: ensure_loaded_def st)
  next
    case False
    then obtain row where row: "rows t = Some row" and
      none: "em_deny_active sv t = None" "em_allow_active sv t = None" by auto
    define sv' where "sv' = sv\<lparr>em_deny_active := (em_deny_active sv)(t \<mapsto> ew_emergency_deny_active row),
      em_allow_active := (if ew_emergency_allow_active row \<and> ew_allow_details row \<noteq> None
        then (em_allow_active sv)(t := ew_allow_details row) else em_allow_active sv)\<rparr>"
    have ld: "ensure_loaded t st = (sv', Some rows)"
      using row none by (simp add: ensure_loaded_def st sv'_def)
    have "coherent_at u sv' rows" for u
    proof (cases "u = t")
      case True
      then show ?thesis
        using row none coherent_atD [OF at row]
        by (cases row) (auto simp: coherent_at_def row_of_def deny_flag_def sv'_def)
    next
      case False
      then show ?thesis by (intro coherent_at_cong [OF _ _ _ at]) (simp_all add: sv'_def)
    qed
    then show ?thesis by (simp add: ld coherent_def)
  qed
qed

lemma coherent_log_persist:
  assumes "coherent (sv, repo)"
    and "\<And>u. u \<noteq> t \<Longrightarrow> em_deny_active sv' u = em_deny_active sv u"
    and "\<And>u. u \<noteq> t \<Longrightarrow> em_allow_active sv' u = em_allow_active sv u"
  shows "coherent (persist t (log_entry e (sv', repo)))"
proof -
  obtain rows where repo: "repo = Some rows" and at: "\<And>u. coherent_at u sv rows"
    using coherent_obtain [OF assms(1)] by auto
  show ?thesis
    using coherent_persist [OF at, of t "sv'\<lparr>em_log := em_log sv' @ [e]\<rparr>"] assms(2,3)
    by (simp add: log_entry_def repo)
qed

lemma coherent_set_deny:
  "coherent st \<Longrightarrow> coherent (persist t (log_entry e (set_deny t b st)))"
  by (cases st) (auto simp: set_deny_def intro!: coherent_log_persist)

lemma coherent_deactivate_allow:
  "coherent st \<Longrightarrow> coherent (snd (deactivate_emergency_allow now t d st))"
  by (cases st)
    (auto simp: deactivate_emergency_allow_def split: option.split intro!: coherent_log_persist)

lemma coherent_activate_allow:
  "coherent st \<Longrightarrow>
     coherent (snd (activate_emergency_allow now t a acts tools agents ex ids r st))"
  by (cases st)
    (auto simp: activate_emergency_allow_def Let_def split: option.split stamp.split
      intro!: coherent_log_persist)

lemma coherent_step: "coherent st \<Longrightarrow> coherent (emergency_step call st)"
  by (cases call)
    (simp_all add: activate_emergency_deny_def deactivate_emergency_deny_def
      evaluate_authorization_def assert_execution_permitted_def is_emergency_deny_active_def Let_def
      coherent_set_deny coherent_ensure_loaded coherent_deactivate_allow coherent_activate_allow
      split: bool.split option.split)

lemma coherent_run: "coherent st \<Longrightarrow> coherent (fold emergency_step calls st)"
  by (induction calls arbitrary: st) (simp_all add: coherent_step)

lemma coherent_new: "coherent (new_emergency_service, Some Map.empty)"
  by (simp add: coherent_def coherent_at_def new_emergency_service_def)

text \<open>What a service that has looked a tenant up knows is what the tenant's row says.\<close>

lemma loaded_view:
  assumes "coherent (sv, Some rows)"
  shows "deny_flag t (fst (ensure_loaded t (sv, Some rows))) =
      (case rows t of None \<Rightarrow> False | Some row \<Rightarrow> ew_emergency_deny_active row) \<and>
    em_allow_active (fst (ensure_loaded t (sv, Some rows))) t =
      (case rows t of None \<Rightarrow> None | Some row \<Rightarrow> ew_allow_details row)"
proof -
  have at: "coherent_at t sv rows" using assms by (simp add: coherent_def)
  show ?thesis
    using at coherent_atD [OF at]
    by (auto simp: ensure_loaded_def coherent_at_def row_of_def deny_flag_def
        split: option.split if_splits)
qed

lemma coherent_restart: "coherent st \<Longrightarrow> coherent (new_emergency_service, snd st)"
proof (erule coherent_obtain)
  fix sv rows
  assume st: "st = (sv, Some rows)" and at: "\<And>t. coherent_at t sv rows"
  show "coherent (new_emergency_service, snd st)"
    using coherent_atD [OF at] by (simp add: st coherent_def coherent_at_def new_emergency_service_def)
qed

lemma ensure_loaded_idem: "ensure_loaded t (ensure_loaded t st) = ensure_loaded t st"
  by (auto simp: ensure_loaded_def split_beta Let_def split: option.split)

lemma evaluate_view:
  "fst (evaluate_authorization now t agent action tool st) =
     (let sv = fst (ensure_loaded t st)
      in if deny_flag t sv then (DENY, ''EMERGENCY DENY is active for this tenant -- all execution blocked'')
         else case em_allow_active sv t of
                None \<Rightarrow> (ALLOW, ''No emergency controls active'')
              | Some rec \<Rightarrow>
                  if now > al_expires_at rec then (DENY, ''Emergency allow has expired'')
                  else allow_verdict agent action tool rec)"
  by (simp add: evaluate_authorization_def is_emergency_deny_active_def Let_def ensure_loaded_idem
      split: bool.split option.split)

text \<open>
  C25. A restart keeps the emergency state: after any sequence of calls on a service with a
  repository, a fresh service over the same table gives every evaluation the same decision and the
  same reason as the running service, and the execution guard decides alike.
\<close>

theorem emergency_restart:
  "let st = fold emergency_step calls (new_emergency_service, Some Map.empty);
       restarted = (new_emergency_service, snd st)
   in fst (evaluate_authorization now t agent action tool restarted) =
        fst (evaluate_authorization now t agent action tool st) \<and>
      fst (assert_execution_permitted t restarted) = fst (assert_execution_permitted t st)"
proof -
  define st where "st = fold emergency_step calls (new_emergency_service, Some Map.empty)"
  have co: "coherent st" unfolding st_def by (rule coherent_run [OF coherent_new])
  obtain sv rows where st: "st = (sv, Some rows)" using coherent_obtain [OF co] by metis
  from loaded_view [OF co [unfolded st], of t]
    loaded_view [OF coherent_restart [OF co, unfolded st, simplified], of t]
  show ?thesis
    by (simp add: st_def [symmetric] st evaluate_view assert_execution_permitted_def
        is_emergency_deny_active_def Let_def split: bool.split)
qed

text \<open>
  An emergency allow on a restarted service drops a persisted deny: \<open>activate_emergency_allow\<close>
  does not load the tenant's row first, so the deny flag it persists is the empty cache's. After
  deny, restart and allow, the tenant's evaluation answers ALLOW and the row's deny flag is gone.
\<close>

theorem emergency_allow_drops_deny:
  "let denied = snd (activate_emergency_deny 0 ''t'' ''op'' ''breach'' []
                       (new_emergency_service, Some Map.empty));
       restarted = (new_emergency_service, snd denied);
       (answer, allowed) = activate_emergency_allow 1 ''t'' ''op'' [''read''] [] [] (Some (Aware 9)) []
                             ''triage'' restarted
   in fst (fst (evaluate_authorization 2 ''t'' ''a'' ''read'' [] restarted)) = DENY \<and>
      answer = Inr None \<and>
      fst (fst (evaluate_authorization 2 ''t'' ''a'' ''read'' [] allowed)) = ALLOW \<and>
      map_option (\<lambda>rows. map_option ew_emergency_deny_active (rows ''t'')) (snd allowed) =
        Some (Some False)"
  by (simp add: new_emergency_service_def activate_emergency_deny_def activate_emergency_allow_def
      evaluate_view set_deny_def log_entry_def persist_def ensure_loaded_def deny_flag_def
      allow_verdict_def Let_def)

end
