(* ===== verification/State_Delta.thy ===== *)
theory State_Delta
  imports Recovery_Types Merkle_Properties
begin

text \<open>
  The state delta engine (\<open>app/domain/services/state_delta_engine.py\<close>) with the entities of
  \<open>causal_state_types.py\<close> it computes and the three SQL repositories it writes to
  (\<open>sqlalchemy_causal_state_repositories.py\<close>: checkpoints, resource versions and deltas).

  A state is a Python value: \<open>PNone\<close> for \<open>None\<close>, \<open>PDict\<close> for a dictionary. Values are compared by
  Python's \<open>==\<close> (\<open>py_eq\<close>: a boolean equals the integer 0 or 1, dictionaries are unordered).
  \<open>dumps\<close> is \<open>json.dumps(.., sort_keys=True)\<close>, \<open>loads\<close> is \<open>json.loads\<close> (\<open>None\<close> for a decoding
  error) and \<open>sha\<close> the SHA-256 digest. Only the columns of a checkpoint that hold JSON are kept as
  text, because verification hashes what is read back; the other JSON columns hold their values.

  Shown: what a recovered state contains for every field, when it is the state before the action,
  that a recorded checkpoint verifies, and that the versions of a resource form one numbered chain.
\<close>

section \<open>Equality of Python values\<close>

fun py_num :: "pyval \<Rightarrow> int option" where
  "py_num (PBool b) = Some (if b then 1 else 0)"
| "py_num (PInt n) = Some n"
| "py_num _ = None"

fun py_eq :: "pyval \<Rightarrow> pyval \<Rightarrow> bool" where
  "py_eq PNone y = (y = PNone)"
| "py_eq (PBool b) y = (py_num y = Some (if b then 1 else 0))"
| "py_eq (PInt n) y = (py_num y = Some n)"
| "py_eq (PStr s) y = (y = PStr s)"
| "py_eq (PList xs) y = (case y of PList ys \<Rightarrow> list_all2 py_eq xs ys | _ \<Rightarrow> False)"
| "py_eq (PDict d) y =
     (case y of
        PDict e \<Rightarrow>
          length d = length e \<and>
          (\<forall>(k, v) \<in> set d. case map_of e k of None \<Rightarrow> False | Some w \<Rightarrow> py_eq v w)
      | _ \<Rightarrow> False)"

fun type_name :: "pyval \<Rightarrow> string" where
  "type_name PNone = ''NoneType''"
| "type_name (PBool _) = ''bool''"
| "type_name (PInt _) = ''int''"
| "type_name (PStr _) = ''str''"
| "type_name (PList _) = ''list''"
| "type_name (PDict _) = ''dict''"

section \<open>Entities\<close>

datatype checkpoint_strategy = CP_FULL_STATE | CP_DELTA | CP_VERSION_REFERENCE | CP_ADAPTER_SNAPSHOT

fun strategy_value :: "checkpoint_strategy \<Rightarrow> string" where
  "strategy_value CP_FULL_STATE = ''full_state''"
| "strategy_value CP_DELTA = ''delta''"
| "strategy_value CP_VERSION_REFERENCE = ''version_reference''"
| "strategy_value CP_ADAPTER_SNAPSHOT = ''adapter_snapshot''"

definition strategy_of :: "string \<Rightarrow> py_error + checkpoint_strategy" where
  "strategy_of s =
     (if s = ''full_state'' then Inr CP_FULL_STATE
      else if s = ''delta'' then Inr CP_DELTA
      else if s = ''version_reference'' then Inr CP_VERSION_REFERENCE
      else if s = ''adapter_snapshot'' then Inr CP_ADAPTER_SNAPSHOT
      else Inl (ValueError (s @ '' is not a valid CheckpointStrategy'')))"

text \<open>What a caller passes as the strategy: a member of the enumeration or a plain string.\<close>

datatype strategy_arg = Member checkpoint_strategy | Text string

datatype change_origin = CO_HUMAN | CO_AI_AGENT | CO_SYSTEM | CO_UNKNOWN

datatype delta_type =
  FIELD_LEVEL | RECORD_LEVEL | VERSION_RESTORE | COMPENSATING_OPERATION | SEMANTIC_COMPENSATION
| DELTA_UNKNOWN

fun delta_type_value :: "delta_type \<Rightarrow> string" where
  "delta_type_value FIELD_LEVEL = ''field_level''"
| "delta_type_value RECORD_LEVEL = ''record_level''"
| "delta_type_value VERSION_RESTORE = ''version_restore''"
| "delta_type_value COMPENSATING_OPERATION = ''compensating_operation''"
| "delta_type_value SEMANTIC_COMPENSATION = ''semantic_compensation''"
| "delta_type_value DELTA_UNKNOWN = ''unknown''"

record state_checkpoint =
  ck_checkpoint_id :: string
  ck_tenant_id :: string
  ck_action_id :: string
  ck_agent_id :: string
  ck_resource_id :: string
  ck_resource_type :: string
  ck_strategy :: strategy_arg
  ck_created_at :: datetime
  ck_state_hash :: "string option"
  ck_recoverable_fields :: pydict
  ck_version_token :: "string option"
  ck_etag :: "string option"
  ck_checkpoint_hash :: string

record resource_version =
  rv_version_id :: string
  rv_tenant_id :: string
  rv_resource_id :: string
  rv_resource_type :: string
  rv_version_number :: int
  rv_change_origin :: change_origin
  rv_causal_owner :: string
  rv_created_at :: datetime
  rv_state_hash :: "string option"
  rv_action_id :: string
  rv_agent_id :: string
  rv_previous_version_id :: "string option"

record state_delta =
  sd_delta_id :: string
  sd_tenant_id :: string
  sd_resource_id :: string
  sd_delta_type :: delta_type
  sd_created_at :: datetime
  sd_before_version_id :: "string option"
  sd_after_version_id :: "string option"
  sd_changed_fields :: "string list"
  sd_added_fields :: "string list"
  sd_removed_fields :: "string list"
  sd_before_values :: pydict
  sd_after_values :: pydict
  sd_is_safe_delta :: bool
  sd_delta_metadata :: pydict

section \<open>The repositories\<close>

record checkpoint_row =
  cr_checkpoint_id :: string
  cr_tenant_id :: string
  cr_action_id :: string
  cr_agent_id :: string
  cr_resource_id :: string
  cr_resource_type :: string
  cr_strategy :: string
  cr_state_hash :: "string option"
  cr_recoverable_fields :: "string option"
  cr_version_token :: "string option"
  cr_etag :: "string option"
  cr_checkpoint_hash :: string
  cr_created_at :: datetime

text \<open>\<open>_deserialize_json_dict\<close>: an empty, undecodable or non-dictionary column reads as \<open>{}\<close>.\<close>

definition deserialize_json_dict :: "(string \<Rightarrow> pyval option) \<Rightarrow> string option \<Rightarrow> pydict" where
  "deserialize_json_dict loads value =
     (case value of
        None \<Rightarrow> []
      | Some text \<Rightarrow>
          if text = [] then [] else (case loads text of Some (PDict d) \<Rightarrow> d | _ \<Rightarrow> []))"

definition checkpoint_to_entity ::
  "(string \<Rightarrow> pyval option) \<Rightarrow> checkpoint_row \<Rightarrow> py_error + state_checkpoint" where
  "checkpoint_to_entity loads m =
     (case strategy_of (cr_strategy m) of
        Inl e \<Rightarrow> Inl e
      | Inr strategy \<Rightarrow> Inr
          \<lparr>ck_checkpoint_id = cr_checkpoint_id m, ck_tenant_id = cr_tenant_id m,
           ck_action_id = cr_action_id m, ck_agent_id = cr_agent_id m,
           ck_resource_id = cr_resource_id m, ck_resource_type = cr_resource_type m,
           ck_strategy = Member strategy, ck_created_at = cr_created_at m,
           ck_state_hash = cr_state_hash m,
           ck_recoverable_fields = deserialize_json_dict loads (cr_recoverable_fields m),
           ck_version_token = cr_version_token m, ck_etag = cr_etag m,
           ck_checkpoint_hash = cr_checkpoint_hash m\<rparr>)"

definition get_by_checkpoint_id ::
  "(string \<Rightarrow> pyval option) \<Rightarrow> string \<Rightarrow> string \<Rightarrow> checkpoint_row list
     \<Rightarrow> py_error + state_checkpoint option" where
  "get_by_checkpoint_id loads tenant_id checkpoint_id rows =
     (case scalar_one_or_none (sql_select
        (\<lambda>r. cr_checkpoint_id r = checkpoint_id \<and> cr_tenant_id r = tenant_id) rows) of
        Inl e \<Rightarrow> Inl e
      | Inr None \<Rightarrow> Inr None
      | Inr (Some r) \<Rightarrow> map_sum id Some (checkpoint_to_entity loads r))"

definition save_checkpoint ::
  "(pyval \<Rightarrow> string) \<Rightarrow> state_checkpoint \<Rightarrow> checkpoint_row list
     \<Rightarrow> (py_error + state_checkpoint) \<times> checkpoint_row list" where
  "save_checkpoint dumps c rows =
     (case ck_strategy c of
        Text _ \<Rightarrow> (Inl (AttributeError ''str has no attribute value''), rows)
      | Member strategy \<Rightarrow>
          (case sql_insert cr_checkpoint_id
             \<lparr>cr_checkpoint_id = ck_checkpoint_id c, cr_tenant_id = ck_tenant_id c,
              cr_action_id = ck_action_id c, cr_agent_id = ck_agent_id c,
              cr_resource_id = ck_resource_id c, cr_resource_type = ck_resource_type c,
              cr_strategy = strategy_value strategy, cr_state_hash = ck_state_hash c,
              cr_recoverable_fields = Some (dumps (PDict (ck_recoverable_fields c))),
              cr_version_token = ck_version_token c, cr_etag = ck_etag c,
              cr_checkpoint_hash = ck_checkpoint_hash c, cr_created_at = ck_created_at c\<rparr> rows of
             None \<Rightarrow> (Inl IntegrityError, rows)
           | Some rows' \<Rightarrow> (Inr c, rows')))"

text \<open>\<open>ORDER BY version_number DESC LIMIT 1\<close>; of equal numbers the first row in table order.\<close>

definition get_latest_version ::
  "string \<Rightarrow> string \<Rightarrow> resource_version list \<Rightarrow> resource_version option" where
  "get_latest_version tenant_id resource_id rows =
     py_max_by rv_version_number
       (sql_select (\<lambda>r. rv_resource_id r = resource_id \<and> rv_tenant_id r = tenant_id) rows)"

definition list_versions ::
  "string \<Rightarrow> string \<Rightarrow> nat \<Rightarrow> nat \<Rightarrow> resource_version list \<Rightarrow> resource_version list \<times> nat" where
  "list_versions tenant_id resource_id limit offset rows =
     (let results = take limit (drop offset (sort_key rv_version_number
            (sql_select (\<lambda>r. rv_resource_id r = resource_id \<and> rv_tenant_id r = tenant_id) rows)))
      in (results, length results))"

definition save_version ::
  "resource_version \<Rightarrow> resource_version list
     \<Rightarrow> (py_error + resource_version) \<times> resource_version list" where
  "save_version v rows =
     (case sql_insert rv_version_id v rows of
        None \<Rightarrow> (Inl IntegrityError, rows)
      | Some rows' \<Rightarrow> (Inr v, rows'))"

definition get_by_delta_id ::
  "string \<Rightarrow> string \<Rightarrow> state_delta list \<Rightarrow> py_error + state_delta option" where
  "get_by_delta_id tenant_id delta_id rows =
     scalar_one_or_none (sql_select (\<lambda>r. sd_delta_id r = delta_id \<and> sd_tenant_id r = tenant_id) rows)"

definition list_deltas ::
  "string \<Rightarrow> string \<Rightarrow> nat \<Rightarrow> nat \<Rightarrow> state_delta list \<Rightarrow> state_delta list \<times> nat" where
  "list_deltas tenant_id resource_id limit offset rows =
     (let results = take limit (drop offset (sort_key (\<lambda>r. - sd_created_at r)
            (sql_select (\<lambda>r. sd_resource_id r = resource_id \<and> sd_tenant_id r = tenant_id) rows)))
      in (results, length results))"

definition save_delta ::
  "state_delta \<Rightarrow> state_delta list \<Rightarrow> (py_error + state_delta) \<times> state_delta list" where
  "save_delta d rows =
     (case sql_insert sd_delta_id d rows of
        None \<Rightarrow> (Inl IntegrityError, rows)
      | Some rows' \<Rightarrow> (Inr d, rows'))"

section \<open>Computing deltas\<close>

text \<open>
  The loop of \<open>_compute_dict_delta\<close> over the sorted keys, with its five accumulators: changed,
  added and removed fields, values before and values after.
\<close>

type_synonym delta_acc = "string list \<times> string list \<times> string list \<times> pydict \<times> pydict"

fun delta_step :: "pydict \<Rightarrow> pydict \<Rightarrow> string \<Rightarrow> delta_acc \<Rightarrow> delta_acc" where
  "delta_step before after key (changed, added, removed, befores, afters) =
     (case (map_of before key, map_of after key) of
        (Some v, Some w) \<Rightarrow>
          if \<not> py_eq v w
          then (changed @ [key], added, removed, AList.update key v befores, AList.update key w afters)
          else (changed, added, removed, befores, afters)
      | (Some v, None) \<Rightarrow> (changed, added, removed @ [key], AList.update key v befores, afters)
      | (None, Some w) \<Rightarrow> (changed, added @ [key], removed, befores, AList.update key w afters)
      | (None, None) \<Rightarrow> (changed, added, removed, befores, afters))"

definition all_keys :: "pydict \<Rightarrow> pydict \<Rightarrow> string list" where
  "all_keys before after = sort (remdups (map fst before @ map fst after))"

definition compute_dict_delta ::
  "string \<Rightarrow> string \<Rightarrow> pydict \<Rightarrow> pydict \<Rightarrow> string \<Rightarrow> string \<Rightarrow> datetime \<Rightarrow> state_delta list
     \<Rightarrow> (py_error + state_delta) \<times> state_delta list" where
  "compute_dict_delta tenant_id resource_id before after action_id delta_id created_at rows =
     (let keys = all_keys before after;
          (changed, added, removed, befores, afters) =
            fold (delta_step before after) keys ([], [], [], [], []);
          is_safe = (length changed > 0 \<or> length added > 0 \<or> length removed > 0)
      in save_delta
           \<lparr>sd_delta_id = delta_id, sd_tenant_id = tenant_id, sd_resource_id = resource_id,
            sd_delta_type = (if is_safe then FIELD_LEVEL else DELTA_UNKNOWN),
            sd_created_at = created_at, sd_before_version_id = None, sd_after_version_id = None,
            sd_changed_fields = changed, sd_added_fields = added, sd_removed_fields = removed,
            sd_before_values = befores, sd_after_values = afters, sd_is_safe_delta = is_safe,
            sd_delta_metadata =
              [(''total_fields'', PInt (int (length keys))),
               (''changed_count'', PInt (int (length changed))),
               (''added_count'', PInt (int (length added))),
               (''removed_count'', PInt (int (length removed))),
               (''action_id'', PStr action_id)]\<rparr> rows)"

text \<open>A delta that was not computed: type unknown, not safe, with the reason as metadata.\<close>

definition unknown_delta ::
  "string \<Rightarrow> string \<Rightarrow> string \<Rightarrow> datetime \<Rightarrow> pydict \<Rightarrow> state_delta" where
  "unknown_delta delta_id tenant_id resource_id created_at metadata =
     \<lparr>sd_delta_id = delta_id, sd_tenant_id = tenant_id, sd_resource_id = resource_id,
      sd_delta_type = DELTA_UNKNOWN, sd_created_at = created_at, sd_before_version_id = None,
      sd_after_version_id = None, sd_changed_fields = [], sd_added_fields = [],
      sd_removed_fields = [], sd_before_values = [], sd_after_values = [],
      sd_is_safe_delta = False, sd_delta_metadata = metadata\<rparr>"

definition compute_ai_delta ::
  "string \<Rightarrow> datetime \<Rightarrow> string \<Rightarrow> string \<Rightarrow> pyval \<Rightarrow> pyval \<Rightarrow> string \<Rightarrow> state_delta list
     \<Rightarrow> (py_error + state_delta) \<times> state_delta list" where
  "compute_ai_delta delta_id created_at tenant_id resource_id before_state after_state action_id rows =
     (if before_state = PNone \<or> after_state = PNone
      then save_delta (unknown_delta delta_id tenant_id resource_id created_at
             [(''reason'', PStr ''Insufficient state to compute delta''),
              (''before_available'', PBool (before_state \<noteq> PNone)),
              (''after_available'', PBool (after_state \<noteq> PNone))]) rows
      else
        (case (before_state, after_state) of
           (PDict before, PDict after) \<Rightarrow>
             compute_dict_delta tenant_id resource_id before after action_id delta_id created_at rows
         | _ \<Rightarrow>
             save_delta (unknown_delta delta_id tenant_id resource_id created_at
               [(''reason'', PStr ''Unsupported state type for delta computation''),
                (''before_type'', PStr (type_name before_state)),
                (''after_type'', PStr (type_name after_state))]) rows))"

definition compute_unrelated_delta ::
  "string \<Rightarrow> datetime \<Rightarrow> string \<Rightarrow> string \<Rightarrow> pyval \<Rightarrow> pyval \<Rightarrow> state_delta list
     \<Rightarrow> (py_error + state_delta) \<times> state_delta list" where
  "compute_unrelated_delta delta_id created_at tenant_id resource_id after_ai_state current_state rows =
     (if after_ai_state = PNone \<or> current_state = PNone
      then save_delta (unknown_delta delta_id tenant_id resource_id created_at
             [(''reason'', PStr ''Insufficient state to compute unrelated delta''),
              (''after_available'', PBool (after_ai_state \<noteq> PNone)),
              (''current_available'', PBool (current_state \<noteq> PNone))]) rows
      else
        (case (after_ai_state, current_state) of
           (PDict after, PDict current) \<Rightarrow>
             compute_dict_delta tenant_id resource_id after current [] delta_id created_at rows
         | _ \<Rightarrow>
             save_delta (unknown_delta delta_id tenant_id resource_id created_at []) rows))"

definition determine_target_recovered_state :: "pydict \<Rightarrow> state_delta \<Rightarrow> pydict" where
  "determine_target_recovered_state current_state ai_delta =
     (if \<not> sd_is_safe_delta ai_delta
      then [(''_recovery_status'', PStr ''MANUALLY_RECOVERABLE''),
            (''_reason'', PStr ''AI delta is not safe for automatic subtraction''),
            (''_current_state'', PDict current_state)]
      else if sd_delta_type ai_delta = FIELD_LEVEL
      then (let restored = fold (\<lambda>(field_name, before_value) recovered.
                   if map_of recovered field_name \<noteq> None
                   then AList.update field_name before_value recovered else recovered)
                 (sd_before_values ai_delta) current_state
            in fold AList.delete (sd_added_fields ai_delta) restored)
      else if sd_delta_type ai_delta = VERSION_RESTORE
      then [(''_recovery_status'', PStr ''VERSION_RESTORE_REQUIRED''),
            (''_target_version'',
              (case sd_before_version_id ai_delta of None \<Rightarrow> PNone | Some v \<Rightarrow> PStr v)),
            (''_current_state'', PDict current_state)]
      else [(''_recovery_status'', PStr ''MANUALLY_RECOVERABLE''),
            (''_reason'', PStr (''Delta type '' @ delta_type_value (sd_delta_type ai_delta) @
               '' requires manual interpretation'')),
            (''_current_state'', PDict current_state)])"

section \<open>Versions and checkpoints\<close>

definition compute_state_hash :: "(string \<Rightarrow> string) \<Rightarrow> (pyval \<Rightarrow> string) \<Rightarrow> pydict \<Rightarrow> string" where
  "compute_state_hash sha dumps state = hexdigest sha (dumps (PDict state))"

text \<open>\<open>_compute_state_hash(state) if state else None\<close>\<close>

definition state_hash_of ::
  "(string \<Rightarrow> string) \<Rightarrow> (pyval \<Rightarrow> string) \<Rightarrow> pydict option \<Rightarrow> string option" where
  "state_hash_of sha dumps state =
     (case state of
        None \<Rightarrow> None
      | Some d \<Rightarrow> if d = [] then None else Some (compute_state_hash sha dumps d))"

definition record_resource_version ::
  "(string \<Rightarrow> string) \<Rightarrow> (pyval \<Rightarrow> string) \<Rightarrow> string \<Rightarrow> datetime \<Rightarrow> string \<Rightarrow> string \<Rightarrow> string
     \<Rightarrow> pydict option \<Rightarrow> change_origin \<Rightarrow> string \<Rightarrow> string \<Rightarrow> string \<Rightarrow> resource_version list
     \<Rightarrow> (py_error + resource_version) \<times> resource_version list" where
  "record_resource_version sha dumps version_id now tenant_id resource_id resource_type state
       change_origin action_id agent_id causal_owner rows =
     (let latest = get_latest_version tenant_id resource_id rows
      in save_version
           \<lparr>rv_version_id = version_id, rv_tenant_id = tenant_id, rv_resource_id = resource_id,
            rv_resource_type = resource_type,
            rv_version_number =
              (case latest of None \<Rightarrow> 1 | Some v \<Rightarrow> rv_version_number v + 1),
            rv_change_origin = change_origin,
            rv_causal_owner = (if causal_owner \<noteq> [] then causal_owner else agent_id),
            rv_created_at = now, rv_state_hash = state_hash_of sha dumps state,
            rv_action_id = action_id, rv_agent_id = agent_id,
            rv_previous_version_id = map_option rv_version_id latest\<rparr> rows)"

definition compute_checkpoint_hash ::
  "(string \<Rightarrow> string) \<Rightarrow> (pyval \<Rightarrow> string) \<Rightarrow> string \<Rightarrow> string \<Rightarrow> string \<Rightarrow> string option \<Rightarrow> pydict
     \<Rightarrow> string" where
  "compute_checkpoint_hash sha dumps checkpoint_id action_id resource_id state_hash flds =
     hexdigest sha (dumps (PDict
       [(''checkpoint_id'', PStr checkpoint_id), (''action_id'', PStr action_id),
        (''resource_id'', PStr resource_id),
        (''state_hash'', (case state_hash of None \<Rightarrow> PNone | Some h \<Rightarrow> PStr h)),
        (''fields'', PDict flds)]))"

definition create_checkpoint ::
  "(string \<Rightarrow> string) \<Rightarrow> (pyval \<Rightarrow> string) \<Rightarrow> string \<Rightarrow> datetime \<Rightarrow> string \<Rightarrow> string \<Rightarrow> string \<Rightarrow> string
     \<Rightarrow> string \<Rightarrow> pydict option \<Rightarrow> strategy_arg \<Rightarrow> string option \<Rightarrow> string option
     \<Rightarrow> checkpoint_row list \<Rightarrow> (py_error + state_checkpoint) \<times> checkpoint_row list" where
  "create_checkpoint sha dumps checkpoint_id now tenant_id action_id agent_id resource_id resource_type
       state strategy version_token etag rows =
     (let state_hash = state_hash_of sha dumps state;
          recoverable_fields = (case state of None \<Rightarrow> [] | Some d \<Rightarrow> d)
      in save_checkpoint dumps
           \<lparr>ck_checkpoint_id = checkpoint_id, ck_tenant_id = tenant_id, ck_action_id = action_id,
            ck_agent_id = agent_id, ck_resource_id = resource_id, ck_resource_type = resource_type,
            ck_strategy = strategy, ck_created_at = now, ck_state_hash = state_hash,
            ck_recoverable_fields = recoverable_fields, ck_version_token = version_token,
            ck_etag = etag,
            ck_checkpoint_hash = compute_checkpoint_hash sha dumps checkpoint_id action_id
              resource_id state_hash recoverable_fields\<rparr> rows)"

text \<open>The default value of the parameter \<open>strategy\<close>.\<close>

definition default_strategy :: strategy_arg where
  "default_strategy = Text ''full_state''"

datatype integrity_verdict = NotFound | HashMismatch string string | NoHash | Verified

definition verify_checkpoint_integrity ::
  "(string \<Rightarrow> string) \<Rightarrow> (pyval \<Rightarrow> string) \<Rightarrow> (string \<Rightarrow> pyval option) \<Rightarrow> string \<Rightarrow> string
     \<Rightarrow> checkpoint_row list \<Rightarrow> py_error + integrity_verdict" where
  "verify_checkpoint_integrity sha dumps loads tenant_id checkpoint_id rows =
     (case get_by_checkpoint_id loads tenant_id checkpoint_id rows of
        Inl e \<Rightarrow> Inl e
      | Inr None \<Rightarrow> Inr NotFound
      | Inr (Some c) \<Rightarrow>
          (let expected = compute_checkpoint_hash sha dumps (ck_checkpoint_id c) (ck_action_id c)
                 (ck_resource_id c) (ck_state_hash c) (ck_recoverable_fields c)
           in if ck_checkpoint_hash c \<noteq> [] \<and> ck_checkpoint_hash c \<noteq> expected
              then Inr (HashMismatch expected (ck_checkpoint_hash c))
              else if ck_checkpoint_hash c = [] then Inr NoHash
              else Inr Verified))"

section \<open>What a delta records\<close>

text \<open>What the action did to a field.\<close>

definition ai_changed :: "pydict \<Rightarrow> pydict \<Rightarrow> string \<Rightarrow> bool" where
  "ai_changed before after k \<longleftrightarrow>
     (case (map_of before k, map_of after k) of (Some v, Some w) \<Rightarrow> \<not> py_eq v w | _ \<Rightarrow> False)"

definition ai_added :: "pydict \<Rightarrow> pydict \<Rightarrow> string \<Rightarrow> bool" where
  "ai_added before after k \<longleftrightarrow> map_of before k = None \<and> map_of after k \<noteq> None"

definition ai_removed :: "pydict \<Rightarrow> pydict \<Rightarrow> string \<Rightarrow> bool" where
  "ai_removed before after k \<longleftrightarrow> map_of before k \<noteq> None \<and> map_of after k = None"

lemmas ai_defs = ai_changed_def ai_added_def ai_removed_def

lemma delta_fold:
  assumes "fold (delta_step before after) keys (ch, ad, rm, bs, as) = (ch', ad', rm', bs', as')"
  shows "ch' = ch @ filter (ai_changed before after) keys \<and>
    ad' = ad @ filter (ai_added before after) keys \<and>
    rm' = rm @ filter (ai_removed before after) keys \<and>
    (\<forall>k. map_of bs' k = (if k \<in> set keys \<and> (ai_changed before after k \<or> ai_removed before after k)
       then map_of before k else map_of bs k)) \<and>
    (wf_dict bs \<longrightarrow> wf_dict bs')"
  using assms
proof (induction keys arbitrary: ch ad rm bs as)
  case Nil
  then show ?case by simp
next
  case (Cons k keys)
  obtain ch1 ad1 rm1 bs1 as1 where st: "delta_step before after k (ch, ad, rm, bs, as) =
      (ch1, ad1, rm1, bs1, as1)" by (metis prod_cases5)
  have "fold (delta_step before after) keys (ch1, ad1, rm1, bs1, as1) = (ch', ad', rm', bs', as')"
    using Cons.prems st by simp
  note ih = Cons.IH [OF this]
  show ?case
  proof (cases "map_of before k")
    case None
    then show ?thesis
      using ih st by (cases "map_of after k") (auto simp: ai_changed_def [of _ _ k]
          ai_added_def [of _ _ k] ai_removed_def [of _ _ k])
  next
    case (Some v)
    then show ?thesis
      using ih st by (cases "map_of after k") (auto simp: ai_changed_def [of _ _ k]
          ai_added_def [of _ _ k] ai_removed_def [of _ _ k] split: if_splits)
  qed
qed

lemma set_all_keys: "set (all_keys before after) = dom (map_of before) \<union> dom (map_of after)"
  by (simp add: all_keys_def dom_map_of_conv_image_fst)

text \<open>What a stored delta of two dictionaries says of every field.\<close>

lemma dict_delta_fields:
  assumes "compute_dict_delta t r before after a i now rows = (Inr d, rows')"
  shows "set (sd_changed_fields d) = {k. ai_changed before after k}"
    and "set (sd_added_fields d) = {k. ai_added before after k}"
    and "set (sd_removed_fields d) = {k. ai_removed before after k}"
    and "map_of (sd_before_values d) k =
      (if ai_changed before after k \<or> ai_removed before after k then map_of before k else None)"
    and "wf_dict (sd_before_values d)"
    and "sd_delta_type d = (if sd_is_safe_delta d then FIELD_LEVEL else DELTA_UNKNOWN)"
    and "sd_is_safe_delta d \<longleftrightarrow>
      (\<exists>k. ai_changed before after k \<or> ai_added before after k \<or> ai_removed before after k)"
proof -
  obtain ch ad rm bs as where f: "fold (delta_step before after) (all_keys before after)
      ([], [], [], [], []) = (ch, ad, rm, bs, as)" by (metis prod_cases5)
  note df = delta_fold [OF f, simplified]
  have keys: "ai_changed before after k \<or> ai_added before after k \<or> ai_removed before after k \<Longrightarrow>
      k \<in> set (all_keys before after)" for k
    by (cases "map_of before k") (auto simp: set_all_keys ai_defs)
  have d: "sd_changed_fields d = ch" "sd_added_fields d = ad" "sd_removed_fields d = rm"
    "sd_before_values d = bs" "sd_is_safe_delta d \<longleftrightarrow> ch \<noteq> [] \<or> ad \<noteq> [] \<or> rm \<noteq> []"
    "sd_delta_type d = (if sd_is_safe_delta d then FIELD_LEVEL else DELTA_UNKNOWN)"
    using assms f
    by (auto simp: compute_dict_delta_def save_delta_def Let_def split: option.splits)
  show sets: "set (sd_changed_fields d) = {k. ai_changed before after k}"
    "set (sd_added_fields d) = {k. ai_added before after k}"
    "set (sd_removed_fields d) = {k. ai_removed before after k}"
    using df keys unfolding d by auto
  show "map_of (sd_before_values d) k =
      (if ai_changed before after k \<or> ai_removed before after k then map_of before k else None)"
    using df keys [of k] unfolding d by auto
  show "wf_dict (sd_before_values d)" using df unfolding d by simp
  show "sd_delta_type d = (if sd_is_safe_delta d then FIELD_LEVEL else DELTA_UNKNOWN)" by (rule d)
  show "sd_is_safe_delta d \<longleftrightarrow>
      (\<exists>k. ai_changed before after k \<or> ai_added before after k \<or> ai_removed before after k)"
    using sets unfolding d by (metis (mono_tags, lifting) empty_iff list.set_intros(1) list.set(1) mem_Collect_eq neq_Nil_conv)
qed

section \<open>Recovered states\<close>

lemma restore_fold:
  "wf_dict bv \<Longrightarrow>
   map_of (fold (\<lambda>(f, v) d. if map_of d f \<noteq> None then AList.update f v d else d) bv cur) k =
     (if map_of cur k = None then None
      else case map_of bv k of None \<Rightarrow> map_of cur k | Some v \<Rightarrow> Some v)"
proof (induction bv arbitrary: cur)
  case Nil
  then show ?case by simp
next
  case (Cons fv bv)
  obtain f v where fv: "fv = (f, v)" by force
  have wf: "wf_dict bv" and new: "map_of bv f = None"
    using Cons.prems by (simp_all add: wf_dict_def fv map_of_eq_None_iff)
  show ?case
    using Cons.IH [OF wf, of "if map_of cur f \<noteq> None then AList.update f v cur else cur"] new
    by (simp add: fv split: option.split)
qed

lemma delete_fold: "map_of (fold AList.delete ks d) k = (if k \<in> set ks then None else map_of d k)"
  by (induction ks arbitrary: d) auto

lemma recovered_field:
  assumes "compute_dict_delta t r before after a i now rows = (Inr d, rows')"
    and "sd_is_safe_delta d"
  shows "map_of (determine_target_recovered_state current d) k =
    (if ai_added before after k then None
     else if (ai_changed before after k \<or> ai_removed before after k) \<and> map_of current k \<noteq> None
     then map_of before k else map_of current k)"
proof -
  note dd = dict_delta_fields [OF assms(1)]
  have "map_of (determine_target_recovered_state current d) k =
    (if ai_added before after k then None
     else if map_of current k = None then None
     else case map_of (sd_before_values d) k of None \<Rightarrow> map_of current k | Some v \<Rightarrow> Some v)"
    using assms(2) dd(2,6)
    by (simp add: determine_target_recovered_state_def delete_fold restore_fold [OF dd(5)]
        del: not_None_eq)
  then show ?thesis
    using dd(4) [of k] by (auto simp: ai_changed_def ai_removed_def split: option.splits)
qed

lemma ai_delta_dicts:
  "compute_ai_delta i now t r (PDict before) (PDict after) a rows =
     compute_dict_delta t r before after a i now rows"
  by (simp add: compute_ai_delta_def)

text \<open>
  Subtracting the delta of an action from the current state keeps every field the action did
  not touch as it is now, takes away the fields the action added, and gives each field the action
  changed its value from before, when the field still exists.
\<close>

theorem recovered_state_fields:
  assumes "compute_ai_delta delta_id now t r (PDict before) (PDict after) a rows = (Inr d, rows')"
    and "sd_is_safe_delta d"
  shows "map_of (determine_target_recovered_state current d) k =
    (if k \<in> set (sd_added_fields d) then None
     else if k \<in> set (sd_changed_fields d) \<union> set (sd_removed_fields d) \<and> map_of current k \<noteq> None
     then map_of before k else map_of current k)"
  using recovered_field [OF assms(1) [unfolded ai_delta_dicts] assms(2)]
    dict_delta_fields(1-3) [OF assms(1) [unfolded ai_delta_dicts]]
  by simp

definition sample_before :: pydict where
  "sample_before = [(''owner'', PStr ''ann''), (''quota'', PInt 5), (''note'', PStr ''x'')]"

definition sample_after :: pydict where
  "sample_after = [(''quota'', PInt 9), (''note'', PStr ''x''), (''tag'', PBool True)]"

lemmas delta_run_simps =
  compute_ai_delta_def compute_dict_delta_def all_keys_def save_delta_def sql_insert_def Let_def
  sample_before_def sample_after_def

lemma sample_delta:
  obtains d rows' where
    "compute_ai_delta ''d'' 0 ''t'' ''r'' (PDict sample_before) (PDict sample_after) ''a'' [] =
       (Inr d, rows')" and
    "sd_is_safe_delta d" and "sd_added_fields d = [''tag'']" and "sd_changed_fields d = [''quota'']" and
    "sd_removed_fields d = [''owner'']"
  by (simp add: delta_run_simps) 

theorem recovered_state_fields_witness:
  "\<exists>d rows'. compute_ai_delta ''d'' 0 ''t'' ''r'' (PDict sample_before) (PDict sample_after) ''a'' [] =
       (Inr d, rows') \<and>
     map_of (determine_target_recovered_state ((''eve'', PInt 1) # sample_after) d) ''quota'' =
       Some (PInt 5) \<and>
     map_of (determine_target_recovered_state ((''eve'', PInt 1) # sample_after) d) ''eve'' =
       Some (PInt 1)"
proof -
  obtain d rows' where d: "compute_ai_delta ''d'' 0 ''t'' ''r'' (PDict sample_before)
      (PDict sample_after) ''a'' [] = (Inr d, rows')" "sd_is_safe_delta d"
    "sd_added_fields d = [''tag'']" "sd_changed_fields d = [''quota'']"
    "sd_removed_fields d = [''owner'']" using sample_delta .
  show ?thesis
    using d recovered_state_fields [OF d(1,2)] by (simp add: sample_before_def sample_after_def)
qed



section \<open>Version chains\<close>

datatype version_call =
  RecordVersion string datetime string string string "pydict option" change_origin string string string

fun version_step ::
  "(string \<Rightarrow> string) \<Rightarrow> (pyval \<Rightarrow> string) \<Rightarrow> version_call \<Rightarrow> resource_version list
     \<Rightarrow> resource_version list" where
  "version_step sha dumps (RecordVersion i now t r ty state origin a g owner) rows =
     snd (record_resource_version sha dumps i now t r ty state origin a g owner rows)"

abbreviation versions_of :: "string \<Rightarrow> string \<Rightarrow> resource_version list \<Rightarrow> resource_version list" where
  "versions_of t r rows \<equiv> sql_select (\<lambda>v. rv_resource_id v = r \<and> rv_tenant_id v = t) rows"

definition chained :: "resource_version list \<Rightarrow> bool" where
  "chained vs \<longleftrightarrow>
     (\<forall>i < length vs.
        rv_version_number (vs ! i) = int i + 1 \<and>
        rv_previous_version_id (vs ! i) = (if i = 0 then None else Some (rv_version_id (vs ! (i - 1)))))"

lemma chained_snoc:
  assumes "chained vs" and "rv_version_number v = int (length vs) + 1"
    and "rv_previous_version_id v = (if vs = [] then None else Some (rv_version_id (last vs)))"
  shows "chained (vs @ [v])"
  using assms by (auto simp: chained_def nth_append last_conv_nth less_Suc_eq)

lemma chained_latest:
  assumes "chained vs" and "vs \<noteq> []"
  shows "py_max_by rv_version_number vs = Some (last vs)"
proof (rule py_max_by_unique)
  show "last vs \<in> set vs" using assms(2) by simp
next
  fix y
  assume "y \<in> set vs" and ne: "y \<noteq> last vs"
  then obtain i where i: "i < length vs" "y = vs ! i" by (auto simp: in_set_conv_nth)
  with ne have "i \<noteq> length vs - 1" using assms(2) by (auto simp: last_conv_nth)
  with i assms show "rv_version_number y < rv_version_number (last vs)"
    by (auto simp: chained_def last_conv_nth)
qed

lemma record_is_save:
  "\<exists>v. record_resource_version sha dumps i now t r ty state origin a g owner rows = save_version v rows \<and>
     rv_tenant_id v = t \<and> rv_resource_id v = r \<and>
     rv_version_number v =
       (case get_latest_version t r rows of None \<Rightarrow> 1 | Some w \<Rightarrow> rv_version_number w + 1) \<and>
     rv_previous_version_id v = map_option rv_version_id (get_latest_version t r rows)"
  unfolding record_resource_version_def Let_def by (rule exI, intro conjI, rule refl) simp_all

lemma save_version_cases:
  "snd (save_version v rows) = rows \<or> snd (save_version v rows) = rows @ [v]"
  by (simp add: save_version_def sql_insert_def)

lemma version_step_chained:
  assumes "\<And>t r. chained (versions_of t r rows)"
  shows "chained (versions_of t r (version_step sha dumps call rows))"
proof (cases call)
  case (RecordVersion i now t' r' ty state origin a g owner)
  define vs where "vs = versions_of t' r' rows"
  have ch: "chained vs" using assms by (simp add: vs_def)
  have latest: "get_latest_version t' r' rows = (if vs = [] then None else Some (last vs))"
    using chained_latest [OF ch] by (simp add: get_latest_version_def vs_def [symmetric])
  have num: "vs \<noteq> [] \<Longrightarrow> rv_version_number (last vs) = int (length vs)"
    using ch by (simp add: chained_def last_conv_nth of_nat_diff Suc_leI)
  obtain v where sv: "record_resource_version sha dumps i now t' r' ty state origin a g owner rows =
      save_version v rows" and
    v: "rv_tenant_id v = t'" "rv_resource_id v = r'" "rv_version_number v = int (length vs) + 1"
    "rv_previous_version_id v = (if vs = [] then None else Some (rv_version_id (last vs)))"
    using record_is_save [of sha dumps i now t' r' ty state origin a g owner rows] num
    by (auto simp: latest split: if_splits)
  have res: "version_step sha dumps call rows = rows \<or> version_step sha dumps call rows = rows @ [v]"
    using save_version_cases [of v rows] by (simp add: RecordVersion sv)
  show ?thesis
  proof (cases "t = t' \<and> r = r' \<and> version_step sha dumps call rows \<noteq> rows")
    case True
    then have "versions_of t r (version_step sha dumps call rows) = vs @ [v]"
      using res v(1,2) by (auto simp: vs_def sql_select_def)
    then show ?thesis using chained_snoc [OF ch v(3,4)] by simp
  next
    case False
    then have "versions_of t r (version_step sha dumps call rows) = versions_of t r rows"
      using res v(1,2) by (auto simp: sql_select_def)
    then show ?thesis using assms by simp
  qed
qed

lemma version_run_chained:
  "(\<And>t r. chained (versions_of t r rows)) \<Longrightarrow>
     chained (versions_of t r (fold (version_step sha dumps) calls rows))"
proof (induction calls arbitrary: rows)
  case Nil
  then show ?case by simp
next
  case (Cons c calls)
  then show ?case using version_step_chained by simp
qed

text \<open>
  The versions of a resource form one chain: after any sequence of recordings, for any tenant,
  resource and page, the version at place i of the listing has number offset + i + 1, the first
  version has no predecessor, and every later version names the version listed just before it.
\<close>

theorem version_chain:
  assumes "i < length (fst (list_versions t r limit offset (fold (version_step sha dumps) calls [])))"
  shows "let rows = fold (version_step sha dumps) calls []; page = fst (list_versions t r limit offset rows)
    in rv_version_number (page ! i) = int (offset + i) + 1 \<and>
       rv_previous_version_id (page ! i) =
         (if offset + i = 0 then None
          else Some (rv_version_id (fst (list_versions t r 1 (offset + i - 1) rows) ! 0)))"
proof -
  define vs where "vs = versions_of t r (fold (version_step sha dumps) calls [])"
  have ch: "chained vs"
    unfolding vs_def by (rule version_run_chained) (simp add: sql_select_def chained_def)
  have "sorted (map rv_version_number vs)"
    using ch by (auto simp: chained_def sorted_iff_nth_mono)
  then have pages: "fst (list_versions t r l p (fold (version_step sha dumps) calls [])) =
      take l (drop p vs)" for l p
    by (simp add: list_versions_def vs_def [symmetric] Let_def sort_key_id_if_sorted)
  show ?thesis
    using assms ch unfolding pages Let_def by (auto simp: chained_def)
qed

definition sample_calls :: "version_call list" where
  "sample_calls =
     [RecordVersion ''v1'' 0 ''t'' ''r'' ''db'' None CO_HUMAN [] [] ''ann'',
      RecordVersion ''v2'' 1 ''t'' ''s'' ''db'' None CO_HUMAN [] [] ''ann'',
      RecordVersion ''v3'' 2 ''t'' ''r'' ''db'' None CO_AI_AGENT ''a'' ''g'' []]"

theorem version_chain_witness:
  "rv_previous_version_id
     (fst (list_versions ''t'' ''r'' 5 0 (fold (version_step id (\<lambda>_. [])) sample_calls [])) ! 1) =
   Some ''v1''"
proof -
  let ?rows = "fold (version_step id (\<lambda>_. [])) sample_calls []"
  have len: "length (fst (list_versions ''t'' ''r'' 5 0 ?rows)) = 2" by code_simp
  have first: "rv_version_id (fst (list_versions ''t'' ''r'' 1 0 ?rows) ! 0) = ''v1''" by code_simp
  show ?thesis using version_chain [of 1 "''t''" "''r''" 5 0 id "\<lambda>_. []" sample_calls] len first
    by (simp add: Let_def)
qed

section \<open>Checkpoints\<close>

text \<open>
  What the code relies on of \<open>json\<close>: with \<open>sort_keys\<close> the text depends only on the value up to the
  order of its keys, and decoding gives the value back with its keys in order.
\<close>

fun sort_keys :: "pyval \<Rightarrow> pyval" where
  "sort_keys (PList xs) = PList (map sort_keys xs)"
| "sort_keys (PDict d) = PDict (sort_key fst (map (\<lambda>(k, v). (k, sort_keys v)) d))"
| "sort_keys v = v"

lemma sort_keys_idem: "sort_keys (sort_keys v) = sort_keys v"
proof (induction v rule: sort_keys.induct)
  case (2 d)
  define e where "e = sort_key fst (map (\<lambda>(k, v). (k, sort_keys v)) d)"
  have "map (\<lambda>(k, v). (k, sort_keys v)) e = e"
    by (rule map_idI) (use 2 in \<open>auto simp: e_def\<close>)
  moreover have "sort_key fst e = e"
    by (rule sort_key_id_if_sorted) (simp add: e_def)
  ultimately show ?case by (simp add: e_def)
qed simp_all

definition json_codec :: "(pyval \<Rightarrow> string) \<Rightarrow> (string \<Rightarrow> pyval option) \<Rightarrow> bool" where
  "json_codec dumps loads \<longleftrightarrow>
     (\<forall>v w. sort_keys v = sort_keys w \<longrightarrow> dumps v = dumps w) \<and>
     (\<forall>v. loads (dumps v) = Some (sort_keys v) \<and> dumps v \<noteq> [])"

abbreviation sorted_fields :: "pydict \<Rightarrow> pydict" where
  "sorted_fields d \<equiv> sort_key fst (map (\<lambda>(k, v). (k, sort_keys v)) d)"

lemma codec_fields:
  assumes "json_codec dumps loads"
  shows "deserialize_json_dict loads (Some (dumps (PDict d))) = sorted_fields d"
  using assms by (simp add: json_codec_def deserialize_json_dict_def)

lemma codec_checkpoint_hash:
  assumes "json_codec dumps loads"
  shows "compute_checkpoint_hash sha dumps c a r h (sorted_fields d) =
    compute_checkpoint_hash sha dumps c a r h d"
proof -
  have "sort_keys (PDict (sorted_fields d)) = sort_keys (PDict d)"
    using sort_keys_idem [of "PDict d"] by simp
  then have "sort_keys (PDict (pre @ [(''fields'', PDict (sorted_fields d))])) =
      sort_keys (PDict (pre @ [(''fields'', PDict d)]))" for pre
    by (simp only: sort_keys.simps(2) map_append list.map split)
  from this [of "[(''checkpoint_id'', PStr c), (''action_id'', PStr a), (''resource_id'', PStr r),
      (''state_hash'', (case h of None \<Rightarrow> PNone | Some h \<Rightarrow> PStr h))]"] assms
  show ?thesis
    unfolding compute_checkpoint_hash_def json_codec_def by (metis append_Cons append_Nil)
qed

lemma strategy_of_value [simp]: "strategy_of (strategy_value st) = Inr st"
  by (cases st) (simp_all add: strategy_of_def)

text \<open>The row a successful creation adds.\<close>

lemma created_row:
  assumes "create_checkpoint sha dumps i now t a g r ty state (Member st) vt et rows = (Inr c, rows')"
  obtains row where "rows' = rows @ [row]" and "i \<notin> cr_checkpoint_id ` set rows" and
    "cr_checkpoint_id row = i" and "cr_tenant_id row = t" and "cr_action_id row = a" and
    "cr_resource_id row = r" and "cr_strategy row = strategy_value st" and
    "cr_state_hash row = state_hash_of sha dumps state" and
    "cr_recoverable_fields row = Some (dumps (PDict (case state of None \<Rightarrow> [] | Some d \<Rightarrow> d)))" and
    "cr_checkpoint_hash row = compute_checkpoint_hash sha dumps i a r (state_hash_of sha dumps state)
       (case state of None \<Rightarrow> [] | Some d \<Rightarrow> d)"
  using assms
  by (auto simp: create_checkpoint_def save_checkpoint_def sql_insert_def Let_def split: if_splits)

lemma verify_found:
  assumes "checkpoint_to_entity loads row = Inr c"
    and "sql_select (\<lambda>r. cr_checkpoint_id r = i \<and> cr_tenant_id r = t) rows = [row]"
  shows "verify_checkpoint_integrity sha dumps loads t i rows = Inr Verified \<longleftrightarrow>
    ck_checkpoint_hash c \<noteq> [] \<and>
    ck_checkpoint_hash c = compute_checkpoint_hash sha dumps (ck_checkpoint_id c) (ck_action_id c)
      (ck_resource_id c) (ck_state_hash c) (ck_recoverable_fields c)"
  using assms by (auto simp: verify_checkpoint_integrity_def get_by_checkpoint_id_def Let_def)

lemma entity_fields:
  "checkpoint_to_entity loads row = Inr c \<Longrightarrow>
     ck_checkpoint_id c = cr_checkpoint_id row \<and> ck_action_id c = cr_action_id row \<and>
     ck_resource_id c = cr_resource_id row \<and> ck_state_hash c = cr_state_hash row \<and>
     ck_checkpoint_hash c = cr_checkpoint_hash row \<and>
     ck_recoverable_fields c = deserialize_json_dict loads (cr_recoverable_fields row)"
  by (auto simp: checkpoint_to_entity_def split: sum.splits)

lemma to_hex_Nil: "to_hex bs = [] \<longleftrightarrow> bs = []"
  by (cases bs) simp_all

lemma created_verifies:
  assumes "json_codec dumps loads" and "\<And>v. sha (dumps v) \<noteq> []"
    and "create_checkpoint sha dumps i now t a g r ty state (Member st) vt et rows = (Inr c, rows')"
  shows "verify_checkpoint_integrity sha dumps loads t i rows' = Inr Verified"
proof -
  obtain row where row: "rows' = rows @ [row]" "i \<notin> cr_checkpoint_id ` set rows"
    "cr_checkpoint_id row = i" "cr_tenant_id row = t" "cr_action_id row = a"
    "cr_resource_id row = r" "cr_strategy row = strategy_value st"
    "cr_state_hash row = state_hash_of sha dumps state"
    "cr_recoverable_fields row = Some (dumps (PDict (case state of None \<Rightarrow> [] | Some d \<Rightarrow> d)))"
    "cr_checkpoint_hash row = compute_checkpoint_hash sha dumps i a r (state_hash_of sha dumps state)
       (case state of None \<Rightarrow> [] | Some d \<Rightarrow> d)"
    using created_row [OF assms(3)] by metis
  obtain e where e: "checkpoint_to_entity loads row = Inr e"
    by (simp add: checkpoint_to_entity_def row(7))
  have sel: "sql_select (\<lambda>r. cr_checkpoint_id r = i \<and> cr_tenant_id r = t) rows' = [row]"
    using row(1-4) by (auto simp: sql_select_def filter_empty_conv image_iff)
  have "compute_checkpoint_hash sha dumps c' a' r' h d \<noteq> []" for c' a' r' h d
    by (simp add: compute_checkpoint_hash_def hexdigest_def to_hex_Nil assms(2))
  then show ?thesis
    unfolding verify_found [OF e sel]
    using entity_fields [OF e] row by (simp add: codec_fields [OF assms(1)] codec_checkpoint_hash [OF assms(1)])
qed

lemma created_hash:
  "create_checkpoint sha dumps i now t a g r ty state (Member st) vt et rows = (Inr c, rows') \<Longrightarrow>
     ck_checkpoint_hash c = compute_checkpoint_hash sha dumps i a r (state_hash_of sha dumps state)
       (case state of None \<Rightarrow> [] | Some d \<Rightarrow> d)"
  by (auto simp: create_checkpoint_def save_checkpoint_def Let_def split: option.splits)

text \<open>
  A checkpoint that was created is found and verifies: reading the row back and hashing what was
  read gives the recorded hash, although the fields went through JSON and lost their order.
\<close>

theorem created_checkpoint_verifies:
  assumes "json_codec dumps loads" and "sha256_like sha"
    and "create_checkpoint sha dumps i now t a g r ty state (Member st) vt et rows = (Inr c, rows')"
  shows "verify_checkpoint_integrity sha dumps loads t i rows' = Inr Verified"
  using created_verifies [OF assms(1) _ assms(3)] assms(2)
  by (metis list.size(3) numeral_eq_iff sha256_like_def zero_neq_numeral)

text \<open>A codec and a digest with the properties the theorem needs.\<close>

definition sample_json_dumps :: "pyval \<Rightarrow> string" where
  "sample_json_dumps v = replicate (Suc (to_nat (sort_keys v))) (CHR ''x'')"

definition sample_json_loads :: "string \<Rightarrow> pyval option" where
  "sample_json_loads s = Some (from_nat (length s - 1))"

lemma sample_codec: "json_codec sample_json_dumps sample_json_loads"
  by (simp add: json_codec_def sample_json_dumps_def sample_json_loads_def)

lemma sample_checkpoint:
  obtains c rows' where
    "create_checkpoint (\<lambda>_. replicate 32 CHR ''0'') sample_json_dumps ''cp'' 0 ''t'' ''a'' ''g'' ''r''
       ''db'' (Some sample_before) (Member CP_FULL_STATE) None None [] = (Inr c, rows')"
  by (simp add: create_checkpoint_def save_checkpoint_def sql_insert_def Let_def)

theorem created_checkpoint_verifies_witness:
  "\<exists>c rows'. create_checkpoint (\<lambda>_. replicate 32 CHR ''0'') sample_json_dumps ''cp'' 0 ''t'' ''a'' ''g''
       ''r'' ''db'' (Some sample_before) (Member CP_FULL_STATE) None None [] = (Inr c, rows') \<and>
     verify_checkpoint_integrity (\<lambda>_. replicate 32 CHR ''0'') sample_json_dumps sample_json_loads
       ''t'' ''cp'' rows' = Inr Verified"
proof -
  obtain c rows' where c: "create_checkpoint (\<lambda>_. replicate 32 CHR ''0'') sample_json_dumps ''cp'' 0
      ''t'' ''a'' ''g'' ''r'' ''db'' (Some sample_before) (Member CP_FULL_STATE) None None [] =
      (Inr c, rows')" using sample_checkpoint .
  show ?thesis
    using c created_checkpoint_verifies [OF sample_codec _ c] by (auto simp: sha256_like_def)
qed

text \<open>The payload of a checkpoint hash is determined by its sorted form.\<close>

lemma sort_keys_entry:
  "sort_keys (PDict d) = sort_keys (PDict e) \<Longrightarrow> (k, v) \<in> set d \<Longrightarrow>
     (k, sort_keys v) \<in> (\<lambda>(k, v). (k, sort_keys v)) ` set e"
proof -
  assume eq: "sort_keys (PDict d) = sort_keys (PDict e)" and "(k, v) \<in> set d"
  from eq have "set (sorted_fields d) = set (sorted_fields e)" by simp
  then have "(\<lambda>(k, v). (k, sort_keys v)) ` set d = (\<lambda>(k, v). (k, sort_keys v)) ` set e" by simp
  with \<open>(k, v) \<in> set d\<close> show ?thesis by (metis (mono_tags, lifting) case_prod_conv image_eqI)
qed

lemma payload_inject:
  assumes "sort_keys (PDict [(''checkpoint_id'', PStr c), (''action_id'', PStr a), (''resource_id'', PStr r),
      (''state_hash'', (case h of None \<Rightarrow> PNone | Some x \<Rightarrow> PStr x)), (''fields'', PDict f)]) =
    sort_keys (PDict [(''checkpoint_id'', PStr c'), (''action_id'', PStr a'), (''resource_id'', PStr r'),
      (''state_hash'', (case h' of None \<Rightarrow> PNone | Some x \<Rightarrow> PStr x)), (''fields'', PDict f')])"
  shows "c' = c \<and> a' = a \<and> r' = r \<and> h' = h \<and> sort_keys (PDict f') = sort_keys (PDict f)"
proof -
  note entry = sort_keys_entry [OF assms]
  have "c' = c" using entry [of "''checkpoint_id''" "PStr c"] by simp
  moreover have "a' = a" using entry [of "''action_id''" "PStr a"] by simp
  moreover have "r' = r" using entry [of "''resource_id''" "PStr r"] by simp
  moreover have "h' = h"
    using entry [of "''state_hash''" "case h of None \<Rightarrow> PNone | Some x \<Rightarrow> PStr x"]
    by (simp split: option.splits)
  moreover have "sort_keys (PDict f') = sort_keys (PDict f)"
    using entry [of "''fields''" "PDict f"] by simp
  ultimately show ?thesis by simp
qed

text \<open>
  A verified checkpoint was not altered: a row that verifies and carries the hash of a created
  checkpoint has the identifiers, the state hash and (up to the order of keys) the fields of that
  checkpoint, unless two different texts have the same SHA-256 digest.
\<close>

theorem checkpoint_tampering_detected:
  assumes "json_codec dumps loads"
    and "create_checkpoint sha dumps i now t a g r ty state (Member st) vt et rows = (Inr c, rows')"
    and "verify_checkpoint_integrity sha dumps loads t' i' [row] = Inr Verified"
    and "cr_checkpoint_hash row = ck_checkpoint_hash c"
  shows "(cr_checkpoint_id row = i \<and> cr_action_id row = a \<and> cr_resource_id row = r \<and>
      cr_state_hash row = state_hash_of sha dumps state \<and>
      sort_keys (PDict (deserialize_json_dict loads (cr_recoverable_fields row))) =
        sort_keys (PDict (case state of None \<Rightarrow> [] | Some d \<Rightarrow> d))) \<or>
    (\<exists>x y. x \<noteq> y \<and> sha x = sha y)"
proof (cases "\<exists>x y. x \<noteq> y \<and> sha x = sha y")
  case False
  let ?pay = "\<lambda>ci ai ri sh (f :: pydict). PDict [(''checkpoint_id'', PStr ci), (''action_id'', PStr ai),
    (''resource_id'', PStr ri), (''state_hash'', (case sh of None \<Rightarrow> PNone | Some h \<Rightarrow> PStr h)),
    (''fields'', PDict f)]"
  let ?f = "case state of None \<Rightarrow> [] | Some d \<Rightarrow> d"
  have sel: "sql_select (\<lambda>r. cr_checkpoint_id r = i' \<and> cr_tenant_id r = t') [row] = [row]"
    using assms(3)
    by (auto simp: verify_checkpoint_integrity_def get_by_checkpoint_id_def sql_select_def
        split: if_splits)
  obtain e where e: "checkpoint_to_entity loads row = Inr e"
    using assms(3) sel
    by (cases "checkpoint_to_entity loads row")
      (simp_all add: verify_checkpoint_integrity_def get_by_checkpoint_id_def)
  let ?g = "deserialize_json_dict loads (cr_recoverable_fields row)"
  define P where "P = ?pay i a r (state_hash_of sha dumps state) ?f"
  define Q where "Q = ?pay (cr_checkpoint_id row) (cr_action_id row) (cr_resource_id row)
    (cr_state_hash row) ?g"
  have "sha (dumps P) = sha (dumps Q)"
    using assms(3,4) verify_found [OF e sel] entity_fields [OF e] created_hash [OF assms(2)]
    by (simp add: compute_checkpoint_hash_def hexdigest_def P_def Q_def)
  then have "dumps P = dumps Q" using False by blast
  then have "sort_keys P = sort_keys Q"
    using assms(1) unfolding json_codec_def by (metis option.inject)
  from payload_inject [OF this [unfolded P_def Q_def]] show ?thesis by simp
qed blast

theorem checkpoint_tampering_detected_witness:
  "\<exists>c row. create_checkpoint id sample_json_dumps ''cp'' 0 ''t'' ''a'' ''g'' ''r'' ''db''
       (Some sample_before) (Member CP_FULL_STATE) None None [] = (Inr c, [row]) \<and>
     verify_checkpoint_integrity id sample_json_dumps sample_json_loads ''t'' ''cp'' [row] =
       Inr Verified \<and>
     sort_keys (PDict (deserialize_json_dict sample_json_loads (cr_recoverable_fields row))) =
       sort_keys (PDict sample_before)"
proof -
  obtain c rows' where c': "create_checkpoint id sample_json_dumps ''cp'' 0 ''t'' ''a'' ''g'' ''r'' ''db''
      (Some sample_before) (Member CP_FULL_STATE) None None [] = (Inr c, rows')"
    by (simp add: create_checkpoint_def save_checkpoint_def sql_insert_def Let_def)
  obtain row where row: "rows' = [row]" and hash: "cr_checkpoint_hash row = ck_checkpoint_hash c"
    using created_row [OF c'] created_hash [OF c'] by (metis append_Nil)
  note c = c' [unfolded row]
  have v: "verify_checkpoint_integrity id sample_json_dumps sample_json_loads ''t'' ''cp'' [row] =
      Inr Verified"
    by (rule created_verifies [OF sample_codec _ c]) (simp add: sample_json_dumps_def)
  show ?thesis
    using c v checkpoint_tampering_detected [OF sample_codec c v hash] by auto
qed

text \<open>
  The default strategy cannot be stored: \<open>create_checkpoint\<close> called without a strategy passes the
  string \<open>full_state\<close> where the repository reads the \<open>value\<close> of an enumeration member, so the call
  raises \<open>AttributeError\<close> and no checkpoint is written.
\<close>

theorem default_strategy_raises:
  "create_checkpoint sha dumps i now t a g r ty state default_strategy vt et rows =
     (Inl (AttributeError ''str has no attribute value''), rows)"
  by (simp add: create_checkpoint_def save_checkpoint_def default_strategy_def Let_def)

end
