(* ===== verification/Cycle_Search.thy ===== *)
theory Cycle_Search
  imports Interlock_Prelude
begin

text \<open>
  The depth-first search for cycles that \<open>GraphIntegrationService.check_cycles\<close>
  (\<open>graph_integration_service.py\<close>) and \<open>RecoveryIntelligenceService._detect_cycles\<close>
  (\<open>recovery_intelligence.py\<close>) share: the inner function \<open>dfs\<close> and the loop that starts it at every
  unvisited key of the adjacency dictionary.

  The recursion is written with its call stack explicit: a frame is a node with the neighbours its
  loop has still to look at. Shown: the search ends, every list it records is a closed walk along
  the edges, and it records one exactly when the graph has a cycle.
\<close>

type_synonym adjacency = "(string, string list) dict"

definition adj_get :: "adjacency \<Rightarrow> string \<Rightarrow> string list" where
  "adj_get adj n = (case map_of adj n of None \<Rightarrow> [] | Some ms \<Rightarrow> ms)"

record dfs_state =
  df_visited :: "string set"
  df_rec_stack :: "string set"
  df_cycles :: "string list list"
  df_path :: "string list"

definition dfs_enter :: "string \<Rightarrow> dfs_state \<Rightarrow> dfs_state" where
  "dfs_enter n st =
     st\<lparr>df_visited := insert n (df_visited st), df_rec_stack := insert n (df_rec_stack st),
        df_path := df_path st @ [n]\<rparr>"

definition dfs_leave :: "string \<Rightarrow> dfs_state \<Rightarrow> dfs_state" where
  "dfs_leave n st = st\<lparr>df_rec_stack := df_rec_stack st - {n}, df_path := butlast (df_path st)\<rparr>"

text \<open>\<open>path[path.index(neighbor):] + [neighbor]\<close>\<close>

definition dfs_found :: "string \<Rightarrow> dfs_state \<Rightarrow> dfs_state" where
  "dfs_found m st = st\<lparr>df_cycles := df_cycles st @ [dropWhile (\<lambda>x. x \<noteq> m) (df_path st) @ [m]]\<rparr>"

lemma dfs_sel [simp]:
  "df_visited (dfs_enter n st) = insert n (df_visited st)"
  "df_rec_stack (dfs_enter n st) = insert n (df_rec_stack st)"
  "df_path (dfs_enter n st) = df_path st @ [n]"
  "df_cycles (dfs_enter n st) = df_cycles st"
  "df_visited (dfs_leave n st) = df_visited st"
  "df_rec_stack (dfs_leave n st) = df_rec_stack st - {n}"
  "df_path (dfs_leave n st) = butlast (df_path st)"
  "df_cycles (dfs_leave n st) = df_cycles st"
  "df_visited (dfs_found n st) = df_visited st"
  "df_rec_stack (dfs_found n st) = df_rec_stack st"
  "df_path (dfs_found n st) = df_path st"
  "df_cycles (dfs_found n st) = df_cycles st @ [dropWhile (\<lambda>x. x \<noteq> n) (df_path st) @ [n]]"
  by (simp_all add: dfs_enter_def dfs_leave_def dfs_found_def)

function dfs_run :: "adjacency \<Rightarrow> (string \<times> string list) list \<Rightarrow> dfs_state \<Rightarrow> dfs_state" where
  "dfs_run adj [] st = st"
| "dfs_run adj ((n, []) # frames) st = dfs_run adj frames (dfs_leave n st)"
| "dfs_run adj ((n, m # ms) # frames) st =
     (if m \<notin> df_visited st
      then dfs_run adj ((m, adj_get adj m) # (n, ms) # frames) (dfs_enter m st)
      else if m \<in> df_rec_stack st
      then dfs_run adj ((n, ms) # frames) (dfs_found m st)
      else dfs_run adj ((n, ms) # frames) st)"
  by pat_completeness auto
termination
proof (relation "measures [\<lambda>(adj, frames, st). card (fst ` set adj - df_visited st),
    \<lambda>(adj, frames, st). sum_list (map (\<lambda>(n, ms). 2 * length ms + 1) frames)]", goal_cases)
  case (3 adj n m ms frames st)
  show ?case
  proof (cases "m \<in> fst ` set adj")
    case True
    have "fst ` set adj - insert m (df_visited st) \<subset> fst ` set adj - df_visited st"
      using True 3 by blast
    then have "card (fst ` set adj - insert m (df_visited st)) < card (fst ` set adj - df_visited st)"
      by (intro psubset_card_mono) simp_all
    then show ?thesis by simp
  next
    case False
    then have "map_of adj m = None" by (simp add: map_of_eq_None_iff)
    then have "adj_get adj m = []" by (simp add: adj_get_def)
    moreover have "fst ` set adj - insert m (df_visited st) = fst ` set adj - df_visited st"
      using False by blast
    ultimately show ?thesis by simp
  qed
qed simp_all

definition dfs_init :: dfs_state where
  "dfs_init = \<lparr>df_visited = {}, df_rec_stack = {}, df_cycles = [], df_path = []\<rparr>"

definition dfs_start :: "adjacency \<Rightarrow> string \<Rightarrow> dfs_state \<Rightarrow> dfs_state" where
  "dfs_start adj n st =
     (if n \<notin> df_visited st then dfs_run adj [(n, adj_get adj n)] (dfs_enter n st) else st)"

definition find_cycles :: "adjacency \<Rightarrow> string list list" where
  "find_cycles adj = df_cycles (fold (dfs_start adj) (map fst adj) dfs_init)"

section \<open>Every recorded list is a cycle\<close>

abbreviation adj_edge :: "adjacency \<Rightarrow> string \<Rightarrow> string \<Rightarrow> bool" where
  "adj_edge adj a b \<equiv> b \<in> set (adj_get adj a)"

definition adj_edges :: "adjacency \<Rightarrow> (string \<times> string) set" where
  "adj_edges adj = {(a, b). adj_edge adj a b}"

definition closed_walk :: "adjacency \<Rightarrow> string list \<Rightarrow> bool" where
  "closed_walk adj c \<longleftrightarrow> 2 \<le> length c \<and> hd c = last c \<and> successively (adj_edge adj) c"

text \<open>What the stack says of the path, and what has been recorded so far.\<close>

definition stack_inv :: "adjacency \<Rightarrow> (string \<times> string list) list \<Rightarrow> dfs_state \<Rightarrow> bool" where
  "stack_inv adj frames st \<longleftrightarrow>
     df_path st = rev (map fst frames) \<and> df_rec_stack st = set (map fst frames) \<and>
     distinct (map fst frames) \<and> set (map fst frames) \<subseteq> df_visited st \<and>
     successively (\<lambda>a b. adj_edge adj b a) (map fst frames) \<and>
     list_all (\<lambda>f. set (snd f) \<subseteq> set (adj_get adj (fst f))) frames \<and>
     list_all (closed_walk adj) (df_cycles st)"

lemma stack_inv_leave:
  "stack_inv adj ((n, []) # frames) st \<Longrightarrow> stack_inv adj frames (dfs_leave n st)"
proof -
  assume inv: "stack_inv adj ((n, []) # frames) st"
  then have "successively (\<lambda>a b. adj_edge adj b a) (map fst frames)"
    by (cases frames) (auto simp: stack_inv_def)
  with inv show ?thesis unfolding stack_inv_def by (elim conjE) simp
qed

lemma stack_inv_enter:
  assumes "stack_inv adj ((n, m # ms) # frames) st" and "m \<notin> df_visited st"
  shows "stack_inv adj ((m, adj_get adj m) # (n, ms) # frames) (dfs_enter m st)"
proof -
  have "m \<notin> set (map fst ((n, ms) # frames))" using assms by (auto simp: stack_inv_def)
  then show ?thesis
    using assms unfolding stack_inv_def by (elim conjE) (simp add: insert_subset subset_insertI2)
qed

lemma stack_inv_skip:
  "stack_inv adj ((n, m # ms) # frames) st \<Longrightarrow> stack_inv adj ((n, ms) # frames) st"
  unfolding stack_inv_def by (elim conjE) simp

lemma walk_from:
  assumes "successively P (xs @ [n])" and "m \<in> set (xs @ [n])" and "P n m"
  shows "2 \<le> length (dropWhile (\<lambda>x. x \<noteq> m) (xs @ [n]) @ [m]) \<and>
    hd (dropWhile (\<lambda>x. x \<noteq> m) (xs @ [n]) @ [m]) = m \<and>
    successively P (dropWhile (\<lambda>x. x \<noteq> m) (xs @ [n]) @ [m])"
proof -
  let ?d = "dropWhile (\<lambda>x. x \<noteq> m) (xs @ [n])"
  have ne: "?d \<noteq> []" using assms(2) by (metis (mono_tags, lifting) dropWhile_eq_Nil_conv)
  have hd: "hd ?d = m" using hd_dropWhile [OF ne] by simp
  have "xs @ [n] = takeWhile (\<lambda>x. x \<noteq> m) (xs @ [n]) @ ?d" by simp
  then have "successively P ?d" and "last ?d = n"
    using assms(1) ne by (metis successively_append_iff, metis last_appendR last_snoc)
  then have "successively P (?d @ [m])" using assms(3) ne by (simp add: successively_append_iff)
  moreover have "2 \<le> length (?d @ [m])" using ne by (simp add: Suc_le_eq)
  ultimately show ?thesis using ne hd by (simp add: hd_append)
qed

lemma stack_inv_found:
  assumes "stack_inv adj ((n, m # ms) # frames) st" and "m \<in> df_rec_stack st"
  shows "stack_inv adj ((n, ms) # frames) (dfs_found m st)"
proof -
  have "successively (adj_edge adj) (rev (map fst frames) @ [n])"
    using assms(1) successively_rev [of "adj_edge adj" "map fst ((n, ms) # frames)"]
    by (simp add: stack_inv_def)
  moreover have "m \<in> set (rev (map fst frames) @ [n])" and "adj_edge adj n m"
    and path: "df_path st = rev (map fst frames) @ [n]"
    using assms by (simp_all add: stack_inv_def)
  ultimately have "closed_walk adj (dropWhile (\<lambda>x. x \<noteq> m) (df_path st) @ [m])"
    using walk_from [of "adj_edge adj" "rev (map fst frames)" n m] by (simp add: closed_walk_def)
  then show ?thesis using assms unfolding stack_inv_def by (elim conjE) simp
qed

lemma dfs_run_stack:
  "stack_inv adj frames st \<Longrightarrow> stack_inv adj [] (dfs_run adj frames st)"
proof (induction adj frames st rule: dfs_run.induct)
  case (2 adj n frames st)
  then show ?case by (simp add: stack_inv_leave)
next
  case (3 adj n m ms frames st)
  then show ?case using stack_inv_enter stack_inv_found stack_inv_skip by simp
qed simp

lemma stack_inv_start:
  assumes "stack_inv adj [] st" and "n \<notin> df_visited st"
  shows "stack_inv adj [(n, adj_get adj n)] (dfs_enter n st)"
  using assms by (simp add: stack_inv_def)

lemma dfs_start_stack: "stack_inv adj [] st \<Longrightarrow> stack_inv adj [] (dfs_start adj n st)"
  by (simp add: dfs_start_def stack_inv_start dfs_run_stack)

lemma search_stack: "stack_inv adj [] st \<Longrightarrow> stack_inv adj [] (fold (dfs_start adj) ns st)"
  by (induction ns arbitrary: st) (simp_all add: dfs_start_stack)

lemma find_cycles_sound: "c \<in> set (find_cycles adj) \<Longrightarrow> closed_walk adj c"
  using search_stack [of adj dfs_init "map fst adj"]
  by (simp add: find_cycles_def stack_inv_def dfs_init_def list_all_iff)

section \<open>No recorded list means no cycle\<close>

text \<open>
  The finished nodes are the visited ones that are not on the stack. As long as nothing has been
  recorded they are closed under edges and their edges have no cycle; the neighbours a frame has
  passed are finished, except the one whose search is the frame above.
\<close>

abbreviation finished :: "dfs_state \<Rightarrow> string set" where
  "finished st \<equiv> df_visited st - df_rec_stack st"

fun frames_ok :: "adjacency \<Rightarrow> string set \<Rightarrow> string set \<Rightarrow> (string \<times> string list) list \<Rightarrow> bool" where
  "frames_ok adj F up [] \<longleftrightarrow> True"
| "frames_ok adj F up ((n, ms) # frames) \<longleftrightarrow>
     set (adj_get adj n) \<subseteq> F \<union> up \<union> set ms \<and> frames_ok adj F {n} frames"

definition done_inv :: "adjacency \<Rightarrow> (string \<times> string list) list \<Rightarrow> dfs_state \<Rightarrow> bool" where
  "done_inv adj frames st \<longleftrightarrow>
     adj_edges adj `` finished st \<subseteq> finished st \<and>
     acyclic {(a, b) \<in> adj_edges adj. a \<in> finished st} \<and>
     frames_ok adj (finished st) {} frames"

lemma frames_ok_mono:
  "frames_ok adj F A frames \<Longrightarrow> F \<subseteq> F' \<Longrightarrow> A \<subseteq> F' \<union> A' \<Longrightarrow> frames_ok adj F' A' frames"
proof (induction frames arbitrary: A A')
  case (Cons f frames)
  obtain n ms where f: "f = (n, ms)" by force
  show ?case using Cons.prems Cons.IH [of "{n}" "{n}"] by (auto simp: f)
qed simp

lemma acyclic_add_source:
  assumes "acyclic {(a, b) \<in> E. a \<in> F}" and "E `` F \<subseteq> F" and "n \<notin> F" and "E `` {n} \<subseteq> F"
  shows "acyclic {(a, b) \<in> E. a \<in> insert n F}"
proof (rule acyclicI, rule allI, rule notI)
  fix x
  assume cyc: "(x, x) \<in> {(a, b) \<in> E. a \<in> insert n F}\<^sup>+"
  have stay: "a \<in> F \<Longrightarrow> b \<in> F \<and> (a, b) \<in> {(a, b) \<in> E. a \<in> F}\<^sup>+"
    if "(a, b) \<in> {(a, b) \<in> E. a \<in> insert n F}\<^sup>+" for a b
    using that
  proof (induction rule: trancl_induct)
    case (base b)
    then show ?case using assms(2,3) by auto
  next
    case (step b c)
    then have "b \<in> F" and "(a, b) \<in> {(a, b) \<in> E. a \<in> F}\<^sup>+" and "(b, c) \<in> E" by auto
    then show ?case using assms(2) by (auto intro: trancl.intros(2))
  qed
  obtain y where "(x, y) \<in> {(a, b) \<in> E. a \<in> insert n F}" and
    "(y, x) \<in> {(a, b) \<in> E. a \<in> insert n F}\<^sup>*"
    using cyc by (meson tranclD)
  then have "x \<in> F"
    using assms(2,4) stay [of y x] by (auto simp: rtrancl_eq_or_trancl)
  with stay [OF cyc] assms(1) show False by (auto simp: acyclic_def)
qed

lemma done_inv_leave:
  assumes "done_inv adj ((n, []) # frames) st" and "stack_inv adj ((n, []) # frames) st"
  shows "done_inv adj frames (dfs_leave n st)"
proof -
  let ?F = "finished st"
  have fin: "finished (dfs_leave n st) = insert n ?F" and "n \<notin> ?F"
    using assms(2) by (auto simp: stack_inv_def)
  have succ: "set (adj_get adj n) \<subseteq> ?F" and "frames_ok adj ?F {n} frames" and
    closed: "adj_edges adj `` ?F \<subseteq> ?F" and ac: "acyclic {(a, b) \<in> adj_edges adj. a \<in> ?F}"
    using assms(1) by (simp_all add: done_inv_def)
  then have "frames_ok adj (insert n ?F) {} frames"
    by (auto elim: frames_ok_mono)
  moreover have "adj_edges adj `` insert n ?F \<subseteq> insert n ?F"
    using closed succ by (auto simp: adj_edges_def)
  moreover have "acyclic {(a, b) \<in> adj_edges adj. a \<in> insert n ?F}"
    by (rule acyclic_add_source [OF ac closed \<open>n \<notin> ?F\<close>]) (use succ in \<open>auto simp: adj_edges_def\<close>)
  ultimately show ?thesis unfolding done_inv_def fin by simp
qed

lemma done_inv_enter:
  assumes "done_inv adj ((n, m # ms) # frames) st" and "m \<notin> df_visited st"
  shows "done_inv adj ((m, adj_get adj m) # (n, ms) # frames) (dfs_enter m st)"
proof -
  have fin: "finished (dfs_enter m st) = finished st" using assms(2) by auto
  show ?thesis using assms(1) unfolding done_inv_def fin by auto
qed

lemma done_inv_skip:
  assumes "done_inv adj ((n, m # ms) # frames) st" and "m \<in> finished st"
  shows "done_inv adj ((n, ms) # frames) st"
  using assms by (auto simp: done_inv_def)

lemma dfs_run_cycles_grow: "df_cycles (dfs_run adj frames st) = [] \<Longrightarrow> df_cycles st = []"
  by (induction adj frames st rule: dfs_run.induct) (auto split: if_splits)

lemma dfs_run_done:
  "done_inv adj frames st \<Longrightarrow> stack_inv adj frames st \<Longrightarrow> df_cycles (dfs_run adj frames st) = [] \<Longrightarrow>
     done_inv adj [] (dfs_run adj frames st)"
proof (induction adj frames st rule: dfs_run.induct)
  case (2 adj n frames st)
  then show ?case by (simp add: done_inv_leave stack_inv_leave)
next
  case (3 adj n m ms frames st)
  consider "m \<notin> df_visited st" | "m \<in> df_visited st" "m \<in> df_rec_stack st" | "m \<in> finished st"
    by blast
  then show ?case
  proof cases
    case 1
    with 3 show ?thesis using done_inv_enter stack_inv_enter by simp
  next
    case 2
    then have "df_cycles (dfs_run adj ((n, ms) # frames) (dfs_found m st)) = []"
      using "3.prems"(3) by simp
    from dfs_run_cycles_grow [OF this] show ?thesis by simp
  next
    case 3
    with "3.IH"(3) "3.prems" show ?thesis using done_inv_skip stack_inv_skip by simp
  qed
qed simp

lemma dfs_run_visited: "df_visited st \<subseteq> df_visited (dfs_run adj frames st)"
  by (induction adj frames st rule: dfs_run.induct) auto

lemma dfs_start_done:
  assumes "done_inv adj [] st" and "stack_inv adj [] st" and "df_cycles (dfs_start adj n st) = []"
  shows "done_inv adj [] (dfs_start adj n st) \<and> insert n (df_visited st) \<subseteq> df_visited (dfs_start adj n st)"
proof (cases "n \<in> df_visited st")
  case True
  then show ?thesis using assms by (simp add: dfs_start_def)
next
  case False
  have fin: "finished (dfs_enter n st) = finished st" using False by auto
  have "done_inv adj [(n, adj_get adj n)] (dfs_enter n st)"
    using assms(1) unfolding done_inv_def fin by simp
  from dfs_run_done [OF this stack_inv_start [OF assms(2) False]] assms(3) False
    dfs_run_visited [of "dfs_enter n st" adj "[(n, adj_get adj n)]"]
  show ?thesis by (simp add: dfs_start_def)
qed

lemma search_cycles_grow: "df_cycles (fold (dfs_start adj) ns st) = [] \<Longrightarrow> df_cycles st = []"
proof (induction ns arbitrary: st)
  case (Cons n ns)
  then have "df_cycles (dfs_start adj n st) = []" by simp
  then show ?case using dfs_run_cycles_grow by (fastforce simp: dfs_start_def split: if_splits)
qed simp

lemma search_done:
  "done_inv adj [] st \<Longrightarrow> stack_inv adj [] st \<Longrightarrow> df_cycles (fold (dfs_start adj) ns st) = [] \<Longrightarrow>
     done_inv adj [] (fold (dfs_start adj) ns st) \<and>
     set ns \<union> df_visited st \<subseteq> df_visited (fold (dfs_start adj) ns st)"
proof (induction ns arbitrary: st)
  case (Cons n ns)
  have "df_cycles (dfs_start adj n st) = []"
    using Cons.prems(3) search_cycles_grow by simp
  from dfs_start_done [OF Cons.prems(1,2) this] Cons.IH [of "dfs_start adj n st"] Cons.prems
  show ?case using dfs_start_stack by simp blast
qed simp

lemma closed_walk_trancl: "closed_walk adj c \<Longrightarrow> (hd c, last c) \<in> (adj_edges adj)\<^sup>+"
proof -
  have "successively (adj_edge adj) c \<Longrightarrow> 2 \<le> length c \<Longrightarrow> (hd c, last c) \<in> (adj_edges adj)\<^sup>+" for c
  proof (induction c rule: induct_list012)
    case (3 a b c)
    show ?case
    proof (cases c)
      case Nil
      with 3 show ?thesis by (auto simp: adj_edges_def)
    next
      case (Cons d e)
      with 3 have "(b, last c) \<in> (adj_edges adj)\<^sup>+" and "(a, b) \<in> adj_edges adj"
        by (auto simp: adj_edges_def)
      with Cons show ?thesis by (simp add: trancl_into_trancl2)
    qed
  qed simp_all
  then show "closed_walk adj c \<Longrightarrow> ?thesis" unfolding closed_walk_def by blast
qed

lemma find_cycles_iff: "find_cycles adj = [] \<longleftrightarrow> acyclic (adj_edges adj)"
proof
  assume none: "find_cycles adj = []"
  let ?st = "fold (dfs_start adj) (map fst adj) dfs_init"
  have "done_inv adj [] dfs_init" and "stack_inv adj [] dfs_init"
    by (simp_all add: done_inv_def stack_inv_def dfs_init_def acyclic_def)
  from search_done [OF this, of "map fst adj"] none have fin: "done_inv adj [] ?st" and "fst ` set adj \<subseteq> df_visited ?st"
    by (simp_all add: find_cycles_def)
  moreover have "df_rec_stack ?st = {}"
    using search_stack [of adj dfs_init] \<open>stack_inv adj [] dfs_init\<close> by (simp add: stack_inv_def)
  moreover have "(a, b) \<in> adj_edges adj \<Longrightarrow> a \<in> fst ` set adj" for a b
    by (rule ccontr) (simp add: adj_edges_def adj_get_def map_of_eq_None_iff [THEN iffD2])
  ultimately have "{(a, b) \<in> adj_edges adj. a \<in> finished ?st} = adj_edges adj" by auto
  with fin show "acyclic (adj_edges adj)" by (simp add: done_inv_def)
next
  assume ac: "acyclic (adj_edges adj)"
  show "find_cycles adj = []"
  proof (rule ccontr)
    assume "find_cycles adj \<noteq> []"
    then obtain c where "c \<in> set (find_cycles adj)" by (meson list.set_sel(1))
    from find_cycles_sound [OF this] ac show False
      using closed_walk_trancl [of adj c] by (auto simp: closed_walk_def acyclic_def)
  qed
qed

end
