(* ===== verification/Dependency_Graph.thy ===== *)
theory Dependency_Graph
  imports Cycle_Search Plan_Order Action_Control
begin

text \<open>
  The dependency analysis of \<open>RecoveryIntelligenceService\<close>
  (\<open>app/domain/services/recovery_intelligence.py\<close>): \<open>build_dependency_graph\<close> with the dependencies
  it infers, its topological order and its cycle search, \<open>compute_recovery_ordering\<close> and
  \<open>analyze_cascading_impact\<close>.

  Shown: the reported cycles are exactly the cycles of the dependency relation; for an incident
  without a parent the order is that of the planning service; the order fails with \<open>KeyError\<close> for
  an action that has a parent, and the cascading analysis of an action with a child does not end.
\<close>

section \<open>Building the graph\<close>

record dependency_node =
  dn_action_id :: string
  dn_parent_action_id :: "string option"
  dn_children :: "string list"
  dn_depends_on :: "string list"
  dn_resource :: string
  dn_tool :: string
  dn_reversibility :: reversibility

type_synonym dependency_nodes = "(string, dependency_node) dict"

record dependency_graph =
  dg_nodes :: dependency_nodes
  dg_roots :: "string list"
  dg_leaves :: "string list"
  dg_topological_order :: "string list"
  dg_reverse_topological_order :: "string list"
  dg_cycles :: "string list list"

definition infer_dependencies :: "protected_action \<Rightarrow> protected_action list \<Rightarrow> string list" where
  "infer_dependencies action all_actions =
     (if truthy (pa_parent_action_id action) then [the (pa_parent_action_id action)] else []) @
     [pa_action_id other. other \<leftarrow> all_actions,
        pa_action_id other \<noteq> pa_action_id action \<and> pa_resource other = pa_resource action \<and>
        pa_created_at other < pa_created_at action]"

definition node_of_action :: "protected_action \<Rightarrow> dependency_node" where
  "node_of_action a =
     \<lparr>dn_action_id = pa_action_id a, dn_parent_action_id = pa_parent_action_id a, dn_children = [],
      dn_depends_on = [], dn_resource = pa_resource a, dn_tool = pa_tool a,
      dn_reversibility = normalize_rev (pa_reversibility a)\<rparr>"

definition initial_nodes :: "protected_action list \<Rightarrow> dependency_nodes" where
  "initial_nodes all_actions =
     fold (\<lambda>a d. AList.update (pa_action_id a) (node_of_action a) d) all_actions []"

text \<open>\<open>child_counts\<close>: the dictionary has an entry for every parent that is named.\<close>

definition count_children :: "protected_action list \<Rightarrow> string \<rightharpoonup> int" where
  "count_children all_actions p =
     (let n = length (filter (\<lambda>a. truthy (pa_parent_action_id a) \<and> pa_parent_action_id a = Some p)
                all_actions)
      in if n = 0 then None else Some (int n))"

text \<open>One round of the second loop: the parent learns its child, the action its dependencies.\<close>

definition add_child :: "string \<Rightarrow> dependency_node \<Rightarrow> dependency_node" where
  "add_child c n = n\<lparr>dn_children := dn_children n @ [c]\<rparr>"

definition add_dependency :: "string \<Rightarrow> dependency_node \<Rightarrow> dependency_node" where
  "add_dependency dep n = n\<lparr>dn_depends_on := dn_depends_on n @ [dep]\<rparr>"

definition link_parent :: "protected_action \<Rightarrow> dependency_nodes \<Rightarrow> dependency_nodes" where
  "link_parent a nodes =
     (if truthy (pa_parent_action_id a) \<and> map_of nodes (the (pa_parent_action_id a)) \<noteq> None
      then AList.map_entry (the (pa_parent_action_id a)) (add_child (pa_action_id a)) nodes
      else nodes)"

definition link_action ::
  "protected_action list \<Rightarrow> protected_action \<Rightarrow> dependency_nodes \<Rightarrow> dependency_nodes" where
  "link_action all_actions a nodes =
     fold (\<lambda>dep nodes. if map_of nodes dep \<noteq> None
                       then AList.map_entry (pa_action_id a) (add_dependency dep) nodes else nodes)
       (infer_dependencies a all_actions) (link_parent a nodes)"

definition linked_nodes :: "protected_action list \<Rightarrow> dependency_nodes" where
  "linked_nodes all_actions = fold (link_action all_actions) all_actions (initial_nodes all_actions)"

lemma order_shrinks:
  assumes "map_of nodes current = Some node" and "current \<notin> set order"
  shows "card (fst ` set nodes - insert current (set order)) < card (fst ` set nodes - set order)"
proof (rule psubset_card_mono)
  show "fst ` set nodes - insert current (set order) \<subset> fst ` set nodes - set order"
    using assms by (force dest: map_of_SomeD)
qed simp

text \<open>
  The loop of \<open>_compute_topological_order\<close>. \<open>nodes[current]\<close> raises \<open>KeyError\<close> for a queued
  identifier that is not a node.
\<close>

function dep_topo_loop ::
  "dependency_nodes \<Rightarrow> (string \<rightharpoonup> int) \<Rightarrow> string list \<Rightarrow> string list \<Rightarrow> py_error + string list" where
  "dep_topo_loop nodes counts [] order = Inr order"
| "dep_topo_loop nodes counts (current # queue) order =
     (if current \<in> set order then dep_topo_loop nodes counts queue order
      else
        (case map_of nodes current of
           None \<Rightarrow> Inl (KeyError current)
         | Some node \<Rightarrow>
             (case dn_parent_action_id node of
                None \<Rightarrow> dep_topo_loop nodes counts queue (order @ [current])
              | Some parent \<Rightarrow>
                  if parent = [] then dep_topo_loop nodes counts queue (order @ [current])
                  else
                    (case counts parent of
                       None \<Rightarrow> dep_topo_loop nodes counts queue (order @ [current])
                     | Some c \<Rightarrow>
                         dep_topo_loop nodes (counts(parent \<mapsto> c - 1))
                           (if c - 1 = 0 then queue @ [parent] else queue) (order @ [current])))))"
  by pat_completeness auto
termination
proof (relation "measures [\<lambda>(nodes, counts, queue, order). card (fst ` set nodes - set order),
    \<lambda>(nodes, counts, queue, order). length queue]", goal_cases)
  case 1
  then show ?case by simp
next
  case (2 nodes counts current queue order)
  then show ?case by simp
next
  case (3 nodes counts current queue order node)
  then show ?case using order_shrinks [of nodes current node order] by simp
next
  case (4 nodes counts current queue order node parent)
  then show ?case using order_shrinks [of nodes current node order] by simp
next
  case (5 nodes counts current queue order node parent)
  then show ?case using order_shrinks [of nodes current node order] by simp
next
  case (6 nodes counts current queue order node parent c)
  then show ?case using order_shrinks [of nodes current node order] by simp
qed

definition dep_topological_order ::
  "dependency_nodes \<Rightarrow> (string \<rightharpoonup> int) \<Rightarrow> py_error + string list" where
  "dep_topological_order nodes counts =
     (case dep_topo_loop nodes counts
        [n. n \<leftarrow> map fst nodes, (case counts n of None \<Rightarrow> 0 | Some c \<Rightarrow> c) = 0] [] of
        Inl e \<Rightarrow> Inl e
      | Inr order \<Rightarrow> Inr (order @ [n. n \<leftarrow> map fst nodes, n \<notin> set order]))"

text \<open>\<open>_detect_cycles\<close>: the search over the dependencies that are nodes.\<close>

definition dependency_adjacency :: "dependency_nodes \<Rightarrow> adjacency" where
  "dependency_adjacency nodes =
     map (\<lambda>(i, n). (i, filter (\<lambda>d. map_of nodes d \<noteq> None) (dn_depends_on n))) nodes"

definition detect_cycles :: "dependency_nodes \<Rightarrow> string list list" where
  "detect_cycles nodes = find_cycles (dependency_adjacency nodes)"

definition dependency_graph_of :: "protected_action list \<Rightarrow> py_error + dependency_graph" where
  "dependency_graph_of all_actions =
     (let nodes = linked_nodes all_actions
      in case dep_topological_order nodes (count_children all_actions) of
           Inl e \<Rightarrow> Inl e
         | Inr order \<Rightarrow> Inr
             \<lparr>dg_nodes = nodes,
              dg_roots = [dn_action_id n. n \<leftarrow> map snd nodes, dn_parent_action_id n = None],
              dg_leaves = [dn_action_id n. n \<leftarrow> map snd nodes, dn_children n = []],
              dg_topological_order = order, dg_reverse_topological_order = rev order,
              dg_cycles = detect_cycles nodes\<rparr>)"

definition build_dependency_graph ::
  "string \<Rightarrow> string \<Rightarrow> action_table \<Rightarrow> py_error + dependency_graph" where
  "build_dependency_graph tenant_id root_action_id rows =
     (case find_action tenant_id root_action_id rows of
        None \<Rightarrow> Inl (ValueError (''Root action '' @ root_action_id @ '' not found''))
      | Some action \<Rightarrow>
          dependency_graph_of (action # fst (list_descendants tenant_id root_action_id 1000 0 rows)))"

section \<open>Ordering and impact\<close>

definition compute_recovery_ordering :: "dependency_graph \<Rightarrow> string \<Rightarrow> string list" where
  "compute_recovery_ordering graph mode =
     (let order = dg_topological_order graph;
          order = (if dg_cycles graph \<noteq> []
                   then filter (\<lambda>n. n \<notin> set (concat (dg_cycles graph))) order else order);
          order = filter (\<lambda>n. map_of (dg_nodes graph) n \<noteq> None) order;
          rev_of = (\<lambda>n. dn_reversibility (the (map_of (dg_nodes graph) n)))
      in if mode = ''leaves_first'' then rev order
         else if mode = ''roots_first'' then order
         else if mode = ''reversibility_first''
         then filter (\<lambda>n. rev_of n = AUTOMATICALLY_REVERSIBLE) order @
              filter (\<lambda>n. rev_of n = CONDITIONALLY_REVERSIBLE) order @
              filter (\<lambda>n. rev_of n \<notin> {AUTOMATICALLY_REVERSIBLE, CONDITIONALLY_REVERSIBLE}) order
         else order)"

text \<open>
  The recursion \<open>traverse\<close> with its calls in order on an explicit stack of node and depth. The
  accumulator holds the affected nodes, the nodes per tool and the greatest depth returned. A
  recursion that never returns is \<open>None\<close>; Python ends it with \<open>RecursionError\<close>.
\<close>

type_synonym impact_acc = "string list \<times> (string, string list) dict \<times> nat"

fun visit_node :: "dependency_node \<Rightarrow> string \<Rightarrow> nat \<Rightarrow> impact_acc \<Rightarrow> impact_acc" where
  "visit_node node i depth (affected, per_tool, deepest) =
     (List.insert i affected,
      AList.update (dn_tool node)
        ((case map_of per_tool (dn_tool node) of None \<Rightarrow> [] | Some xs \<Rightarrow> xs) @ [i]) per_tool,
      max deepest depth)"

fun miss_node :: "nat \<Rightarrow> impact_acc \<Rightarrow> impact_acc" where
  "miss_node depth (affected, per_tool, deepest) = (affected, per_tool, max deepest depth)"

partial_function (option) impact_loop ::
  "dependency_nodes \<Rightarrow> (string \<times> nat) list \<Rightarrow> impact_acc \<Rightarrow> impact_acc option" where
  "impact_loop nodes stack acc =
     (case stack of
        [] \<Rightarrow> Some acc
      | (i, depth) # rest \<Rightarrow>
          (case map_of nodes i of
             None \<Rightarrow> impact_loop nodes rest (miss_node depth acc)
           | Some node \<Rightarrow>
               impact_loop nodes
                 (map (\<lambda>c. (c, depth + 1)) (dn_children node @ dn_depends_on node) @ rest)
                 (visit_node node i depth acc)))"

record cascading_impact =
  ci_root_action_id :: string
  ci_cascade_depth :: nat
  ci_affected_resources :: "string list"
  ci_cross_system_impacts :: "(string, string list) dict"
  ci_blast_radius_estimate :: nat
  ci_containment_options :: "string list"

definition analyze_cascading_impact ::
  "dependency_graph \<Rightarrow> string \<Rightarrow> cascading_impact option" where
  "analyze_cascading_impact graph root_action_id =
     (case impact_loop (dg_nodes graph) [(root_action_id, 0)] ([], [], 0) of
        None \<Rightarrow> None
      | Some (affected, per_tool, deepest) \<Rightarrow> Some
          \<lparr>ci_root_action_id = root_action_id, ci_cascade_depth = deepest,
           ci_affected_resources = affected, ci_cross_system_impacts = per_tool,
           ci_blast_radius_estimate = length affected,
           ci_containment_options =
             (if length affected > 10 then [''staged_recovery''] else []) @
             (if length per_tool > 1 then [''cross_system_coordination''] else []) @
             (if deepest > 5 then [''depth_limited_recovery''] else [])\<rparr>)"

section \<open>What the nodes contain\<close>

lemma link_parent_get:
  "map_of (link_parent a nodes) x = map_option
     (\<lambda>n. if truthy (pa_parent_action_id a) \<and> pa_parent_action_id a = Some x
          then add_child (pa_action_id a) n else n) (map_of nodes x)"
  by (cases "pa_parent_action_id a") (auto simp: link_parent_def map_of_map_entry option.map_ident split: option.splits)

lemma dependency_fold_get:
  "map_of (fold (\<lambda>dep nodes. if map_of nodes dep \<noteq> None then AList.map_entry i (add_dependency dep) nodes
       else nodes) deps nodes) x =
   map_option (\<lambda>n. if x = i then n\<lparr>dn_depends_on := dn_depends_on n @
       filter (\<lambda>d. map_of nodes d \<noteq> None) deps\<rparr> else n) (map_of nodes x)"
proof (induction deps arbitrary: nodes)
  case Nil
  then show ?case by (cases "map_of nodes x") simp_all
next
  case (Cons d deps)
  have dom: "map_of (AList.map_entry i (add_dependency d) nodes) y \<noteq> None \<longleftrightarrow> map_of nodes y \<noteq> None" for y
    by (auto simp: map_of_map_entry split: option.splits)
  show ?case
    using Cons.IH [of "AList.map_entry i (add_dependency d) nodes", unfolded dom] Cons.IH [of nodes]
    by (cases "map_of nodes x") (auto simp: map_of_map_entry add_dependency_def simp del: not_None_eq)
qed

definition kids_in :: "protected_action list \<Rightarrow> string \<Rightarrow> string list" where
  "kids_in xs x = map pa_action_id
     (filter (\<lambda>a. truthy (pa_parent_action_id a) \<and> pa_parent_action_id a = Some x) xs)"

definition deps_in :: "(string \<Rightarrow> bool) \<Rightarrow> protected_action list \<Rightarrow> protected_action list \<Rightarrow> string \<Rightarrow> string list" where
  "deps_in P all_actions xs x = concat (map (\<lambda>a. filter P (infer_dependencies a all_actions))
     (filter (\<lambda>a. pa_action_id a = x) xs))"

lemma link_action_get:
  "map_of (link_action all a nodes) x = map_option
     (\<lambda>n. n\<lparr>dn_children := dn_children n @ kids_in [a] x,
            dn_depends_on := dn_depends_on n @ deps_in (\<lambda>d. map_of nodes d \<noteq> None) all [a] x\<rparr>)
     (map_of nodes x)"
proof -
  have dom: "map_of (link_parent a nodes) d \<noteq> None \<longleftrightarrow> map_of nodes d \<noteq> None" for d
    by (simp add: link_parent_get)
  show ?thesis
    unfolding link_action_def dependency_fold_get dom
    by (cases "map_of nodes x"; cases "pa_parent_action_id a")
      (auto simp: link_parent_get kids_in_def deps_in_def add_child_def)
qed

lemma link_fold_get:
  "map_of (fold (link_action all) xs nodes) x = map_option
     (\<lambda>n. n\<lparr>dn_children := dn_children n @ kids_in xs x,
            dn_depends_on := dn_depends_on n @ deps_in (\<lambda>d. map_of nodes d \<noteq> None) all xs x\<rparr>)
     (map_of nodes x)"
proof (induction xs arbitrary: nodes)
  case Nil
  then show ?case by (cases "map_of nodes x") (simp_all add: kids_in_def deps_in_def)
next
  case (Cons a xs)
  have dom: "map_of (link_action all a nodes) d \<noteq> None \<longleftrightarrow> map_of nodes d \<noteq> None" for d
    by (simp add: link_action_get)
  have "kids_in (a # xs) x = kids_in [a] x @ kids_in xs x"
    "deps_in P all (a # xs) x = deps_in P all [a] x @ deps_in P all xs x" for P
    by (auto simp: kids_in_def deps_in_def)
  then show ?case
    using Cons.IH [of "link_action all a nodes"] unfolding dom
    by (cases "map_of nodes x") (simp_all add: link_action_get)
qed

lemma link_keys: "map fst (link_action all a nodes) = map fst nodes"
proof -
  have "map fst (fold (\<lambda>dep nodes. if map_of nodes dep \<noteq> None
      then AList.map_entry i (add_dependency dep) nodes else nodes) deps nodes) = map fst nodes"
    for i deps nodes
    by (induction deps arbitrary: nodes) (simp_all add: map_entry_keys)
  then show ?thesis by (simp add: link_action_def link_parent_def map_entry_keys)
qed

lemma linked_keys:
  "distinct (map pa_action_id xs) \<Longrightarrow> map fst (linked_nodes xs) = map pa_action_id xs"
proof -
  have "map fst (fold (link_action all) ys nodes) = map fst nodes" for all ys nodes
    by (induction ys arbitrary: nodes) (simp_all add: link_keys)
  then show "distinct (map pa_action_id xs) \<Longrightarrow> ?thesis"
    by (simp add: linked_nodes_def initial_nodes_def dict_fill)
qed

text \<open>The node of an action: its children in the graph and its inferred dependencies in the graph.\<close>

lemma linked_node:
  assumes "distinct (map pa_action_id xs)" and "a \<in> set xs"
  shows "map_of (linked_nodes xs) (pa_action_id a) = Some
    ((node_of_action a)\<lparr>dn_children := kids_in xs (pa_action_id a),
       dn_depends_on := filter (\<lambda>d. d \<in> action_ids xs) (infer_dependencies a xs)\<rparr>)"
proof -
  have get: "map_of (initial_nodes xs) = map_of (map (\<lambda>a. (pa_action_id a, node_of_action a)) xs)"
    by (simp add: initial_nodes_def dict_fill assms(1))
  have dom: "map_of (initial_nodes xs) d \<noteq> None \<longleftrightarrow> d \<in> action_ids xs" for d
    unfolding get by (simp add: map_of_eq_None_iff image_comp del: not_None_eq)
  have node: "map_of (initial_nodes xs) (pa_action_id a) = Some (node_of_action a)"
    unfolding get by (rule map_of_is_SomeI) (use assms in \<open>auto simp: o_def\<close>)
  have "filter (\<lambda>b. pa_action_id b = pa_action_id a) xs = [a]"
    using assms by (induction xs) (auto simp: filter_empty_conv, metis imageI)
  then have "deps_in P xs xs (pa_action_id a) = filter P (infer_dependencies a xs)" for P
    by (simp add: deps_in_def)
  then show ?thesis
    unfolding linked_nodes_def link_fold_get dom by (simp add: node node_of_action_def)
qed

section \<open>Cycles\<close>

text \<open>
  The dependency relation of a set of actions: an action depends on its parent and on the earlier
  actions on the same resource.
\<close>

definition depends :: "protected_action list \<Rightarrow> (string \<times> string) set" where
  "depends xs = {(pa_action_id a, d) | a d. a \<in> set xs \<and> d \<in> set (infer_dependencies a xs) \<and>
     d \<in> action_ids xs}"

lemma dependency_edges:
  assumes "distinct (map pa_action_id xs)"
  shows "adj_edges (dependency_adjacency (linked_nodes xs)) = depends xs"
proof -
  let ?N = "linked_nodes xs"
  have keys: "map_of ?N d \<noteq> None \<longleftrightarrow> d \<in> action_ids xs" for d
    using linked_keys [OF assms] by (metis list.set_map map_of_eq_None_iff)
  have adj: "adj_get (dependency_adjacency ?N) x = (case map_of ?N x of None \<Rightarrow> []
      | Some n \<Rightarrow> filter (\<lambda>d. d \<in> action_ids xs) (dn_depends_on n))" for x
    unfolding adj_get_def dependency_adjacency_def map_of_map keys
    by (simp add: o_def split: option.split)
  show ?thesis
  proof (intro set_eqI iffI; clarify)
    fix x d
    assume "(x, d) \<in> adj_edges (dependency_adjacency ?N)"
    then have d: "d \<in> set (adj_get (dependency_adjacency ?N) x)" by (simp add: adj_edges_def)
    then have "x \<in> action_ids xs" using keys [of x] by (auto simp: adj split: option.splits)
    then obtain a where a: "a \<in> set xs" "x = pa_action_id a" by blast
    with d show "(x, d) \<in> depends xs"
      using linked_node [OF assms a(1)] by (auto simp: adj depends_def)
  next
    fix x d
    assume "(x, d) \<in> depends xs"
    then obtain a where "a \<in> set xs" "x = pa_action_id a" "d \<in> set (infer_dependencies a xs)"
      "d \<in> action_ids xs" by (auto simp: depends_def)
    then show "(x, d) \<in> adj_edges (dependency_adjacency ?N)"
      using linked_node [OF assms \<open>a \<in> set xs\<close>] by (simp add: adj_edges_def adj)
  qed
qed

text \<open>
  C28. The cycle report of a dependency graph is exact: for actions with distinct identifiers it is
  empty exactly when the relation "depends on its parent and on earlier actions on the same
  resource" has no cycle, and every list it holds is a closed walk along that relation.
\<close>

theorem dependency_cycles_exact:
  assumes "distinct (map pa_action_id xs)" and "dependency_graph_of xs = Inr g"
  shows "(dg_cycles g = [] \<longleftrightarrow> acyclic (depends xs)) \<and>
    (\<forall>c \<in> set (dg_cycles g). 2 \<le> length c \<and> hd c = last c \<and>
       successively (\<lambda>a b. (a, b) \<in> depends xs) c)"
proof -
  let ?A = "dependency_adjacency (linked_nodes xs)"
  have cyc: "dg_cycles g = find_cycles ?A"
    using assms(2) by (auto simp: dependency_graph_of_def detect_cycles_def Let_def split: sum.splits)
  have edge: "adj_edge ?A a b \<longleftrightarrow> (a, b) \<in> depends xs" for a b
    unfolding dependency_edges [OF assms(1), symmetric] by (simp add: adj_edges_def)
  show ?thesis
    unfolding cyc using find_cycles_iff [of ?A] find_cycles_sound [of _ ?A]
    by (simp add: dependency_edges [OF assms(1)] closed_walk_def edge)
qed

text \<open>Two actions on one resource, the child created before its parent: a cycle.\<close>

definition early_child :: "protected_action list" where
  "early_child =
     [(sample_action ''a'' None REVERSIBLE)\<lparr>pa_created_at := 5\<rparr>,
      (sample_action ''b'' (Some ''a'') REVERSIBLE)\<lparr>pa_created_at := 3\<rparr>]"

lemma early_child_graph:
  obtains g where "dependency_graph_of early_child = Inr g" and "dg_cycles g = [[''a'', ''b'', ''a'']]"
proof -
  have "map_sum id dg_cycles (dependency_graph_of early_child) = Inr [[''a'', ''b'', ''a'']]"
    by code_simp
  then show ?thesis using that by (cases "dependency_graph_of early_child") auto
qed

theorem dependency_cycles_exact_witness: "\<not> acyclic (depends early_child)"
proof -
  obtain g where g: "dependency_graph_of early_child = Inr g" "dg_cycles g = [[''a'', ''b'', ''a'']]"
    using early_child_graph .
  have "distinct (map pa_action_id early_child)" by (simp add: early_child_def)
  from dependency_cycles_exact [OF this g(1)] g(2) show ?thesis by simp
qed

section \<open>The cascading impact does not end below a child\<close>

lemma impact_loop_diverges:
  assumes p: "map_of nodes p = Some np" and c: "map_of nodes c = Some nc"
    and "c \<in> set (dn_children np)" and "p \<in> set (dn_depends_on nc)"
  shows "\<not> list_all (\<lambda>f. fst f \<noteq> p \<and> fst f \<noteq> c) stack \<Longrightarrow> impact_loop nodes stack acc = None"
proof (rule ccontr)
  let ?clear = "list_all (\<lambda>f. fst f \<noteq> p \<and> fst f \<noteq> c)"
  assume hit: "\<not> ?clear stack" and "impact_loop nodes stack acc \<noteq> None"
  then obtain r where ret: "impact_loop nodes stack acc = Some r" by blast
  have "nodes = nodes \<longrightarrow> ?clear stack"
  proof (rule impact_loop.raw_induct [where P = "\<lambda>ns st acc r. ns = nodes \<longrightarrow> ?clear st", OF _ ret])
    fix f ns st acc r
    assume IH: "\<And>ns st acc r. f ns st acc = Some r \<Longrightarrow> ns = nodes \<longrightarrow> ?clear st"
      and eq: "(case st of [] \<Rightarrow> Some acc
        | (i, depth) # rest \<Rightarrow>
            (case map_of ns i of None \<Rightarrow> f ns rest (miss_node depth acc)
             | Some node \<Rightarrow> f ns (map (\<lambda>c. (c, depth + 1)) (dn_children node @ dn_depends_on node) @ rest)
                 (visit_node node i depth acc))) = Some r"
    show "ns = nodes \<longrightarrow> ?clear st"
    proof (rule impI, cases st)
      case (Cons fr rest)
      assume ns: "ns = nodes"
      obtain i depth where fr: "fr = (i, depth)" by force
      show "?clear st"
      proof (cases "map_of nodes i")
        case None
        then have "f nodes rest (miss_node depth acc) = Some r" using eq ns by (simp add: Cons fr)
        from IH [OF this] show ?thesis using None p c by (auto simp: Cons fr)
      next
        case (Some node)
        then have "f nodes (map (\<lambda>c. (c, depth + 1)) (dn_children node @ dn_depends_on node) @ rest)
            (visit_node node i depth acc) = Some r" using eq ns by (simp add: Cons fr)
        from IH [OF this] have rest: "?clear rest" and "c \<notin> set (dn_children node)" and
          "p \<notin> set (dn_depends_on node)" by (auto simp: list_all_iff ball_Un)
        then have "i \<noteq> p" and "i \<noteq> c" using Some p c assms(3,4) by auto
        then show ?thesis using rest by (simp add: Cons fr)
      qed
    qed simp
  qed
  with hit show False by simp
qed

text \<open>
  The cascading impact analysis never returns for an action that has a child in the graph: the
  child is traversed from its parent and the parent again from the child, because every child
  depends on its parent and no visited set stops the recursion.
\<close>

theorem cascading_impact_diverges:
  assumes "distinct (map pa_action_id xs)" and "dependency_graph_of xs = Inr g"
    and "a \<in> set xs" and "b \<in> set xs" and "pa_parent_action_id b = Some (pa_action_id a)"
    and "pa_action_id a \<noteq> []"
  shows "analyze_cascading_impact g (pa_action_id a) = None"
proof -
  have nodes: "dg_nodes g = linked_nodes xs"
    using assms(2) by (auto simp: dependency_graph_of_def Let_def split: sum.splits)
  have "pa_action_id b \<in> set (kids_in xs (pa_action_id a))"
    using assms(4-6) by (auto simp: kids_in_def)
  moreover have "pa_action_id a \<in> set (infer_dependencies b xs)" and "pa_action_id a \<in> action_ids xs"
    using assms(3,5,6) by (simp_all add: infer_dependencies_def)
  ultimately have "impact_loop (dg_nodes g) [(pa_action_id a, 0)] ([], [], 0) = None"
    unfolding nodes
    by (intro impact_loop_diverges [OF linked_node [OF assms(1,3)] linked_node [OF assms(1,4)]]) simp_all
  then show ?thesis by (simp add: analyze_cascading_impact_def)
qed

theorem cascading_impact_diverges_witness:
  "\<exists>g. dependency_graph_of early_child = Inr g \<and> analyze_cascading_impact g ''a'' = None"
proof -
  obtain g where g: "dependency_graph_of early_child = Inr g" using early_child_graph .
  have "distinct (map pa_action_id early_child)" by (simp add: early_child_def)
  from cascading_impact_diverges [OF this g, of "early_child ! 0" "early_child ! 1"] g
  show ?thesis by (simp add: early_child_def)
qed

section \<open>The topological order\<close>

text \<open>
  The graph of an action that has a parent cannot be built: the parent gets a child count
  although it is not a node, it is queued once the action has been ordered, and the lookup of its
  node raises \<open>KeyError\<close>. Here for an action without descendants.
\<close>

theorem parented_root_raises:
  assumes "find_action t r rows = Some a" and "pa_parent_action_id a = Some p" and "p \<noteq> []"
    and "p \<noteq> r" and "list_descendants t r 1000 0 rows = ([], 0)"
  shows "build_dependency_graph t r rows = Inl (KeyError p)"
proof -
  have r: "pa_action_id a = r"
    using assms(1) by (auto simp: find_action_def sql_select_def filter_eq_Cons_iff
        elim!: sql_first.elims)
  have node: "map_of (linked_nodes [a]) r = Some ((node_of_action a)\<lparr>dn_children := kids_in [a] r,
      dn_depends_on := filter (\<lambda>d. d \<in> {r}) (infer_dependencies a [a])\<rparr>)"
    using linked_node [of "[a]" a] r by simp
  have keys: "map fst (linked_nodes [a]) = [r]" using linked_keys [of "[a]"] r by simp
  then have "map_of (linked_nodes [a]) p = None"
    using assms(4) by (metis empty_iff insert_iff list.set(1) list.set(2) list.set_map map_of_eq_None_iff)
  moreover have "count_children [a] r = None" "count_children [a] p = Some 1"
    using assms(2-4) by (simp_all add: count_children_def)
  ultimately have "dep_topological_order (linked_nodes [a]) (count_children [a]) = Inl (KeyError p)"
    using assms(2-4) unfolding dep_topological_order_def keys
    by (simp add: node node_of_action_def)
  then show ?thesis
    by (simp add: build_dependency_graph_def assms(1,5) dependency_graph_of_def)
qed

theorem parented_root_raises_witness:
  "build_dependency_graph ''t'' ''b''
     [sample_action ''a'' None REVERSIBLE, sample_action ''b'' (Some ''a'') REVERSIBLE] =
   Inl (KeyError ''a'')"
  by (rule parented_root_raises [where a = "sample_action ''b'' (Some ''a'') REVERSIBLE"])
    (simp_all add: find_action_def sql_select_def list_descendants_def children_of_def)

text \<open>
  Both services order actions by the same algorithm, this one reading parents from the nodes and
  counting only named parents. The loops agree when the nodes are closed under parents.
\<close>

lemma topo_loops_agree:
  assumes "\<And>x. map_of parents x = map_option dn_parent_action_id (map_of nodes x)"
    and "\<And>x n p. map_of nodes x = Some n \<Longrightarrow> dn_parent_action_id n = Some p \<Longrightarrow> p \<noteq> [] \<Longrightarrow>
      map_of nodes p \<noteq> None \<and> counts p \<noteq> None"
    and "map_of nodes [] = None" and "\<And>x. x \<in> set queue \<Longrightarrow> map_of nodes x \<noteq> None"
    and "\<And>p. totals p = (case counts p of None \<Rightarrow> 0 | Some c \<Rightarrow> c)"
  shows "dep_topo_loop nodes counts queue order = Inr (topo_loop parents totals queue order)"
  using assms
proof (induction nodes counts queue order arbitrary: totals rule: dep_topo_loop.induct)
  case (1 nodes counts order)
  then show ?case by simp
next
  case (2 nodes counts current queue order)
  note prems = "2.prems"
  show ?case
  proof (cases "current \<in> set order")
    case True
    then show ?thesis using "2.IH"(1) [OF True prems(1-3)] prems(4,5) by simp
  next
    case False
    obtain node where node: "map_of nodes current = Some node" using prems(4) [of current] by auto
    show ?thesis
    proof (cases "\<exists>p. dn_parent_action_id node = Some p \<and> p \<noteq> []")
      case None: False
      then have "known_parent parents current = None"
        using prems(1,3) node by (auto simp: known_parent_def split: option.split)
      then show ?thesis
        using None False node "2.IH"(2) [OF False node] "2.IH"(3) [OF False node] prems
        by (cases "dn_parent_action_id node") simp_all
    next
      case True
      then obtain p where p: "dn_parent_action_id node = Some p" "p \<noteq> []" by blast
      obtain c where c: "counts p = Some c" and pn: "map_of nodes p \<noteq> None"
        using prems(2) [OF node p] by auto
      have known: "known_parent parents current = Some p"
        using prems(1) node p pn by (auto simp: known_parent_def)
      have "dep_topo_loop nodes (counts(p \<mapsto> c - 1)) (if c - 1 = 0 then queue @ [p] else queue)
          (order @ [current]) =
        Inr (topo_loop parents (totals(p := totals p - 1))
          (if c - 1 = 0 then queue @ [p] else queue) (order @ [current]))"
        using prems pn c by (intro "2.IH"(5) [OF False node p c]) (auto split: if_splits)
      then show ?thesis using False node p c known prems(5) [of p] by simp
    qed
  qed
qed

lemma collect_parents:
  assumes "\<forall>c \<in> set stack \<union> set result. \<exists>p. pa_parent_action_id c = Some p \<and>
      (p = start \<or> p \<in> action_ids result)"
  shows "\<forall>c \<in> set (collect rows t stack result). \<exists>p. pa_parent_action_id c = Some p \<and>
      (p = start \<or> p \<in> action_ids (collect rows t stack result))"
  using assms
proof (induction rows t stack result rule: collect.induct)
  case (1 rows t result)
  then show ?case by simp
next
  case (2 rows t child stack result)
  show ?case
  proof (cases "pa_action_id child \<in> action_ids result \<or> child \<notin> set rows")
    case True
    with 2(1) [OF True] 2(3) show ?thesis by simp
  next
    case False
    have "\<forall>c \<in> set (children_of rows t (pa_action_id child) @ stack) \<union> set (result @ [child]).
        \<exists>p. pa_parent_action_id c = Some p \<and> (p = start \<or> p \<in> action_ids (result @ [child]))"
    proof
      fix c
      assume "c \<in> set (children_of rows t (pa_action_id child) @ stack) \<union> set (result @ [child])"
      then consider "pa_parent_action_id c = Some (pa_action_id child)"
        | "c \<in> set (child # stack) \<union> set result" by (auto simp: children_of_def)
      then show "\<exists>p. pa_parent_action_id c = Some p \<and> (p = start \<or> p \<in> action_ids (result @ [child]))"
      proof cases
        case 2
        then show ?thesis using "2.prems" by auto
      qed auto
    qed
    from 2(2) [OF False this] False show ?thesis by simp
  qed
qed

lemma count_children_total:
  "child_counts xs p = (case count_children xs p of None \<Rightarrow> 0 | Some c \<Rightarrow> c)"
  by (simp add: child_counts_def count_children_def Let_def)

lemma dependency_order_agrees:
  assumes "distinct (map pa_action_id xs)" and "[] \<notin> action_ids xs"
    and "\<And>a p. a \<in> set xs \<Longrightarrow> pa_parent_action_id a = Some p \<Longrightarrow> p \<noteq> [] \<Longrightarrow> p \<in> action_ids xs"
  shows "dep_topological_order (linked_nodes xs) (count_children xs) =
    Inr (compute_topological_order xs)"
proof -
  let ?N = "linked_nodes xs"
  have keys: "map fst ?N = map pa_action_id xs" by (rule linked_keys [OF assms(1)])
  then have dom: "map_of ?N x \<noteq> None \<longleftrightarrow> x \<in> action_ids xs" for x
    by (metis list.set_map map_of_eq_None_iff)
  have some: "map_of ?N x = Some n \<Longrightarrow> \<exists>a \<in> set xs. x = pa_action_id a \<and>
      dn_parent_action_id n = pa_parent_action_id a" for x n
  proof -
    assume n: "map_of ?N x = Some n"
    then obtain a where a: "a \<in> set xs" "x = pa_action_id a" using dom [of x] by auto
    with n linked_node [OF assms(1) a(1)] show ?thesis by (auto simp: node_of_action_def)
  qed
  have parents: "map_of (id_to_parent xs) x = map_option dn_parent_action_id (map_of ?N x)" for x
  proof (cases "x \<in> action_ids xs")
    case True
    then obtain a where a: "a \<in> set xs" "x = pa_action_id a" by blast
    have "map_of (id_to_parent xs) x = Some (pa_parent_action_id a)"
      unfolding id_to_parent_def dict_fill [OF assms(1)] a(2)
      by (rule map_of_is_SomeI) (use a assms(1) in \<open>auto simp: o_def\<close>)
    with linked_node [OF assms(1) a(1)] a(2) show ?thesis by (simp add: node_of_action_def)
  next
    case False
    then have "map_of (id_to_parent xs) x = None"
      unfolding id_to_parent_def dict_fill [OF assms(1)] by (simp add: map_of_eq_None_iff image_comp)
    moreover have "map_of ?N x = None" using False dom by blast
    ultimately show ?thesis by simp
  qed
  have loop: "dep_topo_loop ?N (count_children xs) queue [] =
      Inr (topo_loop (id_to_parent xs) (child_counts xs) queue [])"
    if "set queue \<subseteq> action_ids xs" for queue
  proof (rule topo_loops_agree [OF parents])
    show "map_of ?N [] = None" using assms(2) dom by blast
  next
    fix x n p
    assume "map_of ?N x = Some n" and p: "dn_parent_action_id n = Some p" "p \<noteq> []"
    then obtain a where a: "a \<in> set xs" "pa_parent_action_id a = Some p" using some by fastforce
    have "a \<in> set (filter (\<lambda>a. truthy (pa_parent_action_id a) \<and> pa_parent_action_id a = Some p) xs)"
      using a p(2) by simp
    then have "count_children xs p \<noteq> None"
      by (auto simp: count_children_def Let_def filter_empty_conv)
    then show "map_of ?N p \<noteq> None \<and> count_children xs p \<noteq> None"
      using assms(3) [OF a p(2)] dom by blast
  qed (use that dom in \<open>auto simp: count_children_total simp del: not_None_eq\<close>)
  let ?Q = "[pa_action_id a. a \<leftarrow> xs, child_counts xs (pa_action_id a) = 0]"
  have queue: "[n. n \<leftarrow> map fst ?N, (case count_children xs n of None \<Rightarrow> 0 | Some c \<Rightarrow> c) = 0] = ?Q"
    unfolding keys count_children_total [symmetric] by (simp add: o_def comp_def)
  have rest: "[n. n \<leftarrow> map fst ?N, n \<notin> set order] = [pa_action_id a. a \<leftarrow> xs, pa_action_id a \<notin> set order]" for order
    unfolding keys by (simp add: o_def)
  have "set ?Q \<subseteq> action_ids xs" by auto
  from loop [OF this] show ?thesis
    unfolding dep_topological_order_def compute_topological_order_def Let_def queue rest by simp
qed

text \<open>
  The two services agree on the order: for an incident action without a parent whose descendants
  fit the limit, the dependency graph is built and its topological order is the one the planning
  service computes from the same actions.
\<close>

theorem dependency_order_is_planning_order:
  assumes "find_action t r rows = Some a" and "pa_parent_action_id a = None"
    and "distinct (map pa_action_id rows)" and "[] \<notin> action_ids rows"
    and "snd (list_descendants t r 1000 0 rows) \<le> 1000"
  shows "\<exists>g. build_dependency_graph t r rows = Inr g \<and>
    dg_topological_order g =
      compute_topological_order (a # fst (list_descendants t r 1000 0 rows))"
proof -
  let ?D = "collect rows t (children_of rows t r) []"
  have desc: "fst (list_descendants t r 1000 0 rows) = ?D"
    using assms(5) by (simp add: list_descendants_def Let_def)
  have a: "a \<in> set rows" "pa_action_id a = r"
    using assms(1) by (auto simp: find_action_def sql_select_def filter_eq_Cons_iff elim!: sql_first.elims)
  have sub: "set ?D \<subseteq> set rows"
    using collect_sound [of "children_of rows t r" "[]" rows t r]
    by (auto dest: children_rows descendant.child)
  have par: "\<forall>c \<in> set ?D. \<exists>p. pa_parent_action_id c = Some p \<and> (p = r \<or> p \<in> action_ids ?D)"
    by (rule collect_parents) (auto simp: children_of_def)
  have "r \<notin> action_ids ?D"
  proof
    assume "r \<in> action_ids ?D"
    then obtain c where c: "c \<in> set ?D" "pa_action_id c = r" by blast
    then have "c = a" using a sub assms(3) by (metis distinct_map inj_onD subsetD)
    with par c assms(2) show False by fastforce
  qed
  then have dist: "distinct (map pa_action_id (a # ?D))"
    using collect_distinct [of "[]" rows t "children_of rows t r"] a(2) by simp
  have ne: "[] \<notin> action_ids (a # ?D)" using assms(4) a(1) sub by auto
  have closed: "p \<in> action_ids (a # ?D)"
    if "x \<in> set (a # ?D)" "pa_parent_action_id x = Some p" "p \<noteq> []" for x p
    using that par assms(2) a(2) by fastforce
  show ?thesis
    using dependency_order_agrees [OF dist ne closed]
    by (simp add: build_dependency_graph_def assms(1) desc dependency_graph_of_def Let_def)
qed

theorem dependency_order_is_planning_order_witness:
  "\<exists>g. build_dependency_graph ''t'' ''a''
     [sample_action ''a'' None REVERSIBLE, sample_action ''b'' (Some ''a'') REVERSIBLE] = Inr g"
  using dependency_order_is_planning_order [of "''t''" "''a''"
      "[sample_action ''a'' None REVERSIBLE, sample_action ''b'' (Some ''a'') REVERSIBLE]"
      "sample_action ''a'' None REVERSIBLE"]
  by (auto simp: find_action_def sql_select_def list_descendants_def children_of_def)

end
