(* ===== verification/Recovery_Graph.thy ===== *)
theory Recovery_Graph
  imports Dependency_Graph State_Delta
begin

text \<open>
  Typed recovery graphs: the entities of \<open>app/domain/entities/recovery_graph_types.py\<close>, the graph
  part of \<open>causal_graph_service.py\<close> (\<open>traverse_dependencies\<close>, \<open>get_impact_set\<close>,
  \<open>get_incident_graph\<close>), \<open>GraphIntegrationService\<close> (\<open>graph_integration_service.py\<close>) and
  \<open>in_memory_recovery_graph_repository.py\<close>.

  Every identifier and timestamp drawn inside a call is an argument. A Python set has no order: where
  the source lists one, the order of first occurrence is taken. \<open>sha\<close> and \<open>dumps\<close> are the parameters
  of the audit log. The definitions only; their properties are in \<open>Recovery_Graph_Properties\<close>.
\<close>

section \<open>Entities\<close>

datatype graph_node_kind =
  GK_ACTION | GK_RESOURCE | GK_MUTATION | GK_AGENT | GK_TENANT | GK_POLICY | GK_VERIFICATION
| GK_RECOVERY_PLAN

fun kind_value :: "graph_node_kind \<Rightarrow> string" where
  "kind_value GK_ACTION = ''action''"
| "kind_value GK_RESOURCE = ''resource''"
| "kind_value GK_MUTATION = ''mutation''"
| "kind_value GK_AGENT = ''agent''"
| "kind_value GK_TENANT = ''tenant''"
| "kind_value GK_POLICY = ''policy''"
| "kind_value GK_VERIFICATION = ''verification''"
| "kind_value GK_RECOVERY_PLAN = ''recovery_plan''"

datatype graph_relation =
  DEPENDS_ON | TRIGGERED_BY | CAUSES | PRODUCED | AUTHORIZED_BY | OBSERVED_AT | RECOVERED_BY
| VERIFIED_BY | CONTAINS | ALIASES | CONFLICTS_WITH | SUPERSEDES | RELATION_UNKNOWN

fun relation_value :: "graph_relation \<Rightarrow> string" where
  "relation_value DEPENDS_ON = ''depends_on''"
| "relation_value TRIGGERED_BY = ''triggered_by''"
| "relation_value CAUSES = ''causes''"
| "relation_value PRODUCED = ''produced''"
| "relation_value AUTHORIZED_BY = ''authorized_by''"
| "relation_value OBSERVED_AT = ''observed_at''"
| "relation_value RECOVERED_BY = ''recovered_by''"
| "relation_value VERIFIED_BY = ''verified_by''"
| "relation_value CONTAINS = ''contains''"
| "relation_value ALIASES = ''aliases''"
| "relation_value CONFLICTS_WITH = ''conflicts_with''"
| "relation_value SUPERSEDES = ''supersedes''"
| "relation_value RELATION_UNKNOWN = ''unknown''"

datatype consistency_level = CONSISTENT | INCONSISTENT | CONSISTENCY_UNKNOWN

datatype cycle_status = NO_CYCLE | CYCLE_DETECTED | CYCLE_POSSIBLE | INCONCLUSIVE

record graph_node =
  gn_node_id :: string
  gn_tenant_id :: string
  gn_kind :: graph_node_kind
  gn_entity_id :: string
  gn_label :: string
  gn_temporal_at :: "datetime option"
  gn_properties :: pydict
  gn_created_at :: datetime

record graph_edge =
  ge_edge_id :: string
  ge_tenant_id :: string
  ge_source_node_id :: string
  ge_target_node_id :: string
  ge_relation :: graph_relation
  ge_valid_at :: "datetime option"
  ge_valid_until :: "datetime option"
  ge_properties :: pydict
  ge_created_at :: datetime

record graph_snapshot =
  gs_snapshot_id :: string
  gs_tenant_id :: string
  gs_graph_id :: string
  gs_version :: int
  gs_nodes :: "graph_node list"
  gs_edges :: "graph_edge list"
  gs_metadata :: pydict
  gs_captured_at :: datetime

record graph_diff =
  gd_diff_id :: string
  gd_tenant_id :: string
  gd_graph_id :: string
  gd_from_version :: int
  gd_to_version :: int
  gd_added_nodes :: "graph_node list"
  gd_removed_nodes :: "graph_node list"
  gd_added_edges :: "graph_edge list"
  gd_removed_edges :: "graph_edge list"
  gd_changed_nodes :: "graph_node list"
  gd_changed_edges :: "graph_edge list"

record consistency_report =
  cn_tenant_id :: string
  cn_graph_id :: string
  cn_level :: consistency_level
  cn_issues :: "string list"
  cn_dangling_edges :: "string list"
  cn_orphan_nodes :: "string list"
  cn_duplicate_edges :: "string list"
  cn_temporal_violations :: "string list"

record cycle_report =
  cy_tenant_id :: string
  cy_graph_id :: string
  cy_status :: cycle_status
  cy_cycles :: "string list list"
  cy_cycle_nodes :: "string list"
  cy_details :: string

record recovery_graph =
  rg_graph_id :: string
  rg_tenant_id :: string
  rg_incident_id :: string
  rg_root_action_id :: string
  rg_version :: int
  rg_nodes :: "graph_node list"
  rg_edges :: "graph_edge list"
  rg_metadata :: pydict
  rg_created_at :: datetime
  rg_updated_at :: datetime

section \<open>Traversals\<close>

text \<open>\<open>adj.setdefault(k, [])\<close> and \<open>adj[k].append(v)\<close>.\<close>

definition adj_touch :: "string \<Rightarrow> adjacency \<Rightarrow> adjacency" where
  "adj_touch k adj = (if map_of adj k = None then adj @ [(k, [])] else adj)"

definition adj_push :: "string \<Rightarrow> string \<Rightarrow> adjacency \<Rightarrow> adjacency" where
  "adj_push k v adj = AList.map_entry k (\<lambda>vs. vs @ [v]) (adj_touch k adj)"

definition node_adjacency :: "graph_node list \<Rightarrow> adjacency" where
  "node_adjacency nodes = fold (\<lambda>n. adj_touch (gn_node_id n)) nodes []"

definition dependency_adj :: "bool \<Rightarrow> recovery_graph \<Rightarrow> adjacency" where
  "dependency_adj downstream graph =
     fold (\<lambda>e adj. if ge_relation e = DEPENDS_ON
                   then (if downstream then adj_push (ge_source_node_id e) (ge_target_node_id e) adj
                         else adj_push (ge_target_node_id e) (ge_source_node_id e) adj)
                   else adj)
       (rg_edges graph) (node_adjacency (rg_nodes graph))"

text \<open>\<open>{n.node_id: n for n in nodes}\<close>: a later node with the same identifier wins.\<close>

definition node_map :: "graph_node list \<Rightarrow> string \<rightharpoonup> graph_node" where
  "node_map nodes = map_of (rev (map (\<lambda>n. (gn_node_id n, n)) nodes))"

definition edge_map :: "graph_edge list \<Rightarrow> string \<rightharpoonup> graph_edge" where
  "edge_map edges = map_of (rev (map (\<lambda>e. (ge_edge_id e, e)) edges))"

text \<open>The inner loop of the breadth-first search: new neighbours are marked and queued.\<close>

definition enqueue_new :: "string list \<Rightarrow> string list \<times> string set \<Rightarrow> string list \<times> string set" where
  "enqueue_new neighbours qv =
     fold (\<lambda>m (q, v). if m \<notin> v then (q @ [m], insert m v) else (q, v)) neighbours qv"

abbreviation adj_targets :: "adjacency \<Rightarrow> string set" where
  "adj_targets adj \<equiv> set (concat (map snd adj))"

lemma adj_get_targets: "set (adj_get adj x) \<subseteq> adj_targets adj"
proof (cases "map_of adj x")
  case (Some ms)
  then have "(x, ms) \<in> set adj" by (rule map_of_SomeD)
  then show ?thesis using Some by (force simp: adj_get_def)
qed (simp add: adj_get_def)

lemma enqueue_new_simps [simp]:
  "enqueue_new [] qv = qv"
  "m \<notin> v \<Longrightarrow> enqueue_new (m # ms) (q, v) = enqueue_new ms (q @ [m], insert m v)"
  "m \<in> v \<Longrightarrow> enqueue_new (m # ms) (q, v) = enqueue_new ms (q, v)"
  by (simp_all add: enqueue_new_def)

lemma enqueue_new_measure:
  "set ms \<subseteq> U \<Longrightarrow> finite U \<Longrightarrow> enqueue_new ms (q, v) = (q', v') \<Longrightarrow>
     length q' + card (U - v') = length q + card (U - v)"
proof (induction ms arbitrary: q v)
  case Nil
  then show ?case by simp
next
  case (Cons m ms)
  show ?case
  proof (cases "m \<in> v")
    case True
    with Cons.prems Cons.IH [of q v] show ?thesis by simp
  next
    case False
    have "U - v = insert m (U - insert m v)" using Cons.prems(1) False by auto
    then have "card (U - v) = card (insert m (U - insert m v))" by (rule arg_cong)
    also have "\<dots> = Suc (card (U - insert m v))" using Cons.prems(2) by (intro card_insert_disjoint) auto
    finally have "card (U - v) = Suc (card (U - insert m v))" .
    moreover have "length q' + card (U - v') = length (q @ [m]) + card (U - insert m v)"
      using Cons.prems False by (intro Cons.IH) simp_all
    ultimately show ?thesis by simp
  qed
qed

function traverse_loop ::
  "adjacency \<Rightarrow> (string \<rightharpoonup> graph_node) \<Rightarrow> string \<Rightarrow> nat \<Rightarrow> string list \<Rightarrow> string set \<Rightarrow> graph_node list
     \<Rightarrow> graph_node list" where
  "traverse_loop adj nodes start limit [] visited result = result"
| "traverse_loop adj nodes start limit (current # queue) visited result =
     (if length result \<ge> limit then result
      else
        (let result' = (case nodes current of
               None \<Rightarrow> result | Some n \<Rightarrow> if current \<noteq> start then result @ [n] else result);
             (queue', visited') = enqueue_new (adj_get adj current) (queue, visited)
         in traverse_loop adj nodes start limit queue' visited' result'))"
  by pat_completeness auto
termination
proof (relation "measure (\<lambda>(adj, nodes, start, limit, queue, visited, result).
    length queue + card (adj_targets adj - visited))", goal_cases)
  case (2 adj nodes start limit current queue visited result result' qv queue' visited')
  have "length queue' + card (adj_targets adj - visited') = length queue + card (adj_targets adj - visited)"
    using 2 by (intro enqueue_new_measure [OF adj_get_targets]) simp_all
  then show ?case by simp
qed simp

definition traverse_dependencies ::
  "recovery_graph \<Rightarrow> string \<Rightarrow> string \<Rightarrow> nat \<Rightarrow> py_error + graph_node list" where
  "traverse_dependencies graph start_node_id direction limit =
     (if direction \<notin> {''upstream'', ''downstream''}
      then Inl (ValueError (''direction must be upstream or downstream, got '' @ direction))
      else Inr (traverse_loop (dependency_adj (direction = ''downstream'') graph)
             (node_map (rg_nodes graph)) start_node_id limit [start_node_id] {start_node_id} []))"

function impact_set_loop ::
  "adjacency \<Rightarrow> (string \<rightharpoonup> graph_node) \<Rightarrow> string list \<Rightarrow> nat \<Rightarrow> string list \<Rightarrow> string set
     \<Rightarrow> graph_node list \<Rightarrow> graph_node list" where
  "impact_set_loop adj nodes changed limit [] visited result = result"
| "impact_set_loop adj nodes changed limit (current # queue) visited result =
     (if length result \<ge> limit then result
      else if current \<in> visited then impact_set_loop adj nodes changed limit queue visited result
      else
        impact_set_loop adj nodes changed limit
          (queue @ filter (\<lambda>m. m \<notin> insert current visited) (adj_get adj current))
          (insert current visited)
          (case nodes current of
             None \<Rightarrow> result | Some n \<Rightarrow> if current \<notin> set changed then result @ [n] else result))"
  by pat_completeness auto
termination
proof (relation "measures [\<lambda>(adj, nodes, changed, limit, queue, visited, result).
      card ((adj_targets adj \<union> set queue) - visited),
    \<lambda>(adj, nodes, changed, limit, queue, visited, result). length queue]", goal_cases)
  case (2 adj nodes changed limit current queue visited result)
  then have "adj_targets adj \<union> set (current # queue) - visited = adj_targets adj \<union> set queue - visited"
    by auto
  then show ?case by simp
next
  case (3 adj nodes changed limit current queue visited result)
  have "(adj_targets adj \<union> set (queue @ filter (\<lambda>m. m \<notin> insert current visited) (adj_get adj current)))
      - insert current visited \<subset> (adj_targets adj \<union> set (current # queue)) - visited"
    using 3 adj_get_targets [of adj current] by auto
  then have "card ((adj_targets adj \<union> set (queue @ filter (\<lambda>m. m \<notin> insert current visited)
      (adj_get adj current))) - insert current visited) <
      card ((adj_targets adj \<union> set (current # queue)) - visited)"
    by (intro psubset_card_mono) simp_all
  then show ?case by simp
qed simp

definition get_impact_set :: "recovery_graph \<Rightarrow> string list \<Rightarrow> nat \<Rightarrow> graph_node list" where
  "get_impact_set graph changed_node_ids limit =
     impact_set_loop (dependency_adj True graph) (node_map (rg_nodes graph)) changed_node_ids limit
       changed_node_ids {} []"

section \<open>Incident graphs\<close>

fun action_status_value :: "action_status \<Rightarrow> string" where
  "action_status_value AS_PENDING = ''pending''"
| "action_status_value AS_EVALUATING = ''evaluating''"
| "action_status_value AS_PERMITTED = ''permitted''"
| "action_status_value AS_DENIED = ''denied''"
| "action_status_value AS_REQUIRES_APPROVAL = ''requires_approval''"
| "action_status_value AS_EXECUTED = ''executed''"
| "action_status_value AS_FAILED = ''failed''"
| "action_status_value AS_CONTAINED = ''contained''"

text \<open>The dictionaries of a raw graph. Every raw edge has the relation \<open>parent_child\<close>.\<close>

record raw_node =
  rn_action_id :: string
  rn_agent_id :: string
  rn_tool :: string
  rn_resource :: string
  rn_action_type :: string
  rn_status :: string
  rn_parent_action_id :: "string option"
  rn_created_at :: datetime

type_synonym raw_graph = "raw_node list \<times> (string \<times> string) list"

definition raw_node_of :: "protected_action \<Rightarrow> raw_node" where
  "raw_node_of a =
     \<lparr>rn_action_id = pa_action_id a, rn_agent_id = pa_agent_id a, rn_tool = pa_tool a,
      rn_resource = pa_resource a, rn_action_type = pa_action_type a,
      rn_status = action_status_value (pa_status a), rn_parent_action_id = pa_parent_action_id a,
      rn_created_at = pa_created_at a\<rparr>"

text \<open>The parent of an action when it is stored and not visited yet.\<close>

definition unvisited_parent ::
  "string \<Rightarrow> action_table \<Rightarrow> string set \<Rightarrow> protected_action \<Rightarrow> protected_action list" where
  "unvisited_parent t rows visited current =
     (if truthy (pa_parent_action_id current)
      then (case find_action t (the (pa_parent_action_id current)) rows of
              None \<Rightarrow> []
            | Some parent \<Rightarrow> if pa_action_id parent \<notin> visited then [parent] else [])
      else [])"

definition unvisited_descendants ::
  "string \<Rightarrow> action_table \<Rightarrow> string set \<Rightarrow> string \<Rightarrow> protected_action list" where
  "unvisited_descendants t rows visited i =
     filter (\<lambda>d. pa_action_id d \<notin> visited) (fst (list_descendants t i 1000 0 rows))"

lemma find_action_row: "find_action t i rows = Some a \<Longrightarrow> a \<in> set rows \<and> pa_action_id a = i \<and> pa_tenant_id a = t"
  by (auto simp: find_action_def sql_select_def filter_eq_Cons_iff elim!: sql_first.elims)

lemma unvisited_parent_rows: "set (unvisited_parent t rows v c) \<subseteq> set rows"
proof (cases "find_action t (the (pa_parent_action_id c)) rows")
  case None
  then have "unvisited_parent t rows v c = []" by (simp add: unvisited_parent_def)
  then show ?thesis by simp
next
  case (Some q)
  then have "unvisited_parent t rows v c = [q] \<or> unvisited_parent t rows v c = []"
    by (simp add: unvisited_parent_def)
  moreover have "q \<in> set rows" using find_action_row [OF Some] by simp
  ultimately show ?thesis by auto
qed

lemma descendants_rows:
  assumes "d \<in> set (fst (list_descendants t i l n rows))"
  shows "d \<in> set rows"
proof -
  have "set (fst (list_descendants t i l n rows)) \<subseteq> set (collect rows t (children_of rows t i) [])"
    by (auto simp: list_descendants_def Let_def dest: in_set_takeD in_set_dropD)
  moreover have "\<forall>c \<in> set (collect rows t (children_of rows t i) []). c \<in> set rows \<and> pa_tenant_id c = t \<and>
      descendant rows t i (pa_action_id c)"
    by (rule collect_sound) (auto dest: children_rows descendant.child)
  ultimately show ?thesis using assms by blast
qed

lemma unvisited_descendants_rows: "d \<in> set (unvisited_descendants t rows v i) \<Longrightarrow> d \<in> set rows"
  by (auto simp: unvisited_descendants_def dest: descendants_rows)

function incident_loop ::
  "string \<Rightarrow> action_table \<Rightarrow> protected_action list \<Rightarrow> string set \<Rightarrow> raw_graph \<Rightarrow> raw_graph" where
  "incident_loop t rows [] visited raw = raw"
| "incident_loop t rows (current # queue) visited raw =
     (if pa_action_id current \<in> visited then incident_loop t rows queue visited raw
      else
        (let visited' = insert (pa_action_id current) visited;
             parent = unvisited_parent t rows visited' current;
             descendants = unvisited_descendants t rows visited' (pa_action_id current)
         in incident_loop t rows (queue @ parent @ descendants) visited'
              (fst raw @ [raw_node_of current],
               snd raw @ map (\<lambda>p. (pa_action_id p, pa_action_id current)) parent @
               map (\<lambda>d. (pa_action_id current, pa_action_id d)) descendants)))"
  by pat_completeness auto
termination
proof (relation "measures [\<lambda>(t, rows, queue, visited, raw). card (action_ids (rows @ queue) - visited),
    \<lambda>(t, rows, queue, visited, raw). length queue]", goal_cases)
  case (2 t rows current queue visited raw)
  then have "action_ids (rows @ current # queue) - visited = action_ids (rows @ queue) - visited" by auto
  then show ?case by simp
next
  case (3 t rows current queue visited raw visited' parent descendants)
  have "set parent \<union> set descendants \<subseteq> set rows"
    using unvisited_parent_rows unvisited_descendants_rows 3 by blast
  then have "action_ids (rows @ queue @ parent @ descendants) \<subseteq> action_ids (rows @ current # queue)"
    by auto
  moreover have "pa_action_id current \<in> action_ids (rows @ current # queue) - visited" using 3 by simp
  ultimately have "action_ids (rows @ queue @ parent @ descendants) - visited' \<subset>
      action_ids (rows @ current # queue) - visited" using 3 by blast
  then have "card (action_ids (rows @ queue @ parent @ descendants) - visited') <
      card (action_ids (rows @ current # queue) - visited)" by (intro psubset_card_mono) simp_all
  then show ?case by simp
qed simp

definition get_incident_graph ::
  "string \<Rightarrow> string \<Rightarrow> action_table \<Rightarrow> py_error + raw_graph" where
  "get_incident_graph t action_id rows =
     (case find_action t action_id rows of
        None \<Rightarrow> Inl (ValueError ''Action not found'')
      | Some action \<Rightarrow> Inr (incident_loop t rows [action] {} ([], [])))"

text \<open>
  \<open>_build_raw_graph\<close>: the same walk over identifiers, without a causal service. A parent is queued
  whether or not it is stored; the identifiers on the queue are stored or named as parents.
\<close>

definition raw_parent :: "string set \<Rightarrow> protected_action \<Rightarrow> string list" where
  "raw_parent visited a =
     (if truthy (pa_parent_action_id a) \<and> the (pa_parent_action_id a) \<notin> visited
      then [the (pa_parent_action_id a)] else [])"

abbreviation raw_universe :: "action_table \<Rightarrow> string set" where
  "raw_universe rows \<equiv> action_ids rows \<union> {p. \<exists>a \<in> set rows. pa_parent_action_id a = Some p}"

lemma finite_named_parents [simp]: "finite {p. \<exists>a \<in> set rows. pa_parent_action_id a = Some p}"
proof -
  have "{p. \<exists>a \<in> set rows. pa_parent_action_id a = Some p} \<subseteq> the ` pa_parent_action_id ` set rows"
    by force
  then show ?thesis by (rule finite_subset) simp
qed

function raw_graph_loop ::
  "string \<Rightarrow> action_table \<Rightarrow> string list \<Rightarrow> string set \<Rightarrow> raw_graph \<Rightarrow> raw_graph" where
  "raw_graph_loop t rows [] visited raw = raw"
| "raw_graph_loop t rows (current # queue) visited raw =
     (if current \<in> visited then raw_graph_loop t rows queue visited raw
      else
        (case find_action t current rows of
           None \<Rightarrow> raw_graph_loop t rows queue (insert current visited) raw
         | Some a \<Rightarrow>
             (let visited' = insert current visited;
                  parent = raw_parent visited' a;
                  descendants = map pa_action_id (unvisited_descendants t rows visited' current)
              in raw_graph_loop t rows (queue @ parent @ descendants) visited'
                   (fst raw @ [raw_node_of a],
                    snd raw @ map (\<lambda>p. (p, current)) parent @ map (\<lambda>d. (current, d)) descendants))))"
  by pat_completeness auto
termination
proof (relation "measures [\<lambda>(t, rows, queue, visited, raw). card ((raw_universe rows \<union> set queue) - visited),
    \<lambda>(t, rows, queue, visited, raw). length queue]", goal_cases)
  case (2 t rows current queue visited raw)
  then have "(raw_universe rows \<union> set (current # queue)) - visited = (raw_universe rows \<union> set queue) - visited"
    by auto
  then show ?case by simp
next
  case (3 t rows current queue visited raw)
  then have "(raw_universe rows \<union> set queue) - insert current visited \<subset>
      (raw_universe rows \<union> set (current # queue)) - visited" by auto
  then have "card ((raw_universe rows \<union> set queue) - insert current visited) <
      card ((raw_universe rows \<union> set (current # queue)) - visited)"
    by (intro psubset_card_mono) simp_all
  then show ?case by simp
next
  case (4 t rows current queue visited raw a visited' parent descendants)
  have "a \<in> set rows" using 4(2) by (simp add: find_action_row)
  then have "set parent \<subseteq> raw_universe rows"
    unfolding 4(4) raw_parent_def by (cases "pa_parent_action_id a") auto
  moreover have "set descendants \<subseteq> raw_universe rows"
    unfolding 4(5) using unvisited_descendants_rows by auto
  ultimately have "(raw_universe rows \<union> set (queue @ parent @ descendants)) - visited' \<subset>
      (raw_universe rows \<union> set (current # queue)) - visited" using 4(1) unfolding 4(3) by auto
  then have "card ((raw_universe rows \<union> set (queue @ parent @ descendants)) - visited') <
      card ((raw_universe rows \<union> set (current # queue)) - visited)"
    by (intro psubset_card_mono) simp_all
  then show ?case by simp
qed simp

definition build_raw_graph :: "string \<Rightarrow> string \<Rightarrow> action_table \<Rightarrow> raw_graph" where
  "build_raw_graph t root_action_id rows = raw_graph_loop t rows [root_action_id] {} ([], [])"

section \<open>Building graphs\<close>

definition graph_node_id :: "graph_node_kind \<Rightarrow> string \<Rightarrow> string \<Rightarrow> string" where
  "graph_node_id kind entity_id tenant_id = kind_value kind @ '':'' @ tenant_id @ '':'' @ entity_id"

definition graph_edge_id ::
  "(string \<Rightarrow> string) \<Rightarrow> string \<Rightarrow> string \<Rightarrow> graph_relation \<Rightarrow> string \<Rightarrow> string" where
  "graph_edge_id sha source target relation tenant_id =
     take 24 (hexdigest sha (tenant_id @ '':'' @ source @ ''->'' @ target @ '':'' @ relation_value relation))"

definition graph_id_of :: "string \<Rightarrow> string \<Rightarrow> string \<Rightarrow> string" where
  "graph_id_of tenant_id incident_id token = ''g-'' @ tenant_id @ ''-'' @ incident_id @ ''-'' @ token"

definition opt_str :: "string option \<Rightarrow> pyval" where
  "opt_str x = (case x of None \<Rightarrow> PNone | Some s \<Rightarrow> PStr s)"

definition str_list :: "string list \<Rightarrow> pyval" where
  "str_list xs = PList (map PStr xs)"

definition depends_edge ::
  "(string \<Rightarrow> string) \<Rightarrow> datetime \<Rightarrow> string \<Rightarrow> string \<Rightarrow> string \<Rightarrow> graph_relation \<Rightarrow> pydict \<Rightarrow> graph_edge" where
  "depends_edge sha now tenant_id source target relation properties =
     \<lparr>ge_edge_id = graph_edge_id sha source target relation tenant_id, ge_tenant_id = tenant_id,
      ge_source_node_id = source, ge_target_node_id = target, ge_relation = relation,
      ge_valid_at = None, ge_valid_until = None, ge_properties = properties, ge_created_at = now\<rparr>"

definition causal_node :: "datetime \<Rightarrow> string \<Rightarrow> pydict \<Rightarrow> raw_node \<Rightarrow> graph_node" where
  "causal_node now tenant_id extra rn =
     \<lparr>gn_node_id = graph_node_id GK_ACTION (rn_action_id rn) tenant_id, gn_tenant_id = tenant_id,
      gn_kind = GK_ACTION, gn_entity_id = rn_action_id rn,
      gn_label = rn_tool rn @ '' '' @ rn_resource rn, gn_temporal_at = Some (rn_created_at rn),
      gn_properties =
        [(''agent_id'', PStr (rn_agent_id rn)), (''tool'', PStr (rn_tool rn)),
         (''resource'', PStr (rn_resource rn)), (''action_type'', PStr (rn_action_type rn)),
         (''status'', PStr (rn_status rn))] @ extra,
      gn_created_at = now\<rparr>"

definition causal_nodes ::
  "datetime \<Rightarrow> string \<Rightarrow> (raw_node \<Rightarrow> pydict) \<Rightarrow> raw_node list \<Rightarrow> (string, graph_node) dict" where
  "causal_nodes now tenant_id extra raw_nodes =
     fold (\<lambda>rn d. AList.update (graph_node_id GK_ACTION (rn_action_id rn) tenant_id)
                    (causal_node now tenant_id (extra rn) rn) d) raw_nodes []"

definition causal_edges ::
  "(string \<Rightarrow> string) \<Rightarrow> datetime \<Rightarrow> string \<Rightarrow> (string \<times> string) list \<Rightarrow> (string, graph_edge) dict" where
  "causal_edges sha now tenant_id raw_edges =
     fold (\<lambda>(source, target) d.
             (let e = depends_edge sha now tenant_id (graph_node_id GK_ACTION source tenant_id)
                        (graph_node_id GK_ACTION target tenant_id) DEPENDS_ON []
              in AList.update (ge_edge_id e) e d)) raw_edges []"

text \<open>\<open>use_causal\<close>: whether the service was built with a causal graph service.\<close>

definition raw_graph_of ::
  "bool \<Rightarrow> string \<Rightarrow> string \<Rightarrow> action_table \<Rightarrow> py_error + raw_graph" where
  "raw_graph_of use_causal tenant_id root_action_id rows =
     (if use_causal then get_incident_graph tenant_id root_action_id rows
      else Inr (build_raw_graph tenant_id root_action_id rows))"

definition build_recovery_graph_from_causal ::
  "(string \<Rightarrow> string) \<Rightarrow> datetime \<Rightarrow> string \<Rightarrow> bool \<Rightarrow> string \<Rightarrow> string \<Rightarrow> string \<Rightarrow> action_table
     \<Rightarrow> py_error + recovery_graph" where
  "build_recovery_graph_from_causal sha now token use_causal tenant_id incident_id root_action_id rows =
     (case raw_graph_of use_causal tenant_id root_action_id rows of
        Inl e \<Rightarrow> Inl e
      | Inr (raw_nodes, raw_edges) \<Rightarrow>
          (let nodes = causal_nodes now tenant_id
                 (\<lambda>rn. [(''parent_action_id'', opt_str (rn_parent_action_id rn))]) raw_nodes;
               edges = causal_edges sha now tenant_id raw_edges
           in Inr \<lparr>rg_graph_id = graph_id_of tenant_id incident_id token, rg_tenant_id = tenant_id,
                   rg_incident_id = incident_id, rg_root_action_id = root_action_id, rg_version = 1,
                   rg_nodes = map snd nodes, rg_edges = map snd edges,
                   rg_metadata = [(''source'', PStr ''causal_graph''),
                     (''node_count'', PInt (int (length nodes))),
                     (''edge_count'', PInt (int (length edges)))],
                   rg_created_at = now, rg_updated_at = now\<rparr>))"

definition compute_graph_hash ::
  "(string \<Rightarrow> string) \<Rightarrow> (pyval \<Rightarrow> string) \<Rightarrow> graph_node list \<Rightarrow> graph_edge list \<Rightarrow> string" where
  "compute_graph_hash sha dumps nodes edges =
     hexdigest sha (dumps (PDict
       [(''nodes'', str_list (sort (map gn_node_id nodes))),
        (''edges'', str_list (sort (map (\<lambda>e. ge_source_node_id e @ ''->'' @ ge_target_node_id e @
            '':'' @ relation_value (ge_relation e)) edges)))]))"

text \<open>\<open>node.properties.get(key, default)\<close>\<close>

definition prop_get :: "string \<Rightarrow> pyval \<Rightarrow> graph_node \<Rightarrow> pyval" where
  "prop_get key dflt n =
     (case map_of (gn_properties n) key of None \<Rightarrow> dflt | Some v \<Rightarrow> v)"

text \<open>The resource of a node, when it names one.\<close>

definition node_resource :: "graph_node \<Rightarrow> string option" where
  "node_resource n =
     (case prop_get ''resource'' (PStr []) n of PStr s \<Rightarrow> if s = [] then None else Some s | _ \<Rightarrow> None)"

definition resource_node :: "datetime \<Rightarrow> string \<Rightarrow> string \<Rightarrow> graph_node" where
  "resource_node now tenant_id resource =
     \<lparr>gn_node_id = graph_node_id GK_RESOURCE resource tenant_id, gn_tenant_id = tenant_id,
      gn_kind = GK_RESOURCE, gn_entity_id = resource, gn_label = resource, gn_temporal_at = None,
      gn_properties = [], gn_created_at = now\<rparr>"

text \<open>The loop that adds a node for every resource that occurs first; the nodes that added one.\<close>

fun resource_step ::
  "datetime \<Rightarrow> string \<Rightarrow> graph_node \<Rightarrow> (string, graph_node) dict \<times> graph_node list
     \<Rightarrow> (string, graph_node) dict \<times> graph_node list" where
  "resource_step now tenant_id n (resources, firsts) =
     (case node_resource n of
        None \<Rightarrow> (resources, firsts)
      | Some r \<Rightarrow>
          if map_of resources r \<noteq> None then (resources, firsts)
          else (resources @ [(r, resource_node now tenant_id r)], firsts @ [n]))"

definition resource_nodes ::
  "datetime \<Rightarrow> string \<Rightarrow> graph_node list \<Rightarrow> (string, graph_node) dict \<times> graph_node list" where
  "resource_nodes now tenant_id nodes = fold (resource_step now tenant_id) nodes ([], [])"

definition dependency_node_of ::
  "datetime \<Rightarrow> string \<Rightarrow> (dependency_node \<Rightarrow> pydict) \<Rightarrow> string \<times> dependency_node \<Rightarrow> graph_node" where
  "dependency_node_of now tenant_id extra entry =
     (let (action_id, node) = entry
      in \<lparr>gn_node_id = graph_node_id GK_ACTION action_id tenant_id, gn_tenant_id = tenant_id,
          gn_kind = GK_ACTION, gn_entity_id = action_id,
          gn_label = dn_tool node @ '' '' @ dn_resource node, gn_temporal_at = None,
          gn_properties =
            [(''resource'', PStr (dn_resource node)), (''tool'', PStr (dn_tool node)),
             (''reversibility'', PStr (rev_value (dn_reversibility node)))] @ extra node,
          gn_created_at = now\<rparr>)"

definition dependency_edges_of ::
  "(string \<Rightarrow> string) \<Rightarrow> datetime \<Rightarrow> string \<Rightarrow> string \<times> dependency_node \<Rightarrow> graph_edge list" where
  "dependency_edges_of sha now tenant_id entry =
     (let (action_id, node) = entry; node_id = graph_node_id GK_ACTION action_id tenant_id
      in (if truthy (dn_parent_action_id node)
          then [depends_edge sha now tenant_id
                  (graph_node_id GK_ACTION (the (dn_parent_action_id node)) tenant_id) node_id DEPENDS_ON []]
          else []) @
         map (\<lambda>dep_id. depends_edge sha now tenant_id (graph_node_id GK_ACTION dep_id tenant_id) node_id
                DEPENDS_ON [(''inferred'', PBool True)]) (dn_depends_on node))"

definition build_recovery_graph_from_dependencies ::
  "(string \<Rightarrow> string) \<Rightarrow> (pyval \<Rightarrow> string) \<Rightarrow> datetime \<Rightarrow> string \<Rightarrow> string \<Rightarrow> string \<Rightarrow> string
     \<Rightarrow> dependency_graph \<Rightarrow> recovery_graph" where
  "build_recovery_graph_from_dependencies sha dumps now token tenant_id incident_id root_action_id dep_graph =
     (let nodes = map (dependency_node_of now tenant_id
            (\<lambda>n. [(''depends_on'', str_list (dn_depends_on n)), (''children'', str_list (dn_children n))]))
            (dg_nodes dep_graph);
          edges = concat (map (dependency_edges_of sha now tenant_id) (dg_nodes dep_graph));
          (resources, firsts) = resource_nodes now tenant_id nodes;
          observed = map (\<lambda>n. depends_edge sha now tenant_id
            (graph_node_id GK_RESOURCE (the (node_resource n)) tenant_id) (gn_node_id n) OBSERVED_AT []) firsts;
          all_nodes = nodes @ map snd resources;
          all_edges = edges @ observed
      in \<lparr>rg_graph_id = graph_id_of tenant_id incident_id token, rg_tenant_id = tenant_id,
          rg_incident_id = incident_id, rg_root_action_id = root_action_id, rg_version = 1,
          rg_nodes = all_nodes, rg_edges = all_edges,
          rg_metadata = [(''source'', PStr ''dependency_graph''),
            (''topological_order'', str_list (dg_topological_order dep_graph)),
            (''reverse_topological_order'', str_list (dg_reverse_topological_order dep_graph)),
            (''cycles'', PList (map str_list (dg_cycles dep_graph))),
            (''graph_hash'', PStr (compute_graph_hash sha dumps all_nodes all_edges))],
          rg_created_at = now, rg_updated_at = now\<rparr>)"

fun capability_value :: "adapter_capability \<Rightarrow> string" where
  "capability_value AC_PRODUCTION_VALIDATED = ''production_validated''"
| "capability_value AC_REFERENCE_IMPLEMENTATION = ''reference_implementation''"
| "capability_value AC_SIMULATION_CAPABLE = ''simulation_capable''"
| "capability_value AC_MOCK = ''mock''"
| "capability_value AC_STUB = ''stub''"
| "capability_value AC_UNSUPPORTED = ''unsupported''"

definition evidence_node :: "datetime \<Rightarrow> string \<Rightarrow> recovery_evidence \<Rightarrow> graph_node" where
  "evidence_node now tenant_id ev =
     \<lparr>gn_node_id = graph_node_id GK_VERIFICATION (re_evidence_id ev) tenant_id,
      gn_tenant_id = tenant_id, gn_kind = GK_VERIFICATION, gn_entity_id = re_evidence_id ev,
      gn_label = ''evidence:'' @ re_target_resource ev, gn_temporal_at = None,
      gn_properties =
        [(''action_id'', PStr (re_action_id ev)), (''target_system'', PStr (re_target_system ev)),
         (''reversibility'', PStr (rev_value (re_reversibility_classification ev))),
         (''adapter_capability'', PStr (capability_value (re_adapter_capability ev)))],
      gn_created_at = now\<rparr>"

definition build_graph_with_evidence ::
  "(string \<Rightarrow> string) \<Rightarrow> datetime \<Rightarrow> string \<Rightarrow> recovery_graph \<Rightarrow> recovery_evidence list \<Rightarrow> recovery_graph" where
  "build_graph_with_evidence sha now tenant_id graph evidence_list =
     (let used = filter (\<lambda>ev. re_evidence_id ev \<noteq> []) evidence_list;
          ev_edges = (\<lambda>ev. map (\<lambda>n. depends_edge sha now tenant_id
               (graph_node_id GK_VERIFICATION (re_evidence_id ev) tenant_id) (gn_node_id n) OBSERVED_AT [])
             (filter (\<lambda>n. gn_kind n = GK_ACTION \<and> gn_entity_id n = re_action_id ev) (rg_nodes graph)))
      in graph\<lparr>rg_nodes := rg_nodes graph @ map (evidence_node now tenant_id) used,
               rg_edges := rg_edges graph @ concat (map ev_edges used),
               rg_metadata := AList.update ''evidence_enriched'' (PBool True) (rg_metadata graph),
               rg_updated_at := now\<rparr>)"

definition enrich_with_intelligence ::
  "datetime \<Rightarrow> recovery_graph \<Rightarrow> dependency_graph \<Rightarrow> recovery_graph" where
  "enrich_with_intelligence now graph dep_graph =
     (let m = AList.update ''topological_order'' (str_list (dg_topological_order dep_graph)) (rg_metadata graph);
          m = AList.update ''reverse_topological_order''
                (str_list (dg_reverse_topological_order dep_graph)) m;
          m = AList.update ''roots'' (str_list (dg_roots dep_graph)) m;
          m = AList.update ''leaves'' (str_list (dg_leaves dep_graph)) m;
          m = (if dg_cycles dep_graph \<noteq> []
               then AList.update ''cycles'' (PList (map str_list (dg_cycles dep_graph))) m else m)
      in graph\<lparr>rg_version := rg_version graph + 1, rg_metadata := m, rg_updated_at := now\<rparr>)"

definition bump_version ::
  "(datetime \<Rightarrow> string) \<Rightarrow> datetime \<Rightarrow> recovery_graph \<Rightarrow> int \<Rightarrow> recovery_graph" where
  "bump_version isoformat now graph increment =
     graph\<lparr>rg_version := rg_version graph + increment,
           rg_metadata := AList.update ''bumped_at'' (PStr (isoformat now))
             (AList.update ''previous_version'' (PInt (rg_version graph)) (rg_metadata graph)),
           rg_updated_at := now\<rparr>"

text \<open>\<open>build_unified_recovery_graph\<close>: the causal nodes and edges, then what the dependency graph adds.\<close>

fun dep_edge_step ::
  "(string, graph_edge) dict \<Rightarrow> bool \<Rightarrow> graph_edge \<Rightarrow> (string, graph_edge) dict \<Rightarrow> (string, graph_edge) dict" where
  "dep_edge_step causal inferred e dep_edges =
     (if map_of causal (ge_edge_id e) \<noteq> None \<or> inferred \<and> map_of dep_edges (ge_edge_id e) \<noteq> None
      then dep_edges else AList.update (ge_edge_id e) e dep_edges)"

definition unified_edges_of ::
  "(string \<Rightarrow> string) \<Rightarrow> datetime \<Rightarrow> string \<Rightarrow> (string, graph_edge) dict \<Rightarrow> string \<times> dependency_node
     \<Rightarrow> (string, graph_edge) dict \<Rightarrow> (string, graph_edge) dict" where
  "unified_edges_of sha now tenant_id causal entry dep_edges =
     (let (action_id, node) = entry; node_id = graph_node_id GK_ACTION action_id tenant_id;
          dep_edges = (if truthy (dn_parent_action_id node)
            then dep_edge_step causal False (depends_edge sha now tenant_id
                   (graph_node_id GK_ACTION (the (dn_parent_action_id node)) tenant_id) node_id DEPENDS_ON
                   [(''source'', PStr ''dep_graph'')]) dep_edges
            else dep_edges)
      in fold (\<lambda>dep_id. dep_edge_step causal True (depends_edge sha now tenant_id
             (graph_node_id GK_ACTION dep_id tenant_id) node_id DEPENDS_ON
             [(''source'', PStr ''dep_graph''), (''inferred'', PBool True)])) (dn_depends_on node) dep_edges)"

definition build_unified_recovery_graph ::
  "(string \<Rightarrow> string) \<Rightarrow> (pyval \<Rightarrow> string) \<Rightarrow> datetime \<Rightarrow> string \<Rightarrow> bool \<Rightarrow> string \<Rightarrow> string \<Rightarrow> string
     \<Rightarrow> dependency_graph \<Rightarrow> action_table \<Rightarrow> py_error + recovery_graph" where
  "build_unified_recovery_graph sha dumps now token use_causal tenant_id incident_id root_action_id
       dep_graph rows =
     (case (if use_causal then get_incident_graph tenant_id root_action_id rows else Inr ([], [])) of
        Inl e \<Rightarrow> Inl e
      | Inr (raw_nodes, raw_edges) \<Rightarrow>
          (let causal_ns = causal_nodes now tenant_id (\<lambda>_. []) raw_nodes;
               causal_es = causal_edges sha now tenant_id raw_edges;
               dep_ns = fold (\<lambda>entry d.
                   (let n = dependency_node_of now tenant_id (\<lambda>_. []) entry
                    in if map_of causal_ns (gn_node_id n) \<noteq> None then d
                       else AList.update (gn_node_id n) n d)) (dg_nodes dep_graph) [];
               dep_es = fold (unified_edges_of sha now tenant_id causal_es) (dg_nodes dep_graph) [];
               (resources, firsts) = resource_nodes now tenant_id (map snd causal_ns @ map snd dep_ns);
               all_nodes = map snd causal_ns @ map snd dep_ns @ map snd resources;
               all_edges = map snd causal_es @ map snd dep_es
           in Inr \<lparr>rg_graph_id = graph_id_of tenant_id incident_id token, rg_tenant_id = tenant_id,
                   rg_incident_id = incident_id, rg_root_action_id = root_action_id, rg_version = 1,
                   rg_nodes = all_nodes, rg_edges = all_edges,
                   rg_metadata = [(''source'', PStr ''unified''),
                     (''causal_node_count'', PInt (int (length causal_ns))),
                     (''dep_node_count'', PInt (int (length dep_ns))),
                     (''resource_node_count'', PInt (int (length resources))),
                     (''graph_hash'', PStr (compute_graph_hash sha dumps all_nodes all_edges)),
                     (''topological_order'', str_list (dg_topological_order dep_graph)),
                     (''cycles'', PList (map str_list (dg_cycles dep_graph)))],
                   rg_created_at = now, rg_updated_at = now\<rparr>))"

section \<open>Checks, snapshots and differences\<close>

text \<open>The first loop of \<open>check_consistency\<close>: dangling ends and repeated edges, with their issues.\<close>

definition edge_key :: "graph_edge \<Rightarrow> string \<times> string \<times> string" where
  "edge_key e = (ge_source_node_id e, ge_target_node_id e, relation_value (ge_relation e))"

fun edge_checks ::
  "string set \<Rightarrow> (string \<times> string \<times> string) set \<Rightarrow> graph_edge list
     \<Rightarrow> string list \<times> string list \<times> string list" where
  "edge_checks node_ids seen [] = ([], [], [])"
| "edge_checks node_ids seen (e # es) =
     (let (issues, dangling, duplicates) = edge_checks node_ids (insert (edge_key e) seen) es;
          src = (if ge_source_node_id e \<notin> node_ids then [ge_edge_id e] else []);
          tgt = (if ge_target_node_id e \<notin> node_ids then [ge_edge_id e] else []);
          dup = (if edge_key e \<in> seen then [ge_edge_id e] else [])
      in (map (\<lambda>i. ''Dangling edge '' @ i @ '': source node missing'') src @
          map (\<lambda>i. ''Dangling edge '' @ i @ '': target node missing'') tgt @
          map (\<lambda>i. ''Duplicate edge: '' @ i) dup @ issues,
          src @ tgt @ dangling, dup @ duplicates))"

definition has_edge :: "graph_edge list \<Rightarrow> graph_node \<Rightarrow> bool" where
  "has_edge edges n \<longleftrightarrow>
     list_ex (\<lambda>e. ge_source_node_id e = gn_node_id n \<or> ge_target_node_id e = gn_node_id n) edges"

definition temporal_violation :: "graph_edge \<Rightarrow> bool" where
  "temporal_violation e \<longleftrightarrow>
     (case (ge_valid_at e, ge_valid_until e) of (Some a, Some b) \<Rightarrow> a > b | _ \<Rightarrow> False)"

definition check_consistency :: "recovery_graph \<Rightarrow> consistency_report" where
  "check_consistency graph =
     (let (issues, dangling, duplicates) =
            edge_checks (gn_node_id ` set (rg_nodes graph)) {} (rg_edges graph);
          orphans = map gn_node_id (filter (\<lambda>n. gn_kind n \<noteq> GK_TENANT \<and> \<not> has_edge (rg_edges graph) n \<and>
            gn_kind n \<noteq> GK_RESOURCE) (rg_nodes graph));
          violations = (if rg_nodes graph = [] then []
            else map ge_edge_id (filter temporal_violation (rg_edges graph)));
          all_issues = issues @ map (\<lambda>i. ''Temporal violation: '' @ i) violations
      in \<lparr>cn_tenant_id = rg_tenant_id graph, cn_graph_id = rg_graph_id graph,
          cn_level = (if all_issues \<noteq> [] then INCONSISTENT else CONSISTENT),
          cn_issues = all_issues, cn_dangling_edges = dangling, cn_orphan_nodes = orphans,
          cn_duplicate_edges = duplicates, cn_temporal_violations = violations\<rparr>)"

definition edge_adjacency :: "recovery_graph \<Rightarrow> adjacency" where
  "edge_adjacency graph =
     fold (\<lambda>e adj. adj_push (ge_source_node_id e) (ge_target_node_id e)
                     (adj_touch (ge_target_node_id e) (adj_touch (ge_source_node_id e) adj)))
       (rg_edges graph) (node_adjacency (rg_nodes graph))"

definition check_cycles :: "recovery_graph \<Rightarrow> cycle_report" where
  "check_cycles graph =
     (let cycles = find_cycles (edge_adjacency graph)
      in \<lparr>cy_tenant_id = rg_tenant_id graph, cy_graph_id = rg_graph_id graph,
          cy_status = (if cycles \<noteq> [] then CYCLE_DETECTED else NO_CYCLE), cy_cycles = cycles,
          cy_cycle_nodes = concat cycles,
          cy_details = (if cycles \<noteq> [] then ''Found '' @ show_nat (length cycles) @ '' cycle(s)''
                        else ''No cycles detected'')\<rparr>)"

definition create_snapshot ::
  "(datetime \<Rightarrow> string) \<Rightarrow> datetime \<Rightarrow> string \<Rightarrow> recovery_graph \<Rightarrow> graph_snapshot" where
  "create_snapshot isoformat now token graph =
     \<lparr>gs_snapshot_id = ''snap-'' @ rg_graph_id graph @ ''-'' @ token, gs_tenant_id = rg_tenant_id graph,
      gs_graph_id = rg_graph_id graph, gs_version = rg_version graph, gs_nodes = rg_nodes graph,
      gs_edges = rg_edges graph,
      gs_metadata = AList.update ''captured_at'' (PStr (isoformat now)) (rg_metadata graph),
      gs_captured_at = now\<rparr>"

text \<open>The identifiers of one list that do, or do not, occur in another.\<close>

definition ids_minus :: "string list \<Rightarrow> string list \<Rightarrow> string list" where
  "ids_minus xs ys = filter (\<lambda>x. x \<notin> set ys) (remdups xs)"

definition ids_both :: "string list \<Rightarrow> string list \<Rightarrow> string list" where
  "ids_both xs ys = filter (\<lambda>x. x \<in> set ys) (remdups xs)"

text \<open>Equality of the frozen dataclasses: their dictionaries are compared as Python values.\<close>

definition same_node :: "graph_node \<Rightarrow> graph_node \<Rightarrow> bool" where
  "same_node n m \<longleftrightarrow>
     n\<lparr>gn_properties := []\<rparr> = m\<lparr>gn_properties := []\<rparr> \<and>
     py_eq (PDict (gn_properties n)) (PDict (gn_properties m))"

definition same_edge :: "graph_edge \<Rightarrow> graph_edge \<Rightarrow> bool" where
  "same_edge e f \<longleftrightarrow>
     e\<lparr>ge_properties := []\<rparr> = f\<lparr>ge_properties := []\<rparr> \<and>
     py_eq (PDict (ge_properties e)) (PDict (ge_properties f))"

definition compute_diff ::
  "string \<Rightarrow> recovery_graph \<Rightarrow> graph_snapshot \<Rightarrow> graph_snapshot \<Rightarrow> graph_diff" where
  "compute_diff diff_id graph from_snapshot to_snapshot =
     (let from_nodes = map gn_node_id (gs_nodes from_snapshot);
          to_nodes = map gn_node_id (gs_nodes to_snapshot);
          from_edges = map ge_edge_id (gs_edges from_snapshot);
          to_edges = map ge_edge_id (gs_edges to_snapshot);
          node_from = (\<lambda>i. the (node_map (gs_nodes from_snapshot) i));
          node_to = (\<lambda>i. the (node_map (gs_nodes to_snapshot) i));
          edge_from = (\<lambda>i. the (edge_map (gs_edges from_snapshot) i));
          edge_to = (\<lambda>i. the (edge_map (gs_edges to_snapshot) i))
      in \<lparr>gd_diff_id = diff_id, gd_tenant_id = rg_tenant_id graph, gd_graph_id = rg_graph_id graph,
          gd_from_version = gs_version from_snapshot, gd_to_version = gs_version to_snapshot,
          gd_added_nodes = map node_to (ids_minus to_nodes from_nodes),
          gd_removed_nodes = map node_from (ids_minus from_nodes to_nodes),
          gd_added_edges = map edge_to (ids_minus to_edges from_edges),
          gd_removed_edges = map edge_from (ids_minus from_edges to_edges),
          gd_changed_nodes = map node_to
            (filter (\<lambda>i. \<not> same_node (node_from i) (node_to i)) (ids_both from_nodes to_nodes)),
          gd_changed_edges = map edge_to
            (filter (\<lambda>i. \<not> same_edge (edge_from i) (edge_to i)) (ids_both from_edges to_edges))\<rparr>)"

section \<open>Extracting a plan\<close>

record graph_step =
  sp_step_id :: string
  sp_entity_id :: string
  sp_label :: string
  sp_tool :: pyval
  sp_resource :: pyval
  sp_reversibility :: pyval
  sp_depends_on :: "string list"
  sp_dependents :: "string list"

definition initial_step :: "graph_node \<Rightarrow> graph_step" where
  "initial_step n =
     \<lparr>sp_step_id = gn_node_id n, sp_entity_id = gn_entity_id n, sp_label = gn_label n,
      sp_tool = prop_get ''tool'' (PStr []) n, sp_resource = prop_get ''resource'' (PStr []) n,
      sp_reversibility = prop_get ''reversibility'' (PStr ''unknown'') n,
      sp_depends_on = [], sp_dependents = []\<rparr>"

definition link_step :: "graph_edge \<Rightarrow> (string, graph_step) dict \<Rightarrow> (string, graph_step) dict" where
  "link_step e steps =
     AList.map_entry (ge_target_node_id e)
       (\<lambda>s. s\<lparr>sp_depends_on := sp_depends_on s @ [ge_source_node_id e]\<rparr>)
       (AList.map_entry (ge_source_node_id e)
         (\<lambda>s. s\<lparr>sp_dependents := sp_dependents s @ [ge_target_node_id e]\<rparr>) steps)"

text \<open>\<open>list(dict.fromkeys(xs))\<close> keeps the first occurrences.\<close>

definition from_keys :: "string list \<Rightarrow> string list" where
  "from_keys xs = rev (remdups (rev xs))"

definition plan_steps :: "recovery_graph \<Rightarrow> (string, graph_step) dict" where
  "plan_steps graph =
     map (\<lambda>(i, s). (i, s\<lparr>sp_depends_on := from_keys (sp_depends_on s),
                         sp_dependents := from_keys (sp_dependents s)\<rparr>))
       (fold link_step (filter (\<lambda>e. ge_relation e = DEPENDS_ON) (rg_edges graph))
         (fold (\<lambda>n d. AList.update (gn_node_id n) (initial_step n) d)
           (filter (\<lambda>n. gn_kind n = GK_ACTION) (rg_nodes graph)) []))"

text \<open>The breadth-first walk from the root; the edges are scanned in order for each node.\<close>

definition dependents_of :: "graph_edge list \<Rightarrow> string \<Rightarrow> string list" where
  "dependents_of edges i = map ge_target_node_id (filter (\<lambda>e. ge_source_node_id e = i) edges)"

function plan_walk ::
  "graph_edge list \<Rightarrow> (string, graph_step) dict \<Rightarrow> string list \<Rightarrow> string set \<Rightarrow> string list \<Rightarrow> string list" where
  "plan_walk edges steps [] visited order = order"
| "plan_walk edges steps (current # queue) visited order =
     (if current \<in> visited then plan_walk edges steps queue visited order
      else
        plan_walk edges steps
          (queue @ filter (\<lambda>m. m \<notin> insert current visited) (dependents_of edges current))
          (insert current visited)
          (case map_of steps current of None \<Rightarrow> order | Some s \<Rightarrow> order @ [sp_step_id s]))"
  by pat_completeness auto
termination
proof (relation "measures [\<lambda>(edges, steps, queue, visited, order).
      card ((ge_target_node_id ` set edges \<union> set queue) - visited),
    \<lambda>(edges, steps, queue, visited, order). length queue]", goal_cases)
  case (2 edges steps current queue visited order)
  then have "ge_target_node_id ` set edges \<union> set (current # queue) - visited =
      ge_target_node_id ` set edges \<union> set queue - visited" by auto
  then show ?case by simp
next
  case (3 edges steps current queue visited order)
  have "(ge_target_node_id ` set edges \<union> set (queue @ filter (\<lambda>m. m \<notin> insert current visited)
      (dependents_of edges current))) - insert current visited \<subset>
      (ge_target_node_id ` set edges \<union> set (current # queue)) - visited"
    using 3 by (auto simp: dependents_of_def)
  then have "card ((ge_target_node_id ` set edges \<union> set (queue @ filter (\<lambda>m. m \<notin> insert current visited)
      (dependents_of edges current))) - insert current visited) <
      card ((ge_target_node_id ` set edges \<union> set (current # queue)) - visited)"
    by (intro psubset_card_mono) simp_all
  then show ?case by simp
qed simp

record graph_plan =
  gp_steps :: "graph_step list"
  gp_reverse_execution_order :: "string list"
  gp_roots :: "string list"
  gp_leaves :: "string list"
  gp_resources :: "(string \<times> string list) list"
  gp_cycles :: "string list list"
  gp_is_valid :: bool
  gp_issues :: "string list"

definition extract_recovery_plan :: "recovery_graph \<Rightarrow> graph_plan" where
  "extract_recovery_plan graph =
     (let action_nodes = filter (\<lambda>n. gn_kind n = GK_ACTION) (rg_nodes graph);
          dep_edges = filter (\<lambda>e. ge_relation e = DEPENDS_ON) (rg_edges graph);
          step_map = plan_steps graph;
          steps = map snd step_map;
          order = plan_walk dep_edges step_map
            [graph_node_id GK_ACTION (rg_root_action_id graph) (rg_tenant_id graph)] {} [];
          resources = map (\<lambda>r. (gn_node_id r, map gn_node_id
              (filter (\<lambda>n. prop_get ''resource'' (PStr []) n = PStr (gn_entity_id r)) action_nodes)))
            (filter (\<lambda>n. gn_kind n = GK_RESOURCE) (rg_nodes graph));
          report = check_cycles graph;
          cycles = (if cy_status report = CYCLE_DETECTED then cy_cycles report else []);
          consistency = check_consistency graph
      in \<lparr>gp_steps = steps, gp_reverse_execution_order = order,
          gp_roots = map sp_step_id (filter (\<lambda>s. sp_depends_on s = []) steps),
          gp_leaves = map sp_step_id (filter (\<lambda>s. sp_dependents s = []) steps),
          gp_resources = resources, gp_cycles = cycles,
          gp_is_valid = (cn_level consistency = CONSISTENT \<and> cycles = []),
          gp_issues = cn_issues consistency\<rparr>)"

section \<open>The repository\<close>

record graph_repo =
  gr_graphs :: "(string, recovery_graph) dict"
  gr_snapshots :: "string \<rightharpoonup> (int \<rightharpoonup> graph_snapshot)"

definition new_graph_repo :: graph_repo where
  "new_graph_repo = \<lparr>gr_graphs = [], gr_snapshots = Map.empty\<rparr>"

definition get_graph :: "string \<Rightarrow> string \<Rightarrow> graph_repo \<Rightarrow> recovery_graph option" where
  "get_graph tenant_id graph_id repo =
     (case map_of (gr_graphs repo) graph_id of
        None \<Rightarrow> None | Some g \<Rightarrow> if rg_tenant_id g = tenant_id then Some g else None)"

definition graphs_by_incident ::
  "string \<Rightarrow> string \<Rightarrow> nat \<Rightarrow> nat \<Rightarrow> graph_repo \<Rightarrow> recovery_graph list \<times> nat" where
  "graphs_by_incident tenant_id incident_id limit offset repo =
     (let matches = filter (\<lambda>g. rg_tenant_id g = tenant_id \<and> rg_incident_id g = incident_id)
            (map snd (gr_graphs repo))
      in (take limit (drop offset matches), length matches))"

definition graphs_by_root_action ::
  "string \<Rightarrow> string \<Rightarrow> nat \<Rightarrow> nat \<Rightarrow> graph_repo \<Rightarrow> recovery_graph list \<times> nat" where
  "graphs_by_root_action tenant_id root_action_id limit offset repo =
     (let matches = filter (\<lambda>g. rg_tenant_id g = tenant_id \<and> rg_root_action_id g = root_action_id)
            (map snd (gr_graphs repo))
      in (take limit (drop offset matches), length matches))"

definition save_graph :: "recovery_graph \<Rightarrow> graph_repo \<Rightarrow> recovery_graph \<times> graph_repo" where
  "save_graph graph repo =
     (graph, repo\<lparr>gr_graphs := AList.update (rg_graph_id graph) graph (gr_graphs repo)\<rparr>)"

definition update_graph_version ::
  "datetime \<Rightarrow> string \<Rightarrow> string \<Rightarrow> int \<Rightarrow> graph_repo \<Rightarrow> recovery_graph option \<times> graph_repo" where
  "update_graph_version now tenant_id graph_id version repo =
     (case get_graph tenant_id graph_id repo of
        None \<Rightarrow> (None, repo)
      | Some g \<Rightarrow>
          (let updated = g\<lparr>rg_version := version, rg_updated_at := now\<rparr>
           in (Some updated, repo\<lparr>gr_graphs := AList.update graph_id updated (gr_graphs repo)\<rparr>)))"

definition snapshot_graph ::
  "(datetime \<Rightarrow> string) \<Rightarrow> datetime \<Rightarrow> string \<Rightarrow> string \<Rightarrow> string \<Rightarrow> int \<Rightarrow> graph_repo
     \<Rightarrow> graph_snapshot option \<times> graph_repo" where
  "snapshot_graph isoformat now snapshot_id tenant_id graph_id version repo =
     (case get_graph tenant_id graph_id repo of
        None \<Rightarrow> (None, repo)
      | Some g \<Rightarrow>
          if rg_version g \<noteq> version then (None, repo)
          else
            (let snap = \<lparr>gs_snapshot_id = snapshot_id, gs_tenant_id = tenant_id,
                         gs_graph_id = graph_id, gs_version = version, gs_nodes = rg_nodes g,
                         gs_edges = rg_edges g,
                         gs_metadata = AList.update ''captured_at'' (PStr (isoformat now)) (rg_metadata g),
                         gs_captured_at = now\<rparr>;
                 snaps = (case gr_snapshots repo graph_id of None \<Rightarrow> Map.empty | Some m \<Rightarrow> m)
             in (Some snap,
                 repo\<lparr>gr_snapshots := (gr_snapshots repo)(graph_id \<mapsto> snaps(version \<mapsto> snap))\<rparr>)))"

definition diff_graphs ::
  "string \<Rightarrow> string \<Rightarrow> string \<Rightarrow> int \<Rightarrow> int \<Rightarrow> graph_repo \<Rightarrow> graph_diff option" where
  "diff_graphs diff_id tenant_id graph_id from_version to_version repo =
     (let snaps = (case gr_snapshots repo graph_id of None \<Rightarrow> Map.empty | Some m \<Rightarrow> m)
      in case (snaps from_version, snaps to_version) of
           (Some a, Some b) \<Rightarrow>
             if gs_tenant_id a \<noteq> tenant_id \<or> gs_tenant_id b \<noteq> tenant_id then None
             else map_option (\<lambda>g. compute_diff diff_id g a b) (get_graph tenant_id graph_id repo)
         | _ \<Rightarrow> None)"

definition repo_check_consistency :: "string \<Rightarrow> string \<Rightarrow> graph_repo \<Rightarrow> consistency_report" where
  "repo_check_consistency tenant_id graph_id repo =
     (case get_graph tenant_id graph_id repo of
        None \<Rightarrow> \<lparr>cn_tenant_id = tenant_id, cn_graph_id = graph_id, cn_level = CONSISTENCY_UNKNOWN,
                cn_issues = [''Graph not found''], cn_dangling_edges = [], cn_orphan_nodes = [],
                cn_duplicate_edges = [], cn_temporal_violations = []\<rparr>
      | Some g \<Rightarrow> check_consistency g)"

definition repo_check_cycles :: "string \<Rightarrow> string \<Rightarrow> graph_repo \<Rightarrow> cycle_report" where
  "repo_check_cycles tenant_id graph_id repo =
     (case get_graph tenant_id graph_id repo of
        None \<Rightarrow> \<lparr>cy_tenant_id = tenant_id, cy_graph_id = graph_id, cy_status = INCONCLUSIVE,
                cy_cycles = [], cy_cycle_nodes = [], cy_details = ''Graph not found''\<rparr>
      | Some g \<Rightarrow> check_cycles g)"

definition delete_graph :: "string \<Rightarrow> string \<Rightarrow> graph_repo \<Rightarrow> bool \<times> graph_repo" where
  "delete_graph tenant_id graph_id repo =
     (case get_graph tenant_id graph_id repo of
        None \<Rightarrow> (False, repo)
      | Some _ \<Rightarrow>
          (True, repo\<lparr>gr_graphs := AList.delete graph_id (gr_graphs repo),
                      gr_snapshots := (gr_snapshots repo)(graph_id := None)\<rparr>))"

end
