(* ===== verification/Recovery_Graph_Properties.thy ===== *)
theory Recovery_Graph_Properties
  imports Recovery_Graph
begin

text \<open>
  What the operations on recovery graphs compute: the traversals find exactly the nodes reachable
  along dependencies, a plan is valid exactly when the graph is sound and acyclic, a difference of
  two snapshots turns one into the other, and an incident graph holds exactly the connected actions.
  The last theorems are about the order of an extracted plan and about saving graphs of other
  tenants.
\<close>

section \<open>Adjacency dictionaries\<close>

lemma adj_get_touch [simp]: "adj_get (adj_touch k adj) x = adj_get adj x"
  by (auto simp: adj_get_def adj_touch_def map_add_def split: option.split)

lemma adj_get_push [simp]: "adj_get (adj_push k v adj) x = adj_get adj x @ (if x = k then [v] else [])"
proof -
  obtain vs where "map_of (adj_touch k adj) k = Some vs"
    by (cases "map_of adj k") (auto simp: adj_touch_def map_add_def)
  moreover have "adj_get (adj_touch k adj) k = adj_get adj k" by simp
  ultimately show ?thesis
    using adj_get_touch [of k adj x]
    by (auto simp: adj_push_def adj_get_def map_of_map_entry simp del: adj_get_touch)
qed

lemma node_adjacency_get [simp]: "adj_get (node_adjacency nodes) x = []"
proof -
  have "adj_get (fold (\<lambda>n. adj_touch (gn_node_id n)) nodes adj) x = adj_get adj x" for adj
    by (induction nodes arbitrary: adj) simp_all
  then show ?thesis by (simp add: node_adjacency_def adj_get_def)
qed

lemma push_fold:
  "adj_get (fold (\<lambda>e adj. if P e then adj_push (f e) (g e) adj else adj) es adj) x =
     adj_get adj x @ map g (filter (\<lambda>e. P e \<and> f e = x) es)"
  by (induction es arbitrary: adj) auto

text \<open>The dependency relation of a graph, downstream from a node to its dependents.\<close>

definition dependency_rel :: "recovery_graph \<Rightarrow> (string \<times> string) set" where
  "dependency_rel graph =
     {(ge_source_node_id e, ge_target_node_id e) | e. e \<in> set (rg_edges graph) \<and> ge_relation e = DEPENDS_ON}"

lemma dependency_adj_edges:
  "adj_edges (dependency_adj True graph) = dependency_rel graph"
  "adj_edges (dependency_adj False graph) = (dependency_rel graph)\<inverse>"
  unfolding adj_edges_def dependency_adj_def if_True if_False push_fold
  by (auto simp: dependency_rel_def)

lemma node_map_id: "node_map nodes i = Some n \<Longrightarrow> gn_node_id n = i \<and> n \<in> set nodes"
  by (auto simp: node_map_def dest!: map_of_SomeD)

lemma node_map_dom: "node_map nodes i \<noteq> None \<longleftrightarrow> i \<in> gn_node_id ` set nodes"
  by (auto simp: node_map_def map_of_eq_None_iff image_comp)

section \<open>Traversals\<close>

definition found :: "(string \<rightharpoonup> graph_node) \<Rightarrow> (string \<Rightarrow> bool) \<Rightarrow> string list \<Rightarrow> graph_node list" where
  "found nodes keep xs = List.map_filter nodes (filter keep xs)"

lemma found_snoc:
  "found nodes keep (xs @ [x]) =
     (case nodes x of None \<Rightarrow> found nodes keep xs
      | Some n \<Rightarrow> if keep x then found nodes keep xs @ [n] else found nodes keep xs)"
  by (auto simp: found_def map_filter_def split: option.split)

lemma found_ids:
  "map gn_node_id (found (node_map ns) keep xs) =
     filter (\<lambda>x. keep x \<and> x \<in> gn_node_id ` set ns) xs"
proof (induction xs rule: rev_induct)
  case (snoc x xs)
  show ?case
    using snoc node_map_id [of ns x] node_map_dom [of ns x]
    by (cases "node_map ns x") (auto simp: found_snoc)
qed (simp add: found_def map_filter_def)

lemma enqueue_new_result:
  "enqueue_new ms (q, v) = (q', v') \<Longrightarrow>
     v' = v \<union> set ms \<and> (\<exists>new. q' = q @ new \<and> distinct new \<and> set new = set ms - v)"
proof (induction ms arbitrary: q v)
  case (Cons m ms)
  show ?case
  proof (cases "m \<in> v")
    case True
    with Cons.prems Cons.IH [of q v] show ?thesis by auto
  next
    case False
    with Cons.prems Cons.IH [of "q @ [m]" "insert m v"] obtain new where
      "v' = insert m v \<union> set ms" "q' = (q @ [m]) @ new" "distinct new" "set new = set ms - insert m v"
      by auto
    then show ?thesis using False by (intro conjI exI [of _ "m # new"]) auto
  qed
qed simp

lemma reach_closed:
  assumes "S \<subseteq> V" and "\<And>x. x \<in> V \<Longrightarrow> E `` {x} \<subseteq> V"
  shows "E\<^sup>* `` S \<subseteq> V"
proof
  fix y
  assume "y \<in> E\<^sup>* `` S"
  then obtain x where "(x, y) \<in> E\<^sup>*" and "x \<in> S" by blast
  then show "y \<in> V" by (induction rule: rtrancl_induct) (use assms in blast)+
qed

text \<open>
  The breadth-first loop: \<open>seen\<close> are the nodes taken from the queue so far. Whatever the limit, only
  reachable nodes are returned; when the limit is not reached, all of them are.
\<close>

lemma traverse_loop_result:
  assumes "distinct (seen @ queue)" and "visited = set (seen @ queue)"
    and "\<forall>x \<in> set seen. set (adj_get adj x) \<subseteq> visited"
    and "visited \<subseteq> (adj_edges adj)\<^sup>* `` {start}" and "start \<in> visited"
    and "result = found nodes (\<lambda>x. x \<noteq> start) seen"
  shows "\<exists>all. traverse_loop adj nodes start limit queue visited result = found nodes (\<lambda>x. x \<noteq> start) all \<and>
    distinct all \<and> set all \<subseteq> (adj_edges adj)\<^sup>* `` {start} \<and>
    (length (traverse_loop adj nodes start limit queue visited result) < limit \<longrightarrow>
       set all = (adj_edges adj)\<^sup>* `` {start})"
  using assms
proof (induction adj nodes start limit queue visited result arbitrary: seen rule: traverse_loop.induct)
  case (1 adj nodes start limit visited result)
  have "(adj_edges adj)\<^sup>* `` {start} \<subseteq> visited"
    by (rule reach_closed) (use 1 in \<open>auto simp: adj_edges_def\<close>)
  with 1 show ?case by (intro exI [of _ seen]) auto
next
  case (2 adj nodes start limit current queue visited result)
  show ?case
  proof (cases "length result \<ge> limit")
    case True
    then show ?thesis using 2 by (intro exI [of _ seen]) auto
  next
    case False
    let ?result' = "case nodes current of None \<Rightarrow> result
      | Some n \<Rightarrow> if current \<noteq> start then result @ [n] else result"
    obtain queue' visited' where en: "enqueue_new (adj_get adj current) (queue, visited) = (queue', visited')"
      by force
    from enqueue_new_result [OF en] obtain new where new: "visited' = visited \<union> set (adj_get adj current)"
      "queue' = queue @ new" "distinct new" "set new = set (adj_get adj current) - visited" by blast
    have cur: "(start, current) \<in> (adj_edges adj)\<^sup>*" using "2.prems"(2,4) by auto
    have step: "set (adj_get adj current) \<subseteq> (adj_edges adj)\<^sup>* `` {start}"
      using cur by (auto simp: adj_edges_def intro: rtrancl.rtrancl_into_rtrancl)
    have "\<exists>all. traverse_loop adj nodes start limit queue' visited' ?result' =
        found nodes (\<lambda>x. x \<noteq> start) all \<and> distinct all \<and> set all \<subseteq> (adj_edges adj)\<^sup>* `` {start} \<and>
        (length (traverse_loop adj nodes start limit queue' visited' ?result') < limit \<longrightarrow>
           set all = (adj_edges adj)\<^sup>* `` {start})"
    proof (rule "2.IH" [OF False refl refl en [symmetric], of "seen @ [current]"])
      show "distinct ((seen @ [current]) @ queue')" and "visited' = set ((seen @ [current]) @ queue')"
        using "2.prems"(1,2) new by auto
      show "\<forall>x \<in> set (seen @ [current]). set (adj_get adj x) \<subseteq> visited'"
        using "2.prems"(3) new(1) by auto
      show "visited' \<subseteq> (adj_edges adj)\<^sup>* `` {start}" using "2.prems"(4) step new(1) by blast
      show "start \<in> visited'" using "2.prems"(5) new(1) by blast
      show "?result' = found nodes (\<lambda>x. x \<noteq> start) (seen @ [current])"
        using "2.prems"(6) by (simp add: found_snoc split: option.split)
    qed
    then show ?thesis using False en by simp
  qed
qed

text \<open>
  C29. \<open>traverse_dependencies\<close> returns each node at most once and only nodes that the start node
  reaches along \<open>DEPENDS_ON\<close> edges in the asked direction, never the start node itself; when fewer
  nodes than the limit come back, it returned all of them.
\<close>

theorem traverse_dependencies_exact:
  assumes "traverse_dependencies graph start direction limit = Inr res"
  shows "let E = (if direction = ''downstream'' then dependency_rel graph else (dependency_rel graph)\<inverse>);
      reach = {x. (start, x) \<in> E\<^sup>* \<and> x \<noteq> start \<and> x \<in> gn_node_id ` set (rg_nodes graph)}
    in distinct (map gn_node_id res) \<and> gn_node_id ` set res \<subseteq> reach \<and>
       (length res < limit \<longrightarrow> gn_node_id ` set res = reach)"
proof -
  let ?A = "dependency_adj (direction = ''downstream'') graph"
  have res: "res = traverse_loop ?A (node_map (rg_nodes graph)) start limit [start] {start} []"
    using assms by (simp add: traverse_dependencies_def split: if_splits)
  have "\<exists>all. res = found (node_map (rg_nodes graph)) (\<lambda>x. x \<noteq> start) all \<and>
    distinct all \<and> set all \<subseteq> (adj_edges ?A)\<^sup>* `` {start} \<and>
    (length res < limit \<longrightarrow> set all = (adj_edges ?A)\<^sup>* `` {start})"
    unfolding res by (rule traverse_loop_result [where seen = "[]"]) (auto simp: found_def map_filter_def)
  then obtain all where all: "res = found (node_map (rg_nodes graph)) (\<lambda>x. x \<noteq> start) all" "distinct all"
    "set all \<subseteq> (adj_edges ?A)\<^sup>* `` {start}" "length res < limit \<Longrightarrow> set all = (adj_edges ?A)\<^sup>* `` {start}"
    by blast
  have ids: "map gn_node_id res = filter (\<lambda>x. x \<noteq> start \<and> x \<in> gn_node_id ` set (rg_nodes graph)) all"
    unfolding all(1) by (rule found_ids)
  have "gn_node_id ` set res = {x \<in> set all. x \<noteq> start \<and> x \<in> gn_node_id ` set (rg_nodes graph)}"
    using arg_cong [OF ids, of set] by simp
  moreover have "adj_edges ?A =
      (if direction = ''downstream'' then dependency_rel graph else (dependency_rel graph)\<inverse>)"
    by (simp add: dependency_adj_edges)
  ultimately show ?thesis
    using all(2-4) ids unfolding Let_def by (auto simp: distinct_filter)
qed

text \<open>Sample graphs: action nodes \<open>a\<close>, \<open>b\<close> and \<open>c\<close> and dependency edges between them.\<close>

definition sample_gnode :: "string \<Rightarrow> graph_node" where
  "sample_gnode i =
     \<lparr>gn_node_id = i, gn_tenant_id = ''t'', gn_kind = GK_ACTION, gn_entity_id = i, gn_label = [],
      gn_temporal_at = None, gn_properties = [], gn_created_at = 0\<rparr>"

definition sample_gedge :: "string \<Rightarrow> string \<Rightarrow> graph_edge" where
  "sample_gedge a b =
     \<lparr>ge_edge_id = a @ b, ge_tenant_id = ''t'', ge_source_node_id = a, ge_target_node_id = b,
      ge_relation = DEPENDS_ON, ge_valid_at = None, ge_valid_until = None, ge_properties = [],
      ge_created_at = 0\<rparr>"

definition sample_graph :: "string list \<Rightarrow> (string \<times> string) list \<Rightarrow> recovery_graph" where
  "sample_graph nodes edges =
     \<lparr>rg_graph_id = ''g'', rg_tenant_id = ''t'', rg_incident_id = ''i'', rg_root_action_id = ''a'',
      rg_version = 1, rg_nodes = map sample_gnode nodes, rg_edges = map (case_prod sample_gedge) edges,
      rg_metadata = [], rg_created_at = 0, rg_updated_at = 0\<rparr>"

theorem traverse_dependencies_exact_witness:
  "(''a'', ''c'') \<in> (dependency_rel (sample_graph [''a'', ''b'', ''c'']
     [(''a'', ''b''), (''b'', ''c''), (''c'', ''a'')]))\<^sup>*"
proof -
  let ?g = "sample_graph [''a'', ''b'', ''c''] [(''a'', ''b''), (''b'', ''c''), (''c'', ''a'')]"
  have "map_sum id (map gn_node_id) (traverse_dependencies ?g ''a'' ''downstream'' 100) =
      Inr [''b'', ''c'']" by code_simp
  then obtain res where res: "traverse_dependencies ?g ''a'' ''downstream'' 100 = Inr res"
    "map gn_node_id res = [''b'', ''c'']"
    by (cases "traverse_dependencies ?g ''a'' ''downstream'' 100") auto
  have "gn_node_id ` set res = {''b'', ''c''}" using arg_cong [OF res(2), of set] by simp
  with traverse_dependencies_exact [OF res(1)] show ?thesis by (auto simp: Let_def)
qed

lemma impact_loop_result:
  assumes "distinct seen" and "visited = set seen"
    and "\<forall>x \<in> set seen. set (adj_get adj x) \<subseteq> set seen \<union> set queue"
    and "set seen \<union> set queue \<subseteq> (adj_edges adj)\<^sup>* `` set changed"
    and "set changed \<subseteq> set seen \<union> set queue"
    and "result = found nodes (\<lambda>x. x \<notin> set changed) seen"
  shows "\<exists>all. impact_set_loop adj nodes changed limit queue visited result =
      found nodes (\<lambda>x. x \<notin> set changed) all \<and>
    distinct all \<and> set all \<subseteq> (adj_edges adj)\<^sup>* `` set changed \<and>
    (length (impact_set_loop adj nodes changed limit queue visited result) < limit \<longrightarrow>
       set all = (adj_edges adj)\<^sup>* `` set changed)"
  using assms
proof (induction adj nodes changed limit queue visited result arbitrary: seen rule: impact_set_loop.induct)
  case (1 adj nodes changed limit visited result)
  have "(adj_edges adj)\<^sup>* `` set changed \<subseteq> set seen"
    by (rule reach_closed) (use 1 in \<open>auto simp: adj_edges_def\<close>)
  with 1 show ?case by (intro exI [of _ seen]) auto
next
  case (2 adj nodes changed limit current queue visited result)
  consider "length result \<ge> limit" | "\<not> length result \<ge> limit" "current \<in> visited"
    | "\<not> length result \<ge> limit" "current \<notin> visited" by blast
  then show ?case
  proof cases
    case 1
    then show ?thesis using "2.prems" by (intro exI [of _ seen]) auto
  next
    case 2
    have "set seen \<union> set (current # queue) = set seen \<union> set queue" using "2.prems"(2) 2(2) by auto
    with "2.IH"(1) [OF 2, of seen] "2.prems" 2 show ?thesis by simp
  next
    case 3
    let ?queue' = "queue @ filter (\<lambda>m. m \<notin> insert current visited) (adj_get adj current)"
    let ?result' = "case nodes current of None \<Rightarrow> result
      | Some n \<Rightarrow> if current \<notin> set changed then result @ [n] else result"
    have cov: "set (seen @ [current]) \<union> set ?queue' =
        set seen \<union> set (current # queue) \<union> set (adj_get adj current)"
      using "2.prems"(2) by auto
    have cur: "current \<in> (adj_edges adj)\<^sup>* `` set changed" using "2.prems"(4) by auto
    have step: "set (adj_get adj current) \<subseteq> (adj_edges adj)\<^sup>* `` set changed"
      using cur by (auto simp: adj_edges_def intro: rtrancl.rtrancl_into_rtrancl)
    have "\<exists>all. impact_set_loop adj nodes changed limit ?queue' (insert current visited) ?result' =
        found nodes (\<lambda>x. x \<notin> set changed) all \<and>
      distinct all \<and> set all \<subseteq> (adj_edges adj)\<^sup>* `` set changed \<and>
      (length (impact_set_loop adj nodes changed limit ?queue' (insert current visited) ?result') < limit \<longrightarrow>
         set all = (adj_edges adj)\<^sup>* `` set changed)"
    proof (rule "2.IH"(2) [OF 3, of "seen @ [current]"])
      show "distinct (seen @ [current])" and "insert current visited = set (seen @ [current])"
        using "2.prems"(1,2) 3 by auto
      show "\<forall>x \<in> set (seen @ [current]). set (adj_get adj x) \<subseteq> set (seen @ [current]) \<union> set ?queue'"
        unfolding cov using "2.prems"(3) by auto
      show "set (seen @ [current]) \<union> set ?queue' \<subseteq> (adj_edges adj)\<^sup>* `` set changed"
        unfolding cov using "2.prems"(4) step by blast
      show "set changed \<subseteq> set (seen @ [current]) \<union> set ?queue'" unfolding cov using "2.prems"(5) by blast
      show "?result' = found nodes (\<lambda>x. x \<notin> set changed) (seen @ [current])"
        using "2.prems"(6) by (simp add: found_snoc split: option.split)
    qed
    then show ?thesis using 3 by simp
  qed
qed

text \<open>
  \<open>get_impact_set\<close> returns each node at most once and only nodes outside the changed ones that
  some changed node reaches along \<open>DEPENDS_ON\<close> edges; when fewer nodes than the limit come back, it
  returned all of them. Cycles do not make it loop.
\<close>

theorem impact_set_exact:
  "let res = get_impact_set graph changed limit;
       impacted = {x. x \<in> (dependency_rel graph)\<^sup>* `` set changed \<and> x \<notin> set changed \<and>
         x \<in> gn_node_id ` set (rg_nodes graph)}
   in distinct (map gn_node_id res) \<and> gn_node_id ` set res \<subseteq> impacted \<and>
      (length res \<ge> limit \<or> gn_node_id ` set res = impacted)"
proof -
  let ?A = "dependency_adj True graph"
  define res where "res = get_impact_set graph changed limit"
  have "\<exists>all. res = found (node_map (rg_nodes graph)) (\<lambda>x. x \<notin> set changed) all \<and>
    distinct all \<and> set all \<subseteq> (adj_edges ?A)\<^sup>* `` set changed \<and>
    (length res < limit \<longrightarrow> set all = (adj_edges ?A)\<^sup>* `` set changed)"
    unfolding res_def get_impact_set_def
    by (rule impact_loop_result [where seen = "[]"]) (auto simp: found_def map_filter_def)
  then obtain all where all: "res = found (node_map (rg_nodes graph)) (\<lambda>x. x \<notin> set changed) all"
    "distinct all" "set all \<subseteq> (dependency_rel graph)\<^sup>* `` set changed"
    "length res < limit \<Longrightarrow> set all = (dependency_rel graph)\<^sup>* `` set changed"
    unfolding dependency_adj_edges by blast
  have ids: "map gn_node_id res = filter (\<lambda>x. x \<notin> set changed \<and> x \<in> gn_node_id ` set (rg_nodes graph)) all"
    unfolding all(1) by (rule found_ids)
  have "gn_node_id ` set res = {x \<in> set all. x \<notin> set changed \<and> x \<in> gn_node_id ` set (rg_nodes graph)}"
    using arg_cong [OF ids, of set] by simp
  then show ?thesis
    using all(2-4) ids unfolding Let_def res_def [symmetric] by (auto simp: not_le)
qed

section \<open>Validity of a plan\<close>

definition edge_rel :: "recovery_graph \<Rightarrow> (string \<times> string) set" where
  "edge_rel graph = {(ge_source_node_id e, ge_target_node_id e) | e. e \<in> set (rg_edges graph)}"

lemma edge_adjacency_edges: "adj_edges (edge_adjacency graph) = edge_rel graph"
proof -
  have get: "adj_get (fold (\<lambda>e adj. adj_push (ge_source_node_id e) (ge_target_node_id e)
      (adj_touch (ge_target_node_id e) (adj_touch (ge_source_node_id e) adj))) es adj) x =
      adj_get adj x @ map ge_target_node_id (filter (\<lambda>e. ge_source_node_id e = x) es)" for es adj x
    by (induction es arbitrary: adj) auto
  show ?thesis unfolding adj_edges_def edge_adjacency_def get by (auto simp: edge_rel_def)
qed

lemma edge_checks_clean:
  "fst (edge_checks ids seen es) = [] \<longleftrightarrow>
     (\<forall>e \<in> set es. ge_source_node_id e \<in> ids \<and> ge_target_node_id e \<in> ids) \<and>
     distinct (map edge_key es) \<and> edge_key ` set es \<inter> seen = {}"
proof (induction es arbitrary: seen)
  case (Cons e es)
  show ?case
    using Cons.IH [of "insert (edge_key e) seen"]
    by (cases "edge_checks ids (insert (edge_key e) seen) es") (auto simp: Let_def)
qed simp

lemma relation_value_inj [simp]: "relation_value r = relation_value r' \<longleftrightarrow> r = r'"
  by (cases r; cases r') simp_all

text \<open>
  An extracted plan is marked valid exactly when every edge joins two nodes of the graph, no two
  edges have the same ends and relation, no edge ends before it begins, and the edges have no cycle;
  the cycles it lists are closed walks along the edges.
\<close>

theorem valid_plan_iff:
  assumes "rg_nodes graph \<noteq> []"
  shows "(gp_is_valid (extract_recovery_plan graph) \<longleftrightarrow>
      edge_rel graph \<subseteq> gn_node_id ` set (rg_nodes graph) \<times> gn_node_id ` set (rg_nodes graph) \<and>
      distinct (map edge_key (rg_edges graph)) \<and> \<not> list_ex temporal_violation (rg_edges graph) \<and>
      acyclic (edge_rel graph)) \<and>
    (\<forall>c \<in> set (gp_cycles (extract_recovery_plan graph)).
       2 \<le> length c \<and> hd c = last c \<and> successively (\<lambda>a b. (a, b) \<in> edge_rel graph) c)"
proof -
  let ?ids = "gn_node_id ` set (rg_nodes graph)"
  obtain issues dangling dups where ec: "edge_checks ?ids {} (rg_edges graph) = (issues, dangling, dups)"
    by (metis prod_cases3)
  have ends: "(\<forall>e \<in> set (rg_edges graph). ge_source_node_id e \<in> ?ids \<and> ge_target_node_id e \<in> ?ids) \<longleftrightarrow>
      edge_rel graph \<subseteq> ?ids \<times> ?ids" by (auto simp: edge_rel_def)
  have cons: "cn_level (check_consistency graph) = CONSISTENT \<longleftrightarrow>
      edge_rel graph \<subseteq> ?ids \<times> ?ids \<and> distinct (map edge_key (rg_edges graph)) \<and>
      \<not> list_ex temporal_violation (rg_edges graph)"
    using edge_checks_clean [of ?ids "{}" "rg_edges graph"] assms
    by (auto simp: check_consistency_def ec Let_def ends filter_empty_conv list_ex_iff)
  have cyc: "gp_cycles (extract_recovery_plan graph) = find_cycles (edge_adjacency graph)"
    by (simp add: extract_recovery_plan_def check_cycles_def Let_def)
  have edge: "adj_edge (edge_adjacency graph) a b \<longleftrightarrow> (a, b) \<in> edge_rel graph" for a b
    unfolding edge_adjacency_edges [symmetric] by (simp add: adj_edges_def)
  have "gp_is_valid (extract_recovery_plan graph) \<longleftrightarrow>
      cn_level (check_consistency graph) = CONSISTENT \<and> gp_cycles (extract_recovery_plan graph) = []"
    by (simp add: extract_recovery_plan_def Let_def)
  then show ?thesis
    unfolding cons cyc using find_cycles_iff [of "edge_adjacency graph"]
      find_cycles_sound [of _ "edge_adjacency graph"]
    by (simp add: edge_adjacency_edges closed_walk_def edge)
qed

theorem valid_plan_iff_witness:
  "gp_is_valid (extract_recovery_plan (sample_graph [''a'', ''b''] [(''a'', ''b'')])) \<and>
   acyclic (edge_rel (sample_graph [''a'', ''b''] [(''a'', ''b'')]))"
proof -
  let ?g = "sample_graph [''a'', ''b''] [(''a'', ''b'')]"
  have "gp_is_valid (extract_recovery_plan ?g)" by code_simp
  moreover have "rg_nodes ?g \<noteq> []" by (simp add: sample_graph_def)
  ultimately show ?thesis using valid_plan_iff [of ?g] by blast
qed

section \<open>Differences of snapshots\<close>

definition key_map :: "('a \<Rightarrow> string) \<Rightarrow> 'a list \<Rightarrow> string \<rightharpoonup> 'a" where
  "key_map key xs = map_of (rev (map (\<lambda>x. (key x, x)) xs))"

text \<open>Applying a difference: drop what was removed, then put in what is new.\<close>

definition patch :: "('a \<Rightarrow> string) \<Rightarrow> 'a list \<Rightarrow> 'a list \<Rightarrow> (string \<rightharpoonup> 'a) \<Rightarrow> string \<rightharpoonup> 'a" where
  "patch key removed new m i =
     (case key_map key new i of
        Some x \<Rightarrow> Some x
      | None \<Rightarrow> if i \<in> key ` set removed then None else m i)"

lemma key_map_Some: "key_map key xs i = Some x \<Longrightarrow> key x = i \<and> x \<in> set xs"
  by (auto simp: key_map_def dest!: map_of_SomeD)

lemma key_map_None: "key_map key xs i = None \<longleftrightarrow> i \<notin> key ` set xs"
  by (auto simp: key_map_def map_of_eq_None_iff image_comp)

lemma key_map_get: "i \<in> key ` set xs \<Longrightarrow> key (the (key_map key xs i)) = i"
  using key_map_None [of key xs i] key_map_Some [of key xs i] by (cases "key_map key xs i") auto

lemma key_map_pick:
  assumes "set is \<subseteq> key ` set xs"
  shows "key_map key (map (\<lambda>i. the (key_map key xs i)) is) i = (if i \<in> set is then key_map key xs i else None)"
proof (cases "key_map key (map (\<lambda>i. the (key_map key xs i)) is) i")
  case None
  then have "i \<notin> key ` (\<lambda>i. the (key_map key xs i)) ` set is" by (simp add: key_map_None)
  then have "i \<notin> set is" using assms key_map_get by (metis image_eqI subsetD)
  with None show ?thesis by simp
next
  case (Some y)
  then obtain j where j: "j \<in> set is" "y = the (key_map key xs j)" "key y = i"
    using key_map_Some by fastforce
  then have "j = i" using assms key_map_get by (metis subsetD)
  moreover have "key_map key xs j \<noteq> None" using j(1) assms by (metis key_map_None subsetD)
  ultimately show ?thesis using Some j by auto
qed

lemma ids_sets [simp]:
  "set (ids_minus xs ys) = set xs - set ys" "set (ids_both xs ys) = set xs \<inter> set ys"
  by (auto simp: ids_minus_def ids_both_def)

lemma patch_parts:
  fixes key :: "'a \<Rightarrow> string"
  defines "from_id \<equiv> \<lambda>xs i. the (key_map key xs i)"
  shows "rel_option (\<lambda>x y. x = y \<or> eq x y)
    (patch key (map (from_id old) (ids_minus (map key old) (map key new)))
       (map (from_id new) (ids_minus (map key new) (map key old)) @
        map (from_id new) (filter (\<lambda>i. \<not> eq (from_id old i) (from_id new i))
          (ids_both (map key old) (map key new))))
       (key_map key old) i) (key_map key new i)"
proof -
  let ?is = "ids_minus (map key new) (map key old) @
    filter (\<lambda>i. \<not> eq (from_id old i) (from_id new i)) (ids_both (map key old) (map key new))"
  have put: "key_map key (map (from_id new) ?is) i = (if i \<in> set ?is then key_map key new i else None)"
    unfolding from_id_def by (rule key_map_pick) auto
  have "key ` set (map (from_id old) (ids_minus (map key old) (map key new))) =
      (\<lambda>i. key (from_id old i)) ` (key ` set old - key ` set new)" by (simp add: image_image)
  also have "\<dots> = (\<lambda>i. i) ` (key ` set old - key ` set new)"
    by (rule image_cong) (auto simp: from_id_def key_map_get)
  finally have gone: "key ` set (map (from_id old) (ids_minus (map key old) (map key new))) =
      key ` set old - key ` set new" by simp
  show ?thesis
    unfolding patch_def gone map_append [symmetric] put
    using key_map_None [of key new i] key_map_None [of key old i]
    by (cases "key_map key new i"; cases "key_map key old i") (auto simp: from_id_def)
qed

text \<open>
  A difference of two snapshots leads from one to the other: taking the removed nodes out of the
  nodes of the first snapshot and putting in the added and the changed ones gives, for every
  identifier, the node of the second snapshot, and likewise for the edges (unchanged entries up to
  Python equality).
\<close>

theorem diff_leads_to_target:
  "let d = compute_diff diff_id graph old new
   in rel_option (\<lambda>n m. n = m \<or> same_node n m)
        (patch gn_node_id (gd_removed_nodes d) (gd_added_nodes d @ gd_changed_nodes d)
           (node_map (gs_nodes old)) i) (node_map (gs_nodes new) i) \<and>
      rel_option (\<lambda>e f. e = f \<or> same_edge e f)
        (patch ge_edge_id (gd_removed_edges d) (gd_added_edges d @ gd_changed_edges d)
           (edge_map (gs_edges old)) i) (edge_map (gs_edges new) i)"
  using patch_parts [of same_node gn_node_id "gs_nodes old" "gs_nodes new" i]
    patch_parts [of same_edge ge_edge_id "gs_edges old" "gs_edges new" i]
  by (simp add: compute_diff_def Let_def node_map_def edge_map_def key_map_def)

section \<open>Limits of the code\<close>

text \<open>
  The order an extracted plan calls reverse is the forward one: the walk starts at the root, so
  the root action comes before the actions that depend on it.
\<close>

theorem reverse_order_starts_at_root:
  "gp_reverse_execution_order (extract_recovery_plan
     (sample_graph [''action:t:a'', ''action:t:b'', ''action:t:c'']
        [(''action:t:a'', ''action:t:b''), (''action:t:b'', ''action:t:c'')])) =
   [''action:t:a'', ''action:t:b'', ''action:t:c'']"
  by code_simp

text \<open>
  Saving a graph replaces the graph another tenant stored under the same identifier: afterwards
  the other tenant no longer finds it.
\<close>

theorem save_overwrites_other_tenant:
  assumes "rg_graph_id g' = rg_graph_id g" and "rg_tenant_id g' \<noteq> rg_tenant_id g"
  shows "let repo = snd (save_graph g repo0)
    in get_graph (rg_tenant_id g) (rg_graph_id g) repo = Some g \<and>
       get_graph (rg_tenant_id g) (rg_graph_id g) (snd (save_graph g' repo)) = None"
  using assms by (simp add: save_graph_def get_graph_def Let_def)

theorem save_overwrites_other_tenant_witness:
  "let g = sample_graph [''a''] []; repo = snd (save_graph g new_graph_repo)
   in get_graph ''t'' ''g'' repo = Some g \<and>
      get_graph ''t'' ''g'' (snd (save_graph (g\<lparr>rg_tenant_id := ''u''\<rparr>) repo)) = None"
  using save_overwrites_other_tenant [of "(sample_graph [''a''] [])\<lparr>rg_tenant_id := ''u''\<rparr>"
      "sample_graph [''a''] []" new_graph_repo]
  by (simp add: sample_graph_def Let_def)

end
