(* ===== verification/Nonce_Store.thy ===== *)
theory Nonce_Store
  imports Interlock_Prelude
begin

text \<open>
  The stores that make an execution token single-use: \<open>MemoryNonceStore\<close>
  (\<open>app/infrastructure/security/memory_nonce_store.py\<close>), \<open>RedisNonceStore\<close>
  (\<open>app/infrastructure/redis/nonce_store.py\<close>) over \<open>RedisClient\<close> (\<open>app/infrastructure/redis/client.py\<close>),
  and \<open>CompositeNonceStore\<close> (\<open>composite_nonce_store.py\<close>), which combines them.

  Each method runs under the lock of its store and is one transition. The Redis driver is a
  parameter: its commands answer or fail, and may change the server in any way; what the documented
  commands promise is the hypothesis \<open>redis_laws\<close>. One clock, in microseconds, stands for the
  monotonic clock of the process, the wall clock and the clock of the server.

  Shown, once for every store with the contract \<open>nonce_store\<close>: a nonce that was consumed is refused
  until it expires. With Redis behind it the same holds across processes.
\<close>

section \<open>The memory store\<close>

record memory_nonces =
  mn_max_entries :: nat
  mn_entries :: "(string, datetime) dict"

definition new_memory_nonces :: "nat \<Rightarrow> memory_nonces" where
  "new_memory_nonces max_entries = \<lparr>mn_max_entries = max_entries, mn_entries = []\<rparr>"

definition evict_expired :: "datetime \<Rightarrow> memory_nonces \<Rightarrow> memory_nonces" where
  "evict_expired now s = s\<lparr>mn_entries := filter (\<lambda>(_, expires_at). \<not> expires_at \<le> now) (mn_entries s)\<rparr>"

text \<open>\<open>popitem(last=False)\<close> until at most \<open>max_entries\<close> are left\<close>

definition evict_overflow :: "memory_nonces \<Rightarrow> memory_nonces" where
  "evict_overflow s = s\<lparr>mn_entries := drop (length (mn_entries s) - mn_max_entries s) (mn_entries s)\<rparr>"

definition memory_consume :: "datetime \<Rightarrow> string \<Rightarrow> int \<Rightarrow> memory_nonces \<Rightarrow> bool \<times> memory_nonces" where
  "memory_consume now nonce ttl s =
     (let s1 = evict_expired now s
      in if nonce \<in> fst ` set (mn_entries s1) then (False, s1)
         else (True, evict_overflow
                (s1\<lparr>mn_entries := AList.update nonce (now + seconds ttl) (mn_entries s1)\<rparr>)))"

definition memory_is_consumed :: "datetime \<Rightarrow> string \<Rightarrow> memory_nonces \<Rightarrow> bool \<times> memory_nonces" where
  "memory_is_consumed now nonce s =
     (let s1 = evict_expired now s in (nonce \<in> fst ` set (mn_entries s1), s1))"

section \<open>The Redis client and its store\<close>

text \<open>
  The commands of the driver that the client issues: \<open>Inl\<close> stands for a \<open>RedisError\<close>. \<open>SET NX\<close>
  answers whether the key was set.
\<close>

record 's redis_driver =
  drv_set_nx :: "datetime \<Rightarrow> string \<Rightarrow> string \<Rightarrow> int \<Rightarrow> 's \<Rightarrow> (string + bool) \<times> 's"
  drv_get :: "datetime \<Rightarrow> string \<Rightarrow> 's \<Rightarrow> (string + string option) \<times> 's"
  drv_incr :: "datetime \<Rightarrow> string \<Rightarrow> 's \<Rightarrow> (string + int) \<times> 's"
  drv_expire :: "datetime \<Rightarrow> string \<Rightarrow> int \<Rightarrow> 's \<Rightarrow> (string + bool) \<times> 's"
  drv_delete :: "datetime \<Rightarrow> string \<Rightarrow> 's \<Rightarrow> (string + bool) \<times> 's"

record 's redis_client =
  rd_available :: bool
  rd_driver :: "'s redis_driver"

text \<open>\<open>Inl\<close> is the \<open>RedisUnavailableError\<close> that the client raises.\<close>

definition redis_set_nx ::
  "'s redis_client \<Rightarrow> datetime \<Rightarrow> string \<Rightarrow> string \<Rightarrow> int \<Rightarrow> 's \<Rightarrow> (string + bool) \<times> 's" where
  "redis_set_nx c now key val ex s =
     (if \<not> rd_available c then (Inl ''Redis is not available'', s)
      else case drv_set_nx (rd_driver c) now key val ex s of
             (Inl e, s') \<Rightarrow> (Inl (''Redis operation failed: '' @ e), s')
           | (Inr b, s') \<Rightarrow> (Inr b, s'))"

definition redis_get :: "'s redis_client \<Rightarrow> datetime \<Rightarrow> string \<Rightarrow> 's \<Rightarrow> string option \<times> 's" where
  "redis_get c now key s =
     (if \<not> rd_available c then (None, s)
      else case drv_get (rd_driver c) now key s of
             (Inl e, s') \<Rightarrow> (None, s')
           | (Inr v, s') \<Rightarrow> (v, s'))"

definition redis_expire :: "'s redis_client \<Rightarrow> datetime \<Rightarrow> string \<Rightarrow> int \<Rightarrow> 's \<Rightarrow> bool \<times> 's" where
  "redis_expire c now key ttl s =
     (if \<not> rd_available c then (False, s)
      else case drv_expire (rd_driver c) now key ttl s of
             (Inl e, s') \<Rightarrow> (False, s')
           | (Inr b, s') \<Rightarrow> (b, s'))"

definition redis_delete :: "'s redis_client \<Rightarrow> datetime \<Rightarrow> string \<Rightarrow> 's \<Rightarrow> bool \<times> 's" where
  "redis_delete c now key s =
     (if \<not> rd_available c then (False, s)
      else case drv_delete (rd_driver c) now key s of
             (Inl e, s') \<Rightarrow> (False, s')
           | (Inr b, s') \<Rightarrow> (b, s'))"

text \<open>\<open>incr\<close> and then, with an expiry, \<open>expire\<close>; either may fail.\<close>

definition redis_incr_or_raise ::
  "'s redis_client \<Rightarrow> datetime \<Rightarrow> string \<Rightarrow> int option \<Rightarrow> 's \<Rightarrow> (string + int) \<times> 's" where
  "redis_incr_or_raise c now key ex s =
     (if \<not> rd_available c then (Inl ''Redis is not available'', s)
      else case drv_incr (rd_driver c) now key s of
             (Inl e, s1) \<Rightarrow> (Inl (''Redis operation failed: '' @ e), s1)
           | (Inr v, s1) \<Rightarrow>
               (case ex of
                  None \<Rightarrow> (Inr v, s1)
                | Some ttl \<Rightarrow>
                    (case drv_expire (rd_driver c) now key ttl s1 of
                       (Inl e, s2) \<Rightarrow> (Inl (''Redis operation failed: '' @ e), s2)
                     | (Inr b, s2) \<Rightarrow> (Inr v, s2))))"

definition redis_incr ::
  "'s redis_client \<Rightarrow> datetime \<Rightarrow> string \<Rightarrow> int option \<Rightarrow> 's \<Rightarrow> int option \<times> 's" where
  "redis_incr c now key ex s =
     (case redis_incr_or_raise c now key ex s of (Inl e, s') \<Rightarrow> (None, s') | (Inr v, s') \<Rightarrow> (Some v, s'))"

definition nonce_key :: "string \<Rightarrow> string" where
  "nonce_key nonce = ''nonce:'' @ nonce"

text \<open>A failure of Redis rejects the nonce when it is consumed, and lets it pass when it is looked up.\<close>

definition redis_consume :: "'s redis_client \<Rightarrow> datetime \<Rightarrow> string \<Rightarrow> int \<Rightarrow> 's \<Rightarrow> bool \<times> 's" where
  "redis_consume c now nonce ttl s =
     (case redis_set_nx c now (nonce_key nonce) ''1'' ttl s of
        (Inl e, s') \<Rightarrow> (False, s')
      | (Inr b, s') \<Rightarrow> (b, s'))"

definition redis_is_consumed :: "'s redis_client \<Rightarrow> datetime \<Rightarrow> string \<Rightarrow> 's \<Rightarrow> bool \<times> 's" where
  "redis_is_consumed c now nonce s =
     (case redis_get c now (nonce_key nonce) s of (v, s') \<Rightarrow> (v \<noteq> None, s'))"

section \<open>The composite store\<close>

text \<open>\<open>l2\<close> is \<open>None\<close> for a store without Redis.\<close>

definition composite_consume ::
  "'s redis_client option \<Rightarrow> datetime \<Rightarrow> string \<Rightarrow> int \<Rightarrow> memory_nonces \<times> 's
     \<Rightarrow> bool \<times> memory_nonces \<times> 's" where
  "composite_consume l2 now nonce ttl st =
     (let (m, s) = st; (seen, m1) = memory_is_consumed now nonce m
      in if seen then (False, m1, s)
         else
           (let (ok, s1) = (case l2 of None \<Rightarrow> (True, s) | Some c \<Rightarrow> redis_consume c now nonce ttl s)
            in if \<not> ok then (False, m1, s1)
               else (let (b, m2) = memory_consume now nonce ttl m1 in (b, m2, s1))))"

definition composite_is_consumed ::
  "'s redis_client option \<Rightarrow> datetime \<Rightarrow> string \<Rightarrow> memory_nonces \<times> 's \<Rightarrow> bool \<times> memory_nonces \<times> 's" where
  "composite_is_consumed l2 now nonce st =
     (let (m, s) = st; (seen, m1) = memory_is_consumed now nonce m
      in if seen then (True, m1, s)
         else (case l2 of
                 None \<Rightarrow> (False, m1, s)
               | Some c \<Rightarrow> (let (b, s1) = redis_is_consumed c now nonce s in (b, m1, s1))))"

section \<open>The contract of a nonce store\<close>

datatype nonce_call = Consume datetime string int | Lookup datetime string

primrec call_time :: "nonce_call \<Rightarrow> datetime" where
  "call_time (Consume now _ _) = now"
| "call_time (Lookup now _) = now"

text \<open>
  \<open>held s n u\<close>: the store remembers the nonce until \<open>u\<close>. \<open>room\<close>: it need not drop anything to
  remember one more.
\<close>

locale nonce_store =
  fixes consume :: "datetime \<Rightarrow> string \<Rightarrow> int \<Rightarrow> 's \<Rightarrow> bool \<times> 's"
    and is_consumed :: "datetime \<Rightarrow> string \<Rightarrow> 's \<Rightarrow> bool \<times> 's"
    and held :: "'s \<Rightarrow> string \<Rightarrow> datetime \<Rightarrow> bool"
    and room :: "datetime \<Rightarrow> 's \<Rightarrow> bool"
  assumes consume_records:
      "room now s \<Longrightarrow> fst (consume now n ttl s) \<Longrightarrow> held (snd (consume now n ttl s)) n (now + seconds ttl)"
    and held_refused: "held s n u \<Longrightarrow> now < u \<Longrightarrow> \<not> fst (consume now n ttl s)"
    and held_seen: "held s n u \<Longrightarrow> now < u \<Longrightarrow> fst (is_consumed now n s)"
    and consume_keeps:
      "room now s \<Longrightarrow> held s n u \<Longrightarrow> now < u \<Longrightarrow> held (snd (consume now n' ttl s)) n u"
    and is_consumed_keeps: "held s n u \<Longrightarrow> now < u \<Longrightarrow> held (snd (is_consumed now n' s)) n u"
begin

primrec nonce_step :: "nonce_call \<Rightarrow> 's \<Rightarrow> bool \<times> 's" where
  "nonce_step (Consume now n ttl) s = consume now n ttl s"
| "nonce_step (Lookup now n) s = is_consumed now n s"

primrec run_calls :: "nonce_call list \<Rightarrow> 's \<Rightarrow> 's" where
  "run_calls [] s = s"
| "run_calls (c # cs) s = run_calls cs (snd (nonce_step c s))"

text \<open>Every call of the run found room.\<close>

primrec roomy :: "nonce_call list \<Rightarrow> 's \<Rightarrow> bool" where
  "roomy [] s = True"
| "roomy (c # cs) s = (room (call_time c) s \<and> roomy cs (snd (nonce_step c s)))"

lemma nonce_step_keeps:
  "room (call_time c) s \<Longrightarrow> held s n u \<Longrightarrow> call_time c < u \<Longrightarrow> held (snd (nonce_step c s)) n u"
  by (cases c) (simp_all add: consume_keeps is_consumed_keeps)

lemma run_keeps:
  "roomy cs s \<Longrightarrow> held s n u \<Longrightarrow> \<forall>c \<in> set cs. call_time c < u \<Longrightarrow> held (run_calls cs s) n u"
  by (induction cs arbitrary: s) (auto intro: nonce_step_keeps)

lemma consumed_once:
  assumes "fst (consume now n ttl s)" and "room now s"
    and "roomy cs (snd (consume now n ttl s))" and "\<forall>c \<in> set cs. call_time c < now + seconds ttl"
    and "later < now + seconds ttl"
  shows "\<not> fst (consume later n ttl' (run_calls cs (snd (consume now n ttl s))))"
    and "fst (is_consumed later n (run_calls cs (snd (consume now n ttl s))))"
  using run_keeps [OF assms(3) consume_records [OF assms(2,1)] assms(4)] assms(5)
  by (simp_all add: held_refused held_seen)

end

section \<open>The stores fulfil the contract\<close>

definition memory_held :: "memory_nonces \<Rightarrow> string \<Rightarrow> datetime \<Rightarrow> bool" where
  "memory_held s n u \<longleftrightarrow> (n, u) \<in> set (mn_entries s)"

definition memory_room :: "datetime \<Rightarrow> memory_nonces \<Rightarrow> bool" where
  "memory_room now s \<longleftrightarrow> length (mn_entries (evict_expired now s)) < mn_max_entries s"

lemma evict_expired_simps [simp]:
  "mn_max_entries (evict_expired now s) = mn_max_entries s"
  "evict_expired now (evict_expired now s) = evict_expired now s"
  "memory_held (evict_expired now s) n u \<longleftrightarrow> memory_held s n u \<and> now < u"
  by (auto simp: evict_expired_def memory_held_def)

lemma memory_seen: "memory_held s n u \<Longrightarrow> now < u \<Longrightarrow> n \<in> fst ` set (mn_entries (evict_expired now s))"
  by (force simp: evict_expired_def memory_held_def)

lemma memory_consume_held:
  assumes "memory_room now s"
  shows "memory_held (snd (memory_consume now n ttl s)) m u \<longleftrightarrow>
    memory_held s m u \<and> now < u \<or> fst (memory_consume now n ttl s) \<and> m = n \<and> u = now + seconds ttl"
  using assms evict_expired_simps(3) [of now s m u]
  by (auto simp: memory_consume_def memory_room_def memory_held_def evict_overflow_def Let_def
      dict_update_new)

interpretation mn: nonce_store memory_consume memory_is_consumed memory_held memory_room
proof unfold_locales
  fix now n ttl and s :: memory_nonces
  assume "memory_room now s" "fst (memory_consume now n ttl s)"
  then show "memory_held (snd (memory_consume now n ttl s)) n (now + seconds ttl)"
    by (simp add: memory_consume_held)
next
  fix s n u now ttl
  assume "memory_held s n u" "now < u"
  then show "\<not> fst (memory_consume now n ttl s)"
    using memory_seen by (simp add: memory_consume_def Let_def)
next
  fix s n u now
  assume "memory_held s n u" "now < u"
  then show "fst (memory_is_consumed now n s)"
    using memory_seen by (simp add: memory_is_consumed_def Let_def)
next
  fix now s n u n' ttl
  assume "memory_room now s" "memory_held s n u" "now < u"
  then show "memory_held (snd (memory_consume now n' ttl s)) n u"
    by (simp add: memory_consume_held)
next
  fix s n u now n'
  assume "memory_held s n u" "now < u"
  then show "memory_held (snd (memory_is_consumed now n' s)) n u"
    by (simp add: memory_is_consumed_def Let_def)
qed

text \<open>
  The composite store has the contract of its memory store, whatever Redis does: the local store is
  asked first and is written whenever a nonce is accepted.
\<close>

definition l2_consume ::
  "'s redis_client option \<Rightarrow> datetime \<Rightarrow> string \<Rightarrow> int \<Rightarrow> 's \<Rightarrow> bool \<times> 's" where
  "l2_consume l2 now n ttl s = (case l2 of None \<Rightarrow> (True, s) | Some c \<Rightarrow> redis_consume c now n ttl s)"

lemma memory_lookup: "memory_is_consumed now n m = (fst (memory_is_consumed now n m), evict_expired now m)"
  by (simp add: memory_is_consumed_def Let_def)

lemma memory_unseen:
  "\<not> fst (memory_is_consumed now n m) \<Longrightarrow>
     memory_consume now n ttl (evict_expired now m) = (True, snd (memory_consume now n ttl m))"
  by (simp add: memory_consume_def memory_is_consumed_def Let_def)

lemma composite_consume_eq:
  "composite_consume l2 now n ttl (m, s) =
     (if fst (memory_is_consumed now n m) then (False, evict_expired now m, s)
      else if fst (l2_consume l2 now n ttl s)
      then (True, snd (memory_consume now n ttl m), snd (l2_consume l2 now n ttl s))
      else (False, evict_expired now m, snd (l2_consume l2 now n ttl s)))"
  unfolding composite_consume_def Let_def prod.case l2_consume_def [symmetric]
  by (subst memory_lookup) (simp add: memory_unseen case_prod_beta)

lemma composite_memory:
  "fst (snd (composite_consume l2 now n ttl (m, s))) =
     (if fst (composite_consume l2 now n ttl (m, s)) then snd (memory_consume now n ttl m)
      else evict_expired now m)"
  "fst (composite_consume l2 now n ttl (m, s)) \<Longrightarrow> fst (memory_consume now n ttl m)"
  by (simp add: composite_consume_eq)
    (auto simp: composite_consume_eq memory_is_consumed_def memory_consume_def Let_def split: if_splits)

lemma composite_lookup_memory:
  "fst (snd (composite_is_consumed l2 now n (m, s))) = evict_expired now m"
  "fst (memory_is_consumed now n m) \<Longrightarrow> fst (composite_is_consumed l2 now n (m, s))"
  by (auto simp: composite_is_consumed_def memory_is_consumed_def Let_def
      split: option.splits prod.splits)

interpretation cn: nonce_store "composite_consume l2" "composite_is_consumed l2"
  "\<lambda>st. memory_held (fst st)" "\<lambda>now st. memory_room now (fst st)" for l2 :: "'s redis_client option"
proof unfold_locales
  fix now n ttl and st :: "memory_nonces \<times> 's"
  assume a: "memory_room now (fst st)" "fst (composite_consume l2 now n ttl st)"
  then show "memory_held (fst (snd (composite_consume l2 now n ttl st))) n (now + seconds ttl)"
    using composite_memory [of l2 now n ttl "fst st" "snd st"] by (simp add: memory_consume_held)
next
  fix n u now ttl and st :: "memory_nonces \<times> 's"
  assume "memory_held (fst st) n u" "now < u"
  then show "\<not> fst (composite_consume l2 now n ttl st)"
    using composite_memory(2) [of l2 now n ttl "fst st" "snd st"] mn.held_refused by auto
next
  fix n u now and st :: "memory_nonces \<times> 's"
  assume "memory_held (fst st) n u" "now < u"
  then show "fst (composite_is_consumed l2 now n st)"
    using composite_lookup_memory(2) [of now n "fst st" l2 "snd st"] mn.held_seen by simp
next
  fix now n u n' ttl and st :: "memory_nonces \<times> 's"
  assume "memory_room now (fst st)" "memory_held (fst st) n u" "now < u"
  then show "memory_held (fst (snd (composite_consume l2 now n' ttl st))) n u"
    using composite_memory(1) [of l2 now n' ttl "fst st" "snd st"] by (simp add: memory_consume_held)
next
  fix n u now n' and st :: "memory_nonces \<times> 's"
  assume "memory_held (fst st) n u" "now < u"
  then show "memory_held (fst (snd (composite_is_consumed l2 now n' st))) n u"
    using composite_lookup_memory(1) [of l2 now n' "fst st" "snd st"] by simp
qed

section \<open>Several processes\<close>

text \<open>
  Processes with a memory store each and one Redis server. A call is made by the process whose number
  it carries.
\<close>

record 's nonce_cluster =
  nc_memory :: "nat \<Rightarrow> memory_nonces"
  nc_redis :: 's

definition cluster_consume ::
  "'s redis_client \<Rightarrow> nat \<Rightarrow> datetime \<Rightarrow> string \<Rightarrow> int \<Rightarrow> 's nonce_cluster \<Rightarrow> bool \<times> 's nonce_cluster" where
  "cluster_consume c p now n ttl st =
     (let (b, m, s) = composite_consume (Some c) now n ttl (nc_memory st p, nc_redis st)
      in (b, st\<lparr>nc_memory := (nc_memory st)(p := m), nc_redis := s\<rparr>))"

definition cluster_is_consumed ::
  "'s redis_client \<Rightarrow> nat \<Rightarrow> datetime \<Rightarrow> string \<Rightarrow> 's nonce_cluster \<Rightarrow> bool \<times> 's nonce_cluster" where
  "cluster_is_consumed c p now n st =
     (let (b, m, s) = composite_is_consumed (Some c) now n (nc_memory st p, nc_redis st)
      in (b, st\<lparr>nc_memory := (nc_memory st)(p := m), nc_redis := s\<rparr>))"

fun cluster_step :: "'s redis_client \<Rightarrow> nat \<times> nonce_call \<Rightarrow> 's nonce_cluster \<Rightarrow> 's nonce_cluster" where
  "cluster_step c (p, Consume now n ttl) st = snd (cluster_consume c p now n ttl st)"
| "cluster_step c (p, Lookup now n) st = snd (cluster_is_consumed c p now n st)"

text \<open>
  What the documentation of Redis promises of \<open>SET key value EX ttl NX\<close> and \<open>GET\<close>, with
  \<open>live s t k\<close>: left alone from state \<open>s\<close>, the server has the key \<open>k\<close> at time \<open>t\<close>. A command that fails
  may have been carried out or not, but drops no key before its time.
\<close>

definition redis_laws :: "'s redis_driver \<Rightarrow> ('s \<Rightarrow> datetime \<Rightarrow> string \<Rightarrow> bool) \<Rightarrow> bool" where
  "redis_laws drv live \<longleftrightarrow>
     (\<forall>now key val ttl s t k. live s t k \<longrightarrow> live (snd (drv_set_nx drv now key val ttl s)) t k) \<and>
     (\<forall>now key s t k. live s t k \<longrightarrow> live (snd (drv_get drv now key s)) t k) \<and>
     (\<forall>now key val ttl s b s'. drv_set_nx drv now key val ttl s = (Inr b, s') \<longrightarrow>
        b = (\<not> live s now key) \<and> (b \<longrightarrow> (\<forall>t < now + seconds ttl. live s' t key))) \<and>
     (\<forall>now key s v s'. drv_get drv now key s = (Inr v, s') \<longrightarrow> (v \<noteq> None) = live s now key)"

definition redis_held :: "('s \<Rightarrow> datetime \<Rightarrow> string \<Rightarrow> bool) \<Rightarrow> 's \<Rightarrow> string \<Rightarrow> datetime \<Rightarrow> bool" where
  "redis_held live s n u \<longleftrightarrow> (\<forall>t < u. live s t (nonce_key n))"

lemma redis_server:
  "snd (redis_consume c now n ttl s) =
     (if rd_available c then snd (drv_set_nx (rd_driver c) now (nonce_key n) ''1'' ttl s) else s)"
  "snd (redis_is_consumed c now n s) =
     (if rd_available c then snd (drv_get (rd_driver c) now (nonce_key n) s) else s)"
  by (auto simp: redis_consume_def redis_set_nx_def redis_is_consumed_def redis_get_def
      split: prod.splits sum.splits)

lemma redis_keeps:
  assumes "redis_laws (rd_driver c) live" and "redis_held live s n u"
  shows "redis_held live (snd (redis_consume c now n' ttl s)) n u"
    and "redis_held live (snd (redis_is_consumed c now n' s)) n u"
  using assms unfolding redis_server redis_held_def redis_laws_def by auto

lemma redis_consume_iff:
  assumes "redis_laws (rd_driver c) live" and "fst (redis_consume c now n ttl s)"
  shows "\<not> live s now (nonce_key n)"
    and "redis_held live (snd (redis_consume c now n ttl s)) n (now + seconds ttl)"
  using assms
  by (auto simp: redis_laws_def redis_held_def redis_consume_def redis_set_nx_def
      split: prod.splits sum.splits if_splits)

lemma composite_redis:
  "snd (snd (composite_consume (Some c) now n ttl (m, s))) \<in> {s, snd (redis_consume c now n ttl s)}"
  "fst (composite_consume (Some c) now n ttl (m, s)) \<Longrightarrow> fst (redis_consume c now n ttl s) \<and>
     snd (snd (composite_consume (Some c) now n ttl (m, s))) = snd (redis_consume c now n ttl s)"
  by (auto simp: composite_consume_eq l2_consume_def split: if_splits)

lemma cluster_step_keeps:
  assumes "redis_laws (rd_driver c) live" and "redis_held live (nc_redis st) n u"
  shows "redis_held live (nc_redis (cluster_step c e st)) n u"
proof (cases "(c, e, st)" rule: cluster_step.cases)
  case (1 c' p now n' ttl st')
  then show ?thesis
    using assms redis_keeps(1) [OF assms] composite_redis(1) [of c now n' ttl "nc_memory st p" "nc_redis st"]
    by (auto simp: cluster_consume_def case_prod_beta)
next
  case (2 c' p now n' st')
  then show ?thesis
    using assms redis_keeps(2) [OF assms]
    by (auto simp: cluster_is_consumed_def composite_is_consumed_def Let_def case_prod_beta)
qed

lemma cluster_run_keeps:
  "redis_laws (rd_driver c) live \<Longrightarrow> redis_held live (nc_redis st) n u \<Longrightarrow>
     redis_held live (nc_redis (fold (cluster_step c) es st)) n u"
  by (induction es arbitrary: st) (simp_all add: cluster_step_keeps)

lemma nonce_consumed_once:
  assumes "redis_laws (rd_driver c) live"
    and "cluster_consume c p now n ttl st = (True, st1)"
    and "later < now + seconds ttl"
  shows "\<not> fst (cluster_consume c q later n ttl' (fold (cluster_step c) es st1))"
proof -
  have "fst (redis_consume c now n ttl (nc_redis st))"
    and "nc_redis st1 = snd (redis_consume c now n ttl (nc_redis st))"
    using assms(2) composite_redis(2) [of c now n ttl "nc_memory st p" "nc_redis st"]
    by (auto simp: cluster_consume_def case_prod_beta)
  then have "redis_held live (nc_redis (fold (cluster_step c) es st1)) n (now + seconds ttl)"
    by (simp add: redis_consume_iff(2) [OF assms(1)] cluster_run_keeps [OF assms(1)])
  then have alive: "live (nc_redis (fold (cluster_step c) es st1)) later (nonce_key n)"
    using assms(3) by (simp add: redis_held_def)
  show ?thesis
  proof
    assume "fst (cluster_consume c q later n ttl' (fold (cluster_step c) es st1))"
    then have "fst (redis_consume c later n ttl' (nc_redis (fold (cluster_step c) es st1)))"
      by (auto simp: cluster_consume_def case_prod_beta dest: composite_redis(2))
    from redis_consume_iff(1) [OF assms(1) this] alive show False by simp
  qed
qed

text \<open>
  C8. A nonce is consumed once across processes: after some process consumed it with a time to
  live, no process consumes it again before that time is over, whatever calls the processes make in
  between, however full their local stores are and whenever Redis fails, provided the server keeps
  the promises of its commands.
\<close>

theorem nonce_consumed_once_across_processes:
  assumes "redis_laws (rd_driver c) live"
    and "cluster_consume c p now n ttl st = (True, st1)"
    and "later < now + seconds ttl"
  shows "\<not> fst (cluster_consume c q later n ttl' (fold (cluster_step c) es st1))"
  using nonce_consumed_once [OF assms] .

text \<open>A server that keeps the promises: keys with their expiry; a zero or negative time is an error.\<close>

definition sample_driver :: "(string \<rightharpoonup> string \<times> datetime) redis_driver" where
  "sample_driver =
     \<lparr>drv_set_nx = (\<lambda>now k v ttl s.
        if ttl \<le> 0 then (Inl ''invalid expire time in set'', s)
        else case s k of
               None \<Rightarrow> (Inr True, s(k \<mapsto> (v, now + seconds ttl)))
             | Some (w, e) \<Rightarrow>
                 if now < e then (Inr False, s) else (Inr True, s(k \<mapsto> (v, now + seconds ttl)))),
      drv_get = (\<lambda>now k s.
        (Inr (case s k of None \<Rightarrow> None | Some (w, e) \<Rightarrow> if now < e then Some w else None), s)),
      drv_incr = (\<lambda>now k s. (Inl ''WRONGTYPE'', s)),
      drv_expire = (\<lambda>now k ttl s.
        (case s k of None \<Rightarrow> (Inr False, s)
         | Some (w, e) \<Rightarrow> if now < e then (Inr True, s(k \<mapsto> (w, now + seconds ttl))) else (Inr False, s))),
      drv_delete = (\<lambda>now k s.
        (Inr (case s k of None \<Rightarrow> False | Some (w, e) \<Rightarrow> now < e), s(k := None)))\<rparr>"

definition sample_live :: "(string \<rightharpoonup> string \<times> datetime) \<Rightarrow> datetime \<Rightarrow> string \<Rightarrow> bool" where
  "sample_live s t k = (case s k of None \<Rightarrow> False | Some (w, e) \<Rightarrow> t < e)"

lemma sample_driver_laws: "redis_laws sample_driver sample_live"
  by (auto simp: redis_laws_def sample_driver_def sample_live_def seconds_def
      split: option.splits if_splits)

definition sample_cluster :: "(string \<rightharpoonup> string \<times> datetime) nonce_cluster" where
  "sample_cluster = \<lparr>nc_memory = (\<lambda>_. new_memory_nonces 1), nc_redis = Map.empty\<rparr>"

abbreviation sample_client :: "(string \<rightharpoonup> string \<times> datetime) redis_client" where
  "sample_client \<equiv> \<lparr>rd_available = True, rd_driver = sample_driver\<rparr>"

theorem nonce_consumed_once_across_processes_witness:
  "let st1 = snd (cluster_consume sample_client 0 0 ''jti-1'' 30 sample_cluster);
       st2 = fold (cluster_step sample_client) [(0, Consume 1 ''jti-2'' 30), (1, Lookup 2 ''jti-1'')] st1
   in fst (cluster_consume sample_client 0 0 ''jti-1'' 30 sample_cluster) \<and>
      \<not> fst (cluster_consume sample_client 1 3 ''jti-1'' 30 st2)"
proof -
  have b: "fst (cluster_consume sample_client 0 0 ''jti-1'' 30 sample_cluster)" by code_simp
  have "redis_laws (rd_driver sample_client) sample_live"
    by (simp add: sample_driver_laws)
  from nonce_consumed_once_across_processes [OF this,
      of 0 0 "''jti-1''" 30 sample_cluster "snd (cluster_consume sample_client 0 0 ''jti-1'' 30 sample_cluster)"
        3 1 30 "[(0, Consume 1 ''jti-2'' 30), (1, Lookup 2 ''jti-1'')]"] b
  show ?thesis by (simp add: Let_def prod_eq_iff seconds_def)
qed

text \<open>
  Without Redis the guarantee ends when the local store is full: it drops its oldest nonce although
  that is not expired, and accepts it a second time.
\<close>

theorem full_store_forgets:
  "let (a, s1) = memory_consume 0 ''jti-1'' 30 (new_memory_nonces 1);
       (b, s2) = memory_consume 1 ''jti-2'' 30 s1;
       (c, s3) = memory_consume 2 ''jti-1'' 30 s2
   in a \<and> b \<and> c"
  by code_simp

end
