(* ===== verification/Key_Manager.thy ===== *)
theory Key_Manager
  imports Interlock_Prelude
begin

text \<open>
  \<open>VersionedKeyManager\<close> (\<open>app/infrastructure/security/versioned_key_manager.py\<close>) without an HSM provider:
  the active signing key, the keys kept for verification, rotation, and the directory that survives
  a restart. Key pairs are a type parameter and a generated key is an argument; a stored key is read
  back as it was written (the files are encrypted with the same secret).

  Shown: after any rotations, lookups and restarts the keys that verify are exactly the three newest.
\<close>

section \<open>State\<close>

text \<open>\<open>None\<close> for a manager without a directory; otherwise the key files and the metadata file.\<close>

record 'k key_dir =
  kd_files :: "string \<rightharpoonup> 'k"
  kd_metadata :: "(string \<times> string list) option"

record 'k key_manager =
  km_keys :: "string \<rightharpoonup> 'k"
  km_active_key_id :: string
  km_previous_key_ids :: "string list"

type_synonym 'k key_state = "'k key_manager \<times> 'k key_dir option"

definition MAX_PREVIOUS_KEYS :: nat where
  "MAX_PREVIOUS_KEYS = 2"

section \<open>Files\<close>

definition save_key :: "string \<Rightarrow> 'k \<Rightarrow> 'k key_dir option \<Rightarrow> 'k key_dir option" where
  "save_key key_id key dir = map_option (\<lambda>d. d\<lparr>kd_files := (kd_files d)(key_id \<mapsto> key)\<rparr>) dir"

definition load_key :: "string \<Rightarrow> 'k key_dir option \<Rightarrow> 'k option" where
  "load_key key_id dir = (case dir of None \<Rightarrow> None | Some d \<Rightarrow> kd_files d key_id)"

definition save_metadata :: "'k key_state \<Rightarrow> 'k key_state" where
  "save_metadata st =
     (let (km, dir) = st
      in (km, map_option (\<lambda>d. d\<lparr>kd_metadata :=
                 Some (km_active_key_id km, km_previous_key_ids km)\<rparr>) dir))"

definition delete_key :: "string \<Rightarrow> 'k key_state \<Rightarrow> 'k key_state" where
  "delete_key key_id st =
     (let (km, dir) = st
      in (km\<lparr>km_keys := (km_keys km)(key_id := None)\<rparr>,
          map_option (\<lambda>d. d\<lparr>kd_files := (kd_files d)(key_id := None)\<rparr>) dir))"

section \<open>Operations\<close>

definition initialize_new_key :: "string \<Rightarrow> 'k \<Rightarrow> 'k key_state \<Rightarrow> 'k key_state" where
  "initialize_new_key key_id key st =
     (let (km, dir) = st
      in save_metadata (km\<lparr>km_keys := (km_keys km)(key_id \<mapsto> key), km_active_key_id := key_id\<rparr>,
           save_key key_id key dir))"

text \<open>The constructor; \<open>new_id\<close> and \<open>new_key\<close> are used when there is nothing to load.\<close>

definition load_or_initialize :: "string \<Rightarrow> 'k \<Rightarrow> 'k key_dir option \<Rightarrow> 'k key_state" where
  "load_or_initialize new_id new_key dir =
     (let km = \<lparr>km_keys = Map.empty, km_active_key_id = [], km_previous_key_ids = []\<rparr>
      in case dir of
           None \<Rightarrow> initialize_new_key new_id new_key (km, dir)
         | Some d \<Rightarrow>
             (case kd_metadata d of
                None \<Rightarrow> initialize_new_key new_id new_key (km, dir)
              | Some (active, previous) \<Rightarrow>
                  (km\<lparr>km_active_key_id := active, km_previous_key_ids := previous\<rparr>, dir)))"

definition get_key_ids :: "'k key_state \<Rightarrow> string list" where
  "get_key_ids st = km_active_key_id (fst st) # km_previous_key_ids (fst st)"

definition get_key :: "string \<Rightarrow> 'k key_state \<Rightarrow> (py_error + 'k) \<times> 'k key_state" where
  "get_key key_id st =
     (let (km, dir) = st
      in case km_keys km key_id of
           Some key \<Rightarrow> (Inr key, st)
         | None \<Rightarrow>
             (case load_key key_id dir of
                None \<Rightarrow> (Inl (KeyError key_id), st)
              | Some key \<Rightarrow> (Inr key, km\<lparr>km_keys := (km_keys km)(key_id \<mapsto> key)\<rparr>, dir)))"

definition get_signing_key :: "string option \<Rightarrow> 'k key_state \<Rightarrow> (py_error + 'k) \<times> 'k key_state" where
  "get_signing_key key_id st =
     (case key_id of
        None \<Rightarrow> get_key (km_active_key_id (fst st)) st
      | Some k \<Rightarrow>
          if k \<noteq> km_active_key_id (fst st) then (Inl (ValueError k), st) else get_key k st)"

text \<open>The public half of the pair that \<open>get_key\<close> returns.\<close>

definition get_verification_key :: "string option \<Rightarrow> 'k key_state \<Rightarrow> (py_error + 'k) \<times> 'k key_state" where
  "get_verification_key key_id st =
     get_key (case key_id of None \<Rightarrow> km_active_key_id (fst st) | Some k \<Rightarrow> k) st"

definition sign_with ::
  "('k \<Rightarrow> string \<Rightarrow> string) \<Rightarrow> string \<Rightarrow> string option \<Rightarrow> 'k key_state
     \<Rightarrow> (py_error + string) \<times> 'k key_state" where
  "sign_with sign_fn dat key_id st =
     (case get_key (if truthy key_id then the key_id else km_active_key_id (fst st)) st of
        (Inl e, st') \<Rightarrow> (Inl e, st')
      | (Inr key, st') \<Rightarrow> (Inr (sign_fn key dat), st'))"

text \<open>\<open>while len(previous) > _MAX_PREVIOUS_KEYS\<close>: the retired keys from the end of the list.\<close>

definition rotate_keys :: "string \<Rightarrow> 'k \<Rightarrow> 'k key_state \<Rightarrow> 'k key_state" where
  "rotate_keys new_id new_key st =
     (let (km, dir) = st; old_active = km_active_key_id km;
          km1 = km\<lparr>km_keys := (km_keys km)(new_id \<mapsto> new_key), km_active_key_id := new_id\<rparr>;
          previous = (if old_active = [] then km_previous_key_ids km
                      else old_active # km_previous_key_ids km);
          retired = (if old_active = [] then [] else rev (drop MAX_PREVIOUS_KEYS previous))
      in save_metadata (fold delete_key retired
           (km1\<lparr>km_previous_key_ids :=
                  (if old_active = [] then previous else take MAX_PREVIOUS_KEYS previous)\<rparr>,
            save_key new_id new_key dir)))"

section \<open>Runs\<close>

text \<open>A restart makes a new manager on the same directory.\<close>

datatype 'k key_event = Rotate string 'k | LookUp "string option" | Restart string 'k

fun key_step :: "'k key_event \<Rightarrow> 'k key_state \<Rightarrow> 'k key_state" where
  "key_step (Rotate i k) st = rotate_keys i k st"
| "key_step (LookUp i) st = snd (get_verification_key i st)"
| "key_step (Restart i k) st = load_or_initialize i k (snd st)"

text \<open>
  The pairs a run has issued, newest first. A restart issues a pair, and forgets the earlier ones,
  only when there is no directory.
\<close>

fun issue :: "bool \<Rightarrow> 'k key_event \<Rightarrow> (string \<times> 'k) list \<Rightarrow> (string \<times> 'k) list" where
  "issue has_dir (Rotate i k) ps = (i, k) # ps"
| "issue has_dir (LookUp i) ps = ps"
| "issue has_dir (Restart i k) ps = (if has_dir then ps else [(i, k)])"

text \<open>The manager knows exactly the three newest pairs, in memory or on disk.\<close>

definition key_inv :: "(string \<times> 'k) list \<Rightarrow> 'k key_state \<Rightarrow> bool" where
  "key_inv ps st \<longleftrightarrow>
     ps \<noteq> [] \<and> distinct (map fst ps) \<and> [] \<notin> fst ` set ps \<and>
     get_key_ids st = map fst (take 3 ps) \<and>
     (case snd st of
        None \<Rightarrow> km_keys (fst st) = map_of (take 3 ps)
      | Some d \<Rightarrow>
          kd_files d = map_of (take 3 ps) \<and> km_keys (fst st) \<subseteq>\<^sub>m map_of (take 3 ps) \<and>
          kd_metadata d = Some (km_active_key_id (fst st), km_previous_key_ids (fst st)))"

lemma get_key_value:
  assumes "key_inv ps st"
  shows "fst (get_key i st) = (case map_of (take 3 ps) i of None \<Rightarrow> Inl (KeyError i) | Some k \<Rightarrow> Inr k)"
  using assms
  by (cases st; cases "snd st"; cases "km_keys (fst st) i")
    (auto simp: key_inv_def get_key_def load_key_def map_le_def domI dest!: bspec [of _ _ i]
      split: option.splits)

lemma get_key_inv:
  assumes "key_inv ps st"
  shows "key_inv ps (snd (get_key i st))"
  using assms
  by (cases st; cases "snd st"; cases "km_keys (fst st) i")
    (auto simp: key_inv_def get_key_def get_key_ids_def load_key_def map_le_def split: option.splits)

definition without :: "string list \<Rightarrow> (string \<rightharpoonup> 'k) \<Rightarrow> string \<rightharpoonup> 'k" where
  "without ids m = (\<lambda>k. if k \<in> set ids then None else m k)"

lemma delete_keys:
  "fold delete_key ids (km, dir) =
     (km\<lparr>km_keys := without ids (km_keys km)\<rparr>,
      map_option (\<lambda>d. d\<lparr>kd_files := without ids (kd_files d)\<rparr>) dir)"
proof (induction ids arbitrary: km dir)
  case Nil
  have "without [] m = m" for m :: "string \<rightharpoonup> 'a" by (simp add: without_def)
  then show ?case by (cases dir) simp_all
next
  case (Cons i ids)
  have cons: "without ids (m(i := None)) = without (i # ids) m" for m :: "string \<rightharpoonup> 'a"
    by (auto simp: without_def fun_eq_iff)
  have one: "delete_key i (km, dir) = (km\<lparr>km_keys := (km_keys km)(i := None)\<rparr>,
      map_option (\<lambda>d. d\<lparr>kd_files := (kd_files d)(i := None)\<rparr>) dir)"
    by (simp add: delete_key_def)
  show ?case
    unfolding fold_simps comp_apply one Cons.IH by (cases dir) (simp_all add: cons)
qed

text \<open>Of a list of pairs with different names, dropping the retired names leaves the newest.\<close>

lemma without_retired:
  assumes "distinct (map fst ps)"
  shows "without (rev (map fst (drop n ps))) (map_of ps) = map_of (take n ps)"
proof
  fix k
  have split: "map_of ps k = (case map_of (take n ps) k of None \<Rightarrow> map_of (drop n ps) k | Some v \<Rightarrow> Some v)"
    using map_of_append [of "take n ps" "drop n ps"] by (simp add: map_add_def)
  have "fst ` set (take n ps) \<inter> fst ` set (drop n ps) = {}"
    using assms by (metis append_take_drop_id distinct_append list.set_map map_append)
  then show "without (rev (map fst (drop n ps))) (map_of ps) k = map_of (take n ps) k"
  proof (cases "map_of (take n ps) k")
    case None
    have "k \<notin> fst ` set (drop n ps) \<Longrightarrow> map_of (drop n ps) k = None"
      by (simp add: map_of_eq_None_iff)
    with split None show ?thesis by (simp add: without_def)
  next
    case (Some v)
    then have "k \<in> fst ` set (take n ps)" by (force dest: map_of_SomeD)
    then have "k \<notin> fst ` set (drop n ps)"
      using \<open>fst ` set (take n ps) \<inter> fst ` set (drop n ps) = {}\<close> by blast
    with split Some show ?thesis by (simp add: without_def)
  qed
qed

lemma without_mono: "m \<subseteq>\<^sub>m m' \<Longrightarrow> without ids (m(i \<mapsto> k)) \<subseteq>\<^sub>m without ids (m'(i \<mapsto> k))"
  by (auto simp: map_le_def without_def dom_def)

lemma retired_names:
  assumes "distinct (map fst ((i, k) # ps))"
  shows "without (rev (drop 2 (map fst (take 3 ps)))) ((map_of (take 3 ps))(i \<mapsto> k)) =
    map_of (take 3 ((i, k) # ps))"
proof -
  have "distinct (map fst (take 4 ((i, k) # ps)))"
    using assms by (metis distinct_take take_map)
  from without_retired [OF this, of 3]
  show ?thesis by (simp add: take_map drop_map numeral_eq_Suc take_drop)
qed

lemma rotate_inv:
  assumes inv: "key_inv ps st" and new: "i \<notin> fst ` set ps" "i \<noteq> []"
  shows "key_inv ((i, k) # ps) (rotate_keys i k st)"
proof -
  obtain km dir where st: "st = (km, dir)" by (cases st)
  obtain p qs where ps: "ps = p # qs" using inv by (cases ps) (auto simp: key_inv_def)
  have ids: "km_active_key_id km = fst p" "km_previous_key_ids km = map fst (take 2 qs)" "fst p \<noteq> []"
    using inv by (auto simp: key_inv_def get_key_ids_def st ps)
  have dist: "distinct (map fst ((i, k) # ps))" "[] \<notin> fst ` set ((i, k) # ps)"
    using inv new by (auto simp: key_inv_def)
  have run: "rotate_keys i k st =
      save_metadata (km\<lparr>km_active_key_id := i, km_previous_key_ids := take 2 (map fst (take 3 ps)),
         km_keys := without (rev (drop 2 (map fst (take 3 ps)))) ((km_keys km)(i \<mapsto> k))\<rparr>,
       map_option (\<lambda>d. d\<lparr>kd_files := without (rev (drop 2 (map fst (take 3 ps)))) ((kd_files d)(i \<mapsto> k))\<rparr>) dir)"
    using ids
    by (cases dir) (simp_all add: rotate_keys_def st ps delete_keys save_key_def MAX_PREVIOUS_KEYS_def
        numeral_3_eq_3 numeral_2_eq_2 Let_def)
  have names: "i # take 2 (map fst (take 3 ps)) = map fst (take 3 ((i, k) # ps))"
    by (simp add: take_map numeral_3_eq_3 numeral_2_eq_2)
  note ret = retired_names [OF dist(1)]
  show ?thesis
  proof (cases dir)
    case None
    then show ?thesis
      using inv dist names ret unfolding key_inv_def run
      by (simp add: save_metadata_def get_key_ids_def st del: take_Cons_numeral)
  next
    case (Some d)
    then have "kd_files d = map_of (take 3 ps)" "km_keys km \<subseteq>\<^sub>m map_of (take 3 ps)"
      using inv by (simp_all add: key_inv_def st)
    with Some show ?thesis
      using dist names ret without_mono [of "km_keys km" "map_of (take 3 ps)"]
      unfolding key_inv_def run
      by (simp add: save_metadata_def get_key_ids_def del: take_Cons_numeral) (metis ret)
  qed
qed

lemma restart_inv:
  assumes "key_inv ps st" and "i \<noteq> []"
  shows "key_inv (issue (snd st \<noteq> None) (Restart i k) ps) (load_or_initialize i k (snd st))"
  using assms
  by (cases st; cases "snd st")
    (auto simp: key_inv_def load_or_initialize_def initialize_new_key_def save_metadata_def save_key_def
      get_key_ids_def Let_def)

lemma key_step_dir: "(snd (key_step e st) \<noteq> None) = (snd st \<noteq> None)"
proof (cases e)
  case (Rotate i k)
  then show ?thesis
    by (cases st) (simp add: rotate_keys_def save_metadata_def delete_keys save_key_def Let_def)
next
  case (LookUp i)
  then show ?thesis
    by (cases st) (simp add: get_verification_key_def get_key_def Let_def split: option.splits)
next
  case (Restart i k)
  then show ?thesis
    by (cases st; cases "snd st")
      (auto simp: load_or_initialize_def initialize_new_key_def save_metadata_def save_key_def Let_def
        split: option.splits)
qed

text \<open>Generated names are new and not empty.\<close>

fun fresh_name :: "(string \<times> 'k) list \<Rightarrow> 'k key_event \<Rightarrow> bool" where
  "fresh_name ps (Rotate i k) \<longleftrightarrow> i \<notin> fst ` set ps \<and> i \<noteq> []"
| "fresh_name ps (LookUp i) \<longleftrightarrow> True"
| "fresh_name ps (Restart i k) \<longleftrightarrow> i \<notin> fst ` set ps \<and> i \<noteq> []"

fun all_fresh :: "bool \<Rightarrow> (string \<times> 'k) list \<Rightarrow> 'k key_event list \<Rightarrow> bool" where
  "all_fresh has_dir ps [] \<longleftrightarrow> True"
| "all_fresh has_dir ps (e # es) \<longleftrightarrow> fresh_name ps e \<and> all_fresh has_dir (issue has_dir e ps) es"

lemma key_step_inv:
  assumes "key_inv ps st" and "fresh_name ps e"
  shows "key_inv (issue (snd st \<noteq> None) e ps) (key_step e st)"
proof (cases e)
  case (Restart i k)
  then show ?thesis using assms restart_inv [of ps st i k] by (simp del: issue.simps not_None_eq)
qed (use assms in \<open>simp_all add: rotate_inv get_key_inv get_verification_key_def\<close>)

lemma key_run_inv:
  assumes "key_inv ps st" and "all_fresh b ps es" and "b = (snd st \<noteq> None)"
  shows "key_inv (fold (issue b) es ps) (fold key_step es st)"
  using assms
proof (induction es arbitrary: ps st)
  case (Cons e es)
  have "key_inv (issue b e ps) (key_step e st)"
    using key_step_inv [OF Cons.prems(1)] Cons.prems(2,3) by simp
  moreover have "b = (snd (key_step e st) \<noteq> None)"
    using Cons.prems(3) key_step_dir [of e st] by blast
  ultimately show ?case using Cons.IH Cons.prems(2) by simp
qed simp

lemma new_manager_inv:
  assumes "i \<noteq> []" and "\<forall>d. dir = Some d \<longrightarrow> kd_metadata d = None \<and> kd_files d = Map.empty"
  shows "key_inv [(i, k)] (load_or_initialize i k dir)"
    and "(snd (load_or_initialize i k dir) \<noteq> None) = (dir \<noteq> None)"
  using assms
  by (cases dir; auto simp: key_inv_def load_or_initialize_def initialize_new_key_def save_metadata_def
      save_key_def get_key_ids_def Let_def)+



end
