(* ===== verification/Execution_Token.thy ===== *)
theory Execution_Token
  imports Nonce_Store Key_Manager Glob_Match
begin

text \<open>
  \<open>Ed25519ExecutionTokenService\<close>
  (\<open>app/infrastructure/security/ed25519_execution_token_service.py\<close>): creation and verification of
  the signed, single-use tokens that permit one execution, over the key manager and a nonce store.

  The libraries are parameters: \<open>json.dumps\<close>, base64url, the Ed25519 signature, \<open>jwt.decode\<close> with its
  signature and \<open>nbf\<close>/\<open>iat\<close> checks, and SHA-256. The payload is the record of the claims that the
  service writes; a decoded token has the required claims, and its claims are strings and numbers.
  The clock is in microseconds and \<open>int(time.time())\<close> its whole seconds.

  Shown: what a successful verification guarantees, that a created token verifies, and that a token
  is used once before its expiry, across processes. In the last second of its life it can be used
  again. The hash of the parameters that a token can be bound to does not depend on their values.
\<close>

section \<open>Claims and requests\<close>

record token_claims =
  tc_sub :: string
  tc_agent_id :: string
  tc_type :: string
  tc_tool :: string
  tc_iat :: int
  tc_nbf :: int
  tc_exp :: int
  tc_jti :: string
  tc_tenant_id :: "string option"
  tc_aud :: "string option"
  tc_resource :: "string option"
  tc_action :: "string option"
  tc_session_id :: "string option"
  tc_param_hash :: "string option"
  tc_resource_hash :: "string option"

record token_request =
  tr_agent_id :: string
  tr_tool :: string
  tr_ttl_seconds :: int
  tr_subject :: "string option"
  tr_tenant_id :: "string option"
  tr_audience :: "string option"
  tr_resource :: "string option"
  tr_action :: "string option"
  tr_session_id :: "string option"
  tr_param_hash :: "string option"
  tr_resource_hash :: "string option"

record expectations =
  ex_tenant_id :: "string option"
  ex_audience :: "string option"
  ex_resource :: "string option"
  ex_action :: "string option"
  ex_session_id :: "string option"
  ex_param_hash :: "string option"

text \<open>
  The service with what it calls: \<open>ts_unverified_header\<close> is the \<open>kid\<close> of the header, \<open>None\<close> for a token
  that cannot be parsed; \<open>ts_decode\<close> answers \<open>None\<close> where the library raises.
\<close>

record ('k, 'n) token_service =
  ts_dumps :: "pyval \<Rightarrow> string"
  ts_b64url :: "string \<Rightarrow> string"
  ts_sign :: "'k \<Rightarrow> string \<Rightarrow> string"
  ts_unverified_header :: "string \<Rightarrow> string option option"
  ts_decode :: "'k \<Rightarrow> string \<Rightarrow> int \<Rightarrow> datetime \<Rightarrow> token_claims option"
  ts_sha256 :: "string \<Rightarrow> string"
  ts_consume :: "datetime \<Rightarrow> string \<Rightarrow> int \<Rightarrow> 'n \<Rightarrow> bool \<times> 'n"
  ts_is_consumed :: "datetime \<Rightarrow> string \<Rightarrow> 'n \<Rightarrow> bool \<times> 'n"
  ts_clock_skew_seconds :: int

type_synonym ('k, 'n) token_state = "'k key_state \<times> 'n"

definition whole_seconds :: "datetime \<Rightarrow> int" where
  "whole_seconds now = now div 1000000"

section \<open>Creation\<close>

definition validate_tenant_id :: "string \<Rightarrow> py_error option" where
  "validate_tenant_id t =
     (if blank t then Some (ValueError ''tenant_id must be a non-empty string.'')
      else if length t > 64 then Some (ValueError ''tenant_id must be at most 64 characters.'')
      else None)"

definition claims_of_request :: "datetime \<Rightarrow> string \<Rightarrow> token_request \<Rightarrow> token_claims" where
  "claims_of_request now jti r =
     \<lparr>tc_sub = (if truthy (tr_subject r) then the (tr_subject r) else tr_agent_id r),
      tc_agent_id = tr_agent_id r, tc_type = ''execution'', tc_tool = tr_tool r,
      tc_iat = whole_seconds now, tc_nbf = whole_seconds now,
      tc_exp = whole_seconds now + tr_ttl_seconds r, tc_jti = jti, tc_tenant_id = tr_tenant_id r,
      tc_aud = tr_audience r, tc_resource = tr_resource r, tc_action = tr_action r,
      tc_session_id = tr_session_id r, tc_param_hash = tr_param_hash r,
      tc_resource_hash = tr_resource_hash r\<rparr>"

text \<open>The claims that were given, in the order in which the source adds them.\<close>

definition opt_claims :: "(string \<times> string option) list \<Rightarrow> pydict" where
  "opt_claims kvs = [(k, PStr (the v)). (k, v) \<leftarrow> kvs, v \<noteq> None]"

definition claims_payload :: "token_claims \<Rightarrow> pydict" where
  "claims_payload c =
     [(''sub'', PStr (tc_sub c)), (''agent_id'', PStr (tc_agent_id c)), (''type'', PStr (tc_type c)),
      (''tool'', PStr (tc_tool c)), (''iat'', PInt (tc_iat c)), (''nbf'', PInt (tc_nbf c)),
      (''exp'', PInt (tc_exp c)), (''jti'', PStr (tc_jti c))] @
     opt_claims [(''tenant_id'', tc_tenant_id c), (''aud'', tc_aud c), (''resource'', tc_resource c),
       (''action'', tc_action c), (''session_id'', tc_session_id c), (''param_hash'', tc_param_hash c),
       (''resource_hash'', tc_resource_hash c)]"

definition token_header :: "string \<Rightarrow> pydict" where
  "token_header kid = [(''alg'', PStr ''EdDSA''), (''typ'', PStr ''JWT''), (''kid'', PStr kid)]"

definition signing_input :: "('k, 'n) token_service \<Rightarrow> string \<Rightarrow> token_claims \<Rightarrow> string" where
  "signing_input sv kid c =
     ts_b64url sv (ts_dumps sv (PDict (token_header kid))) @ ''.'' @
     ts_b64url sv (ts_dumps sv (PDict (claims_payload c)))"

definition compact_token :: "('k, 'n) token_service \<Rightarrow> string \<Rightarrow> token_claims \<Rightarrow> string \<Rightarrow> string" where
  "compact_token sv kid c signature = signing_input sv kid c @ ''.'' @ ts_b64url sv signature"

definition create_execution_token ::
  "('k, 'n) token_service \<Rightarrow> datetime \<Rightarrow> string \<Rightarrow> token_request \<Rightarrow> ('k, 'n) token_state
     \<Rightarrow> (py_error + string) \<times> ('k, 'n) token_state" where
  "create_execution_token sv now jti r st =
     (let (ks, ns) = st; key_id = km_active_key_id (fst ks); c = claims_of_request now jti r
      in case Option.bind (tr_tenant_id r) validate_tenant_id of
           Some e \<Rightarrow> (Inl e, st)
         | None \<Rightarrow>
             (case sign_with (ts_sign sv) (signing_input sv key_id c) (Some key_id) ks of
                (Inl e, ks') \<Rightarrow> (Inl e, ks', ns)
              | (Inr signature, ks') \<Rightarrow> (Inr (compact_token sv key_id c signature), ks', ns)))"

section \<open>Verification\<close>

text \<open>\<open>str(None)\<close> is the text \<open>None\<close>.\<close>

definition str_claim :: "string option \<Rightarrow> string" where
  "str_claim v = (case v of None \<Rightarrow> ''None'' | Some s \<Rightarrow> s)"

definition check_tenant_claim :: "string option \<Rightarrow> string option \<Rightarrow> py_error option" where
  "check_tenant_claim expected actual =
     (if (case actual of None \<Rightarrow> False | Some t \<Rightarrow> blank t)
      then Some (ExecutionTokenError ''Token missing tenant_id: tenant_id must be a non-empty string.'')
      else case expected of
             None \<Rightarrow> None
           | Some t \<Rightarrow>
               if \<not> truthy actual
               then Some (ExecutionTokenError ''Token missing tenant_id: cross-tenant token use denied.'')
               else if actual \<noteq> Some t
               then Some (ExecutionTokenError ''Token tenant_id mismatch: cross-tenant token use detected and denied.'')
               else validate_tenant_id t)"

definition check_scope_claims ::
  "(string \<Rightarrow> string) \<Rightarrow> expectations \<Rightarrow> token_claims \<Rightarrow> py_error option" where
  "check_scope_claims sha ex c =
     (if ex_audience ex \<noteq> None \<and> tc_aud c \<noteq> ex_audience ex
      then Some (ExecutionTokenError ''Token audience mismatch.'')
      else if ex_resource ex \<noteq> None \<and> tc_resource c \<noteq> ex_resource ex
      then Some (ExecutionTokenError ''Token resource mismatch.'')
      else if (case (ex_resource ex, tc_resource_hash c) of (Some r, Some h) \<Rightarrow> h \<noteq> sha r | _ \<Rightarrow> False)
      then Some (ExecutionTokenError ''Token resource hash mismatch - possible tampering detected.'')
      else if ex_action ex \<noteq> None \<and> tc_action c \<noteq> ex_action ex
      then Some (ExecutionTokenError ''Token action mismatch.'')
      else if ex_session_id ex \<noteq> None \<and> tc_session_id c \<noteq> ex_session_id ex
      then Some (ExecutionTokenError ''Token session mismatch.'')
      else if ex_param_hash ex \<noteq> None \<and> str_claim (tc_param_hash c) \<noteq> str_claim (ex_param_hash ex)
      then Some (ExecutionTokenError ''Token parameter hash mismatch - parameter substitution detected.'')
      else None)"

definition check_claims ::
  "('k, 'n) token_service \<Rightarrow> datetime \<Rightarrow> expectations \<Rightarrow> token_claims \<Rightarrow> py_error option" where
  "check_claims sv now ex c =
     (if tc_type c \<noteq> ''execution'' then Some (ExecutionTokenError ''Invalid token type.'')
      else if tc_jti c = [] then Some (ExecutionTokenError ''Missing token nonce.'')
      else if tc_exp c < whole_seconds now
      then Some (ExecutionTokenError ''Execution token has expired.'')
      else case check_tenant_claim (ex_tenant_id ex) (tc_tenant_id c) of
             Some e \<Rightarrow> Some e
           | None \<Rightarrow> check_scope_claims (ts_sha256 sv) ex c)"

definition nonce_ttl :: "datetime \<Rightarrow> token_claims \<Rightarrow> int" where
  "nonce_ttl now c = max (tc_exp c - whole_seconds now) 1"

definition use_nonce ::
  "('k, 'n) token_service \<Rightarrow> bool \<Rightarrow> datetime \<Rightarrow> token_claims \<Rightarrow> 'n \<Rightarrow> (py_error + token_claims) \<times> 'n" where
  "use_nonce sv consume_nonce now c ns =
     (if consume_nonce
      then (case ts_consume sv now (tc_jti c) (nonce_ttl now c) ns of
              (False, ns') \<Rightarrow> (Inl (ExecutionTokenError ''Token has already been used.''), ns')
            | (True, ns') \<Rightarrow> (Inr c, ns'))
      else (case ts_is_consumed sv now (tc_jti c) ns of
              (True, ns') \<Rightarrow> (Inl (ExecutionTokenError ''Token has already been used.''), ns')
            | (False, ns') \<Rightarrow> (Inr c, ns')))"

definition verify_internal ::
  "('k, 'n) token_service \<Rightarrow> bool \<Rightarrow> datetime \<Rightarrow> string \<Rightarrow> expectations \<Rightarrow> ('k, 'n) token_state
     \<Rightarrow> (py_error + token_claims) \<times> ('k, 'n) token_state" where
  "verify_internal sv consume_nonce now token ex st =
     (let (ks, ns) = st
      in case ts_unverified_header sv token of
           None \<Rightarrow> (Inl (ExecutionTokenError ''Invalid or expired execution token.''), st)
         | Some kid \<Rightarrow>
             (case get_verification_key kid ks of
                (Inl _, ks') \<Rightarrow> (Inl (ExecutionTokenError ''Unknown key ID.''), ks', ns)
              | (Inr key, ks') \<Rightarrow>
                  (case ts_decode sv key token (ts_clock_skew_seconds sv) now of
                     None \<Rightarrow>
                       (Inl (ExecutionTokenError ''Invalid or expired execution token.''), ks', ns)
                   | Some c \<Rightarrow>
                       (case check_claims sv now ex c of
                          Some e \<Rightarrow> (Inl e, ks', ns)
                        | None \<Rightarrow>
                            (let (r, ns') = use_nonce sv consume_nonce now c ns in (r, ks', ns'))))))"

definition verify_execution_token ::
  "('k, 'n) token_service \<Rightarrow> datetime \<Rightarrow> string \<Rightarrow> expectations \<Rightarrow> ('k, 'n) token_state
     \<Rightarrow> (py_error + token_claims) \<times> ('k, 'n) token_state" where
  "verify_execution_token sv = verify_internal sv True"

definition peek_execution_token ::
  "('k, 'n) token_service \<Rightarrow> datetime \<Rightarrow> string \<Rightarrow> expectations \<Rightarrow> ('k, 'n) token_state
     \<Rightarrow> (py_error + token_claims) \<times> ('k, 'n) token_state" where
  "peek_execution_token sv = verify_internal sv False"

section \<open>Hashes and published keys\<close>

definition compute_resource_hash :: "(string \<Rightarrow> string) \<Rightarrow> string \<Rightarrow> string" where
  "compute_resource_hash sha resource = sha resource"

text \<open>\<open>str(canonical)\<close> of the sorted list of keys is the parameter \<open>shown\<close>.\<close>

definition compute_param_hash ::
  "(string \<Rightarrow> string) \<Rightarrow> (string list \<Rightarrow> string) \<Rightarrow> pydict \<Rightarrow> string" where
  "compute_param_hash sha shown params = sha (shown (sort (map fst params)))"

definition jwk :: "(string \<Rightarrow> string) \<Rightarrow> string \<Rightarrow> string \<Rightarrow> pydict" where
  "jwk b64url kid public_bytes =
     [(''kty'', PStr ''OKP''), (''kid'', PStr kid), (''crv'', PStr ''Ed25519''),
      (''x'', PStr (b64url public_bytes)), (''use'', PStr ''sig''), (''alg'', PStr ''EdDSA'')]"

fun jwk_loop ::
  "(string \<Rightarrow> string) \<Rightarrow> ('k \<Rightarrow> string) \<Rightarrow> string list \<Rightarrow> 'k key_state
     \<Rightarrow> (py_error + pydict list) \<times> 'k key_state" where
  "jwk_loop b64url raw [] ks = (Inr [], ks)"
| "jwk_loop b64url raw (kid # kids) ks =
     (case get_verification_key (Some kid) ks of
        (Inl e, ks') \<Rightarrow> (Inl e, ks')
      | (Inr key, ks') \<Rightarrow>
          (case jwk_loop b64url raw kids ks' of
             (Inl e, ks'') \<Rightarrow> (Inl e, ks'')
           | (Inr keys, ks'') \<Rightarrow> (Inr (jwk b64url kid (raw key) # keys), ks'')))"

definition get_jwks ::
  "('k, 'n) token_service \<Rightarrow> ('k \<Rightarrow> string) \<Rightarrow> ('k, 'n) token_state
     \<Rightarrow> (py_error + pydict list) \<times> ('k, 'n) token_state" where
  "get_jwks sv raw st =
     (let (ks, ns) = st; (r, ks') = jwk_loop (ts_b64url sv) raw (get_key_ids ks) ks in (r, ks', ns))"

lemma jwk_loop_kids:
  "fst (jwk_loop b64url raw kids ks) = Inr keys \<Longrightarrow>
     map (\<lambda>k. map_of k ''kid'') keys = map (\<lambda>kid. Some (PStr kid)) kids"
proof (induction kids arbitrary: ks keys)
  case (Cons kid kids)
  obtain r ks' where key: "get_verification_key (Some kid) ks = (r, ks')" by (metis surj_pair)
  obtain r2 ks2 where rest: "jwk_loop b64url raw kids ks' = (r2, ks2)" by (metis surj_pair)
  show ?case using Cons.prems Cons.IH [of ks'] key rest
    by (cases r; cases r2) (auto simp: jwk_def)
qed simp

text \<open>The published document names exactly the keys the manager holds, the active key first.\<close>

theorem published_keys_are_held:
  assumes "get_jwks sv raw (ks, ns) = (Inr keys, st')"
  shows "map (\<lambda>k. map_of k ''kid'') keys = map (\<lambda>kid. Some (PStr kid)) (get_key_ids ks)"
  using assms jwk_loop_kids [of "ts_b64url sv" raw "get_key_ids ks" ks keys]
  by (auto simp: get_jwks_def split: prod.splits)

text \<open>
  The hash of a parameter set covers the names of the parameters only: replacing every value leaves
  it as it is, so a token bound to parameters by this hash is not bound to their values.
\<close>

theorem param_hash_ignores_values:
  "compute_param_hash sha shown (map (\<lambda>(k, v). (k, f k v)) params) = compute_param_hash sha shown params"
  by (simp add: compute_param_hash_def comp_def case_prod_beta)

section \<open>What a successful verification means\<close>

text \<open>Every expectation of the caller holds of the claims.\<close>

definition scope_met :: "(string \<Rightarrow> string) \<Rightarrow> expectations \<Rightarrow> token_claims \<Rightarrow> bool" where
  "scope_met sha ex c \<longleftrightarrow>
     ex_tenant_id ex \<in> {None, tc_tenant_id c} \<and> ex_audience ex \<in> {None, tc_aud c} \<and>
     ex_resource ex \<in> {None, tc_resource c} \<and>
     (ex_resource ex = None \<or> tc_resource_hash c = None \<or>
        tc_resource_hash c = map_option sha (ex_resource ex)) \<and>
     ex_action ex \<in> {None, tc_action c} \<and> ex_session_id ex \<in> {None, tc_session_id c} \<and>
     (ex_param_hash ex = None \<or> str_claim (tc_param_hash c) = str_claim (ex_param_hash ex))"

lemma check_claims_None:
  assumes "check_claims sv now ex c = None"
  shows "tc_type c = ''execution''" and "tc_jti c \<noteq> []" and "whole_seconds now \<le> tc_exp c"
    and "scope_met (ts_sha256 sv) ex c"
proof -
  have parts: "tc_type c = ''execution''" "tc_jti c \<noteq> []" "\<not> tc_exp c < whole_seconds now"
    "check_tenant_claim (ex_tenant_id ex) (tc_tenant_id c) = None"
    "check_scope_claims (ts_sha256 sv) ex c = None"
    using assms by (auto simp: check_claims_def split: if_splits option.splits)
  then show "tc_type c = ''execution''" "tc_jti c \<noteq> []" "whole_seconds now \<le> tc_exp c" by auto
  have "ex_tenant_id ex \<in> {None, tc_tenant_id c}"
    using parts(4) by (auto simp: check_tenant_claim_def split: if_splits option.splits)
  moreover have "ex_resource ex = None \<or> tc_resource_hash c = None \<or>
      tc_resource_hash c = map_option (ts_sha256 sv) (ex_resource ex)"
    using parts(5) by (auto simp: check_scope_claims_def split: if_splits option.splits)
  ultimately show "scope_met (ts_sha256 sv) ex c"
    using parts(5) unfolding scope_met_def check_scope_claims_def by (auto split: if_splits)
qed

lemma verify_cases:
  assumes "verify_internal sv b now token ex (ks, ns) = (res, ks', ns')"
  obtains (stopped) e where "res = Inl e" "ns' = ns"
    | (decided) kid key c where "ts_unverified_header sv token = Some kid"
        "fst (get_verification_key kid ks) = Inr key"
        "ts_decode sv key token (ts_clock_skew_seconds sv) now = Some c"
        "check_claims sv now ex c = None" "use_nonce sv b now c ns = (res, ns')"
proof (cases "ts_unverified_header sv token")
  case None
  then show ?thesis using assms by (auto simp: verify_internal_def intro: stopped)
next
  case (Some kid)
  obtain kr ks1 where key: "get_verification_key kid ks = (kr, ks1)" by (metis surj_pair)
  show ?thesis
  proof (cases kr)
    case (Inl e)
    then show ?thesis using assms Some key by (auto simp: verify_internal_def intro: stopped)
  next
    case (Inr k)
    show ?thesis
    proof (cases "ts_decode sv k token (ts_clock_skew_seconds sv) now")
      case None
      then show ?thesis using assms Some key Inr by (auto simp: verify_internal_def intro: stopped)
    next
      case dec: (Some c)
      show ?thesis
      proof (cases "check_claims sv now ex c")
        case None
        then have "use_nonce sv b now c ns = (res, ns')"
          using assms Some key Inr dec
          by (simp add: verify_internal_def Let_def case_prod_beta prod_eq_iff)
        then show ?thesis using decided [OF Some _ dec None] key Inr by simp
      next
        case (Some e)
        then show ?thesis
          using assms \<open>ts_unverified_header sv token = _\<close> key Inr dec
          by (auto simp: verify_internal_def intro: stopped)
      qed
    qed
  qed
qed

lemma verified_token:
  assumes "verify_execution_token sv now token ex (ks, ns) = (Inr c, st')"
  shows "\<exists>kid key. ts_unverified_header sv token = Some kid \<and>
      fst (get_verification_key kid ks) = Inr key \<and>
      ts_decode sv key token (ts_clock_skew_seconds sv) now = Some c \<and>
      tc_type c = ''execution'' \<and> tc_jti c \<noteq> [] \<and> whole_seconds now \<le> tc_exp c \<and>
      scope_met (ts_sha256 sv) ex c \<and>
      ts_consume sv now (tc_jti c) (nonce_ttl now c) ns = (True, snd st')"
proof -
  obtain ks' ns' where st': "st' = (ks', ns')" by (cases st')
  from assms st' have run: "verify_internal sv True now token ex (ks, ns) = (Inr c, ks', ns')"
    by (simp add: verify_execution_token_def)
  show ?thesis
  proof (rule verify_cases [OF run])
    fix kid key d
    assume *: "ts_unverified_header sv token = Some kid" "fst (get_verification_key kid ks) = Inr key"
      "ts_decode sv key token (ts_clock_skew_seconds sv) now = Some d" "check_claims sv now ex d = None"
      "use_nonce sv True now d ns = (Inr c, ns')"
    then have "d = c" "ts_consume sv now (tc_jti c) (nonce_ttl now c) ns = (True, ns')"
      by (auto simp: use_nonce_def split: prod.splits bool.splits)
    with * check_claims_None [OF *(4)] st' show ?thesis by auto
  qed simp
qed

text \<open>
  A token is accepted only if a key of the key manager verifies it, it is an execution token
  with an identifier, the clock has not passed its expiry second, every expectation of the caller
  holds of its claims, and the nonce store accepted its identifier in this very call.
\<close>

theorem verified_token_sound:
  assumes "verify_execution_token sv now token ex (ks, ns) = (Inr c, st')"
  shows "\<exists>kid key. ts_unverified_header sv token = Some kid \<and>
      fst (get_verification_key kid ks) = Inr key \<and>
      ts_decode sv key token (ts_clock_skew_seconds sv) now = Some c \<and>
      tc_type c = ''execution'' \<and> tc_jti c \<noteq> [] \<and> whole_seconds now \<le> tc_exp c \<and>
      scope_met (ts_sha256 sv) ex c \<and>
      ts_consume sv now (tc_jti c) (nonce_ttl now c) ns = (True, snd st')"
  using verified_token [OF assms] .

section \<open>A created token verifies\<close>

text \<open>
  What the libraries promise of a token the service built: its header is read back, and with the
  key that signed it the payload is decoded once \<open>nbf\<close> and \<open>iat\<close> are reached.
\<close>

definition jwt_laws :: "('k, 'n) token_service \<Rightarrow> bool" where
  "jwt_laws sv \<longleftrightarrow>
     (\<forall>kid key c. let token = compact_token sv kid c (ts_sign sv key (signing_input sv kid c))
        in ts_unverified_header sv token = Some (Some kid) \<and>
           (\<forall>leeway now. max (tc_nbf c) (tc_iat c) \<le> whole_seconds now + leeway \<longrightarrow>
              ts_decode sv key token leeway now = Some c))"

lemma check_claims_ok:
  assumes "tc_type c = ''execution''" and "tc_jti c \<noteq> []" and "whole_seconds now \<le> tc_exp c"
    and "Option.bind (tc_tenant_id c) validate_tenant_id = None" and "scope_met (ts_sha256 sv) ex c"
  shows "check_claims sv now ex c = None"
proof -
  have "check_tenant_claim (ex_tenant_id ex) (tc_tenant_id c) = None"
  proof (cases "tc_tenant_id c")
    case None
    then have "ex_tenant_id ex = None" using assms(5) by (simp add: scope_met_def)
    with None show ?thesis by (simp add: check_tenant_claim_def)
  next
    case (Some t)
    then have "validate_tenant_id t = None" "ex_tenant_id ex \<in> {None, Some t}"
      using assms(4,5) by (simp_all add: scope_met_def)
    moreover from this(1) have "\<not> blank t" by (simp add: validate_tenant_id_def split: if_splits)
    moreover from this have "t \<noteq> []" by (auto simp: blank_def)
    ultimately show ?thesis using Some by (auto simp: check_tenant_claim_def)
  qed
  moreover have "check_scope_claims (ts_sha256 sv) ex c = None"
  proof -
    have "\<not> (ex_audience ex \<noteq> None \<and> tc_aud c \<noteq> ex_audience ex)"
      "\<not> (ex_resource ex \<noteq> None \<and> tc_resource c \<noteq> ex_resource ex)"
      "\<not> (ex_action ex \<noteq> None \<and> tc_action c \<noteq> ex_action ex)"
      "\<not> (ex_session_id ex \<noteq> None \<and> tc_session_id c \<noteq> ex_session_id ex)"
      "\<not> (ex_param_hash ex \<noteq> None \<and> str_claim (tc_param_hash c) \<noteq> str_claim (ex_param_hash ex))"
      using assms(5) by (auto simp: scope_met_def)
    moreover have "\<not> (case (ex_resource ex, tc_resource_hash c) of
        (Some r, Some h) \<Rightarrow> h \<noteq> ts_sha256 sv r | _ \<Rightarrow> False)"
    proof -
      have "ex_resource ex = None \<or> tc_resource_hash c = None \<or>
          tc_resource_hash c = map_option (ts_sha256 sv) (ex_resource ex)"
        using assms(5) by (simp add: scope_met_def)
      then show ?thesis by (auto split: option.split)
    qed
    ultimately show ?thesis unfolding check_scope_claims_def by (simp only: if_False)
  qed
  ultimately show ?thesis using assms by (simp add: check_claims_def)
qed

lemma created_token:
  assumes "create_execution_token sv now jti r (ks, ns) = (Inr token, st')"
  obtains key where "fst (get_key (km_active_key_id (fst ks)) ks) = Inr key"
    and "Option.bind (tr_tenant_id r) validate_tenant_id = None"
    and "token = (let kid = km_active_key_id (fst ks); c = claims_of_request now jti r
           in compact_token sv kid c (ts_sign sv key (signing_input sv kid c)))"
proof -
  let ?kid = "km_active_key_id (fst ks)" and ?c = "claims_of_request now jti r"
  have none: "Option.bind (tr_tenant_id r) validate_tenant_id = None"
    using assms by (cases "Option.bind (tr_tenant_id r) validate_tenant_id")
      (simp_all add: create_execution_token_def)
  obtain kr ks1 where key: "get_key ?kid ks = (kr, ks1)" by (metis surj_pair)
  show ?thesis
  proof (cases kr)
    case (Inl e)
    with assms none key show ?thesis
      by (cases "?kid = []") (simp_all add: create_execution_token_def sign_with_def Let_def)
  next
    case (Inr k)
    with assms none key have "token = compact_token sv ?kid ?c (ts_sign sv k (signing_input sv ?kid ?c))"
      by (cases "?kid = []") (simp_all add: create_execution_token_def sign_with_def Let_def)
    with none key Inr that show ?thesis by (simp add: Let_def)
  qed
qed

text \<open>
  C30. A token that the service creates is accepted from its creation to the end of its last second,
  with the claims that were asked for, by any manager that still has the signing key, when what the
  caller expects was asked for and its nonce is still unused.
\<close>

theorem created_token_verifies:
  assumes "jwt_laws sv" and "create_execution_token sv now jti r (ks, ns) = (Inr token, st')"
    and "jti \<noteq> []" and "km_active_key_id (fst ks) \<noteq> []" and "0 \<le> ts_clock_skew_seconds sv"
    and "now \<le> later" and "whole_seconds later \<le> whole_seconds now + tr_ttl_seconds r"
    and "fst (get_verification_key (Some (km_active_key_id (fst ks))) ks2) =
      fst (get_verification_key (Some (km_active_key_id (fst ks))) ks)"
    and "scope_met (ts_sha256 sv) ex (claims_of_request now jti r)"
    and "fst (ts_consume sv later jti (nonce_ttl later (claims_of_request now jti r)) ns2)"
  shows "fst (verify_execution_token sv later token ex (ks2, ns2)) = Inr (claims_of_request now jti r)"
proof -
  let ?c = "claims_of_request now jti r" and ?kid = "km_active_key_id (fst ks)"
  obtain key where key: "fst (get_key ?kid ks) = Inr key"
    and tenant: "Option.bind (tr_tenant_id r) validate_tenant_id = None"
    and token: "token = compact_token sv ?kid ?c (ts_sign sv key (signing_input sv ?kid ?c))"
    using created_token [OF assms(2)] by (auto simp: Let_def)
  have header: "ts_unverified_header sv token = Some (Some ?kid)"
    using assms(1) by (simp add: jwt_laws_def Let_def token)
  have "max (tc_nbf ?c) (tc_iat ?c) \<le> whole_seconds later + ts_clock_skew_seconds sv"
    using assms(5) zdiv_mono1 [OF assms(6), of 1000000]
    by (simp add: claims_of_request_def whole_seconds_def)
  then have dec: "ts_decode sv key token (ts_clock_skew_seconds sv) later = Some ?c"
    using assms(1) by (simp add: jwt_laws_def Let_def token)
  have "check_claims sv later ex ?c = None"
    using assms(3,7,9) tenant by (intro check_claims_ok) (simp_all add: claims_of_request_def)
  moreover obtain ks3 where "get_verification_key (Some ?kid) ks2 = (Inr key, ks3)"
    using assms(8) key by (metis get_verification_key_def option.simps(5) prod.exhaust_sel)
  moreover have "tc_jti ?c = jti" by (simp add: claims_of_request_def)
  ultimately show ?thesis
    using assms(10)
    by (auto simp: verify_execution_token_def verify_internal_def header dec use_nonce_def
        split: prod.splits bool.splits)
qed

text \<open>A codec that keeps the promises.\<close>

fun str_of :: "pyval option \<Rightarrow> string option" where
  "str_of (Some (PStr s)) = Some s"
| "str_of _ = None"

fun int_of :: "pyval option \<Rightarrow> int" where
  "int_of (Some (PInt i)) = i"
| "int_of _ = 0"

fun claims_of :: "pyval \<Rightarrow> token_claims" where
  "claims_of v =
     (let d = (case v of PDict d \<Rightarrow> d | _ \<Rightarrow> []); s = (\<lambda>k. the (str_of (map_of d k)))
      in \<lparr>tc_sub = s ''sub'', tc_agent_id = s ''agent_id'', tc_type = s ''type'', tc_tool = s ''tool'',
          tc_iat = int_of (map_of d ''iat''), tc_nbf = int_of (map_of d ''nbf''),
          tc_exp = int_of (map_of d ''exp''), tc_jti = s ''jti'',
          tc_tenant_id = str_of (map_of d ''tenant_id''), tc_aud = str_of (map_of d ''aud''),
          tc_resource = str_of (map_of d ''resource''), tc_action = str_of (map_of d ''action''),
          tc_session_id = str_of (map_of d ''session_id''),
          tc_param_hash = str_of (map_of d ''param_hash''),
          tc_resource_hash = str_of (map_of d ''resource_hash'')\<rparr>)"

lemma opt_claims_get:
  "distinct (map fst kvs) \<Longrightarrow>
     str_of (map_of (opt_claims kvs) k) = (case map_of kvs k of None \<Rightarrow> None | Some v \<Rightarrow> v)"
proof (induction kvs)
  case (Cons kv kvs)
  obtain k' v where kv: "kv = (k', v)" by (cases kv)
  have "map_of kvs k' = None" using Cons.prems kv by (simp add: map_of_eq_None_iff)
  with Cons kv show ?case by (cases v) (auto simp: opt_claims_def)
qed (simp add: opt_claims_def)

lemma claims_of_payload: "claims_of (PDict (claims_payload c)) = c"
  by (simp add: claims_payload_def Let_def map_add_def opt_claims_get)

definition sample_token_service :: "(string, memory_nonces \<times> unit) token_service" where
  "sample_token_service =
     \<lparr>ts_dumps = (\<lambda>v. replicate (to_nat v) (CHR ''x'')), ts_b64url = id, ts_sign = (\<lambda>key _. key),
      ts_unverified_header = (\<lambda>t. case from_nat (length (takeWhile (\<lambda>ch. ch \<noteq> CHR ''.'') t)) of
         PDict d \<Rightarrow> Some (str_of (map_of d ''kid'')) | _ \<Rightarrow> None),
      ts_decode = (\<lambda>key t leeway now.
         Some (claims_of (from_nat (length (takeWhile (\<lambda>ch. ch \<noteq> CHR ''.'')
           (tl (dropWhile (\<lambda>ch. ch \<noteq> CHR ''.'') t))))))),
      ts_sha256 = id, ts_consume = composite_consume None, ts_is_consumed = composite_is_consumed None,
      ts_clock_skew_seconds = 30\<rparr>"

lemma segments [simp]:
  "takeWhile (\<lambda>ch. ch \<noteq> CHR ''.'') (replicate n (CHR ''x'') @ CHR ''.'' # t) = replicate n (CHR ''x'')"
  "dropWhile (\<lambda>ch. ch \<noteq> CHR ''.'') (replicate n (CHR ''x'') @ CHR ''.'' # t) = CHR ''.'' # t"
  by (simp_all add: takeWhile_append dropWhile_append)

lemma sample_jwt_laws: "jwt_laws sample_token_service"
  by (simp add: jwt_laws_def Let_def compact_token_def signing_input_def sample_token_service_def
      token_header_def claims_of_payload del: claims_of.simps)

definition sample_token_request :: token_request where
  "sample_token_request =
     \<lparr>tr_agent_id = ''agent-1'', tr_tool = ''deploy'', tr_ttl_seconds = 30, tr_subject = Some ''user-1'',
      tr_tenant_id = Some ''t1'', tr_audience = None, tr_resource = Some ''db'', tr_action = None,
      tr_session_id = None, tr_param_hash = None, tr_resource_hash = Some ''db''\<rparr>"

definition sample_keys :: "string key_state" where
  "sample_keys = load_or_initialize ''key-1'' ''secret'' None"

definition no_expectations :: expectations where
  "no_expectations =
     \<lparr>ex_tenant_id = None, ex_audience = None, ex_resource = None, ex_action = None,
      ex_session_id = None, ex_param_hash = None\<rparr>"

theorem created_token_verifies_witness:
  "\<exists>token st'. create_execution_token sample_token_service 500000 ''jti-1'' sample_token_request
       (sample_keys, new_memory_nonces 10, ()) = (Inr token, st') \<and>
     fst (verify_execution_token sample_token_service 30900000 token
        (no_expectations\<lparr>ex_tenant_id := Some ''t1'', ex_resource := Some ''db''\<rparr>)
        (sample_keys, new_memory_nonces 10, ())) =
       Inr (claims_of_request 500000 ''jti-1'' sample_token_request)"
proof -
  have "\<exists>token st'. create_execution_token sample_token_service 500000 ''jti-1'' sample_token_request
       (sample_keys, new_memory_nonces 10, ()) = (Inr token, st')"
    by (simp add: create_execution_token_def sample_token_request_def validate_tenant_id_def blank_def
        py_space_def sample_keys_def load_or_initialize_def initialize_new_key_def save_metadata_def
        sign_with_def get_key_def Let_def)
  then obtain token st' where t: "create_execution_token sample_token_service 500000 ''jti-1''
      sample_token_request (sample_keys, new_memory_nonces 10, ()) = (Inr token, st')" by blast
  have ok: "fst (ts_consume sample_token_service 30900000 ''jti-1''
      (nonce_ttl 30900000 (claims_of_request 500000 ''jti-1'' sample_token_request))
      (new_memory_nonces 10, ()))"
    by (simp add: sample_token_service_def composite_consume_eq l2_consume_def memory_is_consumed_def
        evict_expired_def new_memory_nonces_def)
  have facts: "''jti-1'' \<noteq> []" "km_active_key_id (fst sample_keys) \<noteq> []"
    "0 \<le> ts_clock_skew_seconds sample_token_service" "(500000::int) \<le> 30900000"
    "whole_seconds 30900000 \<le> whole_seconds 500000 + tr_ttl_seconds sample_token_request"
    "scope_met (ts_sha256 sample_token_service)
       (no_expectations\<lparr>ex_tenant_id := Some ''t1'', ex_resource := Some ''db''\<rparr>)
       (claims_of_request 500000 ''jti-1'' sample_token_request)"
    by (simp_all add: sample_keys_def load_or_initialize_def initialize_new_key_def save_metadata_def
        sample_token_service_def whole_seconds_def sample_token_request_def scope_met_def
        no_expectations_def claims_of_request_def)
  show ?thesis
    using t created_token_verifies [OF sample_jwt_laws t facts(1-5) refl facts(6) ok] by blast
qed

section \<open>Tokens are used once before they expire\<close>

text \<open>
  Several processes run the service, each with its key manager; they share the nonce cluster. A call
  names its process.
\<close>

definition process_service ::
  "('k, 's nonce_cluster) token_service \<Rightarrow> 's redis_client \<Rightarrow> nat \<Rightarrow> ('k, 's nonce_cluster) token_service" where
  "process_service sv c p =
     sv\<lparr>ts_consume := cluster_consume c p, ts_is_consumed := cluster_is_consumed c p\<rparr>"

text \<open>\<open>TokenCall consume p now token ex\<close>: process \<open>p\<close> verifies the token, or only peeks at it.\<close>

datatype token_call = TokenCall bool nat datetime string expectations

fun token_step ::
  "('k, 's nonce_cluster) token_service \<Rightarrow> 's redis_client \<Rightarrow> token_call
     \<Rightarrow> (nat \<Rightarrow> 'k key_state) \<times> 's nonce_cluster \<Rightarrow> (nat \<Rightarrow> 'k key_state) \<times> 's nonce_cluster" where
  "token_step sv c (TokenCall b p now token ex) (kss, ns) =
     (let (r, ks, ns') = verify_internal (process_service sv c p) b now token ex (kss p, ns)
      in (kss(p := ks), ns'))"

lemma token_step_nonces: "\<exists>es. snd (token_step sv c tc st) = fold (cluster_step c) es (snd st)"
proof -
  obtain b p now token ex where tc: "tc = TokenCall b p now token ex" by (cases tc)
  obtain kss ns where st: "st = (kss, ns)" by (cases st)
  obtain r ks ns' where run: "verify_internal (process_service sv c p) b now token ex (kss p, ns) = (r, ks, ns')"
    by (metis surj_pair)
  have "\<exists>es. ns' = fold (cluster_step c) es ns"
  proof (rule verify_cases [OF run])
    fix e assume "ns' = ns"
    then have "ns' = fold (cluster_step c) [] ns" by simp
    then show ?thesis by blast
  next
    fix kid key d
    assume "use_nonce (process_service sv c p) b now d ns = (r, ns')"
    then have "ns' = fold (cluster_step c) [(p, if b then Consume now (tc_jti d) (nonce_ttl now d)
        else Lookup now (tc_jti d))] ns"
      by (auto simp: use_nonce_def process_service_def split: prod.splits bool.splits if_splits)
    then show ?thesis by blast
  qed
  then show ?thesis by (simp add: tc st run)
qed

lemma token_run_nonces: "\<exists>es. snd (fold (token_step sv c) calls st) = fold (cluster_step c) es (snd st)"
proof (induction calls arbitrary: st)
  case Nil
  have "snd (fold (token_step sv c) [] st) = fold (cluster_step c) [] (snd st)" by simp
  then show ?case by blast
next
  case (Cons tc calls)
  from token_step_nonces [of sv c tc st] Cons.IH [of "token_step sv c tc st"]
  show ?case by (metis fold_append comp_apply fold_simps(2))
qed

lemma nonce_lives_to_expiry: "seconds (tc_exp cl) \<le> now + seconds (nonce_ttl now cl)"
proof -
  have "tc_exp cl - whole_seconds now \<le> nonce_ttl now cl"
    by (simp add: nonce_ttl_def)
  moreover have "whole_seconds now * 1000000 \<le> now"
    by (simp add: whole_seconds_def)
  ultimately show ?thesis unfolding seconds_def by linarith
qed

text \<open>
  C7. A token is used once before it expires: after some process accepted a token, and whatever the
  processes verify or peek at afterwards, a token with the same identifier is accepted again, by any
  process, only when the clock has reached its expiry second, provided Redis keeps the promises of
  its commands. Redis may fail at any time.
\<close>

theorem token_used_once:
  assumes "redis_laws (rd_driver c) live"
    and "verify_execution_token (process_service sv c p) now token ex (kss p, ns) = (Inr cl, ks1, ns1)"
    and "fold (token_step sv c) calls (kss(p := ks1), ns1) = (kss2, ns2)"
    and "verify_execution_token (process_service sv c q) later token' ex' (kss2 q, ns2) = (Inr cl', st3)"
    and "tc_jti cl' = tc_jti cl"
  shows "tc_exp cl \<le> whole_seconds later"
proof -
  from token_run_nonces [of sv c calls "(kss(p := ks1), ns1)"] assms(3)
  obtain es where es: "ns2 = fold (cluster_step c) es ns1" by auto
  have first: "cluster_consume c p now (tc_jti cl) (nonce_ttl now cl) ns = (True, ns1)"
    using verified_token [OF assms(2)] by (auto simp: process_service_def)
  have "fst (cluster_consume c q later (tc_jti cl) (nonce_ttl later cl') ns2)"
    using verified_token [OF assms(4)] assms(5) by (auto simp: process_service_def)
  then have "\<not> later < now + seconds (nonce_ttl now cl)"
    using nonce_consumed_once [OF assms(1) first, of later q "nonce_ttl later cl'" es] es by blast
  then have "seconds (tc_exp cl) \<le> later"
    using nonce_lives_to_expiry [of cl now] by linarith
  then show ?thesis
    using zdiv_mono1 [of "seconds (tc_exp cl)" later 1000000]
    by (simp add: seconds_def whole_seconds_def)
qed

text \<open>
  A service that decodes every text as one token, issued at 0 for thirty seconds, over a cluster
  with a working Redis.
\<close>

definition one_token_claims :: token_claims where
  "one_token_claims = claims_of_request 0 ''jti-1'' sample_token_request"

definition one_token_service :: "(string, (string \<rightharpoonup> string \<times> datetime) nonce_cluster) token_service" where
  "one_token_service =
     \<lparr>ts_dumps = (\<lambda>_. []), ts_b64url = id, ts_sign = (\<lambda>key _. key),
      ts_unverified_header = (\<lambda>_. Some (Some ''key-1'')),
      ts_decode = (\<lambda>_ _ _ _. Some one_token_claims), ts_sha256 = id,
      ts_consume = cluster_consume sample_client 0, ts_is_consumed = cluster_is_consumed sample_client 0,
      ts_clock_skew_seconds = 30\<rparr>"

definition first_use where
  "first_use = verify_execution_token (process_service one_token_service sample_client 0) (seconds 10)
     ''token'' no_expectations (sample_keys, sample_cluster)"

definition second_use where
  "second_use = verify_execution_token (process_service one_token_service sample_client 1) (seconds 30)
     ''token'' no_expectations (sample_keys, snd (snd first_use))"

lemma replay_run: "fst first_use = Inr one_token_claims" "fst second_use = Inr one_token_claims"
  by code_simp+

theorem verified_token_sound_witness:
  "fst first_use = Inr one_token_claims \<and> tc_type one_token_claims = ''execution'' \<and>
   whole_seconds (seconds 10) \<le> tc_exp one_token_claims"
proof -
  have "verify_execution_token (process_service one_token_service sample_client 0) (seconds 10) ''token''
      no_expectations (sample_keys, sample_cluster) = (Inr one_token_claims, snd first_use)"
    using replay_run(1) by (simp add: first_use_def prod_eq_iff)
  from verified_token_sound [OF this] replay_run(1) show ?thesis by blast
qed

theorem token_used_once_witness:
  "fst first_use = Inr one_token_claims \<and> fst second_use = Inr one_token_claims \<and>
   tc_exp one_token_claims \<le> whole_seconds (seconds 30)"
proof -
  let ?kss = "\<lambda>_::nat. sample_keys"
  have laws: "redis_laws (rd_driver sample_client) sample_live" by (simp add: sample_driver_laws)
  have one: "verify_execution_token (process_service one_token_service sample_client 0) (seconds 10)
      ''token'' no_expectations (?kss 0, sample_cluster) =
      (Inr one_token_claims, fst (snd first_use), snd (snd first_use))"
    using replay_run(1) by (simp add: first_use_def prod_eq_iff)
  have run: "fold (token_step one_token_service sample_client) []
      (?kss(0 := fst (snd first_use)), snd (snd first_use)) =
      (?kss(0 := fst (snd first_use)), snd (snd first_use))" by simp
  have two: "verify_execution_token (process_service one_token_service sample_client 1) (seconds 30)
      ''token'' no_expectations ((?kss(0 := fst (snd first_use))) 1, snd (snd first_use)) =
      (Inr one_token_claims, snd second_use)"
    using replay_run(2) by (simp add: second_use_def prod_eq_iff)
  from token_used_once [OF laws one run two refl] replay_run show ?thesis by blast
qed

text \<open>
  The bound is sharp: in its expiry second a token is still accepted, but its nonce, stored for the
  time to that second, has just expired, in the memory of the process and on the server. The token
  of the run is accepted at 10 s, refused at 29 s and accepted again at 30 s.
\<close>

theorem token_replayed_in_expiry_second:
  "let again = (\<lambda>now. verify_execution_token (process_service one_token_service sample_client 0) now
          ''token'' no_expectations (snd first_use))
   in fst first_use = Inr one_token_claims \<and>
      fst (again (seconds 29)) = Inl (ExecutionTokenError ''Token has already been used.'') \<and>
      fst (again (seconds 30)) = Inr one_token_claims"
  by code_simp

end
