(* ===== verification/Agent_Registry.thy ===== *)
theory Agent_Registry
  imports Authority
begin

text \<open>
  Registered agents and the table of execution tokens: the entities \<open>app/domain/entities/agent.py\<close>
  and \<open>execution_token.py\<close>, their SQL repositories \<open>sqlalchemy_agent_repository.py\<close> and
  \<open>sqlalchemy_execution_token_repository.py\<close>, and \<open>TokenRevocationService\<close>
  (\<open>app/domain/services/token_revocation_service.py\<close>).

  Lists and dictionaries survive their JSON encoding. The clock is an argument. Queries that the
  service wraps in \<open>except Exception\<close> do not fail in the model.

  Shown: what the revocation by agent and by tenant leaves active, that a revoked token stays
  revoked, and that the revocation check never finds a revoked token of an ordinary agent.
\<close>

section \<open>Agents\<close>

datatype agent_type = AT_USER_AGENT | AT_SERVICE_AGENT | AT_SUB_AGENT | AT_TOOL_AGENT | AT_UNKNOWN

datatype trust_level = TL_VERIFIED | TL_UNVERIFIED | TL_UNKNOWN | TL_DISCOVERED

datatype registration_method = RM_MANUAL | RM_API | RM_AUTO_DISCOVERED | RM_AGENT_CREATED | RM_SSO_PROVISIONED

datatype agent_environment = AE_PRODUCTION | AE_STAGING | AE_DEVELOPMENT | AE_TEST | AE_UNKNOWN

record registered_agent = agent +
  agt_name :: string
  agt_description :: string
  agt_owner_user_id :: "string option"
  agt_parent_agent_id :: "string option"
  agt_agent_type :: agent_type
  agt_trust_level :: trust_level
  agt_model_provider :: "string option"
  agt_model_name :: "string option"
  agt_environment :: agent_environment
  agt_version :: string
  agt_creator :: "string option"
  agt_registration_method :: registration_method
  agt_root_human_sponsor :: "string option"
  agt_expires_at :: "stamp option"
  agt_last_activity_at :: "stamp option"
  agt_connected_tools :: "string list"
  agt_metadata :: "(string, string) dict"
  agt_created_at :: datetime
  agt_updated_at :: datetime

type_synonym agent_table = "registered_agent list"

definition list_agents ::
  "string \<Rightarrow> agent_status option \<Rightarrow> agent_type option \<Rightarrow> nat \<Rightarrow> nat \<Rightarrow> agent_table
     \<Rightarrow> registered_agent list \<times> nat" where
  "list_agents tenant_id status agent_type limit offset rows =
     (let found = sql_select (\<lambda>a. agt_tenant_id a = tenant_id \<and>
            (case status of None \<Rightarrow> True | Some st \<Rightarrow> agt_status a = st) \<and>
            (case agent_type of None \<Rightarrow> True | Some ty \<Rightarrow> agt_agent_type a = ty)) rows
      in (take limit (drop offset (sort_key (\<lambda>a. - agt_created_at a) found)), length found))"

text \<open>An update keeps the identifier, the tenant and the creation time of the stored row.\<close>

definition overwrite_agent :: "datetime \<Rightarrow> registered_agent \<Rightarrow> registered_agent \<Rightarrow> registered_agent" where
  "overwrite_agent now a model =
     a\<lparr>agt_agent_id := agt_agent_id model, agt_tenant_id := agt_tenant_id model,
       agt_created_at := agt_created_at model, agt_updated_at := now\<rparr>"

definition save_agent :: "datetime \<Rightarrow> registered_agent \<Rightarrow> agent_table \<Rightarrow> registered_agent \<times> agent_table" where
  "save_agent now a rows =
     (case sql_first (sql_select (\<lambda>r. agt_agent_id r = agt_agent_id a) rows) of
        None \<Rightarrow> (a, rows @ [a])
      | Some model \<Rightarrow>
          (overwrite_agent now a model,
           sql_update (\<lambda>r. agt_agent_id r = agt_agent_id a) (overwrite_agent now a) rows))"

definition delete_agent :: "string \<Rightarrow> string \<Rightarrow> agent_table \<Rightarrow> bool \<times> agent_table" where
  "delete_agent tenant_id agent_id rows =
     (if get_by_agent_id tenant_id agent_id rows = None then (False, rows)
      else (True, filter (\<lambda>a. \<not> (agt_tenant_id a = tenant_id \<and> agt_agent_id a = agent_id)) rows))"

definition update_agent_status ::
  "datetime \<Rightarrow> string \<Rightarrow> string \<Rightarrow> agent_status \<Rightarrow> agent_table \<Rightarrow> registered_agent option \<times> agent_table" where
  "update_agent_status now tenant_id agent_id status rows =
     (let set_status = (\<lambda>a. a\<lparr>agt_status := status, agt_updated_at := now\<rparr>)
      in case get_by_agent_id tenant_id agent_id rows of
           None \<Rightarrow> (None, rows)
         | Some a \<Rightarrow>
             (Some (set_status a),
              sql_update (\<lambda>a. agt_tenant_id a = tenant_id \<and> agt_agent_id a = agent_id) set_status rows))"

definition agent_exists :: "string \<Rightarrow> string \<Rightarrow> agent_table \<Rightarrow> bool" where
  "agent_exists tenant_id agent_id rows =
     (length (sql_select (\<lambda>a. agt_tenant_id a = tenant_id \<and> agt_agent_id a = agent_id) rows) > 0)"

section \<open>Execution tokens\<close>

datatype token_status = TK_ACTIVE | TK_REVOKED | TK_CONSUMED | TK_EXPIRED

text \<open>The table has no column for the grant of a token; the entity has the field.\<close>

record token_row =
  tk_token_id :: string
  tk_tenant_id :: string
  tk_jti :: string
  tk_agent_id :: string
  tk_tool :: string
  tk_status :: token_status
  tk_issued_at :: datetime
  tk_expires_at :: "datetime option"
  tk_consumed_at :: "datetime option"
  tk_revoked_at :: "datetime option"

record execution_token = token_row +
  tk_authority_grant_id :: "string option"

type_synonym token_table = "token_row list"

definition token_to_entity :: "token_row \<Rightarrow> execution_token" where
  "token_to_entity m = token_row.extend m (execution_token.fields None)"

lemma token_entity_simps [simp]:
  "tk_token_id (token_to_entity m) = tk_token_id m"
  "tk_status (token_to_entity m) = tk_status m"
  by (simp_all add: token_to_entity_def token_row.defs execution_token.defs)

definition get_by_jti :: "string \<Rightarrow> string \<Rightarrow> token_table \<Rightarrow> execution_token option" where
  "get_by_jti tenant_id jti rows =
     map_option token_to_entity
       (sql_first (sql_select (\<lambda>m. tk_tenant_id m = tenant_id \<and> tk_jti m = jti) rows))"

definition newest_tokens :: "nat \<Rightarrow> nat \<Rightarrow> token_row list \<Rightarrow> execution_token list \<times> nat" where
  "newest_tokens limit offset found =
     (map token_to_entity (take limit (drop offset (sort_key (\<lambda>m. - tk_issued_at m) found))), length found)"

definition list_tokens_by_agent ::
  "string \<Rightarrow> string \<Rightarrow> token_status option \<Rightarrow> nat \<Rightarrow> nat \<Rightarrow> token_table \<Rightarrow> execution_token list \<times> nat" where
  "list_tokens_by_agent tenant_id agent_id status limit offset rows =
     newest_tokens limit offset
       (sql_select (\<lambda>m. tk_tenant_id m = tenant_id \<and> tk_agent_id m = agent_id \<and>
          (case status of None \<Rightarrow> True | Some st \<Rightarrow> tk_status m = st)) rows)"

definition list_tokens_by_tenant ::
  "string \<Rightarrow> token_status option \<Rightarrow> nat \<Rightarrow> nat \<Rightarrow> token_table \<Rightarrow> execution_token list \<times> nat" where
  "list_tokens_by_tenant tenant_id status limit offset rows =
     newest_tokens limit offset
       (sql_select (\<lambda>m. tk_tenant_id m = tenant_id \<and>
          (case status of None \<Rightarrow> True | Some st \<Rightarrow> tk_status m = st)) rows)"

text \<open>Both \<open>token_id\<close> and \<open>jti\<close> are unique columns.\<close>

definition save_token ::
  "execution_token \<Rightarrow> token_table \<Rightarrow> (py_error + execution_token) \<times> token_table" where
  "save_token token rows =
     (case sql_first (sql_select (\<lambda>m. tk_token_id m = tk_token_id token) rows) of
        None \<Rightarrow>
          (case sql_insert tk_jti (token_row.truncate token) rows of
             None \<Rightarrow> (Inl IntegrityError, rows)
           | Some rows' \<Rightarrow> (Inr (token_to_entity (token_row.truncate token)), rows'))
      | Some model \<Rightarrow>
          (let f = (\<lambda>m. m\<lparr>tk_status := tk_status token, tk_consumed_at := tk_consumed_at token,
                         tk_revoked_at := tk_revoked_at token\<rparr>)
           in (Inr (token_to_entity (f model)),
               sql_update (\<lambda>m. tk_token_id m = tk_token_id token) f rows)))"

text \<open>\<open>revoked_at\<close> is not passed by any caller.\<close>

definition revoke_token_row ::
  "datetime \<Rightarrow> string \<Rightarrow> string \<Rightarrow> token_table \<Rightarrow> execution_token option \<times> token_table" where
  "revoke_token_row now tenant_id token_id rows =
     (let here = (\<lambda>m. tk_tenant_id m = tenant_id \<and> tk_token_id m = token_id);
          f = (\<lambda>m. m\<lparr>tk_status := TK_REVOKED, tk_revoked_at := Some now\<rparr>)
      in case sql_first (sql_select here rows) of
           None \<Rightarrow> (None, rows)
         | Some model \<Rightarrow> (Some (token_to_entity (f model)), sql_update here f rows))"

section \<open>The revocation service\<close>

text \<open>\<open>for token in tokens: revoke, and note the identifier when a row was found\<close>\<close>

fun revoke_each ::
  "datetime \<Rightarrow> string \<Rightarrow> execution_token list \<Rightarrow> token_table \<Rightarrow> string list \<times> token_table" where
  "revoke_each now tenant_id [] rows = ([], rows)"
| "revoke_each now tenant_id (t # ts) rows =
     (let (found, rows1) = revoke_token_row now tenant_id (tk_token_id t) rows;
          (ids, rows2) = revoke_each now tenant_id ts rows1
      in (if found = None then ids else tk_token_id t # ids, rows2))"

text \<open>The tokens of the agent whose identifier is the token's identifier.\<close>

definition cascade_revoke ::
  "datetime \<Rightarrow> string \<Rightarrow> string \<Rightarrow> token_table \<Rightarrow> string list \<times> token_table" where
  "cascade_revoke now tenant_id token_id rows =
     revoke_each now tenant_id
       (filter (\<lambda>t. tk_status t = TK_ACTIVE)
          (fst (list_tokens_by_agent tenant_id token_id None 1000 0 rows))) rows"

text \<open>The identifiers of the answer; the other fields repeat the arguments.\<close>

definition revoke_token ::
  "datetime \<Rightarrow> string \<Rightarrow> string \<Rightarrow> bool \<Rightarrow> token_table \<Rightarrow> string list \<times> token_table" where
  "revoke_token now tenant_id token_id cascade rows =
     (let (found, rows1) = revoke_token_row now tenant_id token_id rows;
          ids = (if found = None then [] else [token_id])
      in if cascade
         then (let (more_ids, rows2) = cascade_revoke now tenant_id token_id rows1 in (ids @ more_ids, rows2))
         else (ids, rows1))"

definition revoke_tokens_by_agent ::
  "datetime \<Rightarrow> string \<Rightarrow> string \<Rightarrow> token_table \<Rightarrow> string list \<times> token_table" where
  "revoke_tokens_by_agent now tenant_id agent_id rows =
     revoke_each now tenant_id
       (fst (list_tokens_by_agent tenant_id agent_id (Some TK_ACTIVE) 1000 0 rows)) rows"

definition revoke_tokens_by_tenant ::
  "datetime \<Rightarrow> string \<Rightarrow> token_table \<Rightarrow> string list \<times> token_table" where
  "revoke_tokens_by_tenant now tenant_id rows =
     revoke_each now tenant_id
       (filter (\<lambda>t. tk_status t = TK_ACTIVE)
          (fst (list_tokens_by_tenant tenant_id None 1000 0 rows))) rows"

text \<open>The listing is by agent, with the token's identifier as the agent's.\<close>

definition is_revoked :: "string \<Rightarrow> string \<Rightarrow> token_table \<Rightarrow> bool" where
  "is_revoked tenant_id token_id rows =
     list_ex (\<lambda>t. tk_token_id t = token_id \<and> tk_status t = TK_REVOKED)
       (fst (list_tokens_by_agent tenant_id token_id None 1 0 rows))"

definition get_revocation_log :: "string \<Rightarrow> nat \<Rightarrow> nat \<Rightarrow> token_table \<Rightarrow> execution_token list" where
  "get_revocation_log tenant_id limit offset rows =
     filter (\<lambda>t. tk_status t = TK_REVOKED) (fst (list_tokens_by_tenant tenant_id None limit offset rows))"

section \<open>What revocation does\<close>

abbreviation revoked_row :: "datetime \<Rightarrow> token_row \<Rightarrow> token_row" where
  "revoked_row now m \<equiv> m\<lparr>tk_status := TK_REVOKED, tk_revoked_at := Some now\<rparr>"

text \<open>Revoking a list of tokens is one update of their rows.\<close>

lemma revoke_row_update:
  "snd (revoke_token_row now t i rows) =
     sql_update (\<lambda>m. tk_tenant_id m = t \<and> tk_token_id m = i) (revoked_row now) rows"
  by (auto simp: revoke_token_row_def Let_def sql_select_def sql_update_id sql_first_None
      split: option.split)

lemma revoke_each_update:
  "snd (revoke_each now t ts rows) =
     sql_update (\<lambda>m. tk_tenant_id m = t \<and> tk_token_id m \<in> tk_token_id ` set ts) (revoked_row now) rows"
proof (induction ts arbitrary: rows)
  case Nil
  then show ?case by (simp add: sql_update_id)
next
  case (Cons u us)
  have "snd (revoke_each now t (u # us) rows) = snd (revoke_each now t us (snd (revoke_token_row now t (tk_token_id u) rows)))"
    by (simp add: case_prod_beta)
  also have "\<dots> = sql_update (\<lambda>m. tk_tenant_id m = t \<and> tk_token_id m \<in> tk_token_id ` set (u # us)) (revoked_row now) rows"
    unfolding Cons.IH revoke_row_update by (auto simp: sql_update_def)
  finally show ?case .
qed

lemma active_after_update:
  "{m \<in> set (sql_update w (revoked_row now) rows). P m \<and> tk_status m = TK_ACTIVE} =
     {m \<in> set rows. P m \<and> tk_status m = TK_ACTIVE \<and> \<not> w m}"
  by (auto simp: sql_update_def)

text \<open>With unique identifiers the rows named by a part of a listing are that part.\<close>

lemma named_rows:
  assumes "pk tk_token_id rows" and "set found \<subseteq> set rows" and "m \<in> set rows"
  shows "tk_token_id m \<in> tk_token_id ` set found \<longleftrightarrow> m \<in> set found"
proof -
  have "inj_on tk_token_id (set rows)" using assms(1) by (simp add: pk_def distinct_map)
  then show ?thesis using assms(2,3) by (simp add: inj_on_image_mem_iff)
qed

lemma update_leaves:
  "(\<And>m. m \<in> set rows \<Longrightarrow> w m \<Longrightarrow> P m \<and> P (f m)) \<Longrightarrow>
     filter (\<lambda>m. \<not> P m) (sql_update w f rows) = filter (\<lambda>m. \<not> P m) rows"
  by (induction rows) (auto simp: sql_update_def)

lemma entity_ids: "tk_token_id ` set (map token_to_entity xs) = tk_token_id ` set xs"
  by (force simp: image_iff)

lemma set_drop_rest: "distinct xs \<Longrightarrow> m \<in> set xs \<Longrightarrow> m \<notin> set (take n xs) \<longleftrightarrow> m \<in> set (drop n xs)"
  using set_take_disj_set_drop_if_distinct [of xs n n] append_take_drop_id [of n xs]
  by (metis Un_iff disjoint_iff order_refl set_append)

abbreviation newest_first :: "token_row list \<Rightarrow> token_row list" where
  "newest_first \<equiv> sort_key (\<lambda>m. - tk_issued_at m)"

lemma pk_rows_distinct: "pk tk_token_id rows \<Longrightarrow> distinct rows"
  by (simp add: pk_def distinct_map)

text \<open>
  Revoking the tokens of an agent leaves active exactly its active tokens beyond the thousand
  newest ones; with at most a thousand active tokens none stays active. Tokens of other agents and
  tenants keep their status.
\<close>

theorem agent_tokens_after_revocation:
  assumes "pk tk_token_id rows"
  shows "let mine = (\<lambda>m. tk_tenant_id m = t \<and> tk_agent_id m = a);
      active = filter (\<lambda>m. mine m \<and> tk_status m = TK_ACTIVE) rows;
      rows' = snd (revoke_tokens_by_agent now t a rows)
    in {m \<in> set rows'. mine m \<and> tk_status m = TK_ACTIVE} = set (drop 1000 (newest_first active)) \<and>
       filter (\<lambda>m. \<not> mine m) rows' = filter (\<lambda>m. \<not> mine m) rows"
proof -
  define mine where "mine = (\<lambda>m :: token_row. tk_tenant_id m = t \<and> tk_agent_id m = a)"
  define active where "active = filter (\<lambda>m. mine m \<and> tk_status m = TK_ACTIVE) rows"
  define page where "page = take 1000 (newest_first active)"
  define hit where "hit = (\<lambda>m :: token_row. tk_tenant_id m = t \<and> tk_token_id m \<in> tk_token_id ` set page)"
  have listed: "fst (list_tokens_by_agent t a (Some TK_ACTIVE) 1000 0 rows) = map token_to_entity page"
    by (simp add: list_tokens_by_agent_def newest_tokens_def sql_select_def page_def active_def mine_def)
  have rows': "snd (revoke_tokens_by_agent now t a rows) = sql_update hit (revoked_row now) rows"
    unfolding revoke_tokens_by_agent_def revoke_each_update listed entity_ids hit_def ..
  have sub: "set page \<subseteq> set rows"
    using set_take_subset [of 1000 "newest_first active"] by (auto simp: page_def active_def)
  have hit_page: "hit m \<longleftrightarrow> m \<in> set page" if "m \<in> set rows" for m
    using named_rows [OF assms sub that] set_take_subset [of 1000 "newest_first active"]
    by (auto simp: hit_def page_def active_def mine_def)
  have dist: "distinct (newest_first active)"
    using pk_rows_distinct [OF assms] by (simp add: active_def)
  have "{m \<in> set rows. mine m \<and> tk_status m = TK_ACTIVE \<and> \<not> hit m} = set (drop 1000 (newest_first active))"
    using set_drop_rest [OF dist, of _ 1000] set_drop_subset [of 1000 "newest_first active"] hit_page
    by (auto simp: active_def page_def)
  moreover have "filter (\<lambda>m. \<not> mine m) (sql_update hit (revoked_row now) rows) = filter (\<lambda>m. \<not> mine m) rows"
    using hit_page set_take_subset [of 1000 "newest_first active"]
    by (intro update_leaves) (auto simp: page_def active_def mine_def)
  ultimately show ?thesis
    unfolding Let_def rows' active_after_update by (simp add: mine_def active_def)
qed

text \<open>
  The emergency revocation of a tenant reads its thousand newest tokens whatever their status,
  and revokes the active ones among those: every active token behind them stays active.
\<close>

theorem tenant_tokens_after_revocation:
  assumes "pk tk_token_id rows"
  shows "let all_tokens = filter (\<lambda>m. tk_tenant_id m = t) rows
    in {m \<in> set (snd (revoke_tokens_by_tenant now t rows)). tk_tenant_id m = t \<and> tk_status m = TK_ACTIVE} =
       {m \<in> set (drop 1000 (newest_first all_tokens)). tk_status m = TK_ACTIVE}"
proof -
  define all_tokens where "all_tokens = filter (\<lambda>m. tk_tenant_id m = t) rows"
  define page where "page = filter (\<lambda>m. tk_status m = TK_ACTIVE) (take 1000 (newest_first all_tokens))"
  define hit where "hit = (\<lambda>m :: token_row. tk_tenant_id m = t \<and> tk_token_id m \<in> tk_token_id ` set page)"
  have listed: "filter (\<lambda>u. tk_status u = TK_ACTIVE) (fst (list_tokens_by_tenant t None 1000 0 rows)) =
      map token_to_entity page"
    by (simp add: list_tokens_by_tenant_def newest_tokens_def sql_select_def page_def all_tokens_def
        filter_map o_def)
  have rows': "snd (revoke_tokens_by_tenant now t rows) = sql_update hit (revoked_row now) rows"
    unfolding revoke_tokens_by_tenant_def revoke_each_update listed entity_ids hit_def ..
  have sub: "set page \<subseteq> set rows"
    using set_take_subset [of 1000 "newest_first all_tokens"] by (auto simp: page_def all_tokens_def)
  have hit_page: "hit m \<longleftrightarrow> m \<in> set page" if "m \<in> set rows" for m
    using named_rows [OF assms sub that] set_take_subset [of 1000 "newest_first all_tokens"]
    by (auto simp: hit_def page_def all_tokens_def)
  have dist: "distinct (newest_first all_tokens)"
    using pk_rows_distinct [OF assms] by (simp add: all_tokens_def)
  have "{m \<in> set rows. tk_tenant_id m = t \<and> tk_status m = TK_ACTIVE \<and> \<not> hit m} =
      {m \<in> set (drop 1000 (newest_first all_tokens)). tk_status m = TK_ACTIVE}"
    using set_drop_rest [OF dist, of _ 1000] set_drop_subset [of 1000 "newest_first all_tokens"] hit_page
    by (auto simp: all_tokens_def page_def)
  then show ?thesis
    unfolding Let_def rows' active_after_update all_tokens_def .
qed

definition sample_token :: "string \<Rightarrow> string \<Rightarrow> token_row" where
  "sample_token i a =
     \<lparr>tk_token_id = i, tk_tenant_id = ''t1'', tk_jti = i, tk_agent_id = a, tk_tool = ''deploy'',
      tk_status = TK_ACTIVE, tk_issued_at = 0, tk_expires_at = None, tk_consumed_at = None,
      tk_revoked_at = None\<rparr>"

theorem agent_tokens_after_revocation_witness:
  "let rows = [sample_token ''k1'' ''a1'', sample_token ''k2'' ''a2''];
       rows' = snd (revoke_tokens_by_agent 5 ''t1'' ''a1'' rows)
   in {m \<in> set rows'. tk_tenant_id m = ''t1'' \<and> tk_agent_id m = ''a1'' \<and> tk_status m = TK_ACTIVE} = {}"
  using agent_tokens_after_revocation [of "[sample_token ''k1'' ''a1'', sample_token ''k2'' ''a2'']" "''t1''" "''a1''" 5]
  by (simp add: pk_def sample_token_def Let_def)

theorem tenant_tokens_after_revocation_witness:
  "let rows = [sample_token ''k1'' ''a1'', sample_token ''k2'' ''a2'']
   in {m \<in> set (snd (revoke_tokens_by_tenant 5 ''t1'' rows)). tk_tenant_id m = ''t1'' \<and> tk_status m = TK_ACTIVE} = {}"
  using tenant_tokens_after_revocation [of "[sample_token ''k1'' ''a1'', sample_token ''k2'' ''a2'']" "''t1''" 5]
  by (simp add: pk_def sample_token_def Let_def)

text \<open>
  The revocation check does not see revocations: right after a token was revoked, the check
  answers that it is not revoked, unless some token of the tenant belongs to an agent that has the
  token's identifier as its own.
\<close>

theorem revocation_check_is_blind:
  assumes "list_all (\<lambda>m. tk_tenant_id m = t \<longrightarrow> tk_agent_id m \<noteq> i) rows"
  shows "\<not> is_revoked t i (snd (revoke_token now t i cascade rows))"
proof -
  have keep: "list_all (\<lambda>m. tk_tenant_id m = t \<longrightarrow> tk_agent_id m \<noteq> i) (sql_update w (revoked_row now) ms)"
    if "list_all (\<lambda>m. tk_tenant_id m = t \<longrightarrow> tk_agent_id m \<noteq> i) ms" for w ms
    using that by (auto simp: sql_update_def list_all_iff)
  have "list_all (\<lambda>m. tk_tenant_id m = t \<longrightarrow> tk_agent_id m \<noteq> i) (snd (revoke_token now t i cascade rows))"
    using assms
    by (simp add: revoke_token_def Let_def case_prod_beta cascade_revoke_def revoke_each_update
        revoke_row_update keep)
  then show ?thesis
    by (simp add: is_revoked_def list_tokens_by_agent_def newest_tokens_def sql_select_def
        list_all_iff filter_empty_conv)
qed

theorem revocation_check_is_blind_witness:
  "let rows' = snd (revoke_token 5 ''t1'' ''k1'' False [sample_token ''k1'' ''a1''])
   in map tk_status rows' = [TK_REVOKED] \<and> \<not> is_revoked ''t1'' ''k1'' rows'"
proof -
  have "map tk_status (snd (revoke_token 5 ''t1'' ''k1'' False [sample_token ''k1'' ''a1''])) = [TK_REVOKED]"
    by code_simp
  then show ?thesis
    using revocation_check_is_blind [of "''t1''" "''k1''" "[sample_token ''k1'' ''a1'']" 5 False]
    by (simp add: sample_token_def)
qed

end
