(* ===== verification/Containment.thy ===== *)
theory Containment
  imports Agent_Registry Approval_Queue Action_Control
begin

text \<open>
  \<open>CascadeContainmentService\<close> (\<open>app/domain/services/cascade_containment_service.py\<close>) with the
  containment events (\<open>app/domain/entities/containment_event.py\<close> and the first repository of
  \<open>sqlalchemy_containment_repository.py\<close>), over the tables of agents, grants, tokens and actions.

  One call runs in one database session. The repositories of tokens and of actions are optional; the
  query of pending approvals opens a session of its own and its failure is swallowed, so whether it
  answers is an argument. Lists and dictionaries survive their JSON encoding.

  Shown: what a containment leaves of an agent and of its children, what it leaves untouched, and
  that the cascade stops at the first generation.
\<close>

section \<open>Events\<close>

datatype containment_mode = CM_OBSERVE | CM_RESTRICT | CM_SUSPEND | CM_QUARANTINE | CM_REVOKE

fun mode_value :: "containment_mode \<Rightarrow> string" where
  "mode_value CM_OBSERVE = ''observe''"
| "mode_value CM_RESTRICT = ''restrict''"
| "mode_value CM_SUSPEND = ''suspend''"
| "mode_value CM_QUARANTINE = ''quarantine''"
| "mode_value CM_REVOKE = ''revoke''"

datatype containment_status = CS_PENDING | CS_IN_PROGRESS | CS_COMPLETED | CS_FAILED | CS_PARTIAL

record containment_event =
  ce_containment_id :: string
  ce_tenant_id :: string
  ce_target_agent_id :: string
  ce_target_authority_id :: "string option"
  ce_mode :: containment_mode
  ce_status :: containment_status
  ce_initiated_by :: string
  ce_authorized_by :: string
  ce_reason :: string
  ce_affected_agent_ids :: "string list"
  ce_affected_authority_ids :: "string list"
  ce_affected_session_ids :: "string list"
  ce_affected_token_ids :: "string list"
  ce_affected_action_ids :: "string list"
  ce_dry_run :: bool
  ce_result_details :: "(string, string) dict"
  ce_created_at :: datetime
  ce_completed_at :: "datetime option"

type_synonym event_table = "containment_event list"

definition get_by_containment_id :: "string \<Rightarrow> string \<Rightarrow> event_table \<Rightarrow> containment_event option" where
  "get_by_containment_id tenant_id containment_id rows =
     sql_first (sql_select (\<lambda>e. ce_tenant_id e = tenant_id \<and> ce_containment_id e = containment_id) rows)"

definition list_events_by_agent ::
  "string \<Rightarrow> string \<Rightarrow> nat \<Rightarrow> nat \<Rightarrow> event_table \<Rightarrow> containment_event list \<times> nat" where
  "list_events_by_agent tenant_id agent_id limit offset rows =
     (let found = sql_select (\<lambda>e. ce_tenant_id e = tenant_id \<and> ce_target_agent_id e = agent_id) rows
      in (take limit (drop offset (sort_key (\<lambda>e. - ce_created_at e) found)), length found))"

definition overwrite_event :: "containment_event \<Rightarrow> containment_event \<Rightarrow> containment_event" where
  "overwrite_event event model =
     model\<lparr>ce_status := ce_status event, ce_completed_at := ce_completed_at event,
           ce_result_details := ce_result_details event,
           ce_affected_agent_ids := ce_affected_agent_ids event,
           ce_affected_authority_ids := ce_affected_authority_ids event,
           ce_affected_session_ids := ce_affected_session_ids event,
           ce_affected_token_ids := ce_affected_token_ids event,
           ce_affected_action_ids := ce_affected_action_ids event\<rparr>"

definition save_event :: "containment_event \<Rightarrow> event_table \<Rightarrow> containment_event \<times> event_table" where
  "save_event event rows =
     (case sql_first (sql_select (\<lambda>e. ce_containment_id e = ce_containment_id event) rows) of
        None \<Rightarrow> (event, rows @ [event])
      | Some model \<Rightarrow>
          (overwrite_event event model,
           sql_update (\<lambda>e. ce_containment_id e = ce_containment_id event) (overwrite_event event) rows))"

definition update_event_status ::
  "datetime \<Rightarrow> string \<Rightarrow> string \<Rightarrow> containment_status \<Rightarrow> (string, string) dict option \<Rightarrow> event_table
     \<Rightarrow> containment_event option \<times> event_table" where
  "update_event_status now tenant_id containment_id status details rows =
     (let f = (\<lambda>e. e\<lparr>ce_status := status,
                    ce_result_details := (case details of None \<Rightarrow> ce_result_details e | Some d \<Rightarrow> d),
                    ce_completed_at := (if status \<in> {CS_COMPLETED, CS_FAILED, CS_PARTIAL} then Some now
                                        else ce_completed_at e)\<rparr>)
      in case get_by_containment_id tenant_id containment_id rows of
           None \<Rightarrow> (None, rows)
         | Some e \<Rightarrow>
             (Some (f e),
              sql_update (\<lambda>e. ce_tenant_id e = tenant_id \<and> ce_containment_id e = containment_id) f rows))"

section \<open>State\<close>

record containment_db =
  cd_agents :: agent_table
  cd_grants :: grant_table
  cd_tokens :: token_table
  cd_actions :: "protected_action list"
  cd_approvals :: approval_table
  cd_events :: event_table

text \<open>Which optional repositories the service was built with.\<close>

record containment_service =
  cs_has_tokens :: bool
  cs_has_actions :: bool

section \<open>The service\<close>

text \<open>\<open>for grant in grants: if active: revoke\<close>\<close>

fun revoke_active_grants ::
  "datetime \<Rightarrow> string \<Rightarrow> string \<Rightarrow> authority_grant list \<Rightarrow> grant_table \<Rightarrow> string list \<times> grant_table" where
  "revoke_active_grants now tenant_id by_whom [] rows = ([], rows)"
| "revoke_active_grants now tenant_id by_whom (g # gs) rows =
     (if au_status g = AU_ACTIVE
      then (let rows1 = snd (revoke_grant now tenant_id (au_grant_id g) by_whom rows);
                (ids, rows2) = revoke_active_grants now tenant_id by_whom gs rows1
            in (au_grant_id g # ids, rows2))
      else revoke_active_grants now tenant_id by_whom gs rows)"

text \<open>An agent is quarantined and loses the active ones among its thousand newest grants.\<close>

definition quarantine_agent ::
  "datetime \<Rightarrow> string \<Rightarrow> string \<Rightarrow> string \<Rightarrow> containment_db \<Rightarrow> string list \<times> containment_db" where
  "quarantine_agent now tenant_id by_whom agent_id db =
     (let agents = snd (update_agent_status now tenant_id agent_id AG_QUARANTINED (cd_agents db));
          listed = fst (list_by_grantee tenant_id agent_id None 1000 0 (cd_grants db));
          (ids, grants) = revoke_active_grants now tenant_id by_whom listed (cd_grants db)
      in (ids, db\<lparr>cd_agents := agents, cd_grants := grants\<rparr>))"

text \<open>\<open>for child in child_agents\<close>, the children that name the target as their parent\<close>

fun quarantine_children ::
  "datetime \<Rightarrow> string \<Rightarrow> string \<Rightarrow> string \<Rightarrow> registered_agent list \<Rightarrow> containment_db
     \<Rightarrow> string list \<times> string list \<times> containment_db" where
  "quarantine_children now tenant_id by_whom target [] db = ([], [], db)"
| "quarantine_children now tenant_id by_whom target (child # rest) db =
     (if agt_parent_agent_id child = Some target
      then (let (gids, db1) = quarantine_agent now tenant_id by_whom (agt_agent_id child) db;
                (agents, grants, db2) = quarantine_children now tenant_id by_whom target rest db1
            in (agt_agent_id child # agents, gids @ grants, db2))
      else quarantine_children now tenant_id by_whom target rest db)"

text \<open>The pending actions among a list are contained.\<close>

fun contain_each ::
  "datetime \<Rightarrow> string \<Rightarrow> protected_action list \<Rightarrow> protected_action list
     \<Rightarrow> string list \<times> protected_action list" where
  "contain_each now tenant_id [] rows = ([], rows)"
| "contain_each now tenant_id (a # rest) rows =
     (if pa_status a \<in> {AS_PENDING, AS_EVALUATING}
      then (let rows1 = snd (update_action_status now tenant_id (pa_action_id a) AS_CONTAINED [] rows);
                (ids, rows2) = contain_each now tenant_id rest rows1
            in (pa_action_id a # ids, rows2))
      else contain_each now tenant_id rest rows)"

definition contain_execution_tokens ::
  "containment_service \<Rightarrow> datetime \<Rightarrow> string \<Rightarrow> string \<Rightarrow> bool \<Rightarrow> containment_db
     \<Rightarrow> string list \<times> containment_db" where
  "contain_execution_tokens sv now tenant_id agent_id dry_run db =
     (if \<not> cs_has_tokens sv then ([], db)
      else
        (let tokens = fst (list_tokens_by_agent tenant_id agent_id (Some TK_ACTIVE) 1000 0 (cd_tokens db))
         in (map tk_token_id tokens,
             if dry_run then db
             else db\<lparr>cd_tokens := snd (revoke_each now tenant_id tokens (cd_tokens db))\<rparr>)))"

definition contain_pending_actions ::
  "containment_service \<Rightarrow> datetime \<Rightarrow> string \<Rightarrow> string \<Rightarrow> bool \<Rightarrow> containment_db
     \<Rightarrow> string list \<times> containment_db" where
  "contain_pending_actions sv now tenant_id agent_id dry_run db =
     (if \<not> cs_has_actions sv then ([], db)
      else
        (let actions = fst (list_actions_by_agent tenant_id agent_id 1000 0 (cd_actions db))
         in if dry_run
            then (map pa_action_id (filter (\<lambda>a. pa_status a \<in> {AS_PENDING, AS_EVALUATING}) actions), db)
            else (let (ids, rows) = contain_each now tenant_id actions (cd_actions db)
                  in (ids, db\<lparr>cd_actions := rows\<rparr>))))"

definition pending_approvals :: "string \<Rightarrow> string option \<Rightarrow> approval_table \<Rightarrow> string list" where
  "pending_approvals tenant_id owner rows =
     map ar_request_id (sql_select (\<lambda>r. ar_tenant_id r = Some tenant_id \<and> ar_user_id r = owner \<and>
       ar_status r = ''pending'') rows)"

definition containment_details ::
  "containment_mode \<Rightarrow> string \<Rightarrow> string option \<Rightarrow> bool \<Rightarrow> nat list \<Rightarrow> (string, string) dict" where
  "containment_details mode target authority dry_run counts =
     [(''mode'', mode_value mode), (''target_agent_id'', target)] @
     (if truthy authority then [(''target_authority_id'', the authority)] else []) @
     [(''dry_run'', if dry_run then ''true'' else ''false'')] @
     zip [''affected_agents_count'', ''affected_authorities_count'', ''affected_tokens_count'',
          ''affected_actions_count'', ''affected_sessions_count''] (map show_nat counts)"

text \<open>
  \<open>contain_authority_tree\<close>. The loops over the tokens and the actions of the target are those of the
  two operations above.
\<close>

definition contain_authority_tree ::
  "containment_service \<Rightarrow> bool \<Rightarrow> datetime \<Rightarrow> string \<Rightarrow> string \<Rightarrow> string \<Rightarrow> containment_mode \<Rightarrow> string
     \<Rightarrow> string \<Rightarrow> string \<Rightarrow> bool \<Rightarrow> string option \<Rightarrow> containment_db
     \<Rightarrow> (py_error + containment_event) \<times> containment_db" where
  "contain_authority_tree sv approvals_answer now containment_id tenant_id target mode initiated_by
       authorized_by reason dry_run authority db =
     (let event = (\<lambda>agents grants tokens actions sessions db'.
            let e = \<lparr>ce_containment_id = containment_id, ce_tenant_id = tenant_id,
                     ce_target_agent_id = target, ce_target_authority_id = authority, ce_mode = mode,
                     ce_status = (if dry_run then CS_PENDING else CS_COMPLETED),
                     ce_initiated_by = initiated_by, ce_authorized_by = authorized_by,
                     ce_reason = reason, ce_affected_agent_ids = agents,
                     ce_affected_authority_ids = grants, ce_affected_session_ids = sessions,
                     ce_affected_token_ids = tokens, ce_affected_action_ids = actions,
                     ce_dry_run = dry_run,
                     ce_result_details = containment_details mode target authority dry_run
                       [length agents, length grants, length tokens, length actions, length sessions],
                     ce_created_at = now, ce_completed_at = (if dry_run then None else Some now)\<rparr>;
                (saved, events) = save_event e (cd_events db')
            in (Inr saved, db'\<lparr>cd_events := events\<rparr>))
      in if dry_run then event [] [] [] [] [] db
         else
           (case get_by_agent_id tenant_id target (cd_agents db) of
              None \<Rightarrow> (Inl (ValueError ''Target agent not found''), db)
            | Some agent \<Rightarrow>
                (let (gids, db1) = quarantine_agent now tenant_id initiated_by target db;
                     listed = fst (list_agents tenant_id None None 1000 0 (cd_agents db1));
                     (agents, cgids, db2) =
                       quarantine_children now tenant_id initiated_by target listed db1;
                     (tokens, db3) = contain_execution_tokens sv now tenant_id target False db2;
                     (actions, db4) = contain_pending_actions sv now tenant_id target False db3;
                     sessions = (if agt_owner_user_id agent \<noteq> None \<and> approvals_answer
                                 then pending_approvals tenant_id (agt_owner_user_id agent)
                                        (cd_approvals db4) else [])
                 in event (target # agents) (gids @ cgids) tokens actions sessions db4)))"

section \<open>Updates\<close>

text \<open>Every step of a containment is an update of a table by tenant and identifier.\<close>

definition withdrawn_grant :: "datetime \<Rightarrow> string \<Rightarrow> authority_grant \<Rightarrow> authority_grant" where
  "withdrawn_grant now by_whom g =
     g\<lparr>au_status := AU_REVOKED, au_revoked_at := Some now, au_revoked_by := Some by_whom,
       au_updated_at := now\<rparr>"

lemma revoke_grant_update:
  "snd (revoke_grant now t i w rows) =
     sql_update (\<lambda>g. au_tenant_id g = t \<and> au_grant_id g = i) (withdrawn_grant now w) rows"
proof -
  let ?here = "\<lambda>g. au_tenant_id g = t \<and> au_grant_id g = i"
  show ?thesis
  proof (cases "sql_first (sql_select ?here rows)")
    case None
    then have "filter ?here rows = []" by (simp add: sql_first_None sql_select_def)
    with None show ?thesis by (simp add: revoke_grant_def change_grant_def sql_update_id)
  next
    case (Some g)
    then show ?thesis
      by (simp add: revoke_grant_def change_grant_def withdrawn_grant_def [abs_def])
  qed
qed

lemma update_twice:
  assumes "\<And>r. w2 (f r) = w2 r" and "\<And>r. f (f r) = f r"
  shows "sql_update w2 f (sql_update w1 f rows) = sql_update (\<lambda>r. w1 r \<or> w2 r) f rows"
  using assms by (simp add: sql_update_def)

abbreviation active_ids :: "authority_grant list \<Rightarrow> string set" where
  "active_ids gs \<equiv> au_grant_id ` {g \<in> set gs. au_status g = AU_ACTIVE}"

lemma revoke_active_update:
  "snd (revoke_active_grants now t w gs rows) =
     sql_update (\<lambda>g. au_tenant_id g = t \<and> au_grant_id g \<in> active_ids gs) (withdrawn_grant now w) rows"
proof (induction gs arbitrary: rows)
  case Nil
  then show ?case by (simp add: sql_update_id)
next
  case (Cons g gs)
  show ?case
  proof (cases "au_status g = AU_ACTIVE")
    case True
    have "snd (revoke_active_grants now t w (g # gs) rows) =
        snd (revoke_active_grants now t w gs (snd (revoke_grant now t (au_grant_id g) w rows)))"
      using True by (simp add: case_prod_beta Let_def)
    also have "\<dots> = sql_update (\<lambda>g'. (au_tenant_id g' = t \<and> au_grant_id g' = au_grant_id g) \<or>
        (au_tenant_id g' = t \<and> au_grant_id g' \<in> active_ids gs)) (withdrawn_grant now w) rows"
      unfolding Cons.IH revoke_grant_update by (rule update_twice) (simp_all add: withdrawn_grant_def)
    finally show ?thesis using True by (auto simp: sql_update_def)
  next
    case False
    then show ?thesis using Cons.IH [of rows] by (auto simp: sql_update_def)
  qed
qed

lemma contain_each_update:
  "snd (contain_each now t as rows) =
     sql_update (\<lambda>a. pa_tenant_id a = t \<and>
         pa_action_id a \<in> pa_action_id ` {a \<in> set as. pa_status a \<in> {AS_PENDING, AS_EVALUATING}})
       (with_action_status now AS_CONTAINED []) rows"
proof (induction as arbitrary: rows)
  case Nil
  then show ?case by (simp add: sql_update_id)
next
  case (Cons b as)
  have one: "snd (update_action_status now t i AS_CONTAINED [] rows) =
      sql_update (\<lambda>a. pa_tenant_id a = t \<and> pa_action_id a = i) (with_action_status now AS_CONTAINED []) rows" for i
    by (cases "find_action t i rows")
      (auto simp: update_action_status_def find_action_def sql_first_None sql_select_def
        sql_update_id [symmetric])
  show ?case
  proof (cases "pa_status b \<in> {AS_PENDING, AS_EVALUATING}")
    case True
    have "snd (contain_each now t (b # as) rows) =
        snd (contain_each now t as (snd (update_action_status now t (pa_action_id b) AS_CONTAINED [] rows)))"
      using True by (simp add: case_prod_beta Let_def)
    also have "\<dots> = sql_update (\<lambda>a. (pa_tenant_id a = t \<and> pa_action_id a = pa_action_id b) \<or>
        (pa_tenant_id a = t \<and>
         pa_action_id a \<in> pa_action_id ` {a \<in> set as. pa_status a \<in> {AS_PENDING, AS_EVALUATING}}))
        (with_action_status now AS_CONTAINED []) rows"
      unfolding Cons.IH one by (rule update_twice) (simp_all add: with_action_status_def)
    finally show ?thesis using True by (auto simp: sql_update_def)
  next
    case False
    then have "{a \<in> set (b # as). pa_status a \<in> {AS_PENDING, AS_EVALUATING}} =
        {a \<in> set as. pa_status a \<in> {AS_PENDING, AS_EVALUATING}}" by auto
    with False Cons.IH [of rows] show ?thesis by simp
  qed
qed

lemma agent_status_update:
  "snd (update_agent_status now t i st rows) =
     sql_update (\<lambda>a. agt_tenant_id a = t \<and> agt_agent_id a = i)
       (\<lambda>a. a\<lparr>agt_status := st, agt_updated_at := now\<rparr>) rows"
  by (auto simp: update_agent_status_def get_by_agent_id_def sql_select_def sql_first_None sql_update_id
      Let_def split: option.split)

section \<open>What a containment achieves\<close>

abbreviation holds :: "string \<Rightarrow> string \<Rightarrow> authority_grant \<Rightarrow> bool" where
  "holds t x g \<equiv> au_tenant_id g = t \<and> au_grantee_agent_id g = x"

text \<open>The agent is quarantined and has no active grant.\<close>

definition disarmed :: "string \<Rightarrow> string \<Rightarrow> containment_db \<Rightarrow> bool" where
  "disarmed t x db \<longleftrightarrow>
     list_all (\<lambda>a. agt_tenant_id a = t \<and> agt_agent_id a = x \<longrightarrow> agt_status a = AG_QUARANTINED) (cd_agents db) \<and>
     list_all (\<lambda>g. holds t x g \<longrightarrow> au_status g \<noteq> AU_ACTIVE) (cd_grants db)"

text \<open>No agent of the tenant has more grants than one listing returns.\<close>

definition few_grants :: "string \<Rightarrow> containment_db \<Rightarrow> bool" where
  "few_grants t db \<longleftrightarrow> (\<forall>x. length (filter (holds t x) (cd_grants db)) \<le> 1000)"

lemma quarantine_agents:
  "cd_agents (snd (quarantine_agent now t w x db)) =
     sql_update (\<lambda>a. agt_tenant_id a = t \<and> agt_agent_id a = x)
       (\<lambda>a. a\<lparr>agt_status := AG_QUARANTINED, agt_updated_at := now\<rparr>) (cd_agents db)"
  by (simp add: quarantine_agent_def Let_def case_prod_beta agent_status_update)

lemma quarantine_grants:
  "cd_grants (snd (quarantine_agent now t w x db)) =
     sql_update (\<lambda>g. au_tenant_id g = t \<and>
         au_grant_id g \<in> active_ids (fst (list_by_grantee t x None 1000 0 (cd_grants db))))
       (withdrawn_grant now w) (cd_grants db)"
  by (simp add: quarantine_agent_def Let_def case_prod_beta revoke_active_update)

lemma quarantine_frame [simp]:
  "cd_tokens (snd (quarantine_agent now t w x db)) = cd_tokens db"
  "cd_actions (snd (quarantine_agent now t w x db)) = cd_actions db"
  by (simp_all add: quarantine_agent_def Let_def case_prod_beta)

lemma filter_update:
  "(\<And>r. P (f r) = P r) \<Longrightarrow> length (filter P (sql_update w f rows)) = length (filter P rows)"
  by (induction rows) (simp_all add: sql_update_def)

lemma few_grants_quarantine: "few_grants t db \<Longrightarrow> few_grants t (snd (quarantine_agent now t' w x db))"
  by (simp add: few_grants_def quarantine_grants filter_update withdrawn_grant_def)

lemma listed_all:
  "length (filter (holds t x) rows) \<le> 1000 \<Longrightarrow>
     set (fst (list_by_grantee t x None 1000 0 rows)) = set (filter (holds t x) rows)"
  by (simp add: list_by_grantee_def newest_page_def sql_select_def)

text \<open>An update to a status other than active keeps what is not active, and hits what it selects.\<close>

lemma update_all:
  "(\<And>r. r \<in> set rows \<Longrightarrow> w r \<Longrightarrow> P (f r)) \<Longrightarrow> (\<And>r. r \<in> set rows \<Longrightarrow> \<not> w r \<Longrightarrow> P r) \<Longrightarrow>
     list_all P (sql_update w f rows)"
  by (auto simp: sql_update_def list_all_iff)

lemma quarantine_disarms:
  assumes "few_grants t db"
  shows "disarmed t x (snd (quarantine_agent now t w x db))"
proof -
  let ?listed = "fst (list_by_grantee t x None 1000 0 (cd_grants db))"
  have hit: "au_grant_id g \<in> active_ids ?listed"
    if "g \<in> set (cd_grants db)" "holds t x g" "au_status g = AU_ACTIVE" for g
    using that assms listed_all [of t x "cd_grants db"] by (simp add: few_grants_def)
  show ?thesis
    unfolding disarmed_def quarantine_agents quarantine_grants
  proof (intro conjI update_all)
    fix g assume "g \<in> set (cd_grants db)"
      "\<not> (au_tenant_id g = t \<and> au_grant_id g \<in> active_ids ?listed)"
    then show "holds t x g \<longrightarrow> au_status g \<noteq> AU_ACTIVE" using hit by blast
  qed (auto simp: withdrawn_grant_def)
qed

lemma quarantine_keeps_disarmed:
  assumes "disarmed t x db"
  shows "disarmed t x (snd (quarantine_agent now t' w y db))"
  unfolding disarmed_def quarantine_agents quarantine_grants
  by (intro conjI update_all) (use assms in \<open>auto simp: disarmed_def list_all_iff withdrawn_grant_def\<close>)

lemma children_run:
  "fst (quarantine_children now t w target cs db) =
     map agt_agent_id (filter (\<lambda>c. agt_parent_agent_id c = Some target) cs)"
  "snd (snd (quarantine_children now t w target cs db)) =
     fold (\<lambda>x db. snd (quarantine_agent now t w x db))
       (map agt_agent_id (filter (\<lambda>c. agt_parent_agent_id c = Some target) cs)) db"
  by (induction cs arbitrary: db) (simp_all add: case_prod_beta Let_def)

lemma quarantines_frame [simp]:
  "cd_tokens (fold (\<lambda>x db. snd (quarantine_agent now t w x db)) xs db) = cd_tokens db"
  "cd_actions (fold (\<lambda>x db. snd (quarantine_agent now t w x db)) xs db) = cd_actions db"
  by (induction xs arbitrary: db) simp_all

lemma quarantines_disarm:
  assumes "few_grants t db" and "x \<in> set xs \<or> disarmed t x db"
  shows "disarmed t x (fold (\<lambda>x db. snd (quarantine_agent now t w x db)) xs db)"
  using assms
proof (induction xs arbitrary: db)
  case (Cons y ys)
  have "x \<in> set ys \<or> disarmed t x (snd (quarantine_agent now t w y db))"
    using Cons.prems quarantine_disarms quarantine_keeps_disarmed by auto
  then show ?case using Cons few_grants_quarantine by simp
qed simp

text \<open>The run of a containment that is not a dry run, as one pass over the tables.\<close>

lemma contain_run:
  assumes "contain_authority_tree sv ans now cid t target mode w auth reason False authority db = (Inr e, db')"
  obtains kids where
    "kids = map agt_agent_id (filter (\<lambda>c. agt_parent_agent_id c = Some target)
       (fst (list_agents t None None 1000 0 (cd_agents (snd (quarantine_agent now t w target db))))))"
    and "cd_agents db' = cd_agents (fold (\<lambda>x db. snd (quarantine_agent now t w x db)) (target # kids) db)"
    and "cd_grants db' = cd_grants (fold (\<lambda>x db. snd (quarantine_agent now t w x db)) (target # kids) db)"
    and "cd_tokens db' = cd_tokens (snd (contain_execution_tokens sv now t target False db))"
    and "cd_actions db' = cd_actions (snd (contain_pending_actions sv now t target False db))"
proof -
  let ?q = "\<lambda>x db. snd (quarantine_agent now t w x db)"
  obtain agent where agent: "get_by_agent_id t target (cd_agents db) = Some agent"
    using assms by (cases "get_by_agent_id t target (cd_agents db)")
      (simp_all add: contain_authority_tree_def)
  obtain gids db1 where one: "quarantine_agent now t w target db = (gids, db1)" by (metis surj_pair)
  let ?listed = "fst (list_agents t None None 1000 0 (cd_agents db1))"
  obtain kids cg db2 where two: "quarantine_children now t w target ?listed db1 = (kids, cg, db2)"
    by (metis surj_pair)
  have run: "kids = map agt_agent_id (filter (\<lambda>c. agt_parent_agent_id c = Some target) ?listed)"
    "db2 = fold ?q kids db1"
    using children_run [of now t w target ?listed db1] by (simp_all add: two)
  have db1: "db1 = ?q target db" by (simp add: one)
  have parts: "cd_agents db' = cd_agents db2" "cd_grants db' = cd_grants db2"
    "cd_tokens db' = cd_tokens (snd (contain_execution_tokens sv now t target False db2))"
    "cd_actions db' = cd_actions (snd (contain_pending_actions sv now t target False db2))"
    using assms
    by (auto simp: contain_authority_tree_def agent one two Let_def case_prod_beta
        contain_execution_tokens_def contain_pending_actions_def split: if_splits)
  have "cd_tokens db2 = cd_tokens db" "cd_actions db2 = cd_actions db"
    using run(2) db1 by simp_all
  then have "cd_tokens db' = cd_tokens (snd (contain_execution_tokens sv now t target False db))"
    "cd_actions db' = cd_actions (snd (contain_pending_actions sv now t target False db))"
    using parts(3,4) by (auto simp: contain_execution_tokens_def contain_pending_actions_def Let_def
        case_prod_beta)
  with that [of kids] run parts(1,2) db1 show ?thesis by simp
qed

lemma containment_effect:
  assumes "contain_authority_tree sv ans now cid t target mode w auth reason False authority db = (Inr e, db')"
    and "cs_has_tokens sv" and "cs_has_actions sv" and "few_grants t db"
    and "length (filter (\<lambda>a. agt_tenant_id a = t) (cd_agents db)) \<le> 1000"
    and "length (filter (\<lambda>m. tk_tenant_id m = t \<and> tk_agent_id m = target \<and> tk_status m = TK_ACTIVE)
           (cd_tokens db)) \<le> 1000"
    and "length (filter (\<lambda>a. pa_tenant_id a = t \<and> pa_agent_id a = target) (cd_actions db)) \<le> 1000"
  shows "disarmed t target db' \<and>
    list_all (\<lambda>a. agt_tenant_id a = t \<and> agt_parent_agent_id a = Some target \<longrightarrow>
      disarmed t (agt_agent_id a) db') (cd_agents db) \<and>
    list_all (\<lambda>m. tk_tenant_id m = t \<and> tk_agent_id m = target \<longrightarrow> tk_status m \<noteq> TK_ACTIVE) (cd_tokens db') \<and>
    list_all (\<lambda>a. pa_tenant_id a = t \<and> pa_agent_id a = target \<longrightarrow>
      pa_status a \<notin> {AS_PENDING, AS_EVALUATING}) (cd_actions db')"
proof -
  obtain kids where kids: "kids = map agt_agent_id (filter (\<lambda>c. agt_parent_agent_id c = Some target)
       (fst (list_agents t None None 1000 0 (cd_agents (snd (quarantine_agent now t w target db))))))"
    and agents: "cd_agents db' = cd_agents (fold (\<lambda>x db. snd (quarantine_agent now t w x db)) (target # kids) db)"
    and grants: "cd_grants db' = cd_grants (fold (\<lambda>x db. snd (quarantine_agent now t w x db)) (target # kids) db)"
    and tokens: "cd_tokens db' = cd_tokens (snd (contain_execution_tokens sv now t target False db))"
    and actions: "cd_actions db' = cd_actions (snd (contain_pending_actions sv now t target False db))"
    by (rule contain_run [OF assms(1)])
  have dis: "disarmed t x db'" if "x \<in> set (target # kids)" for x
    using quarantines_disarm [OF assms(4) disjI1 [OF that], of now w] agents grants
    by (simp add: disarmed_def)
  have child: "agt_agent_id a \<in> set kids"
    if "a \<in> set (cd_agents db)" "agt_tenant_id a = t" "agt_parent_agent_id a = Some target" for a
  proof -
    let ?rows = "cd_agents (snd (quarantine_agent now t w target db))"
    have "length (filter (\<lambda>a. agt_tenant_id a = t) ?rows) \<le> 1000"
      using assms(5) by (simp add: quarantine_agents filter_update)
    then have "set (fst (list_agents t None None 1000 0 ?rows)) = {a \<in> set ?rows. agt_tenant_id a = t}"
      by (auto simp: list_agents_def sql_select_def Let_def)
    moreover have "\<exists>a' \<in> set ?rows. agt_tenant_id a' = t \<and> agt_parent_agent_id a' = Some target \<and>
        agt_agent_id a' = agt_agent_id a"
      using that unfolding quarantine_agents
      by (intro bexI [of _ "if agt_tenant_id a = t \<and> agt_agent_id a = target
          then a\<lparr>agt_status := AG_QUARANTINED, agt_updated_at := now\<rparr> else a"])
        (auto simp: sql_update_def)
    ultimately show ?thesis unfolding kids by (force simp: image_iff)
  qed
  have "list_all (\<lambda>m. tk_tenant_id m = t \<and> tk_agent_id m = target \<longrightarrow> tk_status m \<noteq> TK_ACTIVE) (cd_tokens db')"
    using assms(2,6)
    by (auto intro!: update_all simp: tokens contain_execution_tokens_def Let_def revoke_each_update
        image_image list_tokens_by_agent_def newest_tokens_def sql_select_def)
  moreover have "list_all (\<lambda>a. pa_tenant_id a = t \<and> pa_agent_id a = target \<longrightarrow>
      pa_status a \<notin> {AS_PENDING, AS_EVALUATING}) (cd_actions db')"
    using assms(3,7)
    by (auto intro!: update_all simp: actions contain_pending_actions_def Let_def case_prod_beta
        contain_each_update list_actions_by_agent_def newest_actions_def sql_select_def with_action_status_def)
  ultimately show ?thesis using dis child by (auto simp: list_all_iff)
qed

text \<open>
  C9. A containment that completes disarms the agent and its children: when no listing is cut off (at
  most a thousand agents in the tenant, grants per agent, active tokens and actions of the target),
  the target and every agent that names it as parent are quarantined and hold no active grant, and
  the target has no active execution token and no pending action left.
\<close>

theorem containment_disarms:
  assumes "contain_authority_tree sv ans now cid t target mode w auth reason False authority db = (Inr e, db')"
    and "cs_has_tokens sv" and "cs_has_actions sv" and "few_grants t db"
    and "length (filter (\<lambda>a. agt_tenant_id a = t) (cd_agents db)) \<le> 1000"
    and "length (filter (\<lambda>m. tk_tenant_id m = t \<and> tk_agent_id m = target \<and> tk_status m = TK_ACTIVE)
           (cd_tokens db)) \<le> 1000"
    and "length (filter (\<lambda>a. pa_tenant_id a = t \<and> pa_agent_id a = target) (cd_actions db)) \<le> 1000"
  shows "disarmed t target db' \<and>
    list_all (\<lambda>a. agt_tenant_id a = t \<and> agt_parent_agent_id a = Some target \<longrightarrow>
      disarmed t (agt_agent_id a) db') (cd_agents db) \<and>
    list_all (\<lambda>m. tk_tenant_id m = t \<and> tk_agent_id m = target \<longrightarrow> tk_status m \<noteq> TK_ACTIVE) (cd_tokens db') \<and>
    list_all (\<lambda>a. pa_tenant_id a = t \<and> pa_agent_id a = target \<longrightarrow>
      pa_status a \<notin> {AS_PENDING, AS_EVALUATING}) (cd_actions db')"
  using containment_effect [OF assms] .

lemma quarantine_spares:
  assumes "pk au_grant_id (cd_grants db)" and "y \<noteq> x"
  shows "filter (\<lambda>a. agt_agent_id a = x) (cd_agents (snd (quarantine_agent now t w y db))) =
      filter (\<lambda>a. agt_agent_id a = x) (cd_agents db)"
    and "filter (\<lambda>g. au_grantee_agent_id g = x) (cd_grants (snd (quarantine_agent now t w y db))) =
      filter (\<lambda>g. au_grantee_agent_id g = x) (cd_grants db)"
    and "pk au_grant_id (cd_grants (snd (quarantine_agent now t w y db)))"
proof -
  let ?listed = "fst (list_by_grantee t y None 1000 0 (cd_grants db))"
  have inj: "inj_on au_grant_id (set (cd_grants db))"
    using assms(1) by (simp add: pk_def distinct_map)
  have listed: "g \<in> set (cd_grants db) \<and> au_grantee_agent_id g = y" if "g \<in> set ?listed" for g
    using that by (auto simp: list_by_grantee_def newest_page_def sql_select_def dest: in_set_takeD)
  have other: "au_grantee_agent_id g \<noteq> x"
    if "g \<in> set (cd_grants db)" "au_grant_id g \<in> active_ids ?listed" for g
    using that listed inj_onD [OF inj] assms(2) by blast
  show "filter (\<lambda>a. agt_agent_id a = x) (cd_agents (snd (quarantine_agent now t w y db))) =
      filter (\<lambda>a. agt_agent_id a = x) (cd_agents db)"
    unfolding quarantine_agents
    using assms(2) update_leaves [of "cd_agents db" "\<lambda>a. agt_tenant_id a = t \<and> agt_agent_id a = y"
        "\<lambda>a. agt_agent_id a \<noteq> x" "\<lambda>a. a\<lparr>agt_status := AG_QUARANTINED, agt_updated_at := now\<rparr>"]
    by simp
  show "filter (\<lambda>g. au_grantee_agent_id g = x) (cd_grants (snd (quarantine_agent now t w y db))) =
      filter (\<lambda>g. au_grantee_agent_id g = x) (cd_grants db)"
    unfolding quarantine_grants
    using other update_leaves [of "cd_grants db"
        "\<lambda>g. au_tenant_id g = t \<and> au_grant_id g \<in> active_ids ?listed"
        "\<lambda>g. au_grantee_agent_id g \<noteq> x" "withdrawn_grant now w"]
    by (simp add: withdrawn_grant_def)
  show "pk au_grant_id (cd_grants (snd (quarantine_agent now t w y db)))"
    unfolding quarantine_grants using assms(1) by (simp add: pk_update withdrawn_grant_def)
qed

lemma quarantines_spare:
  assumes "pk au_grant_id (cd_grants db)" and "x \<notin> set ys"
  shows "filter (\<lambda>a. agt_agent_id a = x)
      (cd_agents (fold (\<lambda>y db. snd (quarantine_agent now t w y db)) ys db)) =
      filter (\<lambda>a. agt_agent_id a = x) (cd_agents db) \<and>
    filter (\<lambda>g. au_grantee_agent_id g = x)
      (cd_grants (fold (\<lambda>y db. snd (quarantine_agent now t w y db)) ys db)) =
      filter (\<lambda>g. au_grantee_agent_id g = x) (cd_grants db)"
  using assms
proof (induction ys arbitrary: db)
  case (Cons y ys)
  have "y \<noteq> x" using Cons.prems(2) by auto
  note one = quarantine_spares [OF Cons.prems(1) this, of now t w]
  show ?case using Cons.IH [OF one(3)] Cons.prems(2) one(1,2) by simp
qed simp

text \<open>
  The cascade stops after one generation: the row and the grants of every agent that is neither
  the target nor names the target as its parent are unchanged, so a grandchild of a contained agent
  stays active with its authority.
\<close>

theorem containment_stops_at_children:
  assumes "contain_authority_tree sv ans now cid t target mode w auth reason False authority db = (Inr e, db')"
    and "pk au_grant_id (cd_grants db)" and "x \<noteq> target"
    and "list_all (\<lambda>a. agt_agent_id a = x \<longrightarrow> agt_parent_agent_id a \<noteq> Some target) (cd_agents db)"
  shows "filter (\<lambda>a. agt_agent_id a = x) (cd_agents db') = filter (\<lambda>a. agt_agent_id a = x) (cd_agents db) \<and>
    filter (\<lambda>g. au_grantee_agent_id g = x) (cd_grants db') =
      filter (\<lambda>g. au_grantee_agent_id g = x) (cd_grants db)"
proof -
  obtain kids where kids: "kids = map agt_agent_id (filter (\<lambda>c. agt_parent_agent_id c = Some target)
       (fst (list_agents t None None 1000 0 (cd_agents (snd (quarantine_agent now t w target db))))))"
    and agents: "cd_agents db' = cd_agents (fold (\<lambda>x db. snd (quarantine_agent now t w x db)) (target # kids) db)"
    and grants: "cd_grants db' = cd_grants (fold (\<lambda>x db. snd (quarantine_agent now t w x db)) (target # kids) db)"
    by (rule contain_run [OF assms(1)])
  let ?rows = "cd_agents (snd (quarantine_agent now t w target db))"
  have "list_all (\<lambda>a. agt_agent_id a = x \<longrightarrow> agt_parent_agent_id a \<noteq> Some target) ?rows"
    using assms(4) unfolding quarantine_agents by (intro update_all) (auto simp: list_all_iff)
  moreover have "set (fst (list_agents t None None 1000 0 ?rows)) \<subseteq> set ?rows"
    by (auto simp: list_agents_def sql_select_def Let_def dest: in_set_takeD)
  ultimately have "x \<notin> set (target # kids)"
    using assms(3) by (auto simp: kids list_all_iff)
  from quarantines_spare [OF assms(2) this, of now t w] show ?thesis unfolding agents grants .
qed

definition sample_registered :: "string \<Rightarrow> string option \<Rightarrow> registered_agent" where
  "sample_registered i parent =
     \<lparr>agt_agent_id = i, agt_tenant_id = ''t1'', agt_status = AG_ACTIVE, agt_risk_classification = RC_LOW,
      agt_name = i, agt_description = [], agt_owner_user_id = None, agt_parent_agent_id = parent,
      agt_agent_type = AT_SUB_AGENT, agt_trust_level = TL_VERIFIED, agt_model_provider = None,
      agt_model_name = None, agt_environment = AE_PRODUCTION, agt_version = ''1.0'', agt_creator = None,
      agt_registration_method = RM_MANUAL, agt_root_human_sponsor = None, agt_expires_at = None,
      agt_last_activity_at = None, agt_connected_tools = [], agt_metadata = [], agt_created_at = 0,
      agt_updated_at = 0\<rparr>"

definition sample_authority :: "string \<Rightarrow> authority_grant" where
  "sample_authority a = create_authority 0 (''g-'' @ a) ''t1'' ''root'' a SC_ADMIN ''db'' [] None None None 0 []"

definition sample_family_db :: containment_db where
  "sample_family_db =
     \<lparr>cd_agents = [sample_registered ''a'' None, sample_registered ''b'' (Some ''a''),
                   sample_registered ''c'' (Some ''b'')],
      cd_grants = map sample_authority [''a'', ''b'', ''c''], cd_tokens = [sample_token ''k'' ''a''],
      cd_actions = [], cd_approvals = [], cd_events = []\<rparr>"

definition sample_containment where
  "sample_containment = contain_authority_tree \<lparr>cs_has_tokens = True, cs_has_actions = True\<rparr> True 9 ''cnt'' ''t1''
     ''a'' CM_QUARANTINE ''admin'' ''admin'' [] False None sample_family_db"

lemma sample_containment_ok:
  obtains e where "sample_containment = (Inr e, snd sample_containment)"
proof -
  have "map_sum id (\<lambda>_. ()) (fst sample_containment) = Inr ()" by code_simp
  then show ?thesis using that by (cases "fst sample_containment") (auto simp: prod_eq_iff)
qed

theorem containment_disarms_witness:
  "disarmed ''t1'' ''a'' (snd sample_containment) \<and> disarmed ''t1'' ''b'' (snd sample_containment)"
proof -
  obtain e where run: "sample_containment = (Inr e, snd sample_containment)"
    by (rule sample_containment_ok)
  have few: "few_grants ''t1'' sample_family_db"
    by (simp add: few_grants_def sample_family_db_def)
  have sizes: "length (filter (\<lambda>a. agt_tenant_id a = ''t1'') (cd_agents sample_family_db)) \<le> 1000"
    "length (filter (\<lambda>m. tk_tenant_id m = ''t1'' \<and> tk_agent_id m = ''a'' \<and> tk_status m = TK_ACTIVE)
       (cd_tokens sample_family_db)) \<le> 1000"
    "length (filter (\<lambda>a. pa_tenant_id a = ''t1'' \<and> pa_agent_id a = ''a'') (cd_actions sample_family_db)) \<le> 1000"
    "sample_registered ''b'' (Some ''a'') \<in> set (cd_agents sample_family_db)"
    by (simp_all add: sample_family_db_def)
  have "disarmed ''t1'' ''a'' (snd sample_containment) \<and>
      list_all (\<lambda>a. agt_tenant_id a = ''t1'' \<and> agt_parent_agent_id a = Some ''a'' \<longrightarrow>
        disarmed ''t1'' (agt_agent_id a) (snd sample_containment)) (cd_agents sample_family_db)"
    using containment_disarms [OF trans [OF sample_containment_def [symmetric] run] _ _ few sizes(1-3)] by simp
  then show ?thesis
    using sizes(4) by (force simp: list_all_iff sample_registered_def)
qed

theorem containment_stops_at_children_witness:
  "filter (\<lambda>g. au_grantee_agent_id g = ''c'') (cd_grants (snd sample_containment)) = [sample_authority ''c'']"
proof -
  obtain e where run: "sample_containment = (Inr e, snd sample_containment)"
    by (rule sample_containment_ok)
  have facts: "pk au_grant_id (cd_grants sample_family_db)"
    "list_all (\<lambda>a. agt_agent_id a = ''c'' \<longrightarrow> agt_parent_agent_id a \<noteq> Some ''a'') (cd_agents sample_family_db)"
    "filter (\<lambda>g. au_grantee_agent_id g = ''c'') (cd_grants sample_family_db) = [sample_authority ''c'']"
    by (simp_all add: sample_family_db_def sample_registered_def sample_authority_def create_authority_def pk_def)
  show ?thesis
    using containment_stops_at_children [OF trans [OF sample_containment_def [symmetric] run] facts(1) _ facts(2)]
      facts(3) by simp
qed

text \<open>
  A dry run changes no table but that of the events; a containment of an unknown agent fails and
  changes nothing.
\<close>

theorem dry_run_changes_nothing:
  "snd (contain_authority_tree sv ans now cid t target mode w auth reason True authority db)\<lparr>cd_events := cd_events db\<rparr> = db"
  by (simp add: contain_authority_tree_def Let_def case_prod_beta)

lemma contain_unknown:
  "get_by_agent_id t target (cd_agents db) = None \<Longrightarrow>
     contain_authority_tree sv ans now cid t target mode w auth reason False authority db =
       (Inl (ValueError ''Target agent not found''), db)"
  by (simp add: contain_authority_tree_def)

end
