(* ===== verification/Execution_Gate.thy ===== *)
theory Execution_Gate
  imports Execution_Token Containment Emergency_Control
begin

text \<open>
  The two routes of \<open>app/presentation/api/v1/routes/intent.py\<close> that admit an execution:
  \<open>execute_intent\<close>, which consumes a token and records the action, and \<open>authorize_mutation\<close>, the gate
  before a local change; with the agent sessions they look at
  (\<open>app/domain/entities/agent_session.py\<close>, \<open>sqlalchemy_agent_session_repository.py\<close>).

  The routes put together the token service, the emergency guard, the registry of agents and the
  table of actions. Audit log lines and metrics are left out; the identifier of the new action and
  the clock are arguments.

  Shown: what a successful execution guarantees, and that an agent that was contained executes
  nothing. The gate before a local change is weaker: it does not consult the emergency guard, and
  it looks at the agent the request names instead of the one the token was issued to.
\<close>

section \<open>Agent sessions\<close>

datatype session_status =
    SS_CREATED | SS_ACTIVE | SS_FROZEN | SS_COMPLETED | SS_FAILED | SS_COMPROMISED
  | SS_ROLLBACK_PENDING | SS_ROLLING_BACK | SS_RECOVERED | SS_PARTIALLY_RECOVERED
  | SS_RECOVERY_FAILED | SS_CANCELLED

record agent_session =
  se_session_id :: string
  se_tenant_id :: string
  se_agent_id :: string
  se_intent_id :: "string option"
  se_policy_version :: "string option"
  se_started_at :: datetime
  se_ended_at :: "datetime option"
  se_status :: session_status
  se_risk_level :: string
  se_correlation_id :: string
  se_parent_session_id :: "string option"
  se_metadata :: pydict

type_synonym session_table = "agent_session list"

definition get_by_session_id :: "string \<Rightarrow> string \<Rightarrow> session_table \<Rightarrow> agent_session option" where
  "get_by_session_id tenant_id session_id rows =
     sql_first (sql_select (\<lambda>s. se_tenant_id s = tenant_id \<and> se_session_id s = session_id) rows)"

text \<open>A row is created at the time its session starts.\<close>

definition newest_sessions :: "nat \<Rightarrow> nat \<Rightarrow> agent_session list \<Rightarrow> agent_session list \<times> nat" where
  "newest_sessions limit offset found =
     (take limit (drop offset (sort_key (\<lambda>s. - se_started_at s) found)), length found)"

definition list_sessions_by_agent ::
  "string \<Rightarrow> string \<Rightarrow> nat \<Rightarrow> nat \<Rightarrow> session_table \<Rightarrow> agent_session list \<times> nat" where
  "list_sessions_by_agent tenant_id agent_id limit offset rows =
     newest_sessions limit offset
       (sql_select (\<lambda>s. se_tenant_id s = tenant_id \<and> se_agent_id s = agent_id) rows)"

definition list_sessions_by_tenant ::
  "string \<Rightarrow> session_status option \<Rightarrow> nat \<Rightarrow> nat \<Rightarrow> session_table \<Rightarrow> agent_session list \<times> nat" where
  "list_sessions_by_tenant tenant_id status limit offset rows =
     newest_sessions limit offset
       (sql_select (\<lambda>s. se_tenant_id s = tenant_id \<and>
          (case status of None \<Rightarrow> True | Some st \<Rightarrow> se_status s = st)) rows)"

text \<open>\<open>session_id\<close> is a unique column: a session of another tenant with this identifier is an error.\<close>

definition save_session ::
  "agent_session \<Rightarrow> session_table \<Rightarrow> (py_error + agent_session) \<times> session_table" where
  "save_session session rows =
     (let f = (\<lambda>s. s\<lparr>se_status := se_status session, se_ended_at := se_ended_at session,
                    se_risk_level := se_risk_level session, se_metadata := se_metadata session\<rparr>)
      in case get_by_session_id (se_tenant_id session) (se_session_id session) rows of
           None \<Rightarrow>
             (case sql_insert se_session_id session rows of
                None \<Rightarrow> (Inl IntegrityError, rows)
              | Some rows' \<Rightarrow> (Inr session, rows'))
         | Some model \<Rightarrow>
             (Inr (f model),
              sql_update (\<lambda>s. se_tenant_id s = se_tenant_id session \<and>
                se_session_id s = se_session_id session) f rows))"

definition update_session_status ::
  "string \<Rightarrow> string \<Rightarrow> session_status \<Rightarrow> datetime option \<Rightarrow> session_table
     \<Rightarrow> agent_session option \<times> session_table" where
  "update_session_status tenant_id session_id status ended_at rows =
     (let f = (\<lambda>s. s\<lparr>se_status := status,
                    se_ended_at := (if ended_at = None then se_ended_at s else ended_at)\<rparr>)
      in case get_by_session_id tenant_id session_id rows of
           None \<Rightarrow> (None, rows)
         | Some model \<Rightarrow>
             (Some (f model),
              sql_update (\<lambda>s. se_tenant_id s = tenant_id \<and> se_session_id s = session_id) f rows))"

section \<open>The routes\<close>

record ('k, 'n) gate_state =
  gt_tokens :: "('k, 'n) token_state"
  gt_emergency :: emergency_state
  gt_db :: containment_db
  gt_sessions :: session_table

definition no_expectation :: expectations where
  "no_expectation =
     \<lparr>ex_tenant_id = None, ex_audience = None, ex_resource = None, ex_action = None,
      ex_session_id = None, ex_param_hash = None\<rparr>"

text \<open>\<open>except ExecutionTokenError as exc: raise HTTPException(401, str(exc))\<close>\<close>

fun as_unauthorized :: "py_error \<Rightarrow> py_error" where
  "as_unauthorized (ExecutionTokenError m) = HTTPException 401 m"
| "as_unauthorized e = e"

fun agent_status_value :: "agent_status \<Rightarrow> string" where
  "agent_status_value AG_ACTIVE = ''active''"
| "agent_status_value AG_SUSPENDED = ''suspended''"
| "agent_status_value AG_QUARANTINED = ''quarantined''"
| "agent_status_value AG_REVOKED = ''revoked''"
| "agent_status_value AG_EXPIRED = ''expired''"

text \<open>The containment check both routes make on an agent identifier, \<open>None\<close> when it passes.\<close>

definition containment_check ::
  "az_settings \<Rightarrow> current_user \<Rightarrow> string \<Rightarrow> agent_table \<Rightarrow> py_error option" where
  "containment_check cfg user agent_id agents =
     (if agent_id = [] then None
      else case get_user_tenant_id cfg user of
             Inl e \<Rightarrow> Some e
           | Inr tenant_id \<Rightarrow>
               (case get_by_agent_id tenant_id agent_id agents of
                  None \<Rightarrow> None
                | Some a \<Rightarrow>
                    if agt_status a \<in> {AG_REVOKED, AG_QUARANTINED, AG_SUSPENDED}
                    then Some (HTTPException 403 (''Agent is '' @ agent_status_value (agt_status a) @ ''.''))
                    else None))"

definition execution_action ::
  "datetime \<Rightarrow> string \<Rightarrow> string \<Rightarrow> string \<Rightarrow> current_user \<Rightarrow> token_claims \<Rightarrow> protected_action" where
  "execution_action now action_id tenant_id correlation_id user c =
     \<lparr>pa_action_id = action_id, pa_tenant_id = tenant_id, pa_actor_user_id = Some (us_id user),
      pa_agent_id = tc_agent_id c, pa_authority_grant_id = None, pa_tool = tc_tool c, pa_resource = [],
      pa_action_type = ''execution'', pa_risk_score = 0, pa_policy_version = None,
      pa_correlation_id = correlation_id, pa_parent_action_id = None, pa_workflow_id = None,
      pa_reversibility = REV_UNKNOWN, pa_before_state_ref = None, pa_before_state_snapshot = None,
      pa_after_state_ref = None, pa_tool_arguments = [], pa_status = AS_EXECUTED,
      pa_decision_reason = [], pa_evaluated_at = None, pa_executed_at = None, pa_created_at = now\<rparr>"

text \<open>\<open>payload.get("tenant_id") or current_user.tenant_id or ""\<close>\<close>

definition guarded_tenant :: "current_user \<Rightarrow> token_claims \<Rightarrow> string" where
  "guarded_tenant user c =
     (if truthy (tc_tenant_id c) then the (tc_tenant_id c)
      else if truthy (us_tenant_id user) then the (us_tenant_id user) else [])"

text \<open>The checks of \<open>execute_intent\<close> between the token and the record, with the emergency state.\<close>

definition execution_checks ::
  "az_settings \<Rightarrow> current_user \<Rightarrow> string option \<Rightarrow> token_claims \<Rightarrow> agent_table \<Rightarrow> emergency_state
     \<Rightarrow> py_error option \<times> emergency_state" where
  "execution_checks cfg user body_agent c agents em =
     (if tc_sub c \<noteq> us_id user
      then (Some (HTTPException 403 ''Token subject does not match authenticated user.''), em)
      else if truthy (tc_tenant_id c) \<and> truthy (us_tenant_id user) \<and> tc_tenant_id c \<noteq> us_tenant_id user
      then (Some (HTTPException 403 ''Token tenant does not match authenticated user tenant.''), em)
      else
        (case assert_execution_permitted (guarded_tenant user c) em of
           (Inl e, em') \<Rightarrow> (Some e, em')
         | (Inr _, em') \<Rightarrow>
             if truthy body_agent \<and> tc_agent_id c \<noteq> [] \<and> body_agent \<noteq> Some (tc_agent_id c)
             then (Some (HTTPException 401 ''Token agent_id does not match request agent_id.''), em')
             else (containment_check cfg user
                     (if truthy body_agent then the body_agent else tc_agent_id c) agents, em')))"

definition execute_intent ::
  "('k, 'n) token_service \<Rightarrow> az_settings \<Rightarrow> datetime \<Rightarrow> string \<Rightarrow> string \<Rightarrow> current_user \<Rightarrow> string
     \<Rightarrow> string option \<Rightarrow> ('k, 'n) gate_state \<Rightarrow> (py_error + string) \<times> ('k, 'n) gate_state" where
  "execute_intent sv cfg now action_id correlation_id user token body_agent st =
     (case verify_execution_token sv now token no_expectation (gt_tokens st) of
        (Inl e, ts) \<Rightarrow> (Inl (as_unauthorized e), st\<lparr>gt_tokens := ts\<rparr>)
      | (Inr c, ts) \<Rightarrow>
          (case execution_checks cfg user body_agent c (cd_agents (gt_db st)) (gt_emergency st) of
             (Some e, em) \<Rightarrow> (Inl e, st\<lparr>gt_tokens := ts, gt_emergency := em\<rparr>)
           | (None, em) \<Rightarrow>
               (case get_user_tenant_id cfg user of
                  Inl e \<Rightarrow> (Inl e, st\<lparr>gt_tokens := ts, gt_emergency := em\<rparr>)
                | Inr tenant_id \<Rightarrow>
                    (let rows = snd (save_action
                           (execution_action now action_id tenant_id correlation_id user c)
                           (cd_actions (gt_db st)))
                     in (Inr (tc_agent_id c),
                         st\<lparr>gt_tokens := ts, gt_emergency := em,
                            gt_db := (gt_db st)\<lparr>cd_actions := rows\<rparr>\<rparr>)))))"

text \<open>The checks of \<open>authorize_mutation\<close> on a session.\<close>

definition session_check ::
  "az_settings \<Rightarrow> current_user \<Rightarrow> string option \<Rightarrow> string \<Rightarrow> session_table \<Rightarrow> py_error option" where
  "session_check cfg user session_id agent_id sessions =
     (if \<not> truthy session_id then None
      else case get_user_tenant_id cfg user of
             Inl e \<Rightarrow> Some e
           | Inr tenant_id \<Rightarrow>
               (case get_by_session_id tenant_id (the session_id) sessions of
                  None \<Rightarrow> None
                | Some s \<Rightarrow>
                    if se_tenant_id s \<noteq> tenant_id
                    then Some (HTTPException 403 ''Session tenant does not match authenticated user tenant.'')
                    else if agent_id \<noteq> [] \<and> se_agent_id s \<noteq> agent_id
                    then Some (HTTPException 403 ''Session agent does not match the requested agent.'')
                    else if se_status s = SS_FROZEN
                    then Some (HTTPException 403 ''Session is frozen.'')
                    else None))"

definition mutation_checks ::
  "az_settings \<Rightarrow> current_user \<Rightarrow> string option \<Rightarrow> string option \<Rightarrow> string \<Rightarrow> ('k, 'n) gate_state
     \<Rightarrow> py_error option" where
  "mutation_checks cfg user request_agent request_session token_agent st =
     (let agent_id = (if truthy request_agent then the request_agent else token_agent)
      in case containment_check cfg user agent_id (cd_agents (gt_db st)) of
           Some e \<Rightarrow> Some e
         | None \<Rightarrow> session_check cfg user request_session agent_id (gt_sessions st))"

text \<open>\<open>Inr ()\<close> is the answer \<open>mutation_authorized\<close>.\<close>

definition authorize_mutation ::
  "('k, 'n) token_service \<Rightarrow> az_settings \<Rightarrow> datetime \<Rightarrow> current_user \<Rightarrow> string option \<Rightarrow> string option
     \<Rightarrow> string option \<Rightarrow> ('k, 'n) gate_state \<Rightarrow> (py_error + unit) \<times> ('k, 'n) gate_state" where
  "authorize_mutation sv cfg now user token request_agent request_session st =
     (let verdict = (\<lambda>token_agent st'.
            (case mutation_checks cfg user request_agent request_session token_agent st' of
               Some e \<Rightarrow> Inl e | None \<Rightarrow> Inr (), st'))
      in if \<not> truthy token then verdict [] st
         else
           (case verify_execution_token sv now (the token) no_expectation (gt_tokens st) of
              (Inl e, ts) \<Rightarrow> (Inl (as_unauthorized e), st\<lparr>gt_tokens := ts\<rparr>)
            | (Inr c, ts) \<Rightarrow>
                if tc_sub c \<noteq> us_id user
                then (Inl (HTTPException 403 ''Token subject does not match authenticated user.''),
                      st\<lparr>gt_tokens := ts\<rparr>)
                else verdict (tc_agent_id c) (st\<lparr>gt_tokens := ts\<rparr>)))"

section \<open>What an execution guarantees\<close>

lemma permitted_not_denied:
  "assert_execution_permitted t em = (Inr u, em') \<Longrightarrow> t \<noteq> [] \<Longrightarrow> \<not> fst (is_emergency_deny_active t em)"
  by (auto simp: assert_execution_permitted_def split: prod.splits bool.splits if_splits)

lemma execution_checks_None:
  assumes "execution_checks cfg user body c agents em = (None, em')"
  shows "tc_sub c = us_id user"
    and "\<not> (truthy (tc_tenant_id c) \<and> truthy (us_tenant_id user) \<and> tc_tenant_id c \<noteq> us_tenant_id user)"
    and "guarded_tenant user c \<noteq> [] \<Longrightarrow> \<not> fst (is_emergency_deny_active (guarded_tenant user c) em)"
    and "tc_agent_id c \<noteq> [] \<Longrightarrow> containment_check cfg user (tc_agent_id c) agents = None"
proof -
  show sub: "tc_sub c = us_id user" and ten:
    "\<not> (truthy (tc_tenant_id c) \<and> truthy (us_tenant_id user) \<and> tc_tenant_id c \<noteq> us_tenant_id user)"
    using assms by (auto simp: execution_checks_def split: if_splits)
  obtain em1 where guard: "assert_execution_permitted (guarded_tenant user c) em = (Inr (), em1)"
    and rest: "(if truthy body \<and> tc_agent_id c \<noteq> [] \<and> body \<noteq> Some (tc_agent_id c)
       then (Some (HTTPException 401 ''Token agent_id does not match request agent_id.''), em1)
       else (containment_check cfg user (if truthy body then the body else tc_agent_id c) agents, em1)) =
      (None, em')"
    using assms sub ten by (simp add: execution_checks_def split: prod.splits sum.splits if_split_asm)
  show "guarded_tenant user c \<noteq> [] \<Longrightarrow> \<not> fst (is_emergency_deny_active (guarded_tenant user c) em)"
    using permitted_not_denied [OF guard] .
  show "tc_agent_id c \<noteq> [] \<Longrightarrow> containment_check cfg user (tc_agent_id c) agents = None"
    using rest by (auto split: if_splits)
qed

lemma execute_cases:
  assumes "execute_intent sv cfg now aid corr user token body st = (r, st')"
  obtains (failed) e where "r = Inl e" "gt_db st' = gt_db st"
    | (admitted) c t em where "fst (verify_execution_token sv now token no_expectation (gt_tokens st)) = Inr c"
        "execution_checks cfg user body c (cd_agents (gt_db st)) (gt_emergency st) = (None, em)"
        "get_user_tenant_id cfg user = Inr t" "r = Inr (tc_agent_id c)"
        "gt_db st' = (gt_db st)\<lparr>cd_actions :=
           snd (save_action (execution_action now aid t corr user c) (cd_actions (gt_db st)))\<rparr>"
proof -
  obtain v ts where v: "verify_execution_token sv now token no_expectation (gt_tokens st) = (v, ts)"
    by (metis surj_pair)
  show ?thesis
  proof (cases v)
    case (Inl e)
    then show ?thesis using assms v failed by (auto simp: execute_intent_def)
  next
    case (Inr c)
    obtain x em where x: "execution_checks cfg user body c (cd_agents (gt_db st)) (gt_emergency st) = (x, em)"
      by (metis surj_pair)
    show ?thesis
    proof (cases x)
      case (Some e)
      then show ?thesis using assms v Inr x failed by (auto simp: execute_intent_def)
    next
      case None
      show ?thesis
      proof (cases "get_user_tenant_id cfg user")
        case t: (Inl e)
        have "r = Inl e" "gt_db st' = gt_db st"
          using assms v \<open>v = Inr c\<close> x None by (auto simp: execute_intent_def t)
        then show ?thesis by (rule failed)
      next
        case t: (Inr t)
        then show ?thesis
          using assms v \<open>v = Inr c\<close> x None admitted [of c em t] by (auto simp: execute_intent_def Let_def)
      qed
    qed
  qed
qed

text \<open>
  C5. An execution is admitted only under all of its conditions: the token verified in this call and
  is not past its expiry second, it was issued to the authenticated user, the tenant is not under
  emergency deny, the agent of the token is not revoked, quarantined or suspended in the user's
  tenant, and the execution is recorded as a new executed action of that agent.
\<close>

theorem execution_sound:
  assumes "execute_intent sv cfg now aid corr user token body st = (Inr agent, st')"
  shows "\<exists>c t. fst (verify_execution_token sv now token no_expectation (gt_tokens st)) = Inr c \<and>
    agent = tc_agent_id c \<and> tc_type c = ''execution'' \<and> whole_seconds now \<le> tc_exp c \<and>
    tc_sub c = us_id user \<and> get_user_tenant_id cfg user = Inr t \<and>
    (guarded_tenant user c \<noteq> [] \<longrightarrow>
       \<not> fst (is_emergency_deny_active (guarded_tenant user c) (gt_emergency st))) \<and>
    (\<forall>a. agent \<noteq> [] \<and> get_by_agent_id t agent (cd_agents (gt_db st)) = Some a \<longrightarrow>
       agt_status a \<notin> {AG_REVOKED, AG_QUARANTINED, AG_SUSPENDED}) \<and>
    (aid \<notin> pa_action_id ` set (cd_actions (gt_db st)) \<longrightarrow>
       cd_actions (gt_db st') = cd_actions (gt_db st) @ [execution_action now aid t corr user c])"
proof (rule execute_cases [OF assms])
  fix c t em
  assume v: "fst (verify_execution_token sv now token no_expectation (gt_tokens st)) = Inr c"
    and x: "execution_checks cfg user body c (cd_agents (gt_db st)) (gt_emergency st) = (None, em)"
    and t: "get_user_tenant_id cfg user = Inr t" and r: "Inr agent = Inr (tc_agent_id c)"
    and db: "gt_db st' = (gt_db st)\<lparr>cd_actions :=
           snd (save_action (execution_action now aid t corr user c) (cd_actions (gt_db st)))\<rparr>"
  obtain ks ns st2 where ok: "verify_execution_token sv now token no_expectation (ks, ns) = (Inr c, st2)"
    using v by (metis prod.collapse)
  note tok = verified_token [OF ok]
  have "agt_status a \<notin> {AG_REVOKED, AG_QUARANTINED, AG_SUSPENDED}"
    if "agent \<noteq> []" "get_by_agent_id t agent (cd_agents (gt_db st)) = Some a" for a
    using execution_checks_None(4) [OF x] that r t
    by (simp add: containment_check_def split: if_splits)
  moreover have "cd_actions (gt_db st') = cd_actions (gt_db st) @ [execution_action now aid t corr user c]"
    if "aid \<notin> pa_action_id ` set (cd_actions (gt_db st))"
  proof -
    have "filter (\<lambda>a. pa_action_id a = aid) (cd_actions (gt_db st)) = []"
      using that by (force simp: filter_empty_conv)
    then show ?thesis by (simp add: db save_action_def sql_select_def execution_action_def)
  qed
  ultimately show ?thesis
    using v t r tok execution_checks_None(1,3) [OF x] by auto
qed simp

section \<open>Containment and execution together\<close>

lemma quarantined_stays:
  assumes "list_all (\<lambda>a. agt_tenant_id a = t \<and> agt_agent_id a = x \<longrightarrow> agt_status a = AG_QUARANTINED) (cd_agents db)"
  shows "list_all (\<lambda>a. agt_tenant_id a = t \<and> agt_agent_id a = x \<longrightarrow> agt_status a = AG_QUARANTINED)
    (cd_agents (fold (\<lambda>y db. snd (quarantine_agent now t' w y db)) ys db))"
  using assms
proof (induction ys arbitrary: db)
  case (Cons y ys)
  have "list_all (\<lambda>a. agt_tenant_id a = t \<and> agt_agent_id a = x \<longrightarrow> agt_status a = AG_QUARANTINED)
      (cd_agents (snd (quarantine_agent now t' w y db)))"
    unfolding quarantine_agents by (intro update_all) (use Cons.prems in \<open>auto simp: list_all_iff\<close>)
  then show ?case using Cons.IH by simp
qed simp

lemma contained_agent_row:
  assumes "contain_authority_tree sv ans now cid t target mode w auth reason False authority db = (Inr e, db')"
  obtains a where "get_by_agent_id t target (cd_agents db') = Some a" and "agt_status a = AG_QUARANTINED"
proof -
  obtain kids where agents:
    "cd_agents db' = cd_agents (fold (\<lambda>x db. snd (quarantine_agent now t w x db)) (target # kids) db)"
    by (rule contain_run [OF assms])
  have first: "list_all (\<lambda>a. agt_tenant_id a = t \<and> agt_agent_id a = target \<longrightarrow> agt_status a = AG_QUARANTINED)
      (cd_agents (snd (quarantine_agent now t w target db)))"
    unfolding quarantine_agents by (intro update_all) auto
  then have all: "list_all (\<lambda>a. agt_tenant_id a = t \<and> agt_agent_id a = target \<longrightarrow> agt_status a = AG_QUARANTINED)
      (cd_agents db')"
    unfolding agents using quarantined_stays [OF first, of now t w kids] by simp
  have keys: "map (\<lambda>a. (agt_tenant_id a, agt_agent_id a))
      (cd_agents (fold (\<lambda>y db. snd (quarantine_agent now t w y db)) ys db)) =
      map (\<lambda>a. (agt_tenant_id a, agt_agent_id a)) (cd_agents db)" for ys db
    by (induction ys arbitrary: db) (simp_all add: quarantine_agents sql_update_def)
  obtain a0 where "get_by_agent_id t target (cd_agents db) = Some a0"
    using assms by (cases "get_by_agent_id t target (cd_agents db)") (simp_all add: contain_authority_tree_def)
  then have "(t, target) \<in> (\<lambda>a. (agt_tenant_id a, agt_agent_id a)) ` set (cd_agents db)"
    by (auto simp: get_by_agent_id_def sql_select_def filter_eq_Cons_iff
        elim!: sql_first.elims intro!: image_eqI)
  then have "(t, target) \<in> (\<lambda>a. (agt_tenant_id a, agt_agent_id a)) ` set (cd_agents db')"
    using keys [of "target # kids" db] agents by (metis list.set_map)
  then have "sql_select (\<lambda>a. agt_tenant_id a = t \<and> agt_agent_id a = target) (cd_agents db') \<noteq> []"
    by (auto simp: sql_select_def filter_empty_conv)
  then obtain a rest where row: "sql_select (\<lambda>a. agt_tenant_id a = t \<and> agt_agent_id a = target)
      (cd_agents db') = a # rest" by (cases "sql_select (\<lambda>a. agt_tenant_id a = t \<and> agt_agent_id a = target)
      (cd_agents db')") auto
  then have "a \<in> set (sql_select (\<lambda>a. agt_tenant_id a = t \<and> agt_agent_id a = target) (cd_agents db'))" by simp
  then have "agt_status a = AG_QUARANTINED" using all by (auto simp: sql_select_def list_all_iff)
  with row that [of a] show ?thesis by (simp add: get_by_agent_id_def)
qed

text \<open>
  C6. A contained agent executes nothing: once an agent has been contained, an execution with a token
  that was issued to it fails for every user of the tenant, whatever agent the request names, and
  records no action, even if the token itself verifies.
\<close>

theorem contained_agent_cannot_execute:
  assumes "contain_authority_tree csv ans now cid t target mode w auth reason False authority db = (Inr e, gt_db st)"
    and "get_user_tenant_id cfg user = Inr t" and "target \<noteq> []"
    and "fst (verify_execution_token sv later token no_expectation (gt_tokens st)) = Inr c"
    and "tc_agent_id c = target"
    and "execute_intent sv cfg later aid corr user token body st = (r, st')"
  shows "(\<exists>err. r = Inl err) \<and> gt_db st' = gt_db st"
proof (rule execute_cases [OF assms(6)])
  fix c' t' em
  assume *: "fst (verify_execution_token sv later token no_expectation (gt_tokens st)) = Inr c'"
    "execution_checks cfg user body c' (cd_agents (gt_db st)) (gt_emergency st) = (None, em)"
  obtain a where a: "get_by_agent_id t target (cd_agents (gt_db st)) = Some a" "agt_status a = AG_QUARANTINED"
    by (rule contained_agent_row [OF assms(1)])
  have "containment_check cfg user target (cd_agents (gt_db st)) = None"
    using execution_checks_None(4) [OF *(2)] *(1) assms(3-5) by simp
  then show ?thesis using a assms(2,3) by (simp add: containment_check_def)
qed simp

text \<open>
  A gate over the family of the containment samples, with a token issued to the contained agent and
  the tenant under emergency deny or not.
\<close>

definition gate_user :: current_user where
  "gate_user = \<lparr>us_id = ''user-1'', us_tenant_id = Some ''t1'', us_role = None\<rparr>"

definition gate_claims :: token_claims where
  "gate_claims = one_token_claims\<lparr>tc_agent_id := ''a''\<rparr>"

definition gate_service where
  "gate_service = one_token_service\<lparr>ts_decode := (\<lambda>_ _ _ _. Some gate_claims)\<rparr>"

definition gate_of :: "bool \<Rightarrow> containment_db \<Rightarrow> (string, (string \<rightharpoonup> string \<times> datetime) nonce_cluster) gate_state" where
  "gate_of denied_tenant db =
     \<lparr>gt_tokens = (sample_keys, sample_cluster),
      gt_emergency = (let em = (new_emergency_service, None)
        in if denied_tenant then snd (activate_emergency_deny 0 ''t1'' ''admin'' [] [] em) else em),
      gt_db = db, gt_sessions = []\<rparr>"

definition free_run where
  "free_run = execute_intent gate_service sample_settings (seconds 10) ''act-1'' ''corr'' gate_user ''token'' None
     (gate_of False sample_family_db)"

lemma free_run_ok: "fst free_run = Inr ''a''"
  by code_simp

theorem execution_sound_witness:
  "fst free_run = Inr ''a'' \<and> (\<exists>c :: token_claims. ''a'' = tc_agent_id c \<and> tc_sub c = us_id gate_user \<and>
     whole_seconds (seconds 10) \<le> tc_exp c)"
proof -
  have "execute_intent gate_service sample_settings (seconds 10) ''act-1'' ''corr'' gate_user ''token'' None
     (gate_of False sample_family_db) = (Inr ''a'', snd free_run)"
    using free_run_ok by (simp add: free_run_def prod_eq_iff)
  from execution_sound [OF this] obtain c :: token_claims where "''a'' = tc_agent_id c" "tc_sub c = us_id gate_user"
    "whole_seconds (seconds 10) \<le> tc_exp c" by blast
  then show ?thesis using free_run_ok by blast
qed

lemma gate_token_verifies:
  "fst (verify_execution_token gate_service (seconds 10) ''token'' no_expectation
      (sample_keys, sample_cluster)) = Inr gate_claims"
  by code_simp

lemma gate_user_tenant: "get_user_tenant_id sample_settings gate_user = Inr ''t1''"
  by code_simp

lemma gate_of_parts:
  "gt_db (gate_of b db) = db" "gt_tokens (gate_of b db) = (sample_keys, sample_cluster)"
  by (simp_all add: gate_of_def)

definition contained_run where
  "contained_run = execute_intent gate_service sample_settings (seconds 10) ''act-1'' ''corr'' gate_user ''token'' None
     (gate_of False (snd sample_containment))"

theorem contained_agent_cannot_execute_witness:
  "(\<exists>err. fst contained_run = Inl err) \<and>
   gt_db (snd contained_run) = gt_db (gate_of False (snd sample_containment))"
proof -
  obtain e where run: "sample_containment = (Inr e, snd sample_containment)" by (rule sample_containment_ok)
  define st where "st = gate_of False (snd sample_containment)"
  have contained: "contain_authority_tree \<lparr>cs_has_tokens = True, cs_has_actions = True\<rparr> True 9 ''cnt'' ''t1''
      ''a'' CM_QUARANTINE ''admin'' ''admin'' [] False None sample_family_db = (Inr e, gt_db st)"
    using trans [OF sample_containment_def [symmetric] run] by (simp only: st_def gate_of_parts)
  have tok: "fst (verify_execution_token gate_service (seconds 10) ''token'' no_expectation (gt_tokens st)) =
      Inr gate_claims"
    using gate_token_verifies by (simp only: st_def gate_of_parts)
  have agent: "tc_agent_id gate_claims = ''a''" by (simp add: gate_claims_def)
  have res: "execute_intent gate_service sample_settings (seconds 10) ''act-1'' ''corr'' gate_user ''token'' None
     st = (fst contained_run, snd contained_run)"
    by (simp only: contained_run_def st_def prod.collapse)
  show ?thesis
    using contained_agent_cannot_execute [OF contained gate_user_tenant _ tok agent res]
    unfolding st_def by simp
qed

section \<open>Limits of the mutation gate\<close>

text \<open>
  The gate before a local change does not look at the emergency state: its answer is the same
  whether or not the tenant is under emergency deny, although the guard's documentation says that
  every execution entry point calls the guard.
\<close>

theorem mutation_gate_ignores_emergency:
  "authorize_mutation sv cfg now user token agent session (st\<lparr>gt_emergency := em\<rparr>) =
     (case authorize_mutation sv cfg now user token agent session st of
        (r, st') \<Rightarrow> (r, st'\<lparr>gt_emergency := em\<rparr>))"
  by (simp add: authorize_mutation_def mutation_checks_def Let_def
      split: option.splits prod.splits sum.splits)

text \<open>
  The gate checks the agent that the request names and never compares it with the agent of the
  token: a token issued to a contained agent passes when the request names another agent, while the
  execution route refuses it.
\<close>

theorem contained_agent_passes_mutation_gate:
  "fst contained_run = Inl (HTTPException 403 ''Agent is quarantined.'') \<and>
   fst (authorize_mutation gate_service sample_settings (seconds 10) gate_user (Some ''token'') (Some ''x'') None
     (gate_of False (snd sample_containment))) = Inr ()"
  by code_simp

end
