(* ===== verification/Token_Scope.thy ===== *)
theory Token_Scope
  imports Execution_Token Risk_Engine
begin

text \<open>
  \<open>TokenScopeEnforcementService\<close> (\<open>app/domain/services/token_scope_enforcement_service.py\<close>), a second
  check of the scope of a decoded token, made by other layers than the token service. Its hash
  functions are those of the token service.

  Shown: the two checks agree. Verification accepts claims exactly when they are those of an
  unexpired execution token for the expected audience, the tenant claim is well formed and this
  service allows them.
\<close>

definition enforce_scope ::
  "(string \<Rightarrow> string) \<Rightarrow> expectations \<Rightarrow> token_claims \<Rightarrow> authorization_decision \<times> string" where
  "enforce_scope sha ex c =
     (if ex_action ex \<noteq> None \<and> tc_action c \<noteq> ex_action ex
      then (DENY, ''Token action mismatch.'')
      else if ex_resource ex \<noteq> None \<and> tc_resource c \<noteq> ex_resource ex
      then (DENY, ''Token resource mismatch.'')
      else if (case (ex_resource ex, tc_resource_hash c) of
                 (Some r, Some h) \<Rightarrow> h \<noteq> compute_resource_hash sha r | _ \<Rightarrow> False)
      then (DENY, ''Token resource hash mismatch - possible tampering detected.'')
      else if ex_session_id ex \<noteq> None \<and> tc_session_id c \<noteq> ex_session_id ex
      then (DENY, ''Token session mismatch.'')
      else if ex_param_hash ex \<noteq> None \<and> str_claim (tc_param_hash c) \<noteq> str_claim (ex_param_hash ex)
      then (DENY, ''Token parameter hash mismatch - parameter substitution detected.'')
      else case ex_tenant_id ex of
             None \<Rightarrow> (ALLOW, ''Token scope valid.'')
           | Some t \<Rightarrow>
               if \<not> truthy (tc_tenant_id c)
               then (DENY, ''Token missing tenant_id: cross-tenant token use denied.'')
               else if tc_tenant_id c \<noteq> Some t
               then (DENY, ''Token tenant mismatch - cross-tenant use detected.'')
               else (ALLOW, ''Token scope valid.''))"

text \<open>What verification asks of the tenant claim besides that it is the expected one.\<close>

definition tenant_well_formed :: "expectations \<Rightarrow> token_claims \<Rightarrow> bool" where
  "tenant_well_formed ex c \<longleftrightarrow>
     (case tc_tenant_id c of
        None \<Rightarrow> True | Some t \<Rightarrow> \<not> blank t \<and> (ex_tenant_id ex = None \<or> length t \<le> 64))"

lemma tenant_checks:
  "check_tenant_claim (ex_tenant_id ex) (tc_tenant_id c) = None \<longleftrightarrow>
     tenant_well_formed ex c \<and>
     (ex_tenant_id ex = None \<or> truthy (tc_tenant_id c) \<and> tc_tenant_id c = ex_tenant_id ex)"
  by (cases "tc_tenant_id c"; cases "ex_tenant_id ex")
    (auto simp: check_tenant_claim_def tenant_well_formed_def validate_tenant_id_def)

lemma scope_checks:
  "fst (enforce_scope sha ex c) = ALLOW \<longleftrightarrow>
     check_scope_claims sha (ex\<lparr>ex_audience := None\<rparr>) c = None \<and>
     (ex_tenant_id ex = None \<or> truthy (tc_tenant_id c) \<and> tc_tenant_id c = ex_tenant_id ex)"
  by (cases "ex_tenant_id ex")
    (simp_all add: enforce_scope_def check_scope_claims_def compute_resource_hash_def split: option.split)

lemma audience_check:
  "check_scope_claims sha ex c = None \<longleftrightarrow>
     ex_audience ex \<in> {None, tc_aud c} \<and> check_scope_claims sha (ex\<lparr>ex_audience := None\<rparr>) c = None"
  by (auto simp: check_scope_claims_def split: option.split)

text \<open>
  C31. The two checks of the scope of a token agree: verification accepts the claims exactly when
  they are those of an execution token with an identifier, not past its expiry second and for the
  expected audience, with a well-formed tenant claim, that the scope service allows under the same
  expectations.
\<close>

theorem scope_checks_agree:
  "check_claims sv now ex c = None \<longleftrightarrow>
     tc_type c = ''execution'' \<and> tc_jti c \<noteq> [] \<and> whole_seconds now \<le> tc_exp c \<and>
     ex_audience ex \<in> {None, tc_aud c} \<and> tenant_well_formed ex c \<and>
     fst (enforce_scope (ts_sha256 sv) ex c) = ALLOW"
proof -
  have "check_claims sv now ex c = None \<longleftrightarrow>
      tc_type c = ''execution'' \<and> tc_jti c \<noteq> [] \<and> whole_seconds now \<le> tc_exp c \<and>
      check_tenant_claim (ex_tenant_id ex) (tc_tenant_id c) = None \<and>
      check_scope_claims (ts_sha256 sv) ex c = None"
    by (auto simp: check_claims_def split: option.split)
  then show ?thesis
    using audience_check [of "ts_sha256 sv" ex c] unfolding scope_checks tenant_checks by blast
qed

end
