(* ===== verification/Distributed_Lock.thy ===== *)
theory Distributed_Lock
  imports Nonce_Store
begin

text \<open>
  \<open>DistributedLockService\<close> (\<open>app/domain/services/distributed_lock_service.py\<close>) over the Redis client.
  A lock is a key whose value is the identifier of the lock; identifiers are arguments.

  The client's \<open>get\<close>, \<open>expire\<close> and \<open>delete\<close> swallow errors, so only \<open>acquire_lock\<close> can see that Redis
  is unavailable: the handlers of the other operations are never reached and are left out. \<open>log\<close> lines
  and fields of the answers that repeat arguments are left out.

  Shown: while every call is carried out without interruption, a lock is exclusive until it expires.
  Releasing reads the key and then deletes it: a call that is interrupted between the two deletes
  the lock of the next owner.
\<close>

section \<open>The service\<close>

definition lock_key :: "string \<Rightarrow> string \<Rightarrow> string" where
  "lock_key tenant_id resource = ''lock:'' @ tenant_id @ '':'' @ resource"

datatype acquire_answer =
    Lock_acquired string
  | Lock_unavailable
  | Lock_already_held "string option"

definition acquire_lock ::
  "'s redis_client \<Rightarrow> datetime \<Rightarrow> string \<Rightarrow> string \<Rightarrow> string \<Rightarrow> int \<Rightarrow> 's \<Rightarrow> acquire_answer \<times> 's" where
  "acquire_lock c now lock_id tenant_id resource ttl s =
     (case redis_set_nx c now (lock_key tenant_id resource) lock_id ttl s of
        (Inl e, s1) \<Rightarrow> (Lock_unavailable, s1)
      | (Inr acquired, s1) \<Rightarrow>
          if acquired then (Lock_acquired lock_id, s1)
          else (case redis_get c now (lock_key tenant_id resource) s1 of
                  (existing, s2) \<Rightarrow> (Lock_already_held existing, s2)))"

text \<open>The check that \<open>release_lock\<close> and \<open>extend_lock\<close> begin with: an error, or \<open>None\<close> for the owner.\<close>

definition owner_check ::
  "'s redis_client \<Rightarrow> datetime \<Rightarrow> string \<Rightarrow> string \<Rightarrow> string \<Rightarrow> 's \<Rightarrow> string option \<times> 's" where
  "owner_check c now tenant_id resource lock_id s =
     (case redis_get c now (lock_key tenant_id resource) s of
        (None, s1) \<Rightarrow> (Some ''lock_not_found'', s1)
      | (Some existing, s1) \<Rightarrow>
          (if existing \<noteq> lock_id then Some ''lock_owner_mismatch'' else None, s1))"

text \<open>The answer is \<open>Inl\<close> of the error or \<open>Inr\<close> of the identifier that was released.\<close>

definition release_lock ::
  "'s redis_client \<Rightarrow> datetime \<Rightarrow> string \<Rightarrow> string \<Rightarrow> string option \<Rightarrow> 's \<Rightarrow> (string + string) \<times> 's" where
  "release_lock c now tenant_id resource lock_id s =
     (case lock_id of
        None \<Rightarrow> (Inl ''missing_lock_id'', s)
      | Some i \<Rightarrow>
          (case owner_check c now tenant_id resource i s of
             (Some e, s1) \<Rightarrow> (Inl e, s1)
           | (None, s1) \<Rightarrow> (Inr i, snd (redis_delete c now (lock_key tenant_id resource) s1))))"

definition is_locked ::
  "'s redis_client \<Rightarrow> datetime \<Rightarrow> string \<Rightarrow> string \<Rightarrow> 's \<Rightarrow> (bool \<times> string option) \<times> 's" where
  "is_locked c now tenant_id resource s =
     (case redis_get c now (lock_key tenant_id resource) s of
        (existing, s1) \<Rightarrow> ((existing \<noteq> None, existing), s1))"

text \<open>\<open>Inr\<close> of the field \<open>extended\<close>.\<close>

definition extend_lock ::
  "'s redis_client \<Rightarrow> datetime \<Rightarrow> string \<Rightarrow> string \<Rightarrow> string \<Rightarrow> int \<Rightarrow> 's \<Rightarrow> (string + bool) \<times> 's" where
  "extend_lock c now tenant_id resource lock_id ttl s =
     (case owner_check c now tenant_id resource lock_id s of
        (Some e, s1) \<Rightarrow> (Inl e, s1)
      | (None, s1) \<Rightarrow>
          (case redis_expire c now (lock_key tenant_id resource) ttl s1 of
             (refreshed, s2) \<Rightarrow> (Inr refreshed, s2)))"

definition refresh_heartbeat ::
  "'s redis_client \<Rightarrow> datetime \<Rightarrow> string \<Rightarrow> string \<Rightarrow> string \<Rightarrow> int \<Rightarrow> 's \<Rightarrow> (string + bool) \<times> 's" where
  "refresh_heartbeat = extend_lock"

section \<open>What Redis promises\<close>

text \<open>
  \<open>view s t k\<close> is the value the server has for \<open>k\<close> at time \<open>t\<close> when it is left alone from state \<open>s\<close>.
  The promises concern times from the command on. A command that fails may have been carried out or
  not; \<open>DEL\<close> and \<open>EXPIRE\<close> touch their key only, and \<open>SET NX\<close> never replaces a value.
\<close>

definition kept :: "('s \<Rightarrow> datetime \<Rightarrow> string \<Rightarrow> string option) \<Rightarrow> datetime \<Rightarrow> string \<Rightarrow> 's \<Rightarrow> 's \<Rightarrow> bool" where
  "kept view now k s s' \<longleftrightarrow> (\<forall>t\<ge>now. \<forall>w. view s t k = Some w \<longrightarrow> view s' t k = Some w)"

definition lock_laws ::
  "'s redis_driver \<Rightarrow> ('s \<Rightarrow> datetime \<Rightarrow> string \<Rightarrow> string option) \<Rightarrow> bool" where
  "lock_laws drv view \<longleftrightarrow>
     (\<forall>now key val ttl s k. kept view now k s (snd (drv_set_nx drv now key val ttl s))) \<and>
     (\<forall>now key val ttl s b s'. drv_set_nx drv now key val ttl s = (Inr b, s') \<longrightarrow>
        b = (view s now key = None) \<and>
        (b \<longrightarrow> (\<forall>t. now \<le> t \<and> t < now + seconds ttl \<longrightarrow> view s' t key = Some val))) \<and>
     (\<forall>now key s k. kept view now k s (snd (drv_get drv now key s))) \<and>
     (\<forall>now key s v s'. drv_get drv now key s = (Inr v, s') \<longrightarrow> v = view s now key) \<and>
     (\<forall>now key ttl s k. k \<noteq> key \<longrightarrow> kept view now k s (snd (drv_expire drv now key ttl s))) \<and>
     (\<forall>now key ttl s s'. drv_expire drv now key ttl s = (Inr True, s') \<longrightarrow>
        (\<forall>t. now \<le> t \<and> t < now + seconds ttl \<longrightarrow> view s' t key = view s now key)) \<and>
     (\<forall>now key s k. k \<noteq> key \<longrightarrow> kept view now k s (snd (drv_delete drv now key s)))"

lemma kept_refl [simp]: "kept view now k s s"
  by (simp add: kept_def)

lemma kept_trans: "kept view now k s s1 \<Longrightarrow> kept view now k s1 s2 \<Longrightarrow> kept view now k s s2"
  by (simp add: kept_def)

text \<open>\<open>L\<close> holds the key from \<open>now\<close> until \<open>u\<close>, if nothing else happens.\<close>

definition held_until ::
  "('s \<Rightarrow> datetime \<Rightarrow> string \<Rightarrow> string option) \<Rightarrow> datetime \<Rightarrow> datetime \<Rightarrow> string \<Rightarrow> string \<Rightarrow> 's \<Rightarrow> bool" where
  "held_until view now u k L s \<longleftrightarrow> (\<forall>t. now \<le> t \<and> t < u \<longrightarrow> view s t k = Some L)"

lemma held_kept: "held_until view now u k L s \<Longrightarrow> kept view now k s s' \<Longrightarrow> held_until view now u k L s'"
  by (simp add: held_until_def kept_def)

lemma held_later: "held_until view now u k L s \<Longrightarrow> now \<le> n \<Longrightarrow> held_until view n u k L s"
  by (auto simp: held_until_def)

lemma set_keeps:
  assumes "lock_laws (rd_driver c) view"
  shows "kept view now k s (snd (redis_set_nx c now key val ttl s))"
proof -
  have "kept view now k s (snd (drv_set_nx (rd_driver c) now key val ttl s))"
    using assms by (simp add: lock_laws_def)
  then show ?thesis by (auto simp: redis_set_nx_def split: prod.split sum.split)
qed

lemma get_keeps:
  assumes "lock_laws (rd_driver c) view"
  shows "kept view now k s (snd (redis_get c now key s))"
proof -
  have "kept view now k s (snd (drv_get (rd_driver c) now key s))"
    using assms by (simp add: lock_laws_def)
  then show ?thesis by (auto simp: redis_get_def split: prod.split sum.split)
qed

lemma expire_keeps:
  assumes "lock_laws (rd_driver c) view" and "k \<noteq> key"
  shows "kept view now k s (snd (redis_expire c now key ttl s))"
proof -
  have "kept view now k s (snd (drv_expire (rd_driver c) now key ttl s))"
    using assms by (simp add: lock_laws_def)
  then show ?thesis by (auto simp: redis_expire_def split: prod.split sum.split)
qed

lemma delete_keeps:
  assumes "lock_laws (rd_driver c) view" and "k \<noteq> key"
  shows "kept view now k s (snd (redis_delete c now key s))"
proof -
  have "kept view now k s (snd (drv_delete (rd_driver c) now key s))"
    using assms by (simp add: lock_laws_def)
  then show ?thesis by (auto simp: redis_delete_def split: prod.split sum.split)
qed

lemma get_answer:
  assumes "lock_laws (rd_driver c) view" and "fst (redis_get c now key s) = Some v"
  shows "view s now key = Some v"
  using assms by (auto simp: redis_get_def lock_laws_def split: prod.splits sum.splits if_splits)

lemma owner_check_keeps:
  assumes "lock_laws (rd_driver c) view"
  shows "kept view now k s (snd (owner_check c now t r i s))"
  using get_keeps [OF assms, of now k s "lock_key t r"]
  by (auto simp: owner_check_def split: prod.split option.split)

lemma owner_check_passes:
  assumes "lock_laws (rd_driver c) view" and "fst (owner_check c now t r i s) = None"
  shows "view s now (lock_key t r) = Some i"
  using assms(2) get_answer [OF assms(1), of now "lock_key t r" s]
  by (auto simp: owner_check_def split: prod.splits option.splits if_splits)

section \<open>Exclusion\<close>

datatype lock_call =
    Acquire datetime string string string int
  | Release datetime string string "string option"
  | Query datetime string string
  | Extend datetime string string string int

fun lock_call_time :: "lock_call \<Rightarrow> datetime" where
  "lock_call_time (Acquire now i t r ttl) = now"
| "lock_call_time (Release now t r i) = now"
| "lock_call_time (Query now t r) = now"
| "lock_call_time (Extend now t r i ttl) = now"

fun lock_step :: "'s redis_client \<Rightarrow> lock_call \<Rightarrow> 's \<Rightarrow> 's" where
  "lock_step c (Acquire now i t r ttl) s = snd (acquire_lock c now i t r ttl s)"
| "lock_step c (Release now t r i) s = snd (release_lock c now t r i s)"
| "lock_step c (Query now t r) s = snd (is_locked c now t r s)"
| "lock_step c (Extend now t r i ttl) s = snd (extend_lock c now t r i ttl s)"

text \<open>The call does not release or extend the lock \<open>L\<close> on \<open>k\<close> under its own identifier.\<close>

fun spares :: "string \<Rightarrow> string \<Rightarrow> lock_call \<Rightarrow> bool" where
  "spares k L (Release now t r i) = (lock_key t r \<noteq> k \<or> i \<noteq> Some L)"
| "spares k L (Extend now t r i ttl) = (lock_key t r \<noteq> k \<or> i \<noteq> L)"
| "spares k L call = True"

fun in_order :: "datetime \<Rightarrow> lock_call list \<Rightarrow> datetime \<Rightarrow> bool" where
  "in_order now [] later = (now \<le> later)"
| "in_order now (e # es) later = (now \<le> lock_call_time e \<and> in_order (lock_call_time e) es later)"

lemma acquire_keeps:
  assumes "lock_laws (rd_driver c) view"
  shows "kept view now k s (snd (acquire_lock c now i t r ttl s))"
proof -
  obtain x s1 where set: "redis_set_nx c now (lock_key t r) i ttl s = (x, s1)" by (metis surj_pair)
  have "kept view now k s s1" using set_keeps [OF assms, of now k s "lock_key t r" i ttl] set by simp
  moreover have "kept view now k s1 (snd (redis_get c now (lock_key t r) s1))"
    by (rule get_keeps [OF assms])
  ultimately show ?thesis using set
    by (auto simp: acquire_lock_def split: sum.split prod.split intro: kept_trans)
qed

lemma release_keeps:
  assumes "lock_laws (rd_driver c) view" and "lock_key t r \<noteq> k \<or> view s now k \<noteq> i \<or> i = None"
  shows "kept view now k s (snd (release_lock c now t r i s))"
proof (cases i)
  case (Some j)
  obtain x s1 where check: "owner_check c now t r j s = (x, s1)" by (metis surj_pair)
  have k1: "kept view now k s s1" using owner_check_keeps [OF assms(1), of now k s t r j] check by simp
  show ?thesis
  proof (cases x)
    case None
    then have "lock_key t r \<noteq> k"
      using assms(2) owner_check_passes [OF assms(1), of now t r j s] check Some by auto
    from kept_trans [OF k1 delete_keeps [OF assms(1) this [symmetric]]] show ?thesis
      using Some check None by (simp add: release_lock_def)
  next
    case (Some e)
    with \<open>i = Some j\<close> check k1 show ?thesis by (simp add: release_lock_def)
  qed
qed (simp add: release_lock_def)

lemma extend_keeps:
  assumes "lock_laws (rd_driver c) view" and "lock_key t r \<noteq> k \<or> view s now k \<noteq> Some i"
  shows "kept view now k s (snd (extend_lock c now t r i ttl s))"
proof -
  obtain x s1 where check: "owner_check c now t r i s = (x, s1)" by (metis surj_pair)
  have k1: "kept view now k s s1" using owner_check_keeps [OF assms(1), of now k s t r i] check by simp
  show ?thesis
  proof (cases x)
    case None
    then have "lock_key t r \<noteq> k"
      using assms(2) owner_check_passes [OF assms(1), of now t r i s] check by auto
    from kept_trans [OF k1 expire_keeps [OF assms(1) this [symmetric]]] show ?thesis
      using check None by (simp add: extend_lock_def case_prod_beta)
  next
    case (Some e)
    with check k1 show ?thesis by (simp add: extend_lock_def)
  qed
qed

lemma lock_step_keeps:
  assumes laws: "lock_laws (rd_driver c) view" and "held_until view (lock_call_time e) u k L s"
    and "spares k L e"
  shows "held_until view (lock_call_time e) u k L (lock_step c e s)"
proof (cases "lock_call_time e < u")
  case True
  then have now: "view s (lock_call_time e) k = Some L" using assms(2) by (simp add: held_until_def)
  have "kept view (lock_call_time e) k s (lock_step c e s)"
  proof (cases e)
    case (Query now t r)
    then show ?thesis using get_keeps [OF laws, of now k s "lock_key t r"]
      by (simp add: is_locked_def case_prod_beta)
  next
    case (Acquire n i t r ttl)
    then show ?thesis by (simp add: acquire_keeps [OF laws])
  next
    case (Release n t r i)
    then show ?thesis using now assms(3) by (auto intro: release_keeps [OF laws])
  next
    case (Extend n t r i ttl)
    then show ?thesis using now assms(3) by (auto intro: extend_keeps [OF laws])
  qed
  then show ?thesis by (rule held_kept [OF assms(2)])
qed (auto simp: held_until_def)

lemma lock_run_keeps:
  assumes laws: "lock_laws (rd_driver c) view"
  shows "held_until view now u k L s \<Longrightarrow> in_order now es later \<Longrightarrow> list_all (spares k L) es \<Longrightarrow>
    held_until view later u k L (fold (lock_step c) es s)"
proof (induction es arbitrary: now s)
  case (Cons e es)
  have "held_until view (lock_call_time e) u k L (lock_step c e s)"
    using lock_step_keeps [OF laws held_later [OF Cons.prems(1)]] Cons.prems by simp
  then show ?case using Cons.IH Cons.prems by simp
qed (simp add: held_later)

lemma acquired_holds:
  assumes "lock_laws (rd_driver c) view" and "acquire_lock c now L t r ttl s = (Lock_acquired L', s1)"
  shows "view s now (lock_key t r) = None" and "held_until view now (now + seconds ttl) (lock_key t r) L s1"
proof -
  have avail: "rd_available c"
    and set: "drv_set_nx (rd_driver c) now (lock_key t r) L ttl s = (Inr True, s1)"
    using assms(2)
    by (auto simp: acquire_lock_def redis_set_nx_def split: prod.splits sum.splits if_splits)
  show "view s now (lock_key t r) = None" and "held_until view now (now + seconds ttl) (lock_key t r) L s1"
    using assms(1) set unfolding lock_laws_def held_until_def by auto
qed

lemma extended_holds:
  assumes laws: "lock_laws (rd_driver c) view" and "extend_lock c now t r L ttl s = (Inr True, s1)"
  shows "held_until view now (now + seconds ttl) (lock_key t r) L s1"
proof -
  obtain s0 where check: "owner_check c now t r L s = (None, s0)"
    and exp: "redis_expire c now (lock_key t r) ttl s0 = (True, s1)"
    using assms(2) by (auto simp: extend_lock_def split: prod.splits option.splits)
  have "kept view now (lock_key t r) s s0"
    using owner_check_keeps [OF laws, of now "lock_key t r" s t r L] check by simp
  then have at: "view s0 now (lock_key t r) = Some L"
    using owner_check_passes [OF laws, of now t r L s] check by (simp add: kept_def)
  have "drv_expire (rd_driver c) now (lock_key t r) ttl s0 = (Inr True, s1)"
    using exp by (auto simp: redis_expire_def split: prod.splits sum.splits if_splits)
  then show ?thesis using laws at unfolding lock_laws_def held_until_def by auto
qed

text \<open>
  C12. A lock is exclusive: after it was acquired, or extended by its owner, nobody acquires the same
  resource before the time to live is over, whatever calls with other identifiers come in between and
  whenever Redis fails, provided every call is carried out without interruption and the server keeps
  the promises of its commands.
\<close>

theorem lock_exclusive:
  assumes "lock_laws (rd_driver c) view"
    and "acquire_lock c now L t r ttl s = (Lock_acquired L, s1) \<or> extend_lock c now t r L ttl s = (Inr True, s1)"
    and "in_order now es later" and "list_all (spares (lock_key t r) L) es"
    and "later < now + seconds ttl"
  shows "fst (acquire_lock c later M t r ttl' (fold (lock_step c) es s1)) \<noteq> Lock_acquired M'"
proof
  assume "fst (acquire_lock c later M t r ttl' (fold (lock_step c) es s1)) = Lock_acquired M'"
  then have free: "view (fold (lock_step c) es s1) later (lock_key t r) = None"
    by (metis acquired_holds(1) [OF assms(1)] prod.collapse)
  have "held_until view now (now + seconds ttl) (lock_key t r) L s1"
    using assms(2) acquired_holds(2) [OF assms(1)] extended_holds [OF assms(1)] by blast
  from lock_run_keeps [OF assms(1) this assms(3,4)] free assms(5)
  show False by (simp add: held_until_def)
qed

definition sample_view :: "(string \<rightharpoonup> string \<times> datetime) \<Rightarrow> datetime \<Rightarrow> string \<Rightarrow> string option" where
  "sample_view s t k = (case s k of None \<Rightarrow> None | Some (w, e) \<Rightarrow> if t < e then Some w else None)"

lemma sample_lock_laws: "lock_laws sample_driver sample_view"
  by (auto simp: lock_laws_def kept_def sample_driver_def sample_view_def
      split: option.splits if_splits prod.splits)

theorem lock_exclusive_witness:
  "let s1 = snd (acquire_lock sample_client 0 ''L1'' ''t1'' ''plan-1'' 30 Map.empty);
       s2 = fold (lock_step sample_client)
              [Query (seconds 1) ''t1'' ''plan-1'', Release (seconds 2) ''t1'' ''plan-1'' (Some ''L0'')] s1
   in fst (acquire_lock sample_client (seconds 3) ''L2'' ''t1'' ''plan-1'' 30 s2) \<noteq> Lock_acquired ''L2''"
proof -
  have "fst (acquire_lock sample_client 0 ''L1'' ''t1'' ''plan-1'' 30 Map.empty) = Lock_acquired ''L1''"
    by code_simp
  then have acq: "acquire_lock sample_client 0 ''L1'' ''t1'' ''plan-1'' 30 Map.empty =
      (Lock_acquired ''L1'', snd (acquire_lock sample_client 0 ''L1'' ''t1'' ''plan-1'' 30 Map.empty))"
    by (simp add: prod_eq_iff)
  have laws: "lock_laws (rd_driver sample_client) sample_view" by (simp add: sample_lock_laws)
  from lock_exclusive [OF laws disjI1 [OF acq], of "[Query (seconds 1) ''t1'' ''plan-1'',
      Release (seconds 2) ''t1'' ''plan-1'' (Some ''L0'')]" "seconds 3" "''L2''" 30 "''L2''"]
  show ?thesis by (simp add: Let_def seconds_def)
qed

section \<open>Limits\<close>

text \<open>
  Releasing is not atomic: when the lock expires between the check of the owner and the deletion and
  another process acquires it, the deletion removes the lock of that process, and a third one
  acquires it as well.
\<close>

theorem interrupted_release_frees_foreign_lock:
  "let s1 = snd (acquire_lock sample_client 0 ''L1'' ''t'' ''r'' 10 Map.empty);
       (verdict, s2) = owner_check sample_client (seconds 9) ''t'' ''r'' ''L1'' s1;
       (second, s3) = acquire_lock sample_client (seconds 11) ''L2'' ''t'' ''r'' 60 s2;
       s4 = snd (redis_delete sample_client (seconds 12) (lock_key ''t'' ''r'') s3);
       (third, s5) = acquire_lock sample_client (seconds 13) ''L3'' ''t'' ''r'' 60 s4
   in verdict = None \<and> second = Lock_acquired ''L2'' \<and> third = Lock_acquired ''L3''"
  by code_simp

text \<open>
  \<open>release_lock\<close> ignores the answer of \<open>delete\<close>: when Redis fails there, the lock is reported as
  released and stays.
\<close>

definition undeletable_client :: "(string \<rightharpoonup> string \<times> datetime) redis_client" where
  "undeletable_client =
     \<lparr>rd_available = True, rd_driver = sample_driver\<lparr>drv_delete := (\<lambda>now k s. (Inl ''timeout'', s))\<rparr>\<rparr>"

theorem failed_release_reported_as_done:
  "let s1 = snd (acquire_lock undeletable_client 0 ''L1'' ''t'' ''r'' 10 Map.empty);
       (answer, s2) = release_lock undeletable_client (seconds 1) ''t'' ''r'' (Some ''L1'') s1
   in answer = Inr ''L1'' \<and> fst (is_locked undeletable_client (seconds 2) ''t'' ''r'' s2) = (True, Some ''L1'')"
  by code_simp

text \<open>
  An unavailable server is reported as an unlocked resource, and a colon in a tenant or a resource
  identifier makes the keys of two tenants coincide.
\<close>

theorem unavailable_means_unlocked:
  "\<not> rd_available c \<Longrightarrow> fst (is_locked c now t r s) = (False, None)"
  by (simp add: is_locked_def redis_get_def)

theorem lock_keys_collide: "lock_key ''acme'' ''eu:db'' = lock_key ''acme:eu'' ''db''"
  by (simp add: lock_key_def)

end
