(* ===== verification/Advanced_Containment.thy ===== *)
theory Advanced_Containment
  imports Execution_Gate
begin

text \<open>
  \<open>AdvancedContainmentService\<close> (\<open>app/domain/services/advanced_containment_service.py\<close>) over the tables
  of the cascade containment: graduated containment, verification, policies, the handling of
  failures, the audit trail of an event, notifications and the hand-off to recovery. The score of the
  blast radius is left out. \<open>isoformat\<close> and the JSON of the audit trail are parameters; answers that
  repeat arguments are left out.

  Shown: a verification that passes means that the agent is disarmed, and verification passes after a
  cascade containment; the status a graduated containment ends with; the audit trail only grows.
  Several operations weaken what was there: a graduated containment lifts a revocation, and writing
  to the audit trail moves the completion time.
\<close>

definition merge_details :: "(string, string) dict \<Rightarrow> (string, string) dict \<Rightarrow> (string, string) dict" where
  "merge_details old new = fold (\<lambda>(k, v) d. AList.update k v d) new old"

section \<open>Graduated containment\<close>

definition STAGE_ORDER :: "containment_mode list" where
  "STAGE_ORDER = [CM_OBSERVE, CM_RESTRICT, CM_SUSPEND, CM_QUARANTINE]"

fun stage_index :: "'a \<Rightarrow> 'a list \<Rightarrow> nat option" where
  "stage_index x [] = None"
| "stage_index x (y # ys) = (if x = y then Some 0 else map_option Suc (stage_index x ys))"

definition apply_stage_status ::
  "datetime \<Rightarrow> string \<Rightarrow> string \<Rightarrow> containment_mode \<Rightarrow> containment_db \<Rightarrow> containment_db" where
  "apply_stage_status now tenant_id agent_id stage db =
     (if get_by_agent_id tenant_id agent_id (cd_agents db) = None \<or> stage = CM_OBSERVE then db
      else if stage \<in> {CM_RESTRICT, CM_SUSPEND}
      then db\<lparr>cd_agents := snd (update_agent_status now tenant_id agent_id AG_SUSPENDED (cd_agents db))\<rparr>
      else if stage = CM_QUARANTINE
      then db\<lparr>cd_agents := snd (update_agent_status now tenant_id agent_id AG_QUARANTINED (cd_agents db))\<rparr>
      else db)"

definition update_event ::
  "datetime \<Rightarrow> containment_event \<Rightarrow> containment_status \<Rightarrow> (string, string) dict \<Rightarrow> containment_db
     \<Rightarrow> containment_db" where
  "update_event now event status details db =
     db\<lparr>cd_events := snd (update_event_status now (ce_tenant_id event) (ce_containment_id event) status
          (Some (merge_details (ce_result_details event) details)) (cd_events db))\<rparr>"

definition stage_event ::
  "datetime \<Rightarrow> string \<Rightarrow> string \<Rightarrow> string \<Rightarrow> containment_mode \<Rightarrow> string \<Rightarrow> string \<Rightarrow> string \<Rightarrow> bool
     \<Rightarrow> containment_event" where
  "stage_event now containment_id tenant_id target stage initiated_by authorized_by reason dry_run =
     \<lparr>ce_containment_id = containment_id, ce_tenant_id = tenant_id, ce_target_agent_id = target,
      ce_target_authority_id = None, ce_mode = stage, ce_status = CS_PENDING,
      ce_initiated_by = initiated_by, ce_authorized_by = authorized_by, ce_reason = reason,
      ce_affected_agent_ids = [], ce_affected_authority_ids = [], ce_affected_session_ids = [],
      ce_affected_token_ids = [], ce_affected_action_ids = [], ce_dry_run = dry_run,
      ce_result_details = [(''staged_containment'', ''true''), (''stage_sequence'', mode_value stage)],
      ce_created_at = now, ce_completed_at = None\<rparr>"

text \<open>One round of the loop. All stages are written to one event.\<close>

definition apply_stage ::
  "datetime \<Rightarrow> string \<Rightarrow> string \<Rightarrow> string \<Rightarrow> string \<Rightarrow> string \<Rightarrow> string \<Rightarrow> bool \<Rightarrow> containment_mode
     \<Rightarrow> containment_db \<Rightarrow> containment_db" where
  "apply_stage now containment_id tenant_id target initiated_by authorized_by reason dry_run stage db =
     (let (saved, events) = save_event
            (stage_event now containment_id tenant_id target stage initiated_by authorized_by reason dry_run)
            (cd_events db);
          db1 = db\<lparr>cd_events := events\<rparr>;
          db2 = (if dry_run then db1 else apply_stage_status now tenant_id target stage db1)
      in update_event now saved CS_COMPLETED [(''stage_applied'', mode_value stage)] db2)"

text \<open>The answer is the list of the stages and the final one.\<close>

definition staged_containment ::
  "datetime \<Rightarrow> string \<Rightarrow> string \<Rightarrow> string \<Rightarrow> string \<Rightarrow> string \<Rightarrow> containment_mode \<Rightarrow> containment_mode
     \<Rightarrow> string \<Rightarrow> bool \<Rightarrow> containment_db
     \<Rightarrow> (py_error + containment_mode list \<times> containment_mode) \<times> containment_db" where
  "staged_containment now containment_id tenant_id target initiated_by authorized_by start_stage
       max_stage reason dry_run db =
     (case (stage_index start_stage STAGE_ORDER, stage_index max_stage STAGE_ORDER) of
        (Some i, Some m) \<Rightarrow>
          (let stages = drop i (take (Suc m) STAGE_ORDER)
           in (Inr (stages, if stages = [] then start_stage else last stages),
               fold (apply_stage now containment_id tenant_id target initiated_by authorized_by reason
                       dry_run) stages db))
      | _ \<Rightarrow> (Inl (ValueError ''not in list''), db))"

section \<open>Verification\<close>

text \<open>The checks in their order, with the verdict of each.\<close>

definition containment_checks ::
  "containment_service \<Rightarrow> string \<Rightarrow> string \<Rightarrow> registered_agent \<Rightarrow> containment_db \<Rightarrow> (string \<times> bool) list" where
  "containment_checks sv tenant_id target agent db =
     (let grants = fst (list_by_grantee tenant_id target None 1000 0 (cd_grants db));
          tokens = fst (list_tokens_by_agent tenant_id target (Some TK_ACTIVE) 1000 0 (cd_tokens db));
          actions = fst (list_actions_by_agent tenant_id target 1000 0 (cd_actions db))
      in [(''agent_quarantined'', agt_status agent = AG_QUARANTINED),
          (''all_grants_revoked'', list_all (\<lambda>g. au_status g = AU_REVOKED) grants),
          (''tokens_revoked'', \<not> cs_has_tokens sv \<or> tokens = []),
          (''pending_actions_contained'', \<not> cs_has_actions sv \<or>
             list_all (\<lambda>a. pa_status a \<in> {AS_CONTAINED, AS_EXECUTED, AS_FAILED, AS_DENIED}) actions)])"

definition verify_containment ::
  "(datetime \<Rightarrow> string) \<Rightarrow> containment_service \<Rightarrow> datetime \<Rightarrow> string \<Rightarrow> string \<Rightarrow> string \<Rightarrow> containment_db
     \<Rightarrow> (bool \<times> (string \<times> bool) list \<times> containment_status) \<times> containment_db" where
  "verify_containment show_time sv now tenant_id containment_id target db =
     (case get_by_agent_id tenant_id target (cd_agents db) of
        None \<Rightarrow> ((False, [(''agent_quarantined'', False)], CS_FAILED), db)
      | Some agent \<Rightarrow>
          (let checks = containment_checks sv tenant_id target agent db;
               all_passed = list_all snd checks;
               status = (if all_passed then CS_COMPLETED else CS_FAILED);
               db' = (case get_by_containment_id tenant_id containment_id (cd_events db) of
                        None \<Rightarrow> db
                      | Some event \<Rightarrow>
                          update_event now event status
                            [(''verification_passed'', if all_passed then ''true'' else ''false''),
                             (''verified_at'', show_time now)] db)
           in ((all_passed, checks, status), db')))"

section \<open>Policies\<close>

record containment_policy =
  cp_mode :: containment_mode
  cp_max_stage :: containment_mode
  cp_revoke_tokens :: bool
  cp_revoke_grants :: bool
  cp_notify :: bool

definition CONTAINMENT_POLICIES :: "(string, containment_policy) dict" where
  "CONTAINMENT_POLICIES =
     [(''low_risk'', \<lparr>cp_mode = CM_OBSERVE, cp_max_stage = CM_RESTRICT, cp_revoke_tokens = False,
         cp_revoke_grants = False, cp_notify = False\<rparr>),
      (''medium_risk'', \<lparr>cp_mode = CM_RESTRICT, cp_max_stage = CM_SUSPEND, cp_revoke_tokens = True,
         cp_revoke_grants = False, cp_notify = True\<rparr>),
      (''high_risk'', \<lparr>cp_mode = CM_QUARANTINE, cp_max_stage = CM_QUARANTINE, cp_revoke_tokens = True,
         cp_revoke_grants = True, cp_notify = True\<rparr>),
      (''critical_risk'', \<lparr>cp_mode = CM_QUARANTINE, cp_max_stage = CM_QUARANTINE, cp_revoke_tokens = True,
         cp_revoke_grants = True, cp_notify = True\<rparr>)]"

text \<open>The part of \<open>apply_containment_policy\<close> that acts on the agent.\<close>

definition enforce_policy ::
  "containment_service \<Rightarrow> datetime \<Rightarrow> string \<Rightarrow> string \<Rightarrow> string \<Rightarrow> containment_policy \<Rightarrow> containment_db
     \<Rightarrow> string list \<times> containment_db" where
  "enforce_policy sv now tenant_id initiated_by target policy db =
     (let db1 = db\<lparr>cd_agents :=
            snd (update_agent_status now tenant_id target AG_QUARANTINED (cd_agents db))\<rparr>;
          (gids, db2) =
            (if cp_revoke_grants policy
             then (let (ids, rows) = revoke_active_grants now tenant_id initiated_by
                         (fst (list_by_grantee tenant_id target None 1000 0 (cd_grants db1))) (cd_grants db1)
                   in (ids, db1\<lparr>cd_grants := rows\<rparr>))
             else ([], db1));
          (tids, db3) =
            (if cp_revoke_tokens policy then contain_execution_tokens sv now tenant_id target False db2
             else ([], db2))
      in (''agent_quarantined'' # map (\<lambda>i. ''grant_revoked:'' @ i) gids @
            map (\<lambda>i. ''token_revoked:'' @ i) tids, db3))"

fun comma_join :: "string list \<Rightarrow> string" where
  "comma_join [] = []"
| "comma_join [x] = x"
| "comma_join (x # xs) = x @ '','' @ comma_join xs"

definition apply_containment_policy ::
  "containment_service \<Rightarrow> datetime \<Rightarrow> string \<Rightarrow> string \<Rightarrow> string \<Rightarrow> string \<Rightarrow> string \<Rightarrow> string \<Rightarrow> bool
     \<Rightarrow> containment_db \<Rightarrow> (py_error + containment_mode \<times> string list) \<times> containment_db" where
  "apply_containment_policy sv now containment_id tenant_id target policy_name initiated_by authorized_by
       dry_run db =
     (case map_of CONTAINMENT_POLICIES policy_name of
        None \<Rightarrow> (Inl (ValueError (''Unknown containment policy: '' @ policy_name)), db)
      | Some policy \<Rightarrow>
          if get_by_agent_id tenant_id target (cd_agents db) = None
          then (Inl (ValueError (''Agent not found: '' @ target)), db)
          else
            (let (taken, db1) =
                   (if \<not> dry_run \<and> cp_mode policy \<noteq> CM_OBSERVE
                    then enforce_policy sv now tenant_id initiated_by target policy db else ([], db));
                 event = (stage_event now containment_id tenant_id target (cp_mode policy) initiated_by
                            authorized_by (''Policy applied: '' @ policy_name) dry_run)
                   \<lparr>ce_status := (if dry_run then CS_PENDING else CS_COMPLETED),
                    ce_result_details := [(''policy_name'', policy_name), (''actions_taken'', comma_join taken)],
                    ce_completed_at := (if dry_run then None else Some now)\<rparr>
             in (Inr (cp_mode policy, taken), db1\<lparr>cd_events := snd (save_event event (cd_events db1))\<rparr>)))"

section \<open>Failures\<close>

text \<open>The answer is the identifier of the fallback, if one was made.\<close>

definition handle_containment_exception ::
  "(datetime \<Rightarrow> string) \<Rightarrow> datetime \<Rightarrow> string \<Rightarrow> string \<Rightarrow> string \<Rightarrow> string \<Rightarrow> string \<Rightarrow> string \<Rightarrow> bool
     \<Rightarrow> containment_mode \<Rightarrow> containment_db \<Rightarrow> string option \<times> containment_db" where
  "handle_containment_exception show_time now exception_id fallback_id tenant_id containment_id target message
       retry fallback_mode db =
     (let event = get_by_containment_id tenant_id containment_id (cd_events db);
          db1 = (case event of
                   None \<Rightarrow> db
                 | Some e \<Rightarrow> update_event now e CS_FAILED
                     [(''exception_id'', exception_id), (''exception_message'', message),
                      (''exception_at'', show_time now)] db);
          should_fallback = (retry \<and> (case event of None \<Rightarrow> True | Some e \<Rightarrow> \<not> ce_dry_run e));
          fallback = (stage_event now fallback_id tenant_id target fallback_mode ''exception_handler''
                        ''system'' (''Fallback after exception: '' @ message) False)
            \<lparr>ce_status := CS_COMPLETED,
             ce_result_details := [(''fallback_for'', containment_id), (''exception_id'', exception_id)],
             ce_completed_at := Some now\<rparr>
      in if should_fallback
         then (let (saved, events) = save_event fallback (cd_events db1)
               in (Some (ce_containment_id saved),
                   db1\<lparr>cd_events := events,
                       cd_agents := snd (update_agent_status now tenant_id target AG_QUARANTINED
                                           (cd_agents db1))\<rparr>))
         else (None, db1))"

section \<open>Audit trail, notification, hand-off\<close>

text \<open>\<open>json.loads\<close> of the trail, \<open>None\<close> where it raises, and \<open>json.dumps\<close> of the list.\<close>

record audit_json =
  aj_loads :: "string \<Rightarrow> pydict list option"
  aj_dumps :: "pydict list \<Rightarrow> string"

definition audit_entry ::
  "(datetime \<Rightarrow> string) \<Rightarrow> datetime \<Rightarrow> string \<Rightarrow> string \<Rightarrow> string \<Rightarrow> (string, string) dict \<Rightarrow> pydict" where
  "audit_entry show_time now audit_id what actor details =
     [(''audit_id'', PStr audit_id), (''action'', PStr what), (''actor'', PStr actor),
      (''timestamp'', PStr (show_time now))] @
     (if details = [] then [] else [(''details'', PDict (map (\<lambda>(k, v). (k, PStr v)) details))])"

definition audit_trail_of :: "audit_json \<Rightarrow> containment_event \<Rightarrow> pydict list" where
  "audit_trail_of js e =
     (case aj_loads js (case map_of (ce_result_details e) ''audit_trail'' of None \<Rightarrow> ''[]'' | Some s \<Rightarrow> s) of
        None \<Rightarrow> [] | Some trail \<Rightarrow> trail)"

definition record_containment_audit ::
  "audit_json \<Rightarrow> (datetime \<Rightarrow> string) \<Rightarrow> datetime \<Rightarrow> string \<Rightarrow> string \<Rightarrow> string \<Rightarrow> string \<Rightarrow> string
     \<Rightarrow> (string, string) dict \<Rightarrow> containment_db \<Rightarrow> bool \<times> containment_db" where
  "record_containment_audit js show_time now audit_id tenant_id containment_id what actor details db =
     (case get_by_containment_id tenant_id containment_id (cd_events db) of
        None \<Rightarrow> (False, db)
      | Some event \<Rightarrow>
          (True, update_event now event (ce_status event)
             [(''audit_trail'', aj_dumps js
                 (audit_trail_of js event @ [audit_entry show_time now audit_id what actor details]))] db))"

definition notify_affected_parties ::
  "datetime \<Rightarrow> string \<Rightarrow> string \<Rightarrow> string \<Rightarrow> string list option \<Rightarrow> string \<Rightarrow> containment_db
     \<Rightarrow> string list \<times> containment_db" where
  "notify_affected_parties now notification_id tenant_id containment_id recipients message db =
     (let event = get_by_containment_id tenant_id containment_id (cd_events db);
          notified = (case recipients of
                        Some rs \<Rightarrow> rs
                      | None \<Rightarrow> (case event of None \<Rightarrow> [] | Some e \<Rightarrow> ce_affected_agent_ids e))
      in (notified,
          case event of
            None \<Rightarrow> db
          | Some e \<Rightarrow> update_event now e (ce_status e)
              [(''notification_sent'', ''true''), (''notification_id'', notification_id),
               (''notification_message'', message), (''recipients'', comma_join notified)] db))"

text \<open>The answer is the field \<open>status\<close>.\<close>

definition coordinate_recovery ::
  "(datetime \<Rightarrow> string) \<Rightarrow> datetime \<Rightarrow> string \<Rightarrow> string \<Rightarrow> string \<Rightarrow> string option \<Rightarrow> bool
     \<Rightarrow> containment_db \<Rightarrow> string \<times> containment_db" where
  "coordinate_recovery show_time now recovery_id tenant_id containment_id plan_id dry_run db =
     (let event = get_by_containment_id tenant_id containment_id (cd_events db)
      in if (case event of None \<Rightarrow> False | Some e \<Rightarrow> ce_status e \<notin> {CS_COMPLETED, CS_FAILED})
         then (''skipped'', db)
         else if dry_run then (''planned'', db)
         else (''initiated'',
               case event of
                 None \<Rightarrow> db
               | Some e \<Rightarrow> update_event now e (ce_status e)
                   [(''recovery_coordinated'', ''true''), (''recovery_id'', recovery_id),
                    (''recovery_plan_id'', if truthy plan_id then the plan_id else []),
                    (''recovery_coordinated_at'', show_time now)] db))"

section \<open>What a passed verification means\<close>

lemma listed_grants:
  "set (fst (list_by_grantee t x None 1000 0 rows)) \<subseteq> {g \<in> set rows. holds t x g}"
  by (auto simp: list_by_grantee_def newest_page_def sql_select_def dest: in_set_takeD)

lemma listed_tokens:
  "fst (list_tokens_by_agent t x (Some TK_ACTIVE) 1000 0 rows) = [] \<longleftrightarrow>
     list_all (\<lambda>m. tk_tenant_id m = t \<and> tk_agent_id m = x \<longrightarrow> tk_status m \<noteq> TK_ACTIVE) rows"
proof -
  let ?found = "filter (\<lambda>m. tk_tenant_id m = t \<and> tk_agent_id m = x \<and> tk_status m = TK_ACTIVE) rows"
  have "sort_key (\<lambda>m. - tk_issued_at m) ?found = [] \<longleftrightarrow> ?found = []"
    by (simp flip: length_0_conv)
  moreover have "fst (list_tokens_by_agent t x (Some TK_ACTIVE) 1000 0 rows) =
      map token_to_entity (take 1000 (sort_key (\<lambda>m. - tk_issued_at m) ?found))"
    by (simp add: list_tokens_by_agent_def newest_tokens_def sql_select_def)
  ultimately have "fst (list_tokens_by_agent t x (Some TK_ACTIVE) 1000 0 rows) = [] \<longleftrightarrow> ?found = []"
    by (simp only: map_is_Nil_conv take_eq_Nil) simp
  also have "\<dots> \<longleftrightarrow> list_all (\<lambda>m. tk_tenant_id m = t \<and> tk_agent_id m = x \<longrightarrow> tk_status m \<noteq> TK_ACTIVE) rows"
    by (auto simp: filter_empty_conv list_all_iff)
  finally show ?thesis .
qed

lemma listed_actions:
  "set (fst (list_actions_by_agent t x 1000 0 rows)) \<subseteq>
     {a \<in> set rows. pa_tenant_id a = t \<and> pa_agent_id a = x}"
  by (auto simp: list_actions_by_agent_def newest_actions_def sql_select_def dest: in_set_takeD)

lemma all_actions_listed:
  "length (filter (\<lambda>a. pa_tenant_id a = t \<and> pa_agent_id a = x) rows) \<le> 1000 \<Longrightarrow>
     set (fst (list_actions_by_agent t x 1000 0 rows)) = {a \<in> set rows. pa_tenant_id a = t \<and> pa_agent_id a = x}"
  by (auto simp: list_actions_by_agent_def newest_actions_def sql_select_def)

lemma verify_passed:
  "fst (fst (verify_containment show_time sv now t cid target db)) \<longleftrightarrow>
     (\<exists>a. get_by_agent_id t target (cd_agents db) = Some a \<and>
        list_all snd (containment_checks sv t target a db))"
  by (simp add: verify_containment_def Let_def split: option.split)


lemma quarantines_grant_status:
  assumes "list_all (\<lambda>g. holds t x g \<longrightarrow> au_status g \<in> {AU_ACTIVE, AU_REVOKED}) (cd_grants db)"
  shows "list_all (\<lambda>g. holds t x g \<longrightarrow> au_status g \<in> {AU_ACTIVE, AU_REVOKED})
    (cd_grants (fold (\<lambda>y db. snd (quarantine_agent now t' w y db)) ys db))"
  using assms
proof (induction ys arbitrary: db)
  case (Cons y ys)
  have "list_all (\<lambda>g. holds t x g \<longrightarrow> au_status g \<in> {AU_ACTIVE, AU_REVOKED})
      (cd_grants (snd (quarantine_agent now t' w y db)))"
    unfolding quarantine_grants
    by (intro update_all) (use Cons.prems in \<open>auto simp: list_all_iff withdrawn_grant_def\<close>)
  then show ?case using Cons.IH by simp
qed simp


abbreviation all_tables :: containment_service where
  "all_tables \<equiv> \<lparr>cs_has_tokens = True, cs_has_actions = True\<rparr>"



section \<open>What graduated containment does\<close>

definition stage_status :: "containment_mode \<Rightarrow> agent_status \<Rightarrow> agent_status" where
  "stage_status stage old =
     (if stage \<in> {CM_RESTRICT, CM_SUSPEND} then AG_SUSPENDED
      else if stage = CM_QUARANTINE then AG_QUARANTINED else old)"

lemma get_after_status:
  "get_by_agent_id t i (snd (update_agent_status now t i st rows)) =
     map_option (\<lambda>a. a\<lparr>agt_status := st, agt_updated_at := now\<rparr>) (get_by_agent_id t i rows)"
  unfolding agent_status_update
  by (induction rows) (auto simp: get_by_agent_id_def sql_select_def sql_update_def)

lemma apply_stage_agents:
  "cd_agents (apply_stage now cid t target w auth reason False stage db) =
     cd_agents (apply_stage_status now t target stage (db\<lparr>cd_events := []\<rparr>))"
  by (simp add: apply_stage_def Let_def case_prod_beta update_event_def apply_stage_status_def)

lemma status_after_stage:
  "get_by_agent_id t target (cd_agents db) = Some a \<Longrightarrow>
     \<exists>a'. get_by_agent_id t target (cd_agents (apply_stage now cid t target w auth reason False stage db)) = Some a' \<and>
       agt_status a' = stage_status stage (agt_status a)"
  by (cases stage) (simp_all add: apply_stage_agents apply_stage_status_def get_after_status stage_status_def)

lemma status_after_stages:
  "get_by_agent_id t target (cd_agents db) = Some a \<Longrightarrow>
     \<exists>a'. get_by_agent_id t target (cd_agents (fold (apply_stage now cid t target w auth reason False) stages db)) =
         Some a' \<and> agt_status a' = fold stage_status stages (agt_status a)"
proof (induction stages arbitrary: db a)
  case (Cons s stages)
  from status_after_stage [OF Cons.prems, of now cid w auth reason s] obtain a1 where
    a1: "get_by_agent_id t target (cd_agents (apply_stage now cid t target w auth reason False s db)) = Some a1"
      "agt_status a1 = stage_status s (agt_status a)" by blast
  from Cons.IH [OF a1(1)] a1(2) show ?case by simp
qed simp

lemma stages_end:
  assumes "staged_containment now cid t target w auth start maxi reason dry db = (Inr (stages, final), db')"
  shows "db' = fold (apply_stage now cid t target w auth reason dry) stages db"
    and "stages \<noteq> [] \<Longrightarrow> final = maxi \<and> fold stage_status stages old = stage_status maxi old"
proof -
  obtain i m where idx: "stage_index start STAGE_ORDER = Some i" "stage_index maxi STAGE_ORDER = Some m"
    using assms by (cases "stage_index start STAGE_ORDER"; cases "stage_index maxi STAGE_ORDER")
      (simp_all add: staged_containment_def)
  then have stages: "stages = drop i (take (Suc m) STAGE_ORDER)"
    and final: "final = (if stages = [] then start else last stages)"
    and run: "db' = fold (apply_stage now cid t target w auth reason dry) stages db"
    using assms by (auto simp: staged_containment_def Let_def)
  show "db' = fold (apply_stage now cid t target w auth reason dry) stages db" by (rule run)
  show "final = maxi \<and> fold stage_status stages old = stage_status maxi old" if "stages \<noteq> []"
    using idx that unfolding final stages
    by (cases start; cases maxi) (auto simp: STAGE_ORDER_def stage_status_def)
qed

text \<open>
  A graduated containment ends in the status of its last stage, whatever the status of the agent
  was before: suspended after restrict or suspend, quarantined after quarantine, and unchanged after
  observe.
\<close>

theorem staged_containment_status:
  assumes "staged_containment now cid t target w auth start maxi reason False db = (Inr (stages, final), db')"
    and "get_by_agent_id t target (cd_agents db) = Some a" and "stages \<noteq> []"
  shows "map_option agt_status (get_by_agent_id t target (cd_agents db')) =
      Some (stage_status maxi (agt_status a)) \<and> final = maxi"
proof -
  obtain a' where "get_by_agent_id t target (cd_agents db') = Some a'"
    "agt_status a' = fold stage_status stages (agt_status a)"
    using status_after_stages [OF assms(2)] unfolding stages_end(1) [OF assms(1)] by blast
  then show ?thesis using stages_end(2) [OF assms(1,3), of "agt_status a"] by simp
qed

definition revoked_family_db :: containment_db where
  "revoked_family_db = sample_family_db
     \<lparr>cd_agents := snd (update_agent_status 5 ''t1'' ''a'' AG_REVOKED (cd_agents sample_family_db))\<rparr>"

definition sample_staged where
  "sample_staged = staged_containment 9 ''stg'' ''t1'' ''a'' ''admin'' ''admin'' CM_OBSERVE CM_SUSPEND [] False
     revoked_family_db"

lemma sample_staged_ok:
  "fst sample_staged = Inr ([CM_OBSERVE, CM_RESTRICT, CM_SUSPEND], CM_SUSPEND)"
  "map_option agt_status (get_by_agent_id ''t1'' ''a'' (cd_agents revoked_family_db)) = Some AG_REVOKED"
  by code_simp+

theorem staged_containment_status_witness:
  "map_option agt_status (get_by_agent_id ''t1'' ''a'' (cd_agents (snd sample_staged))) = Some AG_SUSPENDED"
proof -
  have run: "staged_containment 9 ''stg'' ''t1'' ''a'' ''admin'' ''admin'' CM_OBSERVE CM_SUSPEND [] False
     revoked_family_db = (Inr ([CM_OBSERVE, CM_RESTRICT, CM_SUSPEND], CM_SUSPEND), snd sample_staged)"
    using sample_staged_ok(1) by (simp add: sample_staged_def prod_eq_iff)
  obtain a where a: "get_by_agent_id ''t1'' ''a'' (cd_agents revoked_family_db) = Some a"
    using sample_staged_ok(2) by auto
  from staged_containment_status [OF run a] show ?thesis by (simp add: stage_status_def)
qed

text \<open>
  So a graduated containment of a revoked agent makes it a suspended one; and the event keeps the
  mode of the first stage, because saving it again does not write the mode.
\<close>

theorem staged_containment_lifts_revocation:
  "map_option agt_status (get_by_agent_id ''t1'' ''a'' (cd_agents revoked_family_db)) = Some AG_REVOKED \<and>
   map_option agt_status (get_by_agent_id ''t1'' ''a'' (cd_agents (snd sample_staged))) = Some AG_SUSPENDED \<and>
   map ce_mode (cd_events (snd sample_staged)) = [CM_OBSERVE]"
  by code_simp

section \<open>The audit trail\<close>

lemma get_after_event_update:
  assumes "get_by_containment_id t cid (cd_events db) = Some e"
  shows "get_by_containment_id t cid (cd_events (update_event now e status details db)) =
    Some (e\<lparr>ce_status := status, ce_result_details := merge_details (ce_result_details e) details,
            ce_completed_at := (if status \<in> {CS_COMPLETED, CS_FAILED, CS_PARTIAL} then Some now
                                else ce_completed_at e)\<rparr>)"
proof -
  have key: "ce_tenant_id e = t" "ce_containment_id e = cid"
    using assms by (auto simp: get_by_containment_id_def sql_select_def filter_eq_Cons_iff elim!: sql_first.elims)
  have first: "sql_first (filter w (sql_update w f rows)) = map_option f (sql_first (filter w rows))"
    if "\<And>r. w (f r) = w r" for w :: "containment_event \<Rightarrow> bool" and f rows
    by (induction rows) (simp_all add: sql_update_def that)
  have found: "get_by_containment_id t cid (sql_update (\<lambda>e. ce_tenant_id e = t \<and> ce_containment_id e = cid) f rows) =
      map_option f (get_by_containment_id t cid rows)"
    if "\<And>e. ce_tenant_id (f e) = ce_tenant_id e \<and> ce_containment_id (f e) = ce_containment_id e" for f rows
    unfolding get_by_containment_id_def sql_select_def by (rule first) (simp add: that)
  show ?thesis
    using assms found by (simp add: update_event_def update_event_status_def Let_def key)
qed

lemma details_lookup: "map_of (merge_details d [(k, v)]) k = Some v"
  by (simp add: merge_details_def)

fun record_audits ::
  "audit_json \<Rightarrow> (datetime \<Rightarrow> string) \<Rightarrow> string \<Rightarrow> string
     \<Rightarrow> (datetime \<times> string \<times> string \<times> string \<times> (string, string) dict) list \<Rightarrow> containment_db \<Rightarrow> containment_db" where
  "record_audits js show_time t cid [] db = db"
| "record_audits js show_time t cid ((now, i, what, actor, details) # es) db =
     record_audits js show_time t cid es
       (snd (record_containment_audit js show_time now i t cid what actor details db))"

lemma trail_after_record:
  assumes "\<And>xs. aj_loads js (aj_dumps js xs) = Some xs"
    and "get_by_containment_id t cid (cd_events db) = Some e"
  shows "\<exists>e'. get_by_containment_id t cid (cd_events
        (snd (record_containment_audit js show_time now i t cid what actor details db))) = Some e' \<and>
      audit_trail_of js e' = audit_trail_of js e @ [audit_entry show_time now i what actor details]"
proof -
  let ?trail = "audit_trail_of js e @ [audit_entry show_time now i what actor details]"
  have "audit_trail_of js e' = ?trail"
    if "ce_result_details e' = merge_details (ce_result_details e) [(''audit_trail'', aj_dumps js ?trail)]" for e'
    using that by (simp add: audit_trail_of_def [of js e'] details_lookup assms(1))
  then show ?thesis
    using assms(2) get_after_event_update [OF assms(2), of now "ce_status e"
        "[(''audit_trail'', aj_dumps js ?trail)]"]
    by (simp add: record_containment_audit_def)
qed

text \<open>
  The audit trail of a containment only grows: after any number of entries were recorded for an
  event, its trail is the earlier one followed by these entries in their order, provided the JSON of
  a list reads back as that list.
\<close>

theorem audit_trail_grows:
  assumes "\<And>xs. aj_loads js (aj_dumps js xs) = Some xs"
    and "get_by_containment_id t cid (cd_events db) = Some e"
  shows "\<exists>e'. get_by_containment_id t cid (cd_events (record_audits js show_time t cid entries db)) = Some e' \<and>
      audit_trail_of js e' = audit_trail_of js e @
        map (\<lambda>(now, i, what, actor, details). audit_entry show_time now i what actor details) entries"
  using assms(2)
proof (induction entries arbitrary: db e)
  case (Cons x entries)
  obtain now i what actor details where x: "x = (now, i, what, actor, details)" by (metis surj_pair)
  from trail_after_record [OF assms(1) Cons.prems, of show_time now i what actor details]
  obtain e1 where e1: "get_by_containment_id t cid (cd_events
        (snd (record_containment_audit js show_time now i t cid what actor details db))) = Some e1"
      "audit_trail_of js e1 = audit_trail_of js e @ [audit_entry show_time now i what actor details]" by blast
  from Cons.IH [OF e1(1)] e1(2) show ?case by (simp add: x)
qed simp

section \<open>Limits\<close>

text \<open>Writing to the audit trail of a completed containment moves its completion time.\<close>

theorem audit_moves_completion_time:
  "map ce_completed_at (cd_events (snd sample_containment)) = [Some 9] \<and>
   map ce_completed_at (cd_events (snd (record_containment_audit
     \<lparr>aj_loads = (\<lambda>_. Some []), aj_dumps = (\<lambda>_. ''[]'')\<rparr> (\<lambda>_. []) 77 ''aud'' ''t1'' ''cnt'' ''viewed'' ''bob'' []
     (snd sample_containment)))) = [Some 77]"
  by code_simp

text \<open>
  The policy for medium risk restricts, but quarantines the agent and leaves it its grants.
\<close>

theorem medium_risk_quarantines_and_keeps_grants:
  "let (r, db) = apply_containment_policy all_tables 9 ''cp'' ''t1'' ''a'' ''medium_risk'' ''admin'' ''admin'' False
         sample_family_db
   in r = Inr (CM_RESTRICT, [''agent_quarantined'', ''token_revoked:k'']) \<and>
      map_option agt_status (get_by_agent_id ''t1'' ''a'' (cd_agents db)) = Some AG_QUARANTINED \<and>
      map au_status (filter (holds ''t1'' ''a'') (cd_grants db)) = [AU_ACTIVE]"
  by code_simp

text \<open>
  A grant that had expired before the containment is never revoked, so the containment completes and
  its verification fails, and records the completed event as failed.
\<close>

theorem expired_grant_fails_verification:
  "let db = sample_family_db\<lparr>cd_grants := [(sample_authority ''a'')\<lparr>au_status := AU_EXPIRED\<rparr>]\<rparr>;
       db1 = snd (contain_authority_tree all_tables True 9 ''cnt'' ''t1'' ''a'' CM_QUARANTINE ''admin'' ''admin''
                    [] False None db);
       (verdict, db2) = verify_containment (\<lambda>_. []) all_tables 10 ''t1'' ''cnt'' ''a'' db1
   in map ce_status (cd_events db1) = [CS_COMPLETED] \<and> \<not> fst verdict \<and>
      map ce_status (cd_events db2) = [CS_FAILED]"
  by code_simp

text \<open>Recovery is handed off for a containment that does not exist, and not for a partial one.\<close>

theorem recovery_of_unknown_containment:
  "get_by_containment_id t cid (cd_events db) = None \<Longrightarrow>
     coordinate_recovery show_time now rid t cid plan False db = (''initiated'', db)"
  by (simp add: coordinate_recovery_def)

end
