(* ===== verification/Blast_Radius.thy ===== *)
theory Blast_Radius
  imports Advanced_Containment
begin

text \<open>
  The blast radius of an agent: \<open>get_blast_radius\<close> and \<open>_compute_blast_radius\<close> of
  \<open>cascade_containment_service.py\<close> and \<open>compute_blast_radius_score\<close> of
  \<open>advanced_containment_service.py\<close>. They read the tables of a containment and change nothing. The
  query of user sessions and the query of approvals each open a session of their own and their
  failures are swallowed, so whether they answer is an argument. Instants are not formatted.

  Scores are binary64 numbers in units of \<open>2^-60\<close>: every number that occurs is 0 or at least 0.1, so
  53 significant bits end above that unit. A rounded score is a number of thousandths.

  Shown: containment does not change the score of any agent, because revoked grants count; and the
  two services give the same agent different scores.
\<close>

section \<open>Scores\<close>

definition b64 :: "int \<Rightarrow> int \<Rightarrow> int" where
  "b64 p q = round53 (p * 2 ^ 60) q"

definition b64_times :: "nat \<Rightarrow> int \<Rightarrow> int" where
  "b64_times n x = round53 (int n * x) 1"

definition b64_round3 :: "int \<Rightarrow> int" where
  "b64_round3 x = round_div (x * 1000) (2 ^ 60)"

text \<open>\<open>max(0.0, min(1.0, round(score, 3)))\<close>\<close>

definition clamped :: "int \<Rightarrow> int" where
  "clamped x = max 0 (min 1000 (b64_round3 x))"

definition high_risk :: "registered_agent \<Rightarrow> bool" where
  "high_risk a \<longleftrightarrow> agt_risk_classification a \<in> {RC_HIGH, RC_CRITICAL}"

definition child_agents_of :: "string \<Rightarrow> string \<Rightarrow> containment_db \<Rightarrow> registered_agent list" where
  "child_agents_of tenant_id agent_id db =
     filter (\<lambda>a. agt_parent_agent_id a = Some agent_id)
       (fst (list_agents tenant_id None None 1000 0 (cd_agents db)))"

definition compute_blast_radius :: "authority_grant list \<Rightarrow> registered_agent list \<Rightarrow> int" where
  "compute_blast_radius grants descendants =
     (let add = (\<lambda>b p s. if b then double_add s (b64 p 100) else s);
          s1 = b64_times (length grants) (b64 10 100);
          s2 = fold (\<lambda>g s. add (au_delegation_depth g > 3) 10
                 (add (au_scope g \<in> {SC_ADMIN, SC_EXECUTE}) 20 s)) grants s1;
          s3 = double_add s2 (b64_times (length descendants) (b64 15 100))
      in clamped (fold (\<lambda>a. add (high_risk a) 20) descendants s3))"

record blast_score =
  bs_agent_id :: string
  bs_score :: int
  bs_risk_level :: string
  bs_breakdown :: "(string \<times> int) list"
  bs_direct_authorities :: nat
  bs_child_agents_count :: nat

text \<open>A rounded score is at least the literal 0.7 if it is at least 700 thousandths.\<close>

definition blast_level :: "int \<Rightarrow> string" where
  "blast_level score =
     (if score \<ge> 700 then ''critical'' else if score \<ge> 400 then ''high''
      else if score \<ge> 200 then ''medium'' else ''low'')"

definition compute_blast_radius_score ::
  "string \<Rightarrow> string \<Rightarrow> containment_db \<Rightarrow> py_error + blast_score" where
  "compute_blast_radius_score tenant_id agent_id db =
     (case get_by_agent_id tenant_id agent_id (cd_agents db) of
        None \<Rightarrow> Inl (ValueError (''Agent not found: '' @ agent_id))
      | Some agent \<Rightarrow>
          (let grants = fst (list_by_grantee tenant_id agent_id None 1000 0 (cd_grants db));
               descendants = child_agents_of tenant_id agent_id db;
               add = (\<lambda>b p s. if b then double_add s (b64 p 100) else s);
               authorities = b64_times (length grants) (b64 10 100);
               s1 = fold (\<lambda>g s. add (au_delegation_depth g > 3) 10
                      (add (au_scope g = SC_EXECUTE) 15 (add (au_scope g = SC_ADMIN) 20 s)))
                      grants authorities;
               admins = length (filter (\<lambda>g. au_scope g = SC_ADMIN) grants);
               kids = b64_times (length descendants) (b64 15 100);
               s2 = fold (\<lambda>a. add (high_risk a) 20) descendants (double_add s1 kids);
               score = clamped s2
           in Inr \<lparr>bs_agent_id = agent_id, bs_score = score, bs_risk_level = blast_level score,
                   bs_breakdown =
                     [(''direct_authorities'', authorities),
                      (''admin_scope_count'', b64_times admins (b64 20 100)),
                      (''child_agents'', kids),
                      (''high_risk_children'',
                         b64_times (length (filter high_risk descendants)) (b64 20 100))],
                   bs_direct_authorities = length grants,
                   bs_child_agents_count = length descendants\<rparr>))"

section \<open>The report\<close>

record user_session =
  us_session_id :: string
  us_user_id :: uuid
  us_device_info :: "string option"
  us_ip_address :: "string option"
  us_created_at :: datetime
  us_revoked :: bool

record blast_report =
  br_agent_id :: string
  br_status :: agent_status
  br_risk_classification :: risk_classification
  br_direct_authorities :: nat
  br_child_agents :: "string list"
  br_affected_resources :: "(string, string list) dict"
  br_score :: int
  br_active_sessions :: "(string \<times> string option \<times> string option \<times> datetime) list"
  br_active_tokens :: "execution_token list"
  br_pending_approvals :: "(string \<times> real \<times> string \<times> datetime) list"
  br_pending_actions :: "protected_action list"

text \<open>\<open>resources.setdefault(..)\<close>, then the grantee once\<close>

definition affected_resources :: "authority_grant list \<Rightarrow> (string, string list) dict" where
  "affected_resources grants =
     fold (\<lambda>g d. let ids = (case map_of d (au_resource g) of None \<Rightarrow> [] | Some xs \<Rightarrow> xs)
                 in AList.update (au_resource g)
                      (if au_grantee_agent_id g \<in> set ids then ids else ids @ [au_grantee_agent_id g]) d)
       grants []"

definition get_blast_radius ::
  "containment_service \<Rightarrow> bool \<Rightarrow> bool \<Rightarrow> user_session list \<Rightarrow> string \<Rightarrow> string \<Rightarrow> containment_db
     \<Rightarrow> py_error + blast_report" where
  "get_blast_radius sv sessions_answer approvals_answer sessions tenant_id agent_id db =
     (case get_by_agent_id tenant_id agent_id (cd_agents db) of
        None \<Rightarrow> Inl (ValueError ''Agent not found'')
      | Some agent \<Rightarrow>
          (let grants = fst (list_by_grantee tenant_id agent_id None 1000 0 (cd_grants db));
               descendants = child_agents_of tenant_id agent_id db
           in Inr \<lparr>br_agent_id = agent_id, br_status = agt_status agent,
                   br_risk_classification = agt_risk_classification agent,
                   br_direct_authorities = length grants,
                   br_child_agents = map agt_agent_id descendants,
                   br_affected_resources = affected_resources grants,
                   br_score = compute_blast_radius grants descendants,
                   br_active_sessions =
                     (case agt_owner_user_id agent of
                        None \<Rightarrow> []
                      | Some owner \<Rightarrow>
                          if sessions_answer
                          then map (\<lambda>s. (us_session_id s, us_device_info s, us_ip_address s, us_created_at s))
                                 (sql_select (\<lambda>s. us_user_id s = owner \<and> \<not> us_revoked s) sessions)
                          else []),
                   br_active_tokens =
                     (if cs_has_tokens sv
                      then fst (list_tokens_by_agent tenant_id agent_id (Some TK_ACTIVE) 1000 0 (cd_tokens db))
                      else []),
                   br_pending_approvals =
                     (if agt_owner_user_id agent \<noteq> None \<and> approvals_answer
                      then map (\<lambda>r. (ar_request_id r, ar_risk_score r, ar_status r, ar_created_at r))
                             (sql_select (\<lambda>r. ar_tenant_id r = Some tenant_id \<and>
                                ar_user_id r = agt_owner_user_id agent \<and> ar_status r = ''pending'')
                                (cd_approvals db))
                      else []),
                   br_pending_actions =
                     (if cs_has_actions sv
                      then filter (\<lambda>a. pa_status a \<in> {AS_PENDING, AS_EVALUATING})
                             (fst (list_actions_by_agent tenant_id agent_id 1000 0 (cd_actions db)))
                      else [])\<rparr>))"

section \<open>Containment and the score\<close>

text \<open>What a quarantine leaves of a grant and of an agent.\<close>

definition grant_shape :: "authority_grant \<Rightarrow> authority_grant" where
  "grant_shape g = g\<lparr>au_status := AU_ACTIVE, au_revoked_at := None, au_revoked_by := None, au_updated_at := 0\<rparr>"

definition agent_shape :: "registered_agent \<Rightarrow> registered_agent" where
  "agent_shape a = a\<lparr>agt_status := AG_ACTIVE, agt_updated_at := 0\<rparr>"

definition db_shape :: "containment_db \<Rightarrow> registered_agent list \<times> authority_grant list" where
  "db_shape db = (map agent_shape (cd_agents db), map grant_shape (cd_grants db))"

lemma map_update_same: "(\<And>r. v (f r) = v r) \<Longrightarrow> map v (sql_update w f rows) = map v rows"
  by (simp add: sql_update_def)

lemma quarantine_shape: "db_shape (snd (quarantine_agent now t w x db)) = db_shape db"
  by (simp add: db_shape_def quarantine_agents quarantine_grants map_update_same grant_shape_def
      agent_shape_def withdrawn_grant_def)

lemma quarantines_shape: "db_shape (fold (\<lambda>x db. snd (quarantine_agent now t w x db)) xs db) = db_shape db"
  by (induction xs arbitrary: db) (simp_all add: quarantine_shape)

lemma sort_key_map:
  assumes "\<And>r. k (f r) = k r"
  shows "sort_key k (map f xs) = map f (sort_key k xs)"
proof -
  have insort: "insort_key k (f x) (map f ys) = map f (insort_key k x ys)" for x ys
    by (induction ys) (simp_all add: assms)
  show ?thesis by (induction xs) (simp_all add: insort)
qed

lemma filter_map_same: "(\<And>r. P (f r) = P r) \<Longrightarrow> filter P (map f xs) = map f (filter P xs)"
  by (induction xs) simp_all

lemma first_map: "sql_first (map f xs) = map_option f (sql_first xs)"
  by (cases xs) simp_all

lemma agent_in_shape:
  "get_by_agent_id t x (map agent_shape rows) = map_option agent_shape (get_by_agent_id t x rows)"
  by (simp add: get_by_agent_id_def sql_select_def filter_map_same first_map agent_shape_def)

lemma grants_in_shape:
  "fst (list_by_grantee t x None n m (map grant_shape rows)) =
     map grant_shape (fst (list_by_grantee t x None n m rows))"
  by (simp add: list_by_grantee_def newest_page_def sql_select_def filter_map_same sort_key_map
      grant_shape_def take_map drop_map)

lemma agents_in_shape:
  "fst (list_agents t None None n m (map agent_shape rows)) =
     map agent_shape (fst (list_agents t None None n m rows))"
  by (simp add: list_agents_def Let_def sql_select_def filter_map_same sort_key_map agent_shape_def
      take_map drop_map)

lemma shape_fields [simp]:
  "au_scope (grant_shape g) = au_scope g"
  "au_delegation_depth (grant_shape g) = au_delegation_depth g"
  "agt_parent_agent_id (agent_shape a) = agt_parent_agent_id a"
  "high_risk (agent_shape a) \<longleftrightarrow> high_risk a"
  by (simp_all add: grant_shape_def agent_shape_def high_risk_def)

lemma score_of_shape:
  "compute_blast_radius_score t x (db\<lparr>cd_agents := fst (db_shape db), cd_grants := snd (db_shape db)\<rparr>) =
     compute_blast_radius_score t x db"
  by (cases "get_by_agent_id t x (cd_agents db)")
    (simp_all add: compute_blast_radius_score_def db_shape_def agent_in_shape grants_in_shape
      agents_in_shape child_agents_of_def filter_map_same fold_map o_def Let_def cong: if_cong)

lemma score_reads:
  "compute_blast_radius_score t x (db\<lparr>cd_agents := as, cd_grants := gs\<rparr>) =
     compute_blast_radius_score t x (db'\<lparr>cd_agents := as, cd_grants := gs\<rparr>)"
  by (cases "get_by_agent_id t x as") (simp_all add: compute_blast_radius_score_def child_agents_of_def)

lemma same_shape_same_score:
  "db_shape db' = db_shape db \<Longrightarrow> compute_blast_radius_score t x db' = compute_blast_radius_score t x db"
  by (metis score_of_shape score_reads)

text \<open>
  Containment does not lower the blast radius: after a containment that completes, every agent of
  every tenant has the score, the level and the breakdown it had before, since grants count whatever
  their status.
\<close>

theorem containment_keeps_score:
  assumes "contain_authority_tree sv ans now cid t target mode w auth reason False authority db = (Inr e, db')"
  shows "compute_blast_radius_score t' x db' = compute_blast_radius_score t' x db"
proof -
  obtain kids where
    "cd_agents db' = cd_agents (fold (\<lambda>x db. snd (quarantine_agent now t w x db)) (target # kids) db)"
    "cd_grants db' = cd_grants (fold (\<lambda>x db. snd (quarantine_agent now t w x db)) (target # kids) db)"
    by (rule contain_run [OF assms(1)])
  then have "db_shape db' = db_shape (fold (\<lambda>x db. snd (quarantine_agent now t w x db)) (target # kids) db)"
    by (simp add: db_shape_def)
  then show ?thesis by (intro same_shape_same_score) (simp only: quarantines_shape)
qed


theorem containment_keeps_score_witness:
  "compute_blast_radius_score ''t1'' ''a'' (snd sample_containment) =
     compute_blast_radius_score ''t1'' ''a'' sample_family_db"
proof -
  obtain e where run: "sample_containment = (Inr e, snd sample_containment)" by (rule sample_containment_ok)
  show ?thesis by (rule containment_keeps_score [OF trans [OF sample_containment_def [symmetric] run]])
qed

text \<open>
  The two services disagree: an agent with one grant to execute and one child has the score 0.45 in
  one of them and 0.4 in the other.
\<close>

definition executing_family_db :: containment_db where
  "executing_family_db = sample_family_db
     \<lparr>cd_grants := map (\<lambda>i. (sample_authority i)\<lparr>au_scope := SC_EXECUTE\<rparr>) [''a'', ''b'']\<rparr>"

theorem blast_scores_disagree:
  "map_sum id br_score (get_blast_radius all_tables True True [] ''t1'' ''a'' executing_family_db) = Inr 450 \<and>
   map_sum id bs_score (compute_blast_radius_score ''t1'' ''a'' executing_family_db) = Inr 400"
  by code_simp

end
