(* ===== verification/Change_Set.thy ===== *)
theory Change_Set
  imports Action_Control Plan_Order "HOL-Library.Multiset"
begin

text \<open>
  \<open>ChangeSetReconstructionService\<close> (\<open>app/domain/services/changeset_reconstruction_service.py\<close>): what an
  incident changed, reconstructed from the stored actions and their evidence, and the causal state
  graph of the incident, with the two repositories of
  \<open>sqlalchemy_causal_state_repositories.py\<close> that keep them.

  A JSON column holds the value written to it. Of the entities the fields the service sets are kept;
  the graph that a change set contains is a record instead of a dictionary. A set of resources is
  the list of its elements.

  Shown: a change set lists exactly the root action and its descendants, every one of them in one of
  three classes, with a recoverability, and with its missing evidence reported. The edges of the
  causal graph join its nodes, but for the edge from the parent of the root; an extracted subgraph
  has edges that leave it.
\<close>

section \<open>Data\<close>

record change_node =
  cn_action_id :: string
  cn_agent_id :: string
  cn_resource :: string
  cn_action_type :: string
  cn_parent_action_id :: "string option"
  cn_evidence :: "(string list \<times> string) option"

record change_graph =
  cg_nodes :: "change_node list"
  cg_edges :: "(string \<times> string \<times> string) list"
  cg_resources :: "(string, string list) dict"

record unrelated_mutation =
  um_action_id :: string
  um_reason :: string
  um_agent_id :: string

record change_set =
  cs_changeset_id :: string
  cs_tenant_id :: string
  cs_incident_id :: string
  cs_agent_id :: string
  cs_root_action_id :: string
  cs_correlation_id :: string
  cs_created_at :: datetime
  cs_root_cause :: string
  cs_causal_actions :: "string list"
  cs_affected_resources :: "string list"
  cs_before_references :: "(string, string) dict"
  cs_after_references :: "(string, string) dict"
  cs_current_references :: "(string, string) dict"
  cs_dependency_graph :: "change_graph option"
  cs_unrelated_mutations :: "unrelated_mutation list"
  cs_recoverability :: "(string, string) dict"
  cs_unknown_areas :: "string list"
  cs_direct_changes :: "string list"
  cs_indirect_changes :: "string list"
  cs_dependent_changes :: "string list"
  cs_external_effects :: "string list"

type_synonym change_set_table = "change_set list"
type_synonym evidence_table = "recovery_evidence list"
type_synonym evidence_map = "string \<rightharpoonup> recovery_evidence"

definition get_by_changeset_id ::
  "string \<Rightarrow> string \<Rightarrow> change_set_table \<Rightarrow> py_error + change_set option" where
  "get_by_changeset_id tenant_id changeset_id rows =
     scalar_one_or_none
       (sql_select (\<lambda>c. cs_changeset_id c = changeset_id \<and> cs_tenant_id c = tenant_id) rows)"

definition get_changeset_by_incident ::
  "string \<Rightarrow> string \<Rightarrow> change_set_table \<Rightarrow> py_error + change_set option" where
  "get_changeset_by_incident tenant_id incident_id rows =
     scalar_one_or_none
       (sql_select (\<lambda>c. cs_incident_id c = incident_id \<and> cs_tenant_id c = tenant_id) rows)"

text \<open>\<open>changeset_id\<close> is a unique column.\<close>

definition save_changeset ::
  "change_set \<Rightarrow> change_set_table \<Rightarrow> (py_error + change_set) \<times> change_set_table" where
  "save_changeset c rows =
     (case sql_insert cs_changeset_id c rows of
        None \<Rightarrow> (Inl IntegrityError, rows)
      | Some rows' \<Rightarrow> (Inr c, rows'))"

definition evidence_of_action :: "string \<Rightarrow> string \<Rightarrow> evidence_table \<Rightarrow> recovery_evidence option" where
  "evidence_of_action tenant_id action_id rows =
     sql_first (sql_select (\<lambda>e. re_tenant_id e = tenant_id \<and> re_action_id e = action_id) rows)"

section \<open>Reconstruction\<close>

definition collect_evidence ::
  "string \<Rightarrow> protected_action list \<Rightarrow> evidence_table \<Rightarrow> evidence_map" where
  "collect_evidence tenant_id actions rows =
     fold (\<lambda>a m. case evidence_of_action tenant_id (pa_action_id a) rows of
                   None \<Rightarrow> m | Some e \<Rightarrow> m(pa_action_id a \<mapsto> e)) actions Map.empty"

definition identify_affected_resources :: "protected_action list \<Rightarrow> evidence_map \<Rightarrow> string list" where
  "identify_affected_resources actions ev =
     remdups (concat (map (\<lambda>a.
       (if pa_resource a = [] then [] else [pa_resource a]) @
       (case ev (pa_action_id a) of
          None \<Rightarrow> []
        | Some e \<Rightarrow> if re_target_resource e = [] then [] else [re_target_resource e])) actions))"

text \<open>\<open>if value: refs[action_id] = value\<close>, for one of the three references of the evidence\<close>

definition collect_references ::
  "(recovery_evidence \<Rightarrow> string option) \<Rightarrow> protected_action list \<Rightarrow> evidence_map \<Rightarrow> (string, string) dict" where
  "collect_references ref actions ev =
     fold (\<lambda>a refs. case ev (pa_action_id a) of
             None \<Rightarrow> refs
           | Some e \<Rightarrow> if truthy (ref e) then AList.update (pa_action_id a) (the (ref e)) refs else refs)
       actions []"

definition change_node_of :: "evidence_map \<Rightarrow> protected_action \<Rightarrow> change_node" where
  "change_node_of ev a =
     \<lparr>cn_action_id = pa_action_id a, cn_agent_id = pa_agent_id a, cn_resource = pa_resource a,
      cn_action_type = pa_action_type a, cn_parent_action_id = pa_parent_action_id a,
      cn_evidence = map_option (\<lambda>e. (re_dependency_edges e, re_target_system e)) (ev (pa_action_id a))\<rparr>"

definition change_edges_of ::
  "string set \<Rightarrow> evidence_map \<Rightarrow> protected_action \<Rightarrow> (string \<times> string \<times> string) list" where
  "change_edges_of ids ev a =
     (if truthy (pa_parent_action_id a) \<and> the (pa_parent_action_id a) \<in> ids
      then [(the (pa_parent_action_id a), pa_action_id a, ''parent_child'')] else []) @
     (case ev (pa_action_id a) of
        None \<Rightarrow> []
      | Some e \<Rightarrow> map (\<lambda>d. (d, pa_action_id a, ''dependency''))
                    (filter (\<lambda>d. d \<in> ids) (re_dependency_edges e)))"

definition add_resource ::
  "protected_action \<Rightarrow> (string, string list) dict \<Rightarrow> (string, string list) dict" where
  "add_resource a d =
     (if pa_resource a = [] then d
      else AList.update (pa_resource a)
             ((case map_of d (pa_resource a) of None \<Rightarrow> [] | Some ids \<Rightarrow> ids) @ [pa_action_id a]) d)"

definition build_change_graph :: "protected_action list \<Rightarrow> evidence_map \<Rightarrow> change_graph" where
  "build_change_graph actions ev =
     \<lparr>cg_nodes = map (change_node_of ev) actions,
      cg_edges = concat (map (change_edges_of (pa_action_id ` set actions) ev) actions),
      cg_resources = fold add_resource actions []\<rparr>"

datatype change_class = CH_DIRECT | CH_INDIRECT | CH_DEPENDENT

definition classify_change :: "evidence_map \<Rightarrow> string \<Rightarrow> protected_action \<Rightarrow> change_class" where
  "classify_change ev base a =
     (if pa_action_id a = base then CH_DIRECT
      else
        (case ev (pa_action_id a) of
           None \<Rightarrow> CH_INDIRECT
         | Some e \<Rightarrow>
             let root_resource = (case ev base of None \<Rightarrow> [] | Some r \<Rightarrow> re_target_resource r);
                 is_direct = (root_resource \<noteq> [] \<and> re_target_resource e = root_resource \<or>
                              pa_parent_action_id a = Some base);
                 is_dependent = base \<in> set (re_dependency_edges e)
             in if is_direct then CH_DIRECT else if is_dependent then CH_DEPENDENT else CH_INDIRECT))"

text \<open>The identifiers of a class, in the order of the actions.\<close>

definition classify_changes ::
  "protected_action list \<Rightarrow> evidence_map \<Rightarrow> string \<Rightarrow> string list \<times> string list \<times> string list" where
  "classify_changes actions ev base =
     (let ids = (\<lambda>k. map pa_action_id (filter (\<lambda>a. classify_change ev base a = k) actions))
      in (ids CH_DIRECT, ids CH_INDIRECT, ids CH_DEPENDENT))"

definition identify_external_effects :: "protected_action list \<Rightarrow> evidence_map \<Rightarrow> string list" where
  "identify_external_effects actions ev =
     concat (map (\<lambda>a.
       case ev (pa_action_id a) of
         None \<Rightarrow> []
       | Some e \<Rightarrow>
           if re_target_system e \<noteq> [] \<and>
              lower (re_target_system e) \<notin> {''database'', ''mock'', ''config_store'', ''file_store''}
           then [pa_action_id a @ '':'' @ re_target_system e @ '':'' @ re_target_resource e] else []) actions)"

text \<open>\<open>actions[0]\<close> is the root action.\<close>

definition detect_unrelated_mutations ::
  "protected_action \<Rightarrow> protected_action list \<Rightarrow> evidence_map \<Rightarrow> unrelated_mutation list" where
  "detect_unrelated_mutations base actions ev =
     concat (map (\<lambda>a.
       case ev (pa_action_id a) of
         None \<Rightarrow> []
       | Some e \<Rightarrow>
           if re_agent_id e \<noteq> [] \<and> re_agent_id e \<noteq> pa_agent_id base
           then [\<lparr>um_action_id = pa_action_id a, um_reason = ''different_agent'', um_agent_id = re_agent_id e\<rparr>]
           else []) actions)"

definition recoverability_of :: "recovery_evidence option \<Rightarrow> string" where
  "recoverability_of evidence =
     (case evidence of
        None \<Rightarrow> ''no_evidence''
      | Some e \<Rightarrow>
          let r = re_reversibility_classification e
          in if r = IRREVERSIBLE then ''irreversible''
             else if r = REV_UNKNOWN then ''unknown''
             else if re_before_state_reference e = None then ''no_before_state''
             else if r \<in> {AUTOMATICALLY_REVERSIBLE, REVERSIBLE} then ''recoverable''
             else if r \<in> {CONDITIONALLY_REVERSIBLE, REVERSIBLE_WITH_APPROVAL}
             then ''conditionally_recoverable''
             else ''unknown'')"

definition assess_recoverability ::
  "protected_action list \<Rightarrow> evidence_map \<Rightarrow> (string, string) dict" where
  "assess_recoverability actions ev =
     fold (\<lambda>a d. AList.update (pa_action_id a) (recoverability_of (ev (pa_action_id a))) d) actions []"

definition unknown_areas_of :: "evidence_map \<Rightarrow> protected_action \<Rightarrow> string list" where
  "unknown_areas_of ev a =
     (let area = (\<lambda>what. ''action:'' @ pa_action_id a @ what)
      in case ev (pa_action_id a) of
           None \<Rightarrow> [area '':no_evidence_captured'']
         | Some e \<Rightarrow>
             (if re_before_state_reference e = None then [area '':no_before_state''] else []) @
             (if re_after_state_reference e = None then [area '':no_after_state''] else []) @
             (if re_target_system e = [] then [area '':unknown_target_system''] else []))"

definition identify_unknown_areas :: "protected_action list \<Rightarrow> evidence_map \<Rightarrow> string list" where
  "identify_unknown_areas actions ev = concat (map (unknown_areas_of ev) actions)"

definition determine_root_cause :: "protected_action \<Rightarrow> protected_action list \<Rightarrow> string" where
  "determine_root_cause base all_actions =
     ''Agent '' @ pa_agent_id base @ '' performed '' @ pa_action_type base @ '' on '' @ pa_resource base @
     '' (action '' @ pa_action_id base @ ''), triggering '' @ show_nat (length all_actions - 1) @
     '' dependent actions''"

definition empty_changeset ::
  "datetime \<Rightarrow> string \<Rightarrow> string \<Rightarrow> string \<Rightarrow> string \<Rightarrow> string \<Rightarrow> string \<Rightarrow> string \<Rightarrow> change_set" where
  "empty_changeset now changeset_id tenant_id incident_id agent_id root_action_id correlation_id root_cause =
     \<lparr>cs_changeset_id = changeset_id, cs_tenant_id = tenant_id, cs_incident_id = incident_id,
      cs_agent_id = agent_id, cs_root_action_id = root_action_id, cs_correlation_id = correlation_id,
      cs_created_at = now, cs_root_cause = root_cause, cs_causal_actions = [],
      cs_affected_resources = [], cs_before_references = [], cs_after_references = [],
      cs_current_references = [], cs_dependency_graph = None, cs_unrelated_mutations = [],
      cs_recoverability = [], cs_unknown_areas = [''root_action:'' @ root_action_id @ '':not_found''],
      cs_direct_changes = [], cs_indirect_changes = [], cs_dependent_changes = [],
      cs_external_effects = []\<rparr>"

definition change_set_of ::
  "datetime \<Rightarrow> string \<Rightarrow> string \<Rightarrow> string \<Rightarrow> string \<Rightarrow> string \<Rightarrow> protected_action
     \<Rightarrow> protected_action list \<Rightarrow> evidence_map \<Rightarrow> change_set" where
  "change_set_of now changeset_id tenant_id incident_id agent_id correlation_id base all_actions ev =
     (let (direct, indirect, depending) = classify_changes all_actions ev (pa_action_id base)
      in \<lparr>cs_changeset_id = changeset_id, cs_tenant_id = tenant_id, cs_incident_id = incident_id,
          cs_agent_id = agent_id, cs_root_action_id = pa_action_id base,
          cs_correlation_id = correlation_id, cs_created_at = now,
          cs_root_cause = determine_root_cause base all_actions,
          cs_causal_actions = map pa_action_id all_actions,
          cs_affected_resources = sort (identify_affected_resources all_actions ev),
          cs_before_references = collect_references re_before_state_reference all_actions ev,
          cs_after_references = collect_references re_after_state_reference all_actions ev,
          cs_current_references = collect_references re_resource_version all_actions ev,
          cs_dependency_graph = Some (build_change_graph all_actions ev),
          cs_unrelated_mutations = detect_unrelated_mutations base all_actions ev,
          cs_recoverability = assess_recoverability all_actions ev,
          cs_unknown_areas = identify_unknown_areas all_actions ev,
          cs_direct_changes = direct, cs_indirect_changes = indirect, cs_dependent_changes = depending,
          cs_external_effects = identify_external_effects all_actions ev\<rparr>)"

text \<open>An empty change set is returned and not saved.\<close>

definition reconstruct ::
  "datetime \<Rightarrow> string \<Rightarrow> string \<Rightarrow> string \<Rightarrow> string \<Rightarrow> string \<Rightarrow> string \<Rightarrow> action_table \<Rightarrow> evidence_table
     \<Rightarrow> change_set_table \<Rightarrow> (py_error + change_set) \<times> change_set_table" where
  "reconstruct now changeset_id tenant_id incident_id agent_id root_action_id correlation_id actions
       evidence rows =
     (let empty = (\<lambda>why. (Inr (empty_changeset now changeset_id tenant_id incident_id agent_id
            root_action_id correlation_id (''Root action '' @ root_action_id @ why)), rows))
      in case find_action tenant_id root_action_id actions of
           None \<Rightarrow> empty '' not found''
         | Some base \<Rightarrow>
             (let (descendants, n) = list_descendants tenant_id root_action_id 1000 0 actions;
                  all_actions = base # descendants;
                  ev = collect_evidence tenant_id all_actions evidence
              in if n > 1000 then empty ('' has too many descendants ('' @ show_nat n @ '')'')
                 else save_changeset (change_set_of now changeset_id tenant_id incident_id agent_id
                        correlation_id base all_actions ev) rows))"

section \<open>The causal state graph\<close>

text \<open>
  States of a node are never set by the service; the metadata of an edge is the answer to whether
  both actions share a resource.
\<close>

datatype causal_relation = CR_PARENT_CHILD | CR_DEPENDENCY | CR_DELEGATION | CR_TRIGGERED

record causal_state_node =
  sn_node_id :: string
  sn_node_type :: string
  sn_entity_id :: string
  sn_tenant_id :: string
  sn_version_before :: "string option"
  sn_version_after :: "string option"
  sn_agent_id :: "string option"
  sn_action_id :: "string option"
  sn_resource_id :: "string option"

record causal_state_edge =
  ce_edge_id :: string
  ce_source_node_id :: string
  ce_target_node_id :: string
  ce_relation_type :: causal_relation
  ce_edge_tenant_id :: string
  ce_shared_resource :: "bool option"

record subgraph_extraction =
  sx_source_graph_id :: string
  sx_included_resources :: "string list"
  sx_node_count :: nat
  sx_edge_count :: nat

record causal_state_graph =
  sg_graph_id :: string
  sg_tenant_id :: string
  sg_incident_id :: string
  sg_root_action_id :: string
  sg_created_at :: datetime
  sg_nodes :: "causal_state_node list"
  sg_edges :: "causal_state_edge list"
  sg_subgraph_extractions :: "subgraph_extraction list"

type_synonym state_graph_table = "causal_state_graph list"

definition get_by_graph_id ::
  "string \<Rightarrow> string \<Rightarrow> state_graph_table \<Rightarrow> py_error + causal_state_graph option" where
  "get_by_graph_id tenant_id graph_id rows =
     scalar_one_or_none (sql_select (\<lambda>g. sg_graph_id g = graph_id \<and> sg_tenant_id g = tenant_id) rows)"

definition get_state_graph_by_incident ::
  "string \<Rightarrow> string \<Rightarrow> state_graph_table \<Rightarrow> py_error + causal_state_graph option" where
  "get_state_graph_by_incident tenant_id incident_id rows =
     scalar_one_or_none
       (sql_select (\<lambda>g. sg_incident_id g = incident_id \<and> sg_tenant_id g = tenant_id) rows)"

definition save_state_graph ::
  "causal_state_graph \<Rightarrow> state_graph_table \<Rightarrow> (py_error + causal_state_graph) \<times> state_graph_table" where
  "save_state_graph g rows =
     (case sql_insert sg_graph_id g rows of
        None \<Rightarrow> (Inl IntegrityError, rows)
      | Some rows' \<Rightarrow> (Inr g, rows'))"

definition state_node_id :: "string \<Rightarrow> string" where
  "state_node_id action_id = ''node-'' @ action_id"

definition state_node :: "string \<Rightarrow> evidence_map \<Rightarrow> protected_action \<Rightarrow> causal_state_node" where
  "state_node tenant_id ev a =
     \<lparr>sn_node_id = state_node_id (pa_action_id a), sn_node_type = ''action'',
      sn_entity_id = pa_action_id a, sn_tenant_id = tenant_id,
      sn_version_before = Option.bind (ev (pa_action_id a)) re_state_version,
      sn_version_after = Option.bind (ev (pa_action_id a)) re_resource_version,
      sn_agent_id = Some (pa_agent_id a), sn_action_id = Some (pa_action_id a),
      sn_resource_id = Some (pa_resource a)\<rparr>"

definition state_edge ::
  "string \<Rightarrow> string \<Rightarrow> string \<Rightarrow> string \<Rightarrow> causal_relation \<Rightarrow> bool option \<Rightarrow> causal_state_edge" where
  "state_edge tenant_id prefix parent child relation shared =
     \<lparr>ce_edge_id = prefix @ parent @ ''-'' @ child, ce_source_node_id = state_node_id parent,
      ce_target_node_id = state_node_id child, ce_relation_type = relation,
      ce_edge_tenant_id = tenant_id, ce_shared_resource = shared\<rparr>"

definition state_edges :: "string \<Rightarrow> evidence_map \<Rightarrow> protected_action \<Rightarrow> causal_state_edge list" where
  "state_edges tenant_id ev a =
     (if \<not> truthy (pa_parent_action_id a) then []
      else
        (let parent = the (pa_parent_action_id a)
         in state_edge tenant_id ''edge-'' parent (pa_action_id a) CR_PARENT_CHILD None #
            (case (ev parent, ev (pa_action_id a)) of
               (Some p, Some e) \<Rightarrow>
                 [state_edge tenant_id ''dep-'' parent (pa_action_id a) CR_DEPENDENCY
                    (Some (re_target_resource p = re_target_resource e))]
             | _ \<Rightarrow> [])))"

definition bare_state_graph :: "datetime \<Rightarrow> string \<Rightarrow> string \<Rightarrow> string \<Rightarrow> string \<Rightarrow> causal_state_graph" where
  "bare_state_graph now graph_id tenant_id incident_id root_action_id =
     \<lparr>sg_graph_id = graph_id, sg_tenant_id = tenant_id, sg_incident_id = incident_id,
      sg_root_action_id = root_action_id, sg_created_at = now, sg_nodes = [], sg_edges = [],
      sg_subgraph_extractions = []\<rparr>"

definition build_causal_state_graph ::
  "datetime \<Rightarrow> string \<Rightarrow> string \<Rightarrow> string \<Rightarrow> string \<Rightarrow> action_table \<Rightarrow> evidence_table
     \<Rightarrow> state_graph_table \<Rightarrow> (py_error + causal_state_graph) \<times> state_graph_table" where
  "build_causal_state_graph now graph_id tenant_id incident_id root_action_id actions evidence rows =
     (let bare = bare_state_graph now graph_id tenant_id incident_id root_action_id
      in case find_action tenant_id root_action_id actions of
           None \<Rightarrow> (Inr bare, rows)
         | Some base \<Rightarrow>
             (let (descendants, n) = list_descendants tenant_id root_action_id 1000 0 actions;
                  all_actions = base # descendants;
                  ev = collect_evidence tenant_id all_actions evidence
              in if n > 1000 then (Inr bare, rows)
                 else save_state_graph
                        (bare\<lparr>sg_nodes := map (state_node tenant_id ev) all_actions,
                              sg_edges := concat (map (state_edges tenant_id ev) all_actions)\<rparr>) rows))"

definition extract_recoverable_subgraph ::
  "datetime \<Rightarrow> string \<Rightarrow> string \<Rightarrow> string \<Rightarrow> string list \<Rightarrow> state_graph_table
     \<Rightarrow> py_error + causal_state_graph option" where
  "extract_recoverable_subgraph now new_id tenant_id graph_id targets rows =
     (case get_by_graph_id tenant_id graph_id rows of
        Inl e \<Rightarrow> Inl e
      | Inr None \<Rightarrow> Inr None
      | Inr (Some g) \<Rightarrow>
          (let ids = sn_node_id ` set (filter (\<lambda>n. truthy (sn_resource_id n) \<and>
                         the (sn_resource_id n) \<in> set targets) (sg_nodes g));
               bare = bare_state_graph now new_id tenant_id (sg_incident_id g) (sg_root_action_id g);
               nodes = filter (\<lambda>n. sn_node_id n \<in> ids) (sg_nodes g);
               edges = filter (\<lambda>e. ce_source_node_id e \<in> ids \<or> ce_target_node_id e \<in> ids) (sg_edges g)
           in if ids = {} then Inr (Some bare)
              else Inr (Some (bare\<lparr>sg_nodes := nodes, sg_edges := edges,
                     sg_subgraph_extractions :=
                       [\<lparr>sx_source_graph_id = graph_id, sx_included_resources = targets,
                         sx_node_count = length nodes, sx_edge_count = length edges\<rparr>]\<rparr>))))"

section \<open>What a change set contains\<close>

lemma collect_evidence_eq:
  "collect_evidence t actions rows i =
     (if i \<in> pa_action_id ` set actions then evidence_of_action t i rows else None)"
proof -
  have "fold (\<lambda>a m. case evidence_of_action t (pa_action_id a) rows of
                None \<Rightarrow> m | Some e \<Rightarrow> m(pa_action_id a \<mapsto> e)) actions m i =
      (if i \<in> pa_action_id ` set actions \<and> evidence_of_action t i rows \<noteq> None
       then evidence_of_action t i rows else m i)" for m
    by (induction actions arbitrary: m) (auto split: option.split)
  then show ?thesis by (auto simp: collect_evidence_def)
qed

text \<open>A dictionary filled in a loop with the value \<open>f\<close> of each identifier.\<close>

lemma filled_dict:
  "map_of (fold (\<lambda>a d. AList.update (pa_action_id a) (f (pa_action_id a)) d) actions d) i =
     (if i \<in> pa_action_id ` set actions then Some (f i) else map_of d i)"
  by (induction actions arbitrary: d) auto

lemma recoverability_lookup:
  "map_of (assess_recoverability actions ev) i =
     (if i \<in> pa_action_id ` set actions then Some (recoverability_of (ev i)) else None)"
  using filled_dict [of "\<lambda>i. recoverability_of (ev i)" actions "[]" i]
  by (simp add: assess_recoverability_def)

lemma classes_partition:
  assumes "classify_changes actions ev base = (direct, indirect, depending)"
  shows "mset direct + mset indirect + mset depending = mset (map pa_action_id actions)"
proof -
  have "mset (map pa_action_id (filter (\<lambda>a. classify_change ev base a = CH_DIRECT) actions)) +
      mset (map pa_action_id (filter (\<lambda>a. classify_change ev base a = CH_INDIRECT) actions)) +
      mset (map pa_action_id (filter (\<lambda>a. classify_change ev base a = CH_DEPENDENT) actions)) =
      mset (map pa_action_id actions)"
  proof (induction actions)
    case (Cons a actions)
    then show ?case by (cases "classify_change ev base a") simp_all
  qed simp
  then show ?thesis using assms by (auto simp: classify_changes_def Let_def)
qed

lemma reconstruct_saved:
  assumes "reconstruct now cid t inc agent r corr actions evidence rows = (Inr cs, rows')"
    and "rows' \<noteq> rows"
  obtains base desc where "find_action t r actions = Some base"
    and "list_descendants t r 1000 0 actions = (desc, length desc)" and "length desc \<le> 1000"
    and "rows' = rows @ [cs]"
    and "cs = change_set_of now cid t inc agent corr base (base # desc)
           (collect_evidence t (base # desc) evidence)"
proof (cases "find_action t r actions")
  case None
  then show ?thesis using assms by (simp add: reconstruct_def)
next
  case (Some base)
  obtain desc n where desc: "list_descendants t r 1000 0 actions = (desc, n)" by (metis surj_pair)
  then have "n \<le> 1000"
    using assms Some by (auto simp: reconstruct_def Let_def split: if_splits)
  then have "n = length desc"
    using desc by (auto simp: list_descendants_def Let_def)
  moreover have "rows' = rows @ [cs]" "cs = change_set_of now cid t inc agent corr base (base # desc)
           (collect_evidence t (base # desc) evidence)"
    using assms Some desc \<open>n \<le> 1000\<close>
    by (auto simp: reconstruct_def Let_def save_changeset_def sql_insert_def split: if_splits)
  ultimately show ?thesis using that Some desc \<open>n \<le> 1000\<close> by simp
qed

lemma found_action:
  "find_action t r actions = Some base \<Longrightarrow> pa_action_id base = r \<and> pa_tenant_id base = t \<and> base \<in> set actions"
  by (auto simp: find_action_def sql_select_def filter_eq_Cons_iff elim!: sql_first.elims)

text \<open>The parts of a stored change set, over the actions \<open>all_actions\<close> and their evidence.\<close>

lemma reconstruct_parts:
  assumes "reconstruct now cid t inc agent r corr actions evidence rows = (Inr cs, rows')"
    and "rows' \<noteq> rows"
  obtains base desc ev where "pa_action_id base = r"
    and "pa_action_id ` set desc = {i. descendant actions t r i}"
    and "ev = collect_evidence t (base # desc) evidence"
    and "cs_causal_actions cs = map pa_action_id (base # desc)"
    and "cs_recoverability cs = assess_recoverability (base # desc) ev"
    and "cs_unknown_areas cs = identify_unknown_areas (base # desc) ev"
    and "classify_changes (base # desc) ev r =
           (cs_direct_changes cs, cs_indirect_changes cs, cs_dependent_changes cs)"
proof -
  obtain base desc where found: "find_action t r actions = Some base"
    and desc: "list_descendants t r 1000 0 actions = (desc, length desc)" "length desc \<le> 1000"
    and cs: "cs = change_set_of now cid t inc agent corr base (base # desc)
           (collect_evidence t (base # desc) evidence)"
    by (rule reconstruct_saved [OF assms])
  note base = found_action [OF found]
  have "length (collect actions t (children_of actions t r) []) \<le> 1000"
    using desc by (simp add: list_descendants_def Let_def)
  from list_descendants_exact [OF this] desc
  have "pa_action_id ` set desc = {i. descendant actions t r i}" by simp
  then show ?thesis
    using that [of base desc] base by (simp add: cs change_set_of_def case_prod_beta)
qed

lemma root_is_direct:
  assumes "classify_changes (base # desc) ev (pa_action_id base) = (direct, indirect, depending)"
  shows "pa_action_id base \<in> set direct"
  using assms by (auto simp: classify_changes_def Let_def classify_change_def)

lemma unknown_without_evidence:
  assumes "a \<in> set actions" and "ev (pa_action_id a) = None"
  shows "''action:'' @ pa_action_id a @ '':no_evidence_captured'' \<in> set (identify_unknown_areas actions ev)"
proof -
  have "''action:'' @ pa_action_id a @ '':no_evidence_captured'' \<in> set (unknown_areas_of ev a)"
    using assms(2) by (simp add: unknown_areas_of_def Let_def)
  then show ?thesis using assms(1) unfolding identify_unknown_areas_def set_concat set_map by blast
qed

lemma recoverable_evidence:
  "recoverability_of ev = ''recoverable'' \<Longrightarrow> \<exists>e. ev = Some e \<and> re_before_state_reference e \<noteq> None \<and>
     re_reversibility_classification e \<in> {AUTOMATICALLY_REVERSIBLE, REVERSIBLE}"
  by (auto simp: recoverability_of_def Let_def split: option.splits if_splits)

text \<open>
  C27. A stored change set is complete and honest about what it does not know: it lists exactly the
  root action and the actions below it over parent links; the three classes of changes together are
  that list, each action once, with the root among the direct ones; every listed action has a
  recoverability; an action without evidence is recorded as such in the recoverability and in the
  unknown areas; and only an action whose evidence has a reference to its earlier state and a
  reversible classification is called recoverable.
\<close>

theorem change_set_complete:
  assumes "reconstruct now cid t inc agent r corr actions evidence rows = (Inr cs, rows')"
    and "rows' \<noteq> rows"
  shows "set (cs_causal_actions cs) = insert r {i. descendant actions t r i} \<and>
    mset (cs_direct_changes cs) + mset (cs_indirect_changes cs) + mset (cs_dependent_changes cs) =
      mset (cs_causal_actions cs) \<and>
    r \<in> set (cs_direct_changes cs) \<and>
    dom (map_of (cs_recoverability cs)) = set (cs_causal_actions cs) \<and>
    (\<forall>i. i \<in> set (cs_causal_actions cs) \<and> evidence_of_action t i evidence = None \<longrightarrow>
      map_of (cs_recoverability cs) i = Some ''no_evidence'' \<and>
      ''action:'' @ i @ '':no_evidence_captured'' \<in> set (cs_unknown_areas cs)) \<and>
    (\<forall>i. map_of (cs_recoverability cs) i = Some ''recoverable'' \<longrightarrow>
      (\<exists>e. evidence_of_action t i evidence = Some e \<and> re_before_state_reference e \<noteq> None \<and>
        re_reversibility_classification e \<in> {AUTOMATICALLY_REVERSIBLE, REVERSIBLE}))"
proof (intro conjI allI impI)
  obtain base desc ev where base: "pa_action_id base = r"
    and ids: "pa_action_id ` set desc = {i. descendant actions t r i}"
    and ev: "ev = collect_evidence t (base # desc) evidence"
    and causal: "cs_causal_actions cs = map pa_action_id (base # desc)"
    and rec: "cs_recoverability cs = assess_recoverability (base # desc) ev"
    and unknown: "cs_unknown_areas cs = identify_unknown_areas (base # desc) ev"
    and classes: "classify_changes (base # desc) ev r =
      (cs_direct_changes cs, cs_indirect_changes cs, cs_dependent_changes cs)"
    by (rule reconstruct_parts [OF assms])
  show "set (cs_causal_actions cs) = insert r {i. descendant actions t r i}"
    using ids base by (simp add: causal)
  show "mset (cs_direct_changes cs) + mset (cs_indirect_changes cs) + mset (cs_dependent_changes cs) =
           mset (cs_causal_actions cs)"
    using classes_partition [OF classes] by (simp add: causal)
  show "r \<in> set (cs_direct_changes cs)"
    using root_is_direct [OF classes [folded base]] base by simp
  show dom: "dom (map_of (cs_recoverability cs)) = set (cs_causal_actions cs)"
    by (auto simp: dom_def rec causal recoverability_lookup)
  have lookup: "ev i = evidence_of_action t i evidence" if "i \<in> set (cs_causal_actions cs)" for i
    using that by (auto simp: ev causal collect_evidence_eq)
  have unevidenced: "map_of (cs_recoverability cs) i = Some ''no_evidence'' \<and>
      ''action:'' @ i @ '':no_evidence_captured'' \<in> set (cs_unknown_areas cs)"
    if "i \<in> set (cs_causal_actions cs) \<and> evidence_of_action t i evidence = None" for i
  proof -
    from that have i: "i \<in> set (cs_causal_actions cs)" and none: "evidence_of_action t i evidence = None"
      by simp_all
    obtain a where a: "a \<in> set (base # desc)" "pa_action_id a = i" using i by (auto simp: causal)
    then show ?thesis
      using unknown_without_evidence [OF a(1), of ev] lookup [OF i] i none
      unfolding rec recoverability_lookup unknown by (auto simp: causal recoverability_of_def)
  qed
  show "map_of (cs_recoverability cs) i = Some ''no_evidence''"
    and "''action:'' @ i @ '':no_evidence_captured'' \<in> set (cs_unknown_areas cs)"
    if "i \<in> set (cs_causal_actions cs) \<and> evidence_of_action t i evidence = None" for i
    using unevidenced [OF that] by simp_all
  show "\<exists>e. evidence_of_action t i evidence = Some e \<and> re_before_state_reference e \<noteq> None \<and>
      re_reversibility_classification e \<in> {AUTOMATICALLY_REVERSIBLE, REVERSIBLE}"
    if r: "map_of (cs_recoverability cs) i = Some ''recoverable''" for i
  proof (rule recoverable_evidence)
    have "i \<in> set (cs_causal_actions cs)" using r dom by blast
    then show "recoverability_of (evidence_of_action t i evidence) = ''recoverable''"
      using r lookup by (simp add: rec recoverability_lookup split: if_splits)
  qed
qed

text \<open>The family of the samples, with evidence for the root and one child.\<close>

definition sample_change_actions :: action_table where
  "sample_change_actions =
     [sample_action ''a'' None REVERSIBLE, sample_action ''b'' (Some ''a'') REVERSIBLE,
      sample_action ''c'' (Some ''b'') REVERSIBLE]"

definition change_evidence :: "string \<Rightarrow> string option \<Rightarrow> recovery_evidence" where
  "change_evidence i before =
     \<lparr>re_evidence_id = i, re_action_id = i, re_tenant_id = ''t'', re_agent_id = ''ag'',
      re_authority_grant_id = None, re_parent_action_id = None, re_root_action_id = None,
      re_correlation_id = [], re_incident_id = None, re_created_at = 0,
      re_target_system = ''database'', re_target_resource = ''r'' @ i, re_action_type = ''update'',
      re_before_state_reference = before, re_after_state_reference = None,
      re_request_payload_reference = None, re_response_payload_reference = None,
      re_compensation_payload = [], re_compensation_type = CT_CUSTOM,
      re_recovery_adapter_type = AT_MOCK, re_idempotency_key = i, re_dependency_edges = [],
      re_reversibility_classification = REVERSIBLE, re_state_version = None, re_state_hash = None,
      re_resource_version = None, re_verification_requirements = [], re_recovery_metadata = [],
      re_evidence_hash = [], re_adapter_capability = AC_MOCK\<rparr>"

definition sample_change_run where
  "sample_change_run = reconstruct 9 ''cs-1'' ''t'' ''inc-1'' ''ag'' ''a'' [] sample_change_actions
     [change_evidence ''a'' (Some ''v0''), change_evidence ''b'' None] []"

definition sample_change_set :: change_set where
  "sample_change_set = (case fst sample_change_run of Inr cs \<Rightarrow> cs)"

lemma sample_change_saved:
  "sample_change_run = (Inr sample_change_set, [sample_change_set])"
  by code_simp

theorem change_set_complete_witness:
  "set (cs_causal_actions sample_change_set) = insert ''a'' {i. descendant sample_change_actions ''t'' ''a'' i} \<and>
   map_of (cs_recoverability sample_change_set) ''c'' = Some ''no_evidence'' \<and>
   map_of (cs_recoverability sample_change_set) ''a'' = Some ''recoverable'' \<and>
   (\<exists>e. evidence_of_action ''t'' ''a'' [change_evidence ''a'' (Some ''v0''), change_evidence ''b'' None] = Some e)"
proof -
  note run = sample_change_saved [unfolded sample_change_run_def]
  have ne: "[sample_change_set] \<noteq> []" by simp
  have c: "''c'' \<in> set (cs_causal_actions sample_change_set)" by code_simp
  have none: "evidence_of_action ''t'' ''c'' [change_evidence ''a'' (Some ''v0''), change_evidence ''b'' None] = None"
    by code_simp
  have a: "map_of (cs_recoverability sample_change_set) ''a'' = Some ''recoverable''" by code_simp
  from change_set_complete [OF run ne] c none a show ?thesis by blast
qed

section \<open>The edges of the graph\<close>

lemma change_parents:
  assumes "\<forall>c \<in> set stack \<union> set result. \<exists>p. pa_parent_action_id c = Some p \<and> p \<in> insert start (action_ids result)"
  shows "\<forall>c \<in> set (collect rows t stack result).
    \<exists>p. pa_parent_action_id c = Some p \<and> p \<in> insert start (action_ids (collect rows t stack result))"
  using assms
proof (induction rows t stack result rule: collect.induct)
  case (2 rows t child stack result)
  show ?case
  proof (cases "pa_action_id child \<in> action_ids result \<or> child \<notin> set rows")
    case True
    then show ?thesis using 2(1) [OF True] 2(3) by simp
  next
    case False
    note prem = 2(3)
    have "\<forall>c \<in> set (children_of rows t (pa_action_id child) @ stack) \<union> set (result @ [child]).
        \<exists>p. pa_parent_action_id c = Some p \<and> p \<in> insert start (action_ids (result @ [child]))"
    proof
      fix c
      assume "c \<in> set (children_of rows t (pa_action_id child) @ stack) \<union> set (result @ [child])"
      then consider "c \<in> set (children_of rows t (pa_action_id child))" | "c \<in> set (child # stack) \<union> set result"
        by auto
      then show "\<exists>p. pa_parent_action_id c = Some p \<and> p \<in> insert start (action_ids (result @ [child]))"
      proof cases
        case 1
        then show ?thesis by (simp add: children_of_def)
      next
        case 2
        then obtain p where "pa_parent_action_id c = Some p" "p \<in> insert start (action_ids result)"
          using prem by blast
        then show ?thesis by auto
      qed
    qed
    then show ?thesis using 2(2) [OF False] False by simp
  qed
qed simp

lemma state_edge_simps [simp]:
  "ce_source_node_id (state_edge t pre p c k sh) = state_node_id p"
  "ce_target_node_id (state_edge t pre p c k sh) = state_node_id c"
  "ce_relation_type (state_edge t pre p c k sh) = k"
  by (simp_all add: state_edge_def)

lemma state_edges_ends:
  "e \<in> set (state_edges t ev a) \<Longrightarrow> ce_target_node_id e = state_node_id (pa_action_id a) \<and>
     truthy (pa_parent_action_id a) \<and> ce_source_node_id e = state_node_id (the (pa_parent_action_id a))"
  by (auto simp: state_edges_def Let_def split: if_splits option.splits)

lemma build_saved:
  assumes "build_causal_state_graph now gid t inc r actions evidence rows = (Inr g, rows')"
    and "rows' \<noteq> rows"
  obtains base desc ev where "find_action t r actions = Some base"
    and "desc = collect actions t (children_of actions t r) []" and "length desc \<le> 1000"
    and "sg_nodes g = map (state_node t ev) (base # desc)"
    and "sg_edges g = concat (map (state_edges t ev) (base # desc))"
proof (cases "find_action t r actions")
  case None
  then show ?thesis using assms by (simp add: build_causal_state_graph_def Let_def)
next
  case (Some base)
  obtain desc n where desc: "list_descendants t r 1000 0 actions = (desc, n)" by (metis surj_pair)
  then have n: "n \<le> 1000"
    using assms Some by (auto simp: build_causal_state_graph_def Let_def split: if_splits)
  then have "desc = collect actions t (children_of actions t r) []" "length desc \<le> 1000"
    using desc by (auto simp: list_descendants_def Let_def)
  moreover have "sg_nodes g = map (state_node t (collect_evidence t (base # desc) evidence)) (base # desc)"
    "sg_edges g = concat (map (state_edges t (collect_evidence t (base # desc) evidence)) (base # desc))"
    using assms Some desc n
    by (auto simp: build_causal_state_graph_def Let_def save_state_graph_def sql_insert_def split: if_splits)
  ultimately show ?thesis using that Some by blast
qed

text \<open>
  The causal graph of an incident spans it: its nodes are those of the root action and the
  actions below it; every edge leads to one of its nodes and comes from one, unless it leads to the
  root; and every action below the root is the target of a parent-child edge from a node of the
  graph.
\<close>

theorem causal_graph_spans:
  assumes "build_causal_state_graph now gid t inc r actions evidence rows = (Inr g, rows')"
    and "rows' \<noteq> rows" and "list_all (\<lambda>a. pa_action_id a \<noteq> []) actions"
  shows "sn_node_id ` set (sg_nodes g) = state_node_id ` insert r {i. descendant actions t r i}"
    and "e \<in> set (sg_edges g) \<Longrightarrow> ce_target_node_id e \<in> sn_node_id ` set (sg_nodes g) \<and>
      (ce_source_node_id e \<in> sn_node_id ` set (sg_nodes g) \<or> ce_target_node_id e = state_node_id r)"
    and "descendant actions t r i \<Longrightarrow>
      \<exists>e \<in> set (sg_edges g). ce_relation_type e = CR_PARENT_CHILD \<and>
        ce_target_node_id e = state_node_id i \<and> ce_source_node_id e \<in> sn_node_id ` set (sg_nodes g)"
proof -
  obtain base desc ev where found: "find_action t r actions = Some base"
    and desc: "desc = collect actions t (children_of actions t r) []" "length desc \<le> 1000"
    and nodes: "sg_nodes g = map (state_node t ev) (base # desc)"
    and edges: "sg_edges g = concat (map (state_edges t ev) (base # desc))"
    by (rule build_saved [OF assms(1,2)])
  have base: "pa_action_id base = r" "base \<in> set actions" using found_action [OF found] by simp_all
  have ids: "action_ids desc = {i. descendant actions t r i}" and rows: "set desc \<subseteq> set actions"
  proof -
    have "length (collect actions t (children_of actions t r) []) \<le> 1000" using desc by simp
    from list_descendants_exact [OF this]
    have "action_ids desc = {i. descendant actions t r i} \<and> set desc \<subseteq> set actions"
      using desc by (auto simp: list_descendants_def Let_def)
    then show "action_ids desc = {i. descendant actions t r i}" "set desc \<subseteq> set actions" by blast+
  qed
  have node_ids: "sn_node_id ` set (sg_nodes g) = state_node_id ` insert r (action_ids desc)"
    using base by (simp add: nodes state_node_def image_image)
  then show "sn_node_id ` set (sg_nodes g) = state_node_id ` insert r {i. descendant actions t r i}"
    by (simp add: ids)
  have parents: "\<forall>a \<in> set desc. \<exists>p. pa_parent_action_id a = Some p \<and> p \<in> insert r (action_ids desc)"
    unfolding desc(1) by (rule change_parents) (auto simp: children_of_def)
  have named: "p \<noteq> []" if "p \<in> insert r (action_ids desc)" for p :: string
  proof -
    have "insert r (action_ids desc) \<subseteq> action_ids actions" using base rows by auto
    then obtain x where "x \<in> set actions" "p = pa_action_id x" using \<open>p \<in> _\<close> by auto
    then show ?thesis using assms(3) by (simp add: list_all_iff)
  qed
  show "ce_target_node_id e \<in> sn_node_id ` set (sg_nodes g) \<and>
      (ce_source_node_id e \<in> sn_node_id ` set (sg_nodes g) \<or> ce_target_node_id e = state_node_id r)"
    if e: "e \<in> set (sg_edges g)"
  proof -
    obtain a where a: "a \<in> set (base # desc)" "e \<in> set (state_edges t ev a)"
      using e unfolding edges set_concat set_map by blast
    show ?thesis
    proof (cases "a = base")
      case True
      then have "ce_target_node_id e = state_node_id r" using state_edges_ends [OF a(2)] base by simp
      then show ?thesis unfolding node_ids by simp
    next
      case False
      then have "a \<in> set desc" using a(1) by simp
      with parents obtain p where p: "pa_parent_action_id a = Some p" "p \<in> insert r (action_ids desc)" by blast
      have tgt: "ce_target_node_id e = state_node_id (pa_action_id a)"
        and src: "ce_source_node_id e = state_node_id p"
        using state_edges_ends [OF a(2)] p(1) by simp_all
      have "pa_action_id a \<in> insert r (action_ids desc)" using \<open>a \<in> set desc\<close> by blast
      from imageI [OF this, of state_node_id] imageI [OF p(2), of state_node_id]
      show ?thesis unfolding node_ids tgt src by (intro conjI disjI1)
    qed
  qed
  show "\<exists>e \<in> set (sg_edges g). ce_relation_type e = CR_PARENT_CHILD \<and>
        ce_target_node_id e = state_node_id i \<and> ce_source_node_id e \<in> sn_node_id ` set (sg_nodes g)"
    if i: "descendant actions t r i"
  proof -
    have "i \<in> action_ids desc" unfolding ids using i by simp
    then obtain a where a: "a \<in> set desc" "pa_action_id a = i" by auto
    obtain p where p: "pa_parent_action_id a = Some p" "p \<in> insert r (action_ids desc)"
      using parents a by blast
    let ?e = "state_edge t ''edge-'' p i CR_PARENT_CHILD None"
    have here: "?e \<in> set (state_edges t ev a)"
      using a p named [OF p(2)] by (simp add: state_edges_def Let_def)
    have "state_edges t ev a \<in> set (map (state_edges t ev) (base # desc))" using a(1) by simp
    then have "?e \<in> set (sg_edges g)"
      unfolding edges set_concat using here by (intro UnionI [OF imageI])
    moreover have "state_node_id p \<in> sn_node_id ` set (sg_nodes g)"
      unfolding node_ids using p(2) by (rule imageI)
    ultimately show ?thesis by (intro bexI [of _ ?e]) simp_all
  qed
qed

definition sample_graph_run where
  "sample_graph_run = build_causal_state_graph 9 ''g-1'' ''t'' ''inc-1'' ''a'' sample_change_actions
     [change_evidence ''a'' (Some ''v0''), change_evidence ''b'' None] []"

definition sample_state_graph :: causal_state_graph where
  "sample_state_graph = (case fst sample_graph_run of Inr g \<Rightarrow> g)"

lemma sample_graph_saved: "sample_graph_run = (Inr sample_state_graph, [sample_state_graph])"
  by code_simp

theorem causal_graph_spans_witness:
  "sn_node_id ` set (sg_nodes sample_state_graph) =
     state_node_id ` insert ''a'' {i. descendant sample_change_actions ''t'' ''a'' i} \<and>
   (\<exists>e \<in> set (sg_edges sample_state_graph). ce_target_node_id e = state_node_id ''b'' \<and>
      ce_source_node_id e \<in> sn_node_id ` set (sg_nodes sample_state_graph))"
proof -
  note run = sample_graph_saved [unfolded sample_graph_run_def]
  have ne: "[sample_state_graph] \<noteq> []" by simp
  have named: "list_all (\<lambda>a. pa_action_id a \<noteq> []) sample_change_actions" by code_simp
  have "descendant sample_change_actions ''t'' ''a'' (pa_action_id (sample_action ''b'' (Some ''a'') REVERSIBLE))"
    by (rule descendant.child) (simp add: children_of_def sample_change_actions_def sample_action_def)
  then have b: "descendant sample_change_actions ''t'' ''a'' ''b''" by (simp add: sample_action_def)
  from causal_graph_spans(1) [OF run ne named] causal_graph_spans(3) [OF run ne named b]
  show ?thesis by blast
qed

section \<open>Limits\<close>

text \<open>
  An extracted subgraph has edges to nodes that it does not contain, and the graph of an action that
  has a parent has an edge from a node that it does not contain.
\<close>

theorem subgraph_edges_dangle:
  "(case extract_recoverable_subgraph 9 ''s-1'' ''t'' ''g-1'' [''r''] 
      [sample_state_graph\<lparr>sg_nodes := map (\<lambda>n. if sn_entity_id n = ''b''
         then n\<lparr>sn_resource_id := Some ''r''\<rparr> else n\<lparr>sn_resource_id := Some ''other''\<rparr>)
         (sg_nodes sample_state_graph)\<rparr>] of
      Inr (Some g) \<Rightarrow> map sn_entity_id (sg_nodes g) = [''b''] \<and>
        state_node_id ''a'' \<in> ce_source_node_id ` set (sg_edges g) \<and>
        state_node_id ''c'' \<in> ce_target_node_id ` set (sg_edges g)
    | _ \<Rightarrow> False)"
  by code_simp

theorem edge_from_outside:
  "(case fst (build_causal_state_graph 9 ''g-2'' ''t'' ''inc-1'' ''b'' sample_change_actions [] []) of
      Inr g \<Rightarrow> state_node_id ''a'' \<in> ce_source_node_id ` set (sg_edges g) \<and>
        state_node_id ''a'' \<notin> sn_node_id ` set (sg_nodes g)
    | _ \<Rightarrow> False)"
  by code_simp

text \<open>
  A child of the root without evidence counts as an indirect change, and the mutations that are
  called unrelated are actions of the causal chain.
\<close>

theorem child_without_evidence_is_indirect:
  "(case fst (reconstruct 9 ''cs-2'' ''t'' ''inc-1'' ''ag'' ''a'' [] sample_change_actions [] []) of
      Inr cs \<Rightarrow> cs_direct_changes cs = [''a''] \<and> cs_indirect_changes cs = [''b'', ''c'']
    | _ \<Rightarrow> False)"
  by code_simp

theorem unrelated_mutations_are_causal:
  "um_action_id ` set (detect_unrelated_mutations base actions ev) \<subseteq> pa_action_id ` set actions"
  by (auto simp: detect_unrelated_mutations_def split: option.splits if_splits)

end
