(* ===== verification/Recovery_Assessment.thy ===== *)
theory Recovery_Assessment
  imports Change_Set State_Delta
begin

text \<open>
  Two services that judge a recovery before and after it is carried out: the confidence model
  (\<open>app/domain/services/recovery_confidence_model.py\<close>, with its repository in
  \<open>sqlalchemy_causal_state_repositories.py\<close>) and the simulation engine
  (\<open>app/domain/services/recovery_simulation_engine.py\<close>).

  The share of actions with evidence is a binary floating-point quotient, as in \<open>Risk_Engine\<close>. An adapter of the engine is a record of the
  three methods the engine asks for with \<open>hasattr\<close>; they read and may raise. The JSON of a
  checkpoint is a parameter, as in \<open>State_Delta\<close>.

  Shown: what high confidence and a verdict of safe automatic recovery mean for every action. Both
  are weaker than they sound: one action with a state reference is enough for all of them, and a
  recovery that needs a human for each resource is safe for automation as a whole.
\<close>

section \<open>Confidence\<close>

datatype confidence_level = HIGH_CONFIDENCE | MEDIUM_CONFIDENCE | LOW_CONFIDENCE | INSUFFICIENT_EVIDENCE

record recovery_confidence =
  rc_confidence_id :: string
  rc_tenant_id :: string
  rc_plan_id :: string
  rc_level :: confidence_level
  rc_created_at :: datetime
  rc_before_state_available :: bool
  rc_after_state_available :: bool
  rc_current_state_available :: bool
  rc_adapter_support :: bool
  rc_version_match :: bool
  rc_drift_detected :: bool
  rc_conflict_detected :: bool
  rc_dependency_completeness :: bool
  rc_verification_capability :: bool
  rc_evidence_completeness :: int
  rc_factors :: "string list"
  rc_recommendations :: "string list"

type_synonym confidence_table = "recovery_confidence list"

definition get_by_confidence_id ::
  "string \<Rightarrow> string \<Rightarrow> confidence_table \<Rightarrow> py_error + recovery_confidence option" where
  "get_by_confidence_id tenant_id confidence_id rows =
     scalar_one_or_none
       (sql_select (\<lambda>c. rc_confidence_id c = confidence_id \<and> rc_tenant_id c = tenant_id) rows)"

definition get_confidence_by_plan ::
  "string \<Rightarrow> string \<Rightarrow> confidence_table \<Rightarrow> py_error + recovery_confidence option" where
  "get_confidence_by_plan tenant_id plan_id rows =
     scalar_one_or_none (sql_select (\<lambda>c. rc_plan_id c = plan_id \<and> rc_tenant_id c = tenant_id) rows)"

definition save_confidence ::
  "recovery_confidence \<Rightarrow> confidence_table \<Rightarrow> (py_error + recovery_confidence) \<times> confidence_table" where
  "save_confidence c rows =
     (case sql_insert rc_confidence_id c rows of
        None \<Rightarrow> (Inl IntegrityError, rows)
      | Some rows' \<Rightarrow> (Inr c, rows'))"

text \<open>The counters of the loop over the actions.\<close>

record evidence_counts =
  ec_evidence :: nat
  ec_before :: nat
  ec_after :: nat
  ec_adapter :: nat
  ec_version :: nat
  ec_irreversible :: nat
  ec_unknown :: nat
  ec_complete :: bool

definition no_counts :: evidence_counts where
  "no_counts = \<lparr>ec_evidence = 0, ec_before = 0, ec_after = 0, ec_adapter = 0, ec_version = 0,
     ec_irreversible = 0, ec_unknown = 0, ec_complete = True\<rparr>"

definition count_evidence :: "recovery_evidence option \<Rightarrow> evidence_counts \<Rightarrow> evidence_counts" where
  "count_evidence evidence k =
     (case evidence of
        None \<Rightarrow> k\<lparr>ec_complete := False\<rparr>
      | Some e \<Rightarrow>
          let plus = (\<lambda>b n. if b then n + 1 else n);
              rev = normalize_rev (re_reversibility_classification e)
          in k\<lparr>ec_evidence := ec_evidence k + 1,
               ec_before := plus (truthy (re_before_state_reference e)) (ec_before k),
               ec_after := plus (truthy (re_after_state_reference e)) (ec_after k),
               ec_adapter := plus (re_recovery_adapter_type e \<noteq> AT_UNSUPPORTED) (ec_adapter k),
               ec_version := plus (truthy (re_state_version e) \<and> truthy (re_resource_version e) \<and>
                                   re_state_version e = re_resource_version e) (ec_version k),
               ec_irreversible := plus (rev = IRREVERSIBLE) (ec_irreversible k),
               ec_unknown := plus (rev = REV_UNKNOWN) (ec_unknown k)\<rparr>)"

definition evidence_counts_of ::
  "string \<Rightarrow> protected_action list \<Rightarrow> evidence_table \<Rightarrow> evidence_counts" where
  "evidence_counts_of tenant_id actions rows =
     fold (\<lambda>a. count_evidence (evidence_of_action tenant_id (pa_action_id a) rows)) actions no_counts"

definition determine_level :: "nat \<Rightarrow> evidence_counts \<Rightarrow> bool \<Rightarrow> bool \<Rightarrow> bool \<Rightarrow> confidence_level" where
  "determine_level total_actions k drift conflict verification_capable =
     (let share = double (int (ec_evidence k)) (int (max total_actions 1));
          before = (ec_before k > 0); after = (ec_after k > 0); adapter = (ec_adapter k > 0)
      in if total_actions = 0 then INSUFFICIENT_EVIDENCE
         else if ec_irreversible k > 0 \<or> ec_unknown k > 0
         then (if share < double 1 2 then INSUFFICIENT_EVIDENCE else LOW_CONFIDENCE)
         else if drift \<or> conflict then LOW_CONFIDENCE
         else if share \<ge> double 95 100 \<and> before \<and> after
         then (if adapter \<and> ec_version k > 0 \<and> ec_complete k \<and> verification_capable
               then HIGH_CONFIDENCE else MEDIUM_CONFIDENCE)
         else if share \<ge> double 7 10 \<and> before
         then (if adapter then MEDIUM_CONFIDENCE else LOW_CONFIDENCE)
         else if share \<ge> double 1 2 then LOW_CONFIDENCE
         else INSUFFICIENT_EVIDENCE)"

text \<open>A factor with its recommendation, in the order of the source.\<close>

definition confidence_factors :: "nat \<Rightarrow> evidence_counts \<Rightarrow> (string list \<times> string list) list" where
  "confidence_factors among k =
     (let share = (\<lambda>name n. name @ '':'' @ show_nat n @ ''/'' @ show_nat among)
      in [if ec_before k > 0 then ([share ''before_state_available'' (ec_before k)], [])
          else ([''before_state_unavailable''], [''Capture before-state references for all actions'']),
          if ec_after k > 0 then ([share ''after_state_available'' (ec_after k)], [])
          else ([''after_state_unavailable''], []),
          if ec_adapter k > 0 then ([share ''adapter_support'' (ec_adapter k)], [])
          else ([''no_adapter_support''], [''Register adapters for all target systems'']),
          if ec_version k > 0 then ([share ''version_match'' (ec_version k)], []) else ([], []),
          if ec_irreversible k > 0
          then ([''irreversible_actions:'' @ show_nat (ec_irreversible k)],
                [show_nat (ec_irreversible k) @ '' actions are irreversible and require manual recovery''])
          else ([], []),
          if ec_unknown k > 0
          then ([''unknown_reversibility:'' @ show_nat (ec_unknown k)],
                [show_nat (ec_unknown k) @ '' actions have unknown reversibility - fail closed''])
          else ([], []),
          if ec_complete k then ([''dependency_chain_complete''], [])
          else ([''dependency_chain_incomplete''], [''Complete dependency evidence for all actions'']),
          ([''verification_capable''], [])])"

text \<open>
  \<open>round(evidence_count / total_actions, 4)\<close>, in ten-thousandths. Here the quotient is rounded to 53
  bits in units of \<open>2^-80\<close>, which is exact for fewer than \<open>2^27\<close> actions.
\<close>

definition completeness :: "nat \<Rightarrow> nat \<Rightarrow> int" where
  "completeness n among = round_div (round53 (int n * 2 ^ 80) (int among) * 10000) (2 ^ 80)"

text \<open>
  Drift and conflicts are never set to true, and the capability to verify never to false.
\<close>

definition assess_confidence ::
  "datetime \<Rightarrow> string \<Rightarrow> string \<Rightarrow> string \<Rightarrow> protected_action list \<Rightarrow> evidence_table \<Rightarrow> confidence_table
     \<Rightarrow> (py_error + recovery_confidence) \<times> confidence_table" where
  "assess_confidence now confidence_id tenant_id plan_id actions evidence rows =
     (let k = evidence_counts_of tenant_id actions evidence;
          texts = confidence_factors (if actions = [] then 1 else length actions) k;
          level = determine_level (length actions) k False False True;
          found = concat (map snd texts);
          recommendations =
            (if found \<noteq> [] then found
             else if level = HIGH_CONFIDENCE then [''All evidence factors support safe recovery'']
             else if level = MEDIUM_CONFIDENCE then [''Review flagged factors before proceeding'']
             else [])
      in save_confidence
           \<lparr>rc_confidence_id = confidence_id, rc_tenant_id = tenant_id, rc_plan_id = plan_id,
            rc_level = level, rc_created_at = now,
            rc_before_state_available = (ec_before k > 0), rc_after_state_available = (ec_after k > 0),
            rc_current_state_available = (ec_before k > 0), rc_adapter_support = (ec_adapter k > 0),
            rc_version_match = (ec_version k > 0), rc_drift_detected = False,
            rc_conflict_detected = False, rc_dependency_completeness = ec_complete k,
            rc_verification_capability = True,
            rc_evidence_completeness = completeness (ec_evidence k) (max (length actions) 1),
            rc_factors = concat (map fst texts),
            rc_recommendations = recommendations\<rparr> rows)"

section \<open>Simulation\<close>

text \<open>The methods of an adapter, \<open>None\<close> where it has none; \<open>Inl\<close> is an exception.\<close>

record sim_adapter =
  sa_adapter_name :: string
  sa_detect_drift ::
    "(protected_action \<Rightarrow> recovery_evidence \<Rightarrow> pydict option \<Rightarrow> py_error + drift_result) option"
  sa_check_conflicts ::
    "(protected_action \<Rightarrow> recovery_evidence \<Rightarrow> pydict option \<Rightarrow> py_error + conflict_result) option"
  sa_simulate :: "(protected_action \<Rightarrow> recovery_evidence \<Rightarrow> py_error + rollback_impact) option"

record adapter_run =
  ar_drift :: drift_status
  ar_conflict :: conflict_status
  ar_impact :: "(string \<times> rollback_impact) option"
  ar_warnings :: "string list"

text \<open>\<open>except (AttributeError, TypeError): continue\<close>; any other exception is a warning.\<close>

definition adapter_warning :: "py_error \<Rightarrow> string list" where
  "adapter_warning e =
     (case e of
        AttributeError _ \<Rightarrow> []
      | TypeError _ \<Rightarrow> []
      | _ \<Rightarrow> [''Adapter simulation error: '' @ exc_str e])"

text \<open>
  One adapter of the loop. The status that was read before an exception stays; the flag is the
  \<open>break\<close> after a simulation.
\<close>

definition ask_adapter ::
  "protected_action \<Rightarrow> recovery_evidence \<Rightarrow> pydict option \<Rightarrow> sim_adapter \<Rightarrow> adapter_run
     \<Rightarrow> bool \<times> adapter_run" where
  "ask_adapter action evidence current ad st =
     (let fail = (\<lambda>e st. (False, st\<lparr>ar_warnings := ar_warnings st @ adapter_warning e\<rparr>));
          simulate_it = (\<lambda>st. case sa_simulate ad of
                 None \<Rightarrow> (False, st)
               | Some f \<Rightarrow>
                   (case f action evidence of
                      Inl e \<Rightarrow> fail e st
                    | Inr impact \<Rightarrow> (True, st\<lparr>ar_impact := Some (sa_adapter_name ad, impact)\<rparr>)));
          conflicts = (\<lambda>st. case sa_check_conflicts ad of
                 None \<Rightarrow> simulate_it st
               | Some f \<Rightarrow>
                   (case f action evidence current of
                      Inl e \<Rightarrow> fail e st
                    | Inr r \<Rightarrow> simulate_it (st\<lparr>ar_conflict := cf_status r\<rparr>)))
      in case sa_detect_drift ad of
           None \<Rightarrow> conflicts st
         | Some f \<Rightarrow>
             (case f action evidence current of
                Inl e \<Rightarrow> fail e st
              | Inr r \<Rightarrow> conflicts (st\<lparr>ar_drift := dt_status r\<rparr>)))"

fun ask_adapters ::
  "protected_action \<Rightarrow> recovery_evidence \<Rightarrow> pydict option \<Rightarrow> sim_adapter list \<Rightarrow> adapter_run
     \<Rightarrow> adapter_run" where
  "ask_adapters action evidence current [] st = st"
| "ask_adapters action evidence current (ad # ads) st =
     (case ask_adapter action evidence current ad st of
        (True, st') \<Rightarrow> st'
      | (False, st') \<Rightarrow> ask_adapters action evidence current ads st')"

definition compute_simple_delta :: "pydict \<Rightarrow> pydict \<Rightarrow> (string \<times> pyval \<times> pyval) list" where
  "compute_simple_delta before current =
     (let val = (\<lambda>d key. case map_of d key of None \<Rightarrow> PNone | Some v \<Rightarrow> v)
      in [(key, val before key, val current key). key \<leftarrow> all_keys before current,
            \<not> py_eq (val before key) (val current key)])"

record resource_simulation =
  rs_action_id :: string
  rs_resource :: string
  rs_action_type :: string
  rs_target_system :: string
  rs_reversibility :: reversibility
  rs_status :: string
  rs_proposed_recovery :: string
  rs_approval_requirement :: string
  rs_expected_recovered_state :: "pydict option"
  rs_ai_caused_delta :: "(string \<times> pyval \<times> pyval) list option"
  rs_evidence :: "(string \<times> adapter_capability \<times> string option \<times> string option) option"
  rs_checkpoint :: "(string \<times> strategy_arg \<times> pydict) option"
  rs_current_state :: "pydict option"
  rs_run :: "adapter_run option"
  rs_warnings :: "string list"

text \<open>The checks of \<open>_simulate_single_resource\<close> after the adapters were asked.\<close>

definition judge_resource ::
  "reversibility \<Rightarrow> state_checkpoint option \<Rightarrow> pydict option \<Rightarrow> adapter_run \<Rightarrow> resource_simulation
     \<Rightarrow> resource_simulation" where
  "judge_resource reversibility checkpoint current r sim =
     (let sim = sim\<lparr>rs_run := Some r, rs_warnings := ar_warnings r\<rparr>
      in if ar_drift r \<notin> {NO_DRIFT, DR_INSUFFICIENT_EVIDENCE}
         then sim\<lparr>rs_status := ''blocked_by_drift'', rs_approval_requirement := ''drift_blocks_recovery'',
                  rs_warnings := ar_warnings r @ [''Drift detected: '' @ drift_value (ar_drift r)]\<rparr>
         else if ar_conflict r \<notin> {NO_CONFLICT, CF_INSUFFICIENT_EVIDENCE}
         then sim\<lparr>rs_status := ''blocked_by_conflict'', rs_approval_requirement := ''conflict_blocks_recovery'',
                  rs_warnings := ar_warnings r @ [''Conflict detected: '' @ conflict_value (ar_conflict r)]\<rparr>
         else if reversibility \<in> {AUTOMATICALLY_REVERSIBLE, CONDITIONALLY_REVERSIBLE}
         then sim\<lparr>rs_status := ''recoverable'', rs_proposed_recovery := ''restore_before_state'',
                  rs_expected_recovered_state := map_option ck_recoverable_fields checkpoint,
                  rs_ai_caused_delta :=
                    (case (current, checkpoint) of
                       (Some cur, Some ck) \<Rightarrow>
                         if cur = [] then None else Some (compute_simple_delta (ck_recoverable_fields ck) cur)
                     | _ \<Rightarrow> None),
                  rs_approval_requirement :=
                    (if reversibility = CONDITIONALLY_REVERSIBLE then ''human_approval_required''
                     else ''safe_for_automatic'')\<rparr>
         else sim\<lparr>rs_status := ''unknown'', rs_approval_requirement := ''insufficient_evidence''\<rparr>)"

definition simulate_single_resource ::
  "sim_adapter list \<Rightarrow> protected_action \<Rightarrow> recovery_evidence option \<Rightarrow> state_checkpoint option
     \<Rightarrow> pydict option \<Rightarrow> resource_simulation" where
  "simulate_single_resource adapters action evidence checkpoint current =
     (let reversibility = normalize_rev (pa_reversibility action);
          sim = \<lparr>rs_action_id = pa_action_id action, rs_resource = pa_resource action,
                 rs_action_type = pa_action_type action,
                 rs_target_system = (case evidence of None \<Rightarrow> ''unknown'' | Some e \<Rightarrow> re_target_system e),
                 rs_reversibility = reversibility, rs_status = [], rs_proposed_recovery = ''none'',
                 rs_approval_requirement = [], rs_expected_recovered_state = None,
                 rs_ai_caused_delta = None, rs_evidence = None, rs_checkpoint = None,
                 rs_current_state = None, rs_run = None, rs_warnings = []\<rparr>
      in if reversibility = IRREVERSIBLE
         then sim\<lparr>rs_status := ''irreversible'', rs_approval_requirement := ''irreversible'',
                  rs_warnings := [''Action is irreversible - cannot be recovered'']\<rparr>
         else if reversibility = REV_UNKNOWN
         then sim\<lparr>rs_status := ''unknown_reversibility'', rs_approval_requirement := ''insufficient_evidence'',
                  rs_warnings := [''Reversibility is UNKNOWN - fail closed'']\<rparr>
         else
           (case evidence of
              None \<Rightarrow>
                sim\<lparr>rs_status := ''no_evidence'', rs_approval_requirement := ''insufficient_evidence'',
                    rs_warnings := [''No recovery evidence captured - cannot simulate'']\<rparr>
            | Some e \<Rightarrow>
                judge_resource reversibility checkpoint current
                  (ask_adapters action e current adapters
                     \<lparr>ar_drift = NO_DRIFT, ar_conflict = NO_CONFLICT, ar_impact = None, ar_warnings = []\<rparr>)
                  (sim\<lparr>rs_evidence := Some (re_evidence_id e, re_adapter_capability e,
                          re_before_state_reference e, re_after_state_reference e),
                        rs_checkpoint := map_option (\<lambda>ck. (ck_checkpoint_id ck,
                          ck_strategy ck, ck_recoverable_fields ck)) checkpoint,
                        rs_current_state := current\<rparr>)))"

record simulation_report =
  sr_total_resources :: nat
  sr_recoverable_resources :: nat
  sr_manual_count :: nat
  sr_unknown_resources :: nat
  sr_resource_simulations :: "(string, resource_simulation) dict"
  sr_overall_warnings :: "string list"
  sr_approval_requirement :: string

text \<open>Two checkpoints of one action raise \<open>MultipleResultsFound\<close>.\<close>

definition checkpoint_of_action ::
  "(string \<Rightarrow> pyval option) \<Rightarrow> string \<Rightarrow> string \<Rightarrow> checkpoint_row list \<Rightarrow> py_error + state_checkpoint option" where
  "checkpoint_of_action loads tenant_id action_id rows =
     (case scalar_one_or_none
             (sql_select (\<lambda>r. cr_action_id r = action_id \<and> cr_tenant_id r = tenant_id) rows) of
        Inl e \<Rightarrow> Inl e
      | Inr None \<Rightarrow> Inr None
      | Inr (Some m) \<Rightarrow> map_sum id Some (checkpoint_to_entity loads m))"

text \<open>\<open>current_states\<close> finds the state of a resource.\<close>

fun simulate_each ::
  "sim_adapter list \<Rightarrow> (string \<Rightarrow> pyval option) \<Rightarrow> string \<Rightarrow> (string \<Rightarrow> pydict option) \<Rightarrow> evidence_table
     \<Rightarrow> checkpoint_row list \<Rightarrow> protected_action list \<Rightarrow> py_error + resource_simulation list" where
  "simulate_each adapters loads tenant_id current_states evidence checkpoints [] = Inr []"
| "simulate_each adapters loads tenant_id current_states evidence checkpoints (a # actions) =
     (case checkpoint_of_action loads tenant_id (pa_action_id a) checkpoints of
        Inl e \<Rightarrow> Inl e
      | Inr checkpoint \<Rightarrow>
          (case simulate_each adapters loads tenant_id current_states evidence checkpoints actions of
             Inl e \<Rightarrow> Inl e
           | Inr sims \<Rightarrow>
               Inr (simulate_single_resource adapters a
                      (evidence_of_action tenant_id (pa_action_id a) evidence) checkpoint
                      (current_states (pa_resource a)) # sims)))"

definition simulation_report_of :: "resource_simulation list \<Rightarrow> simulation_report" where
  "simulation_report_of sims =
     (let count = (\<lambda>P. length (filter (\<lambda>s. P (rs_status s)) sims));
          recoverable = count (\<lambda>x. x = ''recoverable'');
          manual = count (\<lambda>x. x = ''manual_recovery_required'');
          unknown = count (\<lambda>x. x \<notin> {''recoverable'', ''manual_recovery_required''})
      in \<lparr>sr_total_resources = length sims, sr_recoverable_resources = recoverable,
          sr_manual_count = manual, sr_unknown_resources = unknown,
          sr_resource_simulations = fold (\<lambda>s d. AList.update (rs_action_id s) s d) sims [],
          sr_overall_warnings =
            concat (map (\<lambda>s. map (\<lambda>w. ''['' @ rs_action_id s @ ''] '' @ w) (rs_warnings s)) sims),
          sr_approval_requirement =
            (if manual > 0 then ''human_approval_required''
             else if unknown > 0 then ''insufficient_evidence''
             else if recoverable > 0 then ''safe_for_automatic''
             else ''nothing_to_recover'')\<rparr>)"

definition simulate_recovery ::
  "sim_adapter list \<Rightarrow> (string \<Rightarrow> pyval option) \<Rightarrow> string \<Rightarrow> (string \<Rightarrow> pydict option) \<Rightarrow> evidence_table
     \<Rightarrow> checkpoint_row list \<Rightarrow> protected_action list \<Rightarrow> py_error + simulation_report" where
  "simulate_recovery adapters loads tenant_id current_states evidence checkpoints actions =
     map_sum id simulation_report_of
       (simulate_each adapters loads tenant_id current_states evidence checkpoints actions)"

section \<open>What high confidence means\<close>

text \<open>\<open>some_evidence\<close>: an action among them has evidence with the property.\<close>

abbreviation some_evidence ::
  "string \<Rightarrow> protected_action list \<Rightarrow> evidence_table \<Rightarrow> (recovery_evidence \<Rightarrow> bool) \<Rightarrow> bool" where
  "some_evidence t actions rows P \<equiv>
     \<exists>a \<in> set actions. \<exists>e. evidence_of_action t (pa_action_id a) rows = Some e \<and> P e"

lemma counted:
  "ec_before (fold (\<lambda>a. count_evidence (evidence_of_action t (pa_action_id a) rows)) actions k) > 0 \<longleftrightarrow>
     ec_before k > 0 \<or> some_evidence t actions rows (\<lambda>e. truthy (re_before_state_reference e))"
  "ec_after (fold (\<lambda>a. count_evidence (evidence_of_action t (pa_action_id a) rows)) actions k) > 0 \<longleftrightarrow>
     ec_after k > 0 \<or> some_evidence t actions rows (\<lambda>e. truthy (re_after_state_reference e))"
  "ec_adapter (fold (\<lambda>a. count_evidence (evidence_of_action t (pa_action_id a) rows)) actions k) > 0 \<longleftrightarrow>
     ec_adapter k > 0 \<or> some_evidence t actions rows (\<lambda>e. re_recovery_adapter_type e \<noteq> AT_UNSUPPORTED)"
  "ec_irreversible (fold (\<lambda>a. count_evidence (evidence_of_action t (pa_action_id a) rows)) actions k) > 0 \<longleftrightarrow>
     ec_irreversible k > 0 \<or>
     some_evidence t actions rows (\<lambda>e. normalize_rev (re_reversibility_classification e) = IRREVERSIBLE)"
  "ec_unknown (fold (\<lambda>a. count_evidence (evidence_of_action t (pa_action_id a) rows)) actions k) > 0 \<longleftrightarrow>
     ec_unknown k > 0 \<or>
     some_evidence t actions rows (\<lambda>e. normalize_rev (re_reversibility_classification e) = REV_UNKNOWN)"
  "ec_complete (fold (\<lambda>a. count_evidence (evidence_of_action t (pa_action_id a) rows)) actions k) \<longleftrightarrow>
     ec_complete k \<and> (\<forall>a \<in> set actions. evidence_of_action t (pa_action_id a) rows \<noteq> None)"
  by (induction actions arbitrary: k) (auto simp: count_evidence_def Let_def split: option.splits)

lemma level_high:
  "determine_level n k d c v = HIGH_CONFIDENCE \<Longrightarrow>
     n \<noteq> 0 \<and> ec_irreversible k = 0 \<and> ec_unknown k = 0 \<and> ec_before k > 0 \<and> ec_after k > 0 \<and>
     ec_adapter k > 0 \<and> ec_version k > 0 \<and> ec_complete k \<and> \<not> d \<and> \<not> c \<and> v"
  by (auto simp: determine_level_def Let_def split: if_splits)

text \<open>
  High confidence is given only when there is something to recover, every action has evidence,
  none of it says that the action is irreversible or of unknown reversibility, and the evidence of
  some action refers to the state before, of some to the state after, and of some names an adapter.
\<close>

theorem high_confidence_means:
  assumes "assess_confidence now cid t plan actions evidence rows = (Inr c, rows')"
    and "rc_level c = HIGH_CONFIDENCE"
  shows "actions \<noteq> [] \<and>
    (\<forall>a \<in> set actions. \<exists>e. evidence_of_action t (pa_action_id a) evidence = Some e \<and>
       normalize_rev (re_reversibility_classification e) \<notin> {IRREVERSIBLE, REV_UNKNOWN}) \<and>
    some_evidence t actions evidence (\<lambda>e. truthy (re_before_state_reference e)) \<and>
    some_evidence t actions evidence (\<lambda>e. truthy (re_after_state_reference e)) \<and>
    some_evidence t actions evidence (\<lambda>e. re_recovery_adapter_type e \<noteq> AT_UNSUPPORTED)"
proof -
  let ?k = "fold (\<lambda>a. count_evidence (evidence_of_action t (pa_action_id a) evidence)) actions no_counts"
  have "rc_level c = determine_level (length actions) ?k False False True"
    using assms(1)
    by (auto simp: assess_confidence_def Let_def save_confidence_def evidence_counts_of_def
        split: option.splits)
  with level_high [of "length actions" ?k False False True] assms(2)
  have k: "actions \<noteq> []" "\<not> ec_irreversible ?k > 0" "\<not> ec_unknown ?k > 0" "ec_before ?k > 0"
    "ec_after ?k > 0" "ec_adapter ?k > 0" "ec_complete ?k"
    by auto
  have no: "\<not> ec_before no_counts > 0" "\<not> ec_after no_counts > 0" "\<not> ec_adapter no_counts > 0"
    by (simp_all add: no_counts_def)
  have "\<forall>a \<in> set actions. evidence_of_action t (pa_action_id a) evidence \<noteq> None"
    "\<not> some_evidence t actions evidence (\<lambda>e. normalize_rev (re_reversibility_classification e) = IRREVERSIBLE)"
    "\<not> some_evidence t actions evidence (\<lambda>e. normalize_rev (re_reversibility_classification e) = REV_UNKNOWN)"
    using k(2,3,7) unfolding counted by blast+
  then have "\<forall>a \<in> set actions. \<exists>e. evidence_of_action t (pa_action_id a) evidence = Some e \<and>
      normalize_rev (re_reversibility_classification e) \<notin> {IRREVERSIBLE, REV_UNKNOWN}"
    by fastforce
  moreover have "some_evidence t actions evidence (\<lambda>e. truthy (re_before_state_reference e))"
    "some_evidence t actions evidence (\<lambda>e. truthy (re_after_state_reference e))"
    "some_evidence t actions evidence (\<lambda>e. re_recovery_adapter_type e \<noteq> AT_UNSUPPORTED)"
    using k(4-6) no unfolding counted by blast+
  ultimately show ?thesis using k(1) by blast
qed

definition full_evidence :: "string \<Rightarrow> recovery_evidence" where
  "full_evidence i = (change_evidence i (Some ''v0''))
     \<lparr>re_after_state_reference := Some ''v1'', re_state_version := Some ''7'', re_resource_version := Some ''7''\<rparr>"

definition sample_confidence where
  "sample_confidence = assess_confidence 9 ''cf'' ''t'' ''plan'' sample_change_actions
     [full_evidence ''a'', change_evidence ''b'' None, change_evidence ''c'' None] []"

lemma sample_confidence_ok:
  "map_sum id rc_level (fst sample_confidence) = Inr HIGH_CONFIDENCE"
  by code_simp

theorem high_confidence_means_witness:
  "some_evidence ''t'' sample_change_actions
     [full_evidence ''a'', change_evidence ''b'' None, change_evidence ''c'' None]
     (\<lambda>e. truthy (re_after_state_reference e))"
proof -
  obtain c where c: "fst sample_confidence = Inr c" "rc_level c = HIGH_CONFIDENCE"
    using sample_confidence_ok by (cases "fst sample_confidence") auto
  then have "assess_confidence 9 ''cf'' ''t'' ''plan'' sample_change_actions
     [full_evidence ''a'', change_evidence ''b'' None, change_evidence ''c'' None] [] =
     (Inr c, snd sample_confidence)"
    by (simp add: sample_confidence_def prod_eq_iff)
  from high_confidence_means [OF this c(2)] show ?thesis by blast
qed

text \<open>
  The counters do not say of which action: with the references of the first of three actions the
  recovery of all three has high confidence, although two have no state to go back to.
\<close>

theorem one_reference_is_enough_for_all:
  "map_sum id rc_level (fst sample_confidence) = Inr HIGH_CONFIDENCE \<and>
   map (\<lambda>i. map_option re_before_state_reference (evidence_of_action ''t'' i
     [full_evidence ''a'', change_evidence ''b'' None, change_evidence ''c'' None])) [''a'', ''b'', ''c''] =
     [Some (Some ''v0''), Some None, Some None]"
  by code_simp

section \<open>What a simulation means\<close>

lemma judged_recoverable:
  "rs_status (judge_resource v ck cur r sim) = ''recoverable'' \<Longrightarrow>
     v \<in> {AUTOMATICALLY_REVERSIBLE, CONDITIONALLY_REVERSIBLE} \<and>
     ar_drift r \<in> {NO_DRIFT, DR_INSUFFICIENT_EVIDENCE} \<and> ar_conflict r \<in> {NO_CONFLICT, CF_INSUFFICIENT_EVIDENCE}"
  by (auto simp: judge_resource_def Let_def split: if_splits)

lemma simulated_recoverable:
  assumes "rs_status (simulate_single_resource ads a ev ck cur) = ''recoverable''"
  shows "normalize_rev (pa_reversibility a) \<in> {AUTOMATICALLY_REVERSIBLE, CONDITIONALLY_REVERSIBLE} \<and> ev \<noteq> None"
  using assms judged_recoverable [of "normalize_rev (pa_reversibility a)"]
  by (cases ev) (auto simp: simulate_single_resource_def Let_def split: if_splits)

lemma no_manual_status:
  "rs_status (simulate_single_resource ads a ev ck cur) \<noteq> ''manual_recovery_required''"
  by (auto simp: simulate_single_resource_def judge_resource_def Let_def split: option.splits)

lemma simulated_each:
  "simulate_each ads loads t cur evidence cks actions = Inr sims \<Longrightarrow>
     list_all2 (\<lambda>a s. \<exists>ck. s = simulate_single_resource ads a
       (evidence_of_action t (pa_action_id a) evidence) ck (cur (pa_resource a))) actions sims"
  by (induction actions arbitrary: sims) (auto split: sum.splits)

text \<open>
  A simulation says safe for automatic recovery only if there is an action, and every action is
  automatically or conditionally reversible and has evidence; and it never asks for manual recovery
  as a whole.
\<close>

theorem safe_simulation_means:
  assumes "simulate_recovery ads loads t cur evidence cks actions = Inr report"
  shows "sr_approval_requirement report \<noteq> ''human_approval_required''"
    and "sr_approval_requirement report = ''safe_for_automatic'' \<Longrightarrow> actions \<noteq> [] \<and>
      list_all (\<lambda>a. normalize_rev (pa_reversibility a) \<in> {AUTOMATICALLY_REVERSIBLE, CONDITIONALLY_REVERSIBLE} \<and>
        evidence_of_action t (pa_action_id a) evidence \<noteq> None) actions"
proof -
  obtain sims where sims: "simulate_each ads loads t cur evidence cks actions = Inr sims"
    and report: "report = simulation_report_of sims"
    using assms by (cases "simulate_each ads loads t cur evidence cks actions")
      (auto simp: simulate_recovery_def)
  note each = simulated_each [OF sims]
  have "rs_status s \<noteq> ''manual_recovery_required''" if s: "s \<in> set sims" for s
  proof -
    obtain n where n: "n < length sims" "s = sims ! n" using s by (auto simp: in_set_conv_nth)
    obtain ck where "s = simulate_single_resource ads (actions ! n)
        (evidence_of_action t (pa_action_id (actions ! n)) evidence) ck (cur (pa_resource (actions ! n)))"
      using list_all2_nthD2 [OF each n(1)] n(2) by blast
    then show ?thesis using no_manual_status by simp
  qed
  then have manual: "filter (\<lambda>s. rs_status s = ''manual_recovery_required'') sims = []"
    unfolding filter_empty_conv by blast
  then show "sr_approval_requirement report \<noteq> ''human_approval_required''"
    by (simp add: report simulation_report_of_def Let_def)
  show "actions \<noteq> [] \<and>
      list_all (\<lambda>a. normalize_rev (pa_reversibility a) \<in> {AUTOMATICALLY_REVERSIBLE, CONDITIONALLY_REVERSIBLE} \<and>
        evidence_of_action t (pa_action_id a) evidence \<noteq> None) actions"
    if safe: "sr_approval_requirement report = ''safe_for_automatic''"
  proof -
    have nonempty: "sims \<noteq> []"
      and "filter (\<lambda>s. rs_status s \<notin> {''recoverable'', ''manual_recovery_required''}) sims = []"
      using safe by (auto simp: report simulation_report_of_def Let_def split: if_splits)
    with manual have all: "\<forall>s \<in> set sims. rs_status s = ''recoverable''"
      unfolding filter_empty_conv by blast
    have "normalize_rev (pa_reversibility a) \<in> {AUTOMATICALLY_REVERSIBLE, CONDITIONALLY_REVERSIBLE} \<and>
        evidence_of_action t (pa_action_id a) evidence \<noteq> None" if a: "a \<in> set actions" for a
    proof -
      obtain s ck where "s \<in> set sims" "s = simulate_single_resource ads a
          (evidence_of_action t (pa_action_id a) evidence) ck (cur (pa_resource a))"
        using each a by (fastforce simp: list_all2_conv_all_nth in_set_conv_nth)
      with all have "rs_status (simulate_single_resource ads a
          (evidence_of_action t (pa_action_id a) evidence) ck (cur (pa_resource a))) = ''recoverable''"
        by blast
      from simulated_recoverable [OF this] show ?thesis .
    qed
    moreover have "actions \<noteq> []" using nonempty each by auto
    ultimately show ?thesis by (auto simp: list_all_iff)
  qed
qed

definition sample_sim_adapter :: "bool \<Rightarrow> sim_adapter" where
  "sample_sim_adapter ok =
     \<lparr>sa_adapter_name = ''ad'', sa_detect_drift = None, sa_check_conflicts = None,
      sa_simulate = Some (\<lambda>a e. Inr \<lparr>ri_action_id = pa_action_id a, ri_reversibility = REVERSIBLE,
        ri_would_succeed = ok, ri_drift_status = NO_DRIFT, ri_conflict_status = NO_CONFLICT,
        ri_compensation_operation = [], ri_compensation_payload = [], ri_external_api_calls = [],
        ri_warnings = [], ri_simulation_limitation = None, ri_expected_after_state = None\<rparr>)\<rparr>"

definition sample_simulation :: "reversibility \<Rightarrow> bool \<Rightarrow> py_error + simulation_report" where
  "sample_simulation v ok = simulate_recovery [sample_sim_adapter ok] (\<lambda>_. None) ''t'' (\<lambda>_. None)
     [change_evidence ''a'' (Some ''v0'')] [] [sample_action ''a'' None v]"

lemma sample_simulation_ok:
  "map_sum id sr_approval_requirement (sample_simulation REVERSIBLE True) = Inr ''safe_for_automatic''"
  by code_simp

theorem safe_simulation_means_witness:
  "evidence_of_action ''t'' ''a'' [change_evidence ''a'' (Some ''v0'')] \<noteq> None"
proof -
  obtain r where r: "sample_simulation REVERSIBLE True = Inr r"
    "sr_approval_requirement r = ''safe_for_automatic''"
    using sample_simulation_ok by (cases "sample_simulation REVERSIBLE True") auto
  from safe_simulation_means(2) [OF r(1) [unfolded sample_simulation_def] r(2)]
  show ?thesis by (simp add: sample_action_def)
qed

text \<open>
  The verdict is not the strictest of the resources: an action that needs human approval is safe for
  automatic recovery as a whole, and so is one whose adapter says that it would not succeed.
\<close>

theorem approval_is_lost_in_the_whole:
  "(case sample_simulation CONDITIONALLY_REVERSIBLE True of
      Inl _ \<Rightarrow> False
    | Inr r \<Rightarrow> map (\<lambda>(i, s). rs_approval_requirement s) (sr_resource_simulations r) = [''human_approval_required''] \<and>
        sr_approval_requirement r = ''safe_for_automatic'')"
  by code_simp

theorem failing_adapter_is_recoverable:
  "(case sample_simulation REVERSIBLE False of
      Inl _ \<Rightarrow> False
    | Inr r \<Rightarrow>
        map (\<lambda>(i, s). (rs_status s, map_option (\<lambda>u. map_option (ri_would_succeed \<circ> snd) (ar_impact u)) (rs_run s)))
          (sr_resource_simulations r) = [(''recoverable'', Some (Some False))] \<and>
        sr_approval_requirement r = ''safe_for_automatic'')"
  by code_simp

end
