(* ===== verification/Recovery_Credits.thy ===== *)
theory Recovery_Credits
  imports Effects
begin

text \<open>
  \<open>RecoveryCreditService\<close> (\<open>app/domain/services/recovery_credit_service.py\<close>) over
  \<open>SQLAlchemyCreditRepository\<close> (\<open>sqlalchemy_credit_repositories.py\<close>), the entities of
  \<open>billing_entities.py\<close> and the enforcement around an execution
  (\<open>routes/_recovery_billing.py\<close>): prepaid recovery credits, the holds placed before an execution
  and the append-only ledger.

  The state is a database session: the tables as the session sees them and as they were last
  committed. A violated constraint rolls the session back. One clock reading serves a whole call.
  Identifiers drawn by \<open>uuid4\<close> are arguments; those of ledger entries, which nothing looks up, are left
  out.
\<close>

section \<open>Data\<close>

datatype ledger_kind =
  LK_ALLOCATION | LK_RESERVATION | LK_RELEASE | LK_CONSUMPTION | LK_EXPIRY | LK_REFUND | LK_ADJUSTMENT

datatype hold_status = HS_ACTIVE | HS_CONSUMED | HS_RELEASED | HS_EXPIRED

record credit_wallet =
  cw_id :: string
  cw_tenant_id :: string
  cw_allocated :: int
  cw_consumed :: int
  cw_reserved :: int
  cw_period_start :: datetime
  cw_period_end :: datetime
  cw_is_enforced :: bool
  cw_plan_tier :: string
  cw_plan_name :: string
  cw_subscription_id :: "string option"
  cw_provider_subscription_id :: "string option"
  cw_created_at :: datetime
  cw_updated_at :: datetime

definition available :: "credit_wallet \<Rightarrow> int" where
  "available w = cw_allocated w - cw_consumed w - cw_reserved w"

record credit_entry =
  le_tenant_id :: string
  le_kind :: ledger_kind
  le_delta :: int
  le_balance_after :: int
  le_reason :: string
  le_idempotency_key :: string
  le_recovery_plan_id :: "string option"
  le_subscription_id :: "string option"
  le_created_at :: datetime

record credit_reservation =
  hd_id :: string
  hd_tenant_id :: string
  hd_recovery_plan_id :: string
  hd_status :: hold_status
  hd_expires_at :: datetime
  hd_settled_at :: "datetime option"
  hd_created_at :: datetime

record credit_hold =
  hl_tenant_id :: string
  hl_recovery_plan_id :: string
  hl_reservation_id :: string
  hl_already_billed :: bool

section \<open>The repository\<close>

record credit_db =
  cb_wallets :: "credit_wallet list"
  cb_ledger :: "credit_entry list"
  cb_holds :: "credit_reservation list"

record credit_session =
  tx_db :: credit_db
  tx_committed :: credit_db

type_synonym 'a credit = "(credit_session, 'a) eff"

definition get_wallet :: "string \<Rightarrow> credit_db \<Rightarrow> credit_wallet option" where
  "get_wallet tenant_id db = sql_first (sql_select (\<lambda>w. cw_tenant_id w = tenant_id) (cb_wallets db))"

definition credit_rollback :: "unit credit" where
  "credit_rollback s = (Inr (), s\<lparr>tx_db := tx_committed s\<rparr>)"

definition credit_commit :: "unit credit" where
  "credit_commit s = (Inr (), s\<lparr>tx_committed := tx_db s\<rparr>)"

text \<open>\<open>tenant_id\<close> is a unique column; the creation time of a stored row stays.\<close>

definition save_wallet :: "credit_wallet \<Rightarrow> unit credit" where
  "save_wallet w s =
     (let rows = cb_wallets (tx_db s);
          rows' = (if cw_id w \<in> cw_id ` set rows
                   then sql_update (\<lambda>r. cw_id r = cw_id w) (\<lambda>r. w\<lparr>cw_created_at := cw_created_at r\<rparr>) rows
                   else rows @ [w])
      in if \<exists>r \<in> set rows. cw_tenant_id r = cw_tenant_id w \<and> cw_id r \<noteq> cw_id w
         then (Inl IntegrityError, s\<lparr>tx_db := tx_committed s\<rparr>)
         else (Inr (), s\<lparr>tx_db := tx_db s\<lparr>cb_wallets := rows'\<rparr>\<rparr>))"

definition get_ledger_entry_by_key :: "string \<Rightarrow> credit_db \<Rightarrow> credit_entry option" where
  "get_ledger_entry_by_key key db = sql_first (sql_select (\<lambda>e. le_idempotency_key e = key) (cb_ledger db))"

definition add_ledger_entry :: "credit_entry \<Rightarrow> unit credit" where
  "add_ledger_entry e s =
     (case sql_insert le_idempotency_key e (cb_ledger (tx_db s)) of
        None \<Rightarrow> (Inl (DuplicateCreditOperationError (le_idempotency_key e)), s\<lparr>tx_db := tx_committed s\<rparr>)
      | Some rows \<Rightarrow> (Inr (), s\<lparr>tx_db := tx_db s\<lparr>cb_ledger := rows\<rparr>\<rparr>))"

definition list_ledger :: "string \<Rightarrow> nat \<Rightarrow> nat \<Rightarrow> credit_db \<Rightarrow> credit_entry list" where
  "list_ledger tenant_id limit offset db =
     take limit (drop offset (sort_key (\<lambda>e. - le_created_at e)
       (sql_select (\<lambda>e. le_tenant_id e = tenant_id) (cb_ledger db))))"

definition get_active_reservation :: "string \<Rightarrow> string \<Rightarrow> credit_db \<Rightarrow> credit_reservation option" where
  "get_active_reservation tenant_id plan_id db =
     sql_first (sql_select (\<lambda>h. hd_tenant_id h = tenant_id \<and> hd_recovery_plan_id h = plan_id \<and>
       hd_status h = HS_ACTIVE) (cb_holds db))"

definition save_reservation :: "credit_reservation \<Rightarrow> unit credit" where
  "save_reservation h s =
     (let rows = cb_holds (tx_db s);
          rows' = (if hd_id h \<in> hd_id ` set rows
                   then sql_update (\<lambda>r. hd_id r = hd_id h) (\<lambda>r. h\<lparr>hd_created_at := hd_created_at r\<rparr>) rows
                   else rows @ [h])
      in (Inr (), s\<lparr>tx_db := tx_db s\<lparr>cb_holds := rows'\<rparr>\<rparr>))"

definition get_reservation :: "string \<Rightarrow> credit_db \<Rightarrow> credit_reservation option" where
  "get_reservation reservation_id db =
     sql_first (sql_select (\<lambda>h. hd_id h = reservation_id) (cb_holds db))"

definition list_expired_active_reservations :: "datetime \<Rightarrow> credit_db \<Rightarrow> credit_reservation list" where
  "list_expired_active_reservations now db =
     sql_select (\<lambda>h. hd_status h = HS_ACTIVE \<and> hd_expires_at h < now) (cb_holds db)"

definition was_plan_consumed :: "string \<Rightarrow> string \<Rightarrow> credit_db \<Rightarrow> bool" where
  "was_plan_consumed tenant_id plan_id db \<longleftrightarrow>
     sql_select (\<lambda>e. le_tenant_id e = tenant_id \<and> le_kind e = LK_CONSUMPTION \<and>
       le_recovery_plan_id e = Some plan_id) (cb_ledger db) \<noteq> []"

section \<open>Settling\<close>

definition ledger_entry ::
  "datetime \<Rightarrow> credit_wallet \<Rightarrow> ledger_kind \<Rightarrow> int \<Rightarrow> string \<Rightarrow> string \<Rightarrow> string option \<Rightarrow> string option
     \<Rightarrow> credit_entry" where
  "ledger_entry now w kind delta reason key subscription plan =
     \<lparr>le_tenant_id = cw_tenant_id w, le_kind = kind, le_delta = delta, le_balance_after = available w,
      le_reason = take 255 reason, le_idempotency_key = key, le_recovery_plan_id = plan,
      le_subscription_id = subscription, le_created_at = now\<rparr>"

definition consume_key :: "string \<Rightarrow> string \<Rightarrow> string" where
  "consume_key tenant_id plan_id = ''consume:'' @ tenant_id @ '':'' @ plan_id"

definition release_key :: "string \<Rightarrow> string" where
  "release_key reservation_id = ''release:'' @ reservation_id"

definition reserve_key :: "string \<Rightarrow> string" where
  "reserve_key reservation_id = ''reserve:'' @ reservation_id"

lemma key_simps [simp]:
  "release_key i = release_key j \<longleftrightarrow> i = j"
  "reserve_key i = reserve_key j \<longleftrightarrow> i = j"
  "release_key i \<noteq> reserve_key j" "reserve_key j \<noteq> release_key i"
  "consume_key t p \<noteq> release_key i" "release_key i \<noteq> consume_key t p"
  "consume_key t p \<noteq> reserve_key i" "reserve_key i \<noteq> consume_key t p"
  by (simp_all add: release_key_def reserve_key_def consume_key_def)

definition settle_consumption ::
  "datetime \<Rightarrow> credit_wallet \<Rightarrow> credit_reservation
     \<Rightarrow> credit_wallet \<times> credit_reservation \<times> credit_entry" where
  "settle_consumption now w h =
     (let w' = w\<lparr>cw_consumed := cw_consumed w + 1, cw_reserved := max (cw_reserved w - 1) 0,
                cw_updated_at := now\<rparr>
      in (w', h\<lparr>hd_status := HS_CONSUMED, hd_settled_at := Some now\<rparr>,
          ledger_entry now w' LK_CONSUMPTION 0
            (''recovery plan '' @ hd_recovery_plan_id h @ '' completed and verified'')
            (consume_key (cw_tenant_id w) (hd_recovery_plan_id h)) None (Some (hd_recovery_plan_id h))))"

definition settle_release ::
  "datetime \<Rightarrow> string \<Rightarrow> credit_wallet \<Rightarrow> credit_reservation
     \<Rightarrow> credit_wallet \<times> credit_reservation \<times> credit_entry" where
  "settle_release now reason w h =
     (let w' = w\<lparr>cw_reserved := max (cw_reserved w - 1) 0, cw_updated_at := now\<rparr>
      in (w', h\<lparr>hd_status := HS_RELEASED, hd_settled_at := Some now\<rparr>,
          ledger_entry now w' LK_RELEASE 1 reason (release_key (hd_id h)) None
            (Some (hd_recovery_plan_id h))))"

definition hold_released :: "credit_reservation \<Rightarrow> string" where
  "hold_released h = ''hold released for recovery plan '' @ hd_recovery_plan_id h"

text \<open>\<open>save_wallet\<close>, \<open>save_reservation\<close> and \<open>add_ledger_entry\<close>, as every settlement calls them.\<close>

definition store_settlement :: "credit_wallet \<times> credit_reservation \<times> credit_entry \<Rightarrow> unit credit" where
  "store_settlement settlement =
     (case settlement of (w, h, e) \<Rightarrow>
        ebind (save_wallet w) (\<lambda>_. ebind (save_reservation h) (\<lambda>_. add_ledger_entry e)))"

text \<open>The loop of \<open>_sweep_expired_reservations\<close>.\<close>

fun sweep_each :: "datetime \<Rightarrow> string \<Rightarrow> credit_reservation list \<Rightarrow> unit credit" where
  "sweep_each now tenant_id [] s = (Inr (), s)"
| "sweep_each now tenant_id (h # hs) s =
     (if hd_tenant_id h \<noteq> tenant_id then sweep_each now tenant_id hs s
      else
        (case get_wallet (hd_tenant_id h) (tx_db s) of
           None \<Rightarrow> sweep_each now tenant_id hs s
         | Some w \<Rightarrow>
             (case settle_release now (''hold expired for recovery plan '' @ hd_recovery_plan_id h) w h of
                (w', h', e) \<Rightarrow>
                  if get_ledger_entry_by_key (le_idempotency_key e) (tx_db s) = None
                  then ebind (store_settlement (w', h'\<lparr>hd_status := HS_EXPIRED\<rparr>, e))
                         (\<lambda>_. sweep_each now tenant_id hs) s
                  else sweep_each now tenant_id hs s)))"

definition sweep_expired_reservations :: "datetime \<Rightarrow> string \<Rightarrow> bool \<Rightarrow> unit credit" where
  "sweep_expired_reservations now tenant_id commit s =
     ebind (sweep_each now tenant_id (list_expired_active_reservations now (tx_db s)))
       (\<lambda>_. if commit then credit_commit else eret ()) s"

text \<open>The wallet at a period boundary, and the entry for what is lost.\<close>

definition expire_remaining_locked ::
  "(datetime \<Rightarrow> string) \<Rightarrow> datetime \<Rightarrow> string \<Rightarrow> credit_wallet \<Rightarrow> credit_wallet \<times> credit_entry option" where
  "expire_remaining_locked show_time now reason w =
     (let w' = w\<lparr>cw_allocated := 0, cw_consumed := 0, cw_updated_at := now\<rparr>
      in if available w \<le> 0 \<and> cw_consumed w = 0 \<and> cw_allocated w = 0 then (w, None)
         else if available w \<le> 0 then (w', None)
         else (w', Some (ledger_entry now w' LK_EXPIRY (- available w) reason
                 (''expire:'' @ cw_tenant_id w @ '':'' @ show_time (cw_period_end w))
                 (cw_subscription_id w) None)))"

section \<open>The service\<close>

definition add_if_new :: "credit_entry option \<Rightarrow> unit credit" where
  "add_if_new entry s =
     (case entry of
        None \<Rightarrow> (Inr (), s)
      | Some e \<Rightarrow>
          if get_ledger_entry_by_key (le_idempotency_key e) (tx_db s) = None then add_ledger_entry e s
          else (Inr (), s))"

definition either :: "string \<Rightarrow> string \<Rightarrow> string" where
  "either new old = (if new = [] then old else new)"

definition either_id :: "string option \<Rightarrow> string option \<Rightarrow> string option" where
  "either_id new old = (if new = None then old else new)"

record allocation =
  al_amount :: int
  al_period_start :: datetime
  al_period_end :: datetime
  al_idempotency_key :: string
  al_reason :: string
  al_subscription_id :: "string option"
  al_plan_tier :: string
  al_plan_name :: string

text \<open>A new period, or the end of the one the wallet has, expires what is left.\<close>

definition roll_over ::
  "(datetime \<Rightarrow> string) \<Rightarrow> datetime \<Rightarrow> allocation \<Rightarrow> credit_wallet \<Rightarrow> credit_wallet \<times> credit_entry option" where
  "roll_over show_time now a w =
     (if cw_period_end w \<le> now \<or> al_period_start a \<ge> cw_period_end w
      then expire_remaining_locked show_time now ''unused credits expired at end of paid period'' w
      else (w, None))"

text \<open>The wallet an allocation is added to, and the entry of an expiry that comes before it.\<close>

definition wallet_for_period ::
  "(datetime \<Rightarrow> string) \<Rightarrow> datetime \<Rightarrow> string \<Rightarrow> string \<Rightarrow> allocation
     \<Rightarrow> (credit_wallet \<times> credit_entry option) credit" where
  "wallet_for_period show_time now wallet_id tenant_id a s =
     (case get_wallet tenant_id (tx_db s) of
        None \<Rightarrow>
          (Inr (\<lparr>cw_id = wallet_id, cw_tenant_id = tenant_id, cw_allocated = 0, cw_consumed = 0,
                 cw_reserved = 0, cw_period_start = al_period_start a, cw_period_end = al_period_end a,
                 cw_is_enforced = True, cw_plan_tier = al_plan_tier a, cw_plan_name = al_plan_name a,
                 cw_subscription_id = al_subscription_id a, cw_provider_subscription_id = None,
                 cw_created_at = now, cw_updated_at = now\<rparr>, None), s)
      | Some w0 \<Rightarrow>
          ebind (sweep_expired_reservations now tenant_id False) (\<lambda>_ s1.
            let w = (case get_wallet tenant_id (tx_db s1) of None \<Rightarrow> w0 | Some w \<Rightarrow> w);
                (w1, expiry) = roll_over show_time now a w
            in (Inr (w1\<lparr>cw_period_start := al_period_start a, cw_period_end := al_period_end a,
                        cw_is_enforced := True, cw_plan_tier := either (al_plan_tier a) (cw_plan_tier w1),
                        cw_plan_name := either (al_plan_name a) (cw_plan_name w1),
                        cw_subscription_id := either_id (al_subscription_id a) (cw_subscription_id w1),
                        cw_updated_at := now\<rparr>, expiry), s1)) s)"

definition allocate ::
  "(datetime \<Rightarrow> string) \<Rightarrow> datetime \<Rightarrow> string \<Rightarrow> string \<Rightarrow> allocation \<Rightarrow> credit_entry option credit" where
  "allocate show_time now wallet_id tenant_id a s =
     (if al_amount a \<le> 0 \<or> get_ledger_entry_by_key (al_idempotency_key a) (tx_db s) \<noteq> None
      then (Inr None, s)
      else
        ebind (wallet_for_period show_time now wallet_id tenant_id a) (\<lambda>(w0, expiry).
          let w = w0\<lparr>cw_allocated := cw_allocated w0 + al_amount a, cw_updated_at := now\<rparr>;
              e = ledger_entry now w LK_ALLOCATION (al_amount a) (al_reason a) (al_idempotency_key a)
                    (al_subscription_id a) None
          in ebind (save_wallet w) (\<lambda>_. ebind (add_if_new expiry) (\<lambda>_. ebind (add_ledger_entry e) (\<lambda>_.
               ebind credit_commit (\<lambda>_. eret (Some e)))))) s)"

definition attach_subscription ::
  "datetime \<Rightarrow> string \<Rightarrow> string \<Rightarrow> string option \<Rightarrow> string option \<Rightarrow> string \<Rightarrow> string \<Rightarrow> unit credit" where
  "attach_subscription now wallet_id tenant_id subscription provider plan_tier plan_name s =
     (let w = (case get_wallet tenant_id (tx_db s) of
                 None \<Rightarrow>
                   \<lparr>cw_id = wallet_id, cw_tenant_id = tenant_id, cw_allocated = 0, cw_consumed = 0,
                    cw_reserved = 0, cw_period_start = now, cw_period_end = now,
                    cw_is_enforced = False, cw_plan_tier = plan_tier, cw_plan_name = plan_name,
                    cw_subscription_id = subscription, cw_provider_subscription_id = provider,
                    cw_created_at = now, cw_updated_at = now\<rparr>
               | Some w \<Rightarrow>
                   w\<lparr>cw_plan_tier := either plan_tier (cw_plan_tier w),
                     cw_plan_name := either plan_name (cw_plan_name w),
                     cw_subscription_id := either_id subscription (cw_subscription_id w),
                     cw_provider_subscription_id :=
                       (if truthy provider then provider else cw_provider_subscription_id w),
                     cw_updated_at := now\<rparr>)
      in ebind (save_wallet w) (\<lambda>_. credit_commit) s)"

text \<open>The end of \<open>reserve_for_execution\<close>, from the wallet it has read.\<close>

definition place_hold ::
  "datetime \<Rightarrow> timedelta \<Rightarrow> string \<Rightarrow> string \<Rightarrow> string \<Rightarrow> credit_wallet \<Rightarrow> credit_hold credit" where
  "place_hold now ttl reservation_id tenant_id plan_id w =
     (let h = \<lparr>hd_id = reservation_id, hd_tenant_id = tenant_id, hd_recovery_plan_id = plan_id,
              hd_status = HS_ACTIVE, hd_expires_at = now + ttl, hd_settled_at = None, hd_created_at = now\<rparr>;
          w' = w\<lparr>cw_reserved := cw_reserved w + 1, cw_updated_at := now\<rparr>;
          e = ledger_entry now w' LK_RESERVATION (- 1) ''hold placed before recovery execution''
                (reserve_key reservation_id) None None
      in ebind (store_settlement (w', h, e)) (\<lambda>_. ebind credit_commit (\<lambda>_.
           eret \<lparr>hl_tenant_id = tenant_id, hl_recovery_plan_id = plan_id,
                 hl_reservation_id = reservation_id, hl_already_billed = False\<rparr>)))"

definition reserve_for_execution ::
  "datetime \<Rightarrow> timedelta \<Rightarrow> string \<Rightarrow> string \<Rightarrow> string \<Rightarrow> credit_hold option credit" where
  "reserve_for_execution now ttl reservation_id tenant_id plan_id s =
     (let hold = (\<lambda>i billed. Some \<lparr>hl_tenant_id = tenant_id, hl_recovery_plan_id = plan_id,
                     hl_reservation_id = i, hl_already_billed = billed\<rparr>);
          answer = (\<lambda>x. ebind credit_commit (\<lambda>_. eret x));
          enforced = (\<lambda>db. case get_wallet tenant_id db of
                         None \<Rightarrow> None | Some w \<Rightarrow> if cw_is_enforced w then Some w else None)
      in case enforced (tx_db s) of
           None \<Rightarrow> answer None s
         | Some _ \<Rightarrow>
             if was_plan_consumed tenant_id plan_id (tx_db s) then answer (hold reservation_id True) s
             else
               (case get_active_reservation tenant_id plan_id (tx_db s) of
                  Some h \<Rightarrow> answer (hold (hd_id h) False) s
                | None \<Rightarrow>
                    ebind (sweep_expired_reservations now tenant_id True) (\<lambda>_ s1.
                      case enforced (tx_db s1) of
                        None \<Rightarrow> answer None s1
                      | Some w \<Rightarrow>
                          if available w < 1
                          then ebind credit_commit (\<lambda>_. eraise
                                 (InsufficientCreditsError tenant_id (available w) 1 (cw_period_end w))) s1
                          else ebind (place_hold now ttl reservation_id tenant_id plan_id w)
                                 (\<lambda>h. eret (Some h)) s1) s))"

text \<open>
  The handler of a duplicate ledger key: the session was rolled back, so the hold is active again and is
  settled as a release.
\<close>

definition release_after_duplicate :: "datetime \<Rightarrow> credit_hold \<Rightarrow> string credit" where
  "release_after_duplicate now hold s =
     (case (get_wallet (hl_tenant_id hold) (tx_db s), get_reservation (hl_reservation_id hold) (tx_db s)) of
        (Some w, Some h) \<Rightarrow>
          if hd_status h = HS_ACTIVE
          then (case settle_release now (hold_released h) w h of (w', h', e) \<Rightarrow>
                 ebind (save_wallet w') (\<lambda>_. ebind (save_reservation h') (\<lambda>_.
                   ebind (\<lambda>s2. case add_ledger_entry e s2 of
                            (Inl (DuplicateCreditOperationError k), s3) \<Rightarrow> credit_rollback s3
                          | r \<Rightarrow> r)
                     (\<lambda>_. ebind credit_commit (\<lambda>_. eret ''already_billed'')))) s)
          else (Inr ''already_billed'', s)
      | _ \<Rightarrow> (Inr ''already_billed'', s))"

definition finalize_hold :: "datetime \<Rightarrow> credit_hold \<Rightarrow> bool \<Rightarrow> string credit" where
  "finalize_hold now hold billable s =
     (let noop = ebind credit_commit (\<lambda>_. eret ''noop'') s
      in if hl_already_billed hold then (Inr ''already_billed'', s)
         else
           (case (get_wallet (hl_tenant_id hold) (tx_db s),
                  get_reservation (hl_reservation_id hold) (tx_db s)) of
              (Some w, Some h) \<Rightarrow>
                if hd_status h \<noteq> HS_ACTIVE then noop
                else
                  (let charge = (billable \<and> \<not> was_plan_consumed (hl_tenant_id hold)
                                   (hl_recovery_plan_id hold) (tx_db s))
                   in case ebind (store_settlement
                               (if charge then settle_consumption now w h
                                else settle_release now (hold_released h) w h))
                             (\<lambda>_. credit_commit) s of
                        (Inl (DuplicateCreditOperationError k), s1) \<Rightarrow> release_after_duplicate now hold s1
                      | (Inl e, s1) \<Rightarrow> (Inl e, s1)
                      | (Inr _, s1) \<Rightarrow> (Inr (if charge then ''consumed'' else ''released''), s1))
            | _ \<Rightarrow> noop))"

definition expire_remaining :: "(datetime \<Rightarrow> string) \<Rightarrow> datetime \<Rightarrow> string \<Rightarrow> string \<Rightarrow> int credit" where
  "expire_remaining show_time now tenant_id reason s =
     (case get_wallet tenant_id (tx_db s) of
        None \<Rightarrow> ebind credit_commit (\<lambda>_. eret 0) s
      | Some w0 \<Rightarrow>
          ebind (sweep_expired_reservations now tenant_id False) (\<lambda>_ s1.
            let w = (case get_wallet tenant_id (tx_db s1) of None \<Rightarrow> w0 | Some w \<Rightarrow> w)
            in case expire_remaining_locked show_time now reason w of
                 (w', None) \<Rightarrow> ebind credit_commit (\<lambda>_. eret 0) s1
               | (w', Some e) \<Rightarrow>
                   ebind (save_wallet w') (\<lambda>_. ebind (add_if_new (Some e)) (\<lambda>_.
                     ebind credit_commit (\<lambda>_. eret (- le_delta e)))) s1) s)"

definition deactivate :: "(datetime \<Rightarrow> string) \<Rightarrow> datetime \<Rightarrow> string \<Rightarrow> string \<Rightarrow> int credit" where
  "deactivate show_time now tenant_id reason =
     ebind (expire_remaining show_time now tenant_id reason) (\<lambda>expired s.
       case get_wallet tenant_id (tx_db s) of
         None \<Rightarrow> (Inr expired, s)
       | Some w \<Rightarrow>
           if cw_is_enforced w
           then ebind (save_wallet (w\<lparr>cw_is_enforced := False, cw_updated_at := now\<rparr>)) (\<lambda>_.
                  ebind credit_commit (\<lambda>_. eret expired)) s
           else (Inr expired, s))"

definition apply_plan_upgrade ::
  "datetime \<Rightarrow> string \<Rightarrow> int \<Rightarrow> string option \<Rightarrow> string \<Rightarrow> string \<Rightarrow> int credit" where
  "apply_plan_upgrade now tenant_id new_monthly_credits subscription key reason s =
     (if new_monthly_credits \<le> 0 \<or> get_ledger_entry_by_key key (tx_db s) \<noteq> None then (Inr 0, s)
      else
        (case get_wallet tenant_id (tx_db s) of
           None \<Rightarrow> ebind credit_commit (\<lambda>_. eret 0) s
         | Some w \<Rightarrow>
             (let difference = new_monthly_credits - cw_allocated w;
                  w' = w\<lparr>cw_allocated := cw_allocated w + difference,
                         cw_subscription_id := either_id (cw_subscription_id w) subscription,
                         cw_updated_at := now\<rparr>
              in if \<not> cw_is_enforced w \<or> difference \<le> 0 then ebind credit_commit (\<lambda>_. eret 0) s
                 else ebind (save_wallet w') (\<lambda>_.
                        ebind (add_ledger_entry (ledger_entry now w' LK_ADJUSTMENT difference reason key
                                 subscription None)) (\<lambda>_.
                          ebind credit_commit (\<lambda>_. eret difference))) s)))"

text \<open>The read model of the dashboard.\<close>

record credit_summary =
  sm_tenant_id :: string
  sm_has_wallet :: bool
  sm_enforced :: bool
  sm_plan_tier :: string
  sm_plan_name :: string
  sm_allocated :: int
  sm_consumed :: int
  sm_reserved :: int
  sm_available :: int
  sm_period :: "(datetime \<times> datetime) option"
  sm_subscription_id :: "string option"

definition credit_summary_of :: "string \<Rightarrow> credit_db \<Rightarrow> credit_summary" where
  "credit_summary_of tenant_id db =
     (case get_wallet tenant_id db of
        None \<Rightarrow>
          \<lparr>sm_tenant_id = tenant_id, sm_has_wallet = False, sm_enforced = False, sm_plan_tier = [],
           sm_plan_name = [], sm_allocated = 0, sm_consumed = 0, sm_reserved = 0, sm_available = 0,
           sm_period = None, sm_subscription_id = None\<rparr>
      | Some w \<Rightarrow>
          \<lparr>sm_tenant_id = cw_tenant_id w, sm_has_wallet = True, sm_enforced = cw_is_enforced w,
           sm_plan_tier = cw_plan_tier w, sm_plan_name = cw_plan_name w,
           sm_allocated = cw_allocated w, sm_consumed = cw_consumed w, sm_reserved = cw_reserved w,
           sm_available = available w, sm_period = Some (cw_period_start w, cw_period_end w),
           sm_subscription_id = cw_subscription_id w\<rparr>)"

section \<open>Around an execution\<close>

text \<open>The detail of the response is a dictionary, written here as the text of its fields.\<close>

definition insufficient_detail :: "(datetime \<Rightarrow> string) \<Rightarrow> py_error \<Rightarrow> py_error" where
  "insufficient_detail show_time e =
     (case e of
        InsufficientCreditsError tenant remaining required period_end \<Rightarrow>
          HTTPException 402 (''message: Your recovery allowance is exhausted for this billing period.'' @
            ''; available: '' @ show_int remaining @ ''; required: '' @ show_int required @
            ''; renewal_at: '' @ show_time period_end @
            ''; upgrade_hint: Upgrade to Pro (250 credits/month) from the billing page.'')
      | _ \<Rightarrow> e)"

definition reserve_recovery_credit ::
  "(datetime \<Rightarrow> string) \<Rightarrow> datetime \<Rightarrow> timedelta \<Rightarrow> string \<Rightarrow> string \<Rightarrow> string \<Rightarrow> credit_hold option credit" where
  "reserve_recovery_credit show_time now ttl reservation_id tenant_id plan_id =
     ecatch (reserve_for_execution now ttl reservation_id tenant_id plan_id)
       (\<lambda>e. eraise (insufficient_detail show_time e))"

text \<open>The result of the engine is a dictionary of which two fields are read.\<close>

definition is_billable_result :: "(string, string) dict \<Rightarrow> bool" where
  "is_billable_result result \<longleftrightarrow>
     map_of result ''status'' = Some ''completed'' \<and>
     map_of result ''verification_status'' = Some ''executed_and_verified''"

definition settle_recovery_credit ::
  "datetime \<Rightarrow> credit_hold option \<Rightarrow> (string, string) dict \<Rightarrow> unit credit" where
  "settle_recovery_credit now hold result =
     (case hold of
        None \<Rightarrow> eret ()
      | Some h \<Rightarrow> ebind (finalize_hold now h (is_billable_result result)) (\<lambda>_. eret ()))"


section \<open>What every call keeps\<close>

definition active_holds :: "string \<Rightarrow> credit_db \<Rightarrow> credit_reservation list" where
  "active_holds t db = filter (\<lambda>h. hd_tenant_id h = t \<and> hd_status h = HS_ACTIVE) (cb_holds db)"

definition ledger_keys :: "credit_db \<Rightarrow> string set" where
  "ledger_keys db = le_idempotency_key ` set (cb_ledger db)"

text \<open>The counter of a wallet is the number of its holds; a key of the ledger belongs to what it names.\<close>

definition credit_ok :: "credit_db \<Rightarrow> bool" where
  "credit_ok db \<longleftrightarrow>
     pk cw_id (cb_wallets db) \<and> pk cw_tenant_id (cb_wallets db) \<and>
     pk le_idempotency_key (cb_ledger db) \<and> pk hd_id (cb_holds db) \<and>
     (\<forall>w \<in> set (cb_wallets db). cw_reserved w = int (length (active_holds (cw_tenant_id w) db))) \<and>
     (\<forall>h \<in> set (cb_holds db). hd_status h = HS_ACTIVE \<longrightarrow>
        release_key (hd_id h) \<notin> ledger_keys db \<and> get_wallet (hd_tenant_id h) db \<noteq> None) \<and>
     (\<forall>e \<in> set (cb_ledger db). le_kind e = LK_CONSUMPTION \<longrightarrow>
        (\<exists>p. le_recovery_plan_id e = Some p \<and> le_idempotency_key e = consume_key (le_tenant_id e) p)) \<and>
     (\<forall>i. reserve_key i \<in> ledger_keys db \<or> release_key i \<in> ledger_keys db \<longrightarrow>
        i \<in> hd_id ` set (cb_holds db))"

definition put_wallet :: "credit_wallet \<Rightarrow> credit_wallet list \<Rightarrow> credit_wallet list" where
  "put_wallet w rows =
     (if cw_tenant_id w \<in> cw_tenant_id ` set rows
      then sql_update (\<lambda>r. cw_tenant_id r = cw_tenant_id w) (\<lambda>_. w) rows else rows @ [w])"

definition put_hold :: "credit_reservation \<Rightarrow> credit_reservation list \<Rightarrow> credit_reservation list" where
  "put_hold h rows =
     (if hd_id h \<in> hd_id ` set rows then sql_update (\<lambda>r. hd_id r = hd_id h) (\<lambda>_. h) rows else rows @ [h])"

text \<open>The row a wallet replaces, if any, has its identifier and creation time.\<close>

definition fits :: "credit_wallet \<Rightarrow> credit_db \<Rightarrow> bool" where
  "fits w db \<longleftrightarrow>
     (case get_wallet (cw_tenant_id w) db of
        None \<Rightarrow> cw_id w \<notin> cw_id ` set (cb_wallets db)
      | Some w0 \<Rightarrow> cw_id w = cw_id w0 \<and> cw_created_at w = cw_created_at w0)"

lemma get_wallet_in: "get_wallet t db = Some w \<Longrightarrow> w \<in> set (cb_wallets db) \<and> cw_tenant_id w = t"
  by (auto simp: get_wallet_def sql_select_def filter_eq_Cons_iff elim!: sql_first.elims)

lemma get_wallet_None: "get_wallet t db = None \<longleftrightarrow> t \<notin> cw_tenant_id ` set (cb_wallets db)"
  by (auto simp: get_wallet_def sql_select_def sql_first_None filter_empty_conv image_iff)

lemma same_key: "pk k rows \<Longrightarrow> r \<in> set rows \<Longrightarrow> r' \<in> set rows \<Longrightarrow> k r = k r' \<Longrightarrow> r = r'"
  by (auto simp: pk_def distinct_map dest: inj_onD)

lemma save_wallet_put:
  assumes "credit_ok (tx_db s)" and "fits w (tx_db s)"
  shows "save_wallet w s = (Inr (), s\<lparr>tx_db := tx_db s\<lparr>cb_wallets := put_wallet w (cb_wallets (tx_db s))\<rparr>\<rparr>)"
proof (cases "get_wallet (cw_tenant_id w) (tx_db s)")
  case None
  then have new: "cw_id w \<notin> cw_id ` set (cb_wallets (tx_db s))" using assms(2) by (simp add: fits_def)
  moreover have "cw_tenant_id w \<notin> cw_tenant_id ` set (cb_wallets (tx_db s))"
    using None unfolding get_wallet_None .
  moreover from this have "\<not> (\<exists>r \<in> set (cb_wallets (tx_db s)). cw_tenant_id r = cw_tenant_id w \<and> cw_id r \<noteq> cw_id w)"
    by (force simp: image_iff)
  ultimately show ?thesis by (simp add: save_wallet_def put_wallet_def Let_def)
next
  case (Some w0)
  let ?rows = "cb_wallets (tx_db s)"
  note w0 = get_wallet_in [OF Some]
  have pks: "pk cw_id ?rows" "pk cw_tenant_id ?rows" using assms(1) by (simp_all add: credit_ok_def)
  have same: "cw_id w = cw_id w0" "cw_created_at w = cw_created_at w0" "cw_tenant_id w = cw_tenant_id w0"
    using assms(2) Some w0 by (simp_all add: fits_def)
  have one: "cw_id r = cw_id w \<longleftrightarrow> r = w0" "cw_tenant_id r = cw_tenant_id w \<longleftrightarrow> r = w0"
    if "r \<in> set ?rows" for r
    using that w0 same same_key [OF pks(1)] same_key [OF pks(2)] by auto
  have "sql_update (\<lambda>r. cw_id r = cw_id w) (\<lambda>r. w\<lparr>cw_created_at := cw_created_at r\<rparr>) ?rows =
      sql_update (\<lambda>r. cw_tenant_id r = cw_tenant_id w) (\<lambda>_. w) ?rows"
    unfolding sql_update_def using one same(2) by (intro map_cong) auto
  moreover have "cw_id w \<in> cw_id ` set ?rows" "cw_tenant_id w \<in> cw_tenant_id ` set ?rows"
    using w0 same by auto
  moreover have "\<not> (\<exists>r \<in> set ?rows. cw_tenant_id r = cw_tenant_id w \<and> cw_id r \<noteq> cw_id w)"
    using one by auto
  ultimately show ?thesis by (simp add: save_wallet_def put_wallet_def Let_def)
qed

lemma save_hold_put:
  assumes "\<And>r. r \<in> set (cb_holds (tx_db s)) \<Longrightarrow> hd_id r = hd_id h \<Longrightarrow> hd_created_at r = hd_created_at h"
  shows "save_reservation h s = (Inr (), s\<lparr>tx_db := tx_db s\<lparr>cb_holds := put_hold h (cb_holds (tx_db s))\<rparr>\<rparr>)"
proof -
  have "sql_update (\<lambda>r. hd_id r = hd_id h) (\<lambda>r. h\<lparr>hd_created_at := hd_created_at r\<rparr>) (cb_holds (tx_db s)) =
      sql_update (\<lambda>r. hd_id r = hd_id h) (\<lambda>_. h) (cb_holds (tx_db s))"
    unfolding sql_update_def using assms by (intro map_cong) auto
  then show ?thesis by (simp add: save_reservation_def put_hold_def Let_def)
qed

lemma wallet_after_put:
  "get_wallet t (db\<lparr>cb_wallets := put_wallet w (cb_wallets db)\<rparr>) =
     (if t = cw_tenant_id w then Some w else get_wallet t db)"
proof (cases "cw_tenant_id w \<in> cw_tenant_id ` set (cb_wallets db)")
  case True
  have "sql_first (filter (\<lambda>r. cw_tenant_id r = t) (sql_update (\<lambda>r. cw_tenant_id r = cw_tenant_id w) (\<lambda>_. w) rows)) =
      (if t = cw_tenant_id w \<and> t \<in> cw_tenant_id ` set rows then Some w
       else sql_first (filter (\<lambda>r. cw_tenant_id r = t) rows))" for rows
    by (induction rows) (auto simp: sql_update_def)
  with True show ?thesis by (auto simp: get_wallet_def put_wallet_def sql_select_def)
next
  case False
  then have "filter (\<lambda>r. cw_tenant_id r = cw_tenant_id w) (cb_wallets db) = []"
    by (force simp: filter_empty_conv image_iff)
  with False show ?thesis by (auto simp: get_wallet_def put_wallet_def sql_select_def)
qed


section \<open>Settlements keep it\<close>

definition settled_db :: "credit_wallet \<Rightarrow> credit_reservation \<Rightarrow> credit_entry \<Rightarrow> credit_db \<Rightarrow> credit_db" where
  "settled_db w h e db =
     db\<lparr>cb_wallets := put_wallet w (cb_wallets db), cb_ledger := cb_ledger db @ [e],
        cb_holds := put_hold h (cb_holds db)\<rparr>"

text \<open>The stored hold with the identifier, if any, is of the same tenant, plan and creation time.\<close>

definition hold_fits :: "credit_reservation \<Rightarrow> credit_db \<Rightarrow> bool" where
  "hold_fits h db \<longleftrightarrow> list_all (\<lambda>r. hd_id r = hd_id h \<longrightarrow>
     hd_tenant_id r = hd_tenant_id h \<and> hd_created_at r = hd_created_at h) (cb_holds db)"

lemma store_put:
  assumes "credit_ok (tx_db s)" and "fits w (tx_db s)" and "hold_fits h (tx_db s)"
  shows "store_settlement (w, h, e) s =
    (if le_idempotency_key e \<in> ledger_keys (tx_db s)
     then (Inl (DuplicateCreditOperationError (le_idempotency_key e)), s\<lparr>tx_db := tx_committed s\<rparr>)
     else (Inr (), s\<lparr>tx_db := settled_db w h e (tx_db s)\<rparr>))"
proof -
  let ?s1 = "s\<lparr>tx_db := tx_db s\<lparr>cb_wallets := put_wallet w (cb_wallets (tx_db s))\<rparr>\<rparr>"
  have "save_reservation h ?s1 =
      (Inr (), ?s1\<lparr>tx_db := tx_db ?s1\<lparr>cb_holds := put_hold h (cb_holds (tx_db s))\<rparr>\<rparr>)"
    using save_hold_put [of ?s1 h] assms(3) by (simp add: hold_fits_def list_all_iff)
  then show ?thesis
    by (simp add: store_settlement_def ebind_def save_wallet_put [OF assms(1,2)] add_ledger_entry_def
        sql_insert_def ledger_keys_def settled_db_def)
qed

lemma put_wallet_pk:
  assumes "pk cw_id rows" and "pk cw_tenant_id rows"
    and "fits w db" and "rows = cb_wallets db"
  shows "pk cw_id (put_wallet w rows) \<and> pk cw_tenant_id (put_wallet w rows)"
proof (cases "get_wallet (cw_tenant_id w) db")
  case None
  then have "cw_id w \<notin> cw_id ` set rows" "cw_tenant_id w \<notin> cw_tenant_id ` set rows"
    using assms(3) None unfolding get_wallet_None by (simp_all add: fits_def None assms(4))
  then show ?thesis using assms(1,2) by (simp add: put_wallet_def pk_def)
next
  case (Some w0)
  note w0 = get_wallet_in [OF Some]
  have same: "cw_id w = cw_id w0" using assms(3) Some by (simp add: fits_def)
  have "r = w0" if "r \<in> set rows" "cw_tenant_id r = cw_tenant_id w" for r
    using that w0 assms(2,4) same_key [OF assms(2)] by auto
  then have "map k (sql_update (\<lambda>r. cw_tenant_id r = cw_tenant_id w) (\<lambda>_. w) rows) = map k rows"
    if "k w = k w0" for k :: "credit_wallet \<Rightarrow> string"
    using that by (auto simp: sql_update_def)
  moreover have "cw_tenant_id w \<in> cw_tenant_id ` set rows" using w0 assms(4) by (metis imageI)
  ultimately show ?thesis using assms(1,2) same w0 by (simp add: put_wallet_def pk_def)
qed

lemma put_hold_pk: "pk hd_id rows \<Longrightarrow> pk hd_id (put_hold h rows)"
proof -
  assume "pk hd_id rows"
  moreover have "map hd_id (sql_update (\<lambda>r. hd_id r = hd_id h) (\<lambda>_. h) rows) = map hd_id rows"
    by (simp add: sql_update_def)
  ultimately show ?thesis by (auto simp: put_hold_def pk_def)
qed

lemma put_hold_ids: "hd_id ` set (put_hold h rows) = insert (hd_id h) (hd_id ` set rows)"
  by (auto simp: put_hold_def sql_update_def image_iff)

lemma put_hold_others:
  assumes "list_all (\<lambda>r. hd_id r = hd_id h \<longrightarrow> \<not> P r) rows" and "\<not> P h"
  shows "filter P (put_hold h rows) = filter P rows"
proof -
  have "filter P (sql_update (\<lambda>r. hd_id r = hd_id h) (\<lambda>_. h) rows) = filter P rows"
    using assms by (induction rows) (auto simp: sql_update_def)
  then show ?thesis using assms(2) by (simp add: put_hold_def)
qed

lemma put_hold_set: "r \<in> set (put_hold h rows) \<Longrightarrow> r = h \<or> (r \<in> set rows \<and> hd_id r \<noteq> hd_id h)"
  by (auto simp: put_hold_def sql_update_def image_iff split: if_splits)

lemma put_wallet_set:
  "r \<in> set (put_wallet w rows) \<Longrightarrow> r = w \<or> (r \<in> set rows \<and> cw_tenant_id r \<noteq> cw_tenant_id w)"
  by (auto simp: put_wallet_def sql_update_def image_iff split: if_splits)

lemma wallet_after_settlement:
  "get_wallet t (settled_db w h e db) = (if t = cw_tenant_id w then Some w else get_wallet t db)"
  using wallet_after_put [of t w db] by (simp add: settled_db_def get_wallet_def)

lemma settled_ok:
  assumes ok: "credit_ok db" and w: "fits w db" and h: "hold_fits h db"
    and tenant: "hd_tenant_id h = cw_tenant_id w"
    and new: "le_idempotency_key e \<notin> ledger_keys db"
    and count: "cw_reserved w = int (length (active_holds (cw_tenant_id w) (settled_db w h e db)))"
    and active: "hd_status h = HS_ACTIVE \<Longrightarrow> release_key (hd_id h) \<notin> insert (le_idempotency_key e) (ledger_keys db)"
    and consumed: "le_kind e = LK_CONSUMPTION \<Longrightarrow>
      \<exists>p. le_recovery_plan_id e = Some p \<and> le_idempotency_key e = consume_key (le_tenant_id e) p"
    and names: "\<And>i. le_idempotency_key e = reserve_key i \<or> le_idempotency_key e = release_key i \<Longrightarrow> i = hd_id h"
  shows "credit_ok (settled_db w h e db)"
proof -
  let ?db = "settled_db w h e db"
  have keys: "ledger_keys ?db = insert (le_idempotency_key e) (ledger_keys db)"
    by (auto simp: ledger_keys_def settled_db_def)
  have holds: "cb_holds ?db = put_hold h (cb_holds db)" by (simp add: settled_db_def)
  have wallets: "cb_wallets ?db = put_wallet w (cb_wallets db)" by (simp add: settled_db_def)
  have "pk cw_id (cb_wallets ?db) \<and> pk cw_tenant_id (cb_wallets ?db)"
    unfolding wallets by (rule put_wallet_pk [OF _ _ w refl]) (use ok in \<open>simp_all add: credit_ok_def\<close>)
  moreover have "pk le_idempotency_key (cb_ledger ?db)"
    using ok new by (simp add: credit_ok_def pk_def settled_db_def ledger_keys_def)
  moreover have "pk hd_id (cb_holds ?db)"
    unfolding holds by (rule put_hold_pk) (use ok in \<open>simp add: credit_ok_def\<close>)
  moreover have "cw_reserved r = int (length (active_holds (cw_tenant_id r) ?db))"
    if r: "r \<in> set (cb_wallets ?db)" for r
  proof (cases "cw_tenant_id r = cw_tenant_id w")
    case True
    then have "r = w" using put_wallet_set [OF r [unfolded wallets]] by blast
    then show ?thesis using count by simp
  next
    case False
    then have "r \<in> set (cb_wallets db)" using put_wallet_set [OF r [unfolded wallets]] by auto
    moreover have "active_holds (cw_tenant_id r) ?db = active_holds (cw_tenant_id r) db"
      unfolding active_holds_def holds
      by (rule put_hold_others) (use h False tenant in \<open>auto simp: hold_fits_def list_all_iff\<close>)
    ultimately show ?thesis using ok by (simp add: credit_ok_def)
  qed
  moreover have "release_key (hd_id r) \<notin> ledger_keys ?db \<and> get_wallet (hd_tenant_id r) ?db \<noteq> None"
    if r: "r \<in> set (cb_holds ?db)" "hd_status r = HS_ACTIVE" for r
  proof -
    consider "r = h" | "r \<in> set (cb_holds db)" "hd_id r \<noteq> hd_id h"
      using put_hold_set [OF r(1) [unfolded holds]] by blast
    then show ?thesis
    proof cases
      case 1
      then show ?thesis using active r(2) tenant by (simp add: keys wallet_after_settlement)
    next
      case 2
      then have "release_key (hd_id r) \<notin> ledger_keys db" "get_wallet (hd_tenant_id r) db \<noteq> None"
        using ok r(2) by (simp_all add: credit_ok_def)
      moreover have "le_idempotency_key e \<noteq> release_key (hd_id r)" using names 2(2) by metis
      ultimately show ?thesis unfolding keys wallet_after_settlement by auto
    qed
  qed
  moreover have "\<forall>e' \<in> set (cb_ledger ?db). le_kind e' = LK_CONSUMPTION \<longrightarrow>
      (\<exists>p. le_recovery_plan_id e' = Some p \<and> le_idempotency_key e' = consume_key (le_tenant_id e') p)"
    using ok consumed by (auto simp: credit_ok_def settled_db_def)
  moreover have "i \<in> hd_id ` set (cb_holds ?db)"
    if "reserve_key i \<in> ledger_keys ?db \<or> release_key i \<in> ledger_keys ?db" for i
  proof -
    have "i = hd_id h \<or> i \<in> hd_id ` set (cb_holds db)"
      using that names [of i] ok unfolding keys credit_ok_def by auto
    then show ?thesis by (simp add: holds put_hold_ids)
  qed
  ultimately show ?thesis unfolding credit_ok_def by blast
qed


lemma hold_count:
  assumes "pk hd_id (cb_holds db)" and "h0 \<in> set (cb_holds db)" and "hd_status h0 = HS_ACTIVE"
    and "hd_id h = hd_id h0" and "hd_tenant_id h = hd_tenant_id h0" and "hd_status h \<noteq> HS_ACTIVE"
  shows "Suc (length (active_holds (hd_tenant_id h0) (settled_db w h e db))) =
    length (active_holds (hd_tenant_id h0) db)"
proof -
  let ?P = "\<lambda>r. hd_tenant_id r = hd_tenant_id h0 \<and> hd_status r = HS_ACTIVE"
  have "Suc (length (filter ?P (sql_update (\<lambda>r. hd_id r = hd_id h) (\<lambda>_. h) rows))) = length (filter ?P rows)"
    if "pk hd_id rows" "h0 \<in> set rows" for rows
    using that
  proof (induction rows)
    case (Cons r rows)
    show ?case
    proof (cases "hd_id r = hd_id h")
      case True
      then have "r = h0" using Cons.prems assms(4) same_key [of hd_id "r # rows" r h0] by simp
      moreover have "filter (\<lambda>r. hd_id r = hd_id h) rows = []"
        using Cons.prems(1) True by (force simp: pk_def filter_empty_conv image_iff)
      ultimately show ?thesis
        using assms(3,5,6) sql_update_id [of "\<lambda>r. hd_id r = hd_id h" rows "\<lambda>_. h"] True
        by (simp add: sql_update_def)
    next
      case False
      then have "h0 \<in> set rows" using Cons.prems(2) assms(4) by auto
      then show ?thesis using Cons False by (auto simp: sql_update_def pk_def)
    qed
  qed simp
  from this [OF assms(1,2)] show ?thesis
    using assms(2,4) by (auto simp: active_holds_def settled_db_def put_hold_def image_iff)
qed

text \<open>Settling an active hold of a tenant with its wallet, as a release, an expiry or a consumption.\<close>

lemma settles:
  assumes ok: "credit_ok (tx_db s)" and w: "get_wallet t (tx_db s) = Some w"
    and h: "h \<in> set (cb_holds (tx_db s))" "hd_tenant_id h = t" "hd_status h = HS_ACTIVE"
    and w': "w' = w\<lparr>cw_consumed := c, cw_reserved := max (cw_reserved w - 1) 0, cw_updated_at := now\<rparr>"
    and h': "h' = h\<lparr>hd_status := st, hd_settled_at := Some now\<rparr>" "st \<noteq> HS_ACTIVE"
    and e: "le_idempotency_key e = release_key (hd_id h) \<and> le_kind e = LK_RELEASE \<or>
      le_idempotency_key e = consume_key t (hd_recovery_plan_id h) \<and> le_tenant_id e = t \<and>
      le_recovery_plan_id e = Some (hd_recovery_plan_id h)"
  shows "store_settlement (w', h', e) s =
      (if le_idempotency_key e \<in> ledger_keys (tx_db s)
       then (Inl (DuplicateCreditOperationError (le_idempotency_key e)), s\<lparr>tx_db := tx_committed s\<rparr>)
       else (Inr (), s\<lparr>tx_db := settled_db w' h' e (tx_db s)\<rparr>))"
    and "le_idempotency_key e \<notin> ledger_keys (tx_db s) \<Longrightarrow> credit_ok (settled_db w' h' e (tx_db s))"
    and "cw_reserved w \<ge> 1"
proof -
  let ?db = "tx_db s"
  have wt: "w \<in> set (cb_wallets ?db)" "cw_tenant_id w = t" using get_wallet_in [OF w] by auto
  have fits: "fits w' ?db" using w wt(2) by (simp add: fits_def w')
  have pk: "pk hd_id (cb_holds ?db)" using ok by (simp add: credit_ok_def)
  have hfits: "hold_fits h' ?db"
    using same_key [OF pk] h(1) by (auto simp: hold_fits_def list_all_iff h')
  show "store_settlement (w', h', e) s =
      (if le_idempotency_key e \<in> ledger_keys ?db
       then (Inl (DuplicateCreditOperationError (le_idempotency_key e)), s\<lparr>tx_db := tx_committed s\<rparr>)
       else (Inr (), s\<lparr>tx_db := settled_db w' h' e ?db\<rparr>))"
    by (rule store_put [OF ok fits hfits])
  have count: "Suc (length (active_holds t (settled_db w' h' e ?db))) = length (active_holds t ?db)"
    using hold_count [OF pk h(1,3), of h' w' e] h(2) h' by simp
  moreover have reserved: "cw_reserved w = int (length (active_holds t ?db))"
    using ok wt by (auto simp: credit_ok_def)
  ultimately show one: "cw_reserved w \<ge> 1" by linarith
  show "credit_ok (settled_db w' h' e ?db)" if "le_idempotency_key e \<notin> ledger_keys ?db"
  proof (rule settled_ok [OF ok fits hfits])
    show "cw_reserved w' = int (length (active_holds (cw_tenant_id w') (settled_db w' h' e ?db)))"
      using count reserved wt(2) by (simp add: w')
  qed (use that e h h' wt in \<open>auto simp: w'\<close>)
qed


section \<open>The contract of the service\<close>

text \<open>
  What may happen to an account. The flag says that no expiry loses track of a credit: it happens while
  no hold is active, and credits that are left get an entry.
\<close>

definition booked_db :: "credit_wallet \<Rightarrow> credit_entry list \<Rightarrow> credit_db \<Rightarrow> credit_db" where
  "booked_db w es db = db\<lparr>cb_wallets := put_wallet w (cb_wallets db), cb_ledger := cb_ledger db @ es\<rparr>"

definition internal_key :: "string \<Rightarrow> bool" where
  "internal_key key \<longleftrightarrow> (\<exists>i. key = reserve_key i \<or> key = release_key i)"

inductive credit_move :: "bool \<Rightarrow> credit_db \<Rightarrow> credit_db \<Rightarrow> bool" for clean where
  hold: "get_wallet t db = Some w \<Longrightarrow> available w \<ge> 1 \<Longrightarrow> hd_id h \<notin> hd_id ` set (cb_holds db) \<Longrightarrow>
     hd_tenant_id h = t \<Longrightarrow> hd_status h = HS_ACTIVE \<Longrightarrow>
     w' = w\<lparr>cw_reserved := cw_reserved w + 1, cw_updated_at := now\<rparr> \<Longrightarrow>
     credit_move clean db (settled_db w' h (ledger_entry now w' LK_RESERVATION (- 1) reason
       (reserve_key (hd_id h)) None None) db)"
| release: "get_wallet t db = Some w \<Longrightarrow> h \<in> set (cb_holds db) \<Longrightarrow> hd_tenant_id h = t \<Longrightarrow>
     hd_status h = HS_ACTIVE \<Longrightarrow> st \<in> {HS_RELEASED, HS_EXPIRED} \<Longrightarrow>
     w' = w\<lparr>cw_reserved := max (cw_reserved w - 1) 0, cw_updated_at := now\<rparr> \<Longrightarrow>
     credit_move clean db (settled_db w' (h\<lparr>hd_status := st, hd_settled_at := Some now\<rparr>)
       (ledger_entry now w' LK_RELEASE 1 reason (release_key (hd_id h)) None (Some (hd_recovery_plan_id h))) db)"
| consume: "get_wallet t db = Some w \<Longrightarrow> h \<in> set (cb_holds db) \<Longrightarrow> hd_tenant_id h = t \<Longrightarrow>
     hd_status h = HS_ACTIVE \<Longrightarrow> consume_key t (hd_recovery_plan_id h) \<notin> ledger_keys db \<Longrightarrow>
     w' = w\<lparr>cw_consumed := cw_consumed w + 1, cw_reserved := max (cw_reserved w - 1) 0, cw_updated_at := now\<rparr> \<Longrightarrow>
     credit_move clean db (settled_db w' (h\<lparr>hd_status := HS_CONSUMED, hd_settled_at := Some now\<rparr>)
       (ledger_entry now w' LK_CONSUMPTION 0 reason (consume_key t (hd_recovery_plan_id h)) None
          (Some (hd_recovery_plan_id h))) db)"
| grant: "get_wallet (cw_tenant_id w) db = Some w \<Longrightarrow> n > 0 \<Longrightarrow> kind \<in> {LK_ALLOCATION, LK_ADJUSTMENT} \<Longrightarrow>
     key \<notin> ledger_keys db \<Longrightarrow> \<not> internal_key key \<Longrightarrow>
     cw_tenant_id w' = cw_tenant_id w \<Longrightarrow> cw_allocated w' = cw_allocated w + n \<Longrightarrow>
     cw_consumed w' = cw_consumed w \<Longrightarrow> cw_reserved w' = cw_reserved w \<Longrightarrow> fits w' db \<Longrightarrow>
     credit_move clean db (booked_db w' [ledger_entry now w' kind n reason key subscription None] db)"
| expire: "get_wallet t db = Some w \<Longrightarrow> w' = w\<lparr>cw_allocated := 0, cw_consumed := 0, cw_updated_at := now\<rparr> \<Longrightarrow>
     es = [] \<or> es = [ledger_entry now w' LK_EXPIRY (- available w) reason key subscription None] \<and>
       key \<notin> ledger_keys db \<and> \<not> internal_key key \<Longrightarrow>
     clean \<longrightarrow> cw_reserved w = 0 \<and> (es = [] \<longrightarrow> available w \<le> 0) \<Longrightarrow>
     credit_move clean db (booked_db w' es db)"
| relabel: "get_wallet (cw_tenant_id w') db = Some w \<Longrightarrow> fits w' db \<Longrightarrow>
     cw_allocated w' = cw_allocated w \<Longrightarrow> cw_consumed w' = cw_consumed w \<Longrightarrow>
     cw_reserved w' = cw_reserved w \<Longrightarrow> credit_move clean db (booked_db w' [] db)"
| open_account: "get_wallet (cw_tenant_id w) db = None \<Longrightarrow> cw_id w \<notin> cw_id ` set (cb_wallets db) \<Longrightarrow>
     cw_allocated w = 0 \<Longrightarrow> cw_consumed w = 0 \<Longrightarrow> cw_reserved w = 0 \<Longrightarrow>
     credit_move clean db (booked_db w [] db)"

lemma wallet_after_booking:
  "get_wallet t (booked_db w es db) = (if t = cw_tenant_id w then Some w else get_wallet t db)"
  using wallet_after_put [of t w db] by (simp add: booked_db_def get_wallet_def)

lemma booked_ok:
  assumes ok: "credit_ok db" and w: "fits w db"
    and count: "cw_reserved w = int (length (active_holds (cw_tenant_id w) db))"
    and new: "pk le_idempotency_key (cb_ledger db @ es)"
    and es: "list_all (\<lambda>e. \<not> internal_key (le_idempotency_key e) \<and> le_kind e \<noteq> LK_CONSUMPTION) es"
  shows "credit_ok (booked_db w es db)"
proof -
  let ?db = "booked_db w es db"
  have parts: "cb_holds ?db = cb_holds db" "cb_ledger ?db = cb_ledger db @ es"
    "cb_wallets ?db = put_wallet w (cb_wallets db)" "active_holds t ?db = active_holds t db" for t
    by (simp_all add: booked_db_def active_holds_def)
  have "k \<in> ledger_keys ?db \<longleftrightarrow> k \<in> ledger_keys db" if "internal_key k" for k
    using es that by (auto simp: ledger_keys_def parts list_all_iff)
  then have keys: "release_key i \<in> ledger_keys ?db \<longleftrightarrow> release_key i \<in> ledger_keys db"
    "reserve_key i \<in> ledger_keys ?db \<longleftrightarrow> reserve_key i \<in> ledger_keys db" for i
    by (metis internal_key_def)+
  have "pk cw_id (cb_wallets ?db) \<and> pk cw_tenant_id (cb_wallets ?db)"
    unfolding parts by (rule put_wallet_pk [OF _ _ w refl]) (use ok in \<open>simp_all add: credit_ok_def\<close>)
  moreover have "cw_reserved r = int (length (active_holds (cw_tenant_id r) ?db))"
    if "r \<in> set (cb_wallets ?db)" for r
    using put_wallet_set [OF that [unfolded parts]] ok count by (auto simp: credit_ok_def parts)
  moreover have "release_key (hd_id h) \<notin> ledger_keys ?db \<and> get_wallet (hd_tenant_id h) ?db \<noteq> None"
    if "h \<in> set (cb_holds ?db)" "hd_status h = HS_ACTIVE" for h
    using that ok by (auto simp: credit_ok_def parts keys wallet_after_booking)
  moreover have "\<forall>e \<in> set (cb_ledger ?db). le_kind e = LK_CONSUMPTION \<longrightarrow>
      (\<exists>p. le_recovery_plan_id e = Some p \<and> le_idempotency_key e = consume_key (le_tenant_id e) p)"
    using ok es by (auto simp: credit_ok_def parts list_all_iff)
  ultimately show ?thesis
    using ok new unfolding credit_ok_def parts(1,2) keys by blast
qed

lemma single_entry_pk:
  "pk le_idempotency_key (cb_ledger db) \<Longrightarrow> le_idempotency_key e \<notin> ledger_keys db \<Longrightarrow>
     pk le_idempotency_key (cb_ledger db @ [e])"
  by (simp add: pk_def ledger_keys_def)

lemma ledger_entry_simps [simp]:
  "le_idempotency_key (ledger_entry now w k n r key s p) = key"
  "le_kind (ledger_entry now w k n r key s p) = k"
  "le_delta (ledger_entry now w k n r key s p) = n"
  "le_balance_after (ledger_entry now w k n r key s p) = available w"
  "le_tenant_id (ledger_entry now w k n r key s p) = cw_tenant_id w"
  "le_recovery_plan_id (ledger_entry now w k n r key s p) = p"
  by (simp_all add: ledger_entry_def)

lemma wallet_count:
  assumes "credit_ok db" and "get_wallet t db = Some w"
  shows "cw_reserved w = int (length (active_holds t db))"
  using assms get_wallet_in [OF assms(2)] by (auto simp: credit_ok_def)

lemma no_wallet_no_holds:
  assumes "credit_ok db" and "get_wallet t db = None"
  shows "active_holds t db = []"
  using assms by (auto simp: credit_ok_def active_holds_def filter_empty_conv)

lemma consume_not_internal: "\<not> internal_key (consume_key t p)"
  by (simp add: internal_key_def)


lemma settlement_ok:
  assumes "credit_ok db" and "get_wallet t db = Some w" and "h \<in> set (cb_holds db)"
    and "hd_tenant_id h = t" and "hd_status h = HS_ACTIVE" and "st \<noteq> HS_ACTIVE"
    and "w' = w\<lparr>cw_consumed := c, cw_reserved := max (cw_reserved w - 1) 0, cw_updated_at := now\<rparr>"
    and "le_idempotency_key e = release_key (hd_id h) \<and> le_kind e = LK_RELEASE \<or>
      le_idempotency_key e = consume_key t (hd_recovery_plan_id h) \<and> le_tenant_id e = t \<and>
      le_recovery_plan_id e = Some (hd_recovery_plan_id h) \<and> le_idempotency_key e \<notin> ledger_keys db"
  shows "credit_ok (settled_db w' (h\<lparr>hd_status := st, hd_settled_at := Some now\<rparr>) e db)"
    and "cw_reserved w \<ge> 1"
proof -
  let ?s = "\<lparr>tx_db = db, tx_committed = db\<rparr>"
  have "release_key (hd_id h) \<notin> ledger_keys db"
    using assms(1,3,5) by (auto simp: credit_ok_def)
  then have new: "le_idempotency_key e \<notin> ledger_keys (tx_db ?s)" using assms(8) by auto
  have e: "le_idempotency_key e = release_key (hd_id h) \<and> le_kind e = LK_RELEASE \<or>
      le_idempotency_key e = consume_key t (hd_recovery_plan_id h) \<and> le_tenant_id e = t \<and>
      le_recovery_plan_id e = Some (hd_recovery_plan_id h)" using assms(8) by blast
  have s: "credit_ok (tx_db ?s)" "get_wallet t (tx_db ?s) = Some w" "h \<in> set (cb_holds (tx_db ?s))"
    using assms(1-3) by simp_all
  note settle = settles [OF s assms(4,5,7) refl assms(6) e]
  show "credit_ok (settled_db w' (h\<lparr>hd_status := st, hd_settled_at := Some now\<rparr>) e db)"
    using settle(2) [OF new] by simp
  show "cw_reserved w \<ge> 1" by (rule settle(3))
qed

text \<open>Every move keeps the accounts consistent.\<close>

lemma move_keeps_ok:
  assumes "credit_move c db db'" and "credit_ok db"
  shows "credit_ok db'"
  using assms
proof (cases rule: credit_move.cases)
  case (hold t w h w' now reason)
  let ?e = "ledger_entry now w' LK_RESERVATION (- 1) reason (reserve_key (hd_id h)) None None"
  note w = get_wallet_in [OF hold(2)]
  have new: "reserve_key (hd_id h) \<notin> ledger_keys db" "release_key (hd_id h) \<notin> ledger_keys db"
    using assms(2) hold(4) by (auto simp: credit_ok_def)
  have "cb_holds (settled_db w' h ?e db) = cb_holds db @ [h]"
    using hold(4) by (simp add: settled_db_def put_hold_def)
  then have "cw_reserved w' = int (length (active_holds (cw_tenant_id w') (settled_db w' h ?e db)))"
    using wallet_count [OF assms(2) hold(2)] hold(5-7) w by (simp add: active_holds_def)
  moreover have "hold_fits h db" using hold(4) by (auto simp: hold_fits_def list_all_iff image_iff)
  ultimately show ?thesis
    unfolding hold(1) using hold(2,5-7) w new
    by (intro settled_ok [OF assms(2)]) (auto simp: fits_def)
next
  case (release t w h st w' now reason)
  then show ?thesis
    using settlement_ok(1) [OF assms(2) release(2-5), where st = st and w' = w' and c = "cw_consumed w" and now = now]
    by auto
next
  case (consume t w h w' now reason)
  then show ?thesis
    using settlement_ok(1) [OF assms(2) consume(2-5), where st = HS_CONSUMED and w' = w' and
        c = "cw_consumed w + 1" and now = now]
      get_wallet_in [OF consume(2)] by auto
next
  case (grant w n kind key w' now reason subscription)
  then have "pk le_idempotency_key (cb_ledger db @ [ledger_entry now w' kind n reason key subscription None])"
    using single_entry_pk [of db] assms(2) by (simp add: credit_ok_def)
  then show ?thesis
    unfolding grant(1) using wallet_count [OF assms(2) grant(2)] grant
    by (intro booked_ok [OF assms(2)]) auto
next
  case (expire t w w' now es key reason subscription)
  note w = get_wallet_in [OF expire(2)]
  have "pk le_idempotency_key (cb_ledger db @ es)"
    using expire(4) single_entry_pk [of db] assms(2) by (auto simp: credit_ok_def)
  moreover have "fits w' db" using expire(2,3) w by (simp add: fits_def)
  ultimately show ?thesis
    unfolding expire(1) using wallet_count [OF assms(2) expire(2)] expire(3,4) w
    by (intro booked_ok [OF assms(2)]) auto
next
  case (relabel w' w)
  then show ?thesis
    unfolding relabel(1) using wallet_count [OF assms(2) relabel(2)] assms(2)
    by (intro booked_ok [OF assms(2)]) (simp_all add: credit_ok_def)
next
  case (open_account w)
  then show ?thesis
    unfolding open_account(1) using no_wallet_no_holds [OF assms(2) open_account(2)] assms(2)
    by (intro booked_ok [OF assms(2)]) (simp_all add: credit_ok_def fits_def)
qed


section \<open>Books\<close>

text \<open>The entries of an account add up: each balance is the one before plus the movement.\<close>

fun balances_ok :: "int \<Rightarrow> credit_entry list \<Rightarrow> bool" where
  "balances_ok b [] \<longleftrightarrow> True"
| "balances_ok b (e # es) \<longleftrightarrow> le_balance_after e = b + le_delta e \<and> balances_ok (b + le_delta e) es"

definition tenant_ledger :: "string \<Rightarrow> credit_db \<Rightarrow> credit_entry list" where
  "tenant_ledger t db = filter (\<lambda>e. le_tenant_id e = t) (cb_ledger db)"

definition account :: "string \<Rightarrow> credit_db \<Rightarrow> int" where
  "account t db = (case get_wallet t db of None \<Rightarrow> 0 | Some w \<Rightarrow> available w)"

abbreviation moved :: "credit_entry list \<Rightarrow> int" where
  "moved es \<equiv> sum_list (map le_delta es)"

definition books_ok :: "credit_db \<Rightarrow> bool" where
  "books_ok db \<longleftrightarrow> (\<forall>t. balances_ok 0 (tenant_ledger t db) \<and> account t db = moved (tenant_ledger t db) \<and>
     0 \<le> account t db)"

lemma balances_append: "balances_ok b (es @ es') \<longleftrightarrow> balances_ok b es \<and> balances_ok (b + moved es) es'"
  by (induction es arbitrary: b) (simp_all add: algebra_simps)

lemma books_step:
  assumes "books_ok db" and "cb_ledger db' = cb_ledger db @ es"
    and "\<And>t. get_wallet t db' = (if t = cw_tenant_id w then Some w else get_wallet t db)"
    and "list_all (\<lambda>e. le_tenant_id e = cw_tenant_id w) es"
    and "balances_ok (account (cw_tenant_id w) db) es"
    and "available w = account (cw_tenant_id w) db + moved es" and "0 \<le> available w"
  shows "books_ok db'"
  unfolding books_ok_def
proof
  fix t
  have old: "balances_ok 0 (tenant_ledger t db)" "account t db = moved (tenant_ledger t db)" "0 \<le> account t db"
    using assms(1) unfolding books_ok_def by blast+
  show "balances_ok 0 (tenant_ledger t db') \<and> account t db' = moved (tenant_ledger t db') \<and> 0 \<le> account t db'"
  proof (cases "t = cw_tenant_id w")
    case True
    then have "tenant_ledger t db' = tenant_ledger t db @ es"
      using assms(2,4) by (auto simp: tenant_ledger_def list_all_iff)
    then show ?thesis
      using True old assms(3,5,6,7) by (simp add: balances_append account_def)
  next
    case False
    then have "tenant_ledger t db' = tenant_ledger t db"
      using assms(2,4) by (auto simp: tenant_ledger_def list_all_iff filter_empty_conv)
    then show ?thesis using False old assms(3) by (simp add: account_def)
  qed
qed

lemma books_settled:
  assumes "books_ok db" and "le_tenant_id e = cw_tenant_id w" and "le_balance_after e = available w"
    and "available w = account (cw_tenant_id w) db + le_delta e" and "0 \<le> available w"
  shows "books_ok (settled_db w h e db)"
  by (rule books_step [OF assms(1), where w = w and es = "[e]"])
    (use assms in \<open>simp_all add: wallet_after_settlement\<close>, simp add: settled_db_def)

lemma books_booked:
  assumes "books_ok db" and "list_all (\<lambda>e. le_tenant_id e = cw_tenant_id w) es"
    and "balances_ok (account (cw_tenant_id w) db) es"
    and "available w = account (cw_tenant_id w) db + moved es" and "0 \<le> available w"
  shows "books_ok (booked_db w es db)"
  by (rule books_step [OF assms(1) _ _ assms(2-5)]) (simp_all add: wallet_after_booking, simp add: booked_db_def)

lemma account_wallet: "get_wallet t db = Some w \<Longrightarrow> account t db = available w \<and> cw_tenant_id w = t"
  using get_wallet_in [of t db w] by (simp add: account_def)

lemma move_keeps_books:
  assumes "credit_move True db db'" and "credit_ok db" and "books_ok db"
  shows "books_ok db'"
proof -
  have positive: "0 \<le> available w" if "get_wallet t db = Some w" for t w
    using assms(3) account_wallet [OF that] unfolding books_ok_def by metis
  have reserved: "1 \<le> cw_reserved w"
    if "get_wallet t db = Some w" "h \<in> set (cb_holds db)" "hd_tenant_id h = t" "hd_status h = HS_ACTIVE" for t w h
    using settlement_ok(2) [OF assms(2) that, of HS_RELEASED _ _ _ "ledger_entry 0 w LK_RELEASE 1 [] (release_key (hd_id h)) None None"]
    by simp
  show ?thesis
    using assms(1)
  proof (cases rule: credit_move.cases)
    case (hold t w h w' now reason)
    then show ?thesis
      using account_wallet [OF hold(2)] unfolding hold(1)
      by (intro books_settled [OF assms(3)]) (simp_all add: available_def)
  next
    case (release t w h st w' now reason)
    then show ?thesis
      using account_wallet [OF release(2)] reserved [OF release(2-5)] positive [OF release(2)] unfolding release(1)
      by (intro books_settled [OF assms(3)]) (simp_all add: available_def)
  next
    case (consume t w h w' now reason)
    then show ?thesis
      using account_wallet [OF consume(2)] reserved [OF consume(2-5)] positive [OF consume(2)] unfolding consume(1)
      by (intro books_settled [OF assms(3)]) (simp_all add: available_def)
  next
    case (grant w n kind key w' now reason subscription)
    then show ?thesis
      using account_wallet [OF grant(2)] positive [OF grant(2)] unfolding grant(1)
      by (intro books_booked [OF assms(3)]) (simp_all add: available_def)
  next
    case (expire t w w' now es key reason subscription)
    then show ?thesis
      using account_wallet [OF expire(2)] positive [OF expire(2)] unfolding expire(1)
      by (intro books_booked [OF assms(3)]) (auto simp: available_def)
  next
    case (relabel w' w)
    then show ?thesis
      using account_wallet [OF relabel(2)] positive [OF relabel(2)] unfolding relabel(1)
      by (intro books_booked [OF assms(3)]) (simp_all add: available_def)
  next
    case (open_account w)
    then show ?thesis
      unfolding open_account(1)
      by (intro books_booked [OF assms(3)]) (simp_all add: available_def account_def)
  qed
qed


section \<open>Every call is a sequence of moves\<close>

abbreviation moves :: "bool \<Rightarrow> credit_db \<Rightarrow> credit_db \<Rightarrow> bool" where
  "moves c \<equiv> (credit_move c)\<^sup>*\<^sup>*"

lemma moves_keep_ok: "moves c db db' \<Longrightarrow> credit_ok db \<Longrightarrow> credit_ok db'"
  by (induction rule: rtranclp_induct) (auto intro: move_keeps_ok)

lemma moves_keep_books: "moves True db db' \<Longrightarrow> credit_ok db \<Longrightarrow> books_ok db \<Longrightarrow> books_ok db'"
  by (induction rule: rtranclp_induct) (auto intro: move_keeps_books moves_keep_ok)

lemma moves_step: "credit_move c db db' \<Longrightarrow> moves c db' db'' \<Longrightarrow> moves c db db''"
  by (rule converse_rtranclp_into_rtranclp)

lemma key_lookup: "get_ledger_entry_by_key k db = None \<longleftrightarrow> k \<notin> ledger_keys db"
  by (auto simp: get_ledger_entry_by_key_def sql_select_def sql_first_None filter_empty_conv ledger_keys_def)

lemma active_release_new:
  "credit_ok db \<Longrightarrow> h \<in> set (cb_holds db) \<Longrightarrow> hd_status h = HS_ACTIVE \<Longrightarrow> release_key (hd_id h) \<notin> ledger_keys db"
  by (simp add: credit_ok_def)

lemma settled_holds:
  "cb_holds (settled_db w h e db) = put_hold h (cb_holds db)"
  "cb_ledger (settled_db w h e db) = cb_ledger db @ [e]"
  by (simp_all add: settled_db_def)

lemma put_hold_keeps: "r \<in> set rows \<Longrightarrow> hd_id r \<noteq> hd_id h \<Longrightarrow> r \<in> set (put_hold h rows)"
  by (auto simp: put_hold_def sql_update_def image_iff)

lemma release_run:
  assumes "credit_ok (tx_db s)" and "get_wallet t (tx_db s) = Some w" and "h \<in> set (cb_holds (tx_db s))"
    and "hd_tenant_id h = t" and "hd_status h = HS_ACTIVE" and "st \<in> {HS_RELEASED, HS_EXPIRED}"
    and "settle_release now reason w h = (w', h', e)"
  shows "store_settlement (w', h'\<lparr>hd_status := st\<rparr>, e) s =
      (Inr (), s\<lparr>tx_db := settled_db w' (h'\<lparr>hd_status := st\<rparr>) e (tx_db s)\<rparr>)"
    and "credit_move c (tx_db s) (settled_db w' (h'\<lparr>hd_status := st\<rparr>) e (tx_db s))"
    and "hd_id h' = hd_id h"
proof -
  have parts: "w' = w\<lparr>cw_consumed := cw_consumed w, cw_reserved := max (cw_reserved w - 1) 0, cw_updated_at := now\<rparr>"
    "h'\<lparr>hd_status := st\<rparr> = h\<lparr>hd_status := st, hd_settled_at := Some now\<rparr>" "hd_id h' = hd_id h"
    "e = ledger_entry now w' LK_RELEASE 1 reason (release_key (hd_id h)) None (Some (hd_recovery_plan_id h))"
    using assms(7) by (auto simp: settle_release_def Let_def)
  have "st \<noteq> HS_ACTIVE" using assms(6) by auto
  from settles(1) [OF assms(1-5) parts(1,2) this, of e] active_release_new [OF assms(1,3,5)]
  show "store_settlement (w', h'\<lparr>hd_status := st\<rparr>, e) s =
      (Inr (), s\<lparr>tx_db := settled_db w' (h'\<lparr>hd_status := st\<rparr>) e (tx_db s)\<rparr>)"
    by (simp add: parts(4))
  show "credit_move c (tx_db s) (settled_db w' (h'\<lparr>hd_status := st\<rparr>) e (tx_db s))"
    unfolding parts(2,4) by (rule release [OF assms(2-6)]) (simp add: parts(1))
  show "hd_id h' = hd_id h" by (rule parts(3))
qed

text \<open>A sweep releases expired holds; it changes nothing for a tenant that has none.\<close>

lemma sweep_moves:
  assumes "credit_ok (tx_db s)" and "distinct (map hd_id hs)"
    and "\<And>h. h \<in> set hs \<Longrightarrow> h \<in> set (cb_holds (tx_db s)) \<and> hd_status h = HS_ACTIVE"
  shows "\<exists>db. sweep_each now t hs s = (Inr (), s\<lparr>tx_db := db\<rparr>) \<and> moves c (tx_db s) db \<and>
    hd_id ` set (cb_holds db) = hd_id ` set (cb_holds (tx_db s)) \<and>
    (active_holds t (tx_db s) = [] \<longrightarrow> db = tx_db s) \<and>
    (\<forall>k. \<not> internal_key k \<longrightarrow> k \<in> ledger_keys db \<longrightarrow> k \<in> ledger_keys (tx_db s)) \<and>
    map_option cw_period_end (get_wallet t db) = map_option cw_period_end (get_wallet t (tx_db s))"
  using assms
proof (induction hs arbitrary: s)
  case Nil
  then show ?case by (intro exI [of _ "tx_db s"]) simp
next
  case (Cons h hs)
  have h: "h \<in> set (cb_holds (tx_db s))" "hd_status h = HS_ACTIVE" using Cons.prems(3) by auto
  show ?case
  proof (cases "hd_tenant_id h = t")
    case False
    then show ?thesis using Cons.IH [OF Cons.prems(1)] Cons.prems(2,3) by simp
  next
    case True
    then obtain w where w: "get_wallet t (tx_db s) = Some w"
      using Cons.prems(1) h by (auto simp: credit_ok_def)
    obtain w' h' e where r: "settle_release now (''hold expired for recovery plan '' @ hd_recovery_plan_id h) w h = (w', h', e)"
      by (metis prod_cases3)
    note run = release_run [OF Cons.prems(1) w h(1) True h(2) _ r, of HS_EXPIRED]
    let ?db = "settled_db w' (h'\<lparr>hd_status := HS_EXPIRED\<rparr>) e (tx_db s)"
    let ?s = "s\<lparr>tx_db := ?db\<rparr>"
    have key: "get_ledger_entry_by_key (le_idempotency_key e) (tx_db s) = None"
      unfolding key_lookup using r active_release_new [OF Cons.prems(1) h] by (auto simp: settle_release_def Let_def)
    have move: "credit_move c (tx_db s) ?db" using run(2) by simp
    have "\<exists>db. sweep_each now t hs ?s = (Inr (), ?s\<lparr>tx_db := db\<rparr>) \<and> moves c (tx_db ?s) db \<and>
        hd_id ` set (cb_holds db) = hd_id ` set (cb_holds (tx_db ?s)) \<and>
        (active_holds t (tx_db ?s) = [] \<longrightarrow> db = tx_db ?s) \<and>
        (\<forall>k. \<not> internal_key k \<longrightarrow> k \<in> ledger_keys db \<longrightarrow> k \<in> ledger_keys (tx_db ?s)) \<and>
        map_option cw_period_end (get_wallet t db) = map_option cw_period_end (get_wallet t (tx_db ?s))"
    proof (rule Cons.IH)
      show "credit_ok (tx_db ?s)" using move_keeps_ok [OF move Cons.prems(1)] by simp
      show "distinct (map hd_id hs)" using Cons.prems(2) by simp
      show "r \<in> set (cb_holds (tx_db ?s)) \<and> hd_status r = HS_ACTIVE" if "r \<in> set hs" for r
      proof -
        have "hd_id r \<noteq> hd_id (h'\<lparr>hd_status := HS_EXPIRED\<rparr>)"
          using that Cons.prems(2) run(3) by (force simp: image_iff)
        moreover have "r \<in> set (cb_holds (tx_db s)) \<and> hd_status r = HS_ACTIVE" using Cons.prems(3) that by simp
        ultimately show ?thesis by (simp add: settled_holds put_hold_keeps)
      qed
    qed
    then obtain db where db: "sweep_each now t hs ?s = (Inr (), ?s\<lparr>tx_db := db\<rparr>)" "moves c ?db db"
      "hd_id ` set (cb_holds db) = hd_id ` set (cb_holds ?db)"
      "\<forall>k. \<not> internal_key k \<longrightarrow> k \<in> ledger_keys db \<longrightarrow> k \<in> ledger_keys ?db"
      "map_option cw_period_end (get_wallet t db) = map_option cw_period_end (get_wallet t ?db)" by auto
    have "cw_tenant_id w' = t" "cw_period_end w' = cw_period_end w"
      using r get_wallet_in [OF w] by (auto simp: settle_release_def Let_def)
    then have period: "map_option cw_period_end (get_wallet t db) = map_option cw_period_end (get_wallet t (tx_db s))"
      using db(5) w by (simp add: wallet_after_settlement)
    have "le_idempotency_key e = release_key (hd_id h)" using r by (auto simp: settle_release_def Let_def)
    then have keys: "\<forall>k. \<not> internal_key k \<longrightarrow> k \<in> ledger_keys db \<longrightarrow> k \<in> ledger_keys (tx_db s)"
      using db(4) by (auto simp: ledger_keys_def settled_holds internal_key_def)
    have "sweep_each now t (h # hs) s = (Inr (), s\<lparr>tx_db := db\<rparr>)"
      using True w r key run(1) db(1) by (simp add: ebind_def)
    moreover have "hd_id ` set (cb_holds ?db) = hd_id ` set (cb_holds (tx_db s))"
      using h(1) run(3) by (auto simp: settled_holds put_hold_ids)
    moreover have "active_holds t (tx_db s) \<noteq> []"
      using h True by (auto simp: active_holds_def filter_empty_conv)
    ultimately show ?thesis
      using db(2,3) keys period moves_step [OF move db(2)] by auto
  qed
qed

definition settled :: "credit_session \<Rightarrow> bool" where
  "settled s \<longleftrightarrow> tx_committed s = tx_db s"

lemma sweep_run:
  assumes "credit_ok (tx_db s)"
  obtains db where
    "sweep_expired_reservations now t b s =
       (Inr (), s\<lparr>tx_db := db, tx_committed := (if b then db else tx_committed s)\<rparr>)"
    and "moves c (tx_db s) db" and "hd_id ` set (cb_holds db) = hd_id ` set (cb_holds (tx_db s))"
    and "active_holds t (tx_db s) = [] \<Longrightarrow> db = tx_db s" and "credit_ok db"
    and "\<And>k. \<not> internal_key k \<Longrightarrow> k \<in> ledger_keys db \<Longrightarrow> k \<in> ledger_keys (tx_db s)"
    and "map_option cw_period_end (get_wallet t db) = map_option cw_period_end (get_wallet t (tx_db s))"
proof -
  let ?hs = "list_expired_active_reservations now (tx_db s)"
  have "distinct (map hd_id ?hs)"
    using assms by (auto simp: list_expired_active_reservations_def sql_select_def credit_ok_def pk_def
        intro: distinct_map_filter)
  moreover have "h \<in> set (cb_holds (tx_db s)) \<and> hd_status h = HS_ACTIVE" if "h \<in> set ?hs" for h
    using that by (auto simp: list_expired_active_reservations_def sql_select_def)
  ultimately obtain db where db: "sweep_each now t ?hs s = (Inr (), s\<lparr>tx_db := db\<rparr>)" "moves c (tx_db s) db"
    "hd_id ` set (cb_holds db) = hd_id ` set (cb_holds (tx_db s))"
    "active_holds t (tx_db s) = [] \<longrightarrow> db = tx_db s"
    "\<forall>k. \<not> internal_key k \<longrightarrow> k \<in> ledger_keys db \<longrightarrow> k \<in> ledger_keys (tx_db s)"
    "map_option cw_period_end (get_wallet t db) = map_option cw_period_end (get_wallet t (tx_db s))"
    using sweep_moves [OF assms] by blast
  moreover have "sweep_expired_reservations now t b s =
       (Inr (), s\<lparr>tx_db := db, tx_committed := (if b then db else tx_committed s)\<rparr>)"
    using db(1) by (simp add: sweep_expired_reservations_def ebind_def credit_commit_def)
  ultimately show ?thesis using that moves_keep_ok [OF db(2) assms] by blast
qed


lemma release_run_moves:
  assumes "credit_ok (tx_db s)" and "get_wallet t (tx_db s) = Some w" and "h \<in> set (cb_holds (tx_db s))"
    and "hd_tenant_id h = t" and "hd_status h = HS_ACTIVE"
  shows "\<exists>db. store_settlement (settle_release now reason w h) s = (Inr (), s\<lparr>tx_db := db\<rparr>) \<and>
    credit_move c (tx_db s) db"
proof -
  obtain w' h' e where r: "settle_release now reason w h = (w', h', e)" by (metis prod_cases3)
  have "h'\<lparr>hd_status := HS_RELEASED\<rparr> = h'" using r by (auto simp: settle_release_def Let_def)
  with release_run(1,2) [OF assms _ r, of HS_RELEASED] r show ?thesis by auto
qed

lemma consume_run_moves:
  assumes "credit_ok (tx_db s)" and "get_wallet t (tx_db s) = Some w" and "h \<in> set (cb_holds (tx_db s))"
    and "hd_tenant_id h = t" and "hd_status h = HS_ACTIVE"
  shows "store_settlement (settle_consumption now w h) s =
      (Inl (DuplicateCreditOperationError (consume_key t (hd_recovery_plan_id h))), s\<lparr>tx_db := tx_committed s\<rparr>) \<or>
    (\<exists>db. store_settlement (settle_consumption now w h) s = (Inr (), s\<lparr>tx_db := db\<rparr>) \<and>
      credit_move c (tx_db s) db)"
proof -
  have wt: "cw_tenant_id w = t" using get_wallet_in [OF assms(2)] by simp
  obtain w' h' e where r: "settle_consumption now w h = (w', h', e)" by (metis prod_cases3)
  have parts: "w' = w\<lparr>cw_consumed := cw_consumed w + 1, cw_reserved := max (cw_reserved w - 1) 0, cw_updated_at := now\<rparr>"
    "h' = h\<lparr>hd_status := HS_CONSUMED, hd_settled_at := Some now\<rparr>"
    "e = ledger_entry now w' LK_CONSUMPTION 0
       (''recovery plan '' @ hd_recovery_plan_id h @ '' completed and verified'')
       (consume_key t (hd_recovery_plan_id h)) None (Some (hd_recovery_plan_id h))"
    using r wt by (auto simp: settle_consumption_def Let_def)
  have e: "le_idempotency_key e = consume_key t (hd_recovery_plan_id h) \<and> le_tenant_id e = t \<and>
      le_recovery_plan_id e = Some (hd_recovery_plan_id h)"
    using wt by (simp add: parts(1,3))
  have run: "store_settlement (w', h', e) s =
      (if le_idempotency_key e \<in> ledger_keys (tx_db s)
       then (Inl (DuplicateCreditOperationError (le_idempotency_key e)), s\<lparr>tx_db := tx_committed s\<rparr>)
       else (Inr (), s\<lparr>tx_db := settled_db w' h' e (tx_db s)\<rparr>))"
    by (rule settles(1) [OF assms parts(1,2) _ disjI2 [OF e]]) simp
  show ?thesis
  proof (cases "consume_key t (hd_recovery_plan_id h) \<in> ledger_keys (tx_db s)")
    case True
    then show ?thesis using run e by (simp add: r)
  next
    case False
    have "credit_move c (tx_db s) (settled_db w' h' e (tx_db s))"
      unfolding parts(2,3) by (rule consume [OF assms(2-5) False parts(1)])
    then show ?thesis using run e False by (auto simp: r)
  qed
qed

lemma active_hold_of:
  assumes "get_reservation i db = Some h"
  shows "h \<in> set (cb_holds db) \<and> hd_id h = i"
  using assms by (auto simp: get_reservation_def sql_select_def filter_eq_Cons_iff elim!: sql_first.elims)

text \<open>A hold names the reservation it was given for.\<close>

definition hold_of :: "credit_hold \<Rightarrow> credit_db \<Rightarrow> bool" where
  "hold_of hold db \<longleftrightarrow>
     (case get_reservation (hl_reservation_id hold) db of
        None \<Rightarrow> True
      | Some h \<Rightarrow> hd_tenant_id h = hl_tenant_id hold \<and> hd_recovery_plan_id h = hl_recovery_plan_id hold)"

lemma commit_answer [simp]: "ebind credit_commit (\<lambda>_. eret x) s = (Inr x, s\<lparr>tx_committed := tx_db s\<rparr>)"
  by (simp add: ebind_def credit_commit_def)

lemma release_after_duplicate_moves:
  assumes "credit_ok (tx_db s)" and "settled s" and "hold_of hold (tx_db s)"
  shows "\<exists>db. release_after_duplicate now hold s = (Inr ''already_billed'', \<lparr>tx_db = db, tx_committed = db\<rparr>) \<and>
    moves c (tx_db s) db"
proof -
  have s: "s = \<lparr>tx_db = tx_db s, tx_committed = tx_db s\<rparr>" using assms(2) by (simp add: settled_def)
  show ?thesis
  proof (cases "get_wallet (hl_tenant_id hold) (tx_db s)")
    case None
    then show ?thesis using s by (auto simp: release_after_duplicate_def)
  next
    case w: (Some w)
    show ?thesis
    proof (cases "get_reservation (hl_reservation_id hold) (tx_db s)")
      case None
      then show ?thesis using s w by (auto simp: release_after_duplicate_def)
    next
      case h: (Some h)
      show ?thesis
      proof (cases "hd_status h = HS_ACTIVE")
        case False
        then show ?thesis using s w h by (auto simp: release_after_duplicate_def)
      next
        case True
        have t: "hd_tenant_id h = hl_tenant_id hold" using assms(3) h by (simp add: hold_of_def)
        obtain w' h' e where r: "settle_release now (hold_released h) w h = (w', h', e)" by (metis prod_cases3)
        obtain db where "store_settlement (w', h', e) s = (Inr (), s\<lparr>tx_db := db\<rparr>)"
          and move: "credit_move c (tx_db s) db"
          using release_run_moves [OF assms(1) w _ t True, of now "hold_released h" c] active_hold_of [OF h] r by auto
        then obtain s1 s2 where "save_wallet w' s = (Inr (), s1)" "save_reservation h' s1 = (Inr (), s2)"
          "add_ledger_entry e s2 = (Inr (), s\<lparr>tx_db := db\<rparr>)"
          by (auto simp: store_settlement_def ebind_Inr)
        then have "release_after_duplicate now hold s =
            (Inr ''already_billed'', \<lparr>tx_db = db, tx_committed = db\<rparr>)"
          using w h True r s by (simp add: release_after_duplicate_def ebind_def credit_commit_def)
        then show ?thesis using move by blast
      qed
    qed
  qed
qed


lemma finalize_moves:
  assumes "credit_ok (tx_db s)" and "settled s" and "hold_of hold (tx_db s)"
  shows "\<exists>r db. finalize_hold now hold billable s = (Inr r, \<lparr>tx_db = db, tx_committed = db\<rparr>) \<and>
    moves c (tx_db s) db"
proof -
  have s: "s = \<lparr>tx_db = tx_db s, tx_committed = tx_db s\<rparr>" using assms(2) by (simp add: settled_def)
  have same: "s\<lparr>tx_committed := tx_db s\<rparr> = \<lparr>tx_db = tx_db s, tx_committed = tx_db s\<rparr>" by simp
  consider (billed) "hl_already_billed hold" | (noop) "finalize_hold now hold billable s = (Inr ''noop'', s\<lparr>tx_committed := tx_db s\<rparr>)"
    | (settle) w h where "\<not> hl_already_billed hold" "get_wallet (hl_tenant_id hold) (tx_db s) = Some w"
        "get_reservation (hl_reservation_id hold) (tx_db s) = Some h" "hd_status h = HS_ACTIVE"
    by (fastforce simp: finalize_hold_def Let_def split: option.splits if_splits)
  then show ?thesis
  proof cases
    case billed
    then show ?thesis using s by (auto simp: finalize_hold_def)
  next
    case noop
    then show ?thesis unfolding same by blast
  next
    case settle
    have t: "hd_tenant_id h = hl_tenant_id hold" using assms(3) settle(3) by (simp add: hold_of_def)
    have h: "h \<in> set (cb_holds (tx_db s))" using active_hold_of [OF settle(3)] by simp
    let ?charge = "billable \<and> \<not> was_plan_consumed (hl_tenant_id hold) (hl_recovery_plan_id hold) (tx_db s)"
    let ?settlement = "if ?charge then settle_consumption now w h else settle_release now (hold_released h) w h"
    have "(\<exists>k. store_settlement ?settlement s = (Inl (DuplicateCreditOperationError k), s\<lparr>tx_db := tx_committed s\<rparr>)) \<or>
        (\<exists>db. store_settlement ?settlement s = (Inr (), s\<lparr>tx_db := db\<rparr>) \<and> credit_move c (tx_db s) db)"
      using consume_run_moves [OF assms(1) settle(2) h t settle(4), of now c]
        release_run_moves [OF assms(1) settle(2) h t settle(4), of now "hold_released h" c] by auto
    then show ?thesis
    proof (elim disjE exE conjE)
      fix k assume dup: "store_settlement ?settlement s =
          (Inl (DuplicateCreditOperationError k), s\<lparr>tx_db := tx_committed s\<rparr>)"
      have "s\<lparr>tx_db := tx_committed s\<rparr> = s" using assms(2) by (simp add: settled_def)
      then have "finalize_hold now hold billable s = release_after_duplicate now hold s"
        using settle dup by (simp add: finalize_hold_def Let_def ebind_def)
      then show ?thesis using release_after_duplicate_moves [OF assms, of now c] by auto
    next
      fix db assume run: "store_settlement ?settlement s = (Inr (), s\<lparr>tx_db := db\<rparr>)"
        and move: "credit_move c (tx_db s) db"
      have "finalize_hold now hold billable s =
          (Inr (if ?charge then ''consumed'' else ''released''), \<lparr>tx_db = db, tx_committed = db\<rparr>)"
        using settle run by (simp add: finalize_hold_def Let_def ebind_def credit_commit_def)
      then show ?thesis using move by blast
    qed
  qed
qed

lemma place_hold_moves:
  assumes "credit_ok (tx_db s)" and "get_wallet t (tx_db s) = Some w" and "available w \<ge> 1"
    and "i \<notin> hd_id ` set (cb_holds (tx_db s))"
  shows "\<exists>x db. place_hold now ttl i t p w s = (Inr x, \<lparr>tx_db = db, tx_committed = db\<rparr>) \<and>
    credit_move c (tx_db s) db"
proof -
  let ?h = "\<lparr>hd_id = i, hd_tenant_id = t, hd_recovery_plan_id = p, hd_status = HS_ACTIVE,
    hd_expires_at = now + ttl, hd_settled_at = None, hd_created_at = now\<rparr>"
  let ?w = "w\<lparr>cw_reserved := cw_reserved w + 1, cw_updated_at := now\<rparr>"
  let ?e = "ledger_entry now ?w LK_RESERVATION (- 1) ''hold placed before recovery execution'' (reserve_key i) None None"
  have "fits ?w (tx_db s)" using assms(2) get_wallet_in [OF assms(2)] by (simp add: fits_def)
  moreover have "hold_fits ?h (tx_db s)" using assms(4) by (auto simp: hold_fits_def list_all_iff image_iff)
  moreover have "reserve_key i \<notin> ledger_keys (tx_db s)" using assms(1,4) by (auto simp: credit_ok_def)
  ultimately have "store_settlement (?w, ?h, ?e) s = (Inr (), s\<lparr>tx_db := settled_db ?w ?h ?e (tx_db s)\<rparr>)"
    using store_put [OF assms(1), of ?w ?h ?e] by simp
  moreover have "credit_move c (tx_db s) (settled_db ?w ?h ?e (tx_db s))"
    using hold [OF assms(2,3), of ?h ?w now c "''hold placed before recovery execution''"] assms(4) by simp
  ultimately show ?thesis
    by (auto simp: place_hold_def Let_def ebind_def credit_commit_def intro!: exI [of _ "settled_db ?w ?h ?e (tx_db s)"])
qed

lemma reserve_moves:
  assumes "credit_ok (tx_db s)" and "settled s" and "i \<notin> hd_id ` set (cb_holds (tx_db s))"
  shows "\<exists>r db. reserve_for_execution now ttl i t p s = (r, \<lparr>tx_db = db, tx_committed = db\<rparr>) \<and>
    moves c (tx_db s) db"
proof -
  have same: "s\<lparr>tx_committed := tx_db s\<rparr> = \<lparr>tx_db = tx_db s, tx_committed = tx_db s\<rparr>" by simp
  consider (answer) x where "reserve_for_execution now ttl i t p s = (Inr x, s\<lparr>tx_committed := tx_db s\<rparr>)"
    | (go) w where "get_wallet t (tx_db s) = Some w" "cw_is_enforced w"
        "\<not> was_plan_consumed t p (tx_db s)" "get_active_reservation t p (tx_db s) = None"
    by (fastforce simp: reserve_for_execution_def Let_def split: option.splits if_splits)
  then show ?thesis
  proof cases
    case answer
    then show ?thesis unfolding same by blast
  next
    case go
    obtain db where sweep: "sweep_expired_reservations now t True s = (Inr (), s\<lparr>tx_db := db, tx_committed := db\<rparr>)"
      and db: "moves c (tx_db s) db" "hd_id ` set (cb_holds db) = hd_id ` set (cb_holds (tx_db s))" "credit_ok db"
      by (rule sweep_run [OF assms(1), of now t True c]) (auto intro: that)
    let ?s = "\<lparr>tx_db = db, tx_committed = db\<rparr>"
    have s1: "s\<lparr>tx_db := db, tx_committed := db\<rparr> = ?s" by simp
    consider (out) r where "reserve_for_execution now ttl i t p s = (r, ?s)"
      | (place) w1 where "get_wallet t db = Some w1" "available w1 \<ge> 1"
          "reserve_for_execution now ttl i t p s = ebind (place_hold now ttl i t p w1) (\<lambda>h. eret (Some h)) ?s"
    proof (cases "get_wallet t db")
      case None
      then have "reserve_for_execution now ttl i t p s = (Inr None, ?s)"
        using go sweep s1 by (simp add: reserve_for_execution_def Let_def ebind_def credit_commit_def)
      then show ?thesis using that(1) by blast
    next
      case w1: (Some w1)
      show ?thesis
      proof (cases "cw_is_enforced w1 \<and> available w1 \<ge> 1")
        case True
        then show ?thesis
          using that(2) [OF w1] go sweep s1 w1
          by (simp add: reserve_for_execution_def Let_def ebind_def credit_commit_def)
      next
        case False
        then have "snd (reserve_for_execution now ttl i t p s) = ?s"
          using go sweep s1 w1 by (auto simp: reserve_for_execution_def Let_def ebind_def credit_commit_def)
        then show ?thesis using that(1) by (metis prod.collapse)
      qed
    qed
    then show ?thesis
    proof cases
      case out
      then show ?thesis using db(1) by blast
    next
      case place
      obtain x db' where "place_hold now ttl i t p w1 ?s = (Inr x, \<lparr>tx_db = db', tx_committed = db'\<rparr>)"
        and move: "credit_move c db db'"
        using place_hold_moves [of ?s t w1 i now ttl p c] place(1,2) db(2,3) assms(3) by auto
      then have "reserve_for_execution now ttl i t p s = (Inr (Some x), \<lparr>tx_db = db', tx_committed = db'\<rparr>)"
        using place(3) by (simp add: ebind_def)
      then show ?thesis using rtranclp.rtrancl_into_rtrancl [OF db(1) move] by blast
    qed
  qed
qed


text \<open>Accounts are never closed.\<close>

lemma wallets_stay:
  assumes "moves c db db'" and "get_wallet t db = Some w"
  shows "get_wallet t db' \<noteq> None"
  using assms(1)
proof (induction rule: rtranclp_induct)
  case base
  then show ?case using assms(2) by simp
next
  case (step d d')
  from step(2,3) show ?case
    by (cases rule: credit_move.cases) (simp_all add: wallet_after_settlement wallet_after_booking)
qed

lemma save_booked:
  assumes "credit_ok (tx_db s)" and "fits w (tx_db s)"
  shows "save_wallet w s = (Inr (), s\<lparr>tx_db := booked_db w [] (tx_db s)\<rparr>)"
  using save_wallet_put [OF assms] by (simp add: booked_db_def)

lemma add_run:
  "le_idempotency_key e \<notin> ledger_keys (tx_db s) \<Longrightarrow>
     add_ledger_entry e s = (Inr (), s\<lparr>tx_db := tx_db s\<lparr>cb_ledger := cb_ledger (tx_db s) @ [e]\<rparr>\<rparr>)"
  by (simp add: add_ledger_entry_def sql_insert_def ledger_keys_def)

lemma put_put: "cw_tenant_id w' = cw_tenant_id w \<Longrightarrow> put_wallet w' (put_wallet w rows) = put_wallet w' rows"
proof -
  assume same: "cw_tenant_id w' = cw_tenant_id w"
  have "sql_update (\<lambda>r. cw_tenant_id r = cw_tenant_id w) (\<lambda>_. w')
      (sql_update (\<lambda>r. cw_tenant_id r = cw_tenant_id w) (\<lambda>_. w) rows) =
      sql_update (\<lambda>r. cw_tenant_id r = cw_tenant_id w) (\<lambda>_. w') rows"
    by (simp add: sql_update_def)
  moreover have "cw_tenant_id w \<in> cw_tenant_id ` set (sql_update (\<lambda>r. cw_tenant_id r = cw_tenant_id w) (\<lambda>_. w) rows)"
    if "cw_tenant_id w \<in> cw_tenant_id ` set rows"
  proof -
    have "map cw_tenant_id (sql_update (\<lambda>r. cw_tenant_id r = cw_tenant_id w) (\<lambda>_. w) rows) = map cw_tenant_id rows"
      by (simp add: sql_update_def)
    then show ?thesis using that by (metis set_map)
  qed
  moreover have "sql_update (\<lambda>r. cw_tenant_id r = cw_tenant_id w) (\<lambda>_. w') (rows @ [w]) = rows @ [w']"
    if "cw_tenant_id w \<notin> cw_tenant_id ` set rows"
    using that by (auto simp: sql_update_def image_iff intro!: map_idI)
  ultimately show ?thesis by (simp add: put_wallet_def same)
qed

lemma booked_booked:
  "cw_tenant_id w' = cw_tenant_id w \<Longrightarrow> booked_db w' es' (booked_db w es db) = booked_db w' (es @ es') db"
  by (simp add: booked_db_def put_put)

lemma booked_parts [simp]:
  "cb_ledger (booked_db w es db) = cb_ledger db @ es"
  "cb_holds (booked_db w es db) = cb_holds db"
  "ledger_keys (booked_db w es db) = ledger_keys db \<union> le_idempotency_key ` set es"
  by (auto simp: booked_db_def ledger_keys_def)

lemma book_entries [simp]: "(booked_db w es db)\<lparr>cb_ledger := cb_ledger db @ es'\<rparr> = booked_db w es' db"
  by (simp add: booked_db_def)

text \<open>No hold is active, and the key an expiry would use is free.\<close>

definition expire_key :: "(datetime \<Rightarrow> string) \<Rightarrow> credit_wallet \<Rightarrow> string" where
  "expire_key show_time w = ''expire:'' @ cw_tenant_id w @ '':'' @ show_time (cw_period_end w)"

definition quiet :: "(datetime \<Rightarrow> string) \<Rightarrow> string \<Rightarrow> credit_db \<Rightarrow> bool" where
  "quiet show_time t db \<longleftrightarrow>
     (case get_wallet t db of
        None \<Rightarrow> True
      | Some w \<Rightarrow> cw_reserved w = 0 \<and> expire_key show_time w \<notin> ledger_keys db)"

lemma expire_not_internal: "\<not> internal_key (expire_key show_time w)"
  by (simp add: internal_key_def expire_key_def reserve_key_def release_key_def)

lemma expired_cases:
  assumes "expire_remaining_locked show_time now reason w = (w', entry)"
  obtains (empty) "w' = w" "entry = None"
  | (lost) "w' = w\<lparr>cw_allocated := 0, cw_consumed := 0, cw_updated_at := now\<rparr>" "entry = None" "available w \<le> 0"
  | (entry) e where "w' = w\<lparr>cw_allocated := 0, cw_consumed := 0, cw_updated_at := now\<rparr>" "entry = Some e"
      "e = ledger_entry now w' LK_EXPIRY (- available w) reason (expire_key show_time w) (cw_subscription_id w) None"
  using assms unfolding expire_remaining_locked_def Let_def expire_key_def by (auto split: if_splits)

lemma quiet_sweep:
  assumes "credit_ok db" and "quiet show_time t db"
  shows "active_holds t db = []"
proof (cases "get_wallet t db")
  case None
  then show ?thesis using no_wallet_no_holds [OF assms(1)] by blast
next
  case (Some w)
  then show ?thesis using wallet_count [OF assms(1) Some] assms(2) by (simp add: quiet_def)
qed

lemma expire_moves:
  assumes "credit_ok (tx_db s)" and "settled s" and "c \<longrightarrow> quiet show_time t (tx_db s)"
  shows "\<exists>r db. expire_remaining show_time now t reason s = (Inr r, \<lparr>tx_db = db, tx_committed = db\<rparr>) \<and>
    moves c (tx_db s) db"
proof -
  have same: "s\<lparr>tx_committed := tx_db s\<rparr> = \<lparr>tx_db = tx_db s, tx_committed = tx_db s\<rparr>" by simp
  show ?thesis
  proof (cases "get_wallet t (tx_db s)")
    case None
    then have "expire_remaining show_time now t reason s = (Inr 0, s\<lparr>tx_committed := tx_db s\<rparr>)"
      by (simp add: expire_remaining_def)
    then show ?thesis unfolding same by blast
  next
    case (Some w0)
    obtain db where sweep: "sweep_expired_reservations now t False s = (Inr (), s\<lparr>tx_db := db\<rparr>)"
      and db: "moves c (tx_db s) db" "active_holds t (tx_db s) = [] \<Longrightarrow> db = tx_db s" "credit_ok db"
      by (rule sweep_run [OF assms(1), of now t False c]) (auto intro: that)
    define w where "w = (case get_wallet t db of None \<Rightarrow> w0 | Some w \<Rightarrow> w)"
    obtain w' entry where exp: "expire_remaining_locked show_time now reason w = (w', entry)" by (metis surj_pair)
    let ?s = "s\<lparr>tx_db := db\<rparr>"
    have run: "expire_remaining show_time now t reason s =
        (case entry of None \<Rightarrow> ebind credit_commit (\<lambda>_. eret 0) ?s
         | Some e \<Rightarrow> ebind (save_wallet w') (\<lambda>_. ebind (add_if_new (Some e)) (\<lambda>_.
                       ebind credit_commit (\<lambda>_. eret (- le_delta e)))) ?s)"
      using Some sweep exp by (simp add: expire_remaining_def ebind_def [of "sweep_expired_reservations now t False"]
          w_def Let_def split: option.splits)
    show ?thesis
    proof (cases entry)
      case None
      then have "expire_remaining show_time now t reason s = (Inr 0, \<lparr>tx_db = db, tx_committed = db\<rparr>)"
        using run by simp
      then show ?thesis using db(1) by blast
    next
      case entry: (Some e)
      then have e: "e = ledger_entry now w' LK_EXPIRY (- available w) reason (expire_key show_time w) (cw_subscription_id w) None"
        and w': "w' = w\<lparr>cw_allocated := 0, cw_consumed := 0, cw_updated_at := now\<rparr>"
        using expired_cases [OF exp] by auto
      have "get_wallet t db \<noteq> None"
        using Some db(1) wallets_stay by blast
      then have w: "get_wallet t db = Some w" by (auto simp: w_def)
      have fits: "fits w' db" using w get_wallet_in [OF w] by (simp add: fits_def w')
      let ?es = "if le_idempotency_key e \<in> ledger_keys db then [] else [e]"
      have "expire_remaining show_time now t reason s =
          (Inr (- le_delta e), \<lparr>tx_db = booked_db w' ?es db, tx_committed = booked_db w' ?es db\<rparr>)"
        using run entry save_booked [of ?s w'] fits db(3)
        by (auto simp: ebind_def add_if_new_def key_lookup add_run credit_commit_def)
      moreover have "credit_move c db (booked_db w' ?es db)"
      proof (rule expire [OF w w'])
        show "c \<longrightarrow> cw_reserved w = 0 \<and> (?es = [] \<longrightarrow> available w \<le> 0)"
          using assms(3) quiet_sweep [OF assms(1)] db(2) w by (auto simp: quiet_def e)
      qed (use expire_not_internal in \<open>auto simp: e\<close>)
      ultimately show ?thesis using rtranclp.rtrancl_into_rtrancl [OF db(1)] by blast
    qed
  qed
qed


lemma deactivate_moves:
  assumes "credit_ok (tx_db s)" and "settled s" and "c \<longrightarrow> quiet show_time t (tx_db s)"
  shows "\<exists>r db. deactivate show_time now t reason s = (Inr r, \<lparr>tx_db = db, tx_committed = db\<rparr>) \<and>
    moves c (tx_db s) db"
proof -
  obtain r db where run: "expire_remaining show_time now t reason s = (Inr r, \<lparr>tx_db = db, tx_committed = db\<rparr>)"
    and db: "moves c (tx_db s) db"
    using expire_moves [OF assms] by blast
  note ok = moves_keep_ok [OF db assms(1)]
  consider (same) "deactivate show_time now t reason s = (Inr r, \<lparr>tx_db = db, tx_committed = db\<rparr>)"
    | (off) w where "get_wallet t db = Some w" "cw_is_enforced w"
    using run by (fastforce simp: deactivate_def ebind_def split: option.splits)
  then show ?thesis
  proof cases
    case same
    then show ?thesis using db by blast
  next
    case off
    let ?w = "w\<lparr>cw_is_enforced := False, cw_updated_at := now\<rparr>"
    have t: "cw_tenant_id w = t" using get_wallet_in [OF off(1)] by simp
    have fits: "fits ?w db" using off(1) t by (simp add: fits_def)
    have "credit_move c db (booked_db ?w [] db)"
      by (rule relabel [where w = w]) (use off(1) t fits in simp_all)
    moreover have "deactivate show_time now t reason s =
        (Inr r, \<lparr>tx_db = booked_db ?w [] db, tx_committed = booked_db ?w [] db\<rparr>)"
      using run off save_booked [of "\<lparr>tx_db = db, tx_committed = db\<rparr>" ?w] ok fits
      by (simp add: deactivate_def ebind_def credit_commit_def)
    ultimately show ?thesis using rtranclp.rtrancl_into_rtrancl [OF db] by blast
  qed
qed

lemma attach_moves:
  assumes "credit_ok (tx_db s)" and "i \<notin> cw_id ` set (cb_wallets (tx_db s))"
  shows "\<exists>db. attach_subscription now i t sub prov tier nam s = (Inr (), \<lparr>tx_db = db, tx_committed = db\<rparr>) \<and>
    moves c (tx_db s) db"
proof -
  define w where "w = (case get_wallet t (tx_db s) of
      None \<Rightarrow> \<lparr>cw_id = i, cw_tenant_id = t, cw_allocated = 0, cw_consumed = 0,
                cw_reserved = 0, cw_period_start = now, cw_period_end = now,
                cw_is_enforced = False, cw_plan_tier = tier, cw_plan_name = nam,
                cw_subscription_id = sub, cw_provider_subscription_id = prov,
                cw_created_at = now, cw_updated_at = now\<rparr>
    | Some w \<Rightarrow> w\<lparr>cw_plan_tier := either tier (cw_plan_tier w), cw_plan_name := either nam (cw_plan_name w),
                cw_subscription_id := either_id sub (cw_subscription_id w),
                cw_provider_subscription_id := (if truthy prov then prov else cw_provider_subscription_id w),
                cw_updated_at := now\<rparr>)"
  have "fits w (tx_db s) \<and> credit_move c (tx_db s) (booked_db w [] (tx_db s))"
  proof (cases "get_wallet t (tx_db s)")
    case None
    then show ?thesis using assms(2) open_account [of w "tx_db s" c] by (simp add: w_def fits_def)
  next
    case (Some w0)
    then show ?thesis
      using get_wallet_in [OF Some] relabel [of w "tx_db s" w0 c] by (simp add: w_def fits_def)
  qed
  moreover from this have "attach_subscription now i t sub prov tier nam s =
      (Inr (), \<lparr>tx_db = booked_db w [] (tx_db s), tx_committed = booked_db w [] (tx_db s)\<rparr>)"
    using save_booked [OF assms(1), of w]
    by (simp add: attach_subscription_def Let_def w_def [symmetric] ebind_def credit_commit_def)
  ultimately show ?thesis by blast
qed

lemma upgrade_moves:
  assumes "credit_ok (tx_db s)" and "settled s" and "\<not> internal_key key"
  shows "\<exists>r db. apply_plan_upgrade now t n sub key reason s = (Inr r, \<lparr>tx_db = db, tx_committed = db\<rparr>) \<and>
    moves c (tx_db s) db"
proof -
  have s: "s = \<lparr>tx_db = tx_db s, tx_committed = tx_db s\<rparr>" using assms(2) by (simp add: settled_def)
  consider (same) r where "apply_plan_upgrade now t n sub key reason s = (Inr r, s)"
    | (commit) r where "apply_plan_upgrade now t n sub key reason s = (Inr r, s\<lparr>tx_committed := tx_db s\<rparr>)"
    | (go) w where "get_wallet t (tx_db s) = Some w" "key \<notin> ledger_keys (tx_db s)" "0 < n"
        "cw_is_enforced w" "0 < n - cw_allocated w"
    by (fastforce simp: apply_plan_upgrade_def Let_def key_lookup split: option.splits if_splits)
  then show ?thesis
  proof cases
    case same
    then show ?thesis using s by auto
  next
    case commit
    have "s\<lparr>tx_committed := tx_db s\<rparr> = \<lparr>tx_db = tx_db s, tx_committed = tx_db s\<rparr>" by simp
    then show ?thesis using commit by (metis rtranclp.rtrancl_refl)
  next
    case go
    let ?w = "w\<lparr>cw_allocated := cw_allocated w + (n - cw_allocated w),
                cw_subscription_id := either_id (cw_subscription_id w) sub, cw_updated_at := now\<rparr>"
    let ?e = "ledger_entry now ?w LK_ADJUSTMENT (n - cw_allocated w) reason key sub None"
    let ?db = "booked_db ?w [?e] (tx_db s)"
    have t: "cw_tenant_id w = t" using get_wallet_in [OF go(1)] by simp
    have fits: "fits ?w (tx_db s)" using go(1) t by (simp add: fits_def)
    have "credit_move c (tx_db s) ?db"
      by (rule grant [where w = w]) (use go t fits assms(3) in simp_all)
    moreover have "apply_plan_upgrade now t n sub key reason s =
        (Inr (n - cw_allocated w), \<lparr>tx_db = ?db, tx_committed = ?db\<rparr>)"
      using go save_booked [OF assms(1) fits] add_run [of ?e "s\<lparr>tx_db := booked_db ?w [] (tx_db s)\<rparr>"]
      by (simp add: apply_plan_upgrade_def Let_def ebind_def key_lookup credit_commit_def)
    ultimately show ?thesis by blast
  qed
qed


text \<open>Whether an allocation begins a new period for the wallet the tenant has.\<close>

definition rolls_over :: "datetime \<Rightarrow> allocation \<Rightarrow> string \<Rightarrow> credit_db \<Rightarrow> bool" where
  "rolls_over now a t db \<longleftrightarrow>
     (case get_wallet t db of
        None \<Rightarrow> False | Some w \<Rightarrow> cw_period_end w \<le> now \<or> al_period_start a \<ge> cw_period_end w)"

definition new_entries :: "credit_entry option \<Rightarrow> credit_db \<Rightarrow> credit_entry list" where
  "new_entries entry db =
     (case entry of None \<Rightarrow> [] | Some e \<Rightarrow> if le_idempotency_key e \<in> ledger_keys db then [] else [e])"

lemma add_if_new_run:
  "add_if_new entry s =
     (Inr (), s\<lparr>tx_db := tx_db s\<lparr>cb_ledger := cb_ledger (tx_db s) @ new_entries entry (tx_db s)\<rparr>\<rparr>)"
  by (cases entry) (simp_all add: add_if_new_def new_entries_def key_lookup add_run)

lemma relabel_moves:
  assumes "get_wallet t db = Some w" and "cw_id w' = cw_id w" and "cw_created_at w' = cw_created_at w"
    and "cw_tenant_id w' = t" and "cw_allocated w' = cw_allocated w" and "cw_consumed w' = cw_consumed w"
    and "cw_reserved w' = cw_reserved w"
  shows "credit_move c db (booked_db w' [] db)"
  by (rule relabel [where w = w]) (use assms in \<open>simp_all add: fits_def\<close>)

lemma expired_moves:
  assumes "expire_remaining_locked show_time now reason w = (w1, entry)" and "get_wallet t db = Some w"
    and "c \<longrightarrow> cw_reserved w = 0 \<and> expire_key show_time w \<notin> ledger_keys db"
  shows "moves c db (booked_db w1 (new_entries entry db) db) \<or> w1 = w \<and> entry = None"
    and "cw_id w1 = cw_id w" and "cw_created_at w1 = cw_created_at w" and "cw_tenant_id w1 = t"
    and "entry = Some e \<Longrightarrow> \<exists>w. le_idempotency_key e = expire_key show_time w"
proof -
  have "credit_move c db (booked_db w1 (new_entries entry db) db) \<or> w1 = w \<and> entry = None"
    using assms(1)
  proof (cases rule: expired_cases)
    case empty
    then show ?thesis by simp
  next
    case lost
    then have "credit_move c db (booked_db w1 [] db)"
      by (intro expire [OF assms(2)]) (use assms(3) in simp_all)
    then show ?thesis by (simp add: lost(2) new_entries_def)
  next
    case (entry e)
    then have "credit_move c db (booked_db w1 (new_entries (Some e) db) db)"
      by (intro expire [OF assms(2)]) (use assms(3) expire_not_internal in \<open>auto simp: new_entries_def\<close>)
    then show ?thesis by (simp add: entry(2))
  qed
  then show "moves c db (booked_db w1 (new_entries entry db) db) \<or> w1 = w \<and> entry = None" by blast
  have "cw_id w1 = cw_id w \<and> cw_created_at w1 = cw_created_at w \<and> cw_tenant_id w1 = cw_tenant_id w"
    using assms(1) by (cases rule: expired_cases) simp_all
  then show "cw_id w1 = cw_id w" "cw_created_at w1 = cw_created_at w" "cw_tenant_id w1 = t"
    using get_wallet_in [OF assms(2)] by simp_all
  show "\<exists>w. le_idempotency_key e = expire_key show_time w" if "entry = Some e"
    using assms(1)
  proof (cases rule: expired_cases)
    case (entry e')
    then have "le_idempotency_key e = expire_key show_time w" using that by simp
    then show ?thesis by blast
  qed (use that in simp_all)
qed

lemma period_moves:
  assumes "credit_ok (tx_db s)" and "i \<notin> cw_id ` set (cb_wallets (tx_db s))"
    and "c \<and> rolls_over now a t (tx_db s) \<longrightarrow> quiet show_time t (tx_db s)"
  obtains w0 entry db where
    "wallet_for_period show_time now i t a s = (Inr (w0, entry), s\<lparr>tx_db := db\<rparr>)"
    and "credit_ok db" and "fits w0 db" and "cw_tenant_id w0 = t"
    and "moves c (tx_db s) (booked_db w0 (new_entries entry db) db)"
    and "\<And>k. \<not> internal_key k \<Longrightarrow> k \<in> ledger_keys db \<Longrightarrow> k \<in> ledger_keys (tx_db s)"
    and "\<And>e. entry = Some e \<Longrightarrow> \<exists>w. le_idempotency_key e = expire_key show_time w"
proof (cases "get_wallet t (tx_db s)")
  case None
  let ?w = "\<lparr>cw_id = i, cw_tenant_id = t, cw_allocated = 0, cw_consumed = 0,
     cw_reserved = 0, cw_period_start = al_period_start a, cw_period_end = al_period_end a,
     cw_is_enforced = True, cw_plan_tier = al_plan_tier a, cw_plan_name = al_plan_name a,
     cw_subscription_id = al_subscription_id a, cw_provider_subscription_id = None,
     cw_created_at = now, cw_updated_at = now\<rparr>"
  have "moves c (tx_db s) (booked_db ?w (new_entries None (tx_db s)) (tx_db s))"
    using open_account [of ?w "tx_db s" c] None assms(2) by (auto simp: new_entries_def)
  then show ?thesis
    using that [of ?w None "tx_db s"] None assms(1,2) by (simp add: wallet_for_period_def fits_def)
next
  case w0: (Some w0)
  obtain db where sweep: "sweep_expired_reservations now t False s = (Inr (), s\<lparr>tx_db := db\<rparr>)"
    and db: "moves c (tx_db s) db" "active_holds t (tx_db s) = [] \<Longrightarrow> db = tx_db s" "credit_ok db"
      "\<And>k. \<not> internal_key k \<Longrightarrow> k \<in> ledger_keys db \<Longrightarrow> k \<in> ledger_keys (tx_db s)"
      "map_option cw_period_end (get_wallet t db) = map_option cw_period_end (get_wallet t (tx_db s))"
    by (rule sweep_run [OF assms(1), of now t False c]) (auto intro: that)
  obtain w where w: "get_wallet t db = Some w" using wallets_stay [OF db(1) w0] by auto
  have t: "cw_tenant_id w = t" using get_wallet_in [OF w] by simp
  let ?rolls = "cw_period_end w \<le> now \<or> al_period_start a \<ge> cw_period_end w"
  obtain w1 entry where exp: "roll_over show_time now a w = (w1, entry)" by (metis surj_pair)
  let ?w = "w1\<lparr>cw_period_start := al_period_start a, cw_period_end := al_period_end a,
      cw_is_enforced := True, cw_plan_tier := either (al_plan_tier a) (cw_plan_tier w1),
      cw_plan_name := either (al_plan_name a) (cw_plan_name w1),
      cw_subscription_id := either_id (al_subscription_id a) (cw_subscription_id w1), cw_updated_at := now\<rparr>"
  have run: "wallet_for_period show_time now i t a s = (Inr (?w, entry), s\<lparr>tx_db := db\<rparr>)"
    using w0 sweep w exp by (simp add: wallet_for_period_def ebind_def Let_def)
  have "(moves c db (booked_db w1 (new_entries entry db) db) \<or> w1 = w \<and> entry = None) \<and>
      cw_id w1 = cw_id w \<and> cw_created_at w1 = cw_created_at w \<and> cw_tenant_id w1 = t \<and>
      (\<forall>e. entry = Some e \<longrightarrow> (\<exists>w. le_idempotency_key e = expire_key show_time w))"
  proof (cases ?rolls)
    case False
    then show ?thesis using exp t by (simp add: roll_over_def)
  next
    case True
    have clean: "c \<longrightarrow> cw_reserved w = 0 \<and> expire_key show_time w \<notin> ledger_keys db"
    proof
      assume c
      have "cw_period_end w = cw_period_end w0" using db(5) w w0 by simp
      with \<open>c\<close> True w0 have quiet: "quiet show_time t (tx_db s)" using assms(3) by (simp add: rolls_over_def)
      with db(2) quiet_sweep [OF assms(1)] have "db = tx_db s" by blast
      with quiet w show "cw_reserved w = 0 \<and> expire_key show_time w \<notin> ledger_keys db" by (simp add: quiet_def)
    qed
    have "expire_remaining_locked show_time now ''unused credits expired at end of paid period'' w = (w1, entry)"
      using exp True by (simp add: roll_over_def)
    from expired_moves [OF this w clean] show ?thesis by blast
  qed
  then have w1: "moves c db (booked_db w1 (new_entries entry db) db) \<or> w1 = w \<and> entry = None"
    "cw_id w1 = cw_id w" "cw_created_at w1 = cw_created_at w" "cw_tenant_id w1 = t"
    "\<And>e. entry = Some e \<Longrightarrow> \<exists>w. le_idempotency_key e = expire_key show_time w" by auto
  have "moves c db (booked_db ?w (new_entries entry db) db)"
    using w1(1)
  proof
    assume 1: "moves c db (booked_db w1 (new_entries entry db) db)"
    have "credit_move c (booked_db w1 (new_entries entry db) db)
        (booked_db ?w [] (booked_db w1 (new_entries entry db) db))"
      by (rule relabel_moves [where t = t and w = w1]) (simp_all add: wallet_after_booking w1(4))
    then show ?thesis
      using rtranclp.rtrancl_into_rtrancl [OF 1] booked_booked [of ?w w1 "[]"] by simp
  next
    assume "w1 = w \<and> entry = None"
    then show ?thesis using relabel_moves [OF w, of ?w c] t by (auto simp: new_entries_def)
  qed
  then have "moves c (tx_db s) (booked_db ?w (new_entries entry db) db)"
    using db(1) by (rule rtranclp_trans [rotated])
  moreover have "fits ?w db" using w w1(2-4) t by (simp add: fits_def)
  ultimately show ?thesis using that [OF run db(3)] w1(4,5) db(4) by simp
qed


text \<open>The keys that the handler of payments (\<open>handle_webhook.py\<close>) uses.\<close>

definition payment_key :: "string \<Rightarrow> bool" where
  "payment_key key \<longleftrightarrow> take 6 key = ''alloc:'' \<or> take 7 key = ''adjust:''"

lemma payment_not_internal: "payment_key k \<Longrightarrow> \<not> internal_key k"
  by (auto simp: payment_key_def internal_key_def reserve_key_def release_key_def)

lemma payment_not_expire: "payment_key (expire_key show_time w) \<Longrightarrow> False"
  by (auto simp: payment_key_def expire_key_def)

lemma allocate_moves:
  assumes "credit_ok (tx_db s)" and "settled s" and "i \<notin> cw_id ` set (cb_wallets (tx_db s))"
    and "c \<and> rolls_over now a t (tx_db s) \<longrightarrow> quiet show_time t (tx_db s)" and key: "payment_key (al_idempotency_key a)"
  shows "\<exists>r db. allocate show_time now i t a s = (Inr r, \<lparr>tx_db = db, tx_committed = db\<rparr>) \<and> moves c (tx_db s) db"
proof (cases "al_amount a \<le> 0 \<or> al_idempotency_key a \<in> ledger_keys (tx_db s)")
  case True
  have "s = \<lparr>tx_db = tx_db s, tx_committed = tx_db s\<rparr>" using assms(2) by (simp add: settled_def)
  moreover have "allocate show_time now i t a s = (Inr None, s)" using True by (auto simp: allocate_def key_lookup)
  ultimately show ?thesis by (metis rtranclp.rtrancl_refl)
next
  case False
  obtain w0 entry db where period: "wallet_for_period show_time now i t a s = (Inr (w0, entry), s\<lparr>tx_db := db\<rparr>)"
    and db: "credit_ok db" "fits w0 db" "cw_tenant_id w0 = t"
      "moves c (tx_db s) (booked_db w0 (new_entries entry db) db)"
      "\<And>k. \<not> internal_key k \<Longrightarrow> k \<in> ledger_keys db \<Longrightarrow> k \<in> ledger_keys (tx_db s)"
      "\<And>e. entry = Some e \<Longrightarrow> \<exists>w. le_idempotency_key e = expire_key show_time w"
    by (rule period_moves [OF assms(1,3,4)], rule that)
  let ?w = "w0\<lparr>cw_allocated := cw_allocated w0 + al_amount a, cw_updated_at := now\<rparr>"
  let ?e = "ledger_entry now ?w LK_ALLOCATION (al_amount a) (al_reason a) (al_idempotency_key a) (al_subscription_id a) None"
  let ?es = "new_entries entry db" and ?mid = "booked_db w0 (new_entries entry db) db"
  have "al_idempotency_key a \<notin> le_idempotency_key ` set ?es"
  proof
    assume "al_idempotency_key a \<in> le_idempotency_key ` set ?es"
    then obtain e where "entry = Some e" "le_idempotency_key e = al_idempotency_key a"
      by (cases entry) (auto simp: new_entries_def split: if_splits)
    then obtain w where "al_idempotency_key a = expire_key show_time w" using db(6) by metis
    then show False using payment_not_expire key by simp
  qed
  moreover have "al_idempotency_key a \<notin> ledger_keys db" using db(5) False payment_not_internal [OF key] by blast
  ultimately have new: "al_idempotency_key a \<notin> ledger_keys ?mid" by simp
  have fits: "fits ?w db" using db(2) by (simp add: fits_def split: option.splits)
  have "credit_move c ?mid (booked_db ?w [?e] ?mid)"
    by (rule grant [where w = w0])
      (use new False payment_not_internal [OF key] in \<open>auto simp: wallet_after_booking fits_def split: option.splits\<close>)
  moreover have "booked_db ?w [?e] ?mid = booked_db ?w (?es @ [?e]) db" by (simp add: booked_booked)
  ultimately have move: "moves c (tx_db s) (booked_db ?w (?es @ [?e]) db)"
    using rtranclp.rtrancl_into_rtrancl [OF db(4)] by simp
  have save: "save_wallet ?w (s\<lparr>tx_db := db\<rparr>) = (Inr (), s\<lparr>tx_db := booked_db ?w [] db\<rparr>)"
    using save_booked [of "s\<lparr>tx_db := db\<rparr>" ?w] db(1) fits by simp
  have same: "new_entries entry (booked_db ?w [] db) = ?es" by (cases entry) (simp_all add: new_entries_def)
  have add: "add_ledger_entry ?e (s\<lparr>tx_db := booked_db ?w ?es db\<rparr>) =
      (Inr (), s\<lparr>tx_db := booked_db ?w (?es @ [?e]) db\<rparr>)"
    using add_run [of ?e "s\<lparr>tx_db := booked_db ?w ?es db\<rparr>"] new by simp
  have "allocate show_time now i t a s =
      (Inr (Some ?e), \<lparr>tx_db = booked_db ?w (?es @ [?e]) db, tx_committed = booked_db ?w (?es @ [?e]) db\<rparr>)"
    using False period save add
    by (simp add: allocate_def key_lookup ebind_def Let_def add_if_new_run same credit_commit_def)
  then show ?thesis using move by blast
qed


section \<open>Runs\<close>

datatype credit_call =
    Allocate datetime string string allocation
  | Attach datetime string string "string option" "string option" string string
  | Reserve datetime string string string
  | Finalize datetime credit_hold bool
  | Expire_remaining datetime string string
  | Deactivate datetime string string
  | Upgrade datetime string int "string option" string string

fun credit_exec :: "(datetime \<Rightarrow> string) \<Rightarrow> timedelta \<Rightarrow> credit_call \<Rightarrow> credit_session \<Rightarrow> credit_session" where
  "credit_exec show_time ttl (Allocate now i t a) s = snd (allocate show_time now i t a s)"
| "credit_exec show_time ttl (Attach now i t sub prov tier nam) s =
     snd (attach_subscription now i t sub prov tier nam s)"
| "credit_exec show_time ttl (Reserve now i t p) s = snd (reserve_for_execution now ttl i t p s)"
| "credit_exec show_time ttl (Finalize now hold billable) s = snd (finalize_hold now hold billable s)"
| "credit_exec show_time ttl (Expire_remaining now t reason) s = snd (expire_remaining show_time now t reason s)"
| "credit_exec show_time ttl (Deactivate now t reason) s = snd (deactivate show_time now t reason s)"
| "credit_exec show_time ttl (Upgrade now t n sub key reason) s =
     snd (apply_plan_upgrade now t n sub key reason s)"

text \<open>Identifiers are new, payments use their own keys, and a hold is the one that was given.\<close>

fun proper :: "credit_call \<Rightarrow> credit_db \<Rightarrow> bool" where
  "proper (Allocate now i t a) db \<longleftrightarrow>
     i \<notin> cw_id ` set (cb_wallets db) \<and> payment_key (al_idempotency_key a)"
| "proper (Attach now i t sub prov tier nam) db \<longleftrightarrow> i \<notin> cw_id ` set (cb_wallets db)"
| "proper (Reserve now i t p) db \<longleftrightarrow> i \<notin> hd_id ` set (cb_holds db)"
| "proper (Finalize now hold billable) db \<longleftrightarrow> hold_of hold db"
| "proper (Upgrade now t n sub key reason) db \<longleftrightarrow> payment_key key"
| "proper _ db \<longleftrightarrow> True"

text \<open>No credits expire while a hold is active or twice in one period.\<close>

fun undisturbed :: "(datetime \<Rightarrow> string) \<Rightarrow> credit_call \<Rightarrow> credit_db \<Rightarrow> bool" where
  "undisturbed show_time (Allocate now i t a) db \<longleftrightarrow> (rolls_over now a t db \<longrightarrow> quiet show_time t db)"
| "undisturbed show_time (Expire_remaining now t reason) db \<longleftrightarrow> quiet show_time t db"
| "undisturbed show_time (Deactivate now t reason) db \<longleftrightarrow> quiet show_time t db"
| "undisturbed show_time _ db \<longleftrightarrow> True"

definition fresh_session :: "credit_db \<Rightarrow> credit_session" where
  "fresh_session db = \<lparr>tx_db = db, tx_committed = db\<rparr>"

lemma fresh_session_simps [simp]:
  "tx_db (fresh_session db) = db" "settled (fresh_session db)"
  by (simp_all add: fresh_session_def settled_def)

text \<open>
  Every call of the service is a sequence of moves of the contract, ends committed, and is undisturbed
  if its expiry is.
\<close>

lemma call_refines:
  assumes "credit_ok db" and "proper call db" and "c \<longrightarrow> undisturbed show_time call db"
  shows "\<exists>db'. credit_exec show_time ttl call (fresh_session db) = fresh_session db' \<and> moves c db db'"
proof (cases call)
  case (Allocate now i t a)
  then show ?thesis
    using allocate_moves [of "fresh_session db" i c now a t show_time] assms by (auto simp: fresh_session_def settled_def)
next
  case (Attach now i t sub prov tier nam)
  then show ?thesis
    using attach_moves [of "fresh_session db" i now t sub prov tier nam c] assms
    by (auto simp: fresh_session_def settled_def)
next
  case (Reserve now i t p)
  then show ?thesis
    using reserve_moves [of "fresh_session db" i now ttl t p c] assms by (auto simp: fresh_session_def settled_def)
next
  case (Finalize now hold billable)
  then show ?thesis
    using finalize_moves [of "fresh_session db" hold now billable c] assms
    by (auto simp: fresh_session_def settled_def)
next
  case (Expire_remaining now t reason)
  then show ?thesis
    using expire_moves [of "fresh_session db" c show_time t now reason] assms
    by (auto simp: fresh_session_def settled_def)
next
  case (Deactivate now t reason)
  then show ?thesis
    using deactivate_moves [of "fresh_session db" c show_time t now reason] assms
    by (auto simp: fresh_session_def settled_def)
next
  case (Upgrade now t n sub key reason)
  then show ?thesis
    using upgrade_moves [of "fresh_session db" key now t n sub reason c] assms payment_not_internal
    by (auto simp: fresh_session_def settled_def)
qed

definition no_accounts :: credit_db where
  "no_accounts = \<lparr>cb_wallets = [], cb_ledger = [], cb_holds = []\<rparr>"

text \<open>The databases that proper calls build, with the flag for undisturbed ones.\<close>

inductive credit_reachable :: "(datetime \<Rightarrow> string) \<Rightarrow> timedelta \<Rightarrow> bool \<Rightarrow> credit_db \<Rightarrow> bool"
  for show_time ttl c where
  start: "credit_reachable show_time ttl c no_accounts"
| call: "credit_reachable show_time ttl c db \<Longrightarrow> proper call db \<Longrightarrow>
     c \<longrightarrow> undisturbed show_time call db \<Longrightarrow>
     credit_exec show_time ttl call (fresh_session db) = fresh_session db' \<Longrightarrow>
     credit_reachable show_time ttl c db'"

lemma no_accounts_ok: "credit_ok no_accounts" "books_ok no_accounts"
  by (simp_all add: credit_ok_def books_ok_def no_accounts_def ledger_keys_def tenant_ledger_def account_def
      get_wallet_def sql_select_def)

lemma reachable_ok:
  assumes "credit_reachable show_time ttl c db"
  shows "credit_ok db \<and> (c \<longrightarrow> books_ok db)"
  using assms
proof (induction rule: credit_reachable.induct)
  case start
  then show ?case using no_accounts_ok by simp
next
  case (call db cl db')
  then have ok: "credit_ok db" by simp
  from call_refines [OF ok call(2,3), of ttl] call(4) have "moves c db db'"
    by (auto simp: fresh_session_def)
  then show ?case
    using moves_keep_ok [of c db db'] moves_keep_books [of db db'] ok call.IH by (cases c) auto
qed

lemma distinct_constant: "distinct (map (\<lambda>_. k) xs) \<Longrightarrow> length xs \<le> 1"
  by (cases xs rule: remdups_adj.cases) auto

text \<open>A sequence of calls, each in a session of its own.\<close>

definition credit_after :: "(datetime \<Rightarrow> string) \<Rightarrow> timedelta \<Rightarrow> credit_call \<Rightarrow> credit_db \<Rightarrow> credit_db" where
  "credit_after show_time ttl call db = tx_db (credit_exec show_time ttl call (fresh_session db))"

fun proper_run ::
  "(datetime \<Rightarrow> string) \<Rightarrow> timedelta \<Rightarrow> bool \<Rightarrow> credit_call list \<Rightarrow> credit_db \<Rightarrow> bool" where
  "proper_run show_time ttl c [] db \<longleftrightarrow> True"
| "proper_run show_time ttl c (call # calls) db \<longleftrightarrow>
     proper call db \<and> (c \<longrightarrow> undisturbed show_time call db) \<and>
     proper_run show_time ttl c calls (credit_after show_time ttl call db)"

lemma run_reachable:
  "credit_reachable show_time ttl c db \<Longrightarrow> proper_run show_time ttl c calls db \<Longrightarrow>
     credit_reachable show_time ttl c (fold (credit_after show_time ttl) calls db)"
proof (induction calls arbitrary: db)
  case (Cons cl calls)
  then have step: "proper cl db" "c \<longrightarrow> undisturbed show_time cl db" by simp_all
  have "credit_ok db" using reachable_ok [OF Cons.prems(1)] by simp
  from call_refines [OF this step, of ttl] obtain db' where
    db': "credit_exec show_time ttl cl (fresh_session db) = fresh_session db'" by blast
  from credit_reachable.call [OF Cons.prems(1) step db'] Cons db' show ?case by (simp add: credit_after_def)
qed simp



definition sample_credit_calls :: "credit_call list" where
  "sample_credit_calls =
     [Allocate 10 ''W1'' ''t1''
        \<lparr>al_amount = 3, al_period_start = 0, al_period_end = 1000, al_idempotency_key = ''alloc:sub1:0'',
         al_reason = ''invoice paid'', al_subscription_id = None, al_plan_tier = ''pro'', al_plan_name = ''Pro''\<rparr>,
      Reserve 20 ''R1'' ''t1'' ''p1'',
      Finalize 30 \<lparr>hl_tenant_id = ''t1'', hl_recovery_plan_id = ''p1'', hl_reservation_id = ''R1'',
                   hl_already_billed = False\<rparr> True,
      Reserve 40 ''R2'' ''t1'' ''p1'',
      Reserve 50 ''R3'' ''t1'' ''p2'',
      Reserve 500 ''R4'' ''t1'' ''p3'']"

definition sample_credit_db :: credit_db where
  "sample_credit_db = fold (credit_after (\<lambda>_. ''T'') 100) sample_credit_calls no_accounts"

text \<open>The charged plan is not held again, and the hold of the second plan has expired.\<close>

lemma sample_credits:
  "proper_run (\<lambda>_. ''T'') 100 True sample_credit_calls no_accounts"
  "map le_kind (cb_ledger sample_credit_db) =
     [LK_ALLOCATION, LK_RESERVATION, LK_CONSUMPTION, LK_RESERVATION, LK_RELEASE, LK_RESERVATION]"
  "map available (cb_wallets sample_credit_db) = [1]"
  by code_simp+

lemma sample_credits_reachable: "credit_reachable (\<lambda>_. ''T'') 100 True sample_credit_db"
  unfolding sample_credit_db_def by (rule run_reachable [OF credit_reachable.start sample_credits(1)])



section \<open>Limits\<close>

text \<open>
  Two sessions that read a wallet before either writes it hold the same credit: neither the row is
  locked nor the update conditional.
\<close>

definition one_credit :: credit_db where
  "one_credit = credit_after (\<lambda>_. ''T'') 100
     (Allocate 10 ''W1'' ''t1''
        \<lparr>al_amount = 1, al_period_start = 0, al_period_end = 1000, al_idempotency_key = ''alloc:sub1:0'',
         al_reason = ''invoice paid'', al_subscription_id = None, al_plan_tier = ''pro'', al_plan_name = ''Pro''\<rparr>)
     no_accounts"

theorem concurrent_holds_overspend:
  "let w = hd (cb_wallets one_credit);
       (first, s1) = place_hold 20 100 ''R1'' ''t1'' ''p1'' w (fresh_session one_credit);
       (second, s2) = place_hold 21 100 ''R2'' ''t1'' ''p2'' w (fresh_session (tx_committed s1));
       held = (\<lambda>r. case r of Inl e \<Rightarrow> None | Inr hold \<Rightarrow> Some (hl_reservation_id hold))
   in available w = 1 \<and> held first = Some ''R1'' \<and> held second = Some ''R2'' \<and>
      length (active_holds ''t1'' (tx_committed s2)) = 2 \<and>
      map available (cb_wallets (tx_committed s2)) = [0]"
  by code_simp

text \<open>
  The key of an expiry names the period: a second expiry in the same period, after a new subscription,
  takes the credits without an entry.
\<close>

theorem second_expiry_unrecorded:
  "let again = Allocate 40 ''W2'' ''t1''
         \<lparr>al_amount = 5, al_period_start = 0, al_period_end = 1000, al_idempotency_key = ''alloc:sub2:0'',
          al_reason = ''invoice paid'', al_subscription_id = None, al_plan_tier = ''pro'', al_plan_name = ''Pro''\<rparr>;
       db = fold (credit_after (\<lambda>_. ''T'') 100)
              [Deactivate 30 ''t1'' ''canceled'', again, Deactivate 50 ''t1'' ''canceled''] one_credit
   in map available (cb_wallets db) = [0] \<and>
      map (\<lambda>e. (le_kind e, le_delta e)) (cb_ledger db) =
        [(LK_ALLOCATION, 1), (LK_EXPIRY, - 1), (LK_ALLOCATION, 5)]"
  by code_simp

text \<open>
  Credits that expire while a hold is active take its credit from the counters as well: once it is
  released, the ledger says that one credit is left and the wallet says none.
\<close>

theorem expiry_under_hold_loses_credit:
  "let db = fold (credit_after (\<lambda>_. ''T'') 100)
        [Upgrade 15 ''t1'' 3 None ''adjust:sub1:pro:3'' ''upgrade'', Reserve 20 ''R1'' ''t1'' ''p1'',
         Expire_remaining 30 ''t1'' ''end of period'',
         Finalize 40 \<lparr>hl_tenant_id = ''t1'', hl_recovery_plan_id = ''p1'', hl_reservation_id = ''R1'',
                      hl_already_billed = False\<rparr> False] one_credit
   in map available (cb_wallets db) = [0] \<and> sum_list (map le_delta (tenant_ledger ''t1'' db)) = 1"
  by code_simp

text \<open>
  The key of a consumption joins tenant and plan by a colon: a plan of the tenant \<open>a:b\<close> is not
  charged once another plan of the tenant \<open>a\<close> was.
\<close>

theorem consume_keys_collide:
  "let grant = (\<lambda>w t k. Allocate 10 w t
         \<lparr>al_amount = 1, al_period_start = 0, al_period_end = 1000, al_idempotency_key = k,
          al_reason = ''invoice paid'', al_subscription_id = None, al_plan_tier = ''pro'', al_plan_name = ''Pro''\<rparr>);
       finish = (\<lambda>t p i. Finalize 30 \<lparr>hl_tenant_id = t, hl_recovery_plan_id = p, hl_reservation_id = i,
                      hl_already_billed = False\<rparr> True);
       db = fold (credit_after (\<lambda>_. ''T'') 100)
         [grant ''W1'' ''a'' ''alloc:1:0'', grant ''W2'' ''a:b'' ''alloc:2:0'',
          Reserve 20 ''R1'' ''a'' ''b:c'', Reserve 20 ''R2'' ''a:b'' ''c'',
          finish ''a'' ''b:c'' ''R1'', finish ''a:b'' ''c'' ''R2''] no_accounts
   in map (\<lambda>w. (cw_tenant_id w, available w)) (cb_wallets db) = [(''a'', 0), (''a:b'', 1)] \<and>
      \<not> was_plan_consumed ''a:b'' ''c'' db"
  by code_simp

end
