(* ===== verification/Spec2Isabelle.thy ===== *)
theory Spec2Isabelle
  imports Plan_Lease Tenant_Quota Durable_Properties Orchestrator_Properties Planning_Properties
    Merkle_Properties Approval_Queue Circuit_Breaker Action_Control Emergency_Control
    State_Delta Recovery_Graph_Properties Execution_Gate Token_Scope Distributed_Lock Blast_Radius
    Recovery_Assessment Recovery_Credits
begin

text \<open>
  A verification development of Interlock, a control plane that decides which actions AI agents may
  take, records them, and recovers from the ones that went wrong. The program is Python under
  \<open>src/app\<close>; the theories model its core services as functions on explicit states.

  \<^bold>\<open>The parts and how they interact.\<close>
  An agent's action is stored as a protected action and evaluated: the control service asks the
  authorization service (nineteen checks, one of them the risk engine), the agent's authority
  grants, the versioned policy and once more the risk engine, and the action becomes permitted,
  denied or subject to approval in the human queue. When an action has to be undone, the planning
  service collects its descendants, orders them children first, classifies them, reserves tenant
  quota and runs compensations through adapters. Long plans are executed step by step by the
  distributed orchestrator, which holds a plan lease with a fencing token and writes each step
  through a fenced repository; a second repository coordinates workers, leases and plan states
  across processes. An admitted action is carried out under a signed token that is good for one
  execution; the execution routes check the token, the emergency state and the registered agent, and
  containment quarantines an agent and withdraws its grants, tokens and pending actions. After an
  incident the change set of an action is reconstructed from the evidence and its recovery is
  assessed and simulated. A tenant pays for a verified recovery with a prepaid credit, which is held
  before the plan runs and charged or released afterwards. The forensic log chains what happened into a Merkle tree, and a circuit
  breaker guards calls to external systems.

  \<^bold>\<open>The theories.\<close>
  \<^item> \<open>Interlock_Prelude\<close>: instants, Python values and exceptions, dictionaries, rows and tables with
    the SQL statements the repositories use. \<open>Fencing\<close>: the locale of stores that issue fencing
    tokens; \<open>Effects\<close>: computations that may raise and change a state.
  \<^item> \<open>Plan_Lease\<close>: \<open>InMemoryPlanLeaseStore\<close> (\<open>distributed_recovery_orchestrator.py\<close>) and
    \<open>SQLPlanLeaseStore\<close> (\<open>sqlalchemy_coordination_stores.py\<close>); one refines the other, tokens increase.
  \<^item> \<open>Tenant_Quota\<close>: \<open>tenant_quota_service.py\<close> over its two counter stores, as interpretations of one
    locale; exact admission and bounded compensation slots.
  \<^item> \<open>Durable_Coordination\<close>, \<open>Durable_Invariant\<close>, \<open>Durable_Properties\<close>:
    \<open>in_memory_durable_recovery_repository.py\<close> and \<open>durable_recovery_types.py\<close>; each locked method is
    one transition, the invariant is proved over all runs.
  \<^item> \<open>Recovery_Types\<close>: the enumerations and records of \<open>surgical_recovery_types.py\<close>,
    \<open>protected_action.py\<close>, \<open>recovery_plan.py\<close> and \<open>causal_state_types.py\<close>.
  \<^item> \<open>Step_Store\<close>: the step repository of \<open>sqlalchemy_causal_state_repositories.py\<close> and its write fence.
  \<^item> \<open>Orchestrator\<close>, \<open>Orchestrator_Properties\<close>: \<open>DistributedRecoveryOrchestrator\<close> with adapters as
    parameters that may change the whole state or raise; what each reported status means.
  \<^item> \<open>Plan_Order\<close>, \<open>Recovery_Planning\<close>, \<open>Planning_Properties\<close>: \<open>recovery_planning_service.py\<close> with
    the repositories of plans and actions; ordering, classification, simulation and execution.
  \<^item> \<open>Glob_Match\<close>, \<open>Risk_Engine\<close>, \<open>Authorization\<close>: \<open>fnmatch\<close>, \<open>risk_engine.py\<close> with its binary
    floating-point scores, \<open>authorization_service.py\<close>; what an ALLOW guarantees.
  \<^item> \<open>Policy_Engine\<close>: \<open>policy_store.py\<close> and \<open>central_policy_engine.py\<close>; totality, priority, rollback.
  \<^item> \<open>Authority\<close>, \<open>Authority_Properties\<close>: \<open>authority_lineage_service.py\<close>, the grant repository and the
    route that creates grants; delegation only attenuates, walks end, one-shot grants are used once.
  \<^item> \<open>Action_Control\<close>: \<open>action_control_service.py\<close>, the repository of protected actions and the
    evaluation route, composed of the four theories before it.
  \<^item> \<open>Emergency_Control\<close>: \<open>emergency_control_service.py\<close>, its table and the guard of the execution
    routes; a deny holds until it is lifted, and a restarted service decides as the old one.
  \<^item> \<open>Nonce_Store\<close>: the nonce stores in memory, in Redis and composed of both, with the Redis client; a
    consumed nonce is refused until it expires, across processes. \<open>Distributed_Lock\<close>:
    \<open>distributed_lock_service.py\<close> over the same client; a lock has one owner until it expires.
    \<open>Key_Manager\<close>:
    \<open>versioned_key_manager.py\<close>; which keys still verify after rotations and restarts.
  \<^item> \<open>Execution_Token\<close>, \<open>Token_Scope\<close>: \<open>ed25519_execution_token_service.py\<close> and
    \<open>token_scope_enforcement_service.py\<close>; soundness of verification, round trip, single use, agreement
    of the two scope checks.
  \<^item> \<open>Agent_Registry\<close>: agents, tokens, their repositories and \<open>token_revocation_service.py\<close>.
    \<open>Containment\<close>: \<open>cascade_containment_service.py\<close> with its events; a contained agent and its
    children are disarmed, the grandchildren are not. \<open>Execution_Gate\<close>: the execution routes of
    \<open>routes/intent.py\<close> with the agent sessions; what an execution guarantees, and that a contained
    agent executes nothing. \<open>Advanced_Containment\<close>: \<open>advanced_containment_service.py\<close>; verification of a
    containment is sound and passes after a cascade. \<open>Blast_Radius\<close>: the estimates of both services.
  \<^item> \<open>Merkle_Log\<close>, \<open>Merkle_Properties\<close>: \<open>merkle_audit_log_service.py\<close>, \<open>forensic_types.py\<close> and the
    in-memory repository; soundness of inclusion proofs up to collisions of the hash.
  \<^item> \<open>State_Delta\<close>: \<open>state_delta_engine.py\<close> with its three repositories; what subtracting a delta
    restores, the version chain of a resource, integrity of checkpoints.
  \<^item> \<open>Change_Set\<close>: \<open>changeset_reconstruction_service.py\<close> with its repositories; what a change set and
    a causal state graph contain. \<open>Recovery_Assessment\<close>: \<open>recovery_confidence_model.py\<close> and
    \<open>recovery_simulation_engine.py\<close>; what high confidence and a safe verdict mean for every action.
  \<^item> \<open>Recovery_Credits\<close>: \<open>recovery_credit_service.py\<close> over \<open>sqlalchemy_credit_repositories.py\<close>, with the
    enforcement of \<open>routes/_recovery_billing.py\<close>. Every call is a sequence of moves of an abstract
    account (\<open>credit_move\<close>); a plan is charged once, and the ledger reconciles with the wallet unless
    credits expire under a hold or twice in a period.
  \<^item> \<open>Cycle_Search\<close>, \<open>Dependency_Graph\<close>: the depth-first search two services share, and the dependency
    analysis of \<open>recovery_intelligence.py\<close>; reported cycles are exactly the cycles, the order is that
    of the planning service.
  \<^item> \<open>Recovery_Graph\<close>, \<open>Recovery_Graph_Properties\<close>: \<open>recovery_graph_types.py\<close>,
    \<open>causal_graph_service.py\<close>, \<open>graph_integration_service.py\<close> and the in-memory graph repository;
    traversals are exact, a difference leads from one snapshot to the other.
  \<^item> \<open>Approval_Queue\<close>: \<open>hitl_queue.py\<close>. \<open>Circuit_Breaker\<close>: \<open>circuit_breaker_service.py\<close>, as a family of
    independent automata.

  \<^bold>\<open>Conventions.\<close>
  A datetime is an instant in microseconds; where a missing time zone matters it is a \<open>stamp\<close>. Every
  clock reading and every identifier drawn from \<open>secrets\<close> or \<open>uuid4\<close> is an argument; the readings
  within one call are one instant. A raised exception is \<open>Inl\<close> of a \<open>py_error\<close>; message texts that
  the source formats from several values are shortened. Tables are lists of rows; where SQL leaves
  the order of equal keys open, the table order is taken. SHA-256, \<open>json.dumps\<close> and
  \<open>datetime.fromisoformat\<close>, the Redis driver, base64, the signature and the JWT decoder are parameters; what a property needs of them is a hypothesis of its
  statement (hash collisions are part of the conclusion instead).

  \<^bold>\<open>Bounds.\<close>
  No definition uses fuel. Loops are structural or have a termination proof, except three walks along
  parent links (\<open>Authority\<close>), which are partial functions and are shown to end on every table the
  operations build, and the traversal of \<open>analyze_cascading_impact\<close>, which is a partial function
  because it does not always end. The limits of the source are kept as they are: 500 listed steps, 1000
  descendants, 5000 grants, 9 levels of delegation.

  \<^bold>\<open>What properties show of the code's limits.\<close>
  Some theorems prove behaviour that a comment or a docstring of the source denies, for instance that
  a verified claim covers only the listed steps, that resumption repeats an unconfirmed step, that a
  revoked grant can permit an action, that one person can give two approvals, or that the root of the
  audit log does not fix the number of entries, that the gate before a local change ignores the
  emergency state, that releasing an expired lock can free the lock of its next owner, or that two
  sessions can hold the same credit. They are stated on concrete runs.

  \<^bold>\<open>Not modelled.\<close>
  Cancellation and other \<open>BaseException\<close>s, recursion limits, metrics and logging; the Redis mirror of
  the approval queue; reading the policy file; the other HTTP routes and the wiring of the
  application; scoring, session rollback, independent verification, certification, incident
  orchestration, payment and identity services; key files for hardware modules and the other key managers; the recovery adapters themselves, which act on files, databases and repositories and
  enter the models as parameters.
\<close>

end
